(* ===== verification/Prelude.thy ===== *)
theory Prelude
  imports Complex_Main "HOL-Library.Product_Lexorder" "HOL-Library.Option_ord" "HOL-Library.Multiset"
begin

text \<open>
  What the component theories share: the names of the model's basic types, the application's error
  values (\<^verbatim>\<open>src/utils/errors.ts\<close>), the SQL idioms every service uses (a table is the list of
  its rows; \<^verbatim>\<open>WHERE\<close>, \<^verbatim>\<open>ORDER BY\<close>, \<^verbatim>\<open>LIMIT\<close>, \<^verbatim>\<open>UPDATE ... WHERE\<close> and
  \<^verbatim>\<open>ON CONFLICT DO NOTHING\<close> are list functions), and the lemmas about them.

  Times are milliseconds since the epoch, as \<open>Date.getTime()\<close> counts them, and identifiers are
  strings. A database transaction that throws is rolled back, so an operation that fails returns an
  error and no new state.
\<close>

section \<open>Types and collections of facts\<close>

type_synonym uuid = string

type_synonym ms = int

named_theorems row_simps "what an UPDATE does to one row"

named_theorems table_simps "what the SQL idioms do to a table"

text \<open>
  The errors of \<^verbatim>\<open>src/utils/errors.ts\<close> that the modelled code raises, \<open>RateLimitedError\<close> for its
  \<open>AppError\<close> with status 429, and \<open>PlainError\<close> for a bare \<open>throw new Error(...)\<close>.
\<close>

datatype appError =
    BadRequestError string
  | NotFoundError string
  | ConflictError string
  | UnauthorizedError string
  | ForbiddenError string
  | SenderDomainRequiredError string
  | RateLimitedError string
  | PlainError string

fun statusCode :: "appError \<Rightarrow> nat" where
  "statusCode (BadRequestError _) = 400"
| "statusCode (NotFoundError _) = 404"
| "statusCode (ConflictError _) = 409"
| "statusCode (UnauthorizedError _) = 401"
| "statusCode (ForbiddenError _) = 403"
| "statusCode (SenderDomainRequiredError _) = 409"
| "statusCode (RateLimitedError _) = 429"
| "statusCode (PlainError _) = 500"

definition notFound :: "string \<Rightarrow> string \<Rightarrow> appError" where
  "notFound resource i =
     NotFoundError (if i = [] then resource @ '' not found''
       else resource @ '' with ID '' @ [CHR 0x27] @ i @ [CHR 0x27] @ '' not found'')"

text \<open>A JSON value, as \<^verbatim>\<open>JSON.parse\<close> returns it and a \<^verbatim>\<open>jsonb\<close> column holds it.\<close>

datatype json =
    JNull
  | JBool bool
  | JNum int
  | JStr string
  | JArr "json list"
  | JObj "(string \<times> json) list"

section \<open>Results that may be errors\<close>

definition ebind :: "'e + 'a \<Rightarrow> ('a \<Rightarrow> 'e + 'b) \<Rightarrow> 'e + 'b" where
  "ebind r f = (case r of Inl e \<Rightarrow> Inl e | Inr x \<Rightarrow> f x)"

definition guard :: "bool \<Rightarrow> 'e \<Rightarrow> 'e + 'a \<Rightarrow> 'e + 'a" where
  "guard bad e r = (if bad then Inl e else r)"

lemma guard_simps [simp]:
  "guard True e r = Inl e"
  "guard False e r = r"
  by (simp_all add: guard_def)

lemma guard_Inr_iff [simp]: "guard bad e r = Inr x \<longleftrightarrow> \<not> bad \<and> r = Inr x"
  by (simp add: guard_def)

lemma ebind_simps [simp]:
  "ebind (Inl e) f = Inl e"
  "ebind (Inr x) f = f x"
  by (simp_all add: ebind_def)

lemma ebind_Inr_iff: "ebind r f = Inr y \<longleftrightarrow> (\<exists>x. r = Inr x \<and> f x = Inr y)"
  by (cases r) auto

section \<open>Tables\<close>

text \<open>
  \<open>updateWhere p f t\<close> is \<^verbatim>\<open>UPDATE t SET f WHERE p\<close>; \<open>deleteWhere p t\<close> is
  \<^verbatim>\<open>DELETE FROM t WHERE p\<close>; \<open>executeTakeFirst\<close> of a query is \<open>List.find\<close>. \<open>orderedLimit\<close> is
  \<^verbatim>\<open>ORDER BY key LIMIT n\<close>, with rows of equal key in table order.
\<close>

definition updateWhere :: "('r \<Rightarrow> bool) \<Rightarrow> ('r \<Rightarrow> 'r) \<Rightarrow> 'r list \<Rightarrow> 'r list" where
  "updateWhere p f t = map (\<lambda>r. if p r then f r else r) t"

definition deleteWhere :: "('r \<Rightarrow> bool) \<Rightarrow> 'r list \<Rightarrow> 'r list" where
  "deleteWhere p t = filter (\<lambda>r. \<not> p r) t"

definition orderedLimit :: "('r \<Rightarrow> 'k::linorder) \<Rightarrow> nat \<Rightarrow> 'r list \<Rightarrow> 'r list" where
  "orderedLimit key n t = take n (sort_key key t)"

text \<open>\<open>insertOnConflictDoNothing\<close> answers whether the row went in, as \<^verbatim>\<open>RETURNING\<close> does.\<close>

definition insertOnConflictDoNothing ::
    "('r \<Rightarrow> 'k) \<Rightarrow> 'r \<Rightarrow> 'r list \<Rightarrow> 'r list \<times> bool" where
  "insertOnConflictDoNothing key r t =
     (if key r \<in> key ` set t then (t, False) else (t @ [r], True))"

text \<open>A clamp, as the code writes it: \<open>Math.max(lo, Math.min(hi, x))\<close>.\<close>

definition clamp :: "int \<Rightarrow> int \<Rightarrow> int \<Rightarrow> int" where
  "clamp lo hi x = max lo (min hi x)"

lemma clamp_bounds: "lo \<le> hi \<Longrightarrow> lo \<le> clamp lo hi x \<and> clamp lo hi x \<le> hi"
  by (auto simp: clamp_def)

subsection \<open>Lemmas about tables\<close>

lemma updateWhere_Nil [table_simps]: "updateWhere p f [] = []"
  by (simp add: updateWhere_def)

lemma updateWhere_Cons [table_simps]:
  "updateWhere p f (r # t) = (if p r then f r else r) # updateWhere p f t"
  by (simp add: updateWhere_def)

lemma length_updateWhere [simp]: "length (updateWhere p f t) = length t"
  by (simp add: updateWhere_def)

lemma set_updateWhere: "set (updateWhere p f t) = (\<lambda>r. if p r then f r else r) ` set t"
  by (simp add: updateWhere_def)

lemma updateWhere_in: "r \<in> set t \<Longrightarrow> p r \<Longrightarrow> f r \<in> set (updateWhere p f t)"
  by (force simp: set_updateWhere)

lemma in_updateWhereE:
  assumes "r' \<in> set (updateWhere p f t)"
  obtains r where "r \<in> set t" "p r" "r' = f r"
    | "r' \<in> set t" "\<not> p r'"
  using assms by (auto simp: set_updateWhere split: if_splits)

lemma map_updateWhere:
  "(\<And>r. p r \<Longrightarrow> key (f r) = key r) \<Longrightarrow> map key (updateWhere p f t) = map key t"
  by (simp add: updateWhere_def)

lemma updateWhere_none: "(\<And>r. r \<in> set t \<Longrightarrow> \<not> p r) \<Longrightarrow> updateWhere p f t = t"
  by (induction t) (auto simp: updateWhere_def)

lemma updateWhere_cong:
  assumes "\<And>r. r \<in> set t \<Longrightarrow> p r = q r" and "\<And>r. r \<in> set t \<Longrightarrow> q r \<Longrightarrow> f r = g r"
  shows "updateWhere p f t = updateWhere q g t"
  using assms by (simp add: updateWhere_def)

lemma set_deleteWhere [simp]: "set (deleteWhere p t) = {r \<in> set t. \<not> p r}"
  by (auto simp: deleteWhere_def)

lemma deleteWhere_none: "(\<And>r. r \<in> set t \<Longrightarrow> \<not> p r) \<Longrightarrow> deleteWhere p t = t"
  by (simp add: deleteWhere_def)

lemma distinct_map_deleteWhere: "distinct (map key t) \<Longrightarrow> distinct (map key (deleteWhere p t))"
  by (simp add: deleteWhere_def distinct_map_filter)

lemma set_orderedLimit_subset: "set (orderedLimit key n t) \<subseteq> set t"
  by (auto simp: orderedLimit_def dest: in_set_takeD)

lemma length_orderedLimit: "length (orderedLimit key n t) \<le> n"
  by (simp add: orderedLimit_def)

lemma length_orderedLimit_eq: "length (orderedLimit key n t) = min n (length t)"
  by (simp add: orderedLimit_def)

lemma sorted_orderedLimit: "sorted (map key (orderedLimit key n t))"
proof -
  have "sorted (map key (sort_key key t))" by simp
  then have "sorted (take n (map key (sort_key key t)))" by (rule sorted_wrt_take)
  then show ?thesis by (simp add: orderedLimit_def take_map)
qed

lemma distinct_map_orderedLimit:
  assumes "distinct (map f t)"
  shows "distinct (map f (orderedLimit key n t))"
proof -
  have "mset (map f (sort_key key t)) = mset (map f t)" by (simp add: mset_map)
  with assms have "distinct (map f (sort_key key t))"
    by (metis mset_eq_imp_distinct_iff)
  then have "distinct (take n (map f (sort_key key t)))" by (rule distinct_take)
  then show ?thesis by (simp add: orderedLimit_def take_map)
qed

text \<open>What was left out of an \<^verbatim>\<open>ORDER BY ... LIMIT\<close> is no earlier than what was taken.\<close>

lemma orderedLimit_minimal:
  assumes "r \<in> set (orderedLimit key n t)" and "r' \<in> set t"
    and "r' \<notin> set (orderedLimit key n t)"
  shows "key r \<le> key r'"
proof -
  let ?s = "sort_key key t"
  have "r' \<in> set (take n ?s @ drop n ?s)" using assms(2) by simp
  with assms(3) have d: "r' \<in> set (drop n ?s)"
    unfolding set_append orderedLimit_def by blast
  have "sorted (map key (take n ?s @ drop n ?s))" by simp
  then have "\<forall>x\<in>set (map key (take n ?s)). \<forall>y\<in>set (map key (drop n ?s)). x \<le> y"
    unfolding map_append sorted_append by blast
  with assms(1) d show ?thesis by (auto simp: orderedLimit_def)
qed

lemma find_Some_in: "List.find p t = Some r \<Longrightarrow> r \<in> set t \<and> p r"
  by (induction t) (auto split: if_splits)

lemma find_None_iff_all: "List.find p t = None \<longleftrightarrow> (\<forall>r\<in>set t. \<not> p r)"
  by (induction t) auto

lemma find_key_None: "List.find (\<lambda>r. key r = k) t = None \<longleftrightarrow> k \<notin> key ` set t"
  by (induction t) auto

lemma find_updateWhere:
  assumes "\<And>r. p (f r) = p r"
  shows "List.find p (updateWhere q f t) = map_option (\<lambda>r. if q r then f r else r) (List.find p t)"
  using assms by (induction t) (auto simp: updateWhere_def)

lemma find_append: "List.find p (xs @ ys) = (case List.find p xs of None \<Rightarrow> List.find p ys | Some r \<Rightarrow> Some r)"
  by (induction xs) auto

lemma disjoint_keysI: "(\<And>x. x \<in> B \<Longrightarrow> key x \<notin> key ` A) \<Longrightarrow> key ` A \<inter> key ` B = {}"
proof (rule equals0I)
  fix k assume apart: "\<And>x. x \<in> B \<Longrightarrow> key x \<notin> key ` A" and "k \<in> key ` A \<inter> key ` B"
  then have "k \<in> key ` A" "k \<in> key ` B" by simp_all
  from this(2) obtain b where "b \<in> B" "k = key b" by (rule imageE)
  with apart \<open>k \<in> key ` A\<close> show False by simp
qed

text \<open>Two rows of a table that agree on a unique key are the same row.\<close>

lemma distinct_key_eq:
  "distinct (map key t) \<Longrightarrow> r \<in> set t \<Longrightarrow> s \<in> set t \<Longrightarrow> key r = key s \<Longrightarrow> r = s"
  by (auto simp: distinct_map inj_on_def)

lemma find_key_unique:
  assumes "distinct (map key t)" and "r \<in> set t"
  shows "List.find (\<lambda>x. key x = key r) t = Some r"
proof (cases "List.find (\<lambda>x. key x = key r) t")
  case None
  with assms(2) show ?thesis by (auto simp: find_None_iff_all)
next
  case (Some s)
  then have "s \<in> set t" and "key s = key r" by (auto dest: find_Some_in)
  with assms have "s = r" by (blast intro: distinct_key_eq)
  with Some show ?thesis by simp
qed

lemma insertOnConflict_set:
  "set (fst (insertOnConflictDoNothing key r t)) =
     (if snd (insertOnConflictDoNothing key r t) then insert r (set t) else set t)"
  by (auto simp: insertOnConflictDoNothing_def)

lemma insertOnConflict_distinct:
  "distinct (map key t) \<Longrightarrow> distinct (map key (fst (insertOnConflictDoNothing key r t)))"
  by (auto simp: insertOnConflictDoNothing_def)

lemma set_map_filter: "set (List.map_filter f xs) = {y. \<exists>x\<in>set xs. f x = Some y}"
  by (induction xs) (auto split: option.splits)

text \<open>Invariants of a run: what every step keeps, a whole list of steps keeps.\<close>

lemma fold_invariant:
  assumes "P s" and "\<And>x s. x \<in> set xs \<Longrightarrow> P s \<Longrightarrow> P (f x s)"
  shows "P (fold f xs s)"
  using assms by (induction xs arbitrary: s) auto

section \<open>State machines\<close>

text \<open>
  The states a machine can be in, for any set of initial states and any step relation, and the
  interface of an invariant: what holds at the start and survives every step holds in every reachable
  state, and along every run from a state where it holds.
\<close>

inductive reachable :: "('s \<Rightarrow> bool) \<Rightarrow> ('s \<Rightarrow> 's \<Rightarrow> bool) \<Rightarrow> 's \<Rightarrow> bool"
  for init :: "'s \<Rightarrow> bool" and step :: "'s \<Rightarrow> 's \<Rightarrow> bool" where
  reach_init: "init s \<Longrightarrow> reachable init step s"
| reach_step: "reachable init step s \<Longrightarrow> step s s' \<Longrightarrow> reachable init step s'"

locale machine =
  fixes init :: "'s \<Rightarrow> bool" and step :: "'s \<Rightarrow> 's \<Rightarrow> bool" and inv :: "'s \<Rightarrow> bool"
  assumes inv_init: "init s \<Longrightarrow> inv s"
    and inv_step: "inv s \<Longrightarrow> step s s' \<Longrightarrow> inv s'"
begin

lemma inv_reachable: "reachable init step s \<Longrightarrow> inv s"
  by (induction rule: reachable.induct) (auto intro: inv_init inv_step)

lemma inv_run: "step\<^sup>*\<^sup>* s s' \<Longrightarrow> inv s \<Longrightarrow> inv s'"
  by (induction rule: rtranclp_induct) (auto intro: inv_step)

lemma reachable_run: "step\<^sup>*\<^sup>* s s' \<Longrightarrow> reachable init step s \<Longrightarrow> reachable init step s'"
  by (induction rule: rtranclp_induct) (auto intro: reach_step)

end

lemmas table_intros = set_orderedLimit_subset [THEN subsetD] find_Some_in

end
