(* ===== verification/JsText.thy ===== *)
theory JsText
  imports Prelude
begin

text \<open>
  The JavaScript string operations the source uses, on \<open>string\<close> (a list of \<open>char\<close>). A \<open>char\<close> is a
  code unit below 256, so the model covers the strings whose characters are in U+0000 to U+00FF;
  on those, \<open>jsSpace\<close>, \<open>toLowerCase\<close> and the others are what ECMAScript defines
  (\<^verbatim>\<open>\s\<close> is U+0009 to U+000D, U+0020 and U+00A0 there, and lower-casing moves the two upper-case
  ranges of Latin-1).

  Regular expressions are written as the character-class tests they stand for, each beside the
  operation that uses it.
\<close>

section \<open>Characters\<close>

abbreviation code :: "char \<Rightarrow> nat" where
  "code \<equiv> of_char"

definition jsSpace :: "char \<Rightarrow> bool" where
  "jsSpace c \<longleftrightarrow> (9 \<le> code c \<and> code c \<le> 13) \<or> code c = 32 \<or> code c = 160"

definition isDigit :: "char \<Rightarrow> bool" where
  "isDigit c \<longleftrightarrow> 48 \<le> code c \<and> code c \<le> 57"

definition isLower :: "char \<Rightarrow> bool" where
  "isLower c \<longleftrightarrow> 97 \<le> code c \<and> code c \<le> 122"

definition isUpper :: "char \<Rightarrow> bool" where
  "isUpper c \<longleftrightarrow> 65 \<le> code c \<and> code c \<le> 90"

definition digitVal :: "char \<Rightarrow> nat" where
  "digitVal c = code c - 48"

definition digitChar :: "nat \<Rightarrow> char" where
  "digitChar n = char_of (48 + n)"

definition lowerChar :: "char \<Rightarrow> char" where
  "lowerChar c =
     (if isUpper c \<or> (192 \<le> code c \<and> code c \<le> 222 \<and> code c \<noteq> 215)
      then char_of (code c + 32) else c)"

section \<open>Strings\<close>

definition trimStart :: "string \<Rightarrow> string" where
  "trimStart s = dropWhile jsSpace s"

definition trimEnd :: "string \<Rightarrow> string" where
  "trimEnd s = rev (dropWhile jsSpace (rev s))"

definition trim :: "string \<Rightarrow> string" where
  "trim s = trimEnd (trimStart s)"

definition toLowerCase :: "string \<Rightarrow> string" where
  "toLowerCase s = map lowerChar s"

text \<open>\<open>s.split(c)\<close> and \<open>parts.join(sep)\<close>.\<close>

fun splitOn :: "'a \<Rightarrow> 'a list \<Rightarrow> 'a list list" where
  "splitOn c [] = [[]]"
| "splitOn c (x # xs) =
     (if x = c then [] # splitOn c xs
      else (case splitOn c xs of [] \<Rightarrow> [[x]] | w # ws \<Rightarrow> (x # w) # ws))"

fun joinWith :: "'a list \<Rightarrow> 'a list list \<Rightarrow> 'a list" where
  "joinWith sep [] = []"
| "joinWith sep [w] = w"
| "joinWith sep (w # ws) = w @ sep @ joinWith sep ws"

definition startsWith :: "string \<Rightarrow> string \<Rightarrow> bool" where
  "startsWith s p \<longleftrightarrow> take (length p) s = p"

fun strIncludes :: "string \<Rightarrow> string \<Rightarrow> bool" where
  "strIncludes [] p \<longleftrightarrow> p = []"
| "strIncludes (c # s) p \<longleftrightarrow> startsWith (c # s) p \<or> strIncludes s p"

definition endsWith :: "string \<Rightarrow> string \<Rightarrow> bool" where
  "endsWith s p \<longleftrightarrow> length p \<le> length s \<and> drop (length s - length p) s = p"

text \<open>
  \<open>s.lastIndexOf(c)\<close> as the split it is used for: the part before the last \<open>c\<close> and the part after
  it, or \<open>None\<close> where the index is -1.
\<close>

definition splitLast :: "char \<Rightarrow> string \<Rightarrow> (string \<times> string) option" where
  "splitLast c s =
     (if c \<in> set s
      then Some (rev (drop 1 (dropWhile (\<lambda>x. x \<noteq> c) (rev s))), rev (takeWhile (\<lambda>x. x \<noteq> c) (rev s)))
      else None)"

text \<open>The same for \<open>s.indexOf(c)\<close>.\<close>

definition splitFirst :: "char \<Rightarrow> string \<Rightarrow> (string \<times> string) option" where
  "splitFirst c s =
     (if c \<in> set s
      then Some (takeWhile (\<lambda>x. x \<noteq> c) s, drop 1 (dropWhile (\<lambda>x. x \<noteq> c) s))
      else None)"

text \<open>\<open>s.replace(/\s+/g, " ")\<close>: every run of white space becomes one space.\<close>

fun collapseSpaces :: "string \<Rightarrow> string" where
  "collapseSpaces [] = []"
| "collapseSpaces (c # cs) =
     (if jsSpace c
      then (if cs \<noteq> [] \<and> jsSpace (hd cs) then collapseSpaces cs else CHR '' '' # collapseSpaces cs)
      else c # collapseSpaces cs)"

text \<open>\<open>Number(s)\<close> for a string of digits, and \<open>String(n)\<close>.\<close>

definition digitsVal :: "string \<Rightarrow> nat" where
  "digitsVal s = foldl (\<lambda>n c. 10 * n + digitVal c) 0 s"

fun decimal :: "nat \<Rightarrow> string" where
  "decimal n = (if n < 10 then [digitChar n] else decimal (n div 10) @ [digitChar (n mod 10)])"

declare decimal.simps [simp del]

definition padStart2 :: "string \<Rightarrow> string" where
  "padStart2 s = replicate (2 - length s) (CHR ''0'') @ s"

text \<open>The double quotes of a template string.\<close>

definition quoted :: "string \<Rightarrow> string" where
  "quoted s = [CHR 0x22] @ s @ [CHR 0x22]"

text \<open>\<open>a || b\<close> on strings that may be absent: the empty string is false.\<close>

definition truthy :: "string option \<Rightarrow> bool" where
  "truthy s \<longleftrightarrow> (case s of Some x \<Rightarrow> x \<noteq> [] | None \<Rightarrow> False)"

section \<open>Lemmas\<close>

lemma code_char_of: "n < 256 \<Longrightarrow> code (char_of n) = n"
  by simp

lemma jsSpace_lowerChar [simp]: "jsSpace (lowerChar c) = jsSpace c"
  by (auto simp: lowerChar_def isUpper_def jsSpace_def code_char_of)

lemma lowerChar_idem [simp]: "lowerChar (lowerChar c) = lowerChar c"
  by (auto simp: lowerChar_def isUpper_def code_char_of)

lemma lower_append [simp]: "toLowerCase (a @ b) = toLowerCase a @ toLowerCase b"
  by (simp add: toLowerCase_def)

lemma lower_idem [simp]: "toLowerCase (toLowerCase s) = toLowerCase s"
  by (simp add: toLowerCase_def)

lemma lower_trim: "toLowerCase (trim s) = trim (toLowerCase s)"
proof -
  have drop: "dropWhile jsSpace (map lowerChar x) = map lowerChar (dropWhile jsSpace x)" for x
    by (induction x) simp_all
  show ?thesis
    unfolding trim_def trimEnd_def trimStart_def toLowerCase_def
    by (simp only: drop rev_map)
qed

lemma dropWhile_idem [simp]: "dropWhile P (dropWhile P xs) = dropWhile P xs"
  by (induction xs) auto

lemma trimEnd_idem [simp]: "trimEnd (trimEnd s) = trimEnd s"
  by (simp add: trimEnd_def)

lemma trimEnd_snoc: "trimEnd (s @ [c]) = (if jsSpace c then trimEnd s else s @ [c])"
  by (simp add: trimEnd_def)

lemma set_trim_subset: "set (trim s) \<subseteq> set s"
  unfolding trim_def trimEnd_def trimStart_def
  by (metis set_dropWhileD set_rev subsetI)

lemma trimEnd_hd:
  "s \<noteq> [] \<Longrightarrow> \<not> jsSpace (hd s) \<Longrightarrow> trimEnd s \<noteq> [] \<and> hd (trimEnd s) = hd s"
proof (induction s rule: rev_induct)
  case (snoc c s)
  then show ?case by (cases "s = []") (auto simp: trimEnd_def hd_append)
qed simp

lemma trimStart_hd: "trimStart s \<noteq> [] \<Longrightarrow> \<not> jsSpace (hd (trimStart s))"
  unfolding trimStart_def by (rule hd_dropWhile)

lemma trimStart_id: "s = [] \<or> \<not> jsSpace (hd s) \<Longrightarrow> trimStart s = s"
  unfolding trimStart_def by (cases s) auto

lemma hd_trim: "trim s \<noteq> [] \<Longrightarrow> \<not> jsSpace (hd (trim s))"
  unfolding trim_def
  by (metis trimEnd_hd trimStart_hd trimEnd_def rev.simps(1) dropWhile.simps(1))

lemma trim_idem [simp]: "trim (trim s) = trim s"
proof -
  have "trimStart (trim s) = trim s"
    using hd_trim by (blast intro: trimStart_id)
  moreover have "trimEnd (trim s) = trim s" by (simp add: trim_def)
  ultimately show ?thesis by (metis trim_def)
qed

lemma trim_nonempty: "s \<noteq> [] \<Longrightarrow> \<not> jsSpace (hd s) \<Longrightarrow> trim s \<noteq> []"
  unfolding trim_def by (simp add: trimStart_id trimEnd_hd)

lemma trim_Nil [simp]: "trim [] = []"
  by (simp add: trim_def trimEnd_def trimStart_def)

lemma splitOn_nonempty [simp]: "splitOn c s \<noteq> []"
  by (induction s) (auto split: list.splits)

lemma splitOn_no_sep: "c \<notin> set s \<Longrightarrow> splitOn c s = [s]"
  by (induction s) auto

lemma splitOn_append: "c \<notin> set w \<Longrightarrow> splitOn c (w @ c # s) = w # splitOn c s"
  by (induction w) auto

lemma splitOn_parts: "w \<in> set (splitOn c s) \<Longrightarrow> c \<notin> set w"
proof (induction s arbitrary: w)
  case (Cons x s)
  show ?case
  proof (cases "splitOn c s")
    case Nil
    then show ?thesis by simp
  next
    case (Cons v vs)
    with Cons.prems Cons.IH show ?thesis by (auto split: if_splits)
  qed
qed simp

lemma join_splitOn: "joinWith [c] (splitOn c s) = s"
proof (induction s)
  case (Cons x s)
  obtain w ws where sp: "splitOn c s = w # ws"
    by (meson neq_Nil_conv splitOn_nonempty)
  with Cons.IH show ?case by (cases ws) auto
qed simp

lemma splitOn_join:
  "ws \<noteq> [] \<Longrightarrow> (\<And>w. w \<in> set ws \<Longrightarrow> c \<notin> set w) \<Longrightarrow> splitOn c (joinWith [c] ws) = ws"
proof (induction "[c]" ws rule: joinWith.induct)
  case (3 w v vs)
  then show ?case using splitOn_append [of c w] by simp
qed (auto simp: splitOn_no_sep)

lemma splitLast_Some:
  "splitLast c s = Some (a, b) \<Longrightarrow> s = a @ c # b \<and> c \<notin> set b"
proof -
  assume h: "splitLast c s = Some (a, b)"
  then have mem: "c \<in> set s"
    and a: "a = rev (drop 1 (dropWhile (\<lambda>x. x \<noteq> c) (rev s)))"
    and b: "b = rev (takeWhile (\<lambda>x. x \<noteq> c) (rev s))"
    by (auto simp: splitLast_def split: if_splits)
  from mem have ne: "dropWhile (\<lambda>x. x \<noteq> c) (rev s) \<noteq> []"
    by (auto simp: dropWhile_eq_Nil_conv)
  then have "dropWhile (\<lambda>x. x \<noteq> c) (rev s) = c # drop 1 (dropWhile (\<lambda>x. x \<noteq> c) (rev s))"
    using hd_dropWhile [OF ne] by (cases "dropWhile (\<lambda>x. x \<noteq> c) (rev s)") auto
  then have "rev s = takeWhile (\<lambda>x. x \<noteq> c) (rev s) @ c # drop 1 (dropWhile (\<lambda>x. x \<noteq> c) (rev s))"
    by (metis takeWhile_dropWhile_id)
  then have "rev s = rev b @ c # rev a" by (simp add: a b)
  then have "s = rev (rev b @ c # rev a)" by (metis rev_rev_ident)
  then show ?thesis by (auto simp: b dest: set_takeWhileD)
qed

lemma takeWhile_sep: "c \<notin> set xs \<Longrightarrow> takeWhile (\<lambda>x. x \<noteq> c) (xs @ c # ys) = xs"
  by (induction xs) auto

lemma dropWhile_sep: "c \<notin> set xs \<Longrightarrow> dropWhile (\<lambda>x. x \<noteq> c) (xs @ c # ys) = c # ys"
  by (induction xs) auto

lemma splitLast_append: "c \<notin> set b \<Longrightarrow> splitLast c (a @ c # b) = Some (a, b)"
  by (simp add: splitLast_def takeWhile_sep dropWhile_sep)

lemma splitFirst_append: "c \<notin> set a \<Longrightarrow> splitFirst c (a @ c # b) = Some (a, b)"
  by (simp add: splitFirst_def takeWhile_sep dropWhile_sep)

lemma digitVal_digitChar: "n < 10 \<Longrightarrow> digitVal (digitChar n) = n"
  by (simp add: digitVal_def digitChar_def code_char_of)

lemma isDigit_digitChar: "n < 10 \<Longrightarrow> isDigit (digitChar n)"
  by (simp add: isDigit_def digitChar_def code_char_of)

lemma digitsVal_append: "digitsVal (s @ [c]) = 10 * digitsVal s + digitVal c"
  by (simp add: digitsVal_def)

text \<open>\<open>Number(String(n)) = n\<close>.\<close>

lemma digitsVal_decimal [simp]: "digitsVal (decimal n) = n"
proof (induction n rule: decimal.induct)
  case (1 n)
  show ?case
  proof (cases "n < 10")
    case True
    then show ?thesis
      by (subst decimal.simps) (simp add: digitsVal_def digitVal_digitChar)
  next
    case False
    with "1.IH" show ?thesis
      by (subst decimal.simps) (simp add: digitsVal_append digitVal_digitChar)
  qed
qed

lemma decimal_digits: "\<forall>c\<in>set (decimal n). isDigit c"
proof (induction n rule: decimal.induct)
  case (1 n)
  then show ?case
    by (cases "n < 10"; subst decimal.simps) (auto simp: isDigit_digitChar)
qed

lemma decimal_nonempty [simp]: "decimal n \<noteq> []"
  by (subst decimal.simps) simp

lemma decimal_inject [simp]: "decimal m = decimal n \<longleftrightarrow> m = n"
  by (metis digitsVal_decimal)

end
