(* ===== verification/EventData.thy ===== *)
theory EventData
  imports JsText
begin

text \<open>
  The durable event log: its tables (\<^verbatim>\<open>src/db/schema.ts\<close>, \<^verbatim>\<open>events\<close>,
  \<^verbatim>\<open>event_subscriptions\<close>, \<^verbatim>\<open>event_deliveries\<close>, \<^verbatim>\<open>event_handler_receipts\<close>), the
  handler registry of \<^verbatim>\<open>src/lib/events.ts\<close>, and the two operations that put rows in:
  \<open>publishEvent\<close> and \<open>syncSubscriptionsFromRegistry\<close>.

  Identifiers that the code draws (\<open>uuidv7()\<close>, \<^verbatim>\<open>gen_random_uuid()\<close>) and the database clock are
  arguments. A row's \<open>updated_at\<close> is set by a trigger on every update; it is kept for subscriptions,
  where the code reads it.
\<close>

section \<open>Tables\<close>

datatype eventSource = App | Platform | External

datatype subscriptionKind = KHandler | KWebhook

datatype deliveryStatus = Pending | Running | Done | Failed | Dead

record eventRow =
  evId :: uuid
  evOrg :: "uuid option"
  evTopic :: string
  evKey :: "string option"
  evPayload :: json
  evSource :: eventSource
  evCreatedAt :: ms

record subscriptionRow =
  subId :: uuid
  subOrg :: "uuid option"
  subTopic :: string
  subHandler :: string
  subKind :: subscriptionKind
  subMaxAttempts :: nat
  subUrl :: "string option"
  subSecretRef :: "string option"
  subActive :: bool
  subUpdatedAt :: ms

record deliveryRow =
  delId :: uuid
  delEvent :: uuid
  delSub :: uuid
  delStatus :: deliveryStatus
  delAttempts :: nat
  delNextAttemptAt :: ms
  delLastError :: "string option"
  delClaimedBy :: "string option"
  delClaimedAt :: "ms option"
  delDoneAt :: "ms option"
  delCreatedAt :: ms

record receiptRow =
  rcSub :: uuid
  rcKey :: string
  rcEvent :: uuid
  rcDelivery :: "uuid option"
  rcCompletedAt :: "ms option"

record eventsDb =
  events :: "eventRow list"
  subscriptions :: "subscriptionRow list"
  deliveries :: "deliveryRow list"
  receipts :: "receiptRow list"

definition emptyDb :: eventsDb where
  "emptyDb = \<lparr>events = [], subscriptions = [], deliveries = [], receipts = []\<rparr>"

text \<open>The joins the queries use.\<close>

definition eventOf :: "eventsDb \<Rightarrow> deliveryRow \<Rightarrow> eventRow option" where
  "eventOf db d = List.find (\<lambda>e. evId e = delEvent d) (events db)"

definition subscriptionOf :: "eventsDb \<Rightarrow> deliveryRow \<Rightarrow> subscriptionRow option" where
  "subscriptionOf db d = List.find (\<lambda>s. subId s = delSub d) (subscriptions db)"

section \<open>Topics and the handler registry\<close>

text \<open>\<open>TOPIC_PATTERN\<close>: \<^verbatim>\<open>/^[a-z0-9_]+(\.[a-z0-9_]+)+$/\<close>, at least two non-empty segments.\<close>

definition topicChar :: "char \<Rightarrow> bool" where
  "topicChar c \<longleftrightarrow> isLower c \<or> isDigit c \<or> c = CHR ''_''"

definition topicPattern :: "string \<Rightarrow> bool" where
  "topicPattern t \<longleftrightarrow>
     (let segs = splitOn (CHR ''.'') t
      in 2 \<le> length segs \<and> list_all (\<lambda>w. w \<noteq> [] \<and> list_all topicChar w) segs)"

definition DEFAULT_RETRIES :: nat where
  "DEFAULT_RETRIES = 7"

text \<open>
  What one run of a handler comes to under \<open>runWithTimeout\<close>: it returns in time, throws, or is still
  running when the timer fires.
\<close>

datatype attemptResult = Returned | Threw string | TimedOut

text \<open>
  An \<open>idempotencyKey\<close> function may throw (\<open>Inl\<close> the error's text) instead of answering a key. A
  handler is its effect on one attempt: what it does to the database is \<open>peMeanwhile\<close> of
  \<open>EventProcess\<close>.
\<close>

record registeredHandler =
  rhTopic :: string
  rhName :: string
  rhHandler :: "eventRow \<Rightarrow> nat \<Rightarrow> attemptResult"
  rhMaxAttempts :: nat
  rhIdempotencyKey :: "(eventRow \<Rightarrow> string + string) option"

type_synonym registry = "registeredHandler list"

definition registryKey :: "string \<Rightarrow> string \<Rightarrow> string" where
  "registryKey topic name = topic @ [CHR 0x0A] @ name"

definition registryGet :: "registry \<Rightarrow> string \<Rightarrow> string \<Rightarrow> registeredHandler option" where
  "registryGet reg topic name =
     List.find (\<lambda>h. registryKey (rhTopic h) (rhName h) = registryKey topic name) reg"

record handlerOptions =
  hoRetries :: "rat option"
  hoIdempotencyKey :: "(eventRow \<Rightarrow> string + string) option"
  hoName :: "string option"

text \<open>\<open>registerEventHandler\<close>: the checks in the code's order, then the entry goes in last.\<close>

definition registerEventHandler ::
    "string \<Rightarrow> string \<Rightarrow> (eventRow \<Rightarrow> nat \<Rightarrow> attemptResult) \<Rightarrow> handlerOptions \<Rightarrow> registry
      \<Rightarrow> appError + registry \<times> registeredHandler" where
  "registerEventHandler topic fnName fn opts reg =
     guard (\<not> topicPattern topic)
       (PlainError (''event topic '' @ quoted topic
          @ '' must be noun.past_tense (lowercase segments joined by dots)''))
     (let name = (case hoName opts of Some n \<Rightarrow> n | None \<Rightarrow> fnName) in
      guard (name = [])
        (PlainError (''event handler for '' @ quoted topic @ '' is anonymous; pass { name }''))
      (guard (registryGet reg topic name \<noteq> None)
        (PlainError (''event handler '' @ quoted name @ '' is already registered for '' @ quoted topic))
       (let retries = (case hoRetries opts of Some r \<Rightarrow> r | None \<Rightarrow> of_nat DEFAULT_RETRIES) in
        guard (of_int \<lfloor>retries\<rfloor> \<noteq> retries \<or> retries < 0)
          (PlainError (''retries for '' @ quoted topic @ ''/'' @ quoted name
             @ '' must be a non-negative integer''))
        (let entry = \<lparr>rhTopic = topic, rhName = name, rhHandler = fn,
                      rhMaxAttempts = nat \<lfloor>retries\<rfloor> + 1,
                      rhIdempotencyKey = hoIdempotencyKey opts\<rparr>
         in Inr (reg @ [entry], entry)))))"

definition getRunnableHandlers :: "registry \<Rightarrow> (string \<times> string) list" where
  "getRunnableHandlers reg = map (\<lambda>h. (rhTopic h, rhName h)) reg"

section \<open>Publishing\<close>

definition assertPlainObject :: "json \<Rightarrow> string \<Rightarrow> appError + json" where
  "assertPlainObject value what =
     (case value of
        JObj _ \<Rightarrow> Inr value
      | _ \<Rightarrow> Inl (PlainError (what @ '' must be a plain object'')))"

record publishEventInput =
  inTopic :: string
  inKey :: "string option"
  inPayload :: "json option"
  inSource :: "eventSource option"
  inOrg :: "uuid option"
  inId :: "uuid option"

record publishResult =
  prId :: uuid
  prTopic :: string
  prDeliveries :: nat
  prInserted :: bool

text \<open>The fanout's \<^verbatim>\<open>WHERE\<close>: active subscriptions for the topic, global ones and the event's org's.\<close>

definition subscriptionMatches :: "string \<Rightarrow> uuid option \<Rightarrow> subscriptionRow \<Rightarrow> bool" where
  "subscriptionMatches topic org s \<longleftrightarrow>
     subTopic s = topic \<and> subActive s \<and>
     (case org of
        None \<Rightarrow> subOrg s = None
      | Some o' \<Rightarrow> subOrg s = None \<or> subOrg s = Some o')"

text \<open>The defaults of a new \<^verbatim>\<open>event_deliveries\<close> row.\<close>

definition newDelivery :: "uuid \<Rightarrow> uuid \<Rightarrow> uuid \<Rightarrow> ms \<Rightarrow> deliveryRow" where
  "newDelivery i ev sub now =
     \<lparr>delId = i, delEvent = ev, delSub = sub, delStatus = Pending, delAttempts = 0,
      delNextAttemptAt = now, delLastError = None, delClaimedBy = None, delClaimedAt = None,
      delDoneAt = None, delCreatedAt = now\<rparr>"

text \<open>
  \<open>newId\<close> is what \<open>uuidv7()\<close> draws, \<open>deliveryId s\<close> what \<^verbatim>\<open>gen_random_uuid()\<close> draws for the row of
  subscription \<open>s\<close>.
\<close>

definition publishEvent ::
    "uuid \<Rightarrow> (uuid \<Rightarrow> uuid) \<Rightarrow> ms \<Rightarrow> publishEventInput \<Rightarrow> eventsDb \<Rightarrow> appError + eventsDb \<times> publishResult"
  where
  "publishEvent newId deliveryId now inp db =
     guard (\<not> topicPattern (inTopic inp))
       (PlainError (''event topic '' @ quoted (inTopic inp) @ '' must be noun.past_tense''))
     (ebind (assertPlainObject (case inPayload inp of Some p \<Rightarrow> p | None \<Rightarrow> JObj []) ''event payload'')
       (\<lambda>payload.
         let i = (case inId inp of Some x \<Rightarrow> x | None \<Rightarrow> newId);
             row = \<lparr>evId = i, evOrg = inOrg inp, evTopic = inTopic inp, evKey = inKey inp,
                    evPayload = payload,
                    evSource = (case inSource inp of Some s \<Rightarrow> s | None \<Rightarrow> App),
                    evCreatedAt = now\<rparr>;
             (evs, inserted) = insertOnConflictDoNothing evId row (events db)
         in if \<not> inserted
            then Inr (db, \<lparr>prId = i, prTopic = inTopic inp, prDeliveries = 0, prInserted = False\<rparr>)
            else (let subs = filter (subscriptionMatches (inTopic inp) (inOrg inp)) (subscriptions db);
                      rows = map (\<lambda>s. newDelivery (deliveryId (subId s)) i (subId s) now) subs
                  in Inr (db\<lparr>events := evs, deliveries := deliveries db @ rows\<rparr>,
                          \<lparr>prId = i, prTopic = inTopic inp, prDeliveries = length subs,
                           prInserted = True\<rparr>))))"

section \<open>Subscriptions follow the registry\<close>

definition SUBSCRIPTION_DEACTIVATE_GRACE_MS :: ms where
  "SUBSCRIPTION_DEACTIVATE_GRACE_MS = 60 * 60 * 1000"

text \<open>
  The upsert's conflict target is the partial unique index on (topic, handler) of global rows. An
  update sets the attempts budget and \<open>active\<close>, and its trigger stamps \<open>updated_at\<close>.
\<close>

definition sameGlobal :: "string \<Rightarrow> string \<Rightarrow> subscriptionRow \<Rightarrow> bool" where
  "sameGlobal topic name s \<longleftrightarrow> subOrg s = None \<and> subTopic s = topic \<and> subHandler s = name"

definition upsertHandlerSubscription ::
    "(string \<Rightarrow> string \<Rightarrow> uuid) \<Rightarrow> ms \<Rightarrow> registeredHandler \<Rightarrow> subscriptionRow list \<Rightarrow> subscriptionRow list"
  where
  "upsertHandlerSubscription subscriptionId now entry subs =
     (if \<exists>s\<in>set subs. sameGlobal (rhTopic entry) (rhName entry) s
      then updateWhere (sameGlobal (rhTopic entry) (rhName entry))
             (\<lambda>s. s\<lparr>subMaxAttempts := rhMaxAttempts entry, subActive := True, subUpdatedAt := now\<rparr>) subs
      else subs @ [\<lparr>subId = subscriptionId (rhTopic entry) (rhName entry), subOrg = None,
                    subTopic = rhTopic entry, subHandler = rhName entry, subKind = KHandler,
                    subMaxAttempts = rhMaxAttempts entry, subUrl = None, subSecretRef = None,
                    subActive = True, subUpdatedAt = now\<rparr>])"

definition deactivates :: "registry \<Rightarrow> ms \<Rightarrow> ms \<Rightarrow> subscriptionRow \<Rightarrow> bool" where
  "deactivates entries graceMs now s \<longleftrightarrow>
     subOrg s = None \<and> subKind s = KHandler \<and> subActive s \<and> subUpdatedAt s < now - graceMs \<and>
     \<not> (\<exists>e\<in>set entries. subTopic s = rhTopic e \<and> subHandler s = rhName e)"

definition syncSubscriptionsFromRegistry ::
    "(string \<Rightarrow> string \<Rightarrow> uuid) \<Rightarrow> ms \<Rightarrow> ms option \<Rightarrow> registry \<Rightarrow> eventsDb \<Rightarrow> eventsDb \<times> nat \<times> nat"
  where
  "syncSubscriptionsFromRegistry subscriptionId now grace entries db =
     (let graceMs = max 0 (case grace of Some g \<Rightarrow> g | None \<Rightarrow> SUBSCRIPTION_DEACTIVATE_GRACE_MS);
          upserted = fold (upsertHandlerSubscription subscriptionId now) entries (subscriptions db);
          gone = filter (deactivates entries graceMs now) upserted
      in (db\<lparr>subscriptions := updateWhere (deactivates entries graceMs now)
               (\<lambda>s. s\<lparr>subActive := False, subUpdatedAt := now\<rparr>) upserted\<rparr>,
          length entries, length gone))"

end
