(* ===== verification/EventQueue.thy ===== *)
theory EventQueue
  imports EventData
begin

text \<open>
  The delivery queue of \<^verbatim>\<open>src/lib/events.ts\<close>: one definition per transaction. \<open>claimDeliveries\<close>
  takes due rows under \<^verbatim>\<open>FOR UPDATE SKIP LOCKED\<close> (the rows other open transactions hold are the
  argument \<open>locked\<close>), \<open>completeDelivery\<close>, \<open>failDelivery\<close> and \<open>releaseClaims\<close> write the outcome under
  the claim token, \<open>replayDelivery\<close>, \<open>requeueStaleDeliveries\<close> and \<open>sweepEventRetention\<close> are the
  operator's and the reaper's lanes. \<open>now\<close> is the database clock, constant inside a transaction.
\<close>

section \<open>Claiming\<close>

record claimedDelivery =
  cdId :: uuid
  cdSub :: uuid
  cdClaimedBy :: string
  cdAttempts :: nat
  cdMaxAttempts :: nat
  cdHandler :: string
  cdKind :: subscriptionKind
  cdUrl :: "string option"
  cdSecretRef :: "string option"
  cdEvent :: eventRow

text \<open>The claim token every status write is fenced on: (id, claimed_by, attempts).\<close>

type_synonym claimToken = "uuid \<times> string \<times> nat"

definition tokenOf :: "claimedDelivery \<Rightarrow> claimToken" where
  "tokenOf c = (cdId c, cdClaimedBy c, cdAttempts c)"

text \<open>\<open>readPayload\<close>: an object as it is; a string is parsed (\<open>parseJson\<close>); anything else is \<open>{}\<close>.\<close>

definition readPayload :: "(string \<Rightarrow> json option) \<Rightarrow> json \<Rightarrow> json" where
  "readPayload parseJson raw =
     (case raw of
        JStr s \<Rightarrow> (case parseJson s of
            None \<Rightarrow> JObj []
          | Some v \<Rightarrow> (case assertPlainObject v ''event payload'' of Inl _ \<Rightarrow> JObj [] | Inr p \<Rightarrow> p))
      | JObj kvs \<Rightarrow> JObj kvs
      | _ \<Rightarrow> JObj [])"

record claimOptions =
  coClaimedBy :: string
  coTopics :: "string list option"
  coRunnableHandlers :: "(string \<times> string) list option"
  coTimeoutMs :: "int option"

definition WRITE_TIMEOUT_MS :: int where
  "WRITE_TIMEOUT_MS = 5000"

definition topicFilter :: "claimOptions \<Rightarrow> eventRow \<Rightarrow> bool" where
  "topicFilter opts e \<longleftrightarrow>
     (case coTopics opts of Some ts \<Rightarrow> ts = [] \<or> evTopic e \<in> set ts | None \<Rightarrow> True)"

definition handlerFilter :: "claimOptions \<Rightarrow> eventRow \<Rightarrow> subscriptionRow \<Rightarrow> bool" where
  "handlerFilter opts e s \<longleftrightarrow>
     (case coRunnableHandlers opts of
        None \<Rightarrow> True
      | Some hs \<Rightarrow> subKind s \<noteq> KHandler \<or> (evTopic e, subHandler s) \<in> set hs)"

definition claimable :: "claimOptions \<Rightarrow> ms \<Rightarrow> eventsDb \<Rightarrow> deliveryRow \<Rightarrow> bool" where
  "claimable opts now db d \<longleftrightarrow>
     (case (eventOf db d, subscriptionOf db d) of
        (Some e, Some s) \<Rightarrow>
          (delStatus d = Pending \<or> delStatus d = Failed) \<and> delNextAttemptAt d \<le> now \<and>
          subActive s \<and> topicFilter opts e \<and> handlerFilter opts e s
      | _ \<Rightarrow> False)"

definition claimLimit :: "int \<Rightarrow> nat" where
  "claimLimit batch = nat (clamp 1 500 batch)"

definition picked ::
    "uuid set \<Rightarrow> int \<Rightarrow> claimOptions \<Rightarrow> ms \<Rightarrow> eventsDb \<Rightarrow> deliveryRow list" where
  "picked locked batch opts now db =
     orderedLimit (\<lambda>d. (delNextAttemptAt d, delCreatedAt d)) (claimLimit batch)
       (filter (\<lambda>d. claimable opts now db d \<and> delId d \<notin> locked) (deliveries db))"

definition claimRow :: "string \<Rightarrow> ms \<Rightarrow> deliveryRow \<Rightarrow> deliveryRow" where
  "claimRow who now d =
     d\<lparr>delStatus := Running, delClaimedBy := Some who, delClaimedAt := Some now,
       delAttempts := delAttempts d + 1\<rparr>"

definition toClaimedDelivery ::
    "(string \<Rightarrow> json option) \<Rightarrow> string \<Rightarrow> eventRow \<Rightarrow> subscriptionRow \<Rightarrow> deliveryRow \<Rightarrow> claimedDelivery" where
  "toClaimedDelivery parseJson who e s d =
     \<lparr>cdId = delId d, cdSub = delSub d, cdClaimedBy = who, cdAttempts = delAttempts d,
      cdMaxAttempts = subMaxAttempts s, cdHandler = subHandler s, cdKind = subKind s,
      cdUrl = subUrl s, cdSecretRef = subSecretRef s,
      cdEvent = e\<lparr>evPayload := readPayload parseJson (evPayload e)\<rparr>\<rparr>"

definition returnedRows ::
    "(string \<Rightarrow> json option) \<Rightarrow> string \<Rightarrow> ms \<Rightarrow> eventsDb \<Rightarrow> deliveryRow list \<Rightarrow> claimedDelivery list" where
  "returnedRows parseJson who now db ds =
     List.map_filter
       (\<lambda>d. case (eventOf db d, subscriptionOf db d) of
              (Some e, Some s) \<Rightarrow> Some (toClaimedDelivery parseJson who e s (claimRow who now d))
            | _ \<Rightarrow> None) ds"

text \<open>The claim transaction: what it writes and what it returns.\<close>

definition claimTransaction ::
    "(string \<Rightarrow> json option) \<Rightarrow> uuid set \<Rightarrow> int \<Rightarrow> claimOptions \<Rightarrow> ms \<Rightarrow> eventsDb
      \<Rightarrow> eventsDb \<times> claimedDelivery list" where
  "claimTransaction parseJson locked batch opts now db =
     (let ps = picked locked batch opts now db in
      (db\<lparr>deliveries := updateWhere (\<lambda>d. delId d \<in> delId ` set ps)
            (claimRow (coClaimedBy opts) now) (deliveries db)\<rparr>,
       returnedRows parseJson (coClaimedBy opts) now db ps))"

section \<open>Status writes under the claim token\<close>

definition fenced :: "claimToken \<Rightarrow> deliveryRow \<Rightarrow> bool" where
  "fenced tk d \<longleftrightarrow>
     (case tk of (i, who, n) \<Rightarrow>
        delId d = i \<and> delStatus d = Running \<and> delClaimedBy d = Some who \<and> delAttempts d = n)"

definition dropReceipts :: "uuid set \<Rightarrow> receiptRow list \<Rightarrow> receiptRow list" where
  "dropReceipts ids rs =
     deleteWhere (\<lambda>r. case rcDelivery r of Some i \<Rightarrow> i \<in> ids | None \<Rightarrow> False) rs"

definition releaseRow :: "ms \<Rightarrow> deliveryRow \<Rightarrow> deliveryRow" where
  "releaseRow due d =
     d\<lparr>delStatus := Pending, delAttempts := delAttempts d - 1, delClaimedBy := None,
       delClaimedAt := None, delNextAttemptAt := due\<rparr>"

definition releaseClaims :: "claimToken list \<Rightarrow> int \<Rightarrow> ms \<Rightarrow> eventsDb \<Rightarrow> eventsDb \<times> nat" where
  "releaseClaims tks delay now db =
     (if tks = [] then (db, 0)
      else (let delayMs = max 0 delay;
                hit = (\<lambda>d. \<exists>tk\<in>set tks. fenced tk d);
                ids = map delId (filter hit (deliveries db))
            in (db\<lparr>deliveries := updateWhere hit (releaseRow (now + delayMs)) (deliveries db),
                   receipts := dropReceipts (set ids) (receipts db)\<rparr>, length ids)))"

text \<open>
  How the claim's transaction and the caller's timer interleave: in time; the timer fires before the
  transaction starts, or while the \<^verbatim>\<open>UPDATE\<close> runs (the flag is checked at both points and the
  transaction rolls back); or in the last round trip, after which the rows are handed straight back
  (at the clock reading given), unless that release fails too, which is only logged.
\<close>

datatype claimTiming = InTime | GaveUpBeforeStart | GaveUpDuringUpdate | GaveUpBeforeCommitReturned ms bool

definition claimTimeoutMs :: "claimOptions \<Rightarrow> int" where
  "claimTimeoutMs opts = max 1 (case coTimeoutMs opts of Some t \<Rightarrow> t | None \<Rightarrow> WRITE_TIMEOUT_MS)"

definition claimTimeoutError :: "claimOptions \<Rightarrow> appError" where
  "claimTimeoutError opts =
     PlainError (''claim timed out after '' @ decimal (nat (claimTimeoutMs opts))
       @ ''ms (including pool acquisition)'')"

definition claimDeliveries ::
    "(string \<Rightarrow> json option) \<Rightarrow> uuid set \<Rightarrow> claimTiming \<Rightarrow> int \<Rightarrow> claimOptions \<Rightarrow> ms \<Rightarrow> eventsDb
      \<Rightarrow> eventsDb \<times> (appError + claimedDelivery list)" where
  "claimDeliveries parseJson locked timing batch opts now db =
     (case timing of
        InTime \<Rightarrow> (case claimTransaction parseJson locked batch opts now db of
                     (db', rows) \<Rightarrow> (db', Inr rows))
      | GaveUpBeforeStart \<Rightarrow> (db, Inl (claimTimeoutError opts))
      | GaveUpDuringUpdate \<Rightarrow> (db, Inl (claimTimeoutError opts))
      | GaveUpBeforeCommitReturned later released \<Rightarrow>
          (case claimTransaction parseJson locked batch opts now db of
             (db', rows) \<Rightarrow>
               (if rows = [] \<or> \<not> released then db' else fst (releaseClaims (map tokenOf rows) 0 later db'),
                Inl (claimTimeoutError opts))))"

definition completeRow :: "ms \<Rightarrow> deliveryRow \<Rightarrow> deliveryRow" where
  "completeRow now d = d\<lparr>delStatus := Done, delDoneAt := Some now, delLastError := None\<rparr>"

text \<open>
  The receipt upsert: this delivery's reservation is stamped, a missing row is written, another
  delivery's row is left alone. An insert whose references are gone is refused by the foreign keys,
  which rolls the whole transaction back.
\<close>

definition fkViolation :: appError where
  "fkViolation = PlainError ''insert or update on table event_handler_receipts violates foreign key constraint''"

definition receiptFk :: "eventsDb \<Rightarrow> uuid \<Rightarrow> uuid \<Rightarrow> uuid \<Rightarrow> bool" where
  "receiptFk db sub ev i \<longleftrightarrow>
     sub \<in> subId ` set (subscriptions db) \<and> ev \<in> evId ` set (events db) \<and>
     i \<in> delId ` set (deliveries db)"

definition completeReceipt ::
    "uuid \<Rightarrow> string \<Rightarrow> uuid \<Rightarrow> uuid \<Rightarrow> ms \<Rightarrow> eventsDb \<Rightarrow> appError + receiptRow list" where
  "completeReceipt sub key ev i now db =
     (if (sub, key) \<in> (\<lambda>r. (rcSub r, rcKey r)) ` set (receipts db)
      then Inr (updateWhere (\<lambda>r. rcSub r = sub \<and> rcKey r = key \<and> rcDelivery r = Some i)
             (\<lambda>r. r\<lparr>rcCompletedAt := Some now\<rparr>) (receipts db))
      else guard (\<not> receiptFk db sub ev i) fkViolation
        (Inr (receipts db @ [\<lparr>rcSub = sub, rcKey = key, rcEvent = ev, rcDelivery = Some i,
                              rcCompletedAt = Some now\<rparr>])))"

definition completeDelivery ::
    "claimToken \<Rightarrow> uuid \<Rightarrow> uuid \<Rightarrow> string option \<Rightarrow> ms \<Rightarrow> eventsDb \<Rightarrow> appError + eventsDb \<times> bool" where
  "completeDelivery tk sub ev key now db =
     (let dels = updateWhere (fenced tk) (completeRow now) (deliveries db);
          updated = (\<exists>d\<in>set (deliveries db). fenced tk d)
      in case key of
           None \<Rightarrow> Inr (db\<lparr>deliveries := dels\<rparr>, updated)
         | Some k \<Rightarrow> ebind (completeReceipt sub k ev (fst tk) now db)
             (\<lambda>rs. Inr (db\<lparr>deliveries := dels, receipts := rs\<rparr>, updated)))"

section \<open>Backoff\<close>

definition BACKOFF_BASE_MS :: int where
  "BACKOFF_BASE_MS = 1000"

definition BACKOFF_CAP_MS :: int where
  "BACKOFF_CAP_MS = 60 * 60 * 1000"

text \<open>\<open>Math.round\<close> of a rational; \<open>random\<close> is the value the generator returned.\<close>

definition jsRound :: "rat \<Rightarrow> int" where
  "jsRound x = \<lfloor>x + 1 / 2\<rfloor>"

definition backoffExp :: "nat \<Rightarrow> int" where
  "backoffExp attempt = min BACKOFF_CAP_MS (BACKOFF_BASE_MS * 2 ^ (attempt - 1))"

definition computeBackoffMs :: "nat \<Rightarrow> rat \<Rightarrow> int" where
  "computeBackoffMs attempt random =
     (let e = of_int (backoffExp attempt); r = min 1 (max 0 random)
      in jsRound (e / 2 + r * (e / 2)))"

datatype failOutcome = FailedOutcome int | DeadOutcome

definition failRow :: "bool \<Rightarrow> string \<Rightarrow> ms \<Rightarrow> deliveryRow \<Rightarrow> deliveryRow" where
  "failRow dead msg due d =
     d\<lparr>delStatus := (if dead then Dead else Failed), delLastError := Some msg,
       delNextAttemptAt := due\<rparr>"

definition errorMessage :: "string \<Rightarrow> string" where
  "errorMessage err = take 2000 err"

definition failDelivery ::
    "claimToken \<Rightarrow> nat \<Rightarrow> string \<Rightarrow> rat \<Rightarrow> int \<Rightarrow> ms \<Rightarrow> eventsDb \<Rightarrow> eventsDb \<times> failOutcome" where
  "failDelivery tk maxAttempts err random minDelayMs now db =
     (let attempts = snd (snd tk);
          dead = (attempts \<ge> maxAttempts);
          delayMs = (if dead then 0 else max (computeBackoffMs attempts random) minDelayMs);
          hit = (\<exists>d\<in>set (deliveries db). fenced tk d)
      in (db\<lparr>deliveries := updateWhere (fenced tk)
                (failRow dead (errorMessage err) (now + delayMs)) (deliveries db),
             receipts := (if hit then dropReceipts {fst tk} (receipts db) else receipts db)\<rparr>,
          if dead then DeadOutcome else FailedOutcome delayMs))"

section \<open>Replay, reaper, retention\<close>

definition replayable :: "uuid \<Rightarrow> deliveryRow \<Rightarrow> bool" where
  "replayable i d \<longleftrightarrow> delId d = i \<and> delStatus d \<in> {Dead, Failed, Done}"

definition replayDelivery :: "uuid \<Rightarrow> ms \<Rightarrow> eventsDb \<Rightarrow> eventsDb \<times> bool" where
  "replayDelivery i now db =
     (db\<lparr>deliveries := updateWhere (replayable i)
          (\<lambda>d. d\<lparr>delStatus := Pending, delAttempts := 0, delNextAttemptAt := now,
                 delLastError := None\<rparr>) (deliveries db)\<rparr>,
      \<exists>d\<in>set (deliveries db). replayable i d)"

definition stale :: "ms \<Rightarrow> eventsDb \<Rightarrow> deliveryRow \<Rightarrow> bool" where
  "stale before db d \<longleftrightarrow>
     delStatus d = Running \<and> subscriptionOf db d \<noteq> None \<and>
     (case delClaimedAt d of Some t \<Rightarrow> t < before | None \<Rightarrow> False)"

definition requeueRow :: "ms \<Rightarrow> eventsDb \<Rightarrow> deliveryRow \<Rightarrow> deliveryRow" where
  "requeueRow now db d =
     d\<lparr>delStatus := (case subscriptionOf db d of
           Some s \<Rightarrow> if delAttempts d \<ge> subMaxAttempts s then Dead else Failed
         | None \<Rightarrow> delStatus d),
       delLastError := Some ''stale claim: consumer did not finish'',
       delNextAttemptAt := now\<rparr>"

definition requeueStaleDeliveries :: "int \<Rightarrow> ms \<Rightarrow> eventsDb \<Rightarrow> eventsDb \<times> nat" where
  "requeueStaleDeliveries staleAfterMs now db =
     (let staleMs = max 0 staleAfterMs;
          hit = stale (now - staleMs) db;
          ids = map delId (filter hit (deliveries db))
      in (db\<lparr>deliveries := updateWhere hit (requeueRow now db) (deliveries db),
             receipts := dropReceipts (set ids) (receipts db)\<rparr>, length ids))"

text \<open>
  One batch of a retention sweep deletes at most \<open>batch\<close> rows (the first ones in table order) and the
  loop stops at a short batch. Deleting a delivery clears the receipts' pointer to it
  (\<^verbatim>\<open>ON DELETE SET NULL\<close>); deleting an event takes its deliveries and receipts with it
  (\<^verbatim>\<open>ON DELETE CASCADE\<close>).
\<close>

definition dayMs :: ms where
  "dayMs = 24 * 60 * 60 * 1000"

definition doneLongAgo :: "ms \<Rightarrow> deliveryRow \<Rightarrow> bool" where
  "doneLongAgo before d \<longleftrightarrow>
     delStatus d = Done \<and> (case delDoneAt d of Some t \<Rightarrow> t < before | None \<Rightarrow> False)"

definition holdsEvent :: "eventsDb \<Rightarrow> deliveryRow \<Rightarrow> bool" where
  "holdsEvent db d \<longleftrightarrow>
     delStatus d \<in> {Pending, Running, Failed} \<and>
     (case subscriptionOf db d of Some s \<Rightarrow> subActive s | None \<Rightarrow> False)"

definition eventExpired :: "ms \<Rightarrow> eventsDb \<Rightarrow> eventRow \<Rightarrow> bool" where
  "eventExpired before db e \<longleftrightarrow>
     evCreatedAt e < before \<and>
     \<not> (\<exists>d\<in>set (deliveries db). delEvent d = evId e \<and> holdsEvent db d)"

definition clearDelivery :: "uuid set \<Rightarrow> receiptRow list \<Rightarrow> receiptRow list" where
  "clearDelivery ids rs =
     updateWhere (\<lambda>r. case rcDelivery r of Some i \<Rightarrow> i \<in> ids | None \<Rightarrow> False)
       (\<lambda>r. r\<lparr>rcDelivery := None\<rparr>) rs"

definition deleteDoneBatch :: "ms \<Rightarrow> nat \<Rightarrow> eventsDb \<Rightarrow> eventsDb \<times> nat" where
  "deleteDoneBatch before batch db =
     (let ids = map delId (take batch (filter (doneLongAgo before) (deliveries db)))
      in (db\<lparr>deliveries := deleteWhere (\<lambda>d. delId d \<in> set ids) (deliveries db),
             receipts := clearDelivery (set ids) (receipts db)\<rparr>, length ids))"

definition deleteEventBatch :: "ms \<Rightarrow> nat \<Rightarrow> eventsDb \<Rightarrow> eventsDb \<times> nat" where
  "deleteEventBatch before batch db =
     (let ids = map evId (take batch (filter (eventExpired before db) (events db)));
          gone = map delId (filter (\<lambda>d. delEvent d \<in> set ids) (deliveries db))
      in (db\<lparr>events := deleteWhere (\<lambda>e. evId e \<in> set ids) (events db),
             deliveries := deleteWhere (\<lambda>d. delEvent d \<in> set ids) (deliveries db),
             receipts := clearDelivery (set gone)
               (deleteWhere (\<lambda>r. rcEvent r \<in> set ids) (receipts db))\<rparr>, length ids))"

fun sweepLoop :: "nat \<Rightarrow> nat \<Rightarrow> (eventsDb \<Rightarrow> eventsDb \<times> nat) \<Rightarrow> eventsDb \<Rightarrow> eventsDb \<times> nat" where
  "sweepLoop 0 batch del db = (db, 0)"
| "sweepLoop (Suc left) batch del db =
     (case del db of (db', n) \<Rightarrow>
        if n < batch then (db', n)
        else (case sweepLoop left batch del db' of (db'', m) \<Rightarrow> (db'', n + m)))"

record retentionOptions =
  roDoneDeliveriesAfterDays :: int
  roEventsAfterDays :: int
  roBatch :: "int option"
  roMaxBatches :: "int option"

definition sweepEventRetention :: "retentionOptions \<Rightarrow> ms \<Rightarrow> eventsDb \<Rightarrow> eventsDb \<times> nat \<times> nat" where
  "sweepEventRetention opts now db =
     (let batch = nat (clamp 1 10000 (case roBatch opts of Some b \<Rightarrow> b | None \<Rightarrow> 1000));
          maxBatches = nat (clamp 1 1000 (case roMaxBatches opts of Some b \<Rightarrow> b | None \<Rightarrow> 20));
          deliveryDays = roDoneDeliveriesAfterDays opts;
          eventDays = roEventsAfterDays opts;
          (db1, n1) = (if deliveryDays > 0
             then sweepLoop maxBatches batch (deleteDoneBatch (now - deliveryDays * dayMs) batch) db
             else (db, 0));
          (db2, n2) = (if eventDays > 0
             then sweepLoop maxBatches batch (deleteEventBatch (now - eventDays * dayMs) batch) db1
             else (db1, 0))
      in (db2, n1, n2))"

end
