(* ===== verification/EventSigning.thy ===== *)
theory EventSigning
  imports JsText
begin

text \<open>
  \<^verbatim>\<open>src/lib/event-signing.ts\<close>: the signature on every event that crosses an HTTP boundary.
  \<open>hmacHex secret message\<close> is \<^verbatim>\<open>createHmac("sha256", secret).update(message).digest("hex")\<close> of
  node:crypto; what the code relies on is that it answers 64 lower-case hexadecimal digits
  (\<open>hexDigest\<close>). \<open>timingSafeEqual\<close> on two buffers of one length is equality.
\<close>

definition isHexLower :: "char \<Rightarrow> bool" where
  "isHexLower c \<longleftrightarrow> isDigit c \<or> (97 \<le> code c \<and> code c \<le> 102)"

definition hexDigest :: "string \<Rightarrow> bool" where
  "hexDigest s \<longleftrightarrow> length s = 64 \<and> list_all isHexLower s"

definition DEFAULT_TIMESTAMP_TOLERANCE_S :: int where
  "DEFAULT_TIMESTAMP_TOLERANCE_S = 5 * 60"

definition signEventBody :: "(string \<Rightarrow> string \<Rightarrow> string) \<Rightarrow> string \<Rightarrow> nat \<Rightarrow> string \<Rightarrow> string" where
  "signEventBody hmacHex secret timestampSeconds rawBody =
     ''v1='' @ hmacHex secret (decimal timestampSeconds @ ''.'' @ rawBody)"

datatype verifyFailure =
    MissingTimestamp | MalformedTimestamp | StaleTimestamp
  | MissingSignature | MalformedSignature | SignatureMismatch

text \<open>\<open>/^\d{1,12}$/\<close> and \<open>/^v1=[0-9a-f]{64}$/\<close>.\<close>

definition timestampShape :: "string \<Rightarrow> bool" where
  "timestampShape s \<longleftrightarrow> 1 \<le> length s \<and> length s \<le> 12 \<and> list_all isDigit s"

definition signatureShape :: "string \<Rightarrow> bool" where
  "signatureShape s \<longleftrightarrow> startsWith s ''v1='' \<and> hexDigest (drop 3 s)"

definition verifyEventSignature ::
    "(string \<Rightarrow> string \<Rightarrow> string) \<Rightarrow> string \<Rightarrow> string \<Rightarrow> string option \<Rightarrow> string option \<Rightarrow> ms \<Rightarrow> int option
      \<Rightarrow> verifyFailure + unit" where
  "verifyEventSignature hmacHex secret rawBody timestampHeader signatureHeader nowMs toleranceSeconds =
     (let timestampRaw = trim (case timestampHeader of Some h \<Rightarrow> h | None \<Rightarrow> []) in
      guard (timestampRaw = []) MissingTimestamp
      (guard (\<not> timestampShape timestampRaw) MalformedTimestamp
      (let timestamp = digitsVal timestampRaw;
           nowSeconds = nowMs div 1000;
           tolerance = (case toleranceSeconds of Some t \<Rightarrow> t | None \<Rightarrow> DEFAULT_TIMESTAMP_TOLERANCE_S) in
       guard (\<bar>nowSeconds - int timestamp\<bar> > tolerance) StaleTimestamp
       (let presented = trim (case signatureHeader of Some h \<Rightarrow> h | None \<Rightarrow> []) in
        guard (presented = []) MissingSignature
        (guard (\<not> signatureShape presented) MalformedSignature
        (let expected = signEventBody hmacHex secret timestamp rawBody in
         guard (length presented \<noteq> length expected \<or> presented \<noteq> expected) SignatureMismatch
           (Inr ())))))))"

section \<open>Lemmas\<close>

lemma not_space_digit: "isDigit c \<Longrightarrow> \<not> jsSpace c"
  by (auto simp: isDigit_def jsSpace_def)

lemma trim_no_space: "list_all (\<lambda>c. \<not> jsSpace c) s \<Longrightarrow> trim s = s"
proof -
  assume h: "list_all (\<lambda>c. \<not> jsSpace c) s"
  then have d: "dropWhile jsSpace s = s" by (cases s) auto
  from h have "list_all (\<lambda>c. \<not> jsSpace c) (rev s)" by (simp add: list_all_iff)
  then have "dropWhile jsSpace (rev s) = rev s" by (cases "rev s") auto
  with d show ?thesis by (simp add: trim_def trimStart_def trimEnd_def)
qed

lemma trim_decimal [simp]: "trim (decimal n) = decimal n"
  by (rule trim_no_space) (use decimal_digits in \<open>auto simp: list_all_iff dest: not_space_digit\<close>)

lemma length_decimal_le: "n < 10 ^ k \<Longrightarrow> 0 < k \<Longrightarrow> length (decimal n) \<le> k"
proof (induction n arbitrary: k rule: decimal.induct)
  case (1 n)
  show ?case
  proof (cases "n < 10")
    case True
    with "1.prems" show ?thesis by (subst decimal.simps) simp
  next
    case False
    with "1.prems" obtain j where k: "k = Suc j" "0 < j"
      by (cases k; cases "k - 1") auto
    from "1.prems"(1) k(1) have "n div 10 < 10 ^ j" by auto
    with "1.IH" [OF False _ k(2)] have "length (decimal (n div 10)) \<le> j" by blast
    with False k(1) show ?thesis by (subst decimal.simps) simp
  qed
qed

lemma timestampShape_decimal: "n < 10 ^ 12 \<Longrightarrow> timestampShape (decimal n)"
  using length_decimal_le [of n 12] decimal_digits [of n] decimal_nonempty [of n]
  by (cases "decimal n") (auto simp: timestampShape_def list_all_iff)

lemma isHexLower_no_space: "isHexLower c \<Longrightarrow> \<not> jsSpace c"
  by (auto simp: isHexLower_def isDigit_def jsSpace_def)

lemma signature_no_space:
  assumes "hexDigest d"
  shows "trim (''v1='' @ d) = ''v1='' @ d"
proof (rule trim_no_space)
  from assms have "list_all (\<lambda>c. \<not> jsSpace c) d"
    by (auto simp: hexDigest_def list_all_iff dest: isHexLower_no_space)
  then show "list_all (\<lambda>c. \<not> jsSpace c) (''v1='' @ d)" by (simp add: jsSpace_def)
qed

lemma signatureShape_sign: "hexDigest d \<Longrightarrow> signatureShape (''v1='' @ d)"
  by (simp add: signatureShape_def startsWith_def)

lemma verify_Inr_iff:
  "verifyEventSignature hmacHex secret body tsH sigH nowMs tol = Inr () \<longleftrightarrow>
     (let ts = trim (case tsH of Some h \<Rightarrow> h | None \<Rightarrow> []);
          presented = trim (case sigH of Some h \<Rightarrow> h | None \<Rightarrow> []);
          tolerance = (case tol of Some t \<Rightarrow> t | None \<Rightarrow> DEFAULT_TIMESTAMP_TOLERANCE_S)
      in timestampShape ts \<and> \<bar>nowMs div 1000 - int (digitsVal ts)\<bar> \<le> tolerance \<and>
         signatureShape presented \<and> presented = signEventBody hmacHex secret (digitsVal ts) body)"
  by (auto simp: verifyEventSignature_def Let_def timestampShape_def signatureShape_def
      startsWith_def)

section \<open>Properties\<close>

text \<open>The signed message determines the timestamp and the body it was made from.\<close>

lemma signed_message_inj:
  assumes "decimal t1 @ ''.'' @ b1 = decimal t2 @ ''.'' @ b2"
  shows "t1 = t2 \<and> b1 = b2"
proof -
  have no_dot: "CHR ''.'' \<notin> set (decimal t)" for t
    using decimal_digits [of t] by (auto simp: isDigit_def)
  have split: "splitFirst (CHR ''.'') (decimal t @ ''.'' @ b) = Some (decimal t, b)" for t b
    using splitFirst_append [OF no_dot] by simp
  from assms have "Some (decimal t1, b1) = Some (decimal t2, b2)" by (metis split)
  then show ?thesis by simp
qed

lemma sign_then_verify:
  assumes "hexDigest (hmacHex secret (decimal ts @ ''.'' @ body))" and "ts < 10 ^ 12"
  shows "verifyEventSignature hmacHex secret body (Some (decimal ts))
      (Some (signEventBody hmacHex secret ts body)) nowMs tol =
    (if \<bar>nowMs div 1000 - int ts\<bar> \<le> (case tol of Some t \<Rightarrow> t | None \<Rightarrow> 300) then Inr () else Inl StaleTimestamp)"
proof -
  let ?d = "hmacHex secret (decimal ts @ ''.'' @ body)"
  have sig: "signEventBody hmacHex secret ts body = ''v1='' @ ?d" by (simp add: signEventBody_def)
  from timestampShape_decimal [OF assms(2)] signature_no_space [OF assms(1)] signatureShape_sign [OF assms(1)]
  show ?thesis
    unfolding sig verifyEventSignature_def Let_def option.case DEFAULT_TIMESTAMP_TOLERANCE_S_def
    by (simp add: sig [simplified] cong: option.case_cong)
qed

text \<open>
  What the sender signs the receiver accepts, exactly while the clocks differ by no more than the
  tolerance (five minutes unless given); outside it the answer is that the timestamp is stale.
\<close>

theorem signed_event_verifies:
  assumes "hexDigest (hmacHex secret (decimal ts @ ''.'' @ body))" and "ts < 10 ^ 12"
  shows "verifyEventSignature hmacHex secret body (Some (decimal ts))
      (Some (signEventBody hmacHex secret ts body)) nowMs tol =
    (if \<bar>nowMs div 1000 - int ts\<bar> \<le> (case tol of Some t \<Rightarrow> t | None \<Rightarrow> 300) then Inr () else Inl StaleTimestamp)"
  using assms by (rule sign_then_verify)

definition exampleHmac :: "string \<Rightarrow> string \<Rightarrow> string" where
  "exampleHmac secret message = replicate 64 (if message = ''1000.{}'' then CHR ''a'' else CHR ''b'')"

lemma example_accepted:
  "verifyEventSignature exampleHmac ''k'' ''{}'' (Some ''1000'') (Some (''v1='' @ replicate 64 (CHR ''a'')))
     1300999 None = Inr ()"
  by code_simp

theorem signed_event_verifies_witness:
  "verifyEventSignature exampleHmac ''k'' ''{}'' (Some (decimal 1000))
     (Some (signEventBody exampleHmac ''k'' 1000 ''{}'')) 1300999 None = Inr ()"
proof -
  have "hexDigest (exampleHmac ''k'' (decimal 1000 @ ''.'' @ ''{}''))" by code_simp
  from signed_event_verifies [where hmacHex = exampleHmac and secret = "''k''" and ts = 1000
      and body = "''{}''" and nowMs = 1300999 and tol = None, OF this]
  show ?thesis by simp
qed

text \<open>
  A signature that is accepted for two messages binds them together: either the timestamps and the
  bodies are the same, or two different messages have one HMAC under the secret. And nothing whose
  timestamp is outside the tolerance is ever accepted.
\<close>

theorem accepted_signature_binds_the_body:
  assumes "verifyEventSignature hmacHex secret body1 ts1 sig now1 tol = Inr ()"
    and "verifyEventSignature hmacHex secret body2 ts2 sig now2 tol = Inr ()"
  shows "(digitsVal (trim (the ts1)) = digitsVal (trim (the ts2)) \<and> body1 = body2 \<or>
     (\<exists>m1 m2. m1 \<noteq> m2 \<and> hmacHex secret m1 = hmacHex secret m2)) \<and>
    \<bar>now1 div 1000 - int (digitsVal (trim (the ts1)))\<bar> \<le> (case tol of Some t \<Rightarrow> t | None \<Rightarrow> 300)"
proof -
  have acc: "ts \<noteq> None \<and> signEventBody hmacHex secret (digitsVal (trim (the ts))) body =
      trim (case sig of Some h \<Rightarrow> h | None \<Rightarrow> []) \<and>
      \<bar>nowMs div 1000 - int (digitsVal (trim (the ts)))\<bar> \<le> (case tol of Some t \<Rightarrow> t | None \<Rightarrow> 300)"
    if "verifyEventSignature hmacHex secret body ts sig nowMs tol = Inr ()" for body ts nowMs
    using that [unfolded verify_Inr_iff Let_def]
    by (cases ts) (auto simp: timestampShape_def DEFAULT_TIMESTAMP_TOLERANCE_S_def cong: option.case_cong)
  let ?m1 = "decimal (digitsVal (trim (the ts1))) @ ''.'' @ body1"
  let ?m2 = "decimal (digitsVal (trim (the ts2))) @ ''.'' @ body2"
  from acc [OF assms(1)] acc [OF assms(2)]
  have "signEventBody hmacHex secret (digitsVal (trim (the ts1))) body1 =
      signEventBody hmacHex secret (digitsVal (trim (the ts2))) body2" by simp
  then have "hmacHex secret ?m1 = hmacHex secret ?m2" by (simp add: signEventBody_def)
  with signed_message_inj acc [OF assms(1)] show ?thesis by blast
qed

theorem accepted_signature_binds_the_body_witness:
  "\<bar>1300999 div 1000 - int (digitsVal (trim (the (Some ''1000''))))\<bar> \<le> 300"
  using accepted_signature_binds_the_body [OF example_accepted example_accepted]
  by simp

end
