(* ===== verification/EventWebhooks.thy ===== *)
theory EventWebhooks
  imports EventQueue EventSigning
begin

text \<open>
  \<^verbatim>\<open>src/lib/event-webhooks.ts\<close>: which URLs a webhook may target, the org-scoped webhook
  subscriptions, and the signed POST of one claimed delivery.

  What the code takes from the platform is the record \<open>platform\<close>: the WHATWG URL parser
  (\<open>new URL\<close>), the HMAC, \<open>JSON.stringify\<close> and \<open>toISOString\<close>, and the environment. \<open>fetch\<close> is an
  argument of \<open>deliverWebhook\<close>: it answers a status and the body text, or throws.
\<close>

unbundle bit_operations_syntax

section \<open>The platform\<close>

record urlParts =
  upProtocol :: string
  upUsername :: string
  upPassword :: string
  upHostname :: string
  upHref :: string

record platform =
  pfParseUrl :: "string \<Rightarrow> urlParts option"
  pfHmacHex :: "string \<Rightarrow> string \<Rightarrow> string"
  pfStringify :: "json \<Rightarrow> string"
  pfIsoString :: "ms \<Rightarrow> string"
  pfEnv :: "string \<Rightarrow> string option"

section \<open>Address literals\<close>

text \<open>\<open>parseIpv4\<close>: four dot-separated groups of one to three digits, each at most 255.\<close>

definition octetShape :: "string \<Rightarrow> bool" where
  "octetShape w \<longleftrightarrow> 1 \<le> length w \<and> length w \<le> 3 \<and> list_all isDigit w"

definition parseIpv4 :: "string \<Rightarrow> nat list option" where
  "parseIpv4 host =
     (let ws = splitOn (CHR ''.'') host in
      if length ws = 4 \<and> list_all octetShape ws
      then (let parts = map digitsVal ws in
            if list_all (\<lambda>p. p \<le> 255) parts then Some parts else None)
      else None)"

fun isBlockedIpv4 :: "nat list \<Rightarrow> bool" where
  "isBlockedIpv4 (a # b # c # rest) =
     (if a = 0 then True
      else if a = 10 then True
      else if a = 127 then True
      else if a = 100 \<and> b \<ge> 64 \<and> b \<le> 127 then True
      else if a = 169 \<and> b = 254 then True
      else if a = 172 \<and> b \<ge> 16 \<and> b \<le> 31 then True
      else if a = 192 \<and> b = 168 then True
      else if a = 192 \<and> b = 0 \<and> c = 0 then True
      else if a = 198 \<and> (b = 18 \<or> b = 19) then True
      else if a \<ge> 224 then True
      else False)"
| "isBlockedIpv4 _ = False"

definition hexDigitVal :: "char \<Rightarrow> nat option" where
  "hexDigitVal c =
     (if isDigit c then Some (code c - 48)
      else if 97 \<le> code c \<and> code c \<le> 102 then Some (code c - 87)
      else if 65 \<le> code c \<and> code c \<le> 70 then Some (code c - 55)
      else None)"

text \<open>One hextet: \<^verbatim>\<open>/^[0-9a-f]{1,4}$/i\<close> and \<open>parseInt(h, 16)\<close>, \<open>None\<close> for \<open>NaN\<close>.\<close>

definition parseHextet :: "string \<Rightarrow> nat option" where
  "parseHextet w =
     (if 1 \<le> length w \<and> length w \<le> 4 \<and> list_all (\<lambda>c. hexDigitVal c \<noteq> None) w
      then Some (foldl (\<lambda>n c. 16 * n + (case hexDigitVal c of Some v \<Rightarrow> v | None \<Rightarrow> 0)) 0 w)
      else None)"

fun hexNat :: "nat \<Rightarrow> string" where
  "hexNat n =
     (let d = (\<lambda>k. if k < 10 then char_of (48 + k) else char_of (87 + k))
      in if n < 16 then [d n] else hexNat (n div 16) @ [d (n mod 16)])"

declare hexNat.simps [simp del]

text \<open>\<open>text.split("::")\<close>.\<close>

fun splitDouble :: "string \<Rightarrow> string list" where
  "splitDouble [] = [[]]"
| "splitDouble [c] = [[c]]"
| "splitDouble (c # d # s) =
     (if c = CHR '':'' \<and> d = CHR '':'' then [] # splitDouble s
      else (case splitDouble (d # s) of [] \<Rightarrow> [[c]] | w # ws \<Rightarrow> (c # w) # ws))"

definition toHextets :: "string \<Rightarrow> string list" where
  "toHextets s = (if s = [] then [] else splitOn (CHR '':'') s)"

text \<open>
  The embedded IPv4 tail, \<^verbatim>\<open>/^(.*:)(\d{1,3}\.\d{1,3}\.\d{1,3}\.\d{1,3})$/\<close>: what follows the last
  colon, when it has that shape. The outer \<open>option\<close> is whether the pattern matches.
\<close>

definition v4Tail :: "string \<Rightarrow> (string \<times> string) option" where
  "v4Tail s =
     (case splitLast (CHR '':'') s of
        None \<Rightarrow> None
      | Some (pre, rest) \<Rightarrow>
          (let ws = splitOn (CHR ''.'') rest in
           if length ws = 4 \<and> list_all octetShape ws then Some (pre @ '':'', rest) else None))"

definition expandV4Tail :: "string \<Rightarrow> string option" where
  "expandV4Tail s =
     (case v4Tail s of
        None \<Rightarrow> Some s
      | Some (pre, rest) \<Rightarrow>
          (case parseIpv4 rest of
             Some [a, b, c, d] \<Rightarrow> Some (pre @ hexNat (a * 256 + b) @ '':'' @ hexNat (c * 256 + d))
           | _ \<Rightarrow> None))"

definition parseIpv6 :: "string \<Rightarrow> nat list option" where
  "parseIpv6 host =
     (let zoneStripped = hd (splitOn (CHR ''%'') host) in
      case expandV4Tail zoneStripped of
        None \<Rightarrow> None
      | Some txt \<Rightarrow>
          (let halves = splitDouble txt in
           if length halves > 2 then None
           else (let two = (length halves = 2);
                     head = toHextets (halves ! 0);
                     tail = (if two then toHextets (halves ! 1) else []);
                     missing = 8 - int (length head) - int (length tail)
                 in if (if two then missing < 1 else missing \<noteq> 0) then None
                    else (let all = head @ (if two then replicate (nat missing) ''0'' else []) @ tail;
                              parsed = map parseHextet all
                          in if None \<in> set parsed then None else Some (map the parsed)))))"

definition isBlockedIpv6 :: "nat list \<Rightarrow> bool" where
  "isBlockedIpv6 h =
     (let allZeroButLast = list_all (\<lambda>x. x = 0) (take 7 h) in
      if allZeroButLast \<and> (h ! 7 = 0 \<or> h ! 7 = 1) then True
      else if list_all (\<lambda>x. x = 0) (take 5 h) \<and> h ! 5 = 0xffff
        then isBlockedIpv4 [drop_bit 8 (h ! 6), (h ! 6) AND 0xff, drop_bit 8 (h ! 7), (h ! 7) AND 0xff]
      else if (h ! 0) AND 0xfe00 = 0xfc00 then True
      else if (h ! 0) AND 0xffc0 = 0xfe80 then True
      else if (h ! 0) AND 0xff00 = 0xff00 then True
      else if h ! 0 = 0x2001 \<and> h ! 1 = 0x0db8 then True
      else if h ! 0 = 0x0064 \<and> h ! 1 = 0xff9b then True
      else False)"

section \<open>URL validation\<close>

definition BLOCKED_HOSTNAMES :: "string list" where
  "BLOCKED_HOSTNAMES = [''localhost'', ''localhost.localdomain'', ''broadcasthost'']"

definition BLOCKED_HOST_SUFFIXES :: "string list" where
  "BLOCKED_HOST_SUFFIXES = [''.localhost'', ''.local'', ''.internal'', ''.home.arpa'']"

definition bracketed :: "string \<Rightarrow> bool" where
  "bracketed host \<longleftrightarrow> startsWith host ''['' \<and> endsWith host '']''"

definition bareHost :: "string \<Rightarrow> string" where
  "bareHost host = (if bracketed host then take (length host - 2) (drop 1 host) else host)"

definition privateAddress :: appError where
  "privateAddress = BadRequestError ''webhook url must not target a private address''"

definition validateHost :: "string \<Rightarrow> string \<Rightarrow> appError + string" where
  "validateHost href host =
     (let bare = bareHost host in
      case parseIpv4 bare of
        Some v4 \<Rightarrow> guard (isBlockedIpv4 v4) privateAddress (Inr href)
      | None \<Rightarrow>
          if bracketed host \<or> CHR '':'' \<in> set bare
          then (case parseIpv6 bare of
                  None \<Rightarrow> Inl privateAddress
                | Some v6 \<Rightarrow> guard (isBlockedIpv6 v6) privateAddress (Inr href))
          else guard (bare \<noteq> [] \<and> list_all (\<lambda>c. isDigit c \<or> c = CHR ''.'') bare)
                 (BadRequestError ''webhook url host is malformed'')
              (guard (bare \<in> set BLOCKED_HOSTNAMES \<or> list_ex (endsWith bare) BLOCKED_HOST_SUFFIXES)
                 (BadRequestError ''webhook url must not target a local hostname'')
              (guard (CHR ''.'' \<notin> set bare)
                 (BadRequestError ''webhook url host must be a public name'')
                 (Inr href))))"

definition validateWebhookUrl :: "platform \<Rightarrow> string \<Rightarrow> appError + string" where
  "validateWebhookUrl pf raw =
     (case pfParseUrl pf raw of
        None \<Rightarrow> Inl (BadRequestError ''webhook url is not a valid URL'')
      | Some url \<Rightarrow>
          guard (upProtocol url \<noteq> ''https:'') (BadRequestError ''webhook url must use https'')
         (guard (upUsername url \<noteq> [] \<or> upPassword url \<noteq> [])
            (BadRequestError ''webhook url must not carry credentials'')
         (let host = toLowerCase (upHostname url) in
          guard (host = []) (BadRequestError ''webhook url has no host'')
            (validateHost (upHref url) host))))"

section \<open>Subscriptions\<close>

definition readSecret :: "platform \<Rightarrow> string \<Rightarrow> string option" where
  "readSecret pf ref = (case pfEnv pf ref of Some v \<Rightarrow> if v = [] then None else Some v | None \<Rightarrow> None)"

text \<open>\<open>SECRET_REF_PATTERN\<close>: \<^verbatim>\<open>/^[A-Z][A-Z0-9_]{2,127}$/\<close>.\<close>

definition secretRefPattern :: "string \<Rightarrow> bool" where
  "secretRefPattern s \<longleftrightarrow>
     3 \<le> length s \<and> length s \<le> 128 \<and> isUpper (hd s) \<and>
     list_all (\<lambda>c. isUpper c \<or> isDigit c \<or> c = CHR ''_'') (tl s)"

record webhookInput =
  wiOrg :: uuid
  wiTopic :: string
  wiLabel :: string
  wiUrl :: string
  wiSecretRef :: string
  wiRetries :: "rat option"

text \<open>
  \<open>createWebhookSubscription\<close>: the last guard is the unique index on (org, topic, label), which the
  insert runs into.
\<close>

definition createWebhookSubscription ::
    "platform \<Rightarrow> uuid \<Rightarrow> ms \<Rightarrow> webhookInput \<Rightarrow> eventsDb \<Rightarrow> appError + eventsDb \<times> subscriptionRow" where
  "createWebhookSubscription pf newId now inp db =
     guard (\<not> topicPattern (wiTopic inp))
       (BadRequestError ''topic must be noun.past_tense (lowercase segments joined by dots)'')
     (let label = trim (wiLabel inp) in
      guard (length label = 0 \<or> length label > 120) (BadRequestError ''label must be 1 to 120 characters'')
      (guard (\<not> secretRefPattern (wiSecretRef inp))
         (BadRequestError ''secretRef must be an environment variable name (UPPER_SNAKE_CASE)'')
      (guard (readSecret pf (wiSecretRef inp) = None)
         (BadRequestError (''secret env var '' @ wiSecretRef inp @ '' is not set on this deployment''))
      (ebind (validateWebhookUrl pf (wiUrl inp)) (\<lambda>url.
       let retries = (case wiRetries inp of Some r \<Rightarrow> r | None \<Rightarrow> 7) in
       guard (of_int \<lfloor>retries\<rfloor> \<noteq> retries \<or> retries < 0 \<or> retries > 30)
         (BadRequestError ''retries must be an integer from 0 to 30'')
       (let row = \<lparr>subId = newId, subOrg = Some (wiOrg inp), subTopic = wiTopic inp,
                   subHandler = label, subKind = KWebhook,
                   subMaxAttempts = nat \<lfloor>retries\<rfloor> + 1, subUrl = Some url,
                   subSecretRef = Some (wiSecretRef inp), subActive = True, subUpdatedAt = now\<rparr>
        in guard (\<exists>s\<in>set (subscriptions db). subOrg s = Some (wiOrg inp) \<and>
                    subTopic s = wiTopic inp \<and> subHandler s = label)
             (PlainError ''duplicate key value violates unique constraint uq_event_subscriptions_org'')
             (Inr (db\<lparr>subscriptions := subscriptions db @ [row]\<rparr>, row))))))))"

definition deactivateWebhookSubscription ::
    "uuid \<Rightarrow> uuid \<Rightarrow> ms \<Rightarrow> eventsDb \<Rightarrow> appError + eventsDb" where
  "deactivateWebhookSubscription organizationId subscriptionId now db =
     (let hit = (\<lambda>s. subId s = subscriptionId \<and> subOrg s = Some organizationId \<and> subKind s = KWebhook)
      in guard (\<not> (\<exists>s\<in>set (subscriptions db). hit s)) (NotFoundError ''webhook subscription not found'')
           (Inr (db\<lparr>subscriptions := updateWhere hit
                      (\<lambda>s. s\<lparr>subActive := False, subUpdatedAt := now\<rparr>) (subscriptions db)\<rparr>)))"

section \<open>Delivery\<close>

record webhookRequest =
  wrUrl :: string
  wrMethod :: string
  wrRedirect :: string
  wrHeaders :: "(string \<times> string) list"
  wrBody :: string

text \<open>
  What \<open>fetch\<close> did: a response with its status and, when readable, its text; it threw; or it had not
  answered when the attempt's timer fired (the timer \<open>runWithTimeout\<close> starts first and has the same
  length as the request's own).
\<close>

datatype fetchResult = Response nat "string option" | FetchThrew string | FetchTimedOut

definition sourceText :: "eventSource \<Rightarrow> string" where
  "sourceText s = (case s of App \<Rightarrow> ''app'' | Platform \<Rightarrow> ''platform'' | External \<Rightarrow> ''external'')"

definition optStr :: "string option \<Rightarrow> json" where
  "optStr x = (case x of None \<Rightarrow> JNull | Some s \<Rightarrow> JStr s)"

definition eventBody :: "platform \<Rightarrow> eventRow \<Rightarrow> string" where
  "eventBody pf e =
     pfStringify pf (JObj [(''id'', JStr (evId e)), (''topic'', JStr (evTopic e)),
       (''key'', optStr (evKey e)), (''payload'', evPayload e),
       (''source'', JStr (sourceText (evSource e))), (''createdAt'', JStr (pfIsoString pf (evCreatedAt e)))])"

definition webhookRequestFor :: "platform \<Rightarrow> string \<Rightarrow> string \<Rightarrow> ms \<Rightarrow> claimedDelivery \<Rightarrow> webhookRequest" where
  "webhookRequestFor pf url secret nowMs dv =
     (let e = cdEvent dv; body = eventBody pf e; timestamp = nat (nowMs div 1000) in
      \<lparr>wrUrl = url, wrMethod = ''POST'', wrRedirect = ''manual'',
       wrHeaders =
         [(''content-type'', ''application/json''), (''user-agent'', ''alchemist-events/1''),
          (''X-Event-Id'', evId e), (''X-Event-Topic'', evTopic e),
          (''X-Event-Timestamp'', decimal timestamp),
          (''X-Event-Signature'', signEventBody (pfHmacHex pf) secret timestamp body),
          (''X-Event-Delivery'', cdId dv), (''X-Event-Attempt'', decimal (cdAttempts dv))],
       wrBody = body\<rparr>)"

text \<open>
  The result of one delivery is an \<open>attemptResult\<close>, with the request that was made, if one was:
  everything that is not a 2xx is a throw.
\<close>

definition throwsError :: "appError \<Rightarrow> attemptResult" where
  "throwsError e =
     Threw (case e of BadRequestError m \<Rightarrow> ''BadRequestError: '' @ m | PlainError m \<Rightarrow> ''Error: '' @ m
            | NotFoundError m \<Rightarrow> ''NotFoundError: '' @ m | ConflictError m \<Rightarrow> ''ConflictError: '' @ m
            | UnauthorizedError m \<Rightarrow> ''UnauthorizedError: '' @ m | ForbiddenError m \<Rightarrow> ''ForbiddenError: '' @ m
            | SenderDomainRequiredError m \<Rightarrow> ''SenderDomainRequiredError: '' @ m | RateLimitedError m \<Rightarrow> ''AppError: '' @ m)"

definition deliverWebhook ::
    "platform \<Rightarrow> (webhookRequest \<Rightarrow> fetchResult) \<Rightarrow> ms \<Rightarrow> claimedDelivery
      \<Rightarrow> attemptResult \<times> webhookRequest option" where
  "deliverWebhook pf fetch nowMs dv =
     (case cdUrl dv of
        None \<Rightarrow> (throwsError (PlainError ''webhook subscription has no url''), None)
      | Some raw \<Rightarrow>
     if raw = [] then (throwsError (PlainError ''webhook subscription has no url''), None) else
     (case cdSecretRef dv of
        None \<Rightarrow> (throwsError (PlainError ''webhook subscription has no secretRef''), None)
      | Some ref \<Rightarrow>
     if ref = [] then (throwsError (PlainError ''webhook subscription has no secretRef''), None) else
     (case validateWebhookUrl pf raw of
        Inl e \<Rightarrow> (throwsError e, None)
      | Inr url \<Rightarrow>
     (case readSecret pf ref of
        None \<Rightarrow> (throwsError (PlainError (''webhook secret env var '' @ ref @ '' is not set'')), None)
      | Some secret \<Rightarrow>
          (let req = webhookRequestFor pf url secret nowMs dv in
           (case fetch req of
              FetchTimedOut \<Rightarrow> TimedOut
            | FetchThrew m \<Rightarrow> Threw m
            | Response status txt \<Rightarrow>
                if 200 \<le> status \<and> status < 300 then Returned
                else (let excerpt = (case txt of Some t \<Rightarrow> take 200 t | None \<Rightarrow> [])
                      in throwsError (PlainError (''webhook responded '' @ decimal status
                           @ (if excerpt = [] then [] else '': '' @ excerpt)))),
            Some req))))))"

section \<open>Lemmas\<close>

lemma parseIpv4_octets: "parseIpv4 host = Some parts \<Longrightarrow> length parts = 4 \<and> list_all (\<lambda>p. p \<le> 255) parts"
  by (auto simp: parseIpv4_def Let_def split: if_splits)

lemma validateWebhookUrl_accepts:
  assumes "validateWebhookUrl pf raw = Inr href"
  obtains url where "pfParseUrl pf raw = Some url" and "upProtocol url = ''https:''"
    and "upUsername url = []" and "upPassword url = []" and "upHostname url \<noteq> []"
    and "validateHost (upHref url) (toLowerCase (upHostname url)) = Inr href"
  using assms by (auto simp: validateWebhookUrl_def Let_def toLowerCase_def split: option.splits)

lemma validateHost_href: "validateHost href host = Inr x \<Longrightarrow> x = href"
  by (auto simp: validateHost_def Let_def split: option.splits if_splits)

lemma deliverWebhook_request:
  assumes "snd (deliverWebhook pf fetch nowMs dv) = Some req"
  obtains raw ref url secret where "cdUrl dv = Some raw" and "cdSecretRef dv = Some ref"
    and "validateWebhookUrl pf raw = Inr url" and "readSecret pf ref = Some secret"
    and "req = webhookRequestFor pf url secret nowMs dv"
  using assms
  by (auto simp: deliverWebhook_def Let_def split: option.splits if_splits sum.splits)

section \<open>The IPv4 blocklist\<close>

text \<open>An address as a number, and membership in a CIDR range.\<close>

fun ipv4Value :: "nat list \<Rightarrow> nat" where
  "ipv4Value [a, b, c, d] = ((a * 256 + b) * 256 + c) * 256 + d"
| "ipv4Value _ = 0"

definition inRange :: "nat list \<times> nat \<Rightarrow> nat list \<Rightarrow> bool" where
  "inRange r ip \<longleftrightarrow>
     ipv4Value ip div 2 ^ (32 - snd r) = ipv4Value (fst r) div 2 ^ (32 - snd r)"

text \<open>The ranges the comments of \<open>isBlockedIpv4\<close> name.\<close>

definition blockedRanges :: "(nat list \<times> nat) list" where
  "blockedRanges =
     [([0, 0, 0, 0], 8), ([10, 0, 0, 0], 8), ([127, 0, 0, 0], 8), ([100, 64, 0, 0], 10),
      ([169, 254, 0, 0], 16), ([172, 16, 0, 0], 12), ([192, 168, 0, 0], 16), ([192, 0, 0, 0], 24),
      ([198, 18, 0, 0], 15), ([224, 0, 0, 0], 4), ([240, 0, 0, 0], 4)]"

lemma ipv4_prefixes:
  fixes a b c d :: nat
  assumes "b \<le> 255" and "c \<le> 255" and "d \<le> 255"
  defines "ip \<equiv> ((a * 256 + b) * 256 + c) * 256 + d"
  shows "ip div 16777216 = a" and "ip div 4194304 = a * 4 + b div 64" and "ip div 65536 = a * 256 + b"
    and "ip div 1048576 = a * 16 + b div 16" and "ip div 256 = (a * 256 + b) * 256 + c"
    and "ip div 131072 = a * 128 + b div 2" and "ip div 268435456 = a div 16"
proof -
  have 1: "ip div 256 = (a * 256 + b) * 256 + c" using assms by (simp add: ip_def)
  have 2: "ip div 65536 = a * 256 + b"
    using assms div_mult2_eq [of ip 256 256] by (simp add: 1)
  have 3: "ip div 16777216 = a"
    using assms div_mult2_eq [of ip 65536 256] by (simp add: 2)
  show "ip div 256 = (a * 256 + b) * 256 + c" "ip div 65536 = a * 256 + b" "ip div 16777216 = a"
    by (fact 1 2 3)+
  have "(a * 256 + b) div 64 = a * 4 + b div 64" "(a * 256 + b) div 16 = a * 16 + b div 16"
    "(a * 256 + b) div 2 = a * 128 + b div 2"
    using div_mult_self1 [of 64 b "a * 4"] div_mult_self1 [of 16 b "a * 16"] div_mult_self1 [of 2 b "a * 128"]
    by (simp_all add: add.commute mult.assoc)
  then show "ip div 4194304 = a * 4 + b div 64" "ip div 1048576 = a * 16 + b div 16"
    "ip div 131072 = a * 128 + b div 2"
    using div_mult2_eq [of ip 65536 64] div_mult2_eq [of ip 65536 16] div_mult2_eq [of ip 65536 2]
    by (simp_all add: 2)
  show "ip div 268435456 = a div 16" using div_mult2_eq [of ip 16777216 16] by (simp add: 3)
qed

lemma if_true_else: "(if P then True else Q) \<longleftrightarrow> P \<or> Q"
  by simp

lemma digit_eq: "(r::nat) < m \<Longrightarrow> a * m + r = x \<longleftrightarrow> a = x div m \<and> r = x mod m"
  by auto

lemma blocked_iff_ranges:
  assumes "a \<le> 255" "b \<le> 255" "c \<le> 255" "d \<le> 255"
  shows "isBlockedIpv4 [a, b, c, d] \<longleftrightarrow> (\<exists>r\<in>set blockedRanges. inRange r [a, b, c, d])"
proof -
  have "(\<exists>r\<in>set blockedRanges. inRange r [a, b, c, d]) \<longleftrightarrow>
      a = 0 \<or> a = 10 \<or> a = 127 \<or> a * 4 + b div 64 = 401 \<or> a * 256 + b = 43518 \<or> a * 16 + b div 16 = 2753 \<or>
      a * 256 + b = 49320 \<or> (a * 256 + b) * 256 + c = 12582912 \<or> a * 128 + b div 2 = 25353 \<or>
      a div 16 = 14 \<or> a div 16 = 15"
  proof -
    let ?ip = "((a * 256 + b) * 256 + c) * 256 + d"
    have "(\<exists>r\<in>set blockedRanges. inRange r [a, b, c, d]) \<longleftrightarrow>
      ?ip div 16777216 = 0 \<or> ?ip div 16777216 = 10 \<or> ?ip div 16777216 = 127 \<or> ?ip div 4194304 = 401 \<or>
      ?ip div 65536 = 43518 \<or> ?ip div 1048576 = 2753 \<or> ?ip div 65536 = 49320 \<or> ?ip div 256 = 12582912 \<or>
      ?ip div 131072 = 25353 \<or> ?ip div 268435456 = 14 \<or> ?ip div 268435456 = 15"
      unfolding blockedRanges_def inRange_def by simp
    then show ?thesis unfolding ipv4_prefixes [OF assms(2-4)] .
  qed
  also have "\<dots> \<longleftrightarrow> a = 0 \<or> a = 10 \<or> a = 127 \<or> (a = 100 \<and> 64 \<le> b \<and> b \<le> 127) \<or> (a = 169 \<and> b = 254) \<or>
      (a = 172 \<and> 16 \<le> b \<and> b \<le> 31) \<or> (a = 192 \<and> b = 168) \<or> (a = 192 \<and> b = 0 \<and> c = 0) \<or>
      (a = 198 \<and> (b = 18 \<or> b = 19)) \<or> 224 \<le> a"
  proof -
    have e1: "a * 4 + b div 64 = 401 \<longleftrightarrow> a = 100 \<and> 64 \<le> b \<and> b \<le> 127"
      using assms(2) digit_eq [of "b div 64" 4 a 401] by auto
    have e2: "a * 256 + b = 43518 \<longleftrightarrow> a = 169 \<and> b = 254"
      using assms(2) digit_eq [of b 256 a 43518] by simp
    have e3: "a * 16 + b div 16 = 2753 \<longleftrightarrow> a = 172 \<and> 16 \<le> b \<and> b \<le> 31"
      using assms(2) digit_eq [of "b div 16" 16 a 2753] by auto
    have e4: "a * 256 + b = 49320 \<longleftrightarrow> a = 192 \<and> b = 168"
      using assms(2) digit_eq [of b 256 a 49320] by simp
    have e5: "(a * 256 + b) * 256 + c = 12582912 \<longleftrightarrow> a = 192 \<and> b = 0 \<and> c = 0"
      using assms(2,3) digit_eq [of b 256 a 49152] digit_eq [of c 256 "a * 256 + b" 12582912] by simp
    have e6: "a * 128 + b div 2 = 25353 \<longleftrightarrow> a = 198 \<and> (b = 18 \<or> b = 19)"
      using assms(2) digit_eq [of "b div 2" 128 a 25353] by auto
    have e7: "a div 16 = 14 \<or> a div 16 = 15 \<longleftrightarrow> 224 \<le> a" using assms(1) by auto
    show ?thesis by (simp only: e1 e2 e3 e4 e5 e6 e7)
  qed
  also have "\<dots> \<longleftrightarrow> isBlockedIpv4 [a, b, c, d]"
    by (simp only: isBlockedIpv4.simps if_true_else simp_thms)
  finally show ?thesis by simp
qed

text \<open>
  C28. An IPv4 literal is refused as a webhook target exactly when it lies in one of the special-purpose
  ranges: 0/8, 10/8, 127/8, 100.64/10, 169.254/16, 172.16/12, 192.168/16, 192.0.0/24, 198.18/15, 224/4
  and 240/4.
\<close>

theorem ipv4_blocklist_is_the_ranges:
  assumes "parseIpv4 host = Some ip" and "\<not> bracketed host"
  shows "validateHost href host = Inr href \<longleftrightarrow> \<not> (\<exists>r\<in>set blockedRanges. inRange r ip)"
proof -
  from parseIpv4_octets [OF assms(1)] obtain a b c d where ip: "ip = [a, b, c, d]"
    "a \<le> 255" "b \<le> 255" "c \<le> 255" "d \<le> 255"
    by (auto simp: numeral_eq_Suc length_Suc_conv)
  have "bareHost host = host" using assms(2) by (simp add: bareHost_def)
  with assms(1) blocked_iff_ranges [OF ip(2-5)] show ?thesis
    by (simp add: validateHost_def ip(1) guard_def privateAddress_def del: isBlockedIpv4.simps)
qed

theorem ipv4_blocklist_is_the_ranges_witness:
  "validateHost ''h'' ''172.31.255.1'' \<noteq> Inr ''h'' \<and> validateHost ''h'' ''172.32.0.1'' = Inr ''h''"
proof -
  have 1: "parseIpv4 ''172.31.255.1'' = Some [172, 31, 255, 1]" "\<not> bracketed ''172.31.255.1''" by code_simp+
  have 2: "parseIpv4 ''172.32.0.1'' = Some [172, 32, 0, 1]" "\<not> bracketed ''172.32.0.1''" by code_simp+
  have "\<exists>r\<in>set blockedRanges. inRange r [172, 31, 255, 1]"
    by (simp add: blockedRanges_def inRange_def)
  moreover have "\<not> (\<exists>r\<in>set blockedRanges. inRange r [172, 32, 0, 1])"
    by (simp add: blockedRanges_def inRange_def)
  ultimately show ?thesis
    using ipv4_blocklist_is_the_ranges [OF 1, of "''h''"] ipv4_blocklist_is_the_ranges [OF 2, of "''h''"] by simp
qed

section \<open>IPv4 addresses inside IPv6 literals\<close>

definition hexChar :: "nat \<Rightarrow> char" where
  "hexChar k = (if k < 10 then char_of (48 + k) else char_of (87 + k))"

lemma hexNat_eq: "hexNat n = (if n < 16 then [hexChar n] else hexNat (n div 16) @ [hexChar (n mod 16)])"
  by (subst hexNat.simps) (simp add: hexChar_def Let_def)

lemma hexChar_val: "k < 16 \<Longrightarrow> hexDigitVal (hexChar k) = Some k"
  by (auto simp: hexDigitVal_def hexChar_def isDigit_def code_char_of)

lemma hexChar_ne: "k < 16 \<Longrightarrow> hexChar k \<noteq> CHR '':'' \<and> hexChar k \<noteq> CHR ''%'' \<and> hexChar k \<noteq> CHR ''.''"
  using hexChar_val [of k] by (auto simp: hexDigitVal_def isDigit_def)

lemma hexNat_digits: "\<forall>c\<in>set (hexNat n). \<exists>k<16. c = hexChar k"
proof (induction n rule: hexNat.induct)
  case (1 n)
  then show ?case by (cases "n < 16"; subst hexNat_eq) (auto intro: exI [of _ "n mod 16"])
qed

lemma hexNat_nonempty: "hexNat n \<noteq> []"
  by (subst hexNat_eq) simp

lemma hexNat_length: "n < 16 ^ Suc k \<Longrightarrow> length (hexNat n) \<le> Suc k"
proof (induction k arbitrary: n)
  case 0
  then show ?case by (subst hexNat_eq) simp
next
  case (Suc k)
  then have "n div 16 < 16 ^ Suc k" by auto
  from Suc.IH [OF this] show ?case by (subst hexNat_eq) simp
qed

abbreviation hexVal :: "string \<Rightarrow> nat" where
  "hexVal \<equiv> foldl (\<lambda>n c. 16 * n + (case hexDigitVal c of Some v \<Rightarrow> v | None \<Rightarrow> 0)) 0"

lemma hexVal_hexNat: "hexVal (hexNat n) = n"
proof (induction n rule: hexNat.induct)
  case (1 n)
  show ?case
  proof (cases "n < 16")
    case True
    then show ?thesis by (subst hexNat_eq) (simp add: hexChar_val)
  next
    case False
    with "1.IH" show ?thesis by (subst hexNat_eq) (simp add: hexChar_val)
  qed
qed

lemma parseHextet_hexNat: "n < 65536 \<Longrightarrow> parseHextet (hexNat n) = Some n"
proof -
  assume n: "n < 65536"
  have "list_all (\<lambda>c. hexDigitVal c \<noteq> None) (hexNat n)"
    using hexNat_digits [of n] hexChar_val by (auto simp: list_all_iff)
  moreover have "1 \<le> length (hexNat n)" using hexNat_nonempty [of n] by (cases "hexNat n") auto
  moreover have "length (hexNat n) \<le> 4" using hexNat_length [of n 3] n by simp
  ultimately show ?thesis by (simp add: parseHextet_def hexVal_hexNat)
qed

lemma splitDouble_plain: "CHR '':'' \<notin> set w \<Longrightarrow> splitDouble w = [w]"
  by (induction w rule: splitDouble.induct) auto

lemma splitDouble_single:
  "CHR '':'' \<notin> set w \<Longrightarrow> v \<noteq> [] \<Longrightarrow> hd v \<noteq> CHR '':'' \<Longrightarrow> splitDouble v = [v] \<Longrightarrow>
     splitDouble (w @ CHR '':'' # v) = [w @ CHR '':'' # v]"
proof (induction w)
  case Nil
  then show ?case by (cases v) auto
next
  case (Cons c w)
  then show ?case by (cases w) auto
qed

lemma colon_free: "CHR '':'' \<notin> set (hexNat n)" "CHR ''%'' \<notin> set (hexNat n)" "CHR ''.'' \<notin> set (hexNat n)"
  by (metis hexNat_digits hexChar_ne)+

text \<open>The hexadecimal form of a mapped address, as the URL parser writes it.\<close>

definition mappedHex :: "nat \<Rightarrow> nat \<Rightarrow> string" where
  "mappedHex x y = ''::ffff:'' @ hexNat x @ '':'' @ hexNat y"

lemma splitDouble_mapped: "splitDouble (mappedHex x y) = [[], ''ffff:'' @ hexNat x @ '':'' @ hexNat y]"
proof -
  have hd: "hexNat n \<noteq> []" "hd (hexNat n) \<noteq> CHR '':''" for n
    using hexNat_nonempty [of n] colon_free(1) [of n] by (auto dest: hd_in_set)
  have 1: "splitDouble (hexNat x @ CHR '':'' # hexNat y) = [hexNat x @ CHR '':'' # hexNat y]"
    by (rule splitDouble_single) (simp_all add: colon_free hd splitDouble_plain)
  have "splitDouble (''ffff'' @ CHR '':'' # (hexNat x @ CHR '':'' # hexNat y)) =
      [''ffff'' @ CHR '':'' # (hexNat x @ CHR '':'' # hexNat y)]"
    by (rule splitDouble_single [OF _ _ _ 1]) (simp_all add: hd)
  then show ?thesis by (simp add: mappedHex_def)
qed

lemma toHextets_mapped: "toHextets (''ffff:'' @ hexNat x @ '':'' @ hexNat y) = [''ffff'', hexNat x, hexNat y]"
proof -
  have "splitOn (CHR '':'') (''ffff'' @ CHR '':'' # (hexNat x @ CHR '':'' # hexNat y)) =
      [''ffff'', hexNat x, hexNat y]"
    by (subst splitOn_append) (simp_all add: splitOn_append splitOn_no_sep colon_free)
  then show ?thesis by (simp add: toHextets_def)
qed

lemma five_copies: "replicate 5 z = [z, z, z, z, z]"
  by (simp add: numeral_eq_Suc)

lemma hextets_of_text:
  assumes "hd (splitOn (CHR ''%'') host) = s" and "expandV4Tail s = Some (mappedHex x y)"
    and "x < 65536" and "y < 65536"
  shows "parseIpv6 host = Some [0, 0, 0, 0, 0, 65535, x, y]"
proof -
  have 1: "parseHextet ''0'' = Some 0" by code_simp
  have 2: "parseHextet ''ffff'' = Some 65535"
    by (simp add: parseHextet_def hexDigitVal_def isDigit_def)
  let ?all = "[] @ replicate 5 ''0'' @ [''ffff'', hexNat x, hexNat y]"
  have all: "map parseHextet ?all = map Some [0, 0, 0, 0, 0, 65535, x, y]"
    by (simp only: five_copies append.simps list.map 1 2 parseHextet_hexNat [OF assms(3)]
        parseHextet_hexNat [OF assms(4)])
  have "parseIpv6 host = (if None \<in> set (map parseHextet ?all) then None else Some (map the (map parseHextet ?all)))"
    unfolding parseIpv6_def Let_def assms(1) assms(2) option.case splitDouble_mapped
    by (simp add: toHextets_mapped [simplified] toHextets_def [of "[]"])
  also have "\<dots> = Some [0, 0, 0, 0, 0, 65535, x, y]" unfolding all by simp
  finally show ?thesis .
qed

lemma set_joinWith: "set (joinWith sep ws) \<subseteq> set sep \<union> \<Union> (set ` set ws)"
  by (induction sep ws rule: joinWith.induct) auto

lemma ipv4_chars:
  assumes "parseIpv4 host = Some ip"
  shows "\<forall>c\<in>set host. isDigit c \<or> c = CHR ''.''"
proof -
  have "\<forall>w\<in>set (splitOn (CHR ''.'') host). list_all isDigit w"
    using assms by (auto simp: parseIpv4_def octetShape_def Let_def list_all_iff split: if_splits)
  moreover have "set host \<subseteq> {CHR ''.''} \<union> \<Union> (set ` set (splitOn (CHR ''.'') host))"
    using set_joinWith [of "[CHR ''.'']" "splitOn (CHR ''.'') host"] by (simp add: join_splitOn)
  ultimately show ?thesis by (force simp: list_all_iff)
qed

lemma not_special_digit: "\<not> isDigit (CHR '':'')" "\<not> isDigit (CHR ''%'')"
  by (simp_all add: isDigit_def)

lemma no_zone: "CHR ''%'' \<notin> set s \<Longrightarrow> hd (splitOn (CHR ''%'') s) = s"
  by (simp add: splitOn_no_sep)

lemma high_byte: "(v::nat) < 256 \<Longrightarrow> drop_bit 8 (u * 256 + v) = u \<and> (u * 256 + v) AND 0xff = v"
proof -
  assume "v < 256"
  moreover have "(u * 256 + v) AND 0xff = (u * 256 + v) mod 256"
    using take_bit_eq_mask [of 8 "u * 256 + v"] by (simp add: take_bit_eq_mod mask_eq_exp_minus_1)
  ultimately show ?thesis by (simp add: drop_bit_eq_div)
qed

lemma mapped_blocked:
  assumes "b < 256" and "d < 256"
  shows "isBlockedIpv6 [0, 0, 0, 0, 0, 65535, a * 256 + b, c * 256 + d] \<longleftrightarrow> isBlockedIpv4 [a, b, c, d]"
proof -
  let ?h = "[0, 0, 0, 0, 0, 65535, a * 256 + b, c * 256 + d]"
  have h: "take 7 ?h = [0, 0, 0, 0, 0, 65535, a * 256 + b]" "take 5 ?h = [0, 0, 0, 0, 0]"
    "?h ! 5 = 65535" "?h ! 6 = a * 256 + b" "?h ! 7 = c * 256 + d" by simp_all
  have "isBlockedIpv6 ?h = isBlockedIpv4 [drop_bit 8 (a * 256 + b), (a * 256 + b) AND 0xff,
      drop_bit 8 (c * 256 + d), (c * 256 + d) AND 0xff]"
    unfolding isBlockedIpv6_def Let_def h by simp
  then show ?thesis by (simp only: high_byte [OF assms(1)] high_byte [OF assms(2)])
qed

text \<open>
  Hiding an IPv4 address inside an IPv6 literal does not get it past the blocklist: both the dotted
  form ::ffff:a.b.c.d and the hexadecimal form the URL parser makes of it are read as the same eight
  hextets, which are blocked exactly when the IPv4 address is.
\<close>

theorem mapped_ipv6_is_judged_as_ipv4:
  assumes "parseIpv4 host = Some [a, b, c, d]"
  shows "\<exists>h. parseIpv6 (''::ffff:'' @ host) = Some h \<and>
    parseIpv6 (mappedHex (a * 256 + b) (c * 256 + d)) = Some h \<and>
    (isBlockedIpv6 h \<longleftrightarrow> isBlockedIpv4 [a, b, c, d])"
proof -
  let ?x = "a * 256 + b" and ?y = "c * 256 + d"
  from parseIpv4_octets [OF assms] have o: "a \<le> 255" "b \<le> 255" "c \<le> 255" "d \<le> 255" by simp_all
  have chars: "CHR '':'' \<notin> set host" "CHR ''%'' \<notin> set host"
    using ipv4_chars [OF assms] not_special_digit by auto
  have shape: "length (splitOn (CHR ''.'') host) = 4" "list_all octetShape (splitOn (CHR ''.'') host)"
    using assms by (auto simp: parseIpv4_def Let_def split: if_splits)
  have "splitLast (CHR '':'') (''::ffff'' @ CHR '':'' # host) = Some (''::ffff'', host)"
    by (rule splitLast_append) (rule chars)
  then have "expandV4Tail (''::ffff:'' @ host) = Some (mappedHex ?x ?y)"
    using shape by (simp add: expandV4Tail_def v4Tail_def assms mappedHex_def)
  then have 1: "parseIpv6 (''::ffff:'' @ host) = Some [0, 0, 0, 0, 0, 65535, ?x, ?y]"
    by (rule hextets_of_text [OF no_zone, rotated]) (use chars o in auto)
  have "splitLast (CHR '':'') ((''::ffff:'' @ hexNat ?x) @ CHR '':'' # hexNat ?y) =
      Some (''::ffff:'' @ hexNat ?x, hexNat ?y)"
    by (rule splitLast_append) (rule colon_free)
  then have "expandV4Tail (mappedHex ?x ?y) = Some (mappedHex ?x ?y)"
    by (simp add: expandV4Tail_def v4Tail_def mappedHex_def splitOn_no_sep colon_free)
  then have 2: "parseIpv6 (mappedHex ?x ?y) = Some [0, 0, 0, 0, 0, 65535, ?x, ?y]"
    by (rule hextets_of_text [OF no_zone, rotated]) (use o in \<open>auto simp: mappedHex_def colon_free\<close>)
  from 1 2 mapped_blocked [of b d a c] o show ?thesis by auto
qed

theorem mapped_ipv6_is_judged_as_ipv4_witness:
  "\<exists>h. parseIpv6 ''::ffff:10.0.0.1'' = Some h \<and> isBlockedIpv6 h"
proof -
  have "parseIpv4 ''10.0.0.1'' = Some [10, 0, 0, 1]" by code_simp
  from mapped_ipv6_is_judged_as_ipv4 [OF this] show ?thesis by auto
qed

section \<open>What leaves the process\<close>

lemma validateHost_blocks_ipv4:
  "validateHost href host = Inr x \<Longrightarrow> parseIpv4 (bareHost host) = Some ip \<Longrightarrow> \<not> isBlockedIpv4 ip"
  by (auto simp: validateHost_def Let_def split: option.splits if_splits)

text \<open>
  C27. A webhook request is only ever made to the normalized form of an https URL without credentials
  whose host passes the validator, in particular never to a blocked IPv4 address, and it follows no
  redirect; its headers carry a
  signature which a receiver with the same secret accepts for exactly the body sent; and the attempt
  succeeds exactly on a 2xx answer.
\<close>

theorem webhook_requests_are_validated_and_signed:
  assumes "snd (deliverWebhook pf fetch nowMs dv) = Some req"
    and "\<And>k m. hexDigest (pfHmacHex pf k m)" and "0 \<le> nowMs" and "nowMs < 10 ^ 15"
  shows "(\<exists>raw u. cdUrl dv = Some raw \<and> pfParseUrl pf raw = Some u \<and> upProtocol u = ''https:'' \<and>
       upUsername u = [] \<and> upPassword u = [] \<and> wrUrl req = upHref u \<and> wrRedirect req = ''manual'' \<and>
       validateHost (upHref u) (toLowerCase (upHostname u)) = Inr (upHref u) \<and>
       \<not> (\<exists>ip. parseIpv4 (bareHost (toLowerCase (upHostname u))) = Some ip \<and> isBlockedIpv4 ip)) \<and>
    (\<exists>ref secret. cdSecretRef dv = Some ref \<and> readSecret pf ref = Some secret \<and>
       verifyEventSignature (pfHmacHex pf) secret (wrBody req) (map_of (wrHeaders req) ''X-Event-Timestamp'')
         (map_of (wrHeaders req) ''X-Event-Signature'') nowMs None = Inr ()) \<and>
    (fst (deliverWebhook pf fetch nowMs dv) = Returned \<longleftrightarrow>
       (\<exists>st txt. fetch req = Response st txt \<and> 200 \<le> st \<and> st < 300))"
proof -
  from deliverWebhook_request [OF assms(1)] obtain raw ref url secret where
    r: "cdUrl dv = Some raw" "cdSecretRef dv = Some ref" "validateWebhookUrl pf raw = Inr url"
      "readSecret pf ref = Some secret" "req = webhookRequestFor pf url secret nowMs dv" .
  from validateWebhookUrl_accepts [OF r(3)] obtain u where
    u: "pfParseUrl pf raw = Some u" "upProtocol u = ''https:''" "upUsername u = []" "upPassword u = []"
      "validateHost (upHref u) (toLowerCase (upHostname u)) = Inr url" .
  from validateHost_href [OF u(5)] have url: "url = upHref u" .
  let ?ts = "nat (nowMs div 1000)"
  have ts: "?ts < 10 ^ 12" "nowMs div 1000 = int ?ts" using assms(3,4) by (auto simp: nat_less_iff)
  have hdrs: "wrUrl req = url" "wrRedirect req = ''manual''" "wrBody req = eventBody pf (cdEvent dv)"
    "map_of (wrHeaders req) ''X-Event-Timestamp'' = Some (decimal ?ts)"
    "map_of (wrHeaders req) ''X-Event-Signature'' =
       Some (signEventBody (pfHmacHex pf) secret ?ts (eventBody pf (cdEvent dv)))"
    by (simp_all add: r(5) webhookRequestFor_def Let_def)
  have "verifyEventSignature (pfHmacHex pf) secret (wrBody req) (map_of (wrHeaders req) ''X-Event-Timestamp'')
         (map_of (wrHeaders req) ''X-Event-Signature'') nowMs None = Inr ()"
    unfolding hdrs
    using sign_then_verify [where hmacHex = "pfHmacHex pf" and secret = secret and ts = "?ts"
        and body = "eventBody pf (cdEvent dv)" and nowMs = nowMs and tol = None, OF assms(2) ts(1)] ts(2)
    by simp
  moreover have "fst (deliverWebhook pf fetch nowMs dv) = Returned \<longleftrightarrow>
       (\<exists>st txt. fetch req = Response st txt \<and> 200 \<le> st \<and> st < 300)"
    using assms(1) r(1-4)
    by (auto simp: deliverWebhook_def Let_def throwsError_def r(5) split: fetchResult.splits if_splits)
  moreover have "\<not> (\<exists>ip. parseIpv4 (bareHost (toLowerCase (upHostname u))) = Some ip \<and> isBlockedIpv4 ip)"
    using validateHost_blocks_ipv4 [OF u(5)] by blast
  ultimately show ?thesis using r(1,2,4) u hdrs(1,2) unfolding url by blast
qed

definition namePasses :: "string \<Rightarrow> bool" where
  "namePasses host \<longleftrightarrow> parseIpv4 (bareHost host) = None \<and> \<not> bracketed host \<and> CHR '':'' \<notin> set host \<and>
     (host = [] \<or> \<not> list_all (\<lambda>c. isDigit c \<or> c = CHR ''.'') host) \<and>
     host \<notin> set BLOCKED_HOSTNAMES \<and> \<not> list_ex (endsWith host) BLOCKED_HOST_SUFFIXES \<and> CHR ''.'' \<in> set host"

lemma namePasses_accepted: "namePasses host \<Longrightarrow> validateHost href host = Inr href"
  by (auto simp: namePasses_def validateHost_def bareHost_def Let_def)

definition exampleWebhookPlatform :: platform where
  "exampleWebhookPlatform = \<lparr>pfParseUrl = (\<lambda>s. Some \<lparr>upProtocol = ''https:'', upUsername = [], upPassword = [],
       upHostname = ''hooks.example.com'', upHref = s\<rparr>),
     pfHmacHex = (\<lambda>k m. replicate 64 (CHR ''a'')), pfStringify = (\<lambda>_. ''{}''), pfIsoString = (\<lambda>_. ''t''),
     pfEnv = (\<lambda>_. Some ''secret'')\<rparr>"

definition exampleWebhookDelivery :: claimedDelivery where
  "exampleWebhookDelivery = \<lparr>cdId = ''d1'', cdSub = ''s1'', cdClaimedBy = ''pod-1'', cdAttempts = 1,
     cdMaxAttempts = 3, cdHandler = ''zap'', cdKind = KWebhook,
     cdUrl = Some ''https://hooks.example.com/x'', cdSecretRef = Some ''HOOK_SECRET'',
     cdEvent = \<lparr>evId = ''e1'', evOrg = None, evTopic = ''invoice.paid'', evKey = None,
       evPayload = JObj [], evSource = App, evCreatedAt = 0\<rparr>\<rparr>"

theorem webhook_requests_are_validated_and_signed_witness:
  "fst (deliverWebhook exampleWebhookPlatform (\<lambda>_. Response 204 None) 5000 exampleWebhookDelivery) = Returned"
proof -
  have "namePasses ''hooks.example.com''" by code_simp
  then have v: "validateHost h ''hooks.example.com'' = Inr h" for h by (rule namePasses_accepted)
  have "toLowerCase ''hooks.example.com'' = ''hooks.example.com''" by code_simp
  then have "validateWebhookUrl exampleWebhookPlatform ''https://hooks.example.com/x'' = Inr ''https://hooks.example.com/x''"
    by (simp add: validateWebhookUrl_def exampleWebhookPlatform_def v Let_def)
  then obtain req where req: "snd (deliverWebhook exampleWebhookPlatform (\<lambda>_. Response 204 None) 5000
      exampleWebhookDelivery) = Some req"
    by (simp add: deliverWebhook_def exampleWebhookDelivery_def readSecret_def Let_def)
      (simp add: exampleWebhookPlatform_def)
  have "hexDigest (replicate 64 (CHR ''a''))" by code_simp
  then have "hexDigest (pfHmacHex exampleWebhookPlatform k m)" for k m by (simp add: exampleWebhookPlatform_def)
  from webhook_requests_are_validated_and_signed [OF req this] show ?thesis by simp
qed

text \<open>
  A host with a trailing dot names the same host for a resolver, but not for the validator: the suffix
  test and the name list both miss it, so the local names it is meant to refuse get through.
\<close>

lemma trailing_dot_is_accepted:
  "validateHost href ''localhost.'' = Inr href \<and> validateHost href ''metadata.google.internal.'' = Inr href \<and>
   ''localhost'' \<in> set BLOCKED_HOSTNAMES \<and> list_ex (endsWith ''metadata.google.internal'') BLOCKED_HOST_SUFFIXES"
proof -
  have "namePasses ''localhost.''" "namePasses ''metadata.google.internal.''" by code_simp+
  moreover have "''localhost'' \<in> set BLOCKED_HOSTNAMES"
    "list_ex (endsWith ''metadata.google.internal'') BLOCKED_HOST_SUFFIXES" by code_simp+
  ultimately show ?thesis by (blast intro: namePasses_accepted)
qed

end
