(* ===== verification/EventProcess.thy ===== *)
theory EventProcess
  imports EventWebhooks
begin

text \<open>
  \<open>reserveIdempotencyKey\<close> and \<open>processDelivery\<close> of \<^verbatim>\<open>src/lib/events.ts\<close>: one claimed delivery run to
  its outcome for this attempt. The handler runs outside any transaction, so \<open>peMeanwhile\<close> is whatever
  the handler itself and every other process do to the database between the reservation and the
  status write. Each of the four database writes may also throw (\<open>pe...Err\<close>): \<open>withTimeout\<close> of
  \<^verbatim>\<open>src/db/client.ts\<close> only races the transaction against a timer, so the write may be lost, or it may
  have landed when the error is caught, or it may land after the attempt's last write.
\<close>

section \<open>Idempotency keys\<close>

definition scopedIdempotencyKey :: "uuid option \<Rightarrow> string \<Rightarrow> string" where
  "scopedIdempotencyKey organizationId key =
     (case organizationId of Some i \<Rightarrow> i | None \<Rightarrow> ''global'') @ '':'' @ key"

datatype reservation = Reserved | Seen uuid | InFlight uuid

definition insertReservation :: "claimedDelivery \<Rightarrow> string \<Rightarrow> eventsDb \<Rightarrow> appError + eventsDb \<times> bool" where
  "insertReservation c key db =
     (if (cdSub c, key) \<in> (\<lambda>r. (rcSub r, rcKey r)) ` set (receipts db) then Inr (db, False)
      else guard (\<not> receiptFk db (cdSub c) (evId (cdEvent c)) (cdId c)) fkViolation
        (Inr (db\<lparr>receipts := receipts db @
                [\<lparr>rcSub = cdSub c, rcKey = key, rcEvent = evId (cdEvent c),
                  rcDelivery = Some (cdId c), rcCompletedAt = None\<rparr>]\<rparr>, True)))"

definition deliveryRunning :: "eventsDb \<Rightarrow> uuid \<Rightarrow> bool" where
  "deliveryRunning db i \<longleftrightarrow>
     (case List.find (\<lambda>d. delId d = i) (deliveries db) of
        Some d \<Rightarrow> delStatus d = Running | None \<Rightarrow> False)"

definition reserveIdempotencyKey ::
    "claimedDelivery \<Rightarrow> string \<Rightarrow> eventsDb \<Rightarrow> appError + eventsDb \<times> reservation" where
  "reserveIdempotencyKey c key db =
     ebind (insertReservation c key db) (\<lambda>(db1, ok).
       if ok then Inr (db1, Reserved)
       else (case List.find (\<lambda>r. rcSub r = cdSub c \<and> rcKey r = key) (receipts db1) of
           None \<Rightarrow> Inr (db1, InFlight ''unknown'')
         | Some owner \<Rightarrow>
             if rcCompletedAt owner \<noteq> None then Inr (db1, Seen (rcEvent owner))
             else (case (case rcDelivery owner of
                           Some i \<Rightarrow> if i \<noteq> cdId c \<and> deliveryRunning db1 i then Some i else None
                         | None \<Rightarrow> None) of
                     Some i \<Rightarrow> Inr (db1, InFlight i)
                   | None \<Rightarrow>
                       (let db2 = db1\<lparr>receipts := deleteWhere (\<lambda>r. rcSub r = cdSub c \<and> rcKey r = key)
                                                  (receipts db1)\<rparr>
                        in ebind (insertReservation c key db2) (\<lambda>(db3, ok2).
                             Inr (db3, if ok2 then Reserved else InFlight ''unknown''))))))"

section \<open>Processing one delivery\<close>

datatype releaseReason = HandlerNotRegistered | IdempotencyKeyInFlight

datatype processOutcome =
    ODone
  | OSkipped
  | OReleased releaseReason
  | OFailed int
  | ODead

definition DEFAULT_HANDLER_TIMEOUT_MS :: int where
  "DEFAULT_HANDLER_TIMEOUT_MS = 30000"

definition KEY_IN_FLIGHT_RETRY_MS :: int where
  "KEY_IN_FLIGHT_RETRY_MS = 2000"

text \<open>What becomes of a write whose caller got an error (the text of the error, then its effect).\<close>

datatype landing = Lost | LandsAtOnce | LandsAfterwards

type_synonym writeFault = "string \<times> landing"

record processEnv =
  pePlatform :: platform
  peFetch :: "webhookRequest \<Rightarrow> fetchResult"
  peHandlerTimeoutMs :: "int option"
  peRandom :: rat
  peNow :: ms
  peMeanwhile :: "eventsDb \<Rightarrow> eventsDb"
  peReserveErr :: "writeFault option"
  peCompleteErr :: "writeFault option"
  peReleaseErr :: "writeFault option"
  peFailErr :: "writeFault option"

definition handlerTimeoutOf :: "processEnv \<Rightarrow> int" where
  "handlerTimeoutOf env =
     (case peHandlerTimeoutMs env of Some t \<Rightarrow> t | None \<Rightarrow> DEFAULT_HANDLER_TIMEOUT_MS)"

definition errorText :: "appError \<Rightarrow> string" where
  "errorText e = (case throwsError e of Threw m \<Rightarrow> m | _ \<Rightarrow> [])"

text \<open>
  One awaited database write: \<open>rest\<close> is what follows its answer, \<open>caught\<close> the \<open>catch\<close> block. A
  transaction that refuses (\<open>Inl\<close>) is rolled back.
\<close>

definition applied :: "(eventsDb \<Rightarrow> appError + eventsDb \<times> 'a) \<Rightarrow> eventsDb \<Rightarrow> eventsDb" where
  "applied write db = (case write db of Inl _ \<Rightarrow> db | Inr (db', _) \<Rightarrow> db')"

definition dbWrite ::
    "writeFault option \<Rightarrow> (eventsDb \<Rightarrow> appError + eventsDb \<times> 'a) \<Rightarrow> (string \<Rightarrow> eventsDb \<Rightarrow> eventsDb \<times> 'r)
      \<Rightarrow> ('a \<Rightarrow> eventsDb \<Rightarrow> eventsDb \<times> 'r) \<Rightarrow> eventsDb \<Rightarrow> eventsDb \<times> 'r" where
  "dbWrite fault write caught rest db =
     (case fault of
        None \<Rightarrow> (case write db of Inl e \<Rightarrow> caught (errorText e) db | Inr (db', a) \<Rightarrow> rest a db')
      | Some (m, landing) \<Rightarrow>
          (let catchBlock = caught (errorText (PlainError m)) in
           case landing of
             Lost \<Rightarrow> catchBlock db
           | LandsAtOnce \<Rightarrow> catchBlock (applied write db)
           | LandsAfterwards \<Rightarrow> (case catchBlock db of (db', r) \<Rightarrow> (applied write db', r))))"

text \<open>The \<open>catch\<close> block: \<open>timedOut\<close> is whether the error is an \<open>AttemptTimeoutError\<close>.\<close>

definition failAttempt ::
    "processEnv \<Rightarrow> claimedDelivery \<Rightarrow> string \<Rightarrow> bool \<Rightarrow> eventsDb \<Rightarrow> eventsDb \<times> processOutcome" where
  "failAttempt env c message timedOut db =
     (let minDelayMs = (if timedOut then handlerTimeoutOf env else 0) in
      dbWrite (peFailErr env)
        (\<lambda>x. Inr (failDelivery (tokenOf c) (cdMaxAttempts c) message (peRandom env) minDelayMs (peNow env) x))
        (\<lambda>_ x. (x, OFailed 0))
        (\<lambda>outcome x. (x, case outcome of DeadOutcome \<Rightarrow> ODead | FailedOutcome delayMs \<Rightarrow> OFailed delayMs))
        db)"

definition completeAs ::
    "processEnv \<Rightarrow> claimedDelivery \<Rightarrow> string option \<Rightarrow> processOutcome \<Rightarrow> eventsDb \<Rightarrow> eventsDb \<times> processOutcome"
  where
  "completeAs env c key outcome db =
     dbWrite (peCompleteErr env) (completeDelivery (tokenOf c) (cdSub c) (evId (cdEvent c)) key (peNow env))
       (\<lambda>m. failAttempt env c m False) (\<lambda>_ x. (x, outcome)) db"

definition releaseAs ::
    "processEnv \<Rightarrow> claimedDelivery \<Rightarrow> releaseReason \<Rightarrow> int \<Rightarrow> eventsDb \<Rightarrow> eventsDb \<times> processOutcome" where
  "releaseAs env c reason delayMs db =
     dbWrite (peReleaseErr env) (\<lambda>x. Inr (releaseClaims [tokenOf c] delayMs (peNow env) x))
       (\<lambda>m. failAttempt env c m False) (\<lambda>_ x. (x, OReleased reason)) db"

text \<open>\<open>runWithTimeout\<close> and what follows it: complete, or fail the attempt.\<close>

definition runAndFinish ::
    "processEnv \<Rightarrow> claimedDelivery \<Rightarrow> string \<Rightarrow> attemptResult \<Rightarrow> string option \<Rightarrow> eventsDb
      \<Rightarrow> eventsDb \<times> processOutcome" where
  "runAndFinish env c label result key db =
     (let db' = peMeanwhile env db in
      case result of
        Returned \<Rightarrow> completeAs env c key ODone db'
      | Threw m \<Rightarrow> failAttempt env c m False db'
      | TimedOut \<Rightarrow> failAttempt env c
          (''AttemptTimeoutError: '' @ label @ '' timed out after ''
             @ decimal (nat (handlerTimeoutOf env)) @ ''ms'') True db')"

text \<open>The branch of a handler with an idempotency key, which is reserved before it runs.\<close>

definition reserveAndRun ::
    "processEnv \<Rightarrow> claimedDelivery \<Rightarrow> string \<Rightarrow> attemptResult \<Rightarrow> string \<Rightarrow> eventsDb
      \<Rightarrow> eventsDb \<times> processOutcome" where
  "reserveAndRun env c label run key db =
     dbWrite (peReserveErr env) (reserveIdempotencyKey c key) (\<lambda>m. failAttempt env c m False)
       (\<lambda>reservation. case reservation of
            Reserved \<Rightarrow> runAndFinish env c label run (Some key)
          | Seen firstEventId \<Rightarrow> completeAs env c None OSkipped
          | InFlight owner \<Rightarrow> releaseAs env c IdempotencyKeyInFlight KEY_IN_FLIGHT_RETRY_MS) db"

definition processDelivery ::
    "registry \<Rightarrow> processEnv \<Rightarrow> claimedDelivery \<Rightarrow> eventsDb \<Rightarrow> eventsDb \<times> processOutcome" where
  "processDelivery reg env c db =
     (case cdKind c of
        KWebhook \<Rightarrow>
          runAndFinish env c (''webhook '' @ quoted (cdHandler c))
            (fst (deliverWebhook (pePlatform env) (peFetch env) (peNow env) c)) None db
      | KHandler \<Rightarrow>
          (case registryGet reg (evTopic (cdEvent c)) (cdHandler c) of
             None \<Rightarrow> releaseAs env c HandlerNotRegistered KEY_IN_FLIGHT_RETRY_MS db
           | Some entry \<Rightarrow>
               (let label = ''handler '' @ quoted (cdHandler c);
                    run = rhHandler entry (cdEvent c) (cdAttempts c) in
                case rhIdempotencyKey entry of
                  None \<Rightarrow> runAndFinish env c label run None db
                | Some keyOf \<Rightarrow>
                    (case keyOf (cdEvent c) of
                       Inl m \<Rightarrow> failAttempt env c m False db
                     | Inr rawKey \<Rightarrow>
                         reserveAndRun env c label run
                           (scopedIdempotencyKey (evOrg (cdEvent c)) rawKey) db))))"

end
