(* ===== verification/EventInvariants.thy ===== *)
theory EventInvariants
  imports EventProcess
begin

text \<open>
  The invariant of the event tables, the step relation of the whole event system, and that every step
  keeps the invariant.

  A state of the system is the database together with the claims handed out so far (\<open>sysClaims\<close>): a
  consumer may act on any of them at any later time, which is how a stalled process behaves. A step is
  one committed transaction of any process, so the reachable states cover every interleaving.
\<close>

section \<open>Well-formed tables\<close>

definition rowOk :: "deliveryRow \<Rightarrow> bool" where
  "rowOk d \<longleftrightarrow>
     (delStatus d = Running \<longrightarrow>
        delClaimedBy d \<noteq> None \<and> delClaimedAt d \<noteq> None \<and> 0 < delAttempts d) \<and>
     (delStatus d = Done \<longrightarrow> delDoneAt d \<noteq> None)"

definition delKey :: "deliveryRow \<Rightarrow> uuid \<times> uuid \<times> uuid" where
  "delKey d = (delId d, delEvent d, delSub d)"

definition receiptOk :: "eventsDb \<Rightarrow> receiptRow \<Rightarrow> bool" where
  "receiptOk db r \<longleftrightarrow>
     rcEvent r \<in> evId ` set (events db) \<and> rcSub r \<in> subId ` set (subscriptions db) \<and>
     (\<forall>i. rcDelivery r = Some i \<longrightarrow> (i, rcEvent r, rcSub r) \<in> delKey ` set (deliveries db))"

definition rcPair :: "receiptRow \<Rightarrow> uuid \<times> string" where
  "rcPair r = (rcSub r, rcKey r)"

definition wfDb :: "eventsDb \<Rightarrow> bool" where
  "wfDb db \<longleftrightarrow>
     distinct (map evId (events db)) \<and>
     distinct (map subId (subscriptions db)) \<and>
     distinct (map delId (deliveries db)) \<and>
     distinct (map (\<lambda>d. (delEvent d, delSub d)) (deliveries db)) \<and>
     distinct (map rcPair (receipts db)) \<and>
     (\<forall>s\<in>set (subscriptions db). 0 < subMaxAttempts s) \<and>
     (\<forall>d\<in>set (deliveries db). delEvent d \<in> evId ` set (events db) \<and>
        delSub d \<in> subId ` set (subscriptions db) \<and> rowOk d) \<and>
     (\<forall>r\<in>set (receipts db). receiptOk db r)"

lemma wfDb_empty: "wfDb emptyDb"
  by (simp add: wfDb_def emptyDb_def)

lemma wfDbD:
  assumes "wfDb db"
  shows "distinct (map evId (events db))" and "distinct (map subId (subscriptions db))"
    and "distinct (map delId (deliveries db))" and "distinct (map rcPair (receipts db))"
    and "distinct (map (\<lambda>d. (delEvent d, delSub d)) (deliveries db))"
  using assms by (simp_all add: wfDb_def)

lemma wfDb_delivery:
  assumes "wfDb db" and "d \<in> set (deliveries db)"
  shows "delEvent d \<in> evId ` set (events db)" and "delSub d \<in> subId ` set (subscriptions db)"
    and "rowOk d"
  using assms by (auto simp: wfDb_def)

lemma subscriptionOf_Some:
  assumes "wfDb db" and "d \<in> set (deliveries db)"
  obtains s where "subscriptionOf db d = Some s" and "s \<in> set (subscriptions db)"
    and "subId s = delSub d"
proof -
  from wfDb_delivery(2) [OF assms] obtain s where s: "s \<in> set (subscriptions db)" "subId s = delSub d"
    by auto
  with find_key_unique [OF wfDbD(2) [OF assms(1)] s(1)] have "subscriptionOf db d = Some s"
    by (simp add: subscriptionOf_def)
  with s show thesis by (rule that [rotated])
qed

lemma eventOf_Some:
  assumes "wfDb db" and "d \<in> set (deliveries db)"
  obtains e where "eventOf db d = Some e" and "e \<in> set (events db)" and "evId e = delEvent d"
proof -
  from wfDb_delivery(1) [OF assms] obtain e where e: "e \<in> set (events db)" "evId e = delEvent d"
    by auto
  with find_key_unique [OF wfDbD(1) [OF assms(1)] e(1)] have "eventOf db d = Some e"
    by (simp add: eventOf_def)
  with e show thesis by (rule that [rotated])
qed

text \<open>
  The shape of most operations: some rows of \<^verbatim>\<open>event_deliveries\<close> are updated without touching their
  keys, and the receipts become some other receipts that are still right.
\<close>

lemma delKey_updateWhere:
  "(\<And>d. delKey (f d) = delKey d) \<Longrightarrow> delKey ` set (updateWhere p f ds) = delKey ` set ds"
  using map_updateWhere [of p delKey f ds] by (metis set_map)

lemma receiptOk_completed [simp]: "receiptOk db (r\<lparr>rcCompletedAt := t\<rparr>) = receiptOk db r"
  by (simp add: receiptOk_def)

lemma receiptOk_receipts [simp]: "receiptOk (db\<lparr>receipts := rs\<rparr>) r = receiptOk db r"
  by (simp add: receiptOk_def)

lemma receiptOk_cong:
  assumes "events db' = events db" and "subId ` set (subscriptions db') = subId ` set (subscriptions db)"
    and "delKey ` set (deliveries db') = delKey ` set (deliveries db)"
  shows "receiptOk db' r = receiptOk db r"
  using assms by (simp add: receiptOk_def)

lemma wfDb_updateDeliveries:
  assumes wf: "wfDb db"
    and key: "\<And>d. delKey (f d) = delKey d"
    and row: "\<And>d. d \<in> set (deliveries db) \<Longrightarrow> p d \<Longrightarrow> rowOk (f d)"
    and dist: "distinct (map rcPair rs)"
    and rs: "\<And>r. r \<in> set rs \<Longrightarrow> receiptOk db r"
  shows "wfDb (db\<lparr>deliveries := updateWhere p f (deliveries db), receipts := rs\<rparr>)"
proof -
  let ?db = "db\<lparr>deliveries := updateWhere p f (deliveries db), receipts := rs\<rparr>"
  from key have keys: "\<And>d. delId (f d) = delId d" "\<And>d. delEvent (f d) = delEvent d"
    "\<And>d. delSub (f d) = delSub d"
    by (simp_all add: delKey_def)
  have ok: "\<And>r. receiptOk (db\<lparr>deliveries := updateWhere p f (deliveries db)\<rparr>) r = receiptOk db r"
    by (rule receiptOk_cong) (simp_all add: delKey_updateWhere [OF key])
  have rows: "\<forall>d\<in>set (updateWhere p f (deliveries db)). delEvent d \<in> evId ` set (events db) \<and>
        delSub d \<in> subId ` set (subscriptions db) \<and> rowOk d"
    using wf row by (auto simp: set_updateWhere wfDb_def keys split: if_splits)
  have "map delId (updateWhere p f (deliveries db)) = map delId (deliveries db)"
    and "map (\<lambda>d. (delEvent d, delSub d)) (updateWhere p f (deliveries db))
           = map (\<lambda>d. (delEvent d, delSub d)) (deliveries db)"
    by (simp_all add: map_updateWhere keys)
  with wf rows dist rs show ?thesis
    by (simp add: wfDb_def ok)
qed

lemma wfDb_updateDeliveries_only:
  assumes "wfDb db" and "\<And>d. delKey (f d) = delKey d"
    and "\<And>d. d \<in> set (deliveries db) \<Longrightarrow> p d \<Longrightarrow> rowOk (f d)"
  shows "wfDb (db\<lparr>deliveries := updateWhere p f (deliveries db)\<rparr>)"
proof -
  have "wfDb (db\<lparr>deliveries := updateWhere p f (deliveries db), receipts := receipts db\<rparr>)"
    by (rule wfDb_updateDeliveries) (use assms in \<open>auto simp: wfDb_def\<close>)
  then show ?thesis by simp
qed

lemma set_dropReceipts_subset: "set (dropReceipts ids rs) \<subseteq> set rs"
  by (auto simp: dropReceipts_def)

lemma distinct_dropReceipts:
  "distinct (map rcPair rs) \<Longrightarrow> distinct (map rcPair (dropReceipts ids rs))"
  by (simp add: dropReceipts_def distinct_map_deleteWhere)

text \<open>What each status write does to the fields the invariant reads.\<close>

lemma row_writes [row_simps]:
  "delKey (claimRow who now d) = delKey d"
  "delKey (releaseRow due d) = delKey d"
  "delKey (completeRow now d) = delKey d"
  "delKey (failRow dead msg due d) = delKey d"
  "delKey (requeueRow now db d) = delKey d"
  "rowOk (claimRow who now d)"
  "rowOk (releaseRow due d)"
  "rowOk (completeRow now d)"
  "rowOk (failRow dead msg due d)"
  by (simp_all add: delKey_def rowOk_def claimRow_def releaseRow_def completeRow_def failRow_def
      requeueRow_def)

section \<open>Each operation keeps the invariant\<close>

lemma wfDb_claimTransaction: "wfDb db \<Longrightarrow> wfDb (fst (claimTransaction pj locked batch opts now db))"
  by (simp add: claimTransaction_def Let_def wfDb_updateDeliveries_only row_simps)

lemma wfDb_dropReceipts:
  assumes "wfDb db"
  shows "distinct (map rcPair (dropReceipts ids (receipts db)))"
    and "r \<in> set (dropReceipts ids (receipts db)) \<Longrightarrow> receiptOk db r"
  using assms by (auto simp: wfDb_def dropReceipts_def distinct_map_deleteWhere)

lemma wfDb_releaseClaims: "wfDb db \<Longrightarrow> wfDb (fst (releaseClaims tks delay now db))"
  unfolding releaseClaims_def Let_def
proof (cases "tks = []", goal_cases)
  case 2
  show ?case
    unfolding if_not_P [OF 2(2)] fst_conv
    by (rule wfDb_updateDeliveries [OF 2(1)]) (simp_all add: row_simps wfDb_dropReceipts [OF 2(1)])
qed simp

lemma wfDb_failDelivery:
  assumes wf: "wfDb db"
  shows "wfDb (fst (failDelivery tk mx err random minDelay now db))"
  unfolding failDelivery_def Let_def fst_conv
  by (rule wfDb_updateDeliveries [OF wf])
    (use wf in \<open>auto simp: row_simps wfDb_dropReceipts [OF wf] wfDbD [OF wf]
      split: if_splits, auto simp: wfDb_def\<close>)

lemma wfDb_replayDelivery: "wfDb db \<Longrightarrow> wfDb (fst (replayDelivery i now db))"
  by (simp add: replayDelivery_def wfDb_updateDeliveries_only delKey_def rowOk_def)

lemma wfDb_requeueStale:
  assumes wf: "wfDb db"
  shows "wfDb (fst (requeueStaleDeliveries staleMs now db))"
  unfolding requeueStaleDeliveries_def Let_def fst_conv
  by (rule wfDb_updateDeliveries [OF wf])
    (simp_all add: row_simps wfDb_dropReceipts [OF wf], auto simp: rowOk_def requeueRow_def stale_def
      split: option.splits)

text \<open>The receipt upsert of \<open>completeDelivery\<close>, for a claim that agrees with its row.\<close>

definition claimAgrees :: "eventsDb \<Rightarrow> claimedDelivery \<Rightarrow> bool" where
  "claimAgrees db c \<longleftrightarrow>
     (\<forall>d\<in>set (deliveries db). delId d = cdId c \<longrightarrow>
        delEvent d = evId (cdEvent c) \<and> delSub d = cdSub c)"

lemma fk_receiptOk:
  assumes "claimAgrees db c" and "receiptFk db (cdSub c) (evId (cdEvent c)) (cdId c)"
  shows "receiptOk db \<lparr>rcSub = cdSub c, rcKey = key, rcEvent = evId (cdEvent c),
           rcDelivery = Some (cdId c), rcCompletedAt = t\<rparr>"
proof -
  from assms(2) obtain d where "d \<in> set (deliveries db)" and "delId d = cdId c"
    by (auto simp: receiptFk_def)
  with assms show ?thesis
    by (force simp: receiptOk_def receiptFk_def claimAgrees_def delKey_def image_iff)
qed

lemma wfDb_completeReceipt:
  assumes wf: "wfDb db" and ag: "claimAgrees db c"
    and r: "completeReceipt (cdSub c) key (evId (cdEvent c)) (cdId c) now db = Inr rs"
  shows "distinct (map rcPair rs) \<and> (\<forall>x\<in>set rs. receiptOk db x)"
proof (cases "(cdSub c, key) \<in> (\<lambda>r. (rcSub r, rcKey r)) ` set (receipts db)")
  case True
  with r have rs: "rs = updateWhere (\<lambda>r. rcSub r = cdSub c \<and> rcKey r = key \<and> rcDelivery r = Some (cdId c))
             (\<lambda>r. r\<lparr>rcCompletedAt := Some now\<rparr>) (receipts db)"
    by (simp add: completeReceipt_def)
  have "map rcPair rs = map rcPair (receipts db)"
    unfolding rs by (rule map_updateWhere) (simp add: rcPair_def)
  moreover have "\<forall>x\<in>set rs. receiptOk db x"
    using wf by (auto simp: rs set_updateWhere wfDb_def)
  ultimately show ?thesis using wfDbD(4) [OF wf] by simp
next
  case False
  with r have fk: "receiptFk db (cdSub c) (evId (cdEvent c)) (cdId c)"
    and rs: "rs = receipts db @ [\<lparr>rcSub = cdSub c, rcKey = key, rcEvent = evId (cdEvent c),
             rcDelivery = Some (cdId c), rcCompletedAt = Some now\<rparr>]"
    by (auto simp: completeReceipt_def guard_def split: if_splits)
  from False wfDbD(4) [OF wf] have "distinct (map rcPair rs)"
    by (auto simp: rs rcPair_def)
  moreover have "\<forall>x\<in>set rs. receiptOk db x"
    using wf fk_receiptOk [OF ag fk] by (auto simp: rs wfDb_def)
  ultimately show ?thesis by simp
qed

lemma wfDb_completeDelivery:
  assumes "wfDb db" and "claimAgrees db c"
    and "completeDelivery (tokenOf c) (cdSub c) (evId (cdEvent c)) key now db = Inr (db', b)"
  shows "wfDb db'"
proof (cases key)
  case None
  with assms show ?thesis
    by (auto simp: completeDelivery_def row_simps intro: wfDb_updateDeliveries_only)
next
  case (Some k)
  with assms(3) obtain rs where rs: "completeReceipt (cdSub c) k (evId (cdEvent c)) (cdId c) now db = Inr rs"
    and db': "db' = db\<lparr>deliveries := updateWhere (fenced (tokenOf c)) (completeRow now) (deliveries db),
                       receipts := rs\<rparr>"
    by (auto simp: completeDelivery_def tokenOf_def ebind_Inr_iff)
  from wfDb_completeReceipt [OF assms(1,2) rs] show ?thesis
    unfolding db' by (intro wfDb_updateDeliveries) (auto simp: row_simps assms(1))
qed

lemma wfDb_setReceipts:
  assumes "wfDb db" and "distinct (map rcPair rs)" and "\<And>r. r \<in> set rs \<Longrightarrow> receiptOk db r"
  shows "wfDb (db\<lparr>receipts := rs\<rparr>)"
  using assms by (simp add: wfDb_def)

lemma wfDb_insertReservation:
  assumes "wfDb db" and "claimAgrees db c" and "insertReservation c key db = Inr (db', ok)"
  shows "wfDb db' \<and> deliveries db' = deliveries db"
proof (cases ok)
  case False
  with assms show ?thesis
    by (auto simp: insertReservation_def guard_def split: if_splits)
next
  case True
  with assms(3) have new: "(cdSub c, key) \<notin> (\<lambda>r. (rcSub r, rcKey r)) ` set (receipts db)"
    and fk: "receiptFk db (cdSub c) (evId (cdEvent c)) (cdId c)"
    and db': "db' = db\<lparr>receipts := receipts db @
                [\<lparr>rcSub = cdSub c, rcKey = key, rcEvent = evId (cdEvent c),
                  rcDelivery = Some (cdId c), rcCompletedAt = None\<rparr>]\<rparr>"
    by (auto simp: insertReservation_def guard_def split: if_splits)
  from new wfDbD(4) [OF assms(1)] fk_receiptOk [OF assms(2) fk] assms(1) show ?thesis
    unfolding db' by (auto intro!: wfDb_setReceipts simp: rcPair_def wfDb_def)
qed

lemma wfDb_reserve:
  assumes wf: "wfDb db" and ag: "claimAgrees db c"
    and r: "reserveIdempotencyKey c key db = Inr (db', res)"
  shows "wfDb db' \<and> deliveries db' = deliveries db"
proof -
  from r obtain db1 ok where i1: "insertReservation c key db = Inr (db1, ok)"
    by (auto simp: reserveIdempotencyKey_def ebind_Inr_iff)
  from wfDb_insertReservation [OF wf ag i1] have w1: "wfDb db1" and d1: "deliveries db1 = deliveries db"
    by auto
  let ?db2 = "db1\<lparr>receipts := deleteWhere (\<lambda>r. rcSub r = cdSub c \<and> rcKey r = key) (receipts db1)\<rparr>"
  have w2: "wfDb ?db2"
    using w1 by (intro wfDb_setReceipts) (auto simp: wfDb_def distinct_map_deleteWhere)
  have ag2: "claimAgrees ?db2 c" using ag d1 by (simp add: claimAgrees_def)
  from r i1 consider "db' = db1"
    | ok2 where "insertReservation c key ?db2 = Inr (db', ok2)"
    by (auto simp: reserveIdempotencyKey_def ebind_Inr_iff Let_def
        split: if_splits option.splits)
  then show ?thesis
  proof cases
    case 1
    with w1 d1 show ?thesis by simp
  next
    case 2
    from wfDb_insertReservation [OF w2 ag2 2] d1 show ?thesis by simp
  qed
qed

section \<open>Publishing, subscriptions and retention keep it too\<close>

text \<open>What a fresh identifier is: the draws of one publish are distinct and not in use.\<close>

definition freshDeliveryIds :: "uuid set \<Rightarrow> (uuid \<Rightarrow> uuid) \<Rightarrow> eventsDb \<Rightarrow> bool" where
  "freshDeliveryIds used f db \<longleftrightarrow>
     inj_on f (subId ` set (subscriptions db)) \<and>
     f ` subId ` set (subscriptions db) \<inter> (used \<union> delId ` set (deliveries db)) = {}"

definition freshSubscriptionIds :: "(string \<Rightarrow> string \<Rightarrow> uuid) \<Rightarrow> registry \<Rightarrow> eventsDb \<Rightarrow> bool" where
  "freshSubscriptionIds f reg db \<longleftrightarrow>
     inj_on (\<lambda>h. f (rhTopic h) (rhName h)) (set reg) \<and>
     (\<lambda>h. f (rhTopic h) (rhName h)) ` set reg \<inter> subId ` set (subscriptions db) = {}"

definition registryOk :: "registry \<Rightarrow> bool" where
  "registryOk reg \<longleftrightarrow>
     distinct (map (\<lambda>h. registryKey (rhTopic h) (rhName h)) reg) \<and> (\<forall>h\<in>set reg. 0 < rhMaxAttempts h)"

lemma registryOk_register:
  assumes "registryOk reg" and "registerEventHandler topic fnName fn opts reg = Inr (reg', e)"
  shows "registryOk reg'"
  using assms
  by (auto simp: registerEventHandler_def registryOk_def registryGet_def Let_def find_None_iff_all
      split: option.splits) blast+

lemma publish_new_cases:
  assumes "publishEvent newId did now inp db = Inr (db', r)"
  obtains "db' = db" "\<not> prInserted r"
  | e where "prInserted r" "evId e \<notin> evId ` set (events db)" "evId e = prId r" "evTopic e = inTopic inp"
      "evOrg e = inOrg inp"
      "db' = db\<lparr>events := events db @ [e],
         deliveries := deliveries db @ map (\<lambda>s. newDelivery (did (subId s)) (evId e) (subId s) now)
           (filter (subscriptionMatches (inTopic inp) (inOrg inp)) (subscriptions db))\<rparr>"
proof -
  from assms show thesis
    apply (simp add: publishEvent_def ebind_Inr_iff Let_def insertOnConflictDoNothing_def image_iff
        split: prod.splits if_splits)
    subgoal using that(1) by auto
    subgoal premises p
    proof -
      from p obtain payload where
        eq: "db\<lparr>events := events db @ [\<lparr>evId = case inId inp of None \<Rightarrow> newId | Some x \<Rightarrow> x, evOrg = inOrg inp,
              evTopic = inTopic inp, evKey = inKey inp, evPayload = payload,
              evSource = case inSource inp of None \<Rightarrow> App | Some s \<Rightarrow> s, evCreatedAt = now\<rparr>],
            deliveries := deliveries db @ map (\<lambda>s. newDelivery (did (subId s))
              (case inId inp of None \<Rightarrow> newId | Some x \<Rightarrow> x) (subId s) now)
              (filter (subscriptionMatches (inTopic inp) (inOrg inp)) (subscriptions db))\<rparr> = db'"
        by auto
      show thesis
        by (rule that(2) [of "\<lparr>evId = case inId inp of None \<Rightarrow> newId | Some x \<Rightarrow> x, evOrg = inOrg inp,
              evTopic = inTopic inp, evKey = inKey inp, evPayload = payload,
              evSource = case inSource inp of None \<Rightarrow> App | Some s \<Rightarrow> s, evCreatedAt = now\<rparr>"])
          (use p eq in auto)
    qed
    done
qed

lemma receiptOk_mono:
  assumes "receiptOk db r" and "evId ` set (events db) \<subseteq> evId ` set (events db')"
    and "subId ` set (subscriptions db) \<subseteq> subId ` set (subscriptions db')"
    and "delKey ` set (deliveries db) \<subseteq> delKey ` set (deliveries db')"
  shows "receiptOk db' r"
  using assms unfolding receiptOk_def by blast

lemma wfDb_publish:
  assumes wf: "wfDb db" and fresh: "freshDeliveryIds used did db"
    and pub: "publishEvent newId did now inp db = Inr (db', r)"
  shows "wfDb db'"
  using pub
proof (cases rule: publish_new_cases)
  case 1
  with wf show ?thesis by simp
next
  case (2 e)
  let ?subs = "filter (subscriptionMatches (inTopic inp) (inOrg inp)) (subscriptions db)"
  let ?new = "map (\<lambda>s. newDelivery (did (subId s)) (evId e) (subId s) now) ?subs"
  from 2 have db': "events db' = events db @ [e]" "subscriptions db' = subscriptions db"
    "deliveries db' = deliveries db @ ?new" "receipts db' = receipts db" by simp_all
  have ds: "distinct (map subId ?subs)" using wfDbD(2) [OF wf] by (rule distinct_map_filter)
  have "map delId ?new = map did (map subId ?subs)" by (simp add: newDelivery_def)
  moreover have "distinct (map did (map subId ?subs))"
    using ds fresh by (subst distinct_map) (auto simp: freshDeliveryIds_def intro: inj_on_subset)
  moreover have "set (map did (map subId ?subs)) \<inter> delId ` set (deliveries db) = {}"
    using fresh by (auto simp: freshDeliveryIds_def)
  ultimately have ids: "distinct (map delId (deliveries db'))"
    using wfDbD(3) [OF wf] by (auto simp: db' simp del: map_map)
  have "map (\<lambda>d. (delEvent d, delSub d)) ?new = map (Pair (evId e)) (map subId ?subs)"
    by (simp add: newDelivery_def)
  then have "distinct (map (\<lambda>d. (delEvent d, delSub d)) ?new)"
    using ds by (simp add: distinct_map inj_on_def comp_def del: map_map)
  moreover have "(\<lambda>d. (delEvent d, delSub d)) ` set ?new \<inter> (\<lambda>d. (delEvent d, delSub d)) ` set (deliveries db) = {}"
    using wfDb_delivery(1) [OF wf] 2(2) by (auto simp: newDelivery_def)
  ultimately have pairs: "distinct (map (\<lambda>d. (delEvent d, delSub d)) (deliveries db'))"
    using wfDbD(5) [OF wf] by (auto simp: db')
  have rows: "\<forall>d\<in>set (deliveries db'). delEvent d \<in> evId ` set (events db') \<and>
      delSub d \<in> subId ` set (subscriptions db') \<and> rowOk d"
    using wfDb_delivery [OF wf] by (auto simp: db' newDelivery_def rowOk_def)
  have "\<forall>x\<in>set (receipts db'). receiptOk db' x"
    by (rule ballI, rule receiptOk_mono [of db]) (use wf in \<open>auto simp: wfDb_def db'\<close>)
  with wf ids pairs rows 2(2) show ?thesis by (simp add: wfDb_def db')
qed

lemma wfDb_setSubscriptions:
  assumes wf: "wfDb db" and "distinct (map subId ss)" and "\<forall>s\<in>set ss. 0 < subMaxAttempts s"
    and sup: "subId ` set (subscriptions db) \<subseteq> subId ` set ss"
  shows "wfDb (db\<lparr>subscriptions := ss\<rparr>)"
proof -
  have "\<forall>r\<in>set (receipts db). receiptOk (db\<lparr>subscriptions := ss\<rparr>) r"
    by (rule ballI, rule receiptOk_mono [of db]) (use wf sup in \<open>auto simp: wfDb_def\<close>)
  with assms show ?thesis by (auto simp: wfDb_def)
qed

lemma wfDb_updateSubscriptions:
  assumes "wfDb db" and "\<And>s. subId (f s) = subId s"
    and "\<And>s. 0 < subMaxAttempts s \<Longrightarrow> 0 < subMaxAttempts (f s)"
  shows "wfDb (db\<lparr>subscriptions := updateWhere p f (subscriptions db)\<rparr>)"
proof (rule wfDb_setSubscriptions [OF assms(1)])
  have keys: "map subId (updateWhere p f (subscriptions db)) = map subId (subscriptions db)"
    by (simp add: map_updateWhere assms(2))
  then show "distinct (map subId (updateWhere p f (subscriptions db)))"
    using wfDbD(2) [OF assms(1)] by simp
  from keys show "subId ` set (subscriptions db) \<subseteq> subId ` set (updateWhere p f (subscriptions db))"
    by (metis order_refl set_map)
  show "\<forall>s\<in>set (updateWhere p f (subscriptions db)). 0 < subMaxAttempts s"
    using assms by (auto simp: set_updateWhere wfDb_def)
qed

lemma wfDb_deactivateWebhook:
  "wfDb db \<Longrightarrow> deactivateWebhookSubscription org sid now db = Inr db' \<Longrightarrow> wfDb db'"
  by (auto simp: deactivateWebhookSubscription_def Let_def intro: wfDb_updateSubscriptions)

lemma wfDb_createWebhook:
  assumes "wfDb db" and "createWebhookSubscription pf newId now inp db = Inr (db', row)"
    and "newId \<notin> subId ` set (subscriptions db)"
  shows "wfDb db'"
proof -
  from assms(2) have "db' = db\<lparr>subscriptions := subscriptions db @ [row]\<rparr>" "subId row = newId"
    "0 < subMaxAttempts row"
    by (auto simp: createWebhookSubscription_def Let_def ebind_Inr_iff)
  with assms wfDbD(2) [OF assms(1)] show ?thesis
    by (auto intro!: wfDb_setSubscriptions [OF assms(1)]) (auto simp: wfDb_def)
qed

text \<open>The upserts of a registry sync, one entry after the other.\<close>

definition subsOk :: "subscriptionRow list \<Rightarrow> bool" where
  "subsOk ss \<longleftrightarrow> distinct (map subId ss) \<and> (\<forall>s\<in>set ss. 0 < subMaxAttempts s)"

lemma upsert_step:
  assumes "subsOk ss" and "0 < rhMaxAttempts h"
    and "f (rhTopic h) (rhName h) \<notin> subId ` set ss"
  shows "subsOk (upsertHandlerSubscription f now h ss)"
    and "subId ` set ss \<subseteq> subId ` set (upsertHandlerSubscription f now h ss)"
    and "subId ` set (upsertHandlerSubscription f now h ss)
           \<subseteq> insert (f (rhTopic h) (rhName h)) (subId ` set ss)"
proof -
  let ?p = "sameGlobal (rhTopic h) (rhName h)"
  let ?f = "\<lambda>s. s\<lparr>subMaxAttempts := rhMaxAttempts h, subActive := True, subUpdatedAt := now\<rparr>"
  have keys: "map subId (updateWhere ?p ?f ss) = map subId ss"
    by (rule map_updateWhere) simp
  then have ids: "subId ` set (updateWhere ?p ?f ss) = subId ` set ss"
    by (metis set_map)
  have "subsOk (updateWhere ?p ?f ss)"
    using assms keys by (auto simp: subsOk_def set_updateWhere)
  with assms show "subsOk (upsertHandlerSubscription f now h ss)"
    by (auto simp: upsertHandlerSubscription_def subsOk_def)
  show "subId ` set ss \<subseteq> subId ` set (upsertHandlerSubscription f now h ss)"
    and "subId ` set (upsertHandlerSubscription f now h ss)
           \<subseteq> insert (f (rhTopic h) (rhName h)) (subId ` set ss)"
    unfolding upsertHandlerSubscription_def using ids by auto
qed

lemma upserts_keep:
  assumes "subsOk ss" and "\<forall>h\<in>set reg. 0 < rhMaxAttempts h" and "distinct reg"
    and "inj_on (\<lambda>h. f (rhTopic h) (rhName h)) (set reg)"
    and "(\<lambda>h. f (rhTopic h) (rhName h)) ` set reg \<inter> subId ` set ss = {}"
  shows "subsOk (fold (upsertHandlerSubscription f now) reg ss) \<and>
    subId ` set ss \<subseteq> subId ` set (fold (upsertHandlerSubscription f now) reg ss)"
  using assms
proof (induction reg arbitrary: ss)
  case (Cons h reg)
  let ?ss = "upsertHandlerSubscription f now h ss"
  have fresh: "f (rhTopic h) (rhName h) \<notin> subId ` set ss" and pos: "0 < rhMaxAttempts h"
    using Cons.prems by auto
  note step = upsert_step [where f = f and now = now, OF Cons.prems(1) pos fresh]
  have "(\<lambda>h. f (rhTopic h) (rhName h)) ` set reg \<inter> subId ` set ?ss = {}"
  proof -
    have "f (rhTopic x) (rhName x) \<noteq> f (rhTopic h) (rhName h)" if "x \<in> set reg" for x
      using that Cons.prems(3,4) by (auto simp: inj_on_def)
    moreover have "f (rhTopic x) (rhName x) \<notin> subId ` set ss" if "x \<in> set reg" for x
      using that Cons.prems(5) by auto
    ultimately show ?thesis using step(3) by blast
  qed
  moreover have "inj_on (\<lambda>h. f (rhTopic h) (rhName h)) (set reg)"
    using Cons.prems(4) by (simp add: inj_on_insert)
  ultimately have "subsOk (fold (upsertHandlerSubscription f now) reg ?ss) \<and>
    subId ` set ?ss \<subseteq> subId ` set (fold (upsertHandlerSubscription f now) reg ?ss)"
    using Cons.prems(2,3) by (intro Cons.IH [OF step(1)]) simp_all
  with step(2) show ?case by auto
qed simp

lemma wfDb_sync:
  assumes wf: "wfDb db" and reg: "registryOk reg" and fresh: "freshSubscriptionIds f reg db"
  shows "wfDb (fst (syncSubscriptionsFromRegistry f now grace reg db))"
proof -
  have "distinct reg" using reg by (auto simp: registryOk_def distinct_map)
  then have ok: "subsOk (fold (upsertHandlerSubscription f now) reg (subscriptions db)) \<and>
    subId ` set (subscriptions db) \<subseteq> subId ` set (fold (upsertHandlerSubscription f now) reg (subscriptions db))"
    using wf reg fresh
    by (intro upserts_keep) (auto simp: wfDb_def subsOk_def registryOk_def freshSubscriptionIds_def)
  let ?db = "db\<lparr>subscriptions := fold (upsertHandlerSubscription f now) reg (subscriptions db)\<rparr>"
  have "wfDb ?db"
    using ok by (intro wfDb_setSubscriptions [OF wf]) (auto simp: subsOk_def)
  from wfDb_updateSubscriptions [OF this, of "\<lambda>s. s\<lparr>subActive := False, subUpdatedAt := now\<rparr>"]
  show ?thesis by (simp add: syncSubscriptionsFromRegistry_def Let_def)
qed

text \<open>Retention: what a deletion leaves behind still refers to rows that exist.\<close>

lemma clearDelivery_keys: "map rcPair (clearDelivery ids rs) = map rcPair rs"
  unfolding clearDelivery_def by (rule map_updateWhere) (simp add: rcPair_def)

lemma clearDelivery_in:
  assumes "r' \<in> set (clearDelivery ids rs)"
  obtains r where "r \<in> set rs" "rcEvent r' = rcEvent r" "rcSub r' = rcSub r"
    "rcDelivery r' = None \<or> (rcDelivery r' = rcDelivery r \<and> (\<forall>i. rcDelivery r = Some i \<longrightarrow> i \<notin> ids))"
  using assms by (auto simp: clearDelivery_def set_updateWhere split: if_splits option.splits)

lemma wfDb_deleteDone:
  assumes wf: "wfDb db"
  shows "wfDb (fst (deleteDoneBatch before batch db))"
proof -
  obtain ids where eq: "fst (deleteDoneBatch before batch db) =
      db\<lparr>deliveries := deleteWhere (\<lambda>d. delId d \<in> ids) (deliveries db),
         receipts := clearDelivery ids (receipts db)\<rparr>" (is "_ = ?db")
    by (simp add: deleteDoneBatch_def Let_def)
  have "receiptOk ?db r'" if "r' \<in> set (clearDelivery ids (receipts db))" for r'
  proof -
    from that obtain r where r: "r \<in> set (receipts db)" "rcEvent r' = rcEvent r" "rcSub r' = rcSub r"
      "rcDelivery r' = None \<or> (rcDelivery r' = rcDelivery r \<and> (\<forall>i. rcDelivery r = Some i \<longrightarrow> i \<notin> ids))"
      by (rule clearDelivery_in)
    then have ok: "receiptOk db r" using wf by (simp add: wfDb_def)
    have "(i, rcEvent r, rcSub r) \<in> delKey ` set (deliveries ?db)" if "rcDelivery r' = Some i" for i
    proof -
      from that r(4) have "rcDelivery r = Some i" "i \<notin> ids" by auto
      with ok obtain d where "d \<in> set (deliveries db)" "delKey d = (i, rcEvent r, rcSub r)"
        by (auto simp: receiptOk_def)
      with \<open>i \<notin> ids\<close> show ?thesis by (auto simp: delKey_def intro!: image_eqI [of _ _ d])
    qed
    with ok r(2,3) show ?thesis by (simp add: receiptOk_def)
  qed
  with wf show ?thesis
    unfolding eq by (simp add: wfDb_def clearDelivery_keys distinct_map_deleteWhere)
qed

lemma wfDb_deleteEvent:
  assumes wf: "wfDb db"
  shows "wfDb (fst (deleteEventBatch before batch db))"
proof -
  define ids where "ids = evId ` set (take batch (filter (eventExpired before db) (events db)))"
  define gone where "gone = delId ` {d \<in> set (deliveries db). delEvent d \<in> ids}"
  let ?db = "db\<lparr>events := deleteWhere (\<lambda>e. evId e \<in> ids) (events db),
             deliveries := deleteWhere (\<lambda>d. delEvent d \<in> ids) (deliveries db),
             receipts := clearDelivery gone (deleteWhere (\<lambda>r. rcEvent r \<in> ids) (receipts db))\<rparr>"
  have eq: "fst (deleteEventBatch before batch db) = ?db"
    by (simp add: deleteEventBatch_def Let_def ids_def gone_def)
  have "receiptOk ?db r'" if "r' \<in> set (receipts ?db)" for r'
  proof -
    from that obtain r where r: "r \<in> set (receipts db)" "rcEvent r \<notin> ids" "rcEvent r' = rcEvent r"
      "rcSub r' = rcSub r"
      "rcDelivery r' = None \<or> (rcDelivery r' = rcDelivery r \<and> (\<forall>i. rcDelivery r = Some i \<longrightarrow> i \<notin> gone))"
      by (auto elim!: clearDelivery_in)
    then have ok: "receiptOk db r" using wf by (simp add: wfDb_def)
    have "(i, rcEvent r, rcSub r) \<in> delKey ` set (deliveries ?db)" if "rcDelivery r' = Some i" for i
    proof -
      from that r(5) have "rcDelivery r = Some i" by auto
      with ok obtain d where "d \<in> set (deliveries db)" "delKey d = (i, rcEvent r, rcSub r)"
        by (auto simp: receiptOk_def)
      with r(2) show ?thesis by (auto simp: delKey_def intro!: image_eqI [of _ _ d])
    qed
    with ok r(2,3,4) show ?thesis by (auto simp: receiptOk_def)
  qed
  with wf show ?thesis
    unfolding eq by (auto simp: wfDb_def clearDelivery_keys distinct_map_deleteWhere)
qed

end
