(* ===== verification/EventSystem.thy ===== *)
theory EventSystem
  imports EventInvariants
begin

text \<open>
  The event system as a state machine: the database, the claims that have been handed out, and one step
  per committed transaction of any process. A claim stays in \<open>sysClaims\<close> for ever, since a stalled
  process may act on it arbitrarily late; so the reachable states cover every interleaving of pods,
  reapers, operators and late writes. The identifiers a step draws are fresh, as UUIDs are.
\<close>

record system =
  sysDb :: eventsDb
  sysClaims :: "claimedDelivery set"

definition sysInit :: "system \<Rightarrow> bool" where
  "sysInit s \<longleftrightarrow> sysDb s = emptyDb \<and> sysClaims s = {}"

inductive sysStep :: "system \<Rightarrow> system \<Rightarrow> bool" where
  stepPublish:
    "publishEvent newId did now inp (sysDb s) = Inr (db', r) \<Longrightarrow>
     freshDeliveryIds (cdId ` sysClaims s) did (sysDb s) \<Longrightarrow>
     sysStep s (s\<lparr>sysDb := db'\<rparr>)"
| stepSync:
    "registryOk reg \<Longrightarrow> freshSubscriptionIds f reg (sysDb s) \<Longrightarrow>
     sysStep s (s\<lparr>sysDb := fst (syncSubscriptionsFromRegistry f now grace reg (sysDb s))\<rparr>)"
| stepCreateWebhook:
    "createWebhookSubscription pf sid now win (sysDb s) = Inr (db', row) \<Longrightarrow>
     sid \<notin> subId ` set (subscriptions (sysDb s)) \<Longrightarrow>
     sysStep s (s\<lparr>sysDb := db'\<rparr>)"
| stepDeactivateWebhook:
    "deactivateWebhookSubscription org sid now (sysDb s) = Inr db' \<Longrightarrow>
     sysStep s (s\<lparr>sysDb := db'\<rparr>)"
| stepClaim:
    "claimTransaction pj locked batch opts now (sysDb s) = (db', rows) \<Longrightarrow>
     sysStep s \<lparr>sysDb = db', sysClaims = sysClaims s \<union> set rows\<rparr>"
| stepReserve:
    "c \<in> sysClaims s \<Longrightarrow> reserveIdempotencyKey c key (sysDb s) = Inr (db', res) \<Longrightarrow>
     sysStep s (s\<lparr>sysDb := db'\<rparr>)"
| stepComplete:
    "c \<in> sysClaims s \<Longrightarrow>
     completeDelivery (tokenOf c) (cdSub c) (evId (cdEvent c)) key' now (sysDb s) = Inr (db', b) \<Longrightarrow>
     sysStep s (s\<lparr>sysDb := db'\<rparr>)"
| stepFail:
    "c \<in> sysClaims s \<Longrightarrow>
     sysStep s (s\<lparr>sysDb := fst (failDelivery (tokenOf c) (cdMaxAttempts c) err random minDelay now (sysDb s))\<rparr>)"
| stepRelease:
    "set cs \<subseteq> sysClaims s \<Longrightarrow>
     sysStep s (s\<lparr>sysDb := fst (releaseClaims (map tokenOf cs) delay now (sysDb s))\<rparr>)"
| stepReplay: "sysStep s (s\<lparr>sysDb := fst (replayDelivery i now (sysDb s))\<rparr>)"
| stepRequeue: "sysStep s (s\<lparr>sysDb := fst (requeueStaleDeliveries staleMs now (sysDb s))\<rparr>)"
| stepDeleteDone: "sysStep s (s\<lparr>sysDb := fst (deleteDoneBatch before n (sysDb s))\<rparr>)"
| stepDeleteEvents: "sysStep s (s\<lparr>sysDb := fst (deleteEventBatch before n (sysDb s))\<rparr>)"

section \<open>The invariant\<close>

text \<open>
  \<open>agreed\<close>: every claim handed out names its delivery's own event and subscription. \<open>owned\<close>: every
  running delivery is running under a claim that was handed out, so it is never running unowned.
\<close>

definition agreed :: "eventsDb \<Rightarrow> claimedDelivery set \<Rightarrow> bool" where
  "agreed db cs \<longleftrightarrow> (\<forall>c\<in>cs. claimAgrees db c)"

definition owned :: "eventsDb \<Rightarrow> claimedDelivery set \<Rightarrow> bool" where
  "owned db cs \<longleftrightarrow>
     (\<forall>d\<in>set (deliveries db). delStatus d = Running \<longrightarrow> (\<exists>c\<in>cs. fenced (tokenOf c) d))"

definition sysInv :: "system \<Rightarrow> bool" where
  "sysInv s \<longleftrightarrow> wfDb (sysDb s) \<and> agreed (sysDb s) (sysClaims s) \<and> owned (sysDb s) (sysClaims s)"

lemma agreed_keys:
  assumes "agreed db cs" and "delKey ` set (deliveries db') \<subseteq> delKey ` set (deliveries db)"
  shows "agreed db' cs"
  unfolding agreed_def claimAgrees_def
proof (intro ballI impI)
  fix c d assume "c \<in> cs" "d \<in> set (deliveries db')" "delId d = cdId c"
  with assms(2) obtain d' where "d' \<in> set (deliveries db)" "delKey d' = delKey d" by fastforce
  with assms(1) \<open>c \<in> cs\<close> \<open>delId d = cdId c\<close> show "delEvent d = evId (cdEvent c) \<and> delSub d = cdSub c"
    by (auto simp: agreed_def claimAgrees_def delKey_def)
qed

lemma agreed_same: "agreed db cs \<Longrightarrow> deliveries db' = deliveries db \<Longrightarrow> agreed db' cs"
  by (erule agreed_keys) simp

lemma owned_same: "owned db cs \<Longrightarrow> deliveries db' = deliveries db \<Longrightarrow> owned db' cs"
  by (simp add: owned_def)

lemma agreed_update:
  "agreed db cs \<Longrightarrow> (\<And>d. delKey (f d) = delKey d) \<Longrightarrow> deliveries db' = updateWhere p f (deliveries db)
    \<Longrightarrow> agreed db' cs"
  by (erule agreed_keys) (simp add: delKey_updateWhere)

lemma owned_update:
  assumes "owned db cs" and "\<And>d. d \<in> set (deliveries db) \<Longrightarrow> p d \<Longrightarrow> delStatus (f d) \<noteq> Running"
    and "deliveries db' = updateWhere p f (deliveries db)"
  shows "owned db' cs"
  using assms by (auto simp: owned_def set_updateWhere)

lemma owned_subset: "owned db cs \<Longrightarrow> set (deliveries db') \<subseteq> set (deliveries db) \<Longrightarrow> owned db' cs"
  by (auto simp: owned_def)

section \<open>Deliveries after each operation\<close>

lemma deliveries_claim:
  "deliveries (fst (claimTransaction pj locked batch opts now db)) =
     updateWhere (\<lambda>d. delId d \<in> delId ` set (picked locked batch opts now db))
       (claimRow (coClaimedBy opts) now) (deliveries db)"
  by (simp add: claimTransaction_def Let_def)

lemma deliveries_complete:
  "completeDelivery tk sub ev key now db = Inr (db', b) \<Longrightarrow>
     deliveries db' = updateWhere (fenced tk) (completeRow now) (deliveries db)"
  by (auto simp: completeDelivery_def Let_def ebind_Inr_iff split: option.splits)

lemma deliveries_fail:
  "deliveries (fst (failDelivery tk mx err random minDelay now db)) =
     updateWhere (fenced tk) (failRow (snd (snd tk) \<ge> mx) (errorMessage err)
       (now + (if snd (snd tk) \<ge> mx then 0
               else max (computeBackoffMs (snd (snd tk)) random) minDelay))) (deliveries db)"
  by (simp add: failDelivery_def Let_def)

lemma deliveries_release:
  "deliveries (fst (releaseClaims tks delay now db)) =
     updateWhere (\<lambda>d. \<exists>tk\<in>set tks. fenced tk d) (releaseRow (now + max 0 delay)) (deliveries db)"
  by (auto simp: releaseClaims_def Let_def updateWhere_none)

lemma deliveries_requeue:
  "deliveries (fst (requeueStaleDeliveries staleMs now db)) =
     updateWhere (stale (now - max 0 staleMs) db) (requeueRow now db) (deliveries db)"
  by (simp add: requeueStaleDeliveries_def Let_def)

lemma deliveries_replay:
  "deliveries (fst (replayDelivery i now db)) =
     updateWhere (replayable i) (\<lambda>d. d\<lparr>delStatus := Pending, delAttempts := 0,
       delNextAttemptAt := now, delLastError := None\<rparr>) (deliveries db)"
  by (simp add: replayDelivery_def)

lemmas deliveries_after = deliveries_claim deliveries_fail deliveries_release deliveries_requeue

text \<open>No status write but the claim's leaves a row running.\<close>

lemma not_running [row_simps]:
  "delStatus (completeRow now d) \<noteq> Running"
  "delStatus (failRow dead msg due d) \<noteq> Running"
  "delStatus (releaseRow due d) \<noteq> Running"
  by (simp_all add: completeRow_def failRow_def releaseRow_def)

lemma requeueRow_not_running: "stale before db d \<Longrightarrow> delStatus (requeueRow now db d) \<noteq> Running"
  by (auto simp: stale_def requeueRow_def split: option.splits)

section \<open>What a claim returns\<close>

lemma picked_facts:
  assumes "d \<in> set (picked locked batch opts now db)"
  shows "d \<in> set (deliveries db)" and "claimable opts now db d" and "delId d \<notin> locked"
  using assms set_orderedLimit_subset unfolding picked_def by fastforce+

lemma claimable_joins:
  assumes "claimable opts now db d"
  obtains e s where "eventOf db d = Some e" and "subscriptionOf db d = Some s"
    and "delStatus d = Pending \<or> delStatus d = Failed" and "delNextAttemptAt d \<le> now"
    and "subActive s" and "topicFilter opts e" and "handlerFilter opts e s"
  using assms by (auto simp: claimable_def split: option.splits)

lemma eventOf_id: "eventOf db d = Some e \<Longrightarrow> e \<in> set (events db) \<and> evId e = delEvent d"
  unfolding eventOf_def by (drule find_Some_in) simp

lemma subscriptionOf_id: "subscriptionOf db d = Some s \<Longrightarrow> s \<in> set (subscriptions db) \<and> subId s = delSub d"
  unfolding subscriptionOf_def by (drule find_Some_in) simp

text \<open>The claims a transaction returns are exactly the picked rows, in order, each with its joins.\<close>

lemma returned_claim:
  assumes "c \<in> set (returnedRows pj who now db ds)"
  obtains d e s where "d \<in> set ds" and "eventOf db d = Some e" and "subscriptionOf db d = Some s"
    and "c = toClaimedDelivery pj who e s (claimRow who now d)"
  using assms by (auto simp: returnedRows_def set_map_filter split: option.splits)

lemma returned_ids:
  "(\<And>d. d \<in> set ds \<Longrightarrow> claimable opts now db d) \<Longrightarrow>
     map cdId (returnedRows pj who now db ds) = map delId ds"
proof (induction ds)
  case (Cons d ds)
  from Cons.prems [of d] obtain e s where "eventOf db d = Some e" "subscriptionOf db d = Some s"
    by (auto elim: claimable_joins)
  with Cons show ?case
    by (simp add: returnedRows_def toClaimedDelivery_def claimRow_def)
qed (simp add: returnedRows_def)

lemma claim_returned:
  assumes "c \<in> set (snd (claimTransaction pj locked batch opts now db))"
  obtains d e s where "d \<in> set (picked locked batch opts now db)"
    and "eventOf db d = Some e" and "subscriptionOf db d = Some s"
    and "c = toClaimedDelivery pj (coClaimedBy opts) e s (claimRow (coClaimedBy opts) now d)"
  using assms by (auto simp: claimTransaction_def Let_def elim: returned_claim)

lemma fenced_claimRow:
  "fenced (tokenOf (toClaimedDelivery pj who e s (claimRow who now d))) (claimRow who now d)"
  by (simp add: fenced_def tokenOf_def toClaimedDelivery_def claimRow_def)

lemma claim_ids:
  "map cdId (snd (claimTransaction pj locked batch opts now db)) =
     map delId (picked locked batch opts now db)"
  using returned_ids [OF picked_facts(2)] by (simp add: claimTransaction_def Let_def)

lemma picked_returned:
  assumes "d \<in> set (picked locked batch opts now db)"
  shows "\<exists>c\<in>set (snd (claimTransaction pj locked batch opts now db)).
    fenced (tokenOf c) (claimRow (coClaimedBy opts) now d)"
proof -
  from picked_facts(2) [OF assms] obtain e s where es: "eventOf db d = Some e" "subscriptionOf db d = Some s"
    by (auto elim: claimable_joins)
  then have "toClaimedDelivery pj (coClaimedBy opts) e s (claimRow (coClaimedBy opts) now d)
      \<in> set (snd (claimTransaction pj locked batch opts now db))"
    using assms by (auto simp: claimTransaction_def Let_def returnedRows_def set_map_filter intro!: bexI [of _ d])
  then show ?thesis using fenced_claimRow by blast
qed

lemma picked_same_id:
  assumes "wfDb db" and "d \<in> set (deliveries db)"
  shows "delId d \<in> delId ` set (picked locked batch opts now db) \<longleftrightarrow>
    d \<in> set (picked locked batch opts now db)"
proof
  assume "delId d \<in> delId ` set (picked locked batch opts now db)"
  then obtain d' where d': "d' \<in> set (picked locked batch opts now db)" "delId d' = delId d" by auto
  from distinct_key_eq [OF wfDbD(3) [OF assms(1)] picked_facts(1) [OF d'(1)] assms(2) d'(2)] d'(1)
  show "d \<in> set (picked locked batch opts now db)" by simp
qed simp

section \<open>Every step keeps the invariant\<close>

lemma inv_claim:
  assumes inv: "sysInv s" and tr: "claimTransaction pj locked batch opts now (sysDb s) = (db', rows)"
  shows "sysInv \<lparr>sysDb = db', sysClaims = sysClaims s \<union> set rows\<rparr>"
proof -
  let ?db = "sysDb s" and ?ps = "picked locked batch opts now (sysDb s)"
  from inv have wf: "wfDb ?db" and ag: "agreed ?db (sysClaims s)" and ow: "owned ?db (sysClaims s)"
    by (simp_all add: sysInv_def)
  from tr have db': "db' = fst (claimTransaction pj locked batch opts now ?db)"
    and rows: "rows = snd (claimTransaction pj locked batch opts now ?db)" by simp_all
  have dels: "deliveries db' = updateWhere (\<lambda>d. delId d \<in> delId ` set ?ps)
      (claimRow (coClaimedBy opts) now) (deliveries ?db)"
    by (simp add: db' deliveries_claim)
  have "agreed ?db (set rows)"
    unfolding agreed_def claimAgrees_def
  proof (intro ballI impI)
    fix c d assume c: "c \<in> set rows" and d: "d \<in> set (deliveries ?db)" "delId d = cdId c"
    from c obtain d' e t where d': "d' \<in> set ?ps" "eventOf ?db d' = Some e" "subscriptionOf ?db d' = Some t"
      and c': "c = toClaimedDelivery pj (coClaimedBy opts) e t (claimRow (coClaimedBy opts) now d')"
      unfolding rows by (rule claim_returned)
    have "delId d = delId d'" using d(2) by (simp add: c' toClaimedDelivery_def claimRow_def)
    from distinct_key_eq [OF wfDbD(3) [OF wf] d(1) picked_facts(1) [OF d'(1)] this]
    have eq: "d = d'" .
    have "evId (cdEvent c) = evId e" "cdSub c = delSub d'"
      by (simp_all add: c' toClaimedDelivery_def claimRow_def)
    with eventOf_id [OF d'(2)] eq
    show "delEvent d = evId (cdEvent c) \<and> delSub d = cdSub c" by simp
  qed
  with ag have "agreed ?db (sysClaims s \<union> set rows)" by (auto simp: agreed_def)
  then have 1: "agreed db' (sysClaims s \<union> set rows)"
    by (rule agreed_update) (simp_all add: dels row_simps)
  have 2: "owned db' (sysClaims s \<union> set rows)"
    unfolding owned_def
  proof (intro ballI impI)
    fix d assume d: "d \<in> set (deliveries db')" "delStatus d = Running"
    from d(1) show "\<exists>c\<in>sysClaims s \<union> set rows. fenced (tokenOf c) d"
      unfolding dels
    proof (cases rule: in_updateWhereE)
      case (1 d0)
      then have "d0 \<in> set ?ps" using picked_same_id [OF wf] by blast
      from picked_returned [OF this] 1(3) show ?thesis unfolding rows by blast
    next
      case 2
      with ow d(2) show ?thesis by (auto simp: owned_def)
    qed
  qed
  from wf have "wfDb db'" unfolding db' by (rule wfDb_claimTransaction)
  with 1 2 show ?thesis by (simp add: sysInv_def)
qed

lemma sysInv_same_deliveries:
  "sysInv s \<Longrightarrow> wfDb db' \<Longrightarrow> deliveries db' = deliveries (sysDb s) \<Longrightarrow> sysInv (s\<lparr>sysDb := db'\<rparr>)"
  by (auto simp: sysInv_def elim: agreed_same owned_same)

lemma sysInv_update:
  assumes "sysInv s" and "wfDb db'" and "deliveries db' = updateWhere p f (deliveries (sysDb s))"
    and "\<And>d. delKey (f d) = delKey d"
    and "\<And>d. d \<in> set (deliveries (sysDb s)) \<Longrightarrow> p d \<Longrightarrow> delStatus (f d) \<noteq> Running"
  shows "sysInv (s\<lparr>sysDb := db'\<rparr>)"
  using assms agreed_update [OF _ assms(4,3)] owned_update [OF _ assms(5,3)]
  by (simp add: sysInv_def)

lemma sysInv_subset:
  assumes "sysInv s" and "wfDb db'" and "set (deliveries db') \<subseteq> set (deliveries (sysDb s))"
  shows "sysInv (s\<lparr>sysDb := db'\<rparr>)"
  using assms agreed_keys [of "sysDb s" "sysClaims s" db'] owned_subset [of "sysDb s" "sysClaims s" db']
  by (simp add: sysInv_def image_mono)

lemma inv_publish:
  assumes inv: "sysInv s" and pub: "publishEvent newId did now inp (sysDb s) = Inr (db', r)"
    and fresh: "freshDeliveryIds (cdId ` sysClaims s) did (sysDb s)"
  shows "sysInv (s\<lparr>sysDb := db'\<rparr>)"
proof -
  from inv have wf: "wfDb (sysDb s)" and ag: "agreed (sysDb s) (sysClaims s)"
    and ow: "owned (sysDb s) (sysClaims s)" by (simp_all add: sysInv_def)
  have wf': "wfDb db'" by (rule wfDb_publish [OF wf fresh pub])
  from pub show ?thesis
  proof (cases rule: publish_new_cases)
    case 1
    with inv show ?thesis by simp
  next
    case (2 e)
    have new: "delStatus d = Pending \<and> (\<forall>c\<in>sysClaims s. delId d \<noteq> cdId c)"
      if "d \<in> set (deliveries db')" "d \<notin> set (deliveries (sysDb s))" for d
    proof -
      from that 2(6) obtain x where x: "x \<in> set (subscriptions (sysDb s))"
        "d = newDelivery (did (subId x)) (evId e) (subId x) now" by auto
      from x(1) fresh have "did (subId x) \<notin> cdId ` sysClaims s"
        by (auto simp: freshDeliveryIds_def)
      with x(2) show ?thesis by (auto simp: newDelivery_def)
    qed
    then have "agreed db' (sysClaims s)"
      using ag unfolding agreed_def claimAgrees_def by blast
    moreover have "owned db' (sysClaims s)"
      using ow new unfolding owned_def by force
    ultimately show ?thesis using wf' by (simp add: sysInv_def)
  qed
qed

lemma deliveries_sync [simp]:
  "deliveries (fst (syncSubscriptionsFromRegistry f now grace reg db)) = deliveries db"
  by (simp add: syncSubscriptionsFromRegistry_def Let_def)

lemma deliveries_createWebhook:
  "createWebhookSubscription pf sid now win db = Inr (db', row) \<Longrightarrow> deliveries db' = deliveries db"
  by (auto simp: createWebhookSubscription_def Let_def ebind_Inr_iff)

lemma deliveries_deactivateWebhook:
  "deactivateWebhookSubscription org sid now db = Inr db' \<Longrightarrow> deliveries db' = deliveries db"
  by (auto simp: deactivateWebhookSubscription_def Let_def)

lemma sysInv_step:
  assumes inv: "sysInv s" and "sysStep s s'"
  shows "sysInv s'"
proof -
  have wf: "wfDb (sysDb s)" using inv by (simp add: sysInv_def)
  from assms(2) show ?thesis
proof (cases rule: sysStep.cases)
  case stepPublish
  with inv show ?thesis by (auto intro: inv_publish)
next
  case stepSync
  with inv show ?thesis by (auto intro!: sysInv_same_deliveries wfDb_sync) (simp add: sysInv_def)
next
  case stepCreateWebhook
  with inv wf show ?thesis
    by (auto intro!: sysInv_same_deliveries intro: wfDb_createWebhook simp: deliveries_createWebhook)
next
  case stepDeactivateWebhook
  with inv wf show ?thesis
    by (auto intro!: sysInv_same_deliveries intro: wfDb_deactivateWebhook
        simp: deliveries_deactivateWebhook)
next
  case stepClaim
  with inv show ?thesis by (auto intro: inv_claim)
next
  case (stepReserve c key db' res)
  moreover have "claimAgrees (sysDb s) c"
    using inv stepReserve(2) by (simp add: sysInv_def agreed_def)
  ultimately show ?thesis
    using inv wfDb_reserve [OF wf] by (auto intro: sysInv_same_deliveries)
next
  case (stepComplete c key' now db' b)
  with inv wfDb_completeDelivery [of "sysDb s" c key' now db' b] show ?thesis
    unfolding stepComplete(1)
    by (intro sysInv_update [OF inv _ deliveries_complete]) (auto simp: sysInv_def agreed_def row_simps)
next
  case (stepFail c err random minDelay now)
  with inv show ?thesis
    unfolding stepFail(1)
    by (intro sysInv_update [OF inv _ deliveries_fail]) (auto simp: sysInv_def row_simps wfDb_failDelivery)
next
  case (stepRelease cs delay now)
  with inv show ?thesis
    unfolding stepRelease(1)
    by (intro sysInv_update [OF inv _ deliveries_release]) (auto simp: sysInv_def row_simps wfDb_releaseClaims)
next
  case (stepReplay i now)
  with inv show ?thesis
    unfolding stepReplay(1)
    by (intro sysInv_update [OF inv _ deliveries_replay])
      (auto simp: sysInv_def wfDb_replayDelivery delKey_def)
next
  case (stepRequeue staleMs now)
  with inv show ?thesis
    unfolding stepRequeue(1)
    by (intro sysInv_update [OF inv _ deliveries_requeue])
      (auto simp: sysInv_def row_simps wfDb_requeueStale requeueRow_not_running)
next
  case (stepDeleteDone before n)
  with inv show ?thesis
    unfolding stepDeleteDone(1)
    using wf by (intro sysInv_subset [OF inv] wfDb_deleteDone) (auto simp: deleteDoneBatch_def Let_def)
next
  case (stepDeleteEvents before n)
  with inv show ?thesis
    unfolding stepDeleteEvents(1)
    using wf by (intro sysInv_subset [OF inv] wfDb_deleteEvent) (auto simp: deleteEventBatch_def Let_def)
qed
qed

interpretation eventMachine: machine sysInit sysStep sysInv
proof unfold_locales
  fix s assume "sysInit s"
  then show "sysInv s"
    by (simp add: sysInit_def sysInv_def wfDb_empty agreed_def owned_def) (simp add: emptyDb_def)
next
  fix s s' assume "sysInv s" and "sysStep s s'"
  then show "sysInv s'" by (rule sysInv_step)
qed

end
