(* ===== verification/EventClaims.thy ===== *)
theory EventClaims
  imports EventSystem
begin

text \<open>
  What the claim and the fenced writes promise: who gets which row, that no two claims share one, that
  a claim which timed out leaves nothing running, and that of all the writes a claim may attempt only
  the first takes effect. \<open>exampleDb\<close> is a small queue the witnesses run on.
\<close>

section \<open>An example queue\<close>

definition exampleHandler :: registeredHandler where
  "exampleHandler = \<lparr>rhTopic = ''invoice.paid'', rhName = ''ledger'',
     rhHandler = (\<lambda>e n. Returned), rhMaxAttempts = 3, rhIdempotencyKey = Some (\<lambda>e. Inr (evId e))\<rparr>"

definition exampleSub :: subscriptionRow where
  "exampleSub = \<lparr>subId = ''s1'', subOrg = None, subTopic = ''invoice.paid'', subHandler = ''ledger'',
     subKind = KHandler, subMaxAttempts = 3, subUrl = None, subSecretRef = None, subActive = True,
     subUpdatedAt = 0\<rparr>"

definition exampleEvent :: eventRow where
  "exampleEvent = \<lparr>evId = ''e1'', evOrg = Some ''o1'', evTopic = ''invoice.paid'', evKey = None,
     evPayload = JObj [], evSource = App, evCreatedAt = 5\<rparr>"

definition exampleDelivery :: deliveryRow where
  "exampleDelivery = newDelivery ''d1'' ''e1'' ''s1'' 5"

definition exampleDb :: eventsDb where
  "exampleDb = \<lparr>events = [exampleEvent], subscriptions = [exampleSub],
     deliveries = [exampleDelivery], receipts = []\<rparr>"

definition exampleOpts :: claimOptions where
  "exampleOpts = \<lparr>coClaimedBy = ''pod-1'', coTopics = None,
     coRunnableHandlers = Some [(''invoice.paid'', ''ledger'')], coTimeoutMs = None\<rparr>"

definition exampleClaim :: claimedDelivery where
  "exampleClaim = toClaimedDelivery (\<lambda>_. None) ''pod-1'' exampleEvent exampleSub
     (claimRow ''pod-1'' 10 exampleDelivery)"

definition exampleRunning :: eventsDb where
  "exampleRunning = exampleDb\<lparr>deliveries := [claimRow ''pod-1'' 10 exampleDelivery]\<rparr>"

lemmas example_defs = exampleHandler_def exampleSub_def exampleEvent_def exampleDelivery_def
  exampleDb_def exampleOpts_def exampleClaim_def exampleRunning_def newDelivery_def

lemma exampleDb_wf: "wfDb exampleDb"
  by (simp add: example_defs wfDb_def rowOk_def)

lemma exampleRunning_wf: "wfDb exampleRunning"
  by (simp add: example_defs wfDb_def rowOk_def claimRow_def)

lemma example_claims: "claimTransaction (\<lambda>_. None) {} 10 exampleOpts 10 exampleDb = (exampleRunning, [exampleClaim])"
  by code_simp

section \<open>What a claim takes\<close>

lemma picked_limit: "length (picked locked batch opts now db) \<le> claimLimit batch"
  by (simp add: picked_def length_orderedLimit)

lemma claimLimit_bounds: "1 \<le> claimLimit batch \<and> claimLimit batch \<le> 500"
  using clamp_bounds [of 1 500 batch] by (simp add: claimLimit_def) linarith

lemma picked_distinct: "wfDb db \<Longrightarrow> distinct (map delId (picked locked batch opts now db))"
  unfolding picked_def using wfDbD(3) by (intro distinct_map_orderedLimit distinct_map_filter)

lemma picked_first:
  assumes "p \<in> set (picked locked batch opts now db)" and "d \<in> set (deliveries db)"
    and "claimable opts now db d" and "delId d \<notin> locked"
    and "d \<notin> set (picked locked batch opts now db)"
  shows "(delNextAttemptAt p, delCreatedAt p) \<le> (delNextAttemptAt d, delCreatedAt d)"
  using orderedLimit_minimal [OF assms(1) [unfolded picked_def], of d] assms(2-5)
  by (simp add: picked_def)

lemma picked_all_when_room:
  assumes "length (picked locked batch opts now db) < claimLimit batch"
    and "d \<in> set (deliveries db)" and "claimable opts now db d" and "delId d \<notin> locked"
  shows "d \<in> set (picked locked batch opts now db)"
proof -
  let ?c = "filter (\<lambda>d. claimable opts now db d \<and> delId d \<notin> locked) (deliveries db)"
  have "length ?c < claimLimit batch"
    using assms(1) by (simp add: picked_def length_orderedLimit_eq)
  then have "picked locked batch opts now db = sort_key (\<lambda>d. (delNextAttemptAt d, delCreatedAt d)) ?c"
    by (simp add: picked_def orderedLimit_def)
  with assms show ?thesis by simp
qed

text \<open>
  A claim returns at most the clamped batch, each delivery once; every returned row was pending or
  failed, due, of an active subscription and unlocked; a claimable row is left out only when the batch
  is full of rows due no later; and in the database exactly the returned rows change, to running under
  this consumer with one more attempt.
\<close>

theorem claim_takes_the_earliest_due:
  assumes "wfDb db" and "claimTransaction pj locked batch opts now db = (db', rows)"
  shows "length rows \<le> claimLimit batch \<and> distinct (map cdId rows) \<and>
    (\<forall>c\<in>set rows. \<exists>d\<in>set (deliveries db). delId d = cdId c \<and> claimable opts now db d \<and>
       cdId c \<notin> locked \<and> cdAttempts c = delAttempts d + 1) \<and>
    (\<forall>d\<in>set (deliveries db). claimable opts now db d \<longrightarrow> delId d \<notin> locked \<longrightarrow> delId d \<notin> cdId ` set rows
       \<longrightarrow> length rows = claimLimit batch \<and>
           (\<forall>p\<in>set (deliveries db). delId p \<in> cdId ` set rows \<longrightarrow>
              (delNextAttemptAt p, delCreatedAt p) \<le> (delNextAttemptAt d, delCreatedAt d))) \<and>
    deliveries db' = map (\<lambda>d. if delId d \<in> cdId ` set rows
       then d\<lparr>delStatus := Running, delClaimedBy := Some (coClaimedBy opts),
              delClaimedAt := Some now, delAttempts := delAttempts d + 1\<rparr>
       else d) (deliveries db)"
proof (intro conjI)
  let ?ps = "picked locked batch opts now db"
  from assms(2) have rows: "rows = snd (claimTransaction pj locked batch opts now db)"
    and db': "db' = fst (claimTransaction pj locked batch opts now db)" by simp_all
  have ids: "map cdId rows = map delId ?ps" by (simp add: rows claim_ids)
  then have set_ids: "cdId ` set rows = delId ` set ?ps" by (metis set_map)
  have len: "length rows = length ?ps" using ids by (metis length_map)
  show "length rows \<le> claimLimit batch" by (simp add: len picked_limit)
  show "distinct (map cdId rows)" by (simp add: ids picked_distinct assms(1))
  show "\<forall>c\<in>set rows. \<exists>d\<in>set (deliveries db). delId d = cdId c \<and> claimable opts now db d \<and>
           cdId c \<notin> locked \<and> cdAttempts c = delAttempts d + 1"
  proof
    fix c assume "c \<in> set rows"
    then obtain d e s where d: "d \<in> set ?ps"
      and c: "c = toClaimedDelivery pj (coClaimedBy opts) e s (claimRow (coClaimedBy opts) now d)"
      unfolding rows by (rule claim_returned)
    show "\<exists>d\<in>set (deliveries db). delId d = cdId c \<and> claimable opts now db d \<and>
           cdId c \<notin> locked \<and> cdAttempts c = delAttempts d + 1"
      using picked_facts [OF d] by (auto simp: c toClaimedDelivery_def claimRow_def)
  qed
  show "\<forall>d\<in>set (deliveries db). claimable opts now db d \<longrightarrow> delId d \<notin> locked \<longrightarrow> delId d \<notin> cdId ` set rows
           \<longrightarrow> length rows = claimLimit batch \<and>
               (\<forall>p\<in>set (deliveries db). delId p \<in> cdId ` set rows \<longrightarrow>
                  (delNextAttemptAt p, delCreatedAt p) \<le> (delNextAttemptAt d, delCreatedAt d))"
    using picked_all_when_room picked_first picked_limit [of locked batch opts now db]
    by (simp add: set_ids len picked_same_id [OF assms(1)]) (meson le_neq_implies_less)
  show "deliveries db' = map (\<lambda>d. if delId d \<in> cdId ` set rows
           then d\<lparr>delStatus := Running, delClaimedBy := Some (coClaimedBy opts),
                  delClaimedAt := Some now, delAttempts := delAttempts d + 1\<rparr>
           else d) (deliveries db)"
    by (simp add: db' deliveries_claim set_ids updateWhere_def claimRow_def [abs_def])
qed

theorem claim_takes_the_earliest_due_witness:
  "length [exampleClaim] \<le> claimLimit 10 \<and> distinct (map cdId [exampleClaim])"
  using claim_takes_the_earliest_due [OF exampleDb_wf example_claims] by blast

section \<open>No row goes to two claims\<close>

text \<open>
  C3. Two claims never return the same delivery: not when the second starts after the first has
  committed, whatever consumer, options and clock it has; and not when both run on one snapshot, where
  the second skips the rows the first holds locked.
\<close>

theorem claims_are_disjoint:
  assumes wf: "wfDb db" and first: "claimTransaction pj locked batch opts now db = (db1, rows1)"
  shows "cdId ` set rows1 \<inter> cdId ` set (snd (claimTransaction pj' locked' batch' opts' now' db1)) = {} \<and>
    cdId ` set rows1 \<inter>
      cdId ` set (snd (claimTransaction pj' (locked' \<union> cdId ` set rows1) batch' opts' now' db)) = {}"
proof -
  let ?ps = "picked locked batch opts now db"
  have claimed: "cdId ` set (snd (claimTransaction p l b o' n x)) = delId ` set (picked l b o' n x)"
    for p l b o' n x using claim_ids [of p l b o' n x] by (metis set_map)
  from first have rows1: "cdId ` set rows1 = delId ` set ?ps" using claimed [of pj] by (metis snd_conv)
  have db1: "deliveries db1 = updateWhere (\<lambda>d. delId d \<in> delId ` set ?ps)
      (claimRow (coClaimedBy opts) now) (deliveries db)"
    using deliveries_claim [of pj locked batch opts now db] first by simp
  have "i \<notin> delId ` set (picked locked' batch' opts' now' db1)" if "i \<in> delId ` set ?ps" for i
  proof
    assume "i \<in> delId ` set (picked locked' batch' opts' now' db1)"
    then obtain d where d: "delId d = i" "d \<in> set (deliveries db1)" "claimable opts' now' db1 d"
      using picked_facts by blast
    from d(3) have "delStatus d \<noteq> Running" by (auto elim: claimable_joins)
    moreover have "delStatus d = Running"
      using d(2) unfolding db1
    proof (cases rule: in_updateWhereE)
      case (1 d0)
      then show ?thesis by (simp add: claimRow_def)
    next
      case 2
      with that d(1) show ?thesis by simp
    qed
    ultimately show False by simp
  qed
  moreover have "i \<notin> delId ` set (picked (locked' \<union> delId ` set ?ps) batch' opts' now' db)"
    if "i \<in> delId ` set ?ps" for i
    using that picked_facts(3) by blast
  ultimately show ?thesis unfolding claimed rows1 by blast
qed

theorem claims_are_disjoint_witness:
  "cdId ` set [exampleClaim] \<inter>
     cdId ` set (snd (claimTransaction (\<lambda>_. None) {} 10 exampleOpts 10 exampleRunning)) = {}"
  using claims_are_disjoint [OF exampleDb_wf example_claims] by blast

section \<open>A claim that timed out\<close>

definition claimState :: "deliveryRow \<Rightarrow> (uuid \<times> uuid \<times> uuid) \<times> nat \<times> bool" where
  "claimState d = (delKey d, delAttempts d, delStatus d = Running)"

lemma release_undoes_claim:
  assumes wf: "wfDb db" and tr: "claimTransaction pj locked batch opts now db = (db1, rows)"
    and ne: "rows \<noteq> []"
  shows "map claimState (deliveries (fst (releaseClaims (map tokenOf rows) delay later db1))) =
    map claimState (deliveries db)"
proof -
  let ?ps = "picked locked batch opts now db" and ?who = "coClaimedBy opts"
  let ?hit = "\<lambda>d. \<exists>tk\<in>set (map tokenOf rows). fenced tk d"
  have rows: "rows = snd (claimTransaction pj locked batch opts now db)" using tr by simp
  have db1: "deliveries db1 = updateWhere (\<lambda>d. delId d \<in> delId ` set ?ps) (claimRow ?who now) (deliveries db)"
    using deliveries_claim [of pj locked batch opts now db] tr by simp
  have row: "claimState ((\<lambda>d. if ?hit d then releaseRow (later + max 0 delay) d else d)
      ((\<lambda>d. if delId d \<in> delId ` set ?ps then claimRow ?who now d else d) d)) = claimState d"
    if d: "d \<in> set (deliveries db)" for d
  proof (cases "delId d \<in> delId ` set ?ps")
    case True
    then have p: "d \<in> set ?ps" using picked_same_id [OF wf d] by blast
    from picked_returned [OF this] have "?hit (claimRow ?who now d)" by (auto simp: rows)
    moreover have "delStatus d \<noteq> Running"
      using picked_facts(2) [OF p] by (auto elim: claimable_joins)
    ultimately show ?thesis using True
      by (simp add: claimState_def row_simps) (simp add: claimRow_def releaseRow_def)
  next
    case False
    have "\<not> ?hit d"
    proof
      assume "?hit d"
      then obtain c where "c \<in> set rows" "delId d = cdId c" by (auto simp: fenced_def tokenOf_def)
      then have "delId d \<in> set (map cdId rows)" by simp
      then show False using False by (simp add: rows claim_ids)
    qed
    with False show ?thesis by simp
  qed
  show ?thesis
    unfolding deliveries_release db1 updateWhere_def map_map
    by (rule map_cong [OF refl]) (use row in \<open>simp only: comp_def\<close>)
qed

lemma claim_leaves_running:
  assumes "claimTransaction pj locked batch opts now db = (db1, rows)" and "d \<in> set (deliveries db1)"
  shows "d \<in> set (deliveries db) \<or> delClaimedBy d = Some (coClaimedBy opts) \<and> delClaimedAt d = Some now"
  using assms(2) deliveries_claim [of pj locked batch opts now db]
  by (auto simp: assms(1) claimRow_def set_updateWhere)

text \<open>
  A pass of the reaper frees every row that was claimed longer ago than its staleness bound.
\<close>

lemma requeue_frees:
  assumes "wfDb db" and "d \<in> set (deliveries (fst (requeueStaleDeliveries staleMs t db)))"
    and "delStatus d = Running" and "delClaimedAt d = Some now"
  shows "t \<le> now + max 0 staleMs"
proof (rule ccontr)
  assume late: "\<not> t \<le> now + max 0 staleMs"
  from assms(2) show False
    unfolding deliveries_requeue
  proof (cases rule: in_updateWhereE)
    case (1 r)
    with assms(3) show False by (simp add: requeueRow_not_running)
  next
    case 2
    from subscriptionOf_Some [OF assms(1) 2(1)] obtain s where "subscriptionOf db d = Some s" .
    with 2 assms(3,4) late show False by (auto simp: stale_def)
  qed
qed

text \<open>
  C22. A claim whose caller saw the timeout, at whichever point the timer fired, leaves the same rows
  running as before, with the same attempts, and none added or removed, provided that the release it
  may need goes through. If that release fails (which the code only logs), every row that is running and
  was not running before is under this consumer's token with this claim's time, so the next pass of the
  reaper after the staleness bound leaves no row running that was not running before the claim.
\<close>

theorem timed_out_claim_orphans_nothing:
  assumes "wfDb db"
    and "claimDeliveries pj locked timing batch opts now db = (db', Inl e)"
  shows "((\<forall>later. timing \<noteq> GaveUpBeforeCommitReturned later False) \<longrightarrow>
       map claimState (deliveries db') = map claimState (deliveries db)) \<and>
    (\<forall>d\<in>set (deliveries db'). delStatus d = Running \<longrightarrow> d \<in> set (deliveries db) \<or>
       delClaimedBy d = Some (coClaimedBy opts) \<and> delClaimedAt d = Some now) \<and>
    (\<forall>staleMs t. now + max 0 staleMs < t \<longrightarrow>
       (\<forall>d\<in>set (deliveries (fst (requeueStaleDeliveries staleMs t db'))).
          delStatus d = Running \<longrightarrow> d \<in> set (deliveries db)))"
proof -
  obtain db1 rows where tr: "claimTransaction pj locked batch opts now db = (db1, rows)" by force
  have wf1: "wfDb db1" using wfDb_claimTransaction [OF assms(1), of pj locked batch opts now] tr by simp
  have db': "db' = db \<or> db' = db1 \<or> (\<exists>later. db' = fst (releaseClaims (map tokenOf rows) 0 later db1))"
    using assms(2) tr by (auto simp: claimDeliveries_def split: claimTiming.splits if_splits)
  have same: "map claimState (deliveries db') = map claimState (deliveries db)"
    if "\<forall>later. timing \<noteq> GaveUpBeforeCommitReturned later False"
  proof (cases timing)
    case (GaveUpBeforeCommitReturned later released)
    with that have go: released by auto
    show ?thesis
    proof (cases "rows = []")
      case True
      then have "picked locked batch opts now db = []"
        using claim_ids [of pj locked batch opts now db] tr by simp
      then have "deliveries db1 = deliveries db"
        using deliveries_claim [of pj locked batch opts now db] tr by (simp add: updateWhere_none)
      with True tr GaveUpBeforeCommitReturned assms(2) show ?thesis by (simp add: claimDeliveries_def)
    next
      case False
      with tr GaveUpBeforeCommitReturned go assms(2)
      have "db' = fst (releaseClaims (map tokenOf rows) 0 later db1)" by (simp add: claimDeliveries_def)
      then show ?thesis using release_undoes_claim [OF assms(1) tr False] by simp
    qed
  qed (use assms in \<open>auto simp: claimDeliveries_def split: prod.splits\<close>)
  have wf': "wfDb db'" using db' assms(1) wf1 wfDb_releaseClaims [OF wf1] by auto
  have running: "d \<in> set (deliveries db) \<or> delClaimedBy d = Some (coClaimedBy opts) \<and> delClaimedAt d = Some now"
    if "d \<in> set (deliveries db')" "delStatus d = Running" for d
  proof -
    have "d \<in> set (deliveries db) \<or> d \<in> set (deliveries db1)"
      using db' that by (auto simp: deliveries_release set_updateWhere row_simps)
    then show ?thesis using claim_leaves_running [OF tr] by blast
  qed
  have "d \<in> set (deliveries db)" if "now + max 0 staleMs < t"
    "d \<in> set (deliveries (fst (requeueStaleDeliveries staleMs t db')))" "delStatus d = Running" for staleMs t d
  proof -
    have "d \<in> set (deliveries db')"
      using that(2,3) by (auto simp: deliveries_requeue set_updateWhere requeueRow_not_running)
    with running that(3) requeue_frees [OF wf' that(2,3)] that(1) show ?thesis by fastforce
  qed
  with same running show ?thesis by blast
qed

theorem timed_out_claim_orphans_nothing_witness:
  "map claimState (deliveries (fst (claimDeliveries (\<lambda>_. None) {} (GaveUpBeforeCommitReturned 11 True) 10
     exampleOpts 10 exampleDb))) = map claimState (deliveries exampleDb)"
proof -
  have "claimDeliveries (\<lambda>_. None) {} (GaveUpBeforeCommitReturned 11 True) 10 exampleOpts 10 exampleDb =
      (fst (claimDeliveries (\<lambda>_. None) {} (GaveUpBeforeCommitReturned 11 True) 10 exampleOpts 10 exampleDb),
       Inl (claimTimeoutError exampleOpts))"
    by (simp add: claimDeliveries_def example_claims)
  from timed_out_claim_orphans_nothing [OF exampleDb_wf this] show ?thesis by simp
qed

text \<open>The release that fails does leave a row running.\<close>

lemma failed_release_leaves_rows_running:
  "map delStatus (deliveries exampleDb) = [Pending] \<and>
   map delStatus (deliveries (fst (claimDeliveries (\<lambda>_. None) {} (GaveUpBeforeCommitReturned 11 False) 10
     exampleOpts 10 exampleDb))) = [Running]"
proof -
  have "map delStatus (deliveries exampleDb) = [Pending]" "map delStatus (deliveries exampleRunning) = [Running]"
    by code_simp+
  then show ?thesis by (simp add: claimDeliveries_def example_claims)
qed

end
