(* ===== verification/EventOutcomes.thy ===== *)
theory EventOutcomes
  imports EventClaims
begin

text \<open>
  What happens to a claimed delivery: of all writes under one claim token only the first moves the row;
  an idempotency key is reserved by one running delivery at a time, and while its receipt stands any other
  delivery is told so; a delivery that keeps failing is retried with a bounded backoff and dead-letters on
  its last attempt; and \<open>processDelivery\<close> settles its row, in the state it reports unless a write whose
  answer was lost says otherwise.
\<close>

section \<open>Writes under the claim token\<close>

text \<open>The interface of a write that is fenced on the token, for a family of writes.\<close>

locale fenced_writes =
  fixes act :: "'op \<Rightarrow> claimToken \<Rightarrow> eventsDb \<Rightarrow> eventsDb"
  assumes superseded: "(\<And>d. d \<in> set (deliveries db) \<Longrightarrow> \<not> fenced tk d) \<Longrightarrow>
      deliveries (act op tk db) = deliveries db"
    and settles: "deliveries (act op tk db) \<noteq> deliveries db \<Longrightarrow>
      d \<in> set (deliveries (act op tk db)) \<Longrightarrow> \<not> fenced tk d"
begin

lemma run_superseded:
  "(\<And>d. d \<in> set (deliveries db) \<Longrightarrow> \<not> fenced tk d) \<Longrightarrow>
     deliveries (fold (\<lambda>op. act op tk) ops db) = deliveries db"
proof (induction ops arbitrary: db)
  case (Cons op ops)
  from superseded [OF Cons.prems] have eq: "deliveries (act op tk db) = deliveries db" .
  with Cons.prems have "deliveries (fold (\<lambda>op. act op tk) ops (act op tk db)) = deliveries (act op tk db)"
    by (intro Cons.IH) simp
  with eq show ?case by simp
qed simp

lemma first_write_wins:
  "deliveries (act op tk db) \<noteq> deliveries db \<Longrightarrow>
     deliveries (fold (\<lambda>op. act op tk) ops (act op tk db)) = deliveries (act op tk db)"
  by (rule run_superseded) (rule settles)

end

text \<open>The three writes a claim can attempt; one that throws is rolled back.\<close>

datatype outcomeWrite =
    WComplete uuid uuid "string option" ms
  | WFail nat string rat int ms
  | WRelease int ms

fun applyWrite :: "outcomeWrite \<Rightarrow> claimToken \<Rightarrow> eventsDb \<Rightarrow> eventsDb" where
  "applyWrite (WComplete sub ev key now) tk db =
     (case completeDelivery tk sub ev key now db of Inl _ \<Rightarrow> db | Inr (db', _) \<Rightarrow> db')"
| "applyWrite (WFail maxAttempts err random minDelay now) tk db =
     fst (failDelivery tk maxAttempts err random minDelay now db)"
| "applyWrite (WRelease delay now) tk db = fst (releaseClaims [tk] delay now db)"

lemma deliveries_applyWrite:
  "\<exists>f. (\<forall>d. delStatus (f d) \<noteq> Running) \<and>
     (deliveries (applyWrite w tk db) = deliveries db \<or>
      deliveries (applyWrite w tk db) = updateWhere (fenced tk) f (deliveries db))"
proof (cases w)
  case (WComplete sub ev key now)
  then show ?thesis
    by (intro exI [of _ "completeRow now"])
      (auto simp: row_simps deliveries_complete split: sum.splits)
next
  case (WFail mx err random minDelay now)
  then show ?thesis
    unfolding WFail applyWrite.simps deliveries_fail
    by (intro exI conjI allI disjI2) (rule not_running(2), rule refl)
next
  case (WRelease delay now)
  then show ?thesis
    by (intro exI [of _ "releaseRow (now + max 0 delay)"]) (auto simp: row_simps deliveries_release)
qed

interpretation claimWrites: fenced_writes applyWrite
proof unfold_locales
  fix db :: eventsDb and tk op assume none: "\<And>d. d \<in> set (deliveries db) \<Longrightarrow> \<not> fenced tk d"
  from deliveries_applyWrite [of op tk db] none show "deliveries (applyWrite op tk db) = deliveries db"
    by (auto simp: updateWhere_none)
next
  fix op tk d and db :: eventsDb
  assume ne: "deliveries (applyWrite op tk db) \<noteq> deliveries db"
    and d: "d \<in> set (deliveries (applyWrite op tk db))"
  from deliveries_applyWrite [of op tk db] ne obtain f where f: "\<forall>d. delStatus (f d) \<noteq> Running"
    and eq: "deliveries (applyWrite op tk db) = updateWhere (fenced tk) f (deliveries db)" by auto
  from d show "\<not> fenced tk d"
    unfolding eq
  proof (cases rule: in_updateWhereE)
    case (1 r)
    then show ?thesis using f by (simp add: fenced_def split: prod.splits)
  qed
qed

lemma completeReceipt_other:
  assumes "completeReceipt sub key ev i now db = Inr rs"
  shows "filter (\<lambda>r. \<not> (rcSub r = sub \<and> rcKey r = key)) rs =
    filter (\<lambda>r. \<not> (rcSub r = sub \<and> rcKey r = key)) (receipts db)"
proof -
  have "filter (\<lambda>r. \<not> (rcSub r = sub \<and> rcKey r = key))
      (updateWhere (\<lambda>r. rcSub r = sub \<and> rcKey r = key \<and> rcDelivery r = Some i)
        (\<lambda>r. r\<lparr>rcCompletedAt := Some now\<rparr>) t) = filter (\<lambda>r. \<not> (rcSub r = sub \<and> rcKey r = key)) t" for t
    by (induction t) (auto simp: updateWhere_def)
  with assms show ?thesis by (auto simp: completeReceipt_def split: if_splits)
qed

text \<open>A superseded completion: without a key it changes nothing, with one at most the receipt of that key.\<close>

lemma superseded_completion:
  assumes none: "\<And>d. d \<in> set (deliveries db) \<Longrightarrow> \<not> fenced tk d"
  shows "applyWrite (WComplete sub ev None now) tk db = db"
    and "\<exists>rs. applyWrite (WComplete sub ev (Some key) now) tk db = db\<lparr>receipts := rs\<rparr> \<and>
         filter (\<lambda>r. \<not> (rcSub r = sub \<and> rcKey r = key)) rs =
         filter (\<lambda>r. \<not> (rcSub r = sub \<and> rcKey r = key)) (receipts db)"
proof -
  have same: "updateWhere (fenced tk) f (deliveries db) = deliveries db" for f
    using none by (simp add: updateWhere_none)
  show "applyWrite (WComplete sub ev None now) tk db = db"
    by (simp add: completeDelivery_def Let_def same)
  let ?other = "\<lambda>r. \<not> (rcSub r = sub \<and> rcKey r = key)"
  show "\<exists>rs. applyWrite (WComplete sub ev (Some key) now) tk db = db\<lparr>receipts := rs\<rparr> \<and>
      filter ?other rs = filter ?other (receipts db)"
  proof (cases "completeDelivery tk sub ev (Some key) now db")
    case (Inl e)
    then show ?thesis by (intro exI [of _ "receipts db"]) simp
  next
    case (Inr r)
    then obtain db' b where r: "r = (db', b)" by (cases r)
    from Inr obtain rs where rs: "completeReceipt sub key ev (fst tk) now db = Inr rs" "db' = db\<lparr>receipts := rs\<rparr>"
      by (auto simp: r completeDelivery_def Let_def ebind_Inr_iff same)
    have "filter ?other rs = filter ?other (receipts db)"
      using rs(1) completeReceipt_other by blast
    with Inr r rs(2) show ?thesis by (intro exI [of _ rs]) simp
  qed
qed

text \<open>
  C4. The fence. A claim whose row has moved on (requeued, replayed, claimed by someone else, or with
  another attempt count) moves no delivery row; a failure or a release from it changes nothing at all,
  and a completion can do no more than write or stamp the receipt of its own key. Of any sequence of
  writes under one token, the first that changes the row is the only one that does.
\<close>

theorem first_outcome_wins:
  "((\<forall>d\<in>set (deliveries (db::eventsDb)). delId d = fst tk \<longrightarrow>
        delStatus d \<noteq> Running \<or> delClaimedBy d \<noteq> Some (fst (snd tk)) \<or> delAttempts d \<noteq> snd (snd tk)) \<longrightarrow>
      deliveries (applyWrite w tk db) = deliveries db \<and>
      fst (failDelivery tk mx err random minDelay now db) = db \<and>
      fst (releaseClaims [tk] delay now db) = db \<and>
      applyWrite (WComplete sub ev None now) tk db = db \<and>
      (\<exists>rs. applyWrite (WComplete sub ev (Some key) now) tk db = db\<lparr>receipts := rs\<rparr> \<and>
         filter (\<lambda>r. \<not> (rcSub r = sub \<and> rcKey r = key)) rs =
         filter (\<lambda>r. \<not> (rcSub r = sub \<and> rcKey r = key)) (receipts db))) \<and>
    (deliveries (applyWrite w tk db) \<noteq> deliveries db \<longrightarrow>
      deliveries (fold (\<lambda>op. applyWrite op tk) ws (applyWrite w tk db)) = deliveries (applyWrite w tk db))"
proof (intro conjI impI)
  assume h: "\<forall>d\<in>set (deliveries db). delId d = fst tk \<longrightarrow>
        delStatus d \<noteq> Running \<or> delClaimedBy d \<noteq> Some (fst (snd tk)) \<or> delAttempts d \<noteq> snd (snd tk)"
  then have none: "\<And>d. d \<in> set (deliveries db) \<Longrightarrow> \<not> fenced tk d"
    by (cases tk) (auto simp: fenced_def)
  then show "deliveries (applyWrite w tk db) = deliveries db" by (rule claimWrites.superseded)
  show "fst (failDelivery tk mx err random minDelay now db) = db"
    using none by (auto simp: failDelivery_def Let_def updateWhere_none)
  have "filter (fenced tk) (deliveries db) = []" using none by (simp add: filter_empty_conv)
  then show "fst (releaseClaims [tk] delay now db) = db"
    using none by (simp add: releaseClaims_def Let_def updateWhere_none dropReceipts_def deleteWhere_none
        split: option.splits)
  show "applyWrite (WComplete sub ev None now) tk db = db" by (rule superseded_completion(1) [OF none])
  show "\<exists>rs. applyWrite (WComplete sub ev (Some key) now) tk db = db\<lparr>receipts := rs\<rparr> \<and>
         filter (\<lambda>r. \<not> (rcSub r = sub \<and> rcKey r = key)) rs =
         filter (\<lambda>r. \<not> (rcSub r = sub \<and> rcKey r = key)) (receipts db)"
    by (rule superseded_completion(2) [OF none])
next
  assume "deliveries (applyWrite w tk db) \<noteq> deliveries db"
  then show "deliveries (fold (\<lambda>op. applyWrite op tk) ws (applyWrite w tk db)) = deliveries (applyWrite w tk db)"
    by (rule claimWrites.first_write_wins)
qed

theorem first_outcome_wins_witness:
  "deliveries (applyWrite (WRelease 0 20) (''d1'', ''pod-2'', 1) exampleRunning) = deliveries exampleRunning \<and>
   deliveries (fold (\<lambda>op. applyWrite op (''d1'', ''pod-1'', 1)) [WFail 3 ''late'' 0 0 30]
     (applyWrite (WComplete ''s1'' ''e1'' None 20) (''d1'', ''pod-1'', 1) exampleRunning)) =
   deliveries (applyWrite (WComplete ''s1'' ''e1'' None 20) (''d1'', ''pod-1'', 1) exampleRunning)"
proof (rule conjI)
  have "\<forall>d\<in>set (deliveries exampleRunning). delId d = ''d1'' \<longrightarrow>
      delStatus d \<noteq> Running \<or> delClaimedBy d \<noteq> Some ''pod-2'' \<or> delAttempts d \<noteq> 1"
    by code_simp
  then show "deliveries (applyWrite (WRelease 0 20) (''d1'', ''pod-2'', 1) exampleRunning) = deliveries exampleRunning"
    using first_outcome_wins [where db = exampleRunning and tk = "(''d1'', ''pod-2'', 1)"
        and w = "WRelease 0 20"] by simp
  have "map delStatus (deliveries (applyWrite (WComplete ''s1'' ''e1'' None 20) (''d1'', ''pod-1'', 1) exampleRunning))
      \<noteq> map delStatus (deliveries exampleRunning)" by code_simp
  then have "deliveries (applyWrite (WComplete ''s1'' ''e1'' None 20) (''d1'', ''pod-1'', 1) exampleRunning)
      \<noteq> deliveries exampleRunning" by metis
  then show "deliveries (fold (\<lambda>op. applyWrite op (''d1'', ''pod-1'', 1)) [WFail 3 ''late'' 0 0 30]
     (applyWrite (WComplete ''s1'' ''e1'' None 20) (''d1'', ''pod-1'', 1) exampleRunning)) =
   deliveries (applyWrite (WComplete ''s1'' ''e1'' None 20) (''d1'', ''pod-1'', 1) exampleRunning)"
    using first_outcome_wins by blast
qed

section \<open>Idempotency keys\<close>

definition reservationOf :: "claimedDelivery \<Rightarrow> string \<Rightarrow> receiptRow" where
  "reservationOf c key = \<lparr>rcSub = cdSub c, rcKey = key, rcEvent = evId (cdEvent c),
     rcDelivery = Some (cdId c), rcCompletedAt = None\<rparr>"

lemma find_receipt:
  assumes "wfDb db" and "r \<in> set (receipts db)" and "rcSub r = sub" and "rcKey r = key"
  shows "List.find (\<lambda>x. rcSub x = sub \<and> rcKey x = key) (receipts db) = Some r"
  using find_key_unique [OF wfDbD(4) [OF assms(1)] assms(2)] assms(3,4)
  by (simp add: rcPair_def)

lemma insertReservation_taken:
  "r \<in> set (receipts db) \<Longrightarrow> rcSub r = cdSub c \<Longrightarrow> rcKey r = key \<Longrightarrow>
     insertReservation c key db = Inr (db, False)"
  by (force simp: insertReservation_def image_iff)

lemma insertReservation_True:
  "insertReservation c key db = Inr (db', True) \<Longrightarrow> reservationOf c key \<in> set (receipts db')"
  by (auto simp: insertReservation_def reservationOf_def split: if_splits)

lemma reserved_row:
  assumes "reserveIdempotencyKey c key db = Inr (db', Reserved)"
  shows "reservationOf c key \<in> set (receipts db')"
  using assms
  by (auto simp: reserveIdempotencyKey_def ebind_Inr_iff Let_def insertReservation_True
      split: if_splits option.splits)

text \<open>What a second delivery of the same subscription and key meets.\<close>

lemma reserve_meets:
  assumes wf: "wfDb db" and r: "r \<in> set (receipts db)" "rcSub r = cdSub c'" "rcKey r = key"
  shows "rcCompletedAt r \<noteq> None \<Longrightarrow> reserveIdempotencyKey c' key db = Inr (db, Seen (rcEvent r))"
    and "rcCompletedAt r = None \<Longrightarrow> rcDelivery r = Some i \<Longrightarrow> i \<noteq> cdId c' \<Longrightarrow> deliveryRunning db i \<Longrightarrow>
      reserveIdempotencyKey c' key db = Inr (db, InFlight i)"
  using insertReservation_taken [OF r] find_receipt [OF wf r]
  by (simp_all add: reserveIdempotencyKey_def)


definition exampleClaim2 :: claimedDelivery where
  "exampleClaim2 = exampleClaim\<lparr>cdId := ''d2'', cdEvent := exampleEvent\<lparr>evId := ''e2''\<rparr>\<rparr>"


section \<open>Backoff and dead letters\<close>

text \<open>
  The delay before the next attempt is between half of the exponential delay and all of it, the
  exponential delay doubles per attempt from one second, and it never exceeds one hour; so no retry is
  sooner than half a second.
\<close>

theorem backoff_bounds:
  "backoffExp n \<le> 2 * computeBackoffMs n random \<and> computeBackoffMs n random \<le> backoffExp n \<and>
   backoffExp n = min 3600000 (1000 * 2 ^ (n - 1)) \<and> 500 \<le> computeBackoffMs n random"
proof -
  let ?e = "backoffExp n"
  define r where "r = min 1 (max 0 random)"
  have r: "0 \<le> r" "r \<le> 1" by (simp_all add: r_def)
  have exp: "?e = min 3600000 (1000 * 2 ^ (n - 1))"
    by (simp add: backoffExp_def BACKOFF_CAP_MS_def BACKOFF_BASE_MS_def)
  have ge: "1000 \<le> ?e" unfolding exp by simp
  define x where "x = of_int ?e / 2 + r * (of_int ?e / (2::rat))"
  have x: "of_int ?e / 2 \<le> x" "x \<le> of_int ?e"
  proof -
    show "of_int ?e / 2 \<le> x" unfolding x_def using r ge by simp
    have "r * (of_int ?e / 2) \<le> 1 * (of_int ?e / 2)" using r ge by (intro mult_right_mono) simp_all
    then show "x \<le> of_int ?e" unfolding x_def by simp
  qed
  have c: "computeBackoffMs n random = \<lfloor>x + 1 / 2\<rfloor>"
    by (simp add: computeBackoffMs_def jsRound_def x_def r_def Let_def)
  have "?e \<le> 2 * \<lfloor>x + 1 / 2\<rfloor>"
  proof -
    have "of_int ?e \<le> 2 * x" using x(1) by simp
    also have "x < of_int \<lfloor>x + 1 / 2\<rfloor> + 1 / 2" by linarith
    finally have "of_int ?e < (of_int (2 * \<lfloor>x + 1 / 2\<rfloor> + 1) :: rat)" by simp
    then show ?thesis unfolding of_int_less_iff by simp
  qed
  moreover have "\<lfloor>x + 1 / 2\<rfloor> \<le> ?e"
  proof -
    have "x + 1 / 2 < of_int (?e + 1)" using x(2) by simp
    then have "\<lfloor>x + 1 / 2\<rfloor> < ?e + 1" by (simp only: floor_less_iff)
    then show ?thesis by simp
  qed
  moreover have "500 \<le> \<lfloor>x + 1 / 2\<rfloor>" using \<open>?e \<le> 2 * \<lfloor>x + 1 / 2\<rfloor>\<close> ge by linarith
  ultimately show ?thesis using exp unfolding c by blast
qed

text \<open>
  A delivery alone in its queue that fails every time: each round claims at the time it is due and
  fails what was claimed.
\<close>

fun failRounds :: "claimOptions \<Rightarrow> rat \<Rightarrow> nat \<Rightarrow> eventsDb \<Rightarrow> eventsDb" where
  "failRounds opts random 0 db = db"
| "failRounds opts random (Suc k) db =
     (let db1 = failRounds opts random k db;
          now = delNextAttemptAt (hd (deliveries db1));
          (db2, rows) = claimTransaction (\<lambda>_. None) {} 1 opts now db1
      in fold (\<lambda>c x. fst (failDelivery (tokenOf c) (cdMaxAttempts c) ''Error: boom'' random 0 now x)) rows db2)"

lemma claim_single:
  assumes "deliveries db = [d]" and "claimable opts now db d"
    and "eventOf db d = Some e" and "subscriptionOf db d = Some s"
  shows "claimTransaction pj {} 1 opts now db =
    (db\<lparr>deliveries := [claimRow (coClaimedBy opts) now d]\<rparr>,
     [toClaimedDelivery pj (coClaimedBy opts) e s (claimRow (coClaimedBy opts) now d)])"
  using assms
  by (simp add: claimTransaction_def picked_def claimLimit_def clamp_def orderedLimit_def
      table_simps returnedRows_def Let_def)

lemma claim_single_none:
  assumes "deliveries db = [d]" and "\<not> claimable opts now db d"
  shows "claimTransaction pj {} 1 opts now db = (db, [])"
  using assms
  by (simp add: claimTransaction_def picked_def orderedLimit_def table_simps returnedRows_def Let_def)

definition roundState :: "nat \<Rightarrow> nat \<Rightarrow> deliveryStatus" where
  "roundState k m = (if k = 0 then Pending else if k < m then Failed else Dead)"

lemma fail_round:
  fixes db :: eventsDb
  assumes one: "deliveries db = [d]" and s: "subscriptionOf db d = Some s" "subActive s"
    and e: "eventOf db d = Some e" "topicFilter opts e" "handlerFilter opts e s"
    and st: "delStatus d = Pending \<or> delStatus d = Failed"
  defines "n \<equiv> delAttempts d + 1"
  obtains d' db' where "failRounds opts random 1 db = db'" and "deliveries db' = [d']"
    and "events db' = events db" and "subscriptions db' = subscriptions db"
    and "delEvent d' = delEvent d" and "delSub d' = delSub d" and "delAttempts d' = n"
    and "delStatus d' = (if n \<ge> subMaxAttempts s then Dead else Failed)"
proof -
  let ?now = "delNextAttemptAt d" and ?who = "coClaimedBy opts"
  let ?c = "toClaimedDelivery (\<lambda>_. None) ?who e s (claimRow ?who ?now d)"
  have cl: "claimable opts ?now db d" using s e st by (simp add: claimable_def)
  have f: "fenced (tokenOf ?c) (claimRow ?who ?now d)" by (rule fenced_claimRow)
  have m: "cdMaxAttempts ?c = subMaxAttempts s" "snd (snd (tokenOf ?c)) = n"
    by (simp_all add: toClaimedDelivery_def tokenOf_def n_def claimRow_def)
  let ?db = "failRounds opts random 1 db"
  have "?db = fst (failDelivery (tokenOf ?c) (cdMaxAttempts ?c) ''Error: boom'' random 0 ?now
      (db\<lparr>deliveries := [claimRow ?who ?now d]\<rparr>))"
    by (simp add: one claim_single [OF one cl e(1) s(1)] Let_def)
  then have eq: "deliveries ?db = [failRow (n \<ge> subMaxAttempts s) (errorMessage ''Error: boom'')
        (?now + (if n \<ge> subMaxAttempts s then 0 else max (computeBackoffMs n random) 0))
        (claimRow ?who ?now d)]"
    and "events ?db = events db" "subscriptions ?db = subscriptions db"
    using f by (simp_all add: deliveries_fail m table_simps, simp_all add: failDelivery_def Let_def)
  then show thesis
    by (intro that [OF refl eq]) (simp_all add: failRow_def claimRow_def n_def)
qed

lemma failRounds_Suc: "failRounds opts random (Suc k) db = failRounds opts random 1 (failRounds opts random k db)"
  by simp

lemma failRounds_states:
  fixes db :: eventsDb
  assumes one: "deliveries db = [d]" and s: "subscriptionOf db d = Some s" "subActive s"
    and e: "eventOf db d = Some e" "topicFilter opts e" "handlerFilter opts e s"
    and st: "delStatus d = Pending" "delAttempts d = 0" and pos: "0 < subMaxAttempts s"
  shows "\<exists>d'. deliveries (failRounds opts random k db) = [d'] \<and>
    delAttempts d' = min k (subMaxAttempts s) \<and> delStatus d' = roundState k (subMaxAttempts s) \<and>
    subscriptionOf (failRounds opts random k db) d' = Some s \<and> eventOf (failRounds opts random k db) d' = Some e"
proof (induction k)
  case 0
  show ?case using assms by (auto simp: roundState_def)
next
  case (Suc k)
  let ?db = "failRounds opts random k db" and ?m = "subMaxAttempts s"
  from Suc obtain d1 where d1: "deliveries ?db = [d1]" "delAttempts d1 = min k ?m"
    "delStatus d1 = roundState k ?m" "subscriptionOf ?db d1 = Some s" "eventOf ?db d1 = Some e"
    by blast
  show ?case
  proof (cases "k < ?m")
    case True
    then have "delStatus d1 = Pending \<or> delStatus d1 = Failed" using d1(3) by (simp add: roundState_def)
    from fail_round [OF d1(1,4) s(2) d1(5) e(2,3) this, of random]
    obtain d' db' where "failRounds opts random 1 ?db = db'" "deliveries db' = [d']"
      "events db' = events ?db" "subscriptions db' = subscriptions ?db"
      "delEvent d' = delEvent d1" "delSub d' = delSub d1" "delAttempts d' = delAttempts d1 + 1"
      "delStatus d' = (if delAttempts d1 + 1 \<ge> ?m then Dead else Failed)" .
    with True d1(2,4,5) show ?thesis
      unfolding failRounds_Suc by (auto simp: roundState_def eventOf_def subscriptionOf_def)
  next
    case False
    then have "delStatus d1 = Dead" using d1(3) pos by (simp add: roundState_def)
    then have "\<not> claimable opts (delNextAttemptAt d1) ?db d1" by (auto simp: claimable_def split: option.splits)
    from claim_single_none [OF d1(1) this] d1(1) have "failRounds opts random 1 ?db = ?db" by (simp add: Let_def)
    with d1 False pos show ?thesis unfolding failRounds_Suc by (auto simp: roundState_def)
  qed
qed

text \<open>
  C23. A delivery whose handler fails every time is tried exactly as often as its subscription's budget:
  after each failure but the last it is failed and due again, after the last it is dead, and from then
  on no claim takes it.
\<close>

theorem dead_letter_after_the_budget:
  fixes db :: eventsDb
  assumes "deliveries db = [d]" and "subscriptionOf db d = Some s" and "subActive s"
    and "eventOf db d = Some e" and "topicFilter opts e" and "handlerFilter opts e s"
    and "delStatus d = Pending" and "delAttempts d = 0" and "0 < subMaxAttempts s"
  shows "map (\<lambda>d. (delAttempts d, delStatus d)) (deliveries (failRounds opts random k db)) =
    [(min k (subMaxAttempts s),
      if k = 0 then Pending else if k < subMaxAttempts s then Failed else Dead)]"
  using failRounds_states [OF assms, of random k] by (auto simp: roundState_def)

theorem dead_letter_after_the_budget_witness:
  "map (\<lambda>d. (delAttempts d, delStatus d)) (deliveries (failRounds exampleOpts 0 2 exampleDb)) = [(2, Failed)] \<and>
   map (\<lambda>d. (delAttempts d, delStatus d)) (deliveries (failRounds exampleOpts 0 5 exampleDb)) = [(3, Dead)]"
proof -
  have "deliveries exampleDb = [exampleDelivery]" by (simp add: exampleDb_def)
  moreover have "subscriptionOf exampleDb exampleDelivery = Some exampleSub"
    "eventOf exampleDb exampleDelivery = Some exampleEvent"
    by (simp_all add: example_defs subscriptionOf_def eventOf_def)
  moreover have "subActive exampleSub" "topicFilter exampleOpts exampleEvent"
    "handlerFilter exampleOpts exampleEvent exampleSub" "delStatus exampleDelivery = Pending"
    "delAttempts exampleDelivery = 0" "0 < subMaxAttempts exampleSub" "subMaxAttempts exampleSub = 3"
    by (simp_all add: example_defs topicFilter_def handlerFilter_def)
  ultimately show ?thesis
    using dead_letter_after_the_budget [of exampleDb exampleDelivery exampleSub exampleEvent exampleOpts 0] by simp
qed

section \<open>Processing\<close>

text \<open>The status each outcome of \<open>processDelivery\<close> stands for.\<close>

fun outcomeStatus :: "processOutcome \<Rightarrow> deliveryStatus" where
  "outcomeStatus ODone = Done"
| "outcomeStatus OSkipped = Done"
| "outcomeStatus (OReleased _) = Pending"
| "outcomeStatus (OFailed _) = Failed"
| "outcomeStatus ODead = Dead"

definition settledAs :: "claimToken \<Rightarrow> deliveryStatus \<Rightarrow> eventsDb \<Rightarrow> eventsDb \<Rightarrow> bool" where
  "settledAs tk st db db' \<longleftrightarrow>
     (\<exists>f. (\<forall>d. delStatus (f d) = st \<and> delId (f d) = delId d) \<and>
          deliveries db' = updateWhere (fenced tk) f (deliveries db))"

lemma settledI:
  "deliveries db' = updateWhere (fenced tk) f (deliveries db) \<Longrightarrow>
     (\<And>d. delStatus (f d) = st \<and> delId (f d) = delId d) \<Longrightarrow> settledAs tk st db db'"
  by (auto simp: settledAs_def)

lemma settled_same:
  "settledAs tk st db db' \<Longrightarrow> deliveries db = deliveries db0 \<Longrightarrow> deliveries db' = deliveries db1 \<Longrightarrow> settledAs tk st db0 db1"
  by (simp add: settledAs_def)

lemma settled_unfenced:
  assumes "settledAs tk st db db'" and "st \<noteq> Running" and "d \<in> set (deliveries db')"
  shows "\<not> fenced tk d"
proof -
  from assms(1) obtain f where f: "\<And>d. delStatus (f d) = st" and eq: "deliveries db' = updateWhere (fenced tk) f (deliveries db)"
    by (auto simp: settledAs_def)
  from assms(3) show ?thesis
    unfolding eq
  proof (cases rule: in_updateWhereE)
    case (1 r)
    with f assms(2) show ?thesis by (simp add: fenced_def split: prod.splits)
  qed
qed

lemma settled_again:
  assumes "settledAs tk st db db'" and "\<And>d. d \<in> set (deliveries db) \<Longrightarrow> \<not> fenced tk d"
  shows "deliveries db' = deliveries db"
  using assms by (auto simp: settledAs_def updateWhere_none)

text \<open>
  A fault whose write has landed when its error is caught; an attempt whose outcome is the one its status
  write was given (no such fault, and the failure write, if it came to one, was answered); and an attempt
  whose failure write was not lost.
\<close>

definition landsEarly :: "writeFault option \<Rightarrow> bool" where
  "landsEarly fault \<longleftrightarrow> (case fault of Some (m, l) \<Rightarrow> l = LandsAtOnce | None \<Rightarrow> False)"

definition answered :: "processEnv \<Rightarrow> bool" where
  "answered env \<longleftrightarrow> peFailErr env = None \<and> \<not> landsEarly (peCompleteErr env) \<and> \<not> landsEarly (peReleaseErr env)"

definition failureKept :: "processEnv \<Rightarrow> bool" where
  "failureKept env \<longleftrightarrow> (case peFailErr env of Some (m, l) \<Rightarrow> l \<noteq> Lost | None \<Rightarrow> True)"

definition settles :: "processEnv \<Rightarrow> claimedDelivery \<Rightarrow> processOutcome \<Rightarrow> eventsDb \<Rightarrow> eventsDb \<Rightarrow> bool" where
  "settles env c out db db' \<longleftrightarrow>
     (\<exists>st. settledAs (tokenOf c) st db db' \<and> st \<noteq> Running \<and> (answered env \<longrightarrow> st = outcomeStatus out))"

lemma settlesI:
  "settledAs (tokenOf c) st db db' \<Longrightarrow> st \<noteq> Running \<Longrightarrow> (answered env \<Longrightarrow> st = outcomeStatus out) \<Longrightarrow>
     settles env c out db db'"
  by (auto simp: settles_def)

lemma settles_same:
  "settles env c out db db' \<Longrightarrow> deliveries db = deliveries db0 \<Longrightarrow> deliveries db' = deliveries db1 \<Longrightarrow>
     settles env c out db0 db1"
  by (simp add: settles_def settledAs_def)

lemma settles_unfenced: "settles env c out db db' \<Longrightarrow> d \<in> set (deliveries db') \<Longrightarrow> \<not> fenced (tokenOf c) d"
  unfolding settles_def using settled_unfenced by blast

lemma outcomeStatus_not_running [simp]: "outcomeStatus out \<noteq> Running"
  by (cases out) simp_all

lemma failAttempt_settles:
  assumes "failAttempt env c msg t db = (db', out)" and "failureKept env"
  shows "settles env c out db db'"
proof -
  let ?m = "if t then handlerTimeoutOf env else 0"
  let ?r = "failDelivery (tokenOf c) (cdMaxAttempts c) msg (peRandom env) ?m (peNow env) db"
  let ?st = "if snd (snd (tokenOf c)) \<ge> cdMaxAttempts c then Dead else Failed"
  have db': "db' = fst ?r" and out: "answered env \<Longrightarrow> ?st = outcomeStatus out"
    using assms
    by (auto simp: failAttempt_def dbWrite_def applied_def failureKept_def answered_def Let_def failDelivery_def
        split: failOutcome.splits prod.splits if_splits option.splits landing.splits)
  have "settledAs (tokenOf c) ?st db db'"
    unfolding db' by (rule settledI, rule deliveries_fail) (simp add: failRow_def)
  then show ?thesis by (rule settlesI) (simp, rule out)
qed

text \<open>The ways a write goes.\<close>

lemma dbWrite_cases:
  assumes "dbWrite fault write caught rest db = (db', out)"
  obtains (answer) a db1 where "fault = None" "write db = Inr (db1, a)" "rest a db1 = (db', out)"
    | (nothing) m where "caught m db = (db', out)"
    | (early) m where "landsEarly fault" "caught m (applied write db) = (db', out)"
    | (late) m db1 where "caught m db = (db1, out)" "db' = applied write db1"
proof (cases fault)
  case None
  with assms that(1,2) show ?thesis by (auto simp: dbWrite_def split: sum.splits)
next
  case (Some f)
  obtain m l where f: "f = (m, l)" by (cases f)
  from assms that(2-4) show ?thesis
    by (cases l) (auto simp: dbWrite_def Some f landsEarly_def Let_def split: prod.splits)
qed

text \<open>
  A write under the token whose error fails the attempt: landed early, it takes the row and the failure
  write moves nothing; landed late, the failure write was first and it moves nothing itself.
\<close>

lemma caught_settles:
  assumes run: "dbWrite fault write (\<lambda>m. failAttempt env c m False) rest db = (db', out)" and kept: "failureKept env"
    and effect: "\<And>x. deliveries (applied write x) = deliveries x \<or> settledAs (tokenOf c) st x (applied write x)"
    and st: "st \<noteq> Running"
    and quiet: "\<And>x. landsEarly fault \<Longrightarrow> answered env \<Longrightarrow> deliveries (applied write x) = deliveries x"
    and rest: "\<And>a x. write db = Inr (x, a) \<Longrightarrow> rest a x = (db', out) \<Longrightarrow> settles env c out db db'"
  shows "settles env c out db db'"
  using run
proof (cases rule: dbWrite_cases)
  case (answer a db1)
  then show ?thesis by (intro rest)
next
  case (nothing m)
  then show ?thesis by (rule failAttempt_settles) (rule kept)
next
  case (early m)
  then have after: "settles env c out (applied write db) db'" by (intro failAttempt_settles [OF _ kept])
  show ?thesis
  proof (cases "deliveries (applied write db) = deliveries db")
    case True
    with after show ?thesis by (rule settles_same) simp
  next
    case False
    with effect [of db] have taken: "settledAs (tokenOf c) st db (applied write db)" by simp
    from after obtain st' where "settledAs (tokenOf c) st' (applied write db) db'" by (auto simp: settles_def)
    from settled_again [OF this settled_unfenced [OF taken st]]
    have "deliveries db' = deliveries (applied write db)" .
    with taken have "settledAs (tokenOf c) st db db'" by (intro settled_same [OF taken]) simp_all
    with st False quiet [OF early(1)] show ?thesis by (intro settlesI) auto
  qed
next
  case (late m db1)
  then have before: "settles env c out db db1" by (intro failAttempt_settles [OF _ kept])
  have "deliveries db' = deliveries db1"
    unfolding late(2) using effect [of db1] settled_again settles_unfenced [OF before] by blast
  with before show ?thesis by (intro settles_same [OF before]) simp_all
qed

lemma completeAs_settles:
  assumes "completeAs env c key out0 db = (db', out)" and "failureKept env" and "outcomeStatus out0 = Done"
  shows "settles env c out db db'"
proof (rule caught_settles [OF assms(1) [unfolded completeAs_def] assms(2), where st = Done])
  let ?commit = "completeDelivery (tokenOf c) (cdSub c) (evId (cdEvent c)) key (peNow env)"
  have finished: "settledAs (tokenOf c) Done x x'" if "?commit x = Inr (x', b)" for x x' b
    by (rule settledI [OF deliveries_complete [OF that]]) (simp add: completeRow_def)
  show "deliveries (applied ?commit x) = deliveries x \<or> settledAs (tokenOf c) Done x (applied ?commit x)" for x
    using finished [of x] by (auto simp: applied_def split: sum.splits)
  show "settles env c out db db'" if "?commit db = Inr (x, a)" "(x, out0) = (db', out)" for a x
    using finished [OF that(1)] that(2) assms(3) by (intro settlesI) auto
qed (simp_all add: answered_def)

lemma releaseAs_settles:
  assumes "releaseAs env c reason delay db = (db', out)" and "failureKept env"
  shows "settles env c out db db'"
proof (rule caught_settles [OF assms(1) [unfolded releaseAs_def] assms(2), where st = Pending])
  let ?commit = "\<lambda>x. Inr (releaseClaims [tokenOf c] delay (peNow env) x) :: appError + eventsDb \<times> nat"
  have pending: "settledAs (tokenOf c) Pending x (fst (releaseClaims [tokenOf c] delay (peNow env) x))" for x
    using deliveries_release [of "[tokenOf c]" delay "peNow env" x]
    by (auto intro!: settledI [of _ _ "releaseRow (peNow env + max 0 delay)"] simp: releaseRow_def)
  then show "deliveries (applied ?commit x) = deliveries x \<or> settledAs (tokenOf c) Pending x (applied ?commit x)" for x
    by (simp add: applied_def split: prod.splits) (metis fst_conv)
  show "settles env c out db db'" if "?commit db = Inr (x, a)" "(x, OReleased reason) = (db', out)" for a x
    using pending [of db] that by (intro settlesI [of _ Pending]) auto
qed (simp_all add: answered_def)

lemma runAndFinish_settles:
  assumes "runAndFinish env c label result key db = (db', out)" and "failureKept env"
  shows "settles env c out (peMeanwhile env db) db'"
  using assms
  by (auto simp: runAndFinish_def Let_def split: attemptResult.splits
      intro: failAttempt_settles completeAs_settles)

lemma insertReservation_deliveries:
  "insertReservation c key db = Inr (db', ok) \<Longrightarrow> deliveries db' = deliveries db"
  by (auto simp: insertReservation_def split: if_splits)

lemma reserve_deliveries:
  "reserveIdempotencyKey c key db = Inr (db', r) \<Longrightarrow> deliveries db' = deliveries db"
  by (auto simp: reserveIdempotencyKey_def ebind_Inr_iff Let_def
      dest!: insertReservation_deliveries split: if_splits option.splits)

text \<open>The state the status write met: with this database's deliveries, or what the handler's run made of them.\<close>

definition met :: "processEnv \<Rightarrow> eventsDb \<Rightarrow> eventsDb \<Rightarrow> bool" where
  "met env db x \<longleftrightarrow> deliveries x = deliveries db \<or> (\<exists>y. deliveries y = deliveries db \<and> x = peMeanwhile env y)"

lemma met_here: "settles env c out db db' \<Longrightarrow> \<exists>x. met env db x \<and> settles env c out x db'"
  by (auto simp: met_def)

lemma met_after: "settles env c out (peMeanwhile env db) db' \<Longrightarrow> \<exists>x. met env db x \<and> settles env c out x db'"
  by (auto simp: met_def)

lemma met_same: "\<exists>x. met env db1 x \<and> settles env c out x db' \<Longrightarrow> deliveries db1 = deliveries db \<Longrightarrow>
    \<exists>x. met env db x \<and> settles env c out x db'"
  by (simp add: met_def)

lemma reserveAndRun_settles:
  assumes run: "reserveAndRun env c label result key db = (db', out)" and kept: "failureKept env"
  shows "\<exists>x. met env db x \<and> settles env c out x db'"
  using run unfolding reserveAndRun_def
proof (cases rule: dbWrite_cases)
  case (answer res db1)
  have "\<exists>x. met env db1 x \<and> settles env c out x db'"
    using answer(3) kept
    by (cases res) (auto intro: met_here met_after releaseAs_settles runAndFinish_settles completeAs_settles [OF _ _ outcomeStatus.simps(2)])
  then show ?thesis by (rule met_same) (rule reserve_deliveries [OF answer(2)])
next
  case (nothing m)
  then show ?thesis by (intro met_here failAttempt_settles kept)
next
  case (early m)
  have "deliveries (applied (reserveIdempotencyKey c key) db) = deliveries db"
    by (auto simp: applied_def dest: reserve_deliveries split: sum.splits)
  with met_here [OF failAttempt_settles [OF early(2) kept]] show ?thesis by (rule met_same)
next
  case (late m db1)
  have "deliveries db' = deliveries db1"
    unfolding late(2) by (auto simp: applied_def dest: reserve_deliveries split: sum.splits)
  with failAttempt_settles [OF late(1) kept] have "settles env c out db db'"
    by (intro settles_same [OF failAttempt_settles [OF late(1) kept]]) simp_all
  then show ?thesis by (rule met_here)
qed

lemma processDelivery_settles:
  assumes "processDelivery reg env c db = (db', out)" and "failureKept env"
  shows "\<exists>x. met env db x \<and> settles env c out x db'"
  using assms
  by (auto simp: processDelivery_def Let_def
      intro: met_here met_after failAttempt_settles releaseAs_settles runAndFinish_settles reserveAndRun_settles
      split: subscriptionKind.splits option.splits sum.splits)

text \<open>The row of a claim is still this claim's.\<close>

definition stillClaimed :: "claimedDelivery \<Rightarrow> eventsDb \<Rightarrow> bool" where
  "stillClaimed c db \<longleftrightarrow> (\<forall>d\<in>set (deliveries db). delId d = cdId c \<longrightarrow> fenced (tokenOf c) d)"

text \<open>
  C21. Processing a delivery settles its row. If the claim holds the row when the attempt starts, whatever
  happens during the run leaves it this claim's, and the write that records a failure, if one is needed,
  is not lost, then the row is not running afterwards: whichever way the run ended, and whichever other
  write was lost, landed before its error was caught, or landed later. It has the status that the reported
  outcome stands for, unless the failure write was not answered or a completion or release landed although
  it threw. And if nobody else touched the deliveries during the run, no other row has changed and none
  was added or removed.
\<close>

theorem processed_delivery_is_settled:
  assumes "processDelivery reg env c db = (db', out)" and "failureKept env"
    and "stillClaimed c db" and "\<And>x. stillClaimed c x \<Longrightarrow> stillClaimed c (peMeanwhile env x)"
  shows "(\<forall>r\<in>set (deliveries db'). delId r = cdId c \<longrightarrow> delStatus r \<noteq> Running \<and>
       (answered env \<longrightarrow> delStatus r = outcomeStatus out)) \<and>
    ((\<forall>x. deliveries (peMeanwhile env x) = deliveries x) \<longrightarrow>
       map delId (deliveries db') = map delId (deliveries db) \<and>
       (\<forall>r\<in>set (deliveries db). delId r \<noteq> cdId c \<longrightarrow> r \<in> set (deliveries db')))"
proof -
  from processDelivery_settles [OF assms(1,2)] obtain x where x: "met env db x" "settles env c out x db'" by blast
  from x(2) obtain f st where f: "\<And>d. delStatus (f d) = st" "\<And>d. delId (f d) = delId d" "st \<noteq> Running"
    "answered env \<Longrightarrow> st = outcomeStatus out" and eq: "deliveries db' = updateWhere (fenced (tokenOf c)) f (deliveries x)"
    by (auto simp: settles_def settledAs_def)
  have same: "stillClaimed c y \<longleftrightarrow> stillClaimed c db" if "deliveries y = deliveries db" for y
    using that by (simp add: stillClaimed_def)
  from x(1) have held: "stillClaimed c x"
    unfolding met_def
  proof (elim disjE exE conjE)
    assume "deliveries x = deliveries db"
    from same [OF this] assms(3) show ?thesis by simp
  next
    fix y assume "deliveries y = deliveries db" and x: "x = peMeanwhile env y"
    from same [OF this(1)] assms(3) have "stillClaimed c y" by simp
    then show ?thesis unfolding x by (rule assms(4))
  qed
  have "delStatus r \<noteq> Running \<and> (answered env \<longrightarrow> delStatus r = outcomeStatus out)"
    if "r \<in> set (deliveries db')" "delId r = cdId c" for r
    using that(1) unfolding eq
  proof (cases rule: in_updateWhereE)
    case (1 d)
    then show ?thesis using f by simp
  next
    case 2
    with held that(2) show ?thesis by (simp add: stillClaimed_def)
  qed
  moreover have "map delId (deliveries db') = map delId (deliveries db) \<and>
      (\<forall>r\<in>set (deliveries db). delId r \<noteq> cdId c \<longrightarrow> r \<in> set (deliveries db'))"
    if "\<forall>x. deliveries (peMeanwhile env x) = deliveries x"
  proof -
    from x(1) that have xdb: "deliveries x = deliveries db" by (auto simp: met_def)
    have "map delId (deliveries db') = map delId (deliveries db)"
      unfolding eq xdb by (rule map_updateWhere) (rule f(2))
    moreover have "r \<in> set (deliveries db')" if "r \<in> set (deliveries db)" "delId r \<noteq> cdId c" for r
      unfolding eq xdb using that by (auto simp: set_updateWhere fenced_def tokenOf_def)
    ultimately show ?thesis by blast
  qed
  ultimately show ?thesis by blast
qed

definition examplePlatform :: platform where
  "examplePlatform = \<lparr>pfParseUrl = (\<lambda>_. None), pfHmacHex = (\<lambda>k m. replicate 64 (CHR ''a'')),
     pfStringify = (\<lambda>_. ''{}''), pfIsoString = (\<lambda>_. ''1970-01-01T00:00:00.000Z''), pfEnv = (\<lambda>_. Some ''secret'')\<rparr>"

definition exampleEnv :: processEnv where
  "exampleEnv = \<lparr>pePlatform = examplePlatform, peFetch = (\<lambda>_. Response 200 None), peHandlerTimeoutMs = None,
     peRandom = 0, peNow = 20, peMeanwhile = (\<lambda>db. db), peReserveErr = None, peCompleteErr = None,
     peReleaseErr = None, peFailErr = None\<rparr>"

theorem processed_delivery_is_settled_witness:
  "snd (processDelivery [exampleHandler] exampleEnv exampleClaim exampleRunning) = ODone \<and>
   map delStatus (deliveries (fst (processDelivery [exampleHandler] exampleEnv exampleClaim exampleRunning))) = [Done]"
proof -
  let ?r = "processDelivery [exampleHandler] exampleEnv exampleClaim exampleRunning"
  have out: "snd ?r = ODone" by code_simp
  have run: "processDelivery [exampleHandler] exampleEnv exampleClaim exampleRunning = (fst ?r, snd ?r)" by simp
  have kept: "failureKept exampleEnv" and ans: "answered exampleEnv"
    by (simp_all add: failureKept_def answered_def landsEarly_def exampleEnv_def)
  have held: "stillClaimed exampleClaim exampleRunning" by code_simp
  have mean: "peMeanwhile exampleEnv x = x" for x by (simp add: exampleEnv_def)
  then have "stillClaimed exampleClaim x \<Longrightarrow> stillClaimed exampleClaim (peMeanwhile exampleEnv x)" for x by simp
  from processed_delivery_is_settled [OF run kept held this] ans mean
  have settled: "map delId (deliveries (fst ?r)) = map delId (deliveries exampleRunning)"
    "\<forall>r\<in>set (deliveries (fst ?r)). delId r = cdId exampleClaim \<longrightarrow> delStatus r = outcomeStatus (snd ?r)" by simp_all
  have "map delId (deliveries exampleRunning) = [cdId exampleClaim]" by code_simp
  with settled out show ?thesis by auto
qed

text \<open>
  Why the conditions are there. The handler ran and its completion is written, but the answer came too
  late: the attempt is reported as failed, the row is done. And with both status writes lost the row
  stays running, until the reaper takes it.
\<close>

lemma late_answer_misreports:
  "let env = exampleEnv\<lparr>peCompleteErr := Some (''DB operation timed out'', LandsAtOnce)\<rparr>;
       r = processDelivery [exampleHandler] env exampleClaim exampleRunning
   in snd r = OFailed 500 \<and> map delStatus (deliveries (fst r)) = [Done]"
  by code_simp

lemma lost_writes_leave_the_row_running:
  "let env = exampleEnv\<lparr>peCompleteErr := Some (''gone'', Lost), peFailErr := Some (''gone'', Lost)\<rparr>;
       r = processDelivery [exampleHandler] env exampleClaim exampleRunning
   in snd r = OFailed 0 \<and> map delStatus (deliveries (fst r)) = [Running]"
  by code_simp

section \<open>Processing as steps of the system\<close>

text \<open>The states a process can take the system to without its own help: its claims only grow.\<close>

definition runsTo :: "claimedDelivery set \<Rightarrow> eventsDb \<Rightarrow> eventsDb \<Rightarrow> bool" where
  "runsTo cs db db' \<longleftrightarrow>
     (\<exists>cs'. cs \<subseteq> cs' \<and> sysStep\<^sup>*\<^sup>* \<lparr>sysDb = db, sysClaims = cs\<rparr> \<lparr>sysDb = db', sysClaims = cs'\<rparr>)"

text \<open>A run of the system that hands out no claim.\<close>

definition stepsTo :: "claimedDelivery set \<Rightarrow> eventsDb \<Rightarrow> eventsDb \<Rightarrow> bool" where
  "stepsTo cs db db' \<longleftrightarrow> sysStep\<^sup>*\<^sup>* \<lparr>sysDb = db, sysClaims = cs\<rparr> \<lparr>sysDb = db', sysClaims = cs\<rparr>"

lemma stepsTo_refl [simp]: "stepsTo cs db db"
  by (simp add: stepsTo_def)

lemma stepsTo_step: "sysStep \<lparr>sysDb = db, sysClaims = cs\<rparr> \<lparr>sysDb = db', sysClaims = cs\<rparr> \<Longrightarrow> stepsTo cs db db'"
  by (simp add: stepsTo_def r_into_rtranclp)

lemma stepsTo_trans: "stepsTo cs a b \<Longrightarrow> stepsTo cs b d \<Longrightarrow> stepsTo cs a d"
  unfolding stepsTo_def by (rule rtranclp_trans)

lemma stepsTo_runsTo: "stepsTo cs a b \<Longrightarrow> runsTo cs a b"
  by (auto simp: stepsTo_def runsTo_def)

lemma stepsTo_runsTo_trans: "stepsTo cs a b \<Longrightarrow> runsTo cs b d \<Longrightarrow> runsTo cs a d"
  unfolding stepsTo_def runsTo_def by (meson rtranclp_trans)

text \<open>A write is one step wherever it lands; \<open>R\<close> is what is shown of the whole.\<close>

lemma dbWrite_steps:
  assumes run: "dbWrite fault write caught rest db = (db', out)"
    and effect: "\<And>x x' a. write x = Inr (x', a) \<Longrightarrow> stepsTo cs x x'"
    and caught: "\<And>m x x'. caught m x = (x', out) \<Longrightarrow> stepsTo cs x x'"
    and rest: "\<And>a x. rest a x = (db', out) \<Longrightarrow> R x db'"
    and R: "\<And>x y. stepsTo cs x y \<Longrightarrow> R x y" "\<And>x y z. stepsTo cs x y \<Longrightarrow> R y z \<Longrightarrow> R x z"
  shows "R db db'"
proof -
  have landed: "stepsTo cs x (applied write x)" for x
    using effect by (auto simp: applied_def split: sum.splits)
  from run show ?thesis
  proof (cases rule: dbWrite_cases)
    case (answer a db1)
    then show ?thesis using effect rest R(2) by blast
  next
    case (nothing m)
    then show ?thesis using caught R(1) by blast
  next
    case (early m)
    then show ?thesis using landed caught R by blast
  next
    case (late m db1)
    then show ?thesis using landed caught R by blast
  qed
qed

lemma failAttempt_steps:
  assumes c: "c \<in> cs" and run: "failAttempt env c msg t db = (db', out)"
  shows "stepsTo cs db db'"
  using run unfolding failAttempt_def Let_def
proof (rule dbWrite_steps)
  fix x x' a
  assume "Inr (failDelivery (tokenOf c) (cdMaxAttempts c) msg (peRandom env) (if t then handlerTimeoutOf env else 0) (peNow env) x)
      = (Inr (x', a) :: appError + eventsDb \<times> failOutcome)"
  with c stepFail [of c "\<lparr>sysDb = x, sysClaims = cs\<rparr>" msg "peRandom env" "if t then handlerTimeoutOf env else 0" "peNow env"]
  show "stepsTo cs x x'" by (intro stepsTo_step) auto
qed (auto intro: stepsTo_trans)

lemma completeAs_steps:
  assumes c: "c \<in> cs" and run: "completeAs env c key out0 db = (db', out)"
  shows "stepsTo cs db db'"
  using run unfolding completeAs_def
proof (rule dbWrite_steps)
  fix x x' b assume "completeDelivery (tokenOf c) (cdSub c) (evId (cdEvent c)) key (peNow env) x = Inr (x', b)"
  with c stepComplete [of c "\<lparr>sysDb = x, sysClaims = cs\<rparr>" key "peNow env" x' b]
  show "stepsTo cs x x'" by (intro stepsTo_step) simp
qed (use c in \<open>auto intro: failAttempt_steps stepsTo_trans\<close>)

lemma releaseAs_steps:
  assumes c: "c \<in> cs" and run: "releaseAs env c reason delay db = (db', out)"
  shows "stepsTo cs db db'"
  using run unfolding releaseAs_def
proof (rule dbWrite_steps)
  fix x x' n assume "Inr (releaseClaims [tokenOf c] delay (peNow env) x) = (Inr (x', n) :: appError + eventsDb \<times> nat)"
  with c stepRelease [of "[c]" "\<lparr>sysDb = x, sysClaims = cs\<rparr>" delay "peNow env"]
  show "stepsTo cs x x'" by (intro stepsTo_step) auto
qed (use c in \<open>auto intro: failAttempt_steps stepsTo_trans\<close>)

lemmas attempt_steps = failAttempt_steps completeAs_steps releaseAs_steps

lemma runAndFinish_steps:
  assumes c: "c \<in> cs" and run: "runAndFinish env c label result key db = (db', out)"
    and mean: "runsTo cs db (peMeanwhile env db)"
  shows "runsTo cs db db'"
proof -
  from mean obtain cs' where cs': "cs \<subseteq> cs'"
    "sysStep\<^sup>*\<^sup>* \<lparr>sysDb = db, sysClaims = cs\<rparr> \<lparr>sysDb = peMeanwhile env db, sysClaims = cs'\<rparr>"
    by (auto simp: runsTo_def)
  have "stepsTo cs' (peMeanwhile env db) db'"
    using run c cs'(1)
    by (auto simp: runAndFinish_def Let_def split: attemptResult.splits intro: attempt_steps)
  with cs' show ?thesis unfolding runsTo_def stepsTo_def by (meson rtranclp_trans)
qed

lemma reserveAndRun_steps:
  assumes c: "c \<in> cs" and run: "reserveAndRun env c label result key db = (db', out)"
    and mean: "\<And>x. runsTo cs x (peMeanwhile env x)"
  shows "runsTo cs db db'"
  using run unfolding reserveAndRun_def
proof (rule dbWrite_steps)
  fix x x' res assume "reserveIdempotencyKey c key x = Inr (x', res)"
  with c stepReserve [of c "\<lparr>sysDb = x, sysClaims = cs\<rparr>" key x' res]
  show "stepsTo cs x x'" by (intro stepsTo_step) simp
next
  fix res x
  assume "(case res of Reserved \<Rightarrow> runAndFinish env c label result (Some key)
      | Seen firstEventId \<Rightarrow> completeAs env c None OSkipped
      | InFlight owner \<Rightarrow> releaseAs env c IdempotencyKeyInFlight KEY_IN_FLIGHT_RETRY_MS) x = (db', out)"
  with c mean show "runsTo cs x db'"
    by (cases res) (auto intro: stepsTo_runsTo attempt_steps runAndFinish_steps)
qed (use c in \<open>auto intro: failAttempt_steps stepsTo_runsTo stepsTo_runsTo_trans\<close>)

lemma processDelivery_steps:
  assumes "c \<in> cs" and "processDelivery reg env c db = (db', out)"
    and "\<And>x. runsTo cs x (peMeanwhile env x)"
  shows "runsTo cs db db'"
  using assms
  by (auto simp: processDelivery_def Let_def
      intro: stepsTo_runsTo attempt_steps runAndFinish_steps reserveAndRun_steps
      split: subscriptionKind.splits option.splits sum.splits)

text \<open>
  C2. Refinement. Processing a claimed delivery is a run of the system's own transactions: whatever the
  handler and every other process do meanwhile (as long as they too only take the system's steps),
  whichever writes throw, from a reachable state it ends in a reachable state, whose tables are
  consistent and whose running deliveries each belong to a claim.
\<close>

theorem processing_refines_the_system:
  assumes "reachable sysInit sysStep s" and "c \<in> sysClaims s"
    and "\<And>x. runsTo (sysClaims s) x (peMeanwhile env x)"
    and "processDelivery reg env c (sysDb s) = (db', out)"
  shows "\<exists>cs'. sysClaims s \<subseteq> cs' \<and> reachable sysInit sysStep \<lparr>sysDb = db', sysClaims = cs'\<rparr> \<and>
    wfDb db' \<and> owned db' cs'"
proof -
  have s: "\<lparr>sysDb = sysDb s, sysClaims = sysClaims s\<rparr> = s" by simp
  from processDelivery_steps [OF assms(2,4,3)] obtain cs' where cs': "sysClaims s \<subseteq> cs'"
    "sysStep\<^sup>*\<^sup>* s \<lparr>sysDb = db', sysClaims = cs'\<rparr>" by (auto simp: runsTo_def s)
  from eventMachine.reachable_run [OF cs'(2) assms(1)]
  have r: "reachable sysInit sysStep \<lparr>sysDb = db', sysClaims = cs'\<rparr>" .
  from eventMachine.inv_reachable [OF r] cs'(1) r show ?thesis by (auto simp: sysInv_def)
qed

text \<open>The example queue is reachable: sync the registry, publish, claim.\<close>

definition exampleInput :: publishEventInput where
  "exampleInput = \<lparr>inTopic = ''invoice.paid'', inKey = None, inPayload = None, inSource = None,
     inOrg = Some ''o1'', inId = None\<rparr>"

definition exampleSystem :: system where
  "exampleSystem = \<lparr>sysDb = exampleRunning, sysClaims = {exampleClaim}\<rparr>"

lemma exampleSystem_reachable: "reachable sysInit sysStep exampleSystem"
proof -
  let ?s0 = "\<lparr>sysDb = emptyDb, sysClaims = {}\<rparr>"
  have 0: "reachable sysInit sysStep ?s0" by (rule reach_init) (simp add: sysInit_def)
  let ?f = "\<lambda>t n. ''s1''"
  have "registryOk [exampleHandler]" by code_simp
  moreover have "freshSubscriptionIds ?f [exampleHandler] emptyDb"
    by (simp add: freshSubscriptionIds_def emptyDb_def)
  ultimately have 1: "reachable sysInit sysStep (?s0\<lparr>sysDb := fst (syncSubscriptionsFromRegistry ?f 0 None [exampleHandler] emptyDb)\<rparr>)"
    using stepSync [of "[exampleHandler]" ?f ?s0 0 None] by (intro reach_step [OF 0]) simp
  let ?s1 = "\<lparr>sysDb = emptyDb\<lparr>subscriptions := [exampleSub]\<rparr>, sysClaims = {}\<rparr>"
  have "fst (syncSubscriptionsFromRegistry ?f 0 None [exampleHandler] emptyDb) = emptyDb\<lparr>subscriptions := [exampleSub]\<rparr>"
    by code_simp
  with 1 have 1: "reachable sysInit sysStep ?s1" by simp
  have pub: "publishEvent ''e1'' (\<lambda>_. ''d1'') 5 exampleInput (sysDb ?s1) =
      Inr (exampleDb, \<lparr>prId = ''e1'', prTopic = ''invoice.paid'', prDeliveries = 1, prInserted = True\<rparr>)"
    by code_simp
  have "freshDeliveryIds (cdId ` sysClaims ?s1) (\<lambda>_. ''d1'') (sysDb ?s1)"
    by (simp add: freshDeliveryIds_def emptyDb_def)
  from reach_step [OF 1 stepPublish [OF pub this]]
  have 2: "reachable sysInit sysStep \<lparr>sysDb = exampleDb, sysClaims = {}\<rparr>" by simp
  from reach_step [OF this stepClaim [of "\<lambda>_. None" "{}" 10 exampleOpts 10]] example_claims
  show ?thesis by (simp add: exampleSystem_def)
qed

theorem processing_refines_the_system_witness:
  "\<exists>cs'. exampleClaim \<in> cs' \<and> reachable sysInit sysStep
     \<lparr>sysDb = fst (processDelivery [exampleHandler] exampleEnv exampleClaim exampleRunning), sysClaims = cs'\<rparr>"
proof -
  have mean: "runsTo (sysClaims exampleSystem) x (peMeanwhile exampleEnv x)" for x
    by (simp add: exampleEnv_def stepsTo_runsTo)
  have "processDelivery [exampleHandler] exampleEnv exampleClaim (sysDb exampleSystem) =
      (fst (processDelivery [exampleHandler] exampleEnv exampleClaim exampleRunning),
       snd (processDelivery [exampleHandler] exampleEnv exampleClaim exampleRunning))"
    by (simp add: exampleSystem_def)
  from processing_refines_the_system [OF exampleSystem_reachable _ mean this]
  show ?thesis by (auto simp: exampleSystem_def)
qed

text \<open>
  C1. In every reachable state, whatever the interleaving of pods, reapers and operators: identifiers,
  the fanout pair (event, subscription) and the receipt key are unique, every reference resolves, every
  row has the fields its status needs, and every running delivery is running under the token of a claim
  that was handed out.
\<close>

theorem event_system_invariant:
  assumes "reachable sysInit sysStep s"
  shows "wfDb (sysDb s) \<and>
    (\<forall>d\<in>set (deliveries (sysDb s)). delStatus d = Running \<longrightarrow>
       (\<exists>c\<in>sysClaims s. delId d = cdId c \<and> delClaimedBy d = Some (cdClaimedBy c) \<and>
          delAttempts d = cdAttempts c \<and> delEvent d = evId (cdEvent c) \<and> delSub d = cdSub c))"
proof -
  from eventMachine.inv_reachable [OF assms] have inv: "sysInv s" .
  then have "wfDb (sysDb s)" by (simp add: sysInv_def)
  moreover have "\<exists>c\<in>sysClaims s. delId d = cdId c \<and> delClaimedBy d = Some (cdClaimedBy c) \<and>
          delAttempts d = cdAttempts c \<and> delEvent d = evId (cdEvent c) \<and> delSub d = cdSub c"
    if d: "d \<in> set (deliveries (sysDb s))" "delStatus d = Running" for d
  proof -
    from inv d obtain c where c: "c \<in> sysClaims s" "fenced (tokenOf c) d"
      by (auto simp: sysInv_def owned_def)
    moreover from inv c(1) have "claimAgrees (sysDb s) c" by (simp add: sysInv_def agreed_def)
    ultimately show ?thesis using d(1) by (auto simp: fenced_def tokenOf_def claimAgrees_def)
  qed
  ultimately show ?thesis by blast
qed

theorem event_system_invariant_witness:
  "wfDb (sysDb exampleSystem) \<and> (\<exists>c\<in>sysClaims exampleSystem. cdId c = ''d1'')"
proof -
  let ?d = "claimRow ''pod-1'' 10 exampleDelivery"
  have "?d \<in> set (deliveries (sysDb exampleSystem))" "delStatus ?d = Running" "delId ?d = ''d1''"
    by (simp_all add: exampleSystem_def exampleRunning_def claimRow_def exampleDelivery_def newDelivery_def)
  with event_system_invariant [OF exampleSystem_reachable] show ?thesis by metis
qed

end
