(* ===== verification/EventPublishing.thy ===== *)
theory EventPublishing
  imports EventOutcomes
begin

text \<open>
  What goes into the log and what leaves it: the fanout of one publish and its idempotence, the
  subscriptions after a registry sync, and what the retention sweep may delete.
\<close>

section \<open>Publishing\<close>

text \<open>
  C24. A publish whose id is new stores the event and queues exactly one pending delivery, due at once,
  for each active subscription to its topic that is global or belongs to the event's organization, and
  for no other; the existing rows stay. A publish whose id is taken changes nothing, so publishing again
  under the id of an earlier publish is without effect.
\<close>

theorem publish_fans_out_exactly_once:
  assumes "publishEvent newId did now inp db = Inr (db', r)"
  shows "(prInserted r \<longleftrightarrow> prId r \<notin> evId ` set (events db)) \<and>
    subscriptions db' = subscriptions db \<and> receipts db' = receipts db \<and>
    (\<not> prInserted r \<longrightarrow> db' = db) \<and>
    (prInserted r \<longrightarrow>
       (\<exists>e. events db' = events db @ [e] \<and> evId e = prId r \<and> evTopic e = inTopic inp \<and> evOrg e = inOrg inp) \<and>
       deliveries db' = deliveries db @
         map (\<lambda>s. newDelivery (did (subId s)) (prId r) (subId s) now)
           (filter (\<lambda>s. subTopic s = inTopic inp \<and> subActive s \<and> (subOrg s = None \<or> subOrg s = inOrg inp))
             (subscriptions db))) \<and>
    (\<forall>newId2 did2 now2 inp2 db2 r2. inId inp2 = Some (prId r) \<longrightarrow>
       publishEvent newId2 did2 now2 inp2 db' = Inr (db2, r2) \<longrightarrow> db2 = db' \<and> \<not> prInserted r2)"
proof -
  have m: "subscriptionMatches (inTopic inp) (inOrg inp) =
      (\<lambda>s. subTopic s = inTopic inp \<and> subActive s \<and> (subOrg s = None \<or> subOrg s = inOrg inp))"
    by (cases "inOrg inp") (auto simp: subscriptionMatches_def)
  have taken: "prInserted r \<longleftrightarrow> prId r \<notin> evId ` set (events db)"
    using assms
    by (auto simp: publishEvent_def ebind_Inr_iff Let_def insertOnConflictDoNothing_def
        split: prod.splits if_splits)
  from assms have "subscriptions db' = subscriptions db \<and> receipts db' = receipts db \<and>
    (\<not> prInserted r \<longrightarrow> db' = db) \<and>
    (prInserted r \<longrightarrow>
       (\<exists>e. events db' = events db @ [e] \<and> evId e = prId r \<and> evTopic e = inTopic inp \<and> evOrg e = inOrg inp) \<and>
       deliveries db' = deliveries db @
         map (\<lambda>s. newDelivery (did (subId s)) (prId r) (subId s) now)
           (filter (\<lambda>s. subTopic s = inTopic inp \<and> subActive s \<and> (subOrg s = None \<or> subOrg s = inOrg inp))
             (subscriptions db)))"
    by (cases rule: publish_new_cases) (auto simp: m)
  moreover have "prId r \<in> evId ` set (events db')"
    using calculation taken by (cases "prInserted r") auto
  moreover have "db2 = db' \<and> \<not> prInserted r2"
    if "inId inp2 = Some i" "i \<in> evId ` set (events db')"
      "publishEvent newId2 did2 now2 inp2 db' = Inr (db2, r2)" for inp2 newId2 did2 now2 db2 r2 i
    using that
    by (auto simp: publishEvent_def ebind_Inr_iff Let_def insertOnConflictDoNothing_def
        split: prod.splits if_splits)
  ultimately show ?thesis using taken by blast
qed

theorem publish_fans_out_exactly_once_witness:
  "\<exists>db' r. publishEvent ''e1'' (\<lambda>_. ''d1'') 5 exampleInput (emptyDb\<lparr>subscriptions := [exampleSub]\<rparr>) = Inr (db', r) \<and>
     prInserted r \<and> map delSub (deliveries db') = [''s1'']"
proof -
  let ?r = "\<lparr>prId = ''e1'', prTopic = ''invoice.paid'', prDeliveries = 1, prInserted = True\<rparr>"
  have pub: "publishEvent ''e1'' (\<lambda>_. ''d1'') 5 exampleInput (emptyDb\<lparr>subscriptions := [exampleSub]\<rparr>) =
      Inr (exampleDb, ?r)" by code_simp
  from publish_fans_out_exactly_once [OF pub]
  have "deliveries exampleDb = map (\<lambda>s. newDelivery ''d1'' ''e1'' (subId s) 5)
      (filter (\<lambda>s. subTopic s = inTopic exampleInput \<and> subActive s \<and> (subOrg s = None \<or> subOrg s = inOrg exampleInput))
        [exampleSub])" by (simp add: emptyDb_def)
  then have "map delSub (deliveries exampleDb) = [''s1'']"
    by (simp add: newDelivery_def exampleSub_def exampleInput_def)
  with pub show ?thesis by auto
qed

section \<open>Registry sync\<close>

definition declares :: "registry \<Rightarrow> subscriptionRow \<Rightarrow> bool" where
  "declares reg s \<longleftrightarrow> subOrg s = None \<and> (\<exists>h\<in>set reg. subTopic s = rhTopic h \<and> subHandler s = rhName h)"

definition servedBy :: "registeredHandler \<Rightarrow> subscriptionRow \<Rightarrow> bool" where
  "servedBy h s \<longleftrightarrow> sameGlobal (rhTopic h) (rhName h) s \<and> subActive s \<and> subMaxAttempts s = rhMaxAttempts h"

lemma upsert_serves: "\<exists>s\<in>set (upsertHandlerSubscription f now h ss). servedBy h s"
proof (cases "\<exists>s\<in>set ss. sameGlobal (rhTopic h) (rhName h) s")
  case True
  then obtain s where "s \<in> set ss" "sameGlobal (rhTopic h) (rhName h) s" by blast
  then have "s\<lparr>subMaxAttempts := rhMaxAttempts h, subActive := True, subUpdatedAt := now\<rparr>
      \<in> set (upsertHandlerSubscription f now h ss)"
    by (auto simp: upsertHandlerSubscription_def set_updateWhere intro!: image_eqI [of _ _ s])
  with \<open>sameGlobal _ _ s\<close> show ?thesis
    by (intro bexI) (auto simp: servedBy_def sameGlobal_def)
qed (auto simp: upsertHandlerSubscription_def servedBy_def sameGlobal_def)

lemma upsert_keeps_served:
  assumes "s \<in> set ss" and "servedBy h s" and "(rhTopic h', rhName h') \<noteq> (rhTopic h, rhName h)"
  shows "s \<in> set (upsertHandlerSubscription f now h' ss)"
  using assms by (auto simp: upsertHandlerSubscription_def servedBy_def sameGlobal_def set_updateWhere
      intro!: image_eqI [of _ _ s])

lemma upsert_keeps_undeclared:
  assumes "s \<in> set ss" and "\<not> sameGlobal (rhTopic h') (rhName h') s"
  shows "s \<in> set (upsertHandlerSubscription f now h' ss)"
  using assms by (auto simp: upsertHandlerSubscription_def set_updateWhere intro!: image_eqI [of _ _ s])

lemma upserts_keep_served:
  assumes "s \<in> set ss" and "servedBy h s" and "\<forall>h'\<in>set reg. (rhTopic h', rhName h') \<noteq> (rhTopic h, rhName h)"
  shows "s \<in> set (fold (upsertHandlerSubscription f now) reg ss)"
  using assms by (induction reg arbitrary: ss) (auto intro: upsert_keeps_served)

lemma upserts_serve:
  assumes "distinct (map (\<lambda>h. (rhTopic h, rhName h)) reg)" and "h \<in> set reg"
  shows "\<exists>s\<in>set (fold (upsertHandlerSubscription f now) reg ss). servedBy h s"
  using assms
proof (induction reg arbitrary: ss)
  case (Cons h' reg)
  show ?case
  proof (cases "h = h'")
    case True
    from upsert_serves obtain s where "s \<in> set (upsertHandlerSubscription f now h ss)" "servedBy h s" by blast
    moreover have "\<forall>h''\<in>set reg. (rhTopic h'', rhName h'') \<noteq> (rhTopic h, rhName h)"
      using Cons.prems(1) True by (force simp: image_iff)
    ultimately have "s \<in> set (fold (upsertHandlerSubscription f now) reg (upsertHandlerSubscription f now h ss))"
      by (rule upserts_keep_served)
    with \<open>servedBy h s\<close> True show ?thesis by auto
  qed (use Cons in simp)
qed simp

lemma upserts_keep_undeclared:
  assumes "s \<in> set ss" and "\<not> declares reg s"
  shows "s \<in> set (fold (upsertHandlerSubscription f now) reg ss)"
  using assms
proof (induction reg arbitrary: ss)
  case (Cons h reg)
  have "s \<in> set (upsertHandlerSubscription f now h ss)"
    by (rule upsert_keeps_undeclared [OF Cons.prems(1)])
      (use Cons.prems(2) in \<open>auto simp: declares_def sameGlobal_def\<close>)
  with Cons show ?case by (auto simp: declares_def)
qed simp

lemma registryKey_pairs:
  "distinct (map (\<lambda>h. registryKey (rhTopic h) (rhName h)) reg) \<Longrightarrow>
     distinct (map (\<lambda>h. (rhTopic h, rhName h)) reg)"
  by (auto simp: distinct_map inj_on_def)

text \<open>
  After a registry sync every handler the process declares has an active global subscription with
  its own attempts budget; a subscription it does not declare is deactivated if and only if it is an
  active global handler subscription that nobody has declared within the grace window (an hour unless
  given), and is otherwise left as it was; no delivery, event or receipt changes.
\<close>

theorem sync_serves_the_registry:
  assumes "registryOk reg"
    and "syncSubscriptionsFromRegistry f now grace reg db = (db', up, off)"
  defines "graceMs \<equiv> max 0 (case grace of Some g \<Rightarrow> g | None \<Rightarrow> 3600000)"
  shows "(\<forall>h\<in>set reg. \<exists>s\<in>set (subscriptions db'). subOrg s = None \<and> subTopic s = rhTopic h \<and>
            subHandler s = rhName h \<and> subActive s \<and> subMaxAttempts s = rhMaxAttempts h) \<and>
    (\<forall>s\<in>set (subscriptions db). \<not> declares reg s \<longrightarrow>
       (if subOrg s = None \<and> subKind s = KHandler \<and> subActive s \<and> subUpdatedAt s < now - graceMs
        then s\<lparr>subActive := False, subUpdatedAt := now\<rparr> else s) \<in> set (subscriptions db')) \<and>
    deliveries db' = deliveries db \<and> events db' = events db \<and> receipts db' = receipts db \<and>
    up = length reg"
proof -
  let ?up = "fold (upsertHandlerSubscription f now) reg (subscriptions db)"
  let ?off = "deactivates reg graceMs now"
  from assms(2) have subs: "subscriptions db' = updateWhere ?off (\<lambda>s. s\<lparr>subActive := False, subUpdatedAt := now\<rparr>) ?up"
    and rest: "deliveries db' = deliveries db" "events db' = events db" "receipts db' = receipts db" "up = length reg"
    unfolding graceMs_def
    by (auto simp: syncSubscriptionsFromRegistry_def Let_def SUBSCRIPTION_DEACTIVATE_GRACE_MS_def cong: option.case_cong)
  have d: "distinct (map (\<lambda>h. (rhTopic h, rhName h)) reg)"
    by (rule registryKey_pairs) (use assms(1) in \<open>simp add: registryOk_def\<close>)
  have "\<exists>s\<in>set (subscriptions db'). servedBy h s" if "h \<in> set reg" for h
  proof -
    from upserts_serve [OF d that] obtain s where s: "s \<in> set ?up" "servedBy h s" by blast
    then have "\<not> ?off s" using that by (auto simp: deactivates_def servedBy_def sameGlobal_def)
    with s show ?thesis by (auto simp: subs set_updateWhere intro!: bexI [of _ s] image_eqI [of _ _ s])
  qed
  moreover have "(if subOrg s = None \<and> subKind s = KHandler \<and> subActive s \<and> subUpdatedAt s < now - graceMs
        then s\<lparr>subActive := False, subUpdatedAt := now\<rparr> else s) \<in> set (subscriptions db')"
    if "s \<in> set (subscriptions db)" "\<not> declares reg s" for s
  proof -
    from upserts_keep_undeclared [OF that] have s: "s \<in> set ?up" .
    have "?off s \<longleftrightarrow> subOrg s = None \<and> subKind s = KHandler \<and> subActive s \<and> subUpdatedAt s < now - graceMs"
      using that(2) by (auto simp: deactivates_def declares_def)
    with s show ?thesis by (auto simp: subs set_updateWhere intro!: image_eqI [of _ _ s])
  qed
  ultimately show ?thesis using rest by (auto simp: servedBy_def sameGlobal_def)
qed

theorem sync_serves_the_registry_witness:
  "\<exists>s\<in>set (subscriptions (fst (syncSubscriptionsFromRegistry (\<lambda>_ _. ''s1'') 0 None [exampleHandler] emptyDb))).
     subActive s \<and> subMaxAttempts s = 3"
proof -
  have ok: "registryOk [exampleHandler]" by code_simp
  have "syncSubscriptionsFromRegistry (\<lambda>_ _. ''s1'') 0 None [exampleHandler] emptyDb =
      (fst (syncSubscriptionsFromRegistry (\<lambda>_ _. ''s1'') 0 None [exampleHandler] emptyDb), 1, 0)"
    by code_simp
  from sync_serves_the_registry [OF ok this] show ?thesis by (auto simp: exampleHandler_def)
qed

section \<open>Retention\<close>

lemma sweepLoop_invariant:
  assumes "P db" and "\<And>x. P x \<Longrightarrow> P (fst (del x))"
  shows "P (fst (sweepLoop n batch del db))"
  using assms(1)
proof (induction n arbitrary: db)
  case (Suc n)
  obtain db' m where d: "del db = (db', m)" by force
  from assms(2) [OF Suc.prems] d have "P db'" by simp
  with Suc.IH [of db'] d show ?case by (auto split: prod.splits)
qed simp

lemma sweepLoop_count:
  assumes "\<And>x. snd (del x) \<le> batch"
  shows "snd (sweepLoop n batch del db) \<le> n * batch"
proof (induction n arbitrary: db)
  case (Suc n)
  obtain db' m where d: "del db = (db', m)" by force
  with assms [of db] Suc.IH [of db'] show ?case by (auto split: prod.splits)
qed simp

text \<open>What the database is like during the deliveries' half of the sweep.\<close>

definition doneSwept :: "ms \<Rightarrow> eventsDb \<Rightarrow> eventsDb \<Rightarrow> bool" where
  "doneSwept before db x \<longleftrightarrow>
     wfDb x \<and> events x = events db \<and> subscriptions x = subscriptions db \<and>
     set (deliveries x) \<subseteq> set (deliveries db) \<and>
     (\<forall>d\<in>set (deliveries db) - set (deliveries x). doneLongAgo before d)"

lemma doneSwept_step: "doneSwept before db x \<Longrightarrow> doneSwept before db (fst (deleteDoneBatch before n x))"
proof -
  assume h: "doneSwept before db x"
  let ?t = "take n (filter (doneLongAgo before) (deliveries x))"
  have "doneLongAgo before d" if "d \<in> set (deliveries x)" "delId d \<in> delId ` set ?t" for d
  proof -
    from that(2) obtain d' where d': "d' \<in> set ?t" "delId d' = delId d" by auto
    then have "d' \<in> set (deliveries x)" "doneLongAgo before d'" by (auto dest: in_set_takeD)
    moreover from h have "distinct (map delId (deliveries x))" by (simp add: doneSwept_def wfDbD)
    ultimately have "d' = d" using that(1) d'(2) by (blast intro: distinct_key_eq)
    with \<open>doneLongAgo before d'\<close> show ?thesis by simp
  qed
  note old = this
  define ids where "ids = delId ` set ?t"
  let ?x = "fst (deleteDoneBatch before n x)"
  have x': "events ?x = events x" "subscriptions ?x = subscriptions x"
    "set (deliveries ?x) = {d \<in> set (deliveries x). delId d \<notin> ids}"
    by (simp_all add: deleteDoneBatch_def Let_def ids_def)
  have "doneLongAgo before d" if "d \<in> set (deliveries db) - set (deliveries ?x)" for d
    using that h old [of d] unfolding x'(3) ids_def doneSwept_def by blast
  moreover have "wfDb ?x" using h by (simp add: doneSwept_def wfDb_deleteDone)
  ultimately show ?thesis using h by (auto simp: doneSwept_def x')
qed

text \<open>And during the events' half: a delivery is there as long as its event is.\<close>

definition eventsSwept :: "ms \<Rightarrow> eventsDb \<Rightarrow> eventsDb \<Rightarrow> bool" where
  "eventsSwept before db x \<longleftrightarrow>
     wfDb x \<and> subscriptions x = subscriptions db \<and> set (events x) \<subseteq> set (events db) \<and>
     set (deliveries x) = {d \<in> set (deliveries db). delEvent d \<in> evId ` set (events x)} \<and>
     (\<forall>e\<in>set (events db) - set (events x). eventExpired before db e)"

lemma eventsSwept_step:
  assumes "eventsSwept before db x"
  shows "eventsSwept before db (fst (deleteEventBatch before n x))"
proof -
  let ?t = "take n (filter (eventExpired before x) (events x))"
  have wf: "wfDb x" using assms by (simp add: eventsSwept_def)
  have "eventExpired before db e" if "e \<in> set (events x)" "evId e \<in> evId ` set ?t" for e
  proof -
    from that(2) obtain e' where e': "e' \<in> set ?t" "evId e' = evId e" by auto
    then have "e' \<in> set (events x)" "eventExpired before x e'" by (auto dest: in_set_takeD)
    with wfDbD(1) [OF wf] that(1) e'(2) have "eventExpired before x e"
      using distinct_key_eq by metis
    moreover have "d \<in> set (deliveries x)" if "d \<in> set (deliveries db)" "delEvent d = evId e" for d
      using assms that \<open>e \<in> set (events x)\<close> by (auto simp: eventsSwept_def)
    moreover have "holdsEvent x d = holdsEvent db d" for d
      using assms by (simp add: eventsSwept_def holdsEvent_def subscriptionOf_def)
    ultimately show ?thesis by (auto simp: eventExpired_def)
  qed
  note expired = this
  define ids where "ids = evId ` set ?t"
  let ?x = "fst (deleteEventBatch before n x)"
  have x': "subscriptions ?x = subscriptions x" "set (events ?x) = {e \<in> set (events x). evId e \<notin> ids}"
    "set (deliveries ?x) = {d \<in> set (deliveries x). delEvent d \<notin> ids}"
    by (simp_all add: deleteEventBatch_def Let_def ids_def)
  have "set (deliveries ?x) = {d \<in> set (deliveries db). delEvent d \<in> evId ` set (events ?x)}"
    using assms unfolding x' eventsSwept_def by auto
  moreover have "eventExpired before db e" if "e \<in> set (events db) - set (events ?x)" for e
    using that assms expired [of e] unfolding x'(2) ids_def eventsSwept_def by blast
  moreover have "wfDb ?x" by (rule wfDb_deleteEvent [OF wf])
  ultimately show ?thesis
    using assms by (auto simp: eventsSwept_def x')
qed

lemma deleteDone_count: "snd (deleteDoneBatch before n x) \<le> n"
  by (simp add: deleteDoneBatch_def Let_def)

lemma deleteEvent_count: "snd (deleteEventBatch before n x) \<le> n"
  by (simp add: deleteEventBatch_def Let_def)

lemma swept_refl: "wfDb db \<Longrightarrow> doneSwept before db db" "wfDb db \<Longrightarrow> eventsSwept before' db db"
  by (auto simp: doneSwept_def eventsSwept_def wfDb_def)

lemma sweepLoop_done: "wfDb db \<Longrightarrow> doneSwept before db (fst (sweepLoop k n (deleteDoneBatch before n) db))"
  by (rule sweepLoop_invariant [OF swept_refl(1)], assumption) (rule doneSwept_step)

lemma sweepLoop_events: "wfDb db \<Longrightarrow> eventsSwept before db (fst (sweepLoop k n (deleteEventBatch before n) db))"
  by (rule sweepLoop_invariant [OF swept_refl(2)], assumption) (rule eventsSwept_step)

text \<open>
  C25. The retention sweep deletes only what its windows allow, and never unfinished work: an event goes
  only when it is older than the event window and none of its deliveries on an active subscription is
  pending, running or failed; a delivery goes only when it was done longer ago than the delivery window
  or together with its event; each window at zero (or below) keeps its half; and one call deletes at
  most batch times maxBatches rows of each kind.
\<close>

theorem retention_keeps_unfinished_work:
  assumes wf: "wfDb db" and sweep: "sweepEventRetention opts now db = (db2, n1, n2)"
  defines "rows \<equiv> nat (clamp 1 10000 (case roBatch opts of Some b \<Rightarrow> b | None \<Rightarrow> 1000)) *
      nat (clamp 1 1000 (case roMaxBatches opts of Some b \<Rightarrow> b | None \<Rightarrow> 20))"
  shows "(\<forall>e\<in>set (events db). e \<notin> set (events db2) \<longrightarrow>
       0 < roEventsAfterDays opts \<and> evCreatedAt e < now - roEventsAfterDays opts * 86400000 \<and>
       \<not> (\<exists>d\<in>set (deliveries db). delEvent d = evId e \<and> delStatus d \<in> {Pending, Running, Failed} \<and>
            (\<exists>s. subscriptionOf db d = Some s \<and> subActive s))) \<and>
    (\<forall>d\<in>set (deliveries db). d \<notin> set (deliveries db2) \<longrightarrow>
       delEvent d \<notin> evId ` set (events db2) \<or>
       0 < roDoneDeliveriesAfterDays opts \<and> delStatus d = Done \<and>
       (\<exists>t. delDoneAt d = Some t \<and> t < now - roDoneDeliveriesAfterDays opts * 86400000)) \<and>
    n1 \<le> rows \<and> n2 \<le> rows \<and> wfDb db2"
proof -
  let ?batch = "nat (clamp 1 10000 (case roBatch opts of Some b \<Rightarrow> b | None \<Rightarrow> 1000))"
  let ?max = "nat (clamp 1 1000 (case roMaxBatches opts of Some b \<Rightarrow> b | None \<Rightarrow> 20))"
  let ?b1 = "now - roDoneDeliveriesAfterDays opts * dayMs"
  let ?b2 = "now - roEventsAfterDays opts * dayMs"
  define r1 where "r1 = (if roDoneDeliveriesAfterDays opts > 0
      then sweepLoop ?max ?batch (deleteDoneBatch ?b1 ?batch) db else (db, 0))"
  define r2 where "r2 = (if roEventsAfterDays opts > 0
      then sweepLoop ?max ?batch (deleteEventBatch ?b2 ?batch) (fst r1) else (fst r1, 0))"
  have eqs: "db2 = fst r2" "n1 = snd r1" "n2 = snd r2"
    using sweep by (auto simp: sweepEventRetention_def Let_def r1_def r2_def split: prod.splits if_splits)
  have s1: "doneSwept ?b1 db (fst r1)"
    by (simp add: r1_def sweepLoop_done [OF wf] swept_refl(1) [OF wf])
  then have wf1: "wfDb (fst r1)" by (simp add: doneSwept_def)
  have s2: "eventsSwept ?b2 (fst r1) (fst r2)"
    by (simp add: r2_def sweepLoop_events [OF wf1] swept_refl(2) [OF wf1])
  have day: "dayMs = 86400000" by (simp add: dayMs_def)
  have same: "subscriptionOf (fst r1) d = subscriptionOf db d" for d
    using s1 by (simp add: doneSwept_def subscriptionOf_def)
  have keep: "d \<in> set (deliveries (fst r1))"
    if "d \<in> set (deliveries db)" "delStatus d \<in> {Pending, Running, Failed}" for d
  proof (rule ccontr)
    assume "d \<notin> set (deliveries (fst r1))"
    with s1 that(1) have "doneLongAgo ?b1 d" by (auto simp: doneSwept_def)
    with that(2) show False by (auto simp: doneLongAgo_def)
  qed
  have ev: "0 < roEventsAfterDays opts \<and> evCreatedAt e < now - roEventsAfterDays opts * 86400000 \<and>
       \<not> (\<exists>d\<in>set (deliveries db). delEvent d = evId e \<and> delStatus d \<in> {Pending, Running, Failed} \<and>
            (\<exists>s. subscriptionOf db d = Some s \<and> subActive s))"
    if "e \<in> set (events db)" "e \<notin> set (events db2)" for e
  proof -
    have in1: "e \<in> set (events (fst r1))" using that(1) s1 by (simp add: doneSwept_def)
    then have pos: "0 < roEventsAfterDays opts" using that(2) by (auto simp: eqs r2_def split: if_splits)
    have "eventExpired ?b2 (fst r1) e" using s2 in1 that(2) by (auto simp: eventsSwept_def eqs)
    then have "evCreatedAt e < ?b2" and "\<forall>d\<in>set (deliveries (fst r1)). delEvent d = evId e \<longrightarrow> \<not> holdsEvent (fst r1) d"
      by (auto simp: eventExpired_def)
    then have "\<not> (\<exists>d\<in>set (deliveries db). delEvent d = evId e \<and> delStatus d \<in> {Pending, Running, Failed} \<and>
            (\<exists>s. subscriptionOf db d = Some s \<and> subActive s))"
      using keep by (auto simp: holdsEvent_def same)
    with pos \<open>evCreatedAt e < ?b2\<close> show ?thesis unfolding day by blast
  qed
  have del: "delEvent d \<notin> evId ` set (events db2) \<or>
       0 < roDoneDeliveriesAfterDays opts \<and> delStatus d = Done \<and>
       (\<exists>t. delDoneAt d = Some t \<and> t < now - roDoneDeliveriesAfterDays opts * 86400000)"
    if "d \<in> set (deliveries db)" "d \<notin> set (deliveries db2)" for d
  proof (cases "d \<in> set (deliveries (fst r1))")
    case True
    with s2 that(2) show ?thesis by (auto simp: eventsSwept_def eqs)
  next
    case False
    with that(1) s1 have "doneLongAgo ?b1 d" "0 < roDoneDeliveriesAfterDays opts"
      by (auto simp: doneSwept_def r1_def split: if_splits)
    then show ?thesis by (auto simp: doneLongAgo_def day split: option.splits)
  qed
  have "n1 \<le> rows" "n2 \<le> rows"
    using sweepLoop_count [of "deleteDoneBatch ?b1 ?batch" ?batch ?max, OF deleteDone_count]
      sweepLoop_count [of "deleteEventBatch ?b2 ?batch" ?batch ?max, OF deleteEvent_count]
    by (simp_all add: eqs r1_def r2_def rows_def mult.commute)
  moreover have "wfDb db2" using s2 by (simp add: eqs eventsSwept_def)
  ultimately show ?thesis using ev del by blast
qed

theorem retention_keeps_unfinished_work_witness:
  "exampleEvent \<in> set (events (fst (sweepEventRetention
     \<lparr>roDoneDeliveriesAfterDays = 1, roEventsAfterDays = 1, roBatch = None, roMaxBatches = None\<rparr> (10 ^ 12) exampleDb)))"
proof -
  let ?o = "\<lparr>roDoneDeliveriesAfterDays = 1, roEventsAfterDays = 1, roBatch = None, roMaxBatches = None\<rparr>"
  obtain db2 n1 n2 where r: "sweepEventRetention ?o (10 ^ 12) exampleDb = (db2, n1, n2)"
    by (cases "sweepEventRetention ?o (10 ^ 12) exampleDb")
  have "exampleEvent \<in> set (events exampleDb)" "exampleDelivery \<in> set (deliveries exampleDb)"
    "delEvent exampleDelivery = evId exampleEvent" "delStatus exampleDelivery = Pending"
    "subscriptionOf exampleDb exampleDelivery = Some exampleSub" "subActive exampleSub"
    by (simp_all add: example_defs subscriptionOf_def)
  with retention_keeps_unfinished_work [OF exampleDb_wf r] have "exampleEvent \<in> set (events db2)" by blast
  then show ?thesis unfolding r by simp
qed

section \<open>Replay and completed receipts\<close>

text \<open>
  A completed receipt outlives its delivery's replay, so a replayed delivery is skipped. But the
  requeue of a stale claim (like a release or a failed attempt) deletes every receipt that points to
  the delivery, completed ones too: a pod that dies while it holds a replayed delivery makes the
  handler run again.
\<close>

definition exampleHandled :: eventsDb where
  "exampleHandled = exampleDb\<lparr>
     deliveries := [exampleDelivery\<lparr>delStatus := Done, delDoneAt := Some 20, delAttempts := 1\<rparr>],
     receipts := [(reservationOf exampleClaim ''o1:e1'')\<lparr>rcCompletedAt := Some 20\<rparr>]\<rparr>"

lemma replay_then_stale_claim_runs_again:
  "let replayed = fst (replayDelivery ''d1'' 30 exampleHandled);
       claimed = claimTransaction (\<lambda>_. None) {} 10 exampleOpts 31 replayed;
       skipped = processDelivery [exampleHandler] exampleEnv (hd (snd claimed)) (fst claimed);
       requeued = fst (requeueStaleDeliveries 10 100 (fst claimed));
       again = claimTransaction (\<lambda>_. None) {} 10 exampleOpts 101 requeued
   in snd skipped = OSkipped \<and>
      snd (processDelivery [exampleHandler] exampleEnv (hd (snd again)) (fst again)) = ODone \<and>
      receipts requeued = []"
  by code_simp

end
