(* ===== verification/JsNumber.thy ===== *)
theory JsNumber
  imports JsText
begin

text \<open>
  \<open>Number(s)\<close> of a string, as ECMAScript's StringToNumber defines it: white space is trimmed, the empty
  string is 0, hexadecimal, octal and binary literals are read, and a decimal literal is an optional
  sign, digits with an optional fraction, and an optional exponent. \<open>None\<close> stands for every result
  that is not finite (\<open>NaN\<close> and the infinities), which the source always tests for with
  \<open>Number.isFinite\<close>. The value is the exact rational where JavaScript rounds it to a double.
\<close>

definition digitIn :: "nat \<Rightarrow> char \<Rightarrow> nat option" where
  "digitIn base c =
     (let v = (if isDigit c then Some (code c - 48)
               else if isLower c then Some (code c - 87)
               else if isUpper c then Some (code c - 55) else None)
      in case v of Some d \<Rightarrow> if d < base then Some d else None | None \<Rightarrow> None)"

definition radixValue :: "nat \<Rightarrow> string \<Rightarrow> rat option" where
  "radixValue base s =
     (if s \<noteq> [] \<and> list_all (\<lambda>c. digitIn base c \<noteq> None) s
      then Some (of_nat (foldl (\<lambda>n c. base * n + (case digitIn base c of Some d \<Rightarrow> d | None \<Rightarrow> 0)) 0 s))
      else None)"

definition splitSign :: "string \<Rightarrow> bool \<times> string" where
  "splitSign s =
     (case s of
        c # r \<Rightarrow> if c = CHR ''-'' then (True, r) else if c = CHR ''+'' then (False, r) else (False, s)
      | [] \<Rightarrow> (False, s))"

definition isExpChar :: "char \<Rightarrow> bool" where
  "isExpChar c \<longleftrightarrow> c = CHR ''e'' \<or> c = CHR ''E''"

text \<open>The exponent part: nothing, or \<^verbatim>\<open>e\<close>, an optional sign and digits.\<close>

definition exponentValue :: "string \<Rightarrow> int option" where
  "exponentValue s =
     (case s of
        [] \<Rightarrow> Some 0
      | c # r \<Rightarrow>
          (let (neg, ds) = splitSign r in
           if isExpChar c \<and> ds \<noteq> [] \<and> list_all isDigit ds
           then Some (if neg then - int (digitsVal ds) else int (digitsVal ds))
           else None))"

definition powerOfTen :: "int \<Rightarrow> rat" where
  "powerOfTen e = (if e \<ge> 0 then 10 ^ nat e else 1 / 10 ^ nat (- e))"

definition unsignedDecimal :: "string \<Rightarrow> rat option" where
  "unsignedDecimal s =
     (let whole = takeWhile isDigit s;
          rest = dropWhile isDigit s;
          (frac, rest2) = (case rest of
             c # r \<Rightarrow> if c = CHR ''.'' then (takeWhile isDigit r, dropWhile isDigit r) else ([], rest)
           | [] \<Rightarrow> ([], rest))
      in if whole = [] \<and> frac = [] then None
         else (case exponentValue rest2 of
             None \<Rightarrow> None
           | Some e \<Rightarrow> Some (of_nat (digitsVal (whole @ frac)) * powerOfTen (e - int (length frac)))))"

text \<open>From this value on a double is infinite.\<close>

definition overflows :: "rat \<Rightarrow> bool" where
  "overflows x \<longleftrightarrow> \<bar>x\<bar> \<ge> 2 ^ 1024 - 2 ^ 970"

definition jsNumber :: "string \<Rightarrow> rat option" where
  "jsNumber s =
     (let t = trim s in
      if t = [] then Some 0
      else if length t > 2 \<and> hd t = CHR ''0'' \<and> (t ! 1 = CHR ''x'' \<or> t ! 1 = CHR ''X'') then radixValue 16 (drop 2 t)
      else if length t > 2 \<and> hd t = CHR ''0'' \<and> (t ! 1 = CHR ''o'' \<or> t ! 1 = CHR ''O'') then radixValue 8 (drop 2 t)
      else if length t > 2 \<and> hd t = CHR ''0'' \<and> (t ! 1 = CHR ''b'' \<or> t ! 1 = CHR ''B'') then radixValue 2 (drop 2 t)
      else (let (neg, r) = splitSign t in
            case unsignedDecimal r of
              None \<Rightarrow> None
            | Some v \<Rightarrow> if overflows v then None else Some (if neg then - v else v)))"

text \<open>An environment integer with a default and bounds, as the job loops read them.\<close>

definition envInt :: "string option \<Rightarrow> int \<Rightarrow> int \<Rightarrow> int \<Rightarrow> int" where
  "envInt raw fallback lo hi =
     (case raw of
        None \<Rightarrow> fallback
      | Some r \<Rightarrow>
          if trim r = [] then fallback
          else (case jsNumber r of
              None \<Rightarrow> fallback
            | Some n \<Rightarrow> min hi (max lo \<lfloor>n\<rfloor>)))"

lemma envInt_bounds: "lo \<le> fallback \<Longrightarrow> fallback \<le> hi \<Longrightarrow> lo \<le> envInt raw fallback lo hi \<and> envInt raw fallback lo hi \<le> hi"
  by (auto simp: envInt_def split: option.splits)

lemma powerOfTen_0 [simp]: "powerOfTen 0 = 1"
  by (simp add: powerOfTen_def)

lemma decimal_head: "decimal n = c # r \<Longrightarrow> isDigit c"
  using decimal_digits [of n] by auto

text \<open>\<open>Number(String(n)) = n\<close> for the naturals a double can hold.\<close>

lemma unsignedDecimal_digits:
  assumes "list_all isDigit ds" and "ds \<noteq> []"
  shows "unsignedDecimal ds = Some (of_nat (digitsVal ds))"
proof -
  have tw: "takeWhile isDigit ds = ds" and dw: "dropWhile isDigit ds = []"
    using assms(1) by (simp_all add: list_all_iff)
  show ?thesis using assms(2) by (simp add: unsignedDecimal_def exponentValue_def Let_def tw dw)
qed

end
