(* ===== verification/EventConsumer.thy ===== *)
theory EventConsumer
  imports EventOutcomes JsNumber
begin

text \<open>
  \<^verbatim>\<open>src/jobs/event-consumer.ts\<close>: the loop that drains the delivery queue. Three parts: the environment
  tuning; what one tick does to the database (\<open>drainOnce\<close>, \<open>maybeSweepRetention\<close>, \<open>tickWork\<close>); and the
  loop itself as a state machine of timers and asynchronous activities, where each operation is the
  code that runs between two awaits. \<open>sched\<close> is what \<open>forEachLimited\<close> makes of a batch in time.
\<close>

section \<open>Tuning\<close>

definition DEFAULT_POLL_INTERVAL_MS :: int where "DEFAULT_POLL_INTERVAL_MS = 5000"
definition DEFAULT_BATCH_SIZE :: int where "DEFAULT_BATCH_SIZE = 25"
definition DEFAULT_CONCURRENCY :: int where "DEFAULT_CONCURRENCY = 4"
definition DEFAULT_LOCK_TTL_S :: int where "DEFAULT_LOCK_TTL_S = 60"
definition DEFAULT_STALE_CLAIM_MS :: int where "DEFAULT_STALE_CLAIM_MS = 10 * 60 * 1000"
definition STALE_CLAIM_SLACK_MS :: int where "STALE_CLAIM_SLACK_MS = 60000"
definition DEFAULT_RETENTION_DELIVERIES_DAYS :: int where "DEFAULT_RETENTION_DELIVERIES_DAYS = 7"
definition DEFAULT_RETENTION_EVENTS_DAYS :: int where "DEFAULT_RETENTION_EVENTS_DAYS = 90"
definition DEFAULT_RETENTION_SWEEP_MS :: int where "DEFAULT_RETENTION_SWEEP_MS = 60 * 60 * 1000"
definition HOUR_MS :: int where "HOUR_MS = 60 * 60 * 1000"
definition DAY_MS :: int where "DAY_MS = 24 * HOUR_MS"

record consumerOptions =
  eoTopics :: "string list option"
  eoRunInTestEnv :: bool
  eoPollIntervalMs :: "int option"
  eoBatchSize :: "int option"
  eoHandlerTimeoutMs :: "int option"

type_synonym envVars = "string \<Rightarrow> string option"

definition orElse :: "'a option \<Rightarrow> 'a \<Rightarrow> 'a" where
  "orElse x d = (case x of Some v \<Rightarrow> v | None \<Rightarrow> d)"

definition pollIntervalMs :: "consumerOptions \<Rightarrow> envVars \<Rightarrow> int" where
  "pollIntervalMs o' env =
     orElse (eoPollIntervalMs o') (envInt (env ''EVENTS_POLL_INTERVAL_MS'') DEFAULT_POLL_INTERVAL_MS 250 HOUR_MS)"

definition batchSize :: "consumerOptions \<Rightarrow> envVars \<Rightarrow> int" where
  "batchSize o' env = orElse (eoBatchSize o') (envInt (env ''EVENTS_BATCH_SIZE'') DEFAULT_BATCH_SIZE 1 200)"

definition concurrency :: "envVars \<Rightarrow> int" where
  "concurrency env = envInt (env ''EVENTS_CONCURRENCY'') DEFAULT_CONCURRENCY 1 32"

definition handlerTimeoutMs :: "consumerOptions \<Rightarrow> envVars \<Rightarrow> int" where
  "handlerTimeoutMs o' env =
     orElse (eoHandlerTimeoutMs o')
       (envInt (env ''EVENTS_HANDLER_TIMEOUT_MS'') DEFAULT_HANDLER_TIMEOUT_MS 1000 (10 * 60 * 1000))"

definition lockTtlSeconds :: "envVars \<Rightarrow> int" where
  "lockTtlSeconds env = envInt (env ''EVENTS_LOCK_TTL_S'') DEFAULT_LOCK_TTL_S 10 3600"

definition staleClaimFloorMs :: "consumerOptions \<Rightarrow> envVars \<Rightarrow> int" where
  "staleClaimFloorMs o' env =
     (let rounds = \<lceil>of_int (batchSize o' env) / (of_int (concurrency env) :: rat)\<rceil>
      in rounds * (handlerTimeoutMs o' env + WRITE_TIMEOUT_MS) + STALE_CLAIM_SLACK_MS)"

definition staleClaimMs :: "consumerOptions \<Rightarrow> envVars \<Rightarrow> int" where
  "staleClaimMs o' env =
     max (envInt (env ''EVENTS_STALE_CLAIM_MS'') DEFAULT_STALE_CLAIM_MS 60000 DAY_MS) (staleClaimFloorMs o' env)"

definition retentionDeliveriesDays :: "envVars \<Rightarrow> int" where
  "retentionDeliveriesDays env =
     envInt (env ''EVENTS_RETENTION_DELIVERIES_DAYS'') DEFAULT_RETENTION_DELIVERIES_DAYS 0 3650"

definition retentionEventsDays :: "envVars \<Rightarrow> int" where
  "retentionEventsDays env = envInt (env ''EVENTS_RETENTION_EVENTS_DAYS'') DEFAULT_RETENTION_EVENTS_DAYS 0 3650"

definition retentionSweepMs :: "envVars \<Rightarrow> int" where
  "retentionSweepMs env = envInt (env ''EVENTS_RETENTION_SWEEP_MS'') DEFAULT_RETENTION_SWEEP_MS 60000 DAY_MS"

section \<open>One tick\<close>

record drainCounts =
  dcDone :: nat
  dcSkipped :: nat
  dcReleased :: nat
  dcFailed :: nat
  dcDead :: nat

definition countOutcome :: "processOutcome \<Rightarrow> drainCounts \<Rightarrow> drainCounts" where
  "countOutcome out n =
     (case out of
        ODone \<Rightarrow> n\<lparr>dcDone := dcDone n + 1\<rparr>
      | OSkipped \<Rightarrow> n\<lparr>dcSkipped := dcSkipped n + 1\<rparr>
      | OReleased _ \<Rightarrow> n\<lparr>dcReleased := dcReleased n + 1\<rparr>
      | OFailed _ \<Rightarrow> n\<lparr>dcFailed := dcFailed n + 1\<rparr>
      | ODead \<Rightarrow> n\<lparr>dcDead := dcDead n + 1\<rparr>)"

definition noCounts :: drainCounts where
  "noCounts = \<lparr>dcDone = 0, dcSkipped = 0, dcReleased = 0, dcFailed = 0, dcDead = 0\<rparr>"

text \<open>
  What a tick meets: the clock, the environment, the claim's timing and the rows its \<^verbatim>\<open>SKIP LOCKED\<close> passes
  over, and the conditions under which each delivery is processed (its \<open>peMeanwhile\<close> holds the other
  workers' and other processes' writes).
\<close>

record tickEnv =
  teOptions :: consumerOptions
  teVars :: envVars
  teConsumerId :: string
  teRegistry :: registry
  teParseJson :: "string \<Rightarrow> json option"
  teLocked :: "uuid set"
  teTiming :: claimTiming
  teNow :: ms
  teProcess :: "claimedDelivery \<Rightarrow> processEnv"

definition processBatch :: "tickEnv \<Rightarrow> claimedDelivery list \<Rightarrow> eventsDb \<Rightarrow> eventsDb \<times> drainCounts" where
  "processBatch te claimed db =
     fold (\<lambda>c (x, n). case processDelivery (teRegistry te)
              ((teProcess te c)\<lparr>peHandlerTimeoutMs := Some (handlerTimeoutMs (teOptions te) (teVars te))\<rparr>) c x of
            (x', out) \<Rightarrow> (x', countOutcome out n)) claimed (db, noCounts)"

definition drainClaims :: "tickEnv \<Rightarrow> eventsDb \<Rightarrow> eventsDb \<times> (appError + claimedDelivery list)" where
  "drainClaims te db =
     claimDeliveries (teParseJson te) (teLocked te) (teTiming te) (batchSize (teOptions te) (teVars te))
       \<lparr>coClaimedBy = teConsumerId te, coTopics = eoTopics (teOptions te),
        coRunnableHandlers = Some (getRunnableHandlers (teRegistry te)), coTimeoutMs = None\<rparr> (teNow te) db"

definition drainOnce :: "tickEnv \<Rightarrow> eventsDb \<Rightarrow> eventsDb \<times> (appError + nat \<times> drainCounts)" where
  "drainOnce te db =
     (case drainClaims te db of
        (db1, Inl e) \<Rightarrow> (db1, Inl e)
      | (db1, Inr claimed) \<Rightarrow>
          if claimed = [] then (db1, Inr (0, noCounts))
          else (case processBatch te claimed db1 of
              (db2, counts) \<Rightarrow> (db2, Inr (length claimed, counts))))"

text \<open>The sweep runs when its interval has passed and this pod wins the throttle lock.\<close>

definition maybeSweepRetention :: "envVars \<Rightarrow> ms \<Rightarrow> bool \<Rightarrow> ms \<times> eventsDb \<Rightarrow> ms \<times> eventsDb" where
  "maybeSweepRetention env now lockWon s =
     (case s of (lastSweepAt, db) \<Rightarrow>
        if now - lastSweepAt < retentionSweepMs env then (lastSweepAt, db)
        else if \<not> lockWon then (now, db)
        else (now, fst (sweepEventRetention
               \<lparr>roDoneDeliveriesAfterDays = retentionDeliveriesDays env, roEventsAfterDays = retentionEventsDays env,
                roBatch = None, roMaxBatches = None\<rparr> now db)))"

text \<open>
  The guarded part of \<open>tick\<close>: nothing without the lock; the reaper, one batch, the sweep. A stage that
  throws ends the tick, which is logged; \<open>fullBatch\<close> keeps what it was set to.
\<close>

datatype lockResult = LockWon | LockHeld | LockThrew

record tickFaults =
  tfLock :: lockResult
  tfRequeueThrows :: bool
  tfSweepLockWon :: bool

definition tickWork :: "tickEnv \<Rightarrow> tickFaults \<Rightarrow> ms \<times> eventsDb \<Rightarrow> (ms \<times> eventsDb) \<times> bool" where
  "tickWork te tf s =
     (case s of (lastSweepAt, db) \<Rightarrow>
        if tfLock tf \<noteq> LockWon \<or> tfRequeueThrows tf then ((lastSweepAt, db), False)
        else (let db1 = fst (requeueStaleDeliveries (staleClaimMs (teOptions te) (teVars te)) (teNow te) db)
              in case drainOnce te db1 of
                   (db2, Inl _) \<Rightarrow> ((lastSweepAt, db2), False)
                 | (db2, Inr (n, _)) \<Rightarrow>
                     (maybeSweepRetention (teVars te) (teNow te) (tfSweepLockWon tf) (lastSweepAt, db2),
                      int n \<ge> batchSize (teOptions te) (teVars te))))"

section \<open>The loop\<close>

text \<open>
  The module's variables, with what the JavaScript runtime holds for them: \<open>lsPending\<close> the timers that
  are set and have neither fired nor been cleared (\<open>lsTimerId\<close> is the handle the code kept), and
  \<open>lsActive\<close> the asynchronous activities that are between two awaits. \<open>currentTick\<close> is settled when
  \<open>lsActive\<close> is empty.
\<close>

datatype timerKind = BootTimer | TickTimer

datatype activity = Syncing | Ticking

record loopState =
  lsTimerId :: "nat option"
  lsPending :: "(nat \<times> timerKind \<times> int) list"
  lsNextId :: nat
  lsActive :: "activity list"
  lsRunning :: bool
  lsShuttingDown :: bool
  lsTickInFlight :: bool
  lsWakeRequested :: bool
  lsSubscribed :: bool
  lsTicks :: nat

definition loopInit :: loopState where
  "loopInit = \<lparr>lsTimerId = None, lsPending = [], lsNextId = 0, lsActive = [], lsRunning = False,
     lsShuttingDown = False, lsTickInFlight = False, lsWakeRequested = False, lsSubscribed = False, lsTicks = 0\<rparr>"

definition setTimer :: "timerKind \<Rightarrow> int \<Rightarrow> loopState \<Rightarrow> loopState" where
  "setTimer k delay s =
     s\<lparr>lsTimerId := Some (lsNextId s), lsPending := lsPending s @ [(lsNextId s, k, delay)],
       lsNextId := lsNextId s + 1\<rparr>"

definition clearTimer :: "loopState \<Rightarrow> loopState" where
  "clearTimer s =
     (case lsTimerId s of
        None \<Rightarrow> s
      | Some i \<Rightarrow> s\<lparr>lsTimerId := None, lsPending := filter (\<lambda>t. fst t \<noteq> i) (lsPending s)\<rparr>)"

definition startEventConsumer :: "consumerOptions \<Rightarrow> envVars \<Rightarrow> bool \<Rightarrow> loopState \<Rightarrow> loopState" where
  "startEventConsumer o' env databaseConfigured s =
     (if lsRunning s \<or> lsTimerId s \<noteq> None then s
      else if orElse (env ''NODE_ENV'') ''development'' = ''test'' \<and> \<not> eoRunInTestEnv o' then s
      else if \<not> databaseConfigured then s
      else setTimer BootTimer 0
        (s\<lparr>lsRunning := True, lsShuttingDown := False, lsWakeRequested := False, lsSubscribed := True,
           lsTickInFlight := True\<rparr>))"

definition wakeEventConsumer :: "loopState \<Rightarrow> loopState" where
  "wakeEventConsumer s =
     (if \<not> lsRunning s \<or> lsShuttingDown s then s
      else if lsTickInFlight s then s\<lparr>lsWakeRequested := True\<rparr>
      else setTimer TickTimer 0 (clearTimer s))"

definition stopEventConsumer :: "loopState \<Rightarrow> loopState" where
  "stopEventConsumer s = clearTimer (s\<lparr>lsShuttingDown := True, lsRunning := False, lsSubscribed := False\<rparr>)"

text \<open>\<open>tick\<close> up to its first await.\<close>

definition tickBegin :: "loopState \<Rightarrow> loopState" where
  "tickBegin s =
     (if lsShuttingDown s then s
      else (clearTimer s)\<lparr>lsTickInFlight := True, lsWakeRequested := False, lsTicks := lsTicks s + 1,
             lsActive := lsActive s @ [Ticking]\<rparr>)"

text \<open>The timer callbacks.\<close>

definition timerFires :: "nat \<times> timerKind \<times> int \<Rightarrow> loopState \<Rightarrow> loopState" where
  "timerFires t s =
     (let s1 = s\<lparr>lsPending := remove1 t (lsPending s)\<rparr> in
      case fst (snd t) of
        BootTimer \<Rightarrow> s1\<lparr>lsTimerId := None, lsActive := lsActive s @ [Syncing]\<rparr>
      | TickTimer \<Rightarrow> tickBegin s1)"

text \<open>After the boot sync, whether it failed or not.\<close>

definition syncFinished :: "loopState \<Rightarrow> loopState" where
  "syncFinished s =
     (let s1 = s\<lparr>lsActive := remove1 Syncing (lsActive s), lsTickInFlight := False\<rparr>
      in if \<not> lsShuttingDown s1 then tickBegin s1 else s1)"

text \<open>\<open>tick\<close> after its work, whether it threw or not.\<close>

definition tickFinished :: "int \<Rightarrow> bool \<Rightarrow> loopState \<Rightarrow> loopState" where
  "tickFinished pollMs fullBatch s =
     (let s1 = s\<lparr>lsActive := remove1 Ticking (lsActive s), lsTickInFlight := False\<rparr>
      in if lsShuttingDown s1 then s1
         else setTimer TickTimer (if fullBatch \<or> lsWakeRequested s1 then 0 else pollMs)
                (s1\<lparr>lsWakeRequested := False\<rparr>))"

text \<open>
  The steps of the loop. \<open>awaited\<close> is the contract of \<open>stopEventConsumer\<close>: a caller starts the consumer
  again only after the stopped tick has settled.
\<close>

inductive loopStep :: "bool \<Rightarrow> loopState \<Rightarrow> loopState \<Rightarrow> bool" for awaited :: bool where
  loopStart: "(awaited \<Longrightarrow> lsRunning s \<or> lsActive s = []) \<Longrightarrow> loopStep awaited s (startEventConsumer o' env dbc s)"
| loopWake: "loopStep awaited s (wakeEventConsumer s)"
| loopStop: "loopStep awaited s (stopEventConsumer s)"
| loopFire: "t \<in> set (lsPending s) \<Longrightarrow> loopStep awaited s (timerFires t s)"
| loopSynced: "Syncing \<in> set (lsActive s) \<Longrightarrow> loopStep awaited s (syncFinished s)"
| loopTicked: "Ticking \<in> set (lsActive s) \<Longrightarrow> loopStep awaited s (tickFinished pollMs full s)"

inductive_cases loopStepE: "loopStep awaited s s'"

section \<open>There is one loop, and it does not die\<close>

definition timersOk :: "loopState \<Rightarrow> bool" where
  "timersOk s \<longleftrightarrow> (case lsTimerId s of None \<Rightarrow> lsPending s = [] | Some i \<Rightarrow> \<exists>k d. lsPending s = [(i, k, d)])"

lemma timersOk_fields [simp]:
  "timersOk (s\<lparr>lsWakeRequested := w\<rparr>) = timersOk s"
  "timersOk (s\<lparr>lsTickInFlight := w\<rparr>) = timersOk s"
  "timersOk (s\<lparr>lsActive := a\<rparr>) = timersOk s"
  by (auto simp: timersOk_def split: option.splits)

definition bootPending :: "loopState \<Rightarrow> bool" where
  "bootPending s \<longleftrightarrow> (\<exists>i d. lsPending s = [(i, BootTimer, d)])"

definition loopInv :: "loopState \<Rightarrow> bool" where
  "loopInv s \<longleftrightarrow> timersOk s \<and> length (lsPending s) + length (lsActive s) \<le> 1 \<and>
     (lsShuttingDown s \<longrightarrow> \<not> lsRunning s) \<and>
     (lsRunning s \<longrightarrow> length (lsPending s) + length (lsActive s) = 1 \<and>
        (lsTickInFlight s \<longleftrightarrow> lsActive s \<noteq> [] \<or> bootPending s)) \<and>
     (\<not> lsRunning s \<longrightarrow> lsPending s = [] \<and> (lsActive s = [] \<or> lsShuttingDown s))"

lemma bootPending_fields [simp]:
  "bootPending (s\<lparr>lsWakeRequested := w\<rparr>) = bootPending s"
  "bootPending (s\<lparr>lsTickInFlight := w\<rparr>) = bootPending s"
  "bootPending (s\<lparr>lsActive := a\<rparr>) = bootPending s"
  by (simp_all add: bootPending_def)

lemma timer_ops [row_simps]:
  "lsActive (clearTimer s) = lsActive s" "lsRunning (clearTimer s) = lsRunning s"
  "lsShuttingDown (clearTimer s) = lsShuttingDown s" "lsTickInFlight (clearTimer s) = lsTickInFlight s"
  "lsWakeRequested (clearTimer s) = lsWakeRequested s" "lsTimerId (clearTimer s) = None"
  "lsActive (setTimer k d s) = lsActive s" "lsRunning (setTimer k d s) = lsRunning s"
  "lsShuttingDown (setTimer k d s) = lsShuttingDown s" "lsTickInFlight (setTimer k d s) = lsTickInFlight s"
  "lsWakeRequested (setTimer k d s) = lsWakeRequested s"
  "lsPending (setTimer k d s) = lsPending s @ [(lsNextId s, k, d)]" "lsTimerId (setTimer k d s) = Some (lsNextId s)"
  by (simp_all add: clearTimer_def setTimer_def split: option.splits)

lemma clearTimer_pending [row_simps]: "timersOk s \<Longrightarrow> lsPending (clearTimer s) = []"
  by (auto simp: timersOk_def clearTimer_def split: option.splits)

lemma clearTimer_pending_one [row_simps]:
  "lsTimerId s = Some i \<Longrightarrow> lsPending s = [(i, k, d)] \<Longrightarrow> lsPending (clearTimer s) = []"
  by (simp add: clearTimer_def)

lemma fresh_timer:
  "timersOk s \<Longrightarrow> timersOk (setTimer k d (clearTimer s))"
  "timersOk s \<Longrightarrow> bootPending (setTimer TickTimer d (clearTimer s)) = False"
  by (simp_all add: timersOk_def [of "setTimer k d (clearTimer s)"]
      bootPending_def [of "setTimer TickTimer d (clearTimer s)"] row_simps)

lemma loopInv_start:
  "loopInv s \<Longrightarrow> lsRunning s \<or> lsActive s = [] \<Longrightarrow> loopInv (startEventConsumer o' env dbc s)"
  by (auto simp: startEventConsumer_def loopInv_def timersOk_def bootPending_def row_simps split: option.splits)

lemma loopInv_wake: "loopInv s \<Longrightarrow> loopInv (wakeEventConsumer s)"
  by (auto simp: wakeEventConsumer_def loopInv_def row_simps fresh_timer)

lemma loopInv_stop: "loopInv s \<Longrightarrow> loopInv (stopEventConsumer s)"
  unfolding stopEventConsumer_def loopInv_def
  by (auto simp: timersOk_def row_simps clearTimer_def split: option.splits)

lemma loopInv_tickBegin:
  assumes "timersOk s \<or> lsPending s = []" and "lsActive s = []" and "lsRunning s \<longleftrightarrow> \<not> lsShuttingDown s"
    and "lsRunning s \<or> timersOk s \<and> lsPending s = []"
  shows "loopInv (tickBegin s)"
  using assms
  by (auto simp: tickBegin_def loopInv_def timersOk_def row_simps clearTimer_def bootPending_def split: option.splits)

lemma loopInv_fires:
  assumes inv: "loopInv s" and t: "t \<in> set (lsPending s)"
  shows "loopInv (timerFires t s)"
proof -
  from inv t obtain i k d where one: "lsPending s = [(i, k, d)]" "t = (i, k, d)" "lsTimerId s = Some i"
    by (auto simp: loopInv_def timersOk_def split: option.splits)
  from inv one have run: "lsRunning s" "\<not> lsShuttingDown s" "lsActive s = []"
    by (auto simp: loopInv_def)
  show ?thesis
  proof (cases k)
    case BootTimer
    with inv one run show ?thesis
      by (auto simp: timerFires_def loopInv_def timersOk_def bootPending_def)
  next
    case TickTimer
    with one run show ?thesis
      by (auto simp: timerFires_def Let_def intro!: loopInv_tickBegin)
  qed
qed

lemma loopInv_synced: "loopInv s \<Longrightarrow> Syncing \<in> set (lsActive s) \<Longrightarrow> loopInv (syncFinished s)"
proof -
  assume inv: "loopInv s" and mem: "Syncing \<in> set (lsActive s)"
  then have act: "lsActive s = [Syncing]" "lsPending s = []"
    by (cases "lsActive s"; auto simp: loopInv_def)+
  show ?thesis
  proof (cases "lsShuttingDown s")
    case True
    with inv act show ?thesis by (auto simp: syncFinished_def Let_def loopInv_def)
  next
    case False
    with inv act have "lsRunning s" "timersOk s" by (auto simp: loopInv_def)
    with False act show ?thesis
      by (auto simp: syncFinished_def Let_def intro!: loopInv_tickBegin)
  qed
qed

lemma loopInv_ticked: "loopInv s \<Longrightarrow> Ticking \<in> set (lsActive s) \<Longrightarrow> loopInv (tickFinished pollMs full s)"
proof -
  assume inv: "loopInv s" and mem: "Ticking \<in> set (lsActive s)"
  then have "lsActive s = [Ticking]" "lsPending s = []"
    by (cases "lsActive s"; auto simp: loopInv_def)+
  with inv show ?thesis
    by (auto simp: tickFinished_def Let_def loopInv_def timersOk_def row_simps bootPending_def split: option.splits)
qed

lemma loopInv_step: "loopInv s \<Longrightarrow> loopStep True s s' \<Longrightarrow> loopInv s'"
  by (erule loopStepE)
    (auto intro: loopInv_start loopInv_wake loopInv_stop loopInv_fires loopInv_synced loopInv_ticked)

interpretation consumerLoop: machine "\<lambda>s. s = loopInit" "loopStep True" loopInv
proof unfold_locales
  fix s assume "s = loopInit"
  then show "loopInv s" by (simp add: loopInit_def loopInv_def timersOk_def)
next
  fix s s' assume "loopInv s" and "loopStep True s s'"
  then show "loopInv s'" by (rule loopInv_step)
qed

text \<open>
  C26. As long as the consumer is started again only after a stop has settled, there is never a second
  loop: at any time at most one timer is set or one activity (boot sync or tick) is under way, exactly
  one while the consumer runs (so the loop never dies), and none can start once it is shutting down.
\<close>

theorem consumer_has_one_loop:
  assumes "reachable (\<lambda>s. s = loopInit) (loopStep True) s"
  shows "length (lsPending s) + length (lsActive s) \<le> 1 \<and>
    (lsRunning s \<longrightarrow> length (lsPending s) + length (lsActive s) = 1) \<and>
    (lsShuttingDown s \<longrightarrow> lsPending s = [] \<and> \<not> lsRunning s)"
  using consumerLoop.inv_reachable [OF assms] by (auto simp: loopInv_def)

definition exampleConsumerOptions :: consumerOptions where
  "exampleConsumerOptions = \<lparr>eoTopics = None, eoRunInTestEnv = False, eoPollIntervalMs = None,
     eoBatchSize = None, eoHandlerTimeoutMs = None\<rparr>"

abbreviation exampleStarted :: loopState where
  "exampleStarted \<equiv> startEventConsumer exampleConsumerOptions (\<lambda>_. None) True loopInit"

lemma exampleStarted_reachable: "reachable (\<lambda>s. s = loopInit) (loopStep True) exampleStarted"
proof (rule reach_step)
  show "reachable (\<lambda>s. s = loopInit) (loopStep True) loopInit" by (rule reach_init) simp
  show "loopStep True loopInit exampleStarted" by (rule loopStart) (simp add: loopInit_def)
qed

lemma exampleStarted_running: "lsRunning exampleStarted"
  by code_simp

theorem consumer_has_one_loop_witness:
  "length (lsPending exampleStarted) + length (lsActive exampleStarted) = 1"
  using consumer_has_one_loop [OF exampleStarted_reachable] exampleStarted_running by blast

text \<open>Without that contract there can be two loops: stop and start while a tick is under way.\<close>

lemma restart_during_a_tick_makes_two_loops:
  "let s1 = startEventConsumer exampleConsumerOptions (\<lambda>_. None) True loopInit;
       s2 = syncFinished (timerFires (0, BootTimer, 0) s1);
       s3 = startEventConsumer exampleConsumerOptions (\<lambda>_. None) True (stopEventConsumer s2);
       s4 = tickFinished 5000 False s3
   in lsActive s2 = [Ticking] \<and> lsPending s4 = [(1, BootTimer, 0), (2, TickTimer, 5000)]"
  by code_simp

section \<open>Wakes\<close>

lemma wakes_in_flight: "lsRunning s \<Longrightarrow> \<not> lsShuttingDown s \<Longrightarrow> lsTickInFlight s \<Longrightarrow>
    (wakeEventConsumer ^^ Suc n) s = s\<lparr>lsWakeRequested := True\<rparr>"
  by (induction n) (simp_all add: wakeEventConsumer_def)

lemma wakes_idle:
  assumes "lsRunning s" and "\<not> lsShuttingDown s" and "\<not> lsTickInFlight s" and "timersOk s" and "lsActive s = []"
  shows "\<exists>i. lsPending ((wakeEventConsumer ^^ Suc n) s) = [(i, TickTimer, 0)] \<and>
    lsRunning ((wakeEventConsumer ^^ Suc n) s) \<and> \<not> lsShuttingDown ((wakeEventConsumer ^^ Suc n) s) \<and>
    \<not> lsTickInFlight ((wakeEventConsumer ^^ Suc n) s) \<and> timersOk ((wakeEventConsumer ^^ Suc n) s)"
proof -
  have one: "\<exists>i. lsPending (wakeEventConsumer x) = [(i, TickTimer, 0)] \<and> lsRunning (wakeEventConsumer x) \<and>
      \<not> lsShuttingDown (wakeEventConsumer x) \<and> \<not> lsTickInFlight (wakeEventConsumer x) \<and> timersOk (wakeEventConsumer x)"
    if "lsRunning x" "\<not> lsShuttingDown x" "\<not> lsTickInFlight x" "timersOk x" for x
    using that by (simp add: wakeEventConsumer_def row_simps fresh_timer)
  show ?thesis
  proof (induction n)
    case 0
    show ?case using one [OF assms(1-4)] by simp
  next
    case (Suc n)
    then obtain i where "lsRunning ((wakeEventConsumer ^^ Suc n) s)" "\<not> lsShuttingDown ((wakeEventConsumer ^^ Suc n) s)"
      "\<not> lsTickInFlight ((wakeEventConsumer ^^ Suc n) s)" "timersOk ((wakeEventConsumer ^^ Suc n) s)" by blast
    from one [OF this] show ?case by simp
  qed
qed

text \<open>
  Wakes coalesce and are never lost: after any positive number of wakes of a running consumer,
  either the boot is still to come or under way (which ends in a tick), or one tick is due at once, or a
  tick is under way whose end sets exactly one tick due at once, whether its batch was full or not.
\<close>

theorem wakes_coalesce:
  assumes reach: "reachable (\<lambda>s. s = loopInit) (loopStep True) s" and run: "lsRunning s"
  shows "let w = (wakeEventConsumer ^^ Suc n) s in
    (\<exists>i d. lsPending w = [(i, BootTimer, d)]) \<or> lsActive w = [Syncing] \<or>
    (\<exists>i. lsPending w = [(i, TickTimer, 0)]) \<or>
    (lsActive w = [Ticking] \<and> (\<forall>pollMs full. \<exists>i. lsPending (tickFinished pollMs full w) = [(i, TickTimer, 0)]))"
proof -
  from consumerLoop.inv_reachable [OF reach] have inv: "loopInv s" .
  then have nsh: "\<not> lsShuttingDown s" using run by (auto simp: loopInv_def)
  show ?thesis
  proof (cases "lsTickInFlight s")
    case False
    with inv run have "timersOk s" "lsActive s = []" by (auto simp: loopInv_def)
    from wakes_idle [OF run nsh False this] show ?thesis by (auto simp: Let_def)
  next
    case True
    have w: "(wakeEventConsumer ^^ Suc n) s = s\<lparr>lsWakeRequested := True\<rparr>"
      by (rule wakes_in_flight [OF run nsh True])
    from inv run True consider i d where "lsPending s = [(i, BootTimer, d)]" |
        a where "lsActive s = [a]" "lsPending s = []"
      by (cases "lsActive s") (auto simp: loopInv_def bootPending_def)
    then show ?thesis
    proof cases
      case 1
      then show ?thesis unfolding w Let_def by simp
    next
      case 2
      with nsh show ?thesis
        unfolding w Let_def by (cases a) (simp_all add: tickFinished_def row_simps)
    qed
  qed
qed

theorem wakes_coalesce_witness:
  "\<exists>i d. lsPending ((wakeEventConsumer ^^ Suc 3) exampleStarted) = [(i, BootTimer, d)]"
proof -
  have "lsActive ((wakeEventConsumer ^^ Suc 3) exampleStarted) = []"
    "fst (snd (hd (lsPending ((wakeEventConsumer ^^ Suc 3) exampleStarted)))) = BootTimer" by code_simp+
  with wakes_coalesce [OF exampleStarted_reachable exampleStarted_running, of 3] show ?thesis
    by (auto simp: Let_def)
qed

section \<open>A claim is not reaped while its pod still works on the batch\<close>

text \<open>
  \<open>forEachLimited\<close> in time: \<open>limit\<close> workers, each of which takes the next item when it is done with
  one. The list holds the times the workers are free, in order; an item's entry is when it starts and
  when it ends.
\<close>

fun sched :: "int list \<Rightarrow> int list \<Rightarrow> (int \<times> int) list" where
  "sched (f # fs) (d # ds) = (f, f + d) # sched (insort (f + d) fs) ds"
| "sched fs ds = []"

definition forEachLimited :: "int \<Rightarrow> int \<Rightarrow> int list \<Rightarrow> (int \<times> int) list" where
  "forEachLimited startedAt limit durations =
     sched (replicate (nat (min limit (int (length durations)))) startedAt) durations"

lemma insort_le:
  assumes "sorted xs" and "\<And>i. i < length xs \<Longrightarrow> xs ! i \<le> h i" and "mono h" and "x \<le> h (length xs)"
    and "i \<le> length xs"
  shows "insort x xs ! i \<le> (h i :: int)"
  using assms
proof (induction xs arbitrary: h i)
  case (Cons y ys)
  show ?case
  proof (cases "x \<le> y")
    case True
    show ?thesis
    proof (cases i)
      case 0
      with True Cons.prems(2) [of 0] show ?thesis by simp
    next
      case (Suc j)
      with Cons.prems(2) [of j] Cons.prems(5) monoD [OF Cons.prems(3), of j i] True show ?thesis by simp
    qed
  next
    case False
    show ?thesis
    proof (cases i)
      case 0
      with False Cons.prems(2) [of 0] show ?thesis by simp
    next
      case (Suc j)
      have "insort x ys ! j \<le> h (Suc j)"
      proof (rule Cons.IH [of "\<lambda>i. h (Suc i)"])
        show "mono (\<lambda>i. h (Suc i))" using Cons.prems(3) by (auto simp: mono_def)
        fix k assume "k < length ys"
        then show "ys ! k \<le> h (Suc k)" using Cons.prems(2) [of "Suc k"] by simp
      qed (use Cons.prems Suc in auto)
      with False Suc show ?thesis by simp
    qed
  qed
qed simp

lemma sched_starts:
  assumes "sorted fs" and "fs \<noteq> []" and "\<And>i. i < length fs \<Longrightarrow> fs ! i \<le> g (k + i)" and "mono g"
    and "\<And>i. g i + T = g (i + length fs)" and "\<forall>d\<in>set ds. d \<le> T" and "i < length ds"
  shows "length (sched fs ds) = length ds \<and> snd (sched fs ds ! i) \<le> (g (k + i) :: int) + T"
  using assms
proof (induction ds arbitrary: fs k i)
  case (Cons d ds)
  then obtain f fs' where fs: "fs = f # fs'" by (cases fs) auto
  let ?fs = "insort (f + d) fs'"
  have f: "f \<le> g k" using Cons.prems(3) [of 0] fs by simp
  have ge: "f + d \<le> g (k + length fs)" using f Cons.prems(6) Cons.prems(5) [of k] by simp
  have len: "length ?fs = length fs" by (simp add: fs)
  have bound: "?fs ! j \<le> g (Suc k + j)" if "j < length ?fs" for j
  proof (rule insort_le [where h = "\<lambda>j. g (Suc k + j)"])
    show "sorted fs'" using Cons.prems(1) fs by simp
    show "mono (\<lambda>j. g (Suc k + j))" using Cons.prems(4) by (auto simp: mono_def)
    show "f + d \<le> g (Suc k + length fs')" using ge fs by simp
    show "j \<le> length fs'" using that by simp
    fix i assume "i < length fs'"
    then show "fs' ! i \<le> g (Suc k + i)" using Cons.prems(3) [of "Suc i"] fs by simp
  qed
  have rest: "length (sched ?fs ds) = length ds \<and> snd (sched ?fs ds ! j) \<le> g (Suc k + j) + T"
    if "j < length ds" for j
  proof (rule Cons.IH)
    show "sorted ?fs" using Cons.prems(1) fs by (simp add: sorted_insort)
    show "?fs \<noteq> []" by (cases fs') auto
    show "\<And>i. g i + T = g (i + length ?fs)" unfolding len by (rule Cons.prems(5))
    show "\<forall>d\<in>set ds. d \<le> T" using Cons.prems(6) by simp
  qed (use that bound Cons.prems(4) in auto)
  have "length (sched ?fs ds) = length ds" using rest by (cases ds) auto
  moreover have "snd (sched fs (d # ds) ! i) \<le> g (k + i) + T"
  proof (cases i)
    case 0
    with f Cons.prems(6) show ?thesis by (simp add: fs)
  next
    case (Suc j)
    with rest [of j] Cons.prems(7) show ?thesis by (simp add: fs)
  qed
  ultimately show ?case by (simp add: fs)
qed simp

lemma sched_length: "fs \<noteq> [] \<Longrightarrow> length (sched fs ds) = length ds"
proof (induction ds arbitrary: fs)
  case (Cons d ds)
  then obtain f fs' where fs: "fs = f # fs'" by (cases fs) auto
  have "insort (f + d) fs' \<noteq> []" by (cases fs') auto
  from Cons.IH [OF this] show ?case by (simp add: fs)
qed simp

lemma forEachLimited_ends:
  assumes "0 < limit" and "0 \<le> T" and "\<forall>d\<in>set ds. d \<le> T" and "i < length ds"
  shows "snd (forEachLimited t0 limit ds ! i) \<le> t0 + \<lceil>of_int (int (length ds)) / (of_int limit :: rat)\<rceil> * T"
proof -
  let ?n = "int (length ds)" and ?L = "nat (min limit (int (length ds)))"
  let ?g = "\<lambda>j. t0 + int (j div ?L) * T"
  have n: "0 < ?n" using assms(4) by linarith
  have L: "0 < ?L" using assms(1) n by simp
  have 1: "snd (sched (replicate ?L t0) ds ! i) \<le> ?g (0 + i) + T"
  proof (rule sched_starts [THEN conjunct2])
    show "mono ?g" using assms(2) by (auto simp: mono_def div_le_mono intro!: mult_right_mono)
    show "?g j + T = ?g (j + length (replicate ?L t0))" for j
    proof -
      have "(j + ?L) div ?L = Suc (j div ?L)" using div_add_self2 [of ?L j] L by linarith
      then show ?thesis unfolding length_replicate by (simp add: algebra_simps)
    qed
  qed (use L assms(3,4) in auto)
  have "int (i div ?L) + 1 \<le> \<lceil>of_int ?n / (of_int limit :: rat)\<rceil>"
  proof (cases "limit \<le> ?n")
    case True
    then have "int ?L = limit" using assms(1) by simp
    have "int (i div ?L) * limit \<le> int i" using \<open>int ?L = limit\<close> by (metis of_nat_mono of_nat_mult times_div_less_eq_dividend mult.commute)
    then have "int (i div ?L) * limit < ?n" using assms(4) by linarith
    then have "of_int (int (i div ?L)) * of_int limit < (of_int ?n :: rat)"
      by (metis of_int_less_iff of_int_mult)
    then have "of_int (int (i div ?L)) < (of_int ?n / of_int limit :: rat)"
      using assms(1) by (simp add: pos_less_divide_eq)
    then have "int (i div ?L) < \<lceil>of_int ?n / (of_int limit :: rat)\<rceil>" by (simp add: less_ceiling_iff)
    then show ?thesis by simp
  next
    case False
    then have "?L = length ds" by simp
    then have "i div ?L = 0" using assms(4) by simp
    moreover have "0 < (of_int ?n / of_int limit :: rat)" using n assms(1) by simp
    then have "0 < \<lceil>of_int ?n / (of_int limit :: rat)\<rceil>" by simp
    ultimately show ?thesis by simp
  qed
  then have "(int (i div ?L) + 1) * T \<le> \<lceil>of_int ?n / (of_int limit :: rat)\<rceil> * T"
    using assms(2) by (rule mult_right_mono)
  with 1 show ?thesis by (simp add: forEachLimited_def algebra_simps)
qed

text \<open>
  The stale-claim threshold never falls below what a batch can take: when every delivery of a
  claimed batch is done within one handler timeout plus one status write, the last of them is done at
  least a minute before any pod's reaper would take the claim for stale, whatever the batch size,
  concurrency, timeout and threshold are tuned to.
\<close>

theorem stale_threshold_covers_the_batch:
  assumes "length ds \<le> nat (batchSize o' env)" and "i < length ds"
    and "\<forall>d\<in>set ds. d \<le> handlerTimeoutMs o' env + WRITE_TIMEOUT_MS" and "0 \<le> handlerTimeoutMs o' env"
    and "t \<le> snd (forEachLimited claimedAt (concurrency env) ds ! i) + 60000" and "delClaimedAt d = Some claimedAt"
  shows "length (forEachLimited claimedAt (concurrency env) ds) = length ds \<and>
    \<not> stale (t - max 0 (staleClaimMs o' env)) db d"
proof -
  let ?T = "handlerTimeoutMs o' env + WRITE_TIMEOUT_MS"
  have c: "0 < concurrency env" using envInt_bounds [of 1 DEFAULT_CONCURRENCY 32 "env ''EVENTS_CONCURRENCY''"]
    by (simp add: concurrency_def DEFAULT_CONCURRENCY_def)
  have T: "0 \<le> ?T" using assms(4) by (simp add: WRITE_TIMEOUT_MS_def)
  let ?r = "\<lceil>of_int (int (length ds)) / (of_int (concurrency env) :: rat)\<rceil>"
  let ?R = "\<lceil>of_int (batchSize o' env) / (of_int (concurrency env) :: rat)\<rceil>"
  have "int (length ds) \<le> batchSize o' env" using assms(1,2) by linarith
  then have "of_int (int (length ds)) / (of_int (concurrency env) :: rat) \<le> of_int (batchSize o' env) / of_int (concurrency env)"
    using c by (intro divide_right_mono) (simp_all only: of_int_le_iff of_int_0_le_iff less_imp_le)
  then have "?r \<le> ?R" by (rule ceiling_mono)
  then have "?r * ?T \<le> ?R * ?T" using T by (rule mult_right_mono)
  with forEachLimited_ends [OF c T assms(3,2), of claimedAt]
  have "snd (forEachLimited claimedAt (concurrency env) ds ! i) \<le> claimedAt + ?R * ?T" by linarith
  with assms(5) have "t - staleClaimMs o' env \<le> claimedAt"
    by (auto simp: staleClaimMs_def staleClaimFloorMs_def STALE_CLAIM_SLACK_MS_def Let_def)
  then have "\<not> claimedAt < t - max 0 (staleClaimMs o' env)" by linarith
  moreover have "length (forEachLimited claimedAt (concurrency env) ds) = length ds"
  proof -
    have "nat (min (concurrency env) (int (length ds))) \<noteq> 0" using c assms(2) by simp
    then show ?thesis unfolding forEachLimited_def by (intro sched_length) simp
  qed
  ultimately show ?thesis using assms(6) by (simp add: stale_def)
qed

theorem stale_threshold_covers_the_batch_witness:
  "\<not> stale (90000 - max 0 (staleClaimMs exampleConsumerOptions (\<lambda>_. None))) exampleDb
      (exampleDelivery\<lparr>delClaimedAt := Some 0\<rparr>)"
proof -
  have b: "batchSize exampleConsumerOptions (\<lambda>_. None) = 25"
    "handlerTimeoutMs exampleConsumerOptions (\<lambda>_. None) = 30000" "concurrency (\<lambda>_. None) = 4"
    by (simp_all add: batchSize_def handlerTimeoutMs_def concurrency_def exampleConsumerOptions_def orElse_def
        envInt_def DEFAULT_BATCH_SIZE_def DEFAULT_HANDLER_TIMEOUT_MS_def DEFAULT_CONCURRENCY_def)
  have "snd (forEachLimited 0 4 [30000, 100] ! 0) = 30000" by code_simp
  then show ?thesis
    using stale_threshold_covers_the_batch [of "[30000, 100]" exampleConsumerOptions "\<lambda>_. None" 0 90000 0
        "exampleDelivery\<lparr>delClaimedAt := Some 0\<rparr>" exampleDb]
    by (simp add: b WRITE_TIMEOUT_MS_def)
qed

section \<open>What a batch comes to\<close>

definition countTotal :: "drainCounts \<Rightarrow> nat" where
  "countTotal n = dcDone n + dcSkipped n + dcReleased n + dcFailed n + dcDead n"

lemma countOutcome_total: "countTotal (countOutcome out n) = Suc (countTotal n)"
  by (cases out) (simp_all add: countOutcome_def countTotal_def)

lemma processBatch_total: "countTotal (snd (processBatch te claimed db)) = length claimed"
proof -
  have "countTotal (snd (fold (\<lambda>c (x, n). case processDelivery (teRegistry te)
              ((teProcess te c)\<lparr>peHandlerTimeoutMs := Some (handlerTimeoutMs (teOptions te) (teVars te))\<rparr>) c x of
            (x', out) \<Rightarrow> (x', countOutcome out n)) claimed (x, n))) = countTotal n + length claimed" for x n
    by (induction claimed arbitrary: x n) (auto simp: countOutcome_total split: prod.splits)
  from this [of db noCounts] show ?thesis by (simp add: processBatch_def noCounts_def countTotal_def)
qed

lemma claimed_is_runnable:
  assumes "c \<in> set (snd (claimTransaction pj locked batch opts now db))"
    and "coRunnableHandlers opts = Some hs" and "cdKind c = KHandler"
  shows "(evTopic (cdEvent c), cdHandler c) \<in> set hs"
  using assms(1)
proof (rule claim_returned)
  fix d e s
  assume d: "d \<in> set (picked locked batch opts now db)" "eventOf db d = Some e" "subscriptionOf db d = Some s"
    and c: "c = toClaimedDelivery pj (coClaimedBy opts) e s (claimRow (coClaimedBy opts) now d)"
  from picked_facts(2) [OF d(1)] d(2,3) have "handlerFilter opts e s" by (simp add: claimable_def)
  with assms(2,3) show ?thesis by (simp add: handlerFilter_def c toClaimedDelivery_def)
qed

lemma registryGet_runnable: "(t, h) \<in> set (getRunnableHandlers reg) \<Longrightarrow> registryGet reg t h \<noteq> None"
  by (auto simp: getRunnableHandlers_def registryGet_def find_None_iff_all)

lemma length_claims: "length (snd (claimTransaction pj locked batch opts now db)) \<le> claimLimit batch"
  using claim_ids [of pj locked batch opts now db] picked_limit [of locked batch opts now db]
  by (metis length_map)

text \<open>
  A drained batch is accounted for completely: the five counters add up to the deliveries claimed,
  which are no more than the batch size allows; and no delivery is claimed for a handler this process
  has not registered, so none is released for want of one.
\<close>

theorem drained_batch_is_accounted:
  assumes "drainOnce te db = (db', Inr (n, counts))"
  shows "countTotal counts = n \<and> n \<le> claimLimit (batchSize (teOptions te) (teVars te)) \<and>
    (\<exists>claims. snd (drainClaims te db) = Inr claims \<and> length claims = n \<and>
       (\<forall>c\<in>set claims. cdKind c = KHandler \<longrightarrow>
          registryGet (teRegistry te) (evTopic (cdEvent c)) (cdHandler c) \<noteq> None))"
proof -
  from assms obtain claims where cl: "snd (drainClaims te db) = Inr claims"
    by (cases "drainClaims te db") (auto simp: drainOnce_def split: sum.splits)
  have n: "length claims = n" "countTotal counts = n"
  proof -
    obtain db1 where d: "drainClaims te db = (db1, Inr claims)" using cl by (cases "drainClaims te db") auto
    show "length claims = n" using assms d by (auto simp: drainOnce_def split: prod.splits if_splits)
    show "countTotal counts = n"
      using assms d processBatch_total [of te claims db1]
      by (auto simp: drainOnce_def noCounts_def countTotal_def split: prod.splits if_splits)
  qed
  let ?o = "\<lparr>coClaimedBy = teConsumerId te, coTopics = eoTopics (teOptions te),
        coRunnableHandlers = Some (getRunnableHandlers (teRegistry te)), coTimeoutMs = None\<rparr>"
  from cl have "claims = snd (claimTransaction (teParseJson te) (teLocked te)
      (batchSize (teOptions te) (teVars te)) ?o (teNow te) db)"
    by (auto simp: drainClaims_def claimDeliveries_def split: claimTiming.splits prod.splits)
  with length_claims claimed_is_runnable registryGet_runnable cl n show ?thesis by fastforce
qed

definition exampleTick :: tickEnv where
  "exampleTick = \<lparr>teOptions = exampleConsumerOptions, teVars = (\<lambda>_. None), teConsumerId = ''pod-1'',
     teRegistry = [exampleHandler], teParseJson = (\<lambda>_. None), teLocked = {}, teTiming = InTime, teNow = 10,
     teProcess = (\<lambda>_. exampleEnv)\<rparr>"

theorem drained_batch_is_accounted_witness:
  "\<exists>db' counts. drainOnce exampleTick exampleDb = (db', Inr (1, counts)) \<and> countTotal counts = 1 \<and> dcDone counts = 1"
proof -
  have shape: "map_sum (\<lambda>_. 0 :: nat) (\<lambda>(n, c). (n, dcDone c)) (snd (drainOnce exampleTick exampleDb)) = Inr (1, 1 :: nat)"
    by code_simp
  then obtain counts where r: "snd (drainOnce exampleTick exampleDb) = Inr (1, counts)" and d: "dcDone counts = 1"
    by (cases "snd (drainOnce exampleTick exampleDb)") auto
  then have eq: "drainOnce exampleTick exampleDb = (fst (drainOnce exampleTick exampleDb), Inr (1, counts))"
    by (metis prod.collapse)
  from drained_batch_is_accounted [OF eq] eq d show ?thesis by blast
qed

end
