(* ===== verification/EventInbox.thy ===== *)
theory EventInbox
  imports EventPublishing JsNumber
begin

text \<open>
  \<^verbatim>\<open>src/api/routes/events/index.ts\<close>: the route through which events from outside enter the log. The
  JSON parser of the runtime (\<open>parseJson\<close>, \<open>None\<close> where it throws) and the HMAC are parameters; the
  schema is what zod checks of the parsed value, with its first issue's text left out of the error.
\<close>

definition INBOX_MAX_BODY_BYTES :: int where
  "INBOX_MAX_BODY_BYTES = 1024 * 1024"

definition utf8Length :: "string \<Rightarrow> int" where
  "utf8Length s = sum_list (map (\<lambda>c. if code c < 128 then 1 else 2) s)"

text \<open>zod's \<open>uuid()\<close>: 8, 4, 4, 4 and 12 hexadecimal digits joined by hyphens.\<close>

definition uuidShape :: "string \<Rightarrow> bool" where
  "uuidShape s \<longleftrightarrow>
     (let ws = splitOn (CHR ''-'') s in
      map length ws = [8, 4, 4, 4, 12] \<and> list_all (list_all (\<lambda>c. hexDigitVal c \<noteq> None)) ws)"

record inboxEvent =
  ieId :: string
  ieTopic :: string
  ieKey :: "string option"
  iePayload :: "json option"
  ieSource :: eventSource

definition parseKey :: "json option \<Rightarrow> string option option" where
  "parseKey v =
     (case v of
        None \<Rightarrow> Some None
      | Some JNull \<Rightarrow> Some None
      | Some (JStr k) \<Rightarrow> if length k \<le> 500 then Some (Some k) else None
      | Some _ \<Rightarrow> None)"

definition parsePayload :: "json option \<Rightarrow> json option option" where
  "parsePayload v =
     (case v of None \<Rightarrow> Some None | Some (JObj kvs) \<Rightarrow> Some (Some (JObj kvs)) | Some _ \<Rightarrow> None)"

definition parseSource :: "json option \<Rightarrow> eventSource option" where
  "parseSource v =
     (case v of
        Some (JStr s) \<Rightarrow> if s = ''platform'' then Some Platform else if s = ''external'' then Some External else None
      | _ \<Rightarrow> None)"

text \<open>\<open>inboxEventSchema.safeParse\<close>; keys the schema does not name are dropped.\<close>

definition inboxEventSchema :: "json \<Rightarrow> inboxEvent option" where
  "inboxEventSchema v =
     (case v of
        JObj kvs \<Rightarrow>
          (case (map_of kvs ''id'', map_of kvs ''topic'', parseKey (map_of kvs ''key''),
                 parsePayload (map_of kvs ''payload''), parseSource (map_of kvs ''source'')) of
             (Some (JStr i), Some (JStr t), Some k, Some p, Some src) \<Rightarrow>
               if uuidShape i \<and> 3 \<le> length t \<and> length t \<le> 200
               then Some \<lparr>ieId = i, ieTopic = t, ieKey = k, iePayload = p, ieSource = src\<rparr> else None
           | _ \<Rightarrow> None)
      | _ \<Rightarrow> None)"

definition toleranceSeconds :: "string option \<Rightarrow> int" where
  "toleranceSeconds raw =
     (case jsNumber (case raw of Some r \<Rightarrow> r | None \<Rightarrow> []) of
        None \<Rightarrow> DEFAULT_TIMESTAMP_TOLERANCE_S
      | Some n \<Rightarrow> if n \<le> 0 then DEFAULT_TIMESTAMP_TOLERANCE_S else min (60 * 60) \<lfloor>n\<rfloor>)"

record inboxRequest =
  irBody :: string
  irTimestamp :: "string option"
  irSignature :: "string option"

datatype inboxResponse =
    Accepted nat uuid bool nat
  | TooLarge
  | Refused appError

definition badSignature :: appError where
  "badSignature = UnauthorizedError ''Invalid or missing event signature''"

text \<open>What \<open>publishEvent\<close> throws for a malformed topic is a 400 here; anything else is passed on.\<close>

definition publishError :: "appError \<Rightarrow> appError" where
  "publishError e =
     (case e of PlainError m \<Rightarrow> if strIncludes m ''must be noun.past_tense'' then BadRequestError m else e
      | _ \<Rightarrow> e)"

definition eventsInbox ::
    "platform \<Rightarrow> (string \<Rightarrow> json option) \<Rightarrow> (uuid \<Rightarrow> uuid) \<Rightarrow> ms \<Rightarrow> ms \<Rightarrow> inboxRequest \<Rightarrow> eventsDb
      \<Rightarrow> eventsDb \<times> inboxResponse" where
  "eventsInbox pf parseJson deliveryId nowMs dbNow req db =
     (if utf8Length (irBody req) > INBOX_MAX_BODY_BYTES then (db, TooLarge)
      else (case readSecret pf ''EVENTS_INBOX_SECRET'' of
          None \<Rightarrow> (db, Refused badSignature)
        | Some secret \<Rightarrow>
      (case verifyEventSignature (pfHmacHex pf) secret (irBody req) (irTimestamp req) (irSignature req) nowMs
              (Some (toleranceSeconds (pfEnv pf ''EVENTS_INBOX_TOLERANCE_S''))) of
          Inl _ \<Rightarrow> (db, Refused badSignature)
        | Inr _ \<Rightarrow>
      (case parseJson (irBody req) of
          None \<Rightarrow> (db, Refused (BadRequestError ''Body must be JSON''))
        | Some j \<Rightarrow>
      (case inboxEventSchema j of
          None \<Rightarrow> (db, Refused (BadRequestError ''Invalid event''))
        | Some ev \<Rightarrow>
      (case publishEvent (ieId ev) deliveryId dbNow
              \<lparr>inTopic = ieTopic ev, inKey = ieKey ev,
               inPayload = Some (case iePayload ev of Some p \<Rightarrow> p | None \<Rightarrow> JObj []),
               inSource = Some (ieSource ev), inOrg = None, inId = Some (ieId ev)\<rparr> db of
          Inl e \<Rightarrow> (db, Refused (publishError e))
        | Inr (db', r) \<Rightarrow>
            (db', Accepted (if prInserted r then 201 else 200) (prId r) (prInserted r) (prDeliveries r))))))))"

section \<open>Properties\<close>

lemma toleranceSeconds_bounds: "0 \<le> toleranceSeconds raw \<and> toleranceSeconds raw \<le> 3600"
  by (auto simp: toleranceSeconds_def DEFAULT_TIMESTAMP_TOLERANCE_S_def split: option.splits)

lemma publish_id:
  "publishEvent newId did now inp db = Inr (db', r) \<Longrightarrow> inId inp = Some i \<Longrightarrow> prId r = i"
  by (auto simp: publishEvent_def ebind_Inr_iff Let_def insertOnConflictDoNothing_def
      split: prod.splits if_splits)

lemma publish_inbox:
  assumes "publishEvent newId did now inp db = Inr (db', r)" and "inOrg inp = None" and "inId inp = Some i"
  shows "prId r = i \<and>
    (\<forall>e\<in>set (events db'). e \<in> set (events db) \<or> (evId e = i \<and> evOrg e = None)) \<and>
    (\<forall>d\<in>set (deliveries db'). d \<in> set (deliveries db) \<or>
       delEvent d = i \<and> (\<exists>s\<in>set (subscriptions db). subId s = delSub d \<and> subOrg s = None))"
proof -
  have "prId r = i"
    using assms(1,3) by (rule publish_id)
  with assms(1) show ?thesis
  proof (cases rule: publish_new_cases)
    case (2 e)
    with assms(2) \<open>prId r = i\<close> show ?thesis by (auto simp: newDelivery_def subscriptionMatches_def)
  qed simp
qed

text \<open>
  The inbox fails closed and stays inside the deployment: unless the secret is set and the signature
  over the raw body verifies within a tolerance of at most an hour, nothing is written and the answer is
  an error; what is written is one event under the sender's id with no organization, delivered only to
  subscriptions with none; and an accepted request that is sent again is answered 200 and writes nothing.
\<close>

theorem inbox_fails_closed:
  assumes "eventsInbox pf parseJson did nowMs dbNow req db = (db', resp)"
  shows "(db' = db \<or>
      (\<exists>secret tol i. pfEnv pf ''EVENTS_INBOX_SECRET'' = Some secret \<and> secret \<noteq> [] \<and> tol \<le> 3600 \<and>
         verifyEventSignature (pfHmacHex pf) secret (irBody req) (irTimestamp req) (irSignature req) nowMs (Some tol)
           = Inr () \<and>
         (\<exists>n. resp = Accepted 201 i True n) \<and>
         (\<forall>e\<in>set (events db'). e \<in> set (events db) \<or> (evId e = i \<and> evOrg e = None)) \<and>
         (\<forall>d\<in>set (deliveries db'). d \<in> set (deliveries db) \<or>
            delEvent d = i \<and> (\<exists>s\<in>set (subscriptions db). subId s = delSub d \<and> subOrg s = None)))) \<and>
    (\<forall>st i b n. resp = Accepted st i b n \<longrightarrow>
       (\<forall>did' dbNow'. eventsInbox pf parseJson did' nowMs dbNow' req db' = (db', Accepted 200 i False 0)))"
proof (cases "\<exists>st i b n. resp = Accepted st i b n")
  case False
  with assms have "db' = db"
    by (auto simp: eventsInbox_def split: if_splits option.splits sum.splits)
  with False show ?thesis by blast
next
  case True
  let ?tol = "toleranceSeconds (pfEnv pf ''EVENTS_INBOX_TOLERANCE_S'')"
  let ?inp = "\<lambda>ev. \<lparr>inTopic = ieTopic ev, inKey = ieKey ev,
               inPayload = Some (case iePayload ev of Some p \<Rightarrow> p | None \<Rightarrow> JObj []),
               inSource = Some (ieSource ev), inOrg = None, inId = Some (ieId ev)\<rparr>"
  from True assms obtain secret j ev r where
    size: "\<not> utf8Length (irBody req) > INBOX_MAX_BODY_BYTES" and
    sec: "readSecret pf ''EVENTS_INBOX_SECRET'' = Some secret" and
    ver: "verifyEventSignature (pfHmacHex pf) secret (irBody req) (irTimestamp req) (irSignature req) nowMs (Some ?tol) = Inr ()" and
    js: "parseJson (irBody req) = Some j" "inboxEventSchema j = Some ev" and
    pub: "publishEvent (ieId ev) did dbNow (?inp ev) db = Inr (db', r)" and
    resp: "resp = Accepted (if prInserted r then 201 else 200) (prId r) (prInserted r) (prDeliveries r)"
    by (auto simp: eventsInbox_def split: if_splits option.splits sum.splits)
  from pub have i: "prId r = ieId ev" by (rule publish_id) simp
  have again: "publishEvent (ieId ev) did' dbNow' (?inp ev) db' =
      Inr (db', \<lparr>prId = ieId ev, prTopic = ieTopic ev, prDeliveries = 0, prInserted = False\<rparr>)" for did' dbNow'
    using pub
    by (auto simp: publishEvent_def ebind_Inr_iff Let_def insertOnConflictDoNothing_def guard_def
        split: prod.splits if_splits)
  have "eventsInbox pf parseJson did' nowMs dbNow' req db' = (db', Accepted 200 (ieId ev) False 0)" for did' dbNow'
    using size sec ver js by (simp add: eventsInbox_def again)
  then have 2: "\<forall>st i b n. resp = Accepted st i b n \<longrightarrow>
       (\<forall>did' dbNow'. eventsInbox pf parseJson did' nowMs dbNow' req db' = (db', Accepted 200 i False 0))"
    by (auto simp: resp i)
  show ?thesis
  proof (cases "prInserted r")
    case False
    with pub have "db' = db" by (cases rule: publish_new_cases) auto
    with 2 show ?thesis by blast
  next
    case ins: True
    from sec have "pfEnv pf ''EVENTS_INBOX_SECRET'' = Some secret" "secret \<noteq> []"
      by (auto simp: readSecret_def split: option.splits if_splits)
    moreover have "?tol \<le> 3600" using toleranceSeconds_bounds by blast
    moreover have "resp = Accepted 201 (ieId ev) True (prDeliveries r)" using resp ins i by simp
    ultimately show ?thesis
      using ver 2 publish_inbox [OF pub, of "ieId ev"] by auto
  qed
qed

definition exampleInboxPlatform :: platform where
  "exampleInboxPlatform = examplePlatform\<lparr>pfHmacHex := (\<lambda>k m. replicate 64 (CHR ''a''))\<rparr>"

definition exampleInboxRequest :: inboxRequest where
  "exampleInboxRequest = \<lparr>irBody = ''{..}'', irTimestamp = Some ''1000'',
     irSignature = Some (''v1='' @ replicate 64 (CHR ''a''))\<rparr>"

definition exampleInboxJson :: json where
  "exampleInboxJson = JObj [(''id'', JStr ''01234567-89ab-cdef-0123-456789abcdef''), (''topic'', JStr ''deploy.finished''),
     (''source'', JStr ''platform''), (''organizationId'', JStr ''o1'')]"

theorem inbox_fails_closed_witness:
  "eventsInbox exampleInboxPlatform (\<lambda>_. Some exampleInboxJson) (\<lambda>_. ''d9'') 1000000 6 exampleInboxRequest
     (fst (eventsInbox exampleInboxPlatform (\<lambda>_. Some exampleInboxJson) (\<lambda>_. ''d1'') 1000000 5 exampleInboxRequest emptyDb)) =
   (fst (eventsInbox exampleInboxPlatform (\<lambda>_. Some exampleInboxJson) (\<lambda>_. ''d1'') 1000000 5 exampleInboxRequest emptyDb),
    Accepted 200 ''01234567-89ab-cdef-0123-456789abcdef'' False 0)"
proof -
  let ?r = "eventsInbox exampleInboxPlatform (\<lambda>_. Some exampleInboxJson) (\<lambda>_. ''d1'') 1000000 5 exampleInboxRequest emptyDb"
  have "snd ?r = Accepted 201 ''01234567-89ab-cdef-0123-456789abcdef'' True 0" by code_simp
  then have "?r = (fst ?r, Accepted 201 ''01234567-89ab-cdef-0123-456789abcdef'' True 0)" by (metis prod.collapse)
  from inbox_fails_closed [OF this] show ?thesis by blast
qed

end
