(* ===== verification/ClaimQueue.thy ===== *)
theory ClaimQueue
  imports Prelude
begin

text \<open>
  The claim idiom of the background workers: in one transaction \<^verbatim>\<open>SELECT ... WHERE due ORDER BY ...
  LIMIT n FOR UPDATE SKIP LOCKED\<close> and an \<^verbatim>\<open>UPDATE\<close> that marks what was selected. \<open>claim_queue\<close> is
  the contract a table offers its workers: a marked row is not due again while its lock holds.
\<close>

definition pickDue :: "('r \<Rightarrow> uuid) \<Rightarrow> ('r \<Rightarrow> bool) \<Rightarrow> ('r \<Rightarrow> 'k::linorder) \<Rightarrow> uuid set \<Rightarrow> nat \<Rightarrow> 'r list \<Rightarrow> 'r list" where
  "pickDue rid due ord locked n t = orderedLimit ord n (filter (\<lambda>r. due r \<and> rid r \<notin> locked) t)"

definition markRows :: "('r \<Rightarrow> uuid) \<Rightarrow> ('r \<Rightarrow> 'r) \<Rightarrow> 'r list \<Rightarrow> 'r list \<Rightarrow> 'r list" where
  "markRows rid mark rows t = updateWhere (\<lambda>r. rid r \<in> set (map rid rows)) mark t"

text \<open>An \<^verbatim>\<open>ORDER BY ... LIMIT\<close> that leaves a row out is full.\<close>

lemma orderedLimit_full:
  assumes "r \<in> set t" and "r \<notin> set (orderedLimit key n t)"
  shows "length (orderedLimit key n t) = n"
proof (rule ccontr)
  assume "length (orderedLimit key n t) \<noteq> n"
  then have "length t \<le> n" by (simp add: length_orderedLimit_eq)
  then have "orderedLimit key n t = sort_key key t" by (simp add: orderedLimit_def)
  with assms show False by simp
qed

locale claim_queue =
  fixes rid :: "'r \<Rightarrow> uuid" and due :: "ms \<Rightarrow> 'r \<Rightarrow> bool" and ord :: "'r \<Rightarrow> 'k::linorder"
    and mark :: "ms \<Rightarrow> 'r \<Rightarrow> 'r" and held :: "ms \<Rightarrow> 'r \<Rightarrow> bool" and hold :: ms
  assumes mark_rid: "rid (mark now r) = rid r"
    and mark_holds: "due now r \<Longrightarrow> held now (mark now r)"
    and held_not_due: "held now r \<Longrightarrow> now' \<le> now + hold \<Longrightarrow> \<not> due now' r"
begin

lemma pick_subset: "r \<in> set (pickDue rid (due now) ord locked n t) \<Longrightarrow> r \<in> set t \<and> due now r \<and> rid r \<notin> locked"
  unfolding pickDue_def using set_orderedLimit_subset by fastforce

lemma pick_bounds:
  "length (pickDue rid (due now) ord locked n t) \<le> n"
  "sorted (map ord (pickDue rid (due now) ord locked n t))"
  unfolding pickDue_def by (rule length_orderedLimit, rule sorted_orderedLimit)

lemma pick_distinct:
  "distinct (map rid t) \<Longrightarrow> distinct (map rid (pickDue rid (due now) ord locked n t))"
  unfolding pickDue_def by (rule distinct_map_orderedLimit) (simp add: distinct_map_filter)

lemma pick_minimal:
  assumes "r \<in> set (pickDue rid (due now) ord locked n t)"
    and "s \<in> set t" "due now s" "rid s \<notin> locked" "s \<notin> set (pickDue rid (due now) ord locked n t)"
  shows "ord r \<le> ord s"
  using assms unfolding pickDue_def by (rule_tac orderedLimit_minimal) auto

lemma pick_complete:
  assumes "s \<in> set t" "due now s" "rid s \<notin> locked" "s \<notin> set (pickDue rid (due now) ord locked n t)"
  shows "length (pickDue rid (due now) ord locked n t) = n"
    and "r \<in> set (pickDue rid (due now) ord locked n t) \<Longrightarrow> ord r \<le> ord s"
proof -
  show "length (pickDue rid (due now) ord locked n t) = n"
    unfolding pickDue_def by (rule orderedLimit_full [of s]) (use assms in \<open>simp_all add: pickDue_def\<close>)
  show "ord r \<le> ord s" if "r \<in> set (pickDue rid (due now) ord locked n t)"
    by (rule pick_minimal [OF that assms])
qed

lemma mark_ids: "map rid (markRows rid (mark now) rows t) = map rid t"
  unfolding markRows_def by (rule map_updateWhere) (rule mark_rid)

lemma marked_row:
  assumes "distinct (map rid t)" and "set rows \<subseteq> set t"
    and "r \<in> set (markRows rid (mark now) rows t)" and "rid r \<in> rid ` set rows"
  shows "\<exists>s\<in>set rows. r = mark now s"
proof -
  from assms(3) obtain s where s: "s \<in> set t" "r = (if rid s \<in> rid ` set rows then mark now s else s)"
    by (auto simp: markRows_def set_updateWhere)
  with assms(4) have "rid s \<in> rid ` set rows" by (auto split: if_splits)
  moreover from this s assms(1,2) have "s \<in> set rows" by (auto dest: distinct_key_eq)
  ultimately show ?thesis using s by auto
qed

lemma unmarked_row:
  "r \<in> set (markRows rid (mark now) rows t) \<Longrightarrow> rid r \<notin> rid ` set rows \<Longrightarrow> r \<in> set t"
  by (auto simp: markRows_def set_updateWhere mark_rid split: if_splits)

lemma marked_in:
  "r \<in> set rows \<Longrightarrow> set rows \<subseteq> set t \<Longrightarrow> mark now r \<in> set (markRows rid (mark now) rows t)"
  unfolding markRows_def set_updateWhere by (rule image_eqI [of _ _ r]) auto

lemma marked_is_held:
  assumes "distinct (map rid t)"
    and "r \<in> set (markRows rid (mark now) (pickDue rid (due now) ord locked n t) t)"
    and "rid r \<in> rid ` set (pickDue rid (due now) ord locked n t)"
  shows "held now r"
proof -
  have "set (pickDue rid (due now) ord locked n t) \<subseteq> set t" using pick_subset by blast
  from marked_row [OF assms(1) this assms(2,3)] show ?thesis
    using mark_holds pick_subset by blast
qed

lemma held_rows_are_not_picked:
  assumes "\<And>r. r \<in> set t \<Longrightarrow> rid r \<in> ids \<Longrightarrow> held now r" and "now' \<le> now + hold"
  shows "ids \<inter> rid ` set (pickDue rid (due now') ord locked n t) = {}"
proof -
  have "rid r \<notin> ids" if "r \<in> set (pickDue rid (due now') ord locked n t)" for r
    using pick_subset [OF that] assms held_not_due by blast
  then show ?thesis by blast
qed

lemma concurrent_picks_disjoint:
  assumes "rid ` set (pickDue rid (due now) ord locked n t) \<subseteq> locked'"
  shows "rid ` set (pickDue rid (due now) ord locked n t) \<inter> rid ` set (pickDue rid (due now') ord locked' n' t) = {}"
proof -
  have "rid ` set (pickDue rid (due now') ord locked' n' t) \<inter> locked' = {}"
    using pick_subset by blast
  with assms show ?thesis by blast
qed

end

end
