(* ===== verification/Outbox.thy ===== *)
theory Outbox
  imports ClaimQueue JsText
begin

text \<open>
  \<^verbatim>\<open>src/services/email-outbox.service.ts\<close>: the queue of outgoing e-mail. The table is a list of rows in
  insertion order; the transport that sends one message (\<open>sendEmailImpl\<close>) is a parameter, as are the
  clocks and the generated ids. Foreign keys to organizations and users are left out.
\<close>

section \<open>Data\<close>

datatype outboxStatus = MailPending | MailSending | MailSent | MailFailed | MailCancelled

record outboxRow =
  obId :: uuid
  obOrg :: "uuid option"
  obUser :: "uuid option"
  obTo :: string
  obSubject :: string
  obText :: string
  obHtml :: "string option"
  obReplyTo :: "string option"
  obKey :: "string option"
  obSendAt :: ms
  obStatus :: outboxStatus
  obAttempts :: int
  obMaxAttempts :: int
  obLastError :: "string option"
  obLockedAt :: "ms option"
  obSentAt :: "ms option"
  obSource :: "string option"
  obCreatedAt :: ms

record enqueueEmailInput =
  eiTo :: string
  eiSubject :: string
  eiText :: string
  eiHtml :: "string option"
  eiReplyTo :: "string option"
  eiSendAt :: "ms option"
  eiKey :: "string option"
  eiOrg :: "uuid option"
  eiUser :: "uuid option"
  eiSource :: "string option"
  eiMaxAttempts :: "int option"

definition RETRY_BACKOFF_SECONDS :: "int list" where
  "RETRY_BACKOFF_SECONDS = [60, 300, 1800, 7200, 43200]"

definition STALE_LOCK_MS :: ms where
  "STALE_LOCK_MS = 10 * 60 * 1000"

text \<open>\<^verbatim>\<open>/^[^\s@]+@[^\s@]+\.[^\s@]+$/\<close>: one \<^verbatim>\<open>@\<close>, no space, and a dot strictly inside the domain.\<close>

definition EMAIL_RE :: "string \<Rightarrow> bool" where
  "EMAIL_RE s \<longleftrightarrow>
     (case splitOn (CHR ''@'') s of
        [l, d] \<Rightarrow> l \<noteq> [] \<and> \<not> list_ex jsSpace s \<and> CHR ''.'' \<in> set (butlast (tl d))
      | _ \<Rightarrow> False)"

section \<open>Enqueue, read, cancel\<close>

text \<open>\<open>input.idempotencyKey?.trim() || null\<close>\<close>

definition outboxKey :: "enqueueEmailInput \<Rightarrow> string option" where
  "outboxKey inp =
     (case eiKey inp of None \<Rightarrow> None | Some k \<Rightarrow> if trim k = [] then None else Some (trim k))"

definition newOutboxRow :: "uuid \<Rightarrow> ms \<Rightarrow> ms \<Rightarrow> enqueueEmailInput \<Rightarrow> outboxRow" where
  "newOutboxRow newId now dbNow inp =
     \<lparr>obId = newId, obOrg = eiOrg inp, obUser = eiUser inp, obTo = toLowerCase (trim (eiTo inp)),
      obSubject = trim (eiSubject inp), obText = eiText inp, obHtml = eiHtml inp, obReplyTo = eiReplyTo inp,
      obKey = outboxKey inp, obSendAt = (case eiSendAt inp of Some t \<Rightarrow> t | None \<Rightarrow> now), obStatus = MailPending,
      obAttempts = 0, obMaxAttempts = (case eiMaxAttempts inp of Some m \<Rightarrow> m | None \<Rightarrow> 5), obLastError = None,
      obLockedAt = None, obSentAt = None, obSource = eiSource inp, obCreatedAt = dbNow\<rparr>"

definition checkEmail :: "enqueueEmailInput \<Rightarrow> appError option" where
  "checkEmail inp =
     (if \<not> EMAIL_RE (toLowerCase (trim (eiTo inp)))
      then Some (BadRequestError (''Invalid recipient email '' @ quoted (eiTo inp)))
      else if trim (eiSubject inp) = [] then Some (BadRequestError ''Email subject is required'')
      else if trim (eiText inp) = [] then Some (BadRequestError ''Email text body is required'')
      else if (case eiMaxAttempts inp of Some m \<Rightarrow> m < 1 \<or> m > 20 | None \<Rightarrow> False)
      then Some (BadRequestError ''maxAttempts must be between 1 and 20'')
      else if (case outboxKey inp of Some k \<Rightarrow> length k > 512 | None \<Rightarrow> False)
      then Some (BadRequestError ''idempotencyKey must be 512 characters or fewer'')
      else None)"

text \<open>The answer is the table, the row and \<open>created\<close>. The key is unique among the rows that have one.\<close>

definition enqueueEmail ::
    "uuid \<Rightarrow> ms \<Rightarrow> ms \<Rightarrow> enqueueEmailInput \<Rightarrow> outboxRow list \<Rightarrow> appError + outboxRow list \<times> outboxRow \<times> bool" where
  "enqueueEmail newId now dbNow inp t =
     (case checkEmail inp of
        Some e \<Rightarrow> Inl e
      | None \<Rightarrow>
          (let row = newOutboxRow newId now dbNow inp in
           case outboxKey inp of
             None \<Rightarrow> Inr (t @ [row], row, True)
           | Some k \<Rightarrow>
               (case List.find (\<lambda>r. obKey r = Some k) t of
                  None \<Rightarrow> Inr (t @ [row], row, True)
                | Some existing \<Rightarrow> Inr (t, existing, False))))"

definition getOutboxEmail :: "uuid \<Rightarrow> outboxRow list \<Rightarrow> outboxRow option" where
  "getOutboxEmail i t = List.find (\<lambda>r. obId r = i) t"

text \<open>An organization filter is absent, \<open>null\<close> or an id.\<close>

definition listOutbox :: "uuid option option \<Rightarrow> outboxStatus option \<Rightarrow> int option \<Rightarrow> outboxRow list \<Rightarrow> outboxRow list" where
  "listOutbox org status limit t =
     orderedLimit (\<lambda>r. - obCreatedAt r) (nat (min (max (case limit of Some n \<Rightarrow> n | None \<Rightarrow> 50) 1) 500))
       (filter (\<lambda>r. (case org of None \<Rightarrow> True | Some x \<Rightarrow> obOrg r = x) \<and>
                    (case status of None \<Rightarrow> True | Some s \<Rightarrow> obStatus r = s)) t)"

definition cancelEmail :: "uuid \<Rightarrow> outboxRow list \<Rightarrow> outboxRow list \<times> bool" where
  "cancelEmail i t =
     (updateWhere (\<lambda>r. obId r = i \<and> obStatus r = MailPending) (\<lambda>r. r\<lparr>obStatus := MailCancelled\<rparr>) t,
      list_ex (\<lambda>r. obId r = i \<and> obStatus r = MailPending) t)"

section \<open>Delivery\<close>

definition backoffSecondsForAttempt :: "int \<Rightarrow> int" where
  "backoffSecondsForAttempt attempt =
     RETRY_BACKOFF_SECONDS ! nat (min (max attempt 1) (int (length RETRY_BACKOFF_SECONDS)) - 1)"

text \<open>
  \<^verbatim>\<open>/sender domain not verified|sender.{0,40}not verified/i\<close>. The first alternative is an instance of
  the second.
\<close>

definition isUnverifiedSenderRejection :: "string \<Rightarrow> bool" where
  "isUnverifiedSenderRejection m =
     (let s = toLowerCase m in
      list_ex (\<lambda>i. let r = drop (i + 6) s in
         startsWith (drop i s) ''sender'' \<and>
         list_ex (\<lambda>k. startsWith (drop k r) ''not verified'' \<and>
            list_all (\<lambda>c. c \<noteq> CHR 0x0A \<and> c \<noteq> CHR 0x0D) (take k r)) [0..<41])
        [0..<length s])"

definition dueEmail :: "ms \<Rightarrow> outboxRow \<Rightarrow> bool" where
  "dueEmail now r \<longleftrightarrow> obSendAt r \<le> now \<and>
     (obStatus r = MailPending \<or>
      (obStatus r = MailSending \<and> (case obLockedAt r of Some l \<Rightarrow> l < now - STALE_LOCK_MS | None \<Rightarrow> False)))"

definition startSending :: "ms \<Rightarrow> outboxRow \<Rightarrow> outboxRow" where
  "startSending now r = r\<lparr>obStatus := MailSending, obLockedAt := Some now, obAttempts := obAttempts r + 1\<rparr>"

definition deliverLimit :: "int option \<Rightarrow> nat" where
  "deliverLimit limit = nat (min (max (case limit of Some n \<Rightarrow> n | None \<Rightarrow> 50) 1) 500)"

text \<open>The claim's transaction. The rows it returns are the selected ones with the attempt counted.\<close>

definition claimDueEmails :: "uuid set \<Rightarrow> ms \<Rightarrow> int option \<Rightarrow> outboxRow list \<Rightarrow> outboxRow list \<times> outboxRow list" where
  "claimDueEmails locked now limit t =
     (let rows = pickDue obId (dueEmail now) obSendAt locked (deliverLimit limit) t
      in (markRows obId (startSending now) rows t, map (\<lambda>r. r\<lparr>obAttempts := obAttempts r + 1\<rparr>) rows))"

record outgoing =
  ogTo :: string
  ogSubject :: string
  ogText :: string
  ogHtml :: "string option"
  ogReplyTo :: "string option"
  ogOrg :: "uuid option"
  ogKind :: "string option"

definition messageOf :: "outboxRow \<Rightarrow> outgoing" where
  "messageOf r = \<lparr>ogTo = obTo r, ogSubject = obSubject r, ogText = obText r, ogHtml = obHtml r,
     ogReplyTo = obReplyTo r, ogOrg = obOrg r, ogKind = obSource r\<rparr>"

text \<open>
  What one send meets: what others write to the table before its status write, the message of the
  transport's error (none: the transport accepted the e-mail), and the errors of the two possible
  status writes. The error of the \<open>sent\<close> write is caught like the transport's own; the error of the write in the
  \<open>catch\<close> block leaves \<open>deliverDueEmails\<close>.
\<close>

record sendAttempt =
  saMeanwhile :: "outboxRow list \<Rightarrow> outboxRow list"
  saError :: "string option"
  saSentWriteError :: "string option"
  saCatchWriteError :: "string option"

record deliverResult =
  drClaimed :: nat
  drSent :: nat
  drRetried :: nat
  drFailed :: nat

definition sentRow :: "ms \<Rightarrow> outboxRow \<Rightarrow> outboxRow" where
  "sentRow now r = r\<lparr>obStatus := MailSent, obSentAt := Some now, obLockedAt := None, obLastError := None\<rparr>"

definition failedRow :: "string \<Rightarrow> outboxRow \<Rightarrow> outboxRow" where
  "failedRow m r = r\<lparr>obStatus := MailFailed, obLockedAt := None, obLastError := Some m\<rparr>"

definition retryRow :: "ms \<Rightarrow> string \<Rightarrow> outboxRow \<Rightarrow> outboxRow" where
  "retryRow retryAt m r = r\<lparr>obStatus := MailPending, obSendAt := retryAt, obLockedAt := None, obLastError := Some m\<rparr>"

definition unverifiedHint :: string where
  "unverifiedHint = '' -- retrying the same From cannot succeed. Verify the sending domain (or restore the platform sender), then re-enqueue.''"

text \<open>The \<open>catch\<close> block: the update of the row and the counter it belongs to.\<close>

definition onSendError :: "ms \<Rightarrow> string \<Rightarrow> outboxRow \<Rightarrow> (outboxRow \<Rightarrow> outboxRow) \<times> (deliverResult \<Rightarrow> deliverResult)" where
  "onSendError now m row =
     (if isUnverifiedSenderRejection m then (failedRow (m @ unverifiedHint), drFailed_update Suc)
      else if obAttempts row \<ge> obMaxAttempts row then (failedRow m, drFailed_update Suc)
      else (retryRow (now + backoffSecondsForAttempt (obAttempts row) * 1000) m, drRetried_update Suc))"

definition deliverOne ::
    "ms \<Rightarrow> sendAttempt \<Rightarrow> outboxRow \<Rightarrow> outboxRow list \<Rightarrow> deliverResult
      \<Rightarrow> outboxRow list \<times> outgoing list \<times> (string + deliverResult)" where
  "deliverOne now a row t res =
     (let t1 = saMeanwhile a t;
          accepted = (if saError a = None then [messageOf row] else [])
      in case (if saError a = None then saSentWriteError a else saError a) of
           None \<Rightarrow> (updateWhere (\<lambda>r. obId r = obId row) (sentRow now) t1, accepted, Inr (drSent_update Suc res))
         | Some m \<Rightarrow>
             (case saCatchWriteError a of
                Some e \<Rightarrow> (t1, accepted, Inl e)
              | None \<Rightarrow> (updateWhere (\<lambda>r. obId r = obId row) (fst (onSendError now m row)) t1, accepted,
                         Inr (snd (onSendError now m row) res))))"

fun deliverAll ::
    "ms \<Rightarrow> (outboxRow \<Rightarrow> sendAttempt) \<Rightarrow> outboxRow list \<Rightarrow> outboxRow list \<Rightarrow> deliverResult
      \<Rightarrow> outboxRow list \<times> outgoing list \<times> (string + deliverResult)" where
  "deliverAll now att [] t res = (t, [], Inr res)"
| "deliverAll now att (row # rows) t res =
     (case deliverOne now (att row) row t res of
        (t1, ms1, Inl e) \<Rightarrow> (t1, ms1, Inl e)
      | (t1, ms1, Inr res1) \<Rightarrow>
          (case deliverAll now att rows t1 res1 of (t2, ms2, r) \<Rightarrow> (t2, ms1 @ ms2, r)))"

definition deliverDueEmails ::
    "uuid set \<Rightarrow> (outboxRow \<Rightarrow> sendAttempt) \<Rightarrow> ms \<Rightarrow> int option \<Rightarrow> outboxRow list
      \<Rightarrow> outboxRow list \<times> outgoing list \<times> (string + deliverResult)" where
  "deliverDueEmails locked att now limit t =
     (case claimDueEmails locked now limit t of
        (t1, claimed) \<Rightarrow>
          deliverAll now att claimed t1 \<lparr>drClaimed = length claimed, drSent = 0, drRetried = 0, drFailed = 0\<rparr>)"

section \<open>The outbox as a claim queue\<close>

definition sendingSince :: "ms \<Rightarrow> outboxRow \<Rightarrow> bool" where
  "sendingSince now r \<longleftrightarrow> obStatus r = MailSending \<and> obLockedAt r = Some now"

interpretation mailQueue: claim_queue obId dueEmail obSendAt startSending sendingSince STALE_LOCK_MS
  by unfold_locales (auto simp: dueEmail_def startSending_def sendingSince_def split: option.splits)

text \<open>Ids and keys are unique.\<close>

definition outboxOk :: "outboxRow list \<Rightarrow> bool" where
  "outboxOk t \<longleftrightarrow> distinct (map obId t) \<and>
     (\<forall>k. \<forall>r\<in>set t. \<forall>s\<in>set t. obKey r = Some k \<longrightarrow> obKey s = Some k \<longrightarrow> r = s)"

lemma claimed_ids: "map obId (snd (claimDueEmails locked now limit t)) =
    map obId (pickDue obId (dueEmail now) obSendAt locked (deliverLimit limit) t)"
  by (simp add: claimDueEmails_def Let_def o_def)

lemma claim_table: "fst (claimDueEmails locked now limit t) =
    markRows obId (startSending now) (pickDue obId (dueEmail now) obSendAt locked (deliverLimit limit) t) t"
  by (simp add: claimDueEmails_def Let_def)

lemma claimed_distinct: "distinct (map obId t) \<Longrightarrow> distinct (map obId (snd (claimDueEmails locked now limit t)))"
  unfolding claimed_ids by (rule mailQueue.pick_distinct)

text \<open>The status write of one delivery, and what a pass makes of the table when nobody interferes.\<close>

definition sendFailure :: "sendAttempt \<Rightarrow> string option" where
  "sendFailure a = (if saError a = None then saSentWriteError a else saError a)"

definition settle :: "ms \<Rightarrow> sendAttempt \<Rightarrow> outboxRow \<Rightarrow> outboxRow \<Rightarrow> outboxRow" where
  "settle now a c = (case sendFailure a of None \<Rightarrow> sentRow now | Some m \<Rightarrow> fst (onSendError now m c))"

lemma settle_fields [row_simps]:
  "obId (settle now a c r) = obId r" "obKey (settle now a c r) = obKey r"
  "obAttempts (settle now a c r) = obAttempts r" "obLockedAt (settle now a c r) = None"
  by (simp_all add: settle_def onSendError_def sentRow_def failedRow_def retryRow_def split: option.splits)

definition outcomeCounts :: "deliverResult \<Rightarrow> nat" where
  "outcomeCounts res = drSent res + drRetried res + drFailed res"

lemma deliverOne_settles:
  assumes "deliverOne now a c t res = (t', ms, Inr res')" and "saMeanwhile a = (\<lambda>x. x)"
  shows "t' = updateWhere (\<lambda>r. obId r = obId c) (settle now a c) t \<and>
    ms = (if saError a = None then [messageOf c] else []) \<and>
    outcomeCounts res' = Suc (outcomeCounts res) \<and> drClaimed res' = drClaimed res"
  using assms
  by (auto simp: deliverOne_def Let_def settle_def sendFailure_def outcomeCounts_def onSendError_def
      split: option.splits if_splits)

lemma deliverAll_settles:
  assumes "deliverAll now att rows t res = (t', ms, Inr res')" and "\<And>c. saMeanwhile (att c) = (\<lambda>x. x)"
    and "distinct (map obId rows)"
  shows "t' = map (\<lambda>r. case List.find (\<lambda>c. obId c = obId r) rows of None \<Rightarrow> r | Some c \<Rightarrow> settle now (att c) c r) t \<and>
    ms = map messageOf (filter (\<lambda>c. saError (att c) = None) rows) \<and>
    outcomeCounts res' = outcomeCounts res + length rows \<and> drClaimed res' = drClaimed res"
  using assms(1,3)
proof (induction rows arbitrary: t res ms)
  case (Cons c rows)
  from Cons.prems obtain t1 ms1 res1 ms2 where
    one: "deliverOne now (att c) c t res = (t1, ms1, Inr res1)" and
    rest: "deliverAll now att rows t1 res1 = (t', ms2, Inr res')" and ms: "ms = ms1 @ ms2"
    by (auto split: prod.splits sum.splits)
  from Cons.prems(2) have fresh: "List.find (\<lambda>d. obId d = obId c) rows = None" "distinct (map obId rows)"
    by (simp_all add: find_key_None)
  show ?case
    using Cons.IH [OF rest fresh(2)] deliverOne_settles [OF one assms(2)] fresh(1) ms
    by (auto simp: updateWhere_def row_simps)
qed simp

lemma checkEmail_None:
  "checkEmail inp = None \<longleftrightarrow> EMAIL_RE (toLowerCase (trim (eiTo inp))) \<and> trim (eiSubject inp) \<noteq> [] \<and>
     trim (eiText inp) \<noteq> [] \<and> (\<forall>m. eiMaxAttempts inp = Some m \<longrightarrow> 1 \<le> m \<and> m \<le> 20) \<and>
     (\<forall>k. outboxKey inp = Some k \<longrightarrow> length k \<le> 512)"
  by (cases "eiMaxAttempts inp"; cases "outboxKey inp") (auto simp: checkEmail_def)

section \<open>Properties\<close>

text \<open>
  C29. An e-mail is taken by one worker at a time: a pass claims due rows that nobody holds, in the order
  of their send time, each once, locks each and counts the attempt; it claims at most its limit (the one
  it was given, clamped to 1 to 500), and leaves such a row out only when the limit is reached by rows that
  are due no later; while the claimed rows keep that lock, no other pass within ten minutes takes one of
  them, and neither does a pass running at the same moment.
\<close>

theorem emails_are_claimed_once:
  assumes "distinct (map obId t)" and "claimDueEmails locked now limit t = (t1, rows)"
    and "\<And>r. r \<in> set t2 \<Longrightarrow> obId r \<in> obId ` set rows \<Longrightarrow> sendingSince now r" and "now' \<le> now + STALE_LOCK_MS"
  shows "obId ` set rows \<inter> obId ` set (snd (claimDueEmails locked' now' limit' t2)) = {} \<and>
    (obId ` set rows \<subseteq> locked' \<longrightarrow> obId ` set rows \<inter> obId ` set (snd (claimDueEmails locked' now' limit' t)) = {}) \<and>
    length rows \<le> nat (min (max (case limit of Some n \<Rightarrow> n | None \<Rightarrow> 50) 1) 500) \<and>
    (\<forall>r\<in>set t. dueEmail now r \<longrightarrow> obId r \<notin> locked \<longrightarrow> obId r \<notin> obId ` set rows \<longrightarrow>
       length rows = nat (min (max (case limit of Some n \<Rightarrow> n | None \<Rightarrow> 50) 1) 500) \<and> (\<forall>c\<in>set rows. obSendAt c \<le> obSendAt r)) \<and>
    sorted (map obSendAt rows) \<and> distinct (map obId rows) \<and> map obId t1 = map obId t \<and>
    (\<forall>c\<in>set rows. obId c \<notin> locked \<and> (\<exists>r\<in>set t. dueEmail now r \<and> c = r\<lparr>obAttempts := obAttempts r + 1\<rparr>)) \<and>
    (\<forall>r\<in>set t1. obId r \<in> obId ` set rows \<longrightarrow> sendingSince now r)"
proof -
  let ?p = "pickDue obId (dueEmail now) obSendAt locked (deliverLimit limit) t"
  from assms(2) have t1: "t1 = markRows obId (startSending now) ?p t"
    and rows: "rows = map (\<lambda>r. r\<lparr>obAttempts := obAttempts r + 1\<rparr>) ?p"
    by (simp_all add: claimDueEmails_def Let_def)
  then have ids: "obId ` set rows = obId ` set ?p" by (simp add: image_image)
  have later: "obId ` set rows \<inter> obId ` set (snd (claimDueEmails locked' now' limit' t2)) = {}"
    using mailQueue.held_rows_are_not_picked [of t2 "obId ` set rows" now now'] assms(3,4) claimed_ids
    by (metis list.set_map)
  have same: "obId ` set rows \<inter> obId ` set (snd (claimDueEmails locked' now' limit' t)) = {}"
    if "obId ` set rows \<subseteq> locked'"
    using mailQueue.concurrent_picks_disjoint that ids claimed_ids by (metis list.set_map)
  let ?n = "nat (min (max (case limit of Some n \<Rightarrow> n | None \<Rightarrow> 50) 1) 500)"
  have len: "length rows \<le> ?n"
    using mailQueue.pick_bounds(1) by (simp add: rows flip: deliverLimit_def)
  have complete: "length rows = ?n \<and> (\<forall>c\<in>set rows. obSendAt c \<le> obSendAt r)"
    if r: "r \<in> set t" "dueEmail now r" "obId r \<notin> locked" "obId r \<notin> obId ` set rows" for r
  proof -
    from r(4) have "r \<notin> set ?p" unfolding ids by blast
    note all = mailQueue.pick_complete [OF r(1-3) this]
    from all(1) have "length rows = ?n" by (simp add: rows flip: deliverLimit_def)
    moreover from all(2) have "\<forall>c\<in>set rows. obSendAt c \<le> obSendAt r" by (simp add: rows)
    ultimately show ?thesis by blast
  qed
  have srt: "sorted (map obSendAt rows)"
    using mailQueue.pick_bounds(2) by (simp add: rows o_def)
  have dis: "distinct (map obId rows)"
    using mailQueue.pick_distinct [OF assms(1)] by (simp add: rows o_def)
  have rowsIn: "\<forall>c\<in>set rows. obId c \<notin> locked \<and> (\<exists>r\<in>set t. dueEmail now r \<and> c = r\<lparr>obAttempts := obAttempts r + 1\<rparr>)"
    using mailQueue.pick_subset unfolding rows by fastforce
  have mark: "\<forall>r\<in>set t1. obId r \<in> obId ` set rows \<longrightarrow> sendingSince now r"
    using mailQueue.marked_is_held [OF assms(1)] by (simp add: t1 ids)
  have ids1: "map obId t1 = map obId t" unfolding t1 by (rule mailQueue.mark_ids)
  from later same len complete srt dis rowsIn mark ids1 show ?thesis by blast
qed

text \<open>What an undisturbed pass leaves, row by row.\<close>

lemma quiet_pass:
  assumes "distinct (map obId t)" and "\<And>c. saMeanwhile (att c) = (\<lambda>x. x)"
    and "claimDueEmails locked now limit t = (t1, rows)"
    and "deliverDueEmails locked att now limit t = (t', ms, Inr res)"
  shows "drClaimed res = length rows \<and> drSent res + drRetried res + drFailed res = length rows \<and>
    ms = map messageOf (filter (\<lambda>c. saError (att c) = None) rows) \<and>
    map obId t' = map obId t \<and>
    (\<forall>r\<in>set t'. obId r \<notin> obId ` set rows \<longrightarrow> r \<in> set t) \<and>
    (\<forall>c\<in>set rows. \<exists>r\<in>set t'. obId r = obId c \<and> obAttempts r = obAttempts c \<and> obLockedAt r = None \<and>
       (case sendFailure (att c) of
          None \<Rightarrow> obStatus r = MailSent \<and> obSentAt r = Some now
        | Some m \<Rightarrow>
            if isUnverifiedSenderRejection m \<or> obAttempts c \<ge> obMaxAttempts c then obStatus r = MailFailed
            else obStatus r = MailPending \<and> obSendAt r = now + backoffSecondsForAttempt (obAttempts c) * 1000))"
proof -
  let ?f = "\<lambda>r. case List.find (\<lambda>c. obId c = obId r) rows of None \<Rightarrow> r | Some c \<Rightarrow> settle now (att c) c r"
  let ?p = "pickDue obId (dueEmail now) obSendAt locked (deliverLimit limit) t"
  have dis: "distinct (map obId rows)"
    using claimed_distinct [OF assms(1), of locked now limit] assms(3) by simp
  from assms(3,4) have "deliverAll now att rows t1 \<lparr>drClaimed = length rows, drSent = 0, drRetried = 0, drFailed = 0\<rparr>
      = (t', ms, Inr res)"
    by (simp add: deliverDueEmails_def)
  from deliverAll_settles [OF this assms(2) dis] have t': "t' = map ?f t1"
    and ms: "ms = map messageOf (filter (\<lambda>c. saError (att c) = None) rows)"
    and counts: "drSent res + drRetried res + drFailed res = length rows" "drClaimed res = length rows"
    by (simp_all add: outcomeCounts_def)
  from assms(3) have t1: "t1 = markRows obId (startSending now) ?p t" by (simp add: claimDueEmails_def Let_def)
  from assms(3) have rows: "rows = map (\<lambda>r. r\<lparr>obAttempts := obAttempts r + 1\<rparr>) ?p"
    by (simp add: claimDueEmails_def Let_def)
  have idf: "obId (?f r) = obId r" for r by (simp add: row_simps split: option.split)
  have ids: "map obId t' = map obId t"
    using mailQueue.mark_ids [of now ?p t] idf by (simp add: t' t1 o_def)
  have others: "r \<in> set t" if r: "r \<in> set t'" and out: "obId r \<notin> obId ` set rows" for r
  proof -
    from r t' obtain s where s: "s \<in> set t1" "r = ?f s" by auto
    with out idf have "obId s \<notin> obId ` set rows" by metis
    then have "List.find (\<lambda>c. obId c = obId s) rows = None" by (simp add: find_key_None)
    with s have "r = s" by simp
    moreover from \<open>obId s \<notin> obId ` set rows\<close> have "obId s \<notin> obId ` set ?p" by (simp add: rows image_image)
    ultimately show ?thesis using s(1) mailQueue.unmarked_row unfolding t1 by blast
  qed
  have settled: "\<exists>r\<in>set t'. obId r = obId c \<and> obAttempts r = obAttempts c \<and> obLockedAt r = None \<and>
       (case sendFailure (att c) of
          None \<Rightarrow> obStatus r = MailSent \<and> obSentAt r = Some now
        | Some m \<Rightarrow>
            if isUnverifiedSenderRejection m \<or> obAttempts c \<ge> obMaxAttempts c then obStatus r = MailFailed
            else obStatus r = MailPending \<and> obSendAt r = now + backoffSecondsForAttempt (obAttempts c) * 1000)"
    if c: "c \<in> set rows" for c
  proof -
    from c rows obtain p where p: "p \<in> set ?p" "c = p\<lparr>obAttempts := obAttempts p + 1\<rparr>" by auto
    have "startSending now p \<in> set t1"
      unfolding t1 by (rule mailQueue.marked_in [OF p(1)]) (use mailQueue.pick_subset in blast)
    then have "?f (startSending now p) \<in> set t'" by (simp add: t')
    moreover have "?f (startSending now p) = settle now (att c) c (startSending now p)"
      using find_key_unique [OF dis c] p(2) by (simp add: startSending_def)
    ultimately show ?thesis
      using p(2) by (intro bexI [of _ "settle now (att c) c (startSending now p)"])
        (auto simp: row_simps settle_def onSendError_def sentRow_def failedRow_def retryRow_def startSending_def
          split: option.splits)
  qed
  from counts ms ids others settled show ?thesis by blast
qed

lemma backoff_positive: "0 < backoffSecondsForAttempt n"
proof -
  have "nat (min (max n 1) (int (length RETRY_BACKOFF_SECONDS)) - 1) < length RETRY_BACKOFF_SECONDS"
    by (simp add: RETRY_BACKOFF_SECONDS_def)
  then have "backoffSecondsForAttempt n \<in> set RETRY_BACKOFF_SECONDS" unfolding backoffSecondsForAttempt_def by (rule nth_mem)
  then show ?thesis by (auto simp: RETRY_BACKOFF_SECONDS_def)
qed

text \<open>When no more rows are due than the limit and none is locked, the pass leaves nothing due.\<close>

lemma quiet_pass_clears:
  assumes "distinct (map obId t)" and "\<And>c. saMeanwhile (att c) = (\<lambda>x. x)"
    and "claimDueEmails {} now limit t = (t1, rows)"
    and "deliverDueEmails {} att now limit t = (t', ms, Inr res)"
    and few: "length (filter (dueEmail now) t) \<le> deliverLimit limit" and r: "r \<in> set t'"
  shows "\<not> dueEmail now r"
proof -
  note pass = quiet_pass [OF assms(1-4)]
  let ?p = "pickDue obId (dueEmail now) obSendAt {} (deliverLimit limit) t"
  have all: "set ?p = set (filter (dueEmail now) t)" using few by (simp add: pickDue_def orderedLimit_def)
  have rows: "obId ` set rows = obId ` set ?p"
    using claimed_ids [of "{}" now limit t] assms(3) by (metis image_set snd_conv)
  show ?thesis
  proof (cases "obId r \<in> obId ` set rows")
    case False
    with pass r have "r \<in> set t" by blast
    with False rows all show ?thesis by auto
  next
    case True
    then obtain c where c: "c \<in> set rows" "obId c = obId r" by auto
    with pass obtain r' where r': "r' \<in> set t'" "obId r' = obId c"
      "case sendFailure (att c) of None \<Rightarrow> obStatus r' = MailSent \<and> obSentAt r' = Some now
        | Some m \<Rightarrow> if isUnverifiedSenderRejection m \<or> obAttempts c \<ge> obMaxAttempts c then obStatus r' = MailFailed
            else obStatus r' = MailPending \<and> obSendAt r' = now + backoffSecondsForAttempt (obAttempts c) * 1000" by blast
    have "distinct (map obId t')" using pass assms(1) by simp
    with r r' c have "r' = r" by (metis distinct_key_eq)
    with r'(3) backoff_positive [of "obAttempts c"] show ?thesis by (auto simp: dueEmail_def split: option.splits if_splits)
  qed
qed

text \<open>
  A pass that nobody disturbs settles everything it claimed: each claimed row ends unlocked, as sent
  exactly when the transport took it and the write succeeded, as failed when the sender domain was
  refused or the attempts are used up, and otherwise as pending, due again after the backoff of its
  attempt; no other row changes, the counters add up to the claims, and the accepted e-mails are the
  rows' own contents, each once.
\<close>

theorem mail_pass_settles_its_claims:
  assumes "distinct (map obId t)" and "\<And>c. saMeanwhile (att c) = (\<lambda>x. x)"
    and "claimDueEmails locked now limit t = (t1, rows)"
    and "deliverDueEmails locked att now limit t = (t', ms, Inr res)"
  shows "drClaimed res = length rows \<and> drSent res + drRetried res + drFailed res = length rows \<and>
    ms = map messageOf (filter (\<lambda>c. saError (att c) = None) rows) \<and>
    map obId t' = map obId t \<and>
    (\<forall>r\<in>set t'. obId r \<notin> obId ` set rows \<longrightarrow> r \<in> set t) \<and>
    (\<forall>c\<in>set rows. \<exists>r\<in>set t'. obId r = obId c \<and> obAttempts r = obAttempts c \<and> obLockedAt r = None \<and>
       (case sendFailure (att c) of
          None \<Rightarrow> obStatus r = MailSent \<and> obSentAt r = Some now
        | Some m \<Rightarrow>
            if isUnverifiedSenderRejection m \<or> obAttempts c \<ge> obMaxAttempts c then obStatus r = MailFailed
            else obStatus r = MailPending \<and> obSendAt r = now + backoffSecondsForAttempt (obAttempts c) * 1000))"
  by (rule quiet_pass [OF assms])

text \<open>
  Enqueueing validates and deduplicates: what is accepted has a plausible lower-case address, a
  subject and a body, and is a pending row with no attempts; and after it any number of later enqueues
  with the same trimmed key, whatever else they say, return that row and change nothing, so ids and
  keys stay unique.
\<close>

theorem enqueue_deduplicates:
  assumes "outboxOk t" and "newId \<notin> obId ` set t" and "enqueueEmail newId now dbNow inp t = Inr (t', row, created)"
  shows "outboxOk t' \<and> row \<in> set t' \<and> set t \<subseteq> set t' \<and> (created \<longleftrightarrow> t' \<noteq> t) \<and>
    (created \<longrightarrow> t' = t @ [row] \<and> obId row = newId \<and> obStatus row = MailPending \<and> obAttempts row = 0 \<and>
       EMAIL_RE (obTo row) \<and> obSubject row \<noteq> [] \<and> 1 \<le> obMaxAttempts row \<and> obMaxAttempts row \<le> 20) \<and>
    (\<forall>k newId2 now2 dbNow2 inp2. outboxKey inp = Some k \<longrightarrow> outboxKey inp2 = Some k \<longrightarrow> checkEmail inp2 = None \<longrightarrow>
       enqueueEmail newId2 now2 dbNow2 inp2 t' = Inr (t', row, False))"
proof -
  let ?new = "newOutboxRow newId now dbNow inp"
  from assms(3) have ok: "checkEmail inp = None"
    by (auto simp: enqueueEmail_def split: option.splits)
  then have valid: "EMAIL_RE (obTo ?new)" "obSubject ?new \<noteq> []" "1 \<le> obMaxAttempts ?new" "obMaxAttempts ?new \<le> 20"
    by (auto simp: checkEmail_None newOutboxRow_def split: option.splits)
  have again: "enqueueEmail newId2 now2 dbNow2 inp2 t' = Inr (t', row, False)"
    if "List.find (\<lambda>r. obKey r = Some k) t' = Some row" "outboxKey inp2 = Some k" "checkEmail inp2 = None"
    for k newId2 now2 dbNow2 inp2
    using that by (simp add: enqueueEmail_def Let_def)
  consider (fresh) "t' = t @ [?new]" "row = ?new" "created" "\<And>k. outboxKey inp = Some k \<Longrightarrow> List.find (\<lambda>r. obKey r = Some k) t = None"
    | (seen) k where "t' = t" "\<not> created" "outboxKey inp = Some k" "List.find (\<lambda>r. obKey r = Some k) t = Some row"
  proof (cases "outboxKey inp")
    case None
    with assms(3) ok have "t' = t @ [?new] \<and> row = ?new \<and> created"
      by (auto simp: enqueueEmail_def Let_def)
    with None show ?thesis by (auto intro: that(1))
  next
    case (Some k)
    show ?thesis
    proof (cases "List.find (\<lambda>r. obKey r = Some k) t")
      case None
      with assms(3) ok Some have "t' = t @ [?new] \<and> row = ?new \<and> created"
        by (auto simp: enqueueEmail_def Let_def)
      with None Some show ?thesis by (auto intro: that(1))
    next
      case (Some r)
      with assms(3) ok \<open>outboxKey inp = Some k\<close> have "t' = t \<and> row = r \<and> \<not> created"
        by (simp add: enqueueEmail_def Let_def)
      with Some \<open>outboxKey inp = Some k\<close> show ?thesis by (auto intro: that(2))
    qed
  qed
  then show ?thesis
  proof cases
    case fresh
    have key: "obKey ?new = outboxKey inp" "obId ?new = newId" "obStatus ?new = MailPending" "obAttempts ?new = 0"
      by (simp_all add: newOutboxRow_def)
    have none: "obKey r \<noteq> Some k" if "outboxKey inp = Some k" "r \<in> set t" for k r
      using fresh(4) that by (auto simp: find_None_iff_all)
    have "outboxOk t'"
      using assms(1,2) key none by (auto simp: outboxOk_def fresh(1))
    moreover have "List.find (\<lambda>r. obKey r = Some k) t' = Some row" if "outboxKey inp = Some k" for k
      using fresh(4) [OF that] that key(1) by (simp add: fresh(1,2) find_append)
    ultimately show ?thesis
      using again valid key fresh(1-3) by auto
  next
    case seen
    have "row \<in> set t'" using seen(1,4) by (auto dest: find_Some_in)
    moreover have "List.find (\<lambda>r. obKey r = Some k) t' = Some row" using seen by simp
    ultimately show ?thesis
      using again seen assms(1) by auto
  qed
qed

section \<open>Examples\<close>

definition exampleMail :: enqueueEmailInput where
  "exampleMail = \<lparr>eiTo = '' Ann@Example.COM '', eiSubject = ''Hi'', eiText = ''text'', eiHtml = None, eiReplyTo = None,
     eiSendAt = Some 0, eiKey = Some '' welcome:1 '', eiOrg = Some ''o1'', eiUser = None, eiSource = None,
     eiMaxAttempts = None\<rparr>"

definition exampleMailRow :: outboxRow where
  "exampleMailRow = newOutboxRow ''m1'' 0 0 exampleMail"

definition exampleAttempt :: "string option \<Rightarrow> sendAttempt" where
  "exampleAttempt e = \<lparr>saMeanwhile = (\<lambda>x. x), saError = e, saSentWriteError = None, saCatchWriteError = None\<rparr>"

definition zeroResult :: deliverResult where
  "zeroResult = \<lparr>drClaimed = 0, drSent = 0, drRetried = 0, drFailed = 0\<rparr>"

theorem enqueue_deduplicates_witness:
  "enqueueEmail ''m2'' 7 8 (exampleMail\<lparr>eiTo := ''bob@example.com'', eiKey := Some ''welcome:1''\<rparr>) [exampleMailRow]
     = Inr ([exampleMailRow], exampleMailRow, False)"
proof -
  have e: "enqueueEmail ''m1'' 0 0 exampleMail [] = Inr ([exampleMailRow], exampleMailRow, True)" by code_simp
  have k: "outboxKey exampleMail = Some ''welcome:1''"
    "outboxKey (exampleMail\<lparr>eiTo := ''bob@example.com'', eiKey := Some ''welcome:1''\<rparr>) = Some ''welcome:1''"
    "checkEmail (exampleMail\<lparr>eiTo := ''bob@example.com'', eiKey := Some ''welcome:1''\<rparr>) = None"
    by code_simp+
  have ok: "outboxOk []" by (simp add: outboxOk_def)
  from enqueue_deduplicates [OF ok _ e] k show ?thesis by simp
qed

lemma example_claim:
  "claimDueEmails {} 5 None [exampleMailRow] =
     ([startSending 5 exampleMailRow], [exampleMailRow\<lparr>obAttempts := 1\<rparr>])"
  by code_simp

theorem emails_are_claimed_once_witness:
  "''m1'' \<notin> obId ` set (snd (claimDueEmails {} 600005 None [startSending 5 exampleMailRow]))"
proof -
  have one: "distinct (map obId [exampleMailRow])" by simp
  have held: "sendingSince 5 r" if "r \<in> set [startSending 5 exampleMailRow]" for r
    using that by (simp add: sendingSince_def startSending_def)
  have "obId ` set [exampleMailRow\<lparr>obAttempts := 1\<rparr>] \<inter>
      obId ` set (snd (claimDueEmails {} 600005 None [startSending 5 exampleMailRow])) = {}"
    by (rule conjunct1 [OF emails_are_claimed_once [OF one example_claim held]]) (simp_all add: STALE_LOCK_MS_def)
  moreover have "obId (exampleMailRow\<lparr>obAttempts := 1\<rparr>) = ''m1''" by (simp add: exampleMailRow_def newOutboxRow_def)
  ultimately show ?thesis by auto
qed

theorem mail_pass_settles_its_claims_witness:
  "drRetried (projr (snd (snd (deliverDueEmails {} (\<lambda>_. exampleAttempt (Some ''timeout'')) 5 None [exampleMailRow])))) = 1 \<and>
   (\<exists>r. fst (deliverDueEmails {} (\<lambda>_. exampleAttempt (Some ''timeout'')) 5 None [exampleMailRow]) = [r] \<and>
      obStatus r = MailPending \<and> obSendAt r = 60005)"
proof -
  let ?d = "deliverDueEmails {} (\<lambda>_. exampleAttempt (Some ''timeout'')) 5 None [exampleMailRow]"
  have shape: "snd (snd ?d) = Inr (zeroResult\<lparr>drClaimed := 1, drRetried := 1\<rparr>)" by code_simp
  then have d: "?d = (fst ?d, fst (snd ?d), Inr (zeroResult\<lparr>drClaimed := 1, drRetried := 1\<rparr>))"
    by (metis prod.collapse)
  have rej: "\<not> isUnverifiedSenderRejection ''timeout''" by code_simp
  have row: "obMaxAttempts exampleMailRow = 5" "obId exampleMailRow = ''m1''"
    by (simp_all add: exampleMailRow_def newOutboxRow_def exampleMail_def)
  have fail: "sendFailure (exampleAttempt (Some ''timeout'')) = Some ''timeout''" by code_simp
  have wait: "backoffSecondsForAttempt 1 = 60" by code_simp
  have one: "distinct (map obId [exampleMailRow])" by simp
  have quiet: "saMeanwhile (exampleAttempt (Some ''timeout'')) = (\<lambda>x. x)" by (simp add: exampleAttempt_def)
  from mail_pass_settles_its_claims [OF one quiet example_claim d]
  have "\<exists>r\<in>set (fst ?d). obStatus r = MailPending \<and> obSendAt r = 60005" and ids: "map obId (fst ?d) = [''m1'']"
    by (auto simp: fail rej row wait)
  moreover from ids obtain r where "fst ?d = [r]" by auto
  ultimately show ?thesis using shape by (simp add: zeroResult_def)
qed

text \<open>
  A pass whose sends take longer than the lock (a batch is sent one by one) lets another replica reclaim
  a row it is still holding, so the message leaves twice.
\<close>

definition secondReplica :: "outboxRow list \<Rightarrow> outboxRow list \<times> outgoing list \<times> (string + deliverResult)" where
  "secondReplica t = deliverDueEmails {} (\<lambda>_. exampleAttempt None) 600006 None t"

lemma slow_pass_sends_twice:
  "fst (snd (secondReplica [startSending 5 exampleMailRow])) = [messageOf exampleMailRow] \<and>
   fst (snd (deliverDueEmails {} (\<lambda>_. (exampleAttempt None)\<lparr>saMeanwhile := fst \<circ> secondReplica\<rparr>) 5 None [exampleMailRow]))
     = [messageOf exampleMailRow]"
  by (rule conjI; code_simp)

end
