(* ===== verification/ScheduledJobs.thy ===== *)
theory ScheduledJobs
  imports Outbox JsNumber
begin

text \<open>
  \<^verbatim>\<open>src/services/scheduled-jobs.service.ts\<close> with \<^verbatim>\<open>src/jobs/registry.ts\<close> and
  \<^verbatim>\<open>src/jobs/cron.ts\<close>: recurring jobs. The cron library (croner), \<^verbatim>\<open>Intl\<close>'s zone table and
  the printing of dates and numbers are the fields of \<open>jobRuntime\<close>; what a handler does is a \<open>jobRun\<close>.
\<close>

section \<open>Data\<close>

datatype jobStatus = JobOk | JobFailed

record jobRow =
  jbId :: uuid
  jbOrg :: "uuid option"
  jbKind :: string
  jbCron :: string
  jbTimezone :: string
  jbPayload :: "(string \<times> json) list"
  jbEnabled :: bool
  jbNextRunAt :: ms
  jbLastRunAt :: "ms option"
  jbLastStatus :: "jobStatus option"
  jbLastError :: "string option"
  jbLockedAt :: "ms option"

datatype historyStatus = HistoryRunning | HistoryCompleted | HistoryFailed

record historyRow =
  hiId :: uuid
  hiJobType :: string
  hiOrg :: "uuid option"
  hiStatus :: historyStatus
  hiPayload :: "(string \<times> json) list"
  hiResult :: "json option"
  hiError :: "string option"
  hiStartedAt :: ms
  hiCompletedAt :: "ms option"

record jobsDb =
  jobs :: "jobRow list"
  history :: "historyRow list"
  outbox :: "outboxRow list"

record jobRuntime =
  jrCronError :: "string \<Rightarrow> string option"
  jrNextRun :: "string \<Rightarrow> string \<Rightarrow> ms \<Rightarrow> string + ms option"
  jrNextTwo :: "string \<Rightarrow> string \<Rightarrow> ms \<Rightarrow> string + ms list"
  jrZoneOk :: "string \<Rightarrow> bool"
  jrIso :: "ms \<Rightarrow> string"
  jrShow :: "rat \<Rightarrow> string"
  jrEnv :: "string \<Rightarrow> string option"

text \<open>\<open>Number(getEnv(key)) || fallback\<close>\<close>

definition envNumberOr :: "(string \<Rightarrow> string option) \<Rightarrow> string \<Rightarrow> rat \<Rightarrow> rat" where
  "envNumberOr env key fallback =
     (case env key of
        None \<Rightarrow> fallback
      | Some raw \<Rightarrow> (case jsNumber raw of Some n \<Rightarrow> if n = 0 then fallback else n | None \<Rightarrow> fallback))"

definition MIN_INTERVAL_SECONDS :: "jobRuntime \<Rightarrow> rat" where
  "MIN_INTERVAL_SECONDS rt = envNumberOr (jrEnv rt) ''JOBS_MIN_INTERVAL_SECONDS'' 300"

definition HANDLER_TIMEOUT_MS :: "jobRuntime \<Rightarrow> rat" where
  "HANDLER_TIMEOUT_MS rt = envNumberOr (jrEnv rt) ''JOBS_HANDLER_TIMEOUT_MS'' 60000"

definition STALE_JOB_LOCK_MS :: ms where
  "STALE_JOB_LOCK_MS = 15 * 60 * 1000"

section \<open>The handler registry\<close>

text \<open>\<open>REGISTRY\<close> in registration order; \<open>'h\<close> is the type of a handler.\<close>

record 'h jobDefinition =
  jdKind :: string
  jdHandler :: 'h
  jdDescription :: string

definition KIND_RE :: "string \<Rightarrow> bool" where
  "KIND_RE k \<longleftrightarrow> 2 \<le> length k \<and> length k \<le> 64 \<and> isLower (hd k) \<and>
     list_all (\<lambda>c. isLower c \<or> isDigit c \<or> c = CHR ''_'') (tl k)"

definition isJobKindRegistered :: "'h jobDefinition list \<Rightarrow> string \<Rightarrow> bool" where
  "isJobKindRegistered reg k \<longleftrightarrow> list_ex (\<lambda>d. jdKind d = k) reg"

definition getJobHandler :: "'h jobDefinition list \<Rightarrow> string \<Rightarrow> 'h option" where
  "getJobHandler reg k = map_option jdHandler (List.find (\<lambda>d. jdKind d = k) reg)"

definition defineJob :: "string \<Rightarrow> 'h \<Rightarrow> string option \<Rightarrow> 'h jobDefinition list \<Rightarrow> appError + 'h jobDefinition list" where
  "defineJob kind handler description reg =
     (if \<not> KIND_RE kind
      then Inl (PlainError (''defineJob: kind '' @ quoted kind @ '' must match /^[a-z][a-z0-9_]{1,63}$/''))
      else if isJobKindRegistered reg kind
      then Inl (PlainError (''defineJob: kind '' @ quoted kind @ '' is already registered''))
      else Inr (reg @ [\<lparr>jdKind = kind, jdHandler = handler,
                        jdDescription = (case description of Some d \<Rightarrow> d | None \<Rightarrow> [])\<rparr>]))"

definition listJobKinds :: "'h jobDefinition list \<Rightarrow> (string \<times> string) list" where
  "listJobKinds reg = map (\<lambda>d. (jdKind d, jdDescription d)) reg"

section \<open>Cron helpers\<close>

definition assertValidCron :: "jobRuntime \<Rightarrow> string \<Rightarrow> appError option" where
  "assertValidCron rt expr =
     map_option (\<lambda>reason. BadRequestError (''Invalid cron expression '' @ quoted expr @ '': '' @ reason)) (jrCronError rt expr)"

definition isValidTimezone :: "jobRuntime \<Rightarrow> string \<Rightarrow> bool" where
  "isValidTimezone rt tz \<longleftrightarrow> tz \<noteq> [] \<and> jrZoneOk rt tz"

definition assertValidTimezone :: "jobRuntime \<Rightarrow> string \<Rightarrow> appError option" where
  "assertValidTimezone rt tz =
     (if isValidTimezone rt tz then None
      else Some (BadRequestError (''Unknown timezone '' @ quoted tz @ ''. Use an IANA name like '' @ quoted ''America/New_York'' @ ''.'')))"

definition nextRunAfter :: "jobRuntime \<Rightarrow> string \<Rightarrow> string \<Rightarrow> ms \<Rightarrow> string + ms option" where
  "nextRunAfter rt expr tz after = jrNextRun rt expr tz after"

text \<open>\<open>Math.round\<close> rounds a half up.\<close>

definition shortestIntervalSeconds :: "jobRuntime \<Rightarrow> string \<Rightarrow> string \<Rightarrow> ms \<Rightarrow> string + int option" where
  "shortestIntervalSeconds rt expr tz after =
     (case jrNextTwo rt expr tz after of
        Inl m \<Rightarrow> Inl m
      | Inr runs \<Rightarrow>
          if length runs < 2 then Inr None
          else Inr (Some ((runs ! 1 - runs ! 0 + 500) div 1000)))"

section \<open>Create, update, delete, list\<close>

definition validateSchedule ::
    "jobRuntime \<Rightarrow> 'h jobDefinition list \<Rightarrow> string \<Rightarrow> string \<Rightarrow> string \<Rightarrow> ms \<Rightarrow> appError + ms" where
  "validateSchedule rt reg kind cron timezone now =
     (if \<not> isJobKindRegistered reg kind
      then Inl (BadRequestError (''No job handler registered for kind '' @ quoted kind @
                  ''. Register one with defineJob() in src/jobs/.''))
      else case assertValidCron rt cron of
        Some e \<Rightarrow> Inl e
      | None \<Rightarrow> (case assertValidTimezone rt timezone of
          Some e \<Rightarrow> Inl e
        | None \<Rightarrow> (case shortestIntervalSeconds rt cron timezone now of
            Inl m \<Rightarrow> Inl (PlainError m)
          | Inr interval \<Rightarrow>
              if (case interval of Some i \<Rightarrow> of_int i < MIN_INTERVAL_SECONDS rt | None \<Rightarrow> False)
              then Inl (BadRequestError (''Schedule fires every '' @ jrShow rt (of_int (the interval)) @
                     ''s; the minimum is '' @ jrShow rt (MIN_INTERVAL_SECONDS rt) @ ''s.''))
              else (case nextRunAfter rt cron timezone now of
                  Inl m \<Rightarrow> Inl (PlainError m)
                | Inr None \<Rightarrow> Inl (BadRequestError (''Cron '' @ quoted cron @ '' never fires after '' @ jrIso rt now))
                | Inr (Some next_run) \<Rightarrow> Inr next_run))))"

record createJobInput =
  cjKind :: string
  cjCron :: string
  cjTimezone :: "string option"
  cjPayload :: "(string \<times> json) list option"
  cjOrg :: "uuid option"
  cjEnabled :: "bool option"

definition createScheduledJob ::
    "jobRuntime \<Rightarrow> 'h jobDefinition list \<Rightarrow> uuid \<Rightarrow> ms \<Rightarrow> createJobInput \<Rightarrow> jobRow list \<Rightarrow> appError + jobRow list \<times> jobRow" where
  "createScheduledJob rt reg newId now inp t =
     (let timezone = (case cjTimezone inp of Some tz \<Rightarrow> if trim tz = [] then ''UTC'' else trim tz | None \<Rightarrow> ''UTC'') in
      ebind (validateSchedule rt reg (cjKind inp) (trim (cjCron inp)) timezone now) (\<lambda>nextRunAt.
        let row = \<lparr>jbId = newId, jbOrg = cjOrg inp, jbKind = cjKind inp, jbCron = trim (cjCron inp),
              jbTimezone = timezone, jbPayload = (case cjPayload inp of Some p \<Rightarrow> p | None \<Rightarrow> []),
              jbEnabled = (case cjEnabled inp of Some b \<Rightarrow> b | None \<Rightarrow> True), jbNextRunAt = nextRunAt,
              jbLastRunAt = None, jbLastStatus = None, jbLastError = None, jbLockedAt = None\<rparr>
        in Inr (t @ [row], row)))"

record updateJobInput =
  ujCron :: "string option"
  ujTimezone :: "string option"
  ujPayload :: "(string \<times> json) list option"
  ujEnabled :: "bool option"

definition getScheduledJob :: "uuid \<Rightarrow> jobRow list \<Rightarrow> jobRow option" where
  "getScheduledJob i t = List.find (\<lambda>j. jbId j = i) t"

definition patchJob :: "updateJobInput \<Rightarrow> ms option \<Rightarrow> jobRow \<Rightarrow> jobRow" where
  "patchJob p next_run j =
     j\<lparr>jbCron := (case ujCron p of Some c \<Rightarrow> trim c | None \<Rightarrow> jbCron j),
       jbTimezone := (case ujTimezone p of Some z \<Rightarrow> trim z | None \<Rightarrow> jbTimezone j),
       jbPayload := (case ujPayload p of Some x \<Rightarrow> x | None \<Rightarrow> jbPayload j),
       jbEnabled := (case ujEnabled p of Some b \<Rightarrow> b | None \<Rightarrow> jbEnabled j),
       jbNextRunAt := (case next_run of Some n \<Rightarrow> n | None \<Rightarrow> jbNextRunAt j)\<rparr>"

text \<open>\<open>meanwhile\<close> is what others write between the read of the row and its update.\<close>

definition updateScheduledJob ::
    "jobRuntime \<Rightarrow> 'h jobDefinition list \<Rightarrow> (jobRow list \<Rightarrow> jobRow list) \<Rightarrow> ms \<Rightarrow> uuid \<Rightarrow> updateJobInput \<Rightarrow> jobRow list
      \<Rightarrow> jobRow list \<times> (appError + jobRow)" where
  "updateScheduledJob rt reg meanwhile now i p t =
     (case getScheduledJob i t of
        None \<Rightarrow> (t, Inl (notFound ''Scheduled job'' i))
      | Some current \<Rightarrow>
          (let cron = (case ujCron p of Some c \<Rightarrow> trim c | None \<Rightarrow> jbCron current);
               timezone = (case ujTimezone p of Some z \<Rightarrow> trim z | None \<Rightarrow> jbTimezone current);
               enabled = (case ujEnabled p of Some b \<Rightarrow> b | None \<Rightarrow> jbEnabled current);
               cadenceChanged = (cron \<noteq> jbCron current \<or> timezone \<noteq> jbTimezone current);
               reEnabled = (enabled \<and> \<not> jbEnabled current)
           in case (if cadenceChanged \<or> reEnabled
                    then map_sum id Some (validateSchedule rt reg (jbKind current) cron timezone now) else Inr None) of
                Inl e \<Rightarrow> (t, Inl e)
              | Inr next_run \<Rightarrow>
                  if ujCron p = None \<and> ujTimezone p = None \<and> ujPayload p = None \<and> ujEnabled p = None \<and> next_run = None
                  then (t, Inr current)
                  else (let t1 = meanwhile t;
                            t2 = updateWhere (\<lambda>j. jbId j = i) (patchJob p next_run) t1
                        in case getScheduledJob i t2 of
                             None \<Rightarrow> (t2, Inl (PlainError ''no result''))
                           | Some j \<Rightarrow> (t2, Inr j))))"

definition deleteScheduledJob :: "uuid \<Rightarrow> jobRow list \<Rightarrow> jobRow list \<times> bool" where
  "deleteScheduledJob i t = (deleteWhere (\<lambda>j. jbId j = i) t, list_ex (\<lambda>j. jbId j = i) t)"

definition listScheduledJobs :: "uuid option option \<Rightarrow> int option \<Rightarrow> jobRow list \<Rightarrow> jobRow list" where
  "listScheduledJobs org limit t =
     orderedLimit jbNextRunAt (nat (min (max (case limit of Some n \<Rightarrow> n | None \<Rightarrow> 100) 1) 500))
       (filter (\<lambda>j. case org of None \<Rightarrow> True | Some x \<Rightarrow> jbOrg j = x) t)"

section \<open>Execution\<close>

definition dueJob :: "ms \<Rightarrow> jobRow \<Rightarrow> bool" where
  "dueJob now j \<longleftrightarrow> jbEnabled j \<and> jbNextRunAt j \<le> now \<and>
     (case jbLockedAt j of None \<Rightarrow> True | Some l \<Rightarrow> l < now - STALE_JOB_LOCK_MS)"

definition lockJob :: "ms \<Rightarrow> jobRow \<Rightarrow> jobRow" where
  "lockJob now j = j\<lparr>jbLockedAt := Some now\<rparr>"

definition runLimit :: "int option \<Rightarrow> nat" where
  "runLimit limit = nat (min (max (case limit of Some n \<Rightarrow> n | None \<Rightarrow> 20) 1) 200)"

definition claimDueJobs :: "uuid set \<Rightarrow> ms \<Rightarrow> int option \<Rightarrow> jobRow list \<Rightarrow> jobRow list \<times> jobRow list" where
  "claimDueJobs locked now limit t =
     (let rows = pickDue jbId (dueJob now) jbNextRunAt locked (runLimit limit) t
      in (markRows jbId (lockJob now) rows t, rows))"

text \<open>
  \<open>ctx.enqueueEmail\<close>: the spread lets a field the handler gives win over the job's own. \<open>jmOrg\<close> and
  \<open>jmSource\<close> are absent where the handler's input has no such property.
\<close>

record jobMail =
  jmInput :: enqueueEmailInput
  jmOrg :: "uuid option option"
  jmSource :: "string option option"

record jobContext =
  jcJob :: jobRow
  jcScheduledFor :: ms
  jcNow :: ms

definition ctxInput :: "jobContext \<Rightarrow> jobMail \<Rightarrow> enqueueEmailInput" where
  "ctxInput ctx m =
     (jmInput m)\<lparr>eiOrg := (case jmOrg m of Some x \<Rightarrow> x | None \<Rightarrow> jbOrg (jcJob ctx)),
        eiSource := (case jmSource m of Some x \<Rightarrow> x | None \<Rightarrow> Some (''job:'' @ jbKind (jcJob ctx)))\<rparr>"

definition ctxIdempotencyKey :: "jobRuntime \<Rightarrow> jobContext \<Rightarrow> string \<Rightarrow> string" where
  "ctxIdempotencyKey rt ctx suffix =
     ''job:'' @ jbKind (jcJob ctx) @ '':'' @ jbId (jcJob ctx) @ '':'' @ jrIso rt (jcScheduledFor ctx) @ '':'' @ suffix"

text \<open>
  What running a handler comes to: the e-mails it asked for (with the ids and clocks of the enqueues) and
  how its promise ended within the timeout. A handler that timed out goes on in the background: what it
  enqueues later belongs to \<open>ruMeanwhile\<close>, as does every write of others until the run is recorded.
\<close>

datatype handlerEnd = HReturned "json option" | HThrew string | HTimedOut

record jobRun =
  ruHistoryId :: uuid
  ruMails :: "(uuid \<times> ms \<times> ms \<times> jobMail) list"
  ruEnd :: handlerEnd
  ruMeanwhile :: "jobsDb \<Rightarrow> jobsDb"
  ruCompletedAt :: ms

type_synonym jobHandler = "jobContext \<Rightarrow> jobRun"

definition jobContextOf :: "jobRow \<Rightarrow> ms \<Rightarrow> jobContext" where
  "jobContextOf job now = \<lparr>jcJob = job, jcScheduledFor = jbNextRunAt job, jcNow = now\<rparr>"

text \<open>\<open>{ scheduledJobId, scheduledFor, ...job.payload }\<close>: a key of the payload replaces the job's own.\<close>

definition spreadOver :: "(string \<times> json) list \<Rightarrow> (string \<times> json) list \<Rightarrow> (string \<times> json) list" where
  "spreadOver base over =
     map (\<lambda>(k, v). (k, case map_of over k of Some w \<Rightarrow> w | None \<Rightarrow> v)) base @
     filter (\<lambda>(k, v). k \<notin> fst ` set base) over"

definition startRun :: "jobRuntime \<Rightarrow> uuid \<Rightarrow> jobRow \<Rightarrow> ms \<Rightarrow> jobsDb \<Rightarrow> jobsDb" where
  "startRun rt newId job now db =
     db\<lparr>history := history db @
       [\<lparr>hiId = newId, hiJobType = jbKind job, hiOrg = jbOrg job, hiStatus = HistoryRunning,
         hiPayload = spreadOver [(''scheduledJobId'', JStr (jbId job)), (''scheduledFor'', JStr (jrIso rt (jbNextRunAt job)))]
           (jbPayload job),
         hiResult = None, hiError = None, hiStartedAt = now, hiCompletedAt = None\<rparr>]\<rparr>"

text \<open>A mail that is refused is the handler's error, which \<open>ruEnd\<close> has; it writes nothing.\<close>

definition enqueueFor :: "jobContext \<Rightarrow> uuid \<times> ms \<times> ms \<times> jobMail \<Rightarrow> jobsDb \<Rightarrow> jobsDb" where
  "enqueueFor ctx m db =
     (case m of (newId, now, dbNow, mail) \<Rightarrow>
        case enqueueEmail newId now dbNow (ctxInput ctx mail) (outbox db) of
          Inl _ \<Rightarrow> db
        | Inr (t, _, _) \<Rightarrow> db\<lparr>outbox := t\<rparr>)"

definition runOutcome :: "jobRuntime \<Rightarrow> jobRow \<Rightarrow> handlerEnd option \<Rightarrow> jobStatus \<times> string option \<times> json option" where
  "runOutcome rt job end' =
     (case end' of
        None \<Rightarrow> (JobFailed, Some (''No job handler registered for kind '' @ quoted (jbKind job)), None)
      | Some (HReturned out) \<Rightarrow> (JobOk, None, out)
      | Some (HThrew m) \<Rightarrow> (JobFailed, Some m, None)
      | Some HTimedOut \<Rightarrow>
          (JobFailed, Some (''job '' @ jbKind job @ '' timed out after '' @ jrShow rt (HANDLER_TIMEOUT_MS rt) @ ''ms''), None))"

definition appendError :: "string option \<Rightarrow> string \<Rightarrow> string" where
  "appendError e m =
     (case e of Some x \<Rightarrow> if x = [] then [] else x @ ''; '' | None \<Rightarrow> []) @ ''cannot compute next run: '' @ m"

text \<open>The end of \<open>executeOne\<close>: status, error, and the fields written to the two rows.\<close>

definition finishStatus :: "jobRuntime \<Rightarrow> jobRow \<Rightarrow> handlerEnd option \<Rightarrow> ms \<Rightarrow> jobStatus \<times> string option \<times> ms option" where
  "finishStatus rt job end' now =
     (case runOutcome rt job end' of (status, err, _) \<Rightarrow>
        case nextRunAfter rt (jbCron job) (jbTimezone job) now of
          Inr next_run \<Rightarrow> (status, err, next_run)
        | Inl m \<Rightarrow> (JobFailed, Some (appendError err m), None))"

definition recordRun :: "ms \<Rightarrow> jobStatus \<Rightarrow> string option \<Rightarrow> ms option \<Rightarrow> jobRow \<Rightarrow> jobRow" where
  "recordRun now status err nextRunAt j =
     j\<lparr>jbLastRunAt := Some now, jbLastStatus := Some status, jbLastError := err, jbLockedAt := None,
       jbNextRunAt := (case nextRunAt of Some n \<Rightarrow> n | None \<Rightarrow> jbNextRunAt j),
       jbEnabled := (case nextRunAt of Some _ \<Rightarrow> jbEnabled j | None \<Rightarrow> False)\<rparr>"

definition finishRun :: "jobRuntime \<Rightarrow> uuid \<Rightarrow> jobRow \<Rightarrow> handlerEnd option \<Rightarrow> ms \<Rightarrow> ms \<Rightarrow> jobsDb \<Rightarrow> jobsDb \<times> jobStatus" where
  "finishRun rt historyId job end' completedAt now db =
     (case finishStatus rt job end' now of (status, err, nextRunAt) \<Rightarrow>
       (db\<lparr>history := updateWhere (\<lambda>h. hiId h = historyId)
             (\<lambda>h. h\<lparr>hiStatus := (if status = JobOk then HistoryCompleted else HistoryFailed),
                    hiResult := snd (snd (runOutcome rt job end')), hiError := err, hiCompletedAt := Some completedAt\<rparr>)
             (history db),
           jobs := updateWhere (\<lambda>j. jbId j = jbId job)
             (recordRun now status err nextRunAt)
             (jobs db)\<rparr>, status))"

text \<open>\<open>ids\<close> and \<open>stamps\<close> give the history id and the completion time of a run without a handler.\<close>

definition executeOne ::
    "jobRuntime \<Rightarrow> jobHandler jobDefinition list \<Rightarrow> (jobRow \<Rightarrow> uuid \<times> ms) \<Rightarrow> jobRow \<Rightarrow> ms \<Rightarrow> jobsDb \<Rightarrow> jobsDb \<times> jobStatus" where
  "executeOne rt reg ids job now db =
     (let ctx = jobContextOf job now in
      case getJobHandler reg (jbKind job) of
        None \<Rightarrow> finishRun rt (fst (ids job)) job None (snd (ids job)) now (startRun rt (fst (ids job)) job now db)
      | Some handler \<Rightarrow>
          (let run = handler ctx;
               db1 = startRun rt (ruHistoryId run) job now db;
               db2 = fold (enqueueFor ctx) (ruMails run) db1
           in finishRun rt (ruHistoryId run) job (Some (ruEnd run)) (ruCompletedAt run) now (ruMeanwhile run db2)))"

record runDueResult =
  rdClaimed :: nat
  rdOk :: nat
  rdFailed :: nat

fun executeAll ::
    "jobRuntime \<Rightarrow> jobHandler jobDefinition list \<Rightarrow> (jobRow \<Rightarrow> uuid \<times> ms) \<Rightarrow> ms \<Rightarrow> jobRow list \<Rightarrow> jobsDb \<Rightarrow> runDueResult
      \<Rightarrow> jobsDb \<times> runDueResult" where
  "executeAll rt reg ids now [] db res = (db, res)"
| "executeAll rt reg ids now (job # rest) db res =
     (case executeOne rt reg ids job now db of (db1, outcome) \<Rightarrow>
        executeAll rt reg ids now rest db1
          (if outcome = JobOk then rdOk_update Suc res else rdFailed_update Suc res))"

definition runDueScheduledJobs ::
    "jobRuntime \<Rightarrow> jobHandler jobDefinition list \<Rightarrow> (jobRow \<Rightarrow> uuid \<times> ms) \<Rightarrow> uuid set \<Rightarrow> ms \<Rightarrow> int option \<Rightarrow> jobsDb
      \<Rightarrow> jobsDb \<times> runDueResult" where
  "runDueScheduledJobs rt reg ids locked now limit db =
     (case claimDueJobs locked now limit (jobs db) of
        (t, claimed) \<Rightarrow>
          executeAll rt reg ids now claimed (db\<lparr>jobs := t\<rparr>) \<lparr>rdClaimed = length claimed, rdOk = 0, rdFailed = 0\<rparr>)"

section \<open>Claims and runs\<close>

definition lockedSince :: "ms \<Rightarrow> jobRow \<Rightarrow> bool" where
  "lockedSince now j \<longleftrightarrow> jbLockedAt j = Some now"

interpretation jobQueue: claim_queue jbId dueJob jbNextRunAt lockJob lockedSince STALE_JOB_LOCK_MS
  by unfold_locales (auto simp: dueJob_def lockJob_def lockedSince_def split: option.splits)

lemma claimed_job: "j \<in> set (snd (claimDueJobs locked now limit t)) \<Longrightarrow> j \<in> set t \<and> dueJob now j"
  unfolding claimDueJobs_def Let_def snd_conv using jobQueue.pick_subset by blast

text \<open>A row after its run at \<open>now\<close>: unlocked, and either disabled or due strictly later.\<close>

definition ranAt :: "ms \<Rightarrow> jobRow \<Rightarrow> bool" where
  "ranAt now j \<longleftrightarrow> jbLockedAt j = None \<and> jbLastRunAt j = Some now \<and> (jbEnabled j \<longrightarrow> now < jbNextRunAt j)"

lemma ranAt_not_due: "ranAt now j \<Longrightarrow> now' \<le> now \<Longrightarrow> \<not> dueJob now' j"
  by (auto simp: ranAt_def dueJob_def)

definition strictCron :: "jobRuntime \<Rightarrow> bool" where
  "strictCron rt \<longleftrightarrow> (\<forall>c z a n. jrNextRun rt c z a = Inr (Some n) \<longrightarrow> a < n)"

lemma finishStatus_later:
  "strictCron rt \<Longrightarrow> finishStatus rt job e now = (st, err, Some n) \<Longrightarrow> now < n"
  by (auto simp: finishStatus_def nextRunAfter_def strictCron_def split: prod.splits sum.splits)

lemma recordRun_ran: "(\<And>n. nx = Some n \<Longrightarrow> now < n) \<Longrightarrow> ranAt now (recordRun now st err nx j)"
  by (simp add: ranAt_def recordRun_def split: option.splits)

lemma recordRun_id [row_simps]: "jbId (recordRun now st err nx j) = jbId j"
  by (simp add: recordRun_def)

lemma finishRun_rows:
  assumes "strictCron rt"
  shows "map jbId (jobs (fst (finishRun rt hid job e done' now db))) = map jbId (jobs db) \<and>
    map hiId (history (fst (finishRun rt hid job e done' now db))) = map hiId (history db) \<and>
    (\<forall>j\<in>set (jobs (fst (finishRun rt hid job e done' now db))).
       if jbId j = jbId job then ranAt now j else j \<in> set (jobs db))"
proof -
  obtain st err nx where f: "finishStatus rt job e now = (st, err, nx)" by (metis prod_cases3)
  have later: "now < n" if "nx = Some n" for n using finishStatus_later [OF assms] f that by blast
  show ?thesis
    unfolding finishRun_def f
    by (auto simp: map_updateWhere set_updateWhere row_simps later split: if_splits intro: recordRun_ran)
qed

lemma enqueueFor_rows [row_simps]:
  "jobs (enqueueFor ctx m db) = jobs db" "history (enqueueFor ctx m db) = history db"
  by (auto simp: enqueueFor_def split: prod.splits sum.splits)

lemma enqueue_fold_rows:
  "jobs (fold (enqueueFor ctx) ms db) = jobs db \<and> history (fold (enqueueFor ctx) ms db) = history db"
  by (induction ms arbitrary: db) (simp_all add: row_simps)

lemma startRun_rows [row_simps]:
  "jobs (startRun rt hid job now db) = jobs db"
  "map hiId (history (startRun rt hid job now db)) = map hiId (history db) @ [hid]"
  by (simp_all add: startRun_def)

definition quietHandlers :: "jobHandler jobDefinition list \<Rightarrow> bool" where
  "quietHandlers reg \<longleftrightarrow> (\<forall>d\<in>set reg. \<forall>ctx. ruMeanwhile (jdHandler d ctx) = (\<lambda>x. x))"

lemma executeOne_rows:
  assumes "strictCron rt" and "quietHandlers reg"
  shows "map jbId (jobs (fst (executeOne rt reg ids job now db))) = map jbId (jobs db) \<and>
    length (history (fst (executeOne rt reg ids job now db))) = Suc (length (history db)) \<and>
    (\<forall>j\<in>set (jobs (fst (executeOne rt reg ids job now db))).
       if jbId j = jbId job then ranAt now j else j \<in> set (jobs db))"
proof (cases "getJobHandler reg (jbKind job)")
  case None
  then have e: "executeOne rt reg ids job now db =
      finishRun rt (fst (ids job)) job None (snd (ids job)) now (startRun rt (fst (ids job)) job now db)"
    by (simp add: executeOne_def)
  have "length (history (startRun rt (fst (ids job)) job now db)) = Suc (length (history db))"
    by (simp add: startRun_def)
  then show ?thesis
    unfolding e using finishRun_rows [OF assms(1)] by (metis startRun_rows(1) length_map)
next
  case (Some h)
  define run where "run = h (jobContextOf job now)"
  define db2 where "db2 = fold (enqueueFor (jobContextOf job now)) (ruMails run) (startRun rt (ruHistoryId run) job now db)"
  from Some assms(2) have "ruMeanwhile run = (\<lambda>x. x)"
    by (auto simp: getJobHandler_def quietHandlers_def run_def dest!: find_Some_in)
  with Some have e: "executeOne rt reg ids job now db =
      finishRun rt (ruHistoryId run) job (Some (ruEnd run)) (ruCompletedAt run) now db2"
    by (simp add: executeOne_def run_def db2_def Let_def)
  have j: "jobs db2 = jobs db" and l: "length (history db2) = Suc (length (history db))"
    unfolding db2_def using enqueue_fold_rows by (simp add: row_simps, simp add: enqueue_fold_rows startRun_def)
  show ?thesis
    unfolding e using finishRun_rows [OF assms(1)] j l by (metis length_map)
qed

lemma executeAll_rows:
  assumes "strictCron rt" and "quietHandlers reg" and "executeAll rt reg ids now rows db res = (db', res')"
  shows "map jbId (jobs db') = map jbId (jobs db) \<and> length (history db') = length (history db) + length rows \<and>
    rdClaimed res' = rdClaimed res \<and> rdOk res' + rdFailed res' = rdOk res + rdFailed res + length rows \<and>
    (\<forall>j\<in>set (jobs db'). if jbId j \<in> jbId ` set rows then ranAt now j else j \<in> set (jobs db))"
  using assms(3)
proof (induction rows arbitrary: db res)
  case (Cons job rows)
  obtain db1 st where one: "executeOne rt reg ids job now db = (db1, st)" by fastforce
  define res1 where "res1 = (if st = JobOk then rdOk_update Suc res else rdFailed_update Suc res)"
  from Cons.prems one have rest: "executeAll rt reg ids now rows db1 res1 = (db', res')"
    by (simp add: res1_def)
  have res1: "rdClaimed res1 = rdClaimed res" "rdOk res1 + rdFailed res1 = Suc (rdOk res + rdFailed res)"
    by (simp_all add: res1_def)
  from executeOne_rows [OF assms(1,2), of ids job now db] one
  have step: "map jbId (jobs db1) = map jbId (jobs db)" "length (history db1) = Suc (length (history db))"
    "\<forall>j\<in>set (jobs db1). if jbId j = jbId job then ranAt now j else j \<in> set (jobs db)"
    by simp_all
  note IH = Cons.IH [OF rest]
  have "if jbId j \<in> jbId ` set (job # rows) then ranAt now j else j \<in> set (jobs db)" if j: "j \<in> set (jobs db')" for j
  proof (cases "jbId j \<in> jbId ` set rows")
    case True
    with IH j have "ranAt now j" by metis
    with True show ?thesis by simp
  next
    case False
    with IH j have "j \<in> set (jobs db1)" by metis
    with step(3) False show ?thesis by auto
  qed
  with IH step res1 show ?case by simp
qed simp

text \<open>
  What a run leaves behind: how the handler's call with the job's context ended, as the row records it; the
  mails the call queued; and the run's history row.
\<close>

definition handlerEndOf :: "jobHandler jobDefinition list \<Rightarrow> ms \<Rightarrow> jobRow \<Rightarrow> handlerEnd option" where
  "handlerEndOf reg now job = map_option (\<lambda>h. ruEnd (h (jobContextOf job now))) (getJobHandler reg (jbKind job))"

definition runRecorded :: "jobRuntime \<Rightarrow> jobHandler jobDefinition list \<Rightarrow> ms \<Rightarrow> jobRow \<Rightarrow> jobRow \<Rightarrow> bool" where
  "runRecorded rt reg now job j \<longleftrightarrow>
     (case finishStatus rt job (handlerEndOf reg now job) now of (status, err, nextRunAt) \<Rightarrow>
        jbLastStatus j = Some status \<and> jbLastError j = err \<and>
        (case nextRunAt of Some n \<Rightarrow> jbNextRunAt j = n | None \<Rightarrow> \<not> jbEnabled j))"

definition queueRunMails :: "jobHandler jobDefinition list \<Rightarrow> ms \<Rightarrow> jobRow \<Rightarrow> jobsDb \<Rightarrow> jobsDb" where
  "queueRunMails reg now job db =
     (case getJobHandler reg (jbKind job) of
        None \<Rightarrow> db
      | Some h \<Rightarrow> fold (enqueueFor (jobContextOf job now)) (ruMails (h (jobContextOf job now))) db)"

definition historyStart :: "historyRow \<Rightarrow> string \<times> uuid option \<times> ms" where
  "historyStart h = (hiJobType h, hiOrg h, hiStartedAt h)"

lemma enqueue_outbox:
  "outbox a = outbox b \<Longrightarrow> outbox (fold (enqueueFor ctx) ms a) = outbox (fold (enqueueFor ctx) ms b)"
proof (induction ms arbitrary: a b)
  case (Cons m ms)
  from Cons.prems have "outbox (enqueueFor ctx m a) = outbox (enqueueFor ctx m b)"
    by (simp add: enqueueFor_def split: prod.splits sum.splits)
  then show ?case unfolding fold_simps by (rule Cons.IH)
qed simp

lemma queueRunMails_outbox: "outbox a = outbox b \<Longrightarrow> outbox (queueRunMails reg now job a) = outbox (queueRunMails reg now job b)"
  unfolding queueRunMails_def
  by (cases "getJobHandler reg (jbKind job)") (simp_all only: option.case, rule enqueue_outbox)

lemma queueAll_outbox:
  "outbox a = outbox b \<Longrightarrow> outbox (fold (queueRunMails reg now) rows a) = outbox (fold (queueRunMails reg now) rows b)"
proof (induction rows arbitrary: a b)
  case (Cons r rows)
  from queueRunMails_outbox [OF Cons.prems] show ?case unfolding fold_simps by (rule Cons.IH)
qed simp

lemma finishRun_leaves:
  assumes "finishStatus rt job e now = (st, err, nx)"
  shows "jobs (fst (finishRun rt hid job e done' now db)) = updateWhere (\<lambda>j. jbId j = jbId job) (recordRun now st err nx) (jobs db)"
    and "outbox (fst (finishRun rt hid job e done' now db)) = outbox db"
    and "map historyStart (history (fst (finishRun rt hid job e done' now db))) = map historyStart (history db)"
  unfolding finishRun_def assms prod.case fst_conv
  by (simp_all add: map_updateWhere historyStart_def)

lemma startRun_leaves:
  "outbox (startRun rt hid job now db) = outbox db"
  "map historyStart (history (startRun rt hid job now db)) = map historyStart (history db) @ [(jbKind job, jbOrg job, now)]"
  by (simp_all add: startRun_def historyStart_def)

lemma executeOne_leaves:
  assumes "quietHandlers reg"
  shows "(\<forall>j\<in>set (jobs (fst (executeOne rt reg ids job now db))). jbId j = jbId job \<longrightarrow> runRecorded rt reg now job j) \<and>
    outbox (fst (executeOne rt reg ids job now db)) = outbox (queueRunMails reg now job db) \<and>
    map historyStart (history (fst (executeOne rt reg ids job now db))) =
      map historyStart (history db) @ [(jbKind job, jbOrg job, now)]"
proof -
  obtain st err nx where f: "finishStatus rt job (handlerEndOf reg now job) now = (st, err, nx)" by (metis prod_cases3)
  have rec: "runRecorded rt reg now job j"
    if "j \<in> set (updateWhere (\<lambda>j. jbId j = jbId job) (recordRun now st err nx) t)" "jbId j = jbId job" for j t
    using that(1)
  proof (cases rule: in_updateWhereE)
    case (1 r)
    then show ?thesis by (simp add: runRecorded_def f recordRun_def split: option.splits)
  next
    case 2
    with that(2) show ?thesis by simp
  qed
  show ?thesis
  proof (cases "getJobHandler reg (jbKind job)")
    case None
    then have e: "executeOne rt reg ids job now db =
        finishRun rt (fst (ids job)) job (handlerEndOf reg now job) (snd (ids job)) now (startRun rt (fst (ids job)) job now db)"
      by (simp add: executeOne_def handlerEndOf_def)
    show ?thesis
      unfolding e finishRun_leaves [OF f] startRun_leaves using rec None by (auto simp: queueRunMails_def)
  next
    case (Some h)
    define run where "run = h (jobContextOf job now)"
    let ?db1 = "startRun rt (ruHistoryId run) job now db"
    define db2 where "db2 = fold (enqueueFor (jobContextOf job now)) (ruMails run) ?db1"
    from Some assms have "ruMeanwhile run = (\<lambda>x. x)"
      by (auto simp: getJobHandler_def quietHandlers_def run_def dest!: find_Some_in)
    with Some have e: "executeOne rt reg ids job now db =
        finishRun rt (ruHistoryId run) job (handlerEndOf reg now job) (ruCompletedAt run) now db2"
      by (simp add: executeOne_def run_def db2_def handlerEndOf_def Let_def)
    have "outbox db2 = outbox (queueRunMails reg now job db)"
      unfolding db2_def queueRunMails_def Some option.case run_def by (rule enqueue_outbox) (rule startRun_leaves(1))
    moreover have "history db2 = history ?db1" unfolding db2_def using enqueue_fold_rows by blast
    ultimately show ?thesis
      unfolding e finishRun_leaves [OF f] using rec by (auto simp: startRun_leaves)
  qed
qed

lemma executeAll_leaves:
  assumes "strictCron rt" and "quietHandlers reg" and "executeAll rt reg ids now rows db res = (db', res')" and "distinct (map jbId rows)"
  shows "(\<forall>r\<in>set rows. \<forall>j\<in>set (jobs db'). jbId j = jbId r \<longrightarrow> runRecorded rt reg now r j) \<and>
    outbox db' = outbox (fold (queueRunMails reg now) rows db) \<and>
    map historyStart (history db') = map historyStart (history db) @ map (\<lambda>r. (jbKind r, jbOrg r, now)) rows"
  using assms(3,4)
proof (induction rows arbitrary: db res)
  case (Cons job rows)
  obtain db1 st where one: "executeOne rt reg ids job now db = (db1, st)" by fastforce
  then obtain res1 where rest: "executeAll rt reg ids now rows db1 res1 = (db', res')"
    using Cons.prems(1) by auto
  from executeOne_leaves [OF assms(2), of rt ids job now db] one
  have step: "\<forall>j\<in>set (jobs db1). jbId j = jbId job \<longrightarrow> runRecorded rt reg now job j"
    "outbox db1 = outbox (queueRunMails reg now job db)"
    "map historyStart (history db1) = map historyStart (history db) @ [(jbKind job, jbOrg job, now)]" by simp_all
  have apart: "jbId job \<notin> jbId ` set rows" using Cons.prems(2) by simp
  have "runRecorded rt reg now job j" if "j \<in> set (jobs db')" "jbId j = jbId job" for j
  proof -
    from executeAll_rows [OF assms(1,2) rest] that apart have "j \<in> set (jobs db1)" by metis
    with step(1) that(2) show ?thesis by blast
  qed
  moreover have "outbox (fold (queueRunMails reg now) rows db1) = outbox (fold (queueRunMails reg now) rows (queueRunMails reg now job db))"
    by (rule queueAll_outbox) (rule step(2))
  ultimately show ?case using Cons.IH [OF rest] Cons.prems(2) step(3) by simp
qed simp

section \<open>Properties\<close>

text \<open>
  C30. Due jobs run once and their schedule moves on. A pass claims due enabled jobs that nobody holds, at
  most its limit (the one it was given, clamped to 1 to 200), and leaves such a job out only when the limit
  is reached by jobs due no later. As long as nothing else writes these tables while a handler runs, it
  calls the handler of each claimed job once: one history row per job, in the order of the claim, the
  mails of the calls queued in that order, and the row of the job with the status and the error the call
  ended with. Each is left unlocked, stamped with the pass's clock and due strictly later (the cron library
  only names later times) or disabled, whatever its handler did; so a pass at the same or an earlier clock takes none of them again, and while a
  run is in progress no other replica takes its job for 15 minutes.
\<close>

theorem due_jobs_run_once_and_advance:
  assumes "strictCron rt" and "quietHandlers reg" and "distinct (map jbId (jobs db))"
    and "claimDueJobs locked now limit (jobs db) = (t1, rows)"
    and "runDueScheduledJobs rt reg ids locked now limit db = (db', res)"
  shows "(\<forall>r\<in>set rows. r \<in> set (jobs db) \<and> dueJob now r \<and> jbId r \<notin> locked) \<and>
    length rows \<le> nat (min (max (case limit of Some n \<Rightarrow> n | None \<Rightarrow> 20) 1) 200) \<and>
    (\<forall>j\<in>set (jobs db). dueJob now j \<longrightarrow> jbId j \<notin> locked \<longrightarrow> j \<notin> set rows \<longrightarrow>
       length rows = nat (min (max (case limit of Some n \<Rightarrow> n | None \<Rightarrow> 20) 1) 200) \<and>
       (\<forall>r\<in>set rows. jbNextRunAt r \<le> jbNextRunAt j)) \<and>
    rdClaimed res = length rows \<and> rdOk res + rdFailed res = length rows \<and>
    (\<forall>r\<in>set rows. \<forall>j\<in>set (jobs db'). jbId j = jbId r \<longrightarrow> runRecorded rt reg now r j) \<and>
    outbox db' = outbox (fold (queueRunMails reg now) rows db) \<and>
    map historyStart (history db') = map historyStart (history db) @ map (\<lambda>r. (jbKind r, jbOrg r, now)) rows \<and>
    map jbId (jobs db') = map jbId (jobs db) \<and> length (history db') = length (history db) + length rows \<and>
    (\<forall>j\<in>set (jobs db'). if jbId j \<in> jbId ` set rows then ranAt now j else j \<in> set (jobs db)) \<and>
    (\<forall>now' locked' limit'. now' \<le> now \<longrightarrow>
       jbId ` set rows \<inter> jbId ` set (snd (claimDueJobs locked' now' limit' (jobs db'))) = {}) \<and>
    (\<forall>now' locked' limit'. now' \<le> now + STALE_JOB_LOCK_MS \<longrightarrow>
       jbId ` set rows \<inter> jbId ` set (snd (claimDueJobs locked' now' limit' t1)) = {})"
proof -
  from assms(4) have rows: "rows = pickDue jbId (dueJob now) jbNextRunAt locked (runLimit limit) (jobs db)"
    and t1: "t1 = markRows jbId (lockJob now) rows (jobs db)"
    by (auto simp: claimDueJobs_def Let_def)
  from assms(4,5) have exec: "executeAll rt reg ids now rows (db\<lparr>jobs := t1\<rparr>) \<lparr>rdClaimed = length rows, rdOk = 0, rdFailed = 0\<rparr>
      = (db', res)"
    by (simp add: runDueScheduledJobs_def)
  note run = executeAll_rows [OF assms(1,2) exec]
  then have all: "map jbId (jobs db') = map jbId t1" "length (history db') = length (history db) + length rows"
    "rdClaimed res = length rows" "rdOk res + rdFailed res = length rows"
    "\<forall>j\<in>set (jobs db'). if jbId j \<in> jbId ` set rows then ranAt now j else j \<in> set t1"
    by (auto split: if_splits)
  let ?n = "nat (min (max (case limit of Some n \<Rightarrow> n | None \<Rightarrow> 20) 1) 200)"
  have len: "length rows \<le> ?n"
    unfolding rows using jobQueue.pick_bounds(1) [of now locked "runLimit limit" "jobs db"] by (simp flip: runLimit_def)
  have complete: "length rows = ?n \<and> (\<forall>r\<in>set rows. jbNextRunAt r \<le> jbNextRunAt j)"
    if "j \<in> set (jobs db)" "dueJob now j" "jbId j \<notin> locked" "j \<notin> set rows" for j
    using jobQueue.pick_complete [OF that(1-3)] that(4) unfolding rows by (simp flip: runLimit_def)
  have picked: "r \<in> set (jobs db) \<and> dueJob now r \<and> jbId r \<notin> locked" if "r \<in> set rows" for r
    using jobQueue.pick_subset that unfolding rows by blast
  have "distinct (map jbId rows)" unfolding rows by (rule jobQueue.pick_distinct [OF assms(3)])
  from executeAll_leaves [OF assms(1,2) exec this]
  have leaves: "\<forall>r\<in>set rows. \<forall>j\<in>set (jobs db'). jbId j = jbId r \<longrightarrow> runRecorded rt reg now r j"
    "outbox db' = outbox (fold (queueRunMails reg now) rows db)"
    "map historyStart (history db') = map historyStart (history db) @ map (\<lambda>r. (jbKind r, jbOrg r, now)) rows"
    using queueAll_outbox [of "db\<lparr>jobs := t1\<rparr>" db reg now rows] by simp_all
  have ids: "map jbId (jobs db') = map jbId (jobs db)" using all(1) jobQueue.mark_ids by (simp add: t1)
  have rowsOk: "if jbId j \<in> jbId ` set rows then ranAt now j else j \<in> set (jobs db)" if "j \<in> set (jobs db')" for j
    using all(5) that jobQueue.unmarked_row [of j now rows "jobs db"] by (metis t1)
  have again: "jbId ` set rows \<inter> jbId ` set (snd (claimDueJobs locked' now' limit' (jobs db'))) = {}"
    if "now' \<le> now" for now' locked' limit'
  proof -
    have "jbId j \<notin> jbId ` set rows" if j: "j \<in> set (snd (claimDueJobs locked' now' limit' (jobs db')))" for j
    proof
      assume mem: "jbId j \<in> jbId ` set rows"
      from j have db: "j \<in> set (jobs db')" and due: "dueJob now' j" using claimed_job by blast+
      from rowsOk [OF db] mem have "ranAt now j" by simp
      with due \<open>now' \<le> now\<close> show False using ranAt_not_due by blast
    qed
    then show ?thesis by (rule disjoint_keysI)
  qed
  have locks: "lockedSince now j" if "j \<in> set t1" "jbId j \<in> jbId ` set rows" for j
    using jobQueue.marked_is_held [OF assms(3)] that unfolding t1 rows by blast
  have during: "jbId ` set rows \<inter> jbId ` set (snd (claimDueJobs locked' now' limit' t1)) = {}"
    if "now' \<le> now + STALE_JOB_LOCK_MS" for now' locked' limit'
    unfolding claimDueJobs_def Let_def snd_conv
    by (rule jobQueue.held_rows_are_not_picked [OF locks that])
  from all(2-4) picked len complete leaves ids rowsOk again during show ?thesis by blast
qed

text \<open>
  A run that is repeated for the same fire time (its lock went stale after a crash) queues nothing
  twice: a mail enqueued through the context under the context's idempotency key of the same suffix, in any later
  run of that fire time and whatever else it says, finds the first row and changes nothing.
\<close>

theorem job_mail_is_queued_once_per_fire:
  assumes "eiKey (jmInput m) = Some (ctxIdempotencyKey rt ctx suffix)"
    and "enqueueEmail i n d (ctxInput ctx m) t = Inr (t', row, created)"
    and "jbId (jcJob ctx2) = jbId (jcJob ctx)" "jbKind (jcJob ctx2) = jbKind (jcJob ctx)" "jcScheduledFor ctx2 = jcScheduledFor ctx"
    and "eiKey (jmInput m2) = Some (ctxIdempotencyKey rt ctx2 suffix)" and "row \<in> set (outbox db2)"
  shows "enqueueFor ctx2 (i2, n2, d2, m2) db2 = db2 \<and> obKey row = Some (trim (ctxIdempotencyKey rt ctx suffix))"
proof -
  let ?k = "ctxIdempotencyKey rt ctx suffix"
  have ne: "trim ?k \<noteq> []"
    by (rule trim_nonempty) (simp_all add: ctxIdempotencyKey_def jsSpace_def)
  have k1: "outboxKey (ctxInput ctx m) = Some (trim ?k)"
    using assms(1) ne by (simp add: outboxKey_def ctxInput_def)
  have k2: "outboxKey (ctxInput ctx2 m2) = Some (trim ?k)"
    using assms(3-6) ne by (simp add: outboxKey_def ctxInput_def ctxIdempotencyKey_def)
  from assms(2) k1 have key: "obKey row = Some (trim ?k)"
    by (auto simp: enqueueEmail_def Let_def newOutboxRow_def split: option.splits dest: find_Some_in)
  with assms(7) have "List.find (\<lambda>r. obKey r = Some (trim ?k)) (outbox db2) \<noteq> None"
    by (auto simp: find_None_iff_all)
  with k2 have "enqueueFor ctx2 (i2, n2, d2, m2) db2 = db2"
    by (auto simp: enqueueFor_def enqueueEmail_def Let_def split: option.splits)
  with key show ?thesis by blast
qed

text \<open>
  A schedule that is accepted can run: its kind has a handler, its cron expression and zone are valid,
  its first two fires are at least the minimum interval apart (rounded to seconds), and the new row is
  appended unlocked, not yet due, and due once its first fire time has come if it is enabled.
\<close>

theorem accepted_schedule_can_run:
  assumes "strictCron rt" and "createScheduledJob rt reg newId now inp t = Inr (t', row)"
  shows "t' = t @ [row] \<and> jbId row = newId \<and> getJobHandler reg (jbKind row) \<noteq> None \<and> jrCronError rt (jbCron row) = None \<and>
    isValidTimezone rt (jbTimezone row) \<and> \<not> dueJob now row \<and>
    (\<forall>later\<ge>jbNextRunAt row. dueJob later row = jbEnabled row) \<and>
    (\<exists>i. shortestIntervalSeconds rt (jbCron row) (jbTimezone row) now = Inr i \<and>
       (\<forall>s. i = Some s \<longrightarrow> MIN_INTERVAL_SECONDS rt \<le> of_int s))"
proof -
  from assms(2) have row: "t' = t @ [row]" "jbId row = newId" "jbLockedAt row = None"
    "validateSchedule rt reg (jbKind row) (jbCron row) (jbTimezone row) now = Inr (jbNextRunAt row)"
    by (auto simp: createScheduledJob_def Let_def ebind_Inr_iff)
  then obtain i where v: "isJobKindRegistered reg (jbKind row)" "jrCronError rt (jbCron row) = None"
    "isValidTimezone rt (jbTimezone row)" "shortestIntervalSeconds rt (jbCron row) (jbTimezone row) now = Inr i"
    "\<forall>s. i = Some s \<longrightarrow> MIN_INTERVAL_SECONDS rt \<le> of_int s"
    "nextRunAfter rt (jbCron row) (jbTimezone row) now = Inr (Some (jbNextRunAt row))"
    by (auto simp: validateSchedule_def assertValidCron_def assertValidTimezone_def split: if_splits option.splits sum.splits)
  have "getJobHandler reg (jbKind row) \<noteq> None"
    using v(1) by (auto simp: isJobKindRegistered_def getJobHandler_def find_None_iff_all list_ex_iff)
  moreover have "now < jbNextRunAt row" using v(6) assms(1) by (auto simp: nextRunAfter_def strictCron_def)
  ultimately show ?thesis using row v by (auto simp: dueJob_def)
qed

section \<open>Examples\<close>

definition exampleRuntime :: jobRuntime where
  "exampleRuntime = \<lparr>jrCronError = (\<lambda>_. None), jrNextRun = (\<lambda>_ _ a. Inr (Some (a + 600000))),
     jrNextTwo = (\<lambda>_ _ a. Inr [a + 600000, a + 1200000]), jrZoneOk = (\<lambda>_. True), jrIso = (\<lambda>_. ''1970-01-01T00:00:00.000Z''),
     jrShow = (\<lambda>_. ''300''), jrEnv = (\<lambda>_. None)\<rparr>"

definition exampleJobMail :: jobMail where
  "exampleJobMail = \<lparr>jmInput = exampleMail, jmOrg = None, jmSource = None\<rparr>"

definition exampleRun :: jobRun where
  "exampleRun = \<lparr>ruHistoryId = ''h1'', ruMails = [], ruEnd = HReturned None, ruMeanwhile = (\<lambda>x. x), ruCompletedAt = 9\<rparr>"

definition exampleRegistry :: "jobHandler jobDefinition list" where
  "exampleRegistry = [\<lparr>jdKind = ''digest'', jdHandler = (\<lambda>_. exampleRun), jdDescription = []\<rparr>]"

definition exampleJob :: jobRow where
  "exampleJob = \<lparr>jbId = ''j1'', jbOrg = None, jbKind = ''digest'', jbCron = ''*/10 * * * *'', jbTimezone = ''UTC'',
     jbPayload = [], jbEnabled = True, jbNextRunAt = 0, jbLastRunAt = None, jbLastStatus = None, jbLastError = None,
     jbLockedAt = None\<rparr>"

definition exampleJobsDb :: jobsDb where
  "exampleJobsDb = \<lparr>jobs = [exampleJob], history = [], outbox = []\<rparr>"

lemma exampleRuntime_strict: "strictCron exampleRuntime"
  by (simp add: strictCron_def exampleRuntime_def)

lemma example_job_claim: "claimDueJobs {} 5 None (jobs exampleJobsDb) = ([lockJob 5 exampleJob], [exampleJob])"
  by code_simp

theorem due_jobs_run_once_and_advance_witness:
  "rdOk (snd (runDueScheduledJobs exampleRuntime exampleRegistry (\<lambda>_. (''h0'', 0)) {} 5 None exampleJobsDb)) = 1 \<and>
   snd (claimDueJobs {} 5 None (jobs (fst (runDueScheduledJobs exampleRuntime exampleRegistry (\<lambda>_. (''h0'', 0)) {} 5 None exampleJobsDb)))) = []"
proof -
  let ?r = "runDueScheduledJobs exampleRuntime exampleRegistry (\<lambda>_. (''h0'', 0)) {} 5 None exampleJobsDb"
  have quiet: "quietHandlers exampleRegistry" by (simp add: quietHandlers_def exampleRegistry_def exampleRun_def)
  have one: "distinct (map jbId (jobs exampleJobsDb))" by (simp add: exampleJobsDb_def)
  have r: "?r = (fst ?r, snd ?r)" by simp
  note ran = due_jobs_run_once_and_advance [OF exampleRuntime_strict quiet one example_job_claim r]
  have ids: "map jbId (jobs (fst ?r)) = [''j1'']" using ran by (simp add: exampleJobsDb_def exampleJob_def)
  have none: "jbId ` set [exampleJob] \<inter> jbId ` set (snd (claimDueJobs {} 5 None (jobs (fst ?r)))) = {}"
    using ran by blast
  have "j \<notin> set (snd (claimDueJobs {} 5 None (jobs (fst ?r))))" for j
  proof
    assume j: "j \<in> set (snd (claimDueJobs {} 5 None (jobs (fst ?r))))"
    then have "j \<in> set (jobs (fst ?r))"
      using claimed_job by blast
    then have "jbId j \<in> set (map jbId (jobs (fst ?r)))" by simp
    then have "jbId j = ''j1''" unfolding ids by simp
    with none j show False by (simp add: exampleJob_def) (metis imageI)
  qed
  then have "snd (claimDueJobs {} 5 None (jobs (fst ?r))) = []" by (metis list.set_intros(1) list.exhaust)
  moreover have "rdOk (snd ?r) = 1" by code_simp
  ultimately show ?thesis by blast
qed

theorem accepted_schedule_can_run_witness:
  "\<exists>row. createScheduledJob exampleRuntime exampleRegistry ''j1'' 0
     \<lparr>cjKind = ''digest'', cjCron = '' */10 * * * * '', cjTimezone = None, cjPayload = None, cjOrg = None, cjEnabled = None\<rparr> []
     = Inr ([row], row) \<and> \<not> dueJob 0 row \<and> jbNextRunAt row = 600000"
proof -
  let ?c = "createScheduledJob exampleRuntime exampleRegistry ''j1'' 0
     \<lparr>cjKind = ''digest'', cjCron = '' */10 * * * * '', cjTimezone = None, cjPayload = None, cjOrg = None, cjEnabled = None\<rparr> []"
  have c: "?c = Inr ([exampleJob\<lparr>jbNextRunAt := 600000\<rparr>], exampleJob\<lparr>jbNextRunAt := 600000\<rparr>)" by code_simp
  from accepted_schedule_can_run [OF exampleRuntime_strict c] c show ?thesis by auto
qed

definition exampleCtx :: jobContext where
  "exampleCtx = jobContextOf exampleJob 5"

definition exampleKeyedMail :: jobMail where
  "exampleKeyedMail = exampleJobMail\<lparr>jmInput := exampleMail\<lparr>eiKey := Some (ctxIdempotencyKey exampleRuntime exampleCtx ''u1'')\<rparr>\<rparr>"

theorem job_mail_is_queued_once_per_fire_witness:
  "\<exists>row. enqueueEmail ''m1'' 5 5 (ctxInput exampleCtx exampleKeyedMail) [] = Inr ([row], row, True) \<and>
     enqueueFor (jobContextOf exampleJob 1000000) (''m2'', 9, 9, exampleKeyedMail) (exampleJobsDb\<lparr>outbox := [row]\<rparr>)
       = exampleJobsDb\<lparr>outbox := [row]\<rparr>"
proof -
  let ?row = "newOutboxRow ''m1'' 5 5 (ctxInput exampleCtx exampleKeyedMail)"
  have e: "enqueueEmail ''m1'' 5 5 (ctxInput exampleCtx exampleKeyedMail) [] = Inr ([?row], ?row, True)" by code_simp
  have k: "eiKey (jmInput exampleKeyedMail) = Some (ctxIdempotencyKey exampleRuntime exampleCtx ''u1'')"
    by (simp add: exampleKeyedMail_def)
  have k2: "eiKey (jmInput exampleKeyedMail) = Some (ctxIdempotencyKey exampleRuntime (jobContextOf exampleJob 1000000) ''u1'')"
    by (simp add: exampleKeyedMail_def ctxIdempotencyKey_def exampleCtx_def jobContextOf_def)
  from job_mail_is_queued_once_per_fire [OF k e _ _ _ k2, of "exampleJobsDb\<lparr>outbox := [?row]\<rparr>" "''m2''" 9 9] e
  show ?thesis by (auto simp: exampleCtx_def jobContextOf_def)
qed

text \<open>
  The minimum interval is tested on the first two fires after the clock only: a schedule whose third
  fire follows the second by a second is accepted.
\<close>

definition irregularRuntime :: jobRuntime where
  "irregularRuntime = exampleRuntime\<lparr>jrNextRun := (\<lambda>_ _ a. Inr (List.find (\<lambda>n. a < n) [600000, 1200000, 1201000])),
     jrNextTwo := (\<lambda>_ _ a. Inr (take 2 (filter (\<lambda>n. a < n) [600000, 1200000, 1201000])))\<rparr>"

lemma irregular_schedule_is_accepted:
  "validateSchedule irregularRuntime exampleRegistry ''digest'' ''cron'' ''UTC'' 0 = Inr 600000 \<and>
   nextRunAfter irregularRuntime ''cron'' ''UTC'' 1200000 = Inr (Some 1201000)"
  by (rule conjI; code_simp)

text \<open>
  The end of a run writes the next fire time of the cadence it was claimed with, so a cadence changed
  while the handler runs keeps its new cron but loses its own next fire time.
\<close>

definition twoCadences :: jobRuntime where
  "twoCadences = exampleRuntime\<lparr>jrNextRun := (\<lambda>c _ a. Inr (Some (if c = ''weekly'' then 604800000 else a + 600000)))\<rparr>"

definition changesCadence :: "jobsDb \<Rightarrow> jobsDb" where
  "changesCadence db = db\<lparr>jobs := fst (updateScheduledJob twoCadences exampleRegistry (\<lambda>t. t) 6 ''j1''
     \<lparr>ujCron = Some ''weekly'', ujTimezone = None, ujPayload = None, ujEnabled = None\<rparr> (jobs db))\<rparr>"

lemma cadence_changed_during_a_run_is_overwritten:
  "map (\<lambda>j. (jbCron j, jbNextRunAt j)) (jobs (changesCadence exampleJobsDb)) = [(''weekly'', 604800000)] \<and>
   map (\<lambda>j. (jbCron j, jbNextRunAt j)) (jobs (fst (runDueScheduledJobs twoCadences
      [\<lparr>jdKind = ''digest'', jdHandler = (\<lambda>_. exampleRun\<lparr>ruMeanwhile := changesCadence\<rparr>), jdDescription = []\<rparr>]
      (\<lambda>_. (''h0'', 0)) {} 5 None exampleJobsDb))) = [(''weekly'', 600005)]"
  by (rule conjI; code_simp)

end
