(* ===== verification/MailHygiene.thy ===== *)
theory MailHygiene
  imports Outbox
begin

text \<open>
  \<^verbatim>\<open>src/services/mailing/hygiene.ts\<close> with \<open>isReservedRecipientAddress\<close> of
  \<^verbatim>\<open>src/services/email-transport.ts\<close>, and \<^verbatim>\<open>src/services/mailing/sender-policy.ts\<close>:
  which addresses a mailing list may hold, and from which sender a campaign may go out. The DNS
  resolver is a parameter.
\<close>

section \<open>Reserved domains\<close>

definition RESERVED_EXACT_DOMAINS :: "string list" where
  "RESERVED_EXACT_DOMAINS = [''example.com'', ''example.net'', ''example.org'', ''test.com'']"

definition RESERVED_TLDS :: "string list" where
  "RESERVED_TLDS = [''test'', ''example'', ''invalid'', ''localhost'']"

text \<open>\<^verbatim>\<open>replace(/[>.\s]+$/, "")\<close>\<close>

definition stripTail :: "string \<Rightarrow> string" where
  "stripTail s = rev (dropWhile (\<lambda>c. c = CHR ''>'' \<or> c = CHR ''.'' \<or> jsSpace c) (rev s))"

definition isReservedRecipientAddress :: "string \<Rightarrow> bool" where
  "isReservedRecipientAddress to =
     (case splitLast (CHR ''@'') to of
        None \<Rightarrow> False
      | Some (_, rest) \<Rightarrow>
          (let domain = stripTail (toLowerCase (trim rest));
               labels = splitOn (CHR ''.'') domain
           in domain \<noteq> [] \<and>
              (last labels \<in> set RESERVED_TLDS \<or>
               list_ex (\<lambda>i. joinWith ''.'' (drop i labels) \<in> set RESERVED_EXACT_DOMAINS) [0..<length labels - 1])))"

section \<open>Address checks\<close>

datatype addressProblemCode = InvalidAddress | TypoDomain | RoleOrTest | ReservedDomain

datatype addressCheck =
    AddressOk string
  | AddressBad string addressProblemCode string "string option"

definition addrChar :: "char \<Rightarrow> bool" where
  "addrChar c \<longleftrightarrow> \<not> jsSpace c \<and> c \<notin> {CHR ''@'', CHR '','', CHR '';'', CHR ''<'', CHR ''>'', CHR 0x22}"

text \<open>\<^verbatim>\<open>/^[^\s@,;<>"]+@[^\s@,;<>".]+(\.[^\s@,;<>".]+)*\.[a-z]{2,}$/i\<close>\<close>

definition HYGIENE_EMAIL_RE :: "string \<Rightarrow> bool" where
  "HYGIENE_EMAIL_RE s \<longleftrightarrow>
     (case splitOn (CHR ''@'') s of
        [l, d] \<Rightarrow>
          (let ls = splitOn (CHR ''.'') d in
           l \<noteq> [] \<and> list_all addrChar l \<and> 2 \<le> length ls \<and>
           list_all (\<lambda>w. w \<noteq> [] \<and> list_all addrChar w) ls \<and>
           2 \<le> length (last ls) \<and> list_all (\<lambda>c. isLower c \<or> isUpper c) (last ls))
      | _ \<Rightarrow> False)"

definition TYPO_DOMAINS :: "(string \<times> string) list" where
  "TYPO_DOMAINS = [
     (''gmail.co'', ''gmail.com''), (''gmail.cm'', ''gmail.com''), (''gmail.con'', ''gmail.com''),
     (''gmail.om'', ''gmail.com''), (''gmail.cmo'', ''gmail.com''), (''gmail.comm'', ''gmail.com''),
     (''gmail.c'', ''gmail.com''), (''gmial.com'', ''gmail.com''), (''gmai.com'', ''gmail.com''),
     (''gmal.com'', ''gmail.com''), (''gmaill.com'', ''gmail.com''), (''gamil.com'', ''gmail.com''),
     (''gnail.com'', ''gmail.com''), (''gmail.coom'', ''gmail.com''), (''googlemail.co'', ''googlemail.com''),
     (''yaho.com'', ''yahoo.com''), (''yahooo.com'', ''yahoo.com''), (''tahoo.com'', ''yahoo.com''),
     (''yhoo.com'', ''yahoo.com''), (''yahoo.co'', ''yahoo.com''), (''yahoo.cm'', ''yahoo.com''),
     (''yahoo.con'', ''yahoo.com''), (''yaoo.com'', ''yahoo.com''), (''hotmial.com'', ''hotmail.com''),
     (''hotmal.com'', ''hotmail.com''), (''hotmai.com'', ''hotmail.com''), (''hotmil.com'', ''hotmail.com''),
     (''hotmaill.com'', ''hotmail.com''), (''hotmail.co'', ''hotmail.com''), (''hotmail.cm'', ''hotmail.com''),
     (''hotmail.con'', ''hotmail.com''), (''homail.com'', ''hotmail.com''), (''outlok.com'', ''outlook.com''),
     (''outloo.com'', ''outlook.com''), (''outlook.co'', ''outlook.com''), (''outlook.con'', ''outlook.com''),
     (''otlook.com'', ''outlook.com''), (''live.co'', ''live.com''), (''live.con'', ''live.com''),
     (''iclod.com'', ''icloud.com''), (''icloud.co'', ''icloud.com''), (''icloud.con'', ''icloud.com''),
     (''icoud.com'', ''icloud.com''), (''aol.co'', ''aol.com''), (''aol.con'', ''aol.com''),
     (''msn.co'', ''msn.com'')]"

definition TYPO_TLDS :: "(string \<times> string) list" where
  "TYPO_TLDS = [
     (''con'', ''com''), (''cmo'', ''com''), (''ocm'', ''com''), (''comm'', ''com''),
     (''coom'', ''com''), (''vom'', ''com''), (''xom'', ''com'')]"

text \<open>
  \<open>TYPO_TLDS[tld]\<close> is a property read on an object, so the one all-lower-case name that every object
  inherits, \<^verbatim>\<open>constructor\<close>, is found too: the function \<open>Object\<close>, spliced in as its source text.
\<close>

definition typoTld :: "string \<Rightarrow> string option" where
  "typoTld tld =
     (case map_of TYPO_TLDS tld of
        Some com \<Rightarrow> Some com
      | None \<Rightarrow> if tld = ''constructor'' then Some ''function Object() { [native code] }'' else None)"

definition ROLE_OR_TEST_LOCAL_PARTS :: "string list" where
  "ROLE_OR_TEST_LOCAL_PARTS = [
     ''test'', ''testing'', ''tester'', ''probe'', ''noreply'', ''no-reply'', ''no_reply'',
     ''donotreply'', ''do-not-reply'', ''do_not_reply'', ''postmaster'', ''mailer-daemon'', ''mailerdaemon'', ''abuse'',
     ''bounce'', ''bounces'', ''spam'', ''devnull'', ''null'', ''nobody'', ''root'',
     ''hostmaster'', ''webmaster'', ''example'', ''fake'', ''asdf'']"

text \<open>\<^verbatim>\<open>/^(test|testing|probe|fake)[-_.]?\d*$/\<close>\<close>

definition NUMBERED_TEST_RE :: "string \<Rightarrow> bool" where
  "NUMBERED_TEST_RE s \<longleftrightarrow>
     list_ex (\<lambda>p. startsWith s p \<and>
        (case drop (length p) s of
           [] \<Rightarrow> True
         | c # cs \<Rightarrow> list_all isDigit (if c = CHR ''-'' \<or> c = CHR ''_'' \<or> c = CHR ''.'' then cs else c # cs)))
       [''test'', ''testing'', ''probe'', ''fake'']"

definition normalizeAddress :: "string \<Rightarrow> string" where
  "normalizeAddress raw = toLowerCase (trim raw)"

text \<open>\<open>domain.slice(domain.lastIndexOf(".") + 1)\<close>\<close>

definition afterLastDot :: "string \<Rightarrow> string" where
  "afterLastDot d = (case splitLast (CHR ''.'') d of Some (_, tld) \<Rightarrow> tld | None \<Rightarrow> d)"

definition typoReason :: "string \<Rightarrow> string" where
  "typoReason s = ''looks like a typo for '' @ s @ ''. Fix it in the file and import again.''"

definition typoOf :: "string \<Rightarrow> string \<Rightarrow> string option" where
  "typoOf local domain =
     (case map_of TYPO_DOMAINS domain of
        Some typoFix \<Rightarrow> Some (local @ ''@'' @ typoFix)
      | None \<Rightarrow>
          (let tld = afterLastDot domain in
           map_option (\<lambda>tldFix. local @ ''@'' @ take (length domain - length tld) domain @ tldFix) (typoTld tld)))"

definition checkAddress :: "string \<Rightarrow> addressCheck" where
  "checkAddress raw =
     (let email = normalizeAddress raw in
      if email = [] \<or> \<not> HYGIENE_EMAIL_RE email \<or> length email > 320
      then AddressBad email InvalidAddress ''is not a valid email address.'' None
      else case splitLast (CHR ''@'') email of
        None \<Rightarrow> AddressBad email InvalidAddress ''is not a valid email address.'' None
      | Some (local, domain) \<Rightarrow>
          if isReservedRecipientAddress email
          then AddressBad email ReservedDomain
                 (''uses '' @ domain @ '', a reserved domain that cannot receive mail.'') None
          else (case typoOf local domain of
              Some fixed \<Rightarrow> AddressBad email TypoDomain (typoReason fixed) (Some fixed)
            | None \<Rightarrow>
                (let base = hd (splitOn (CHR ''+'') local) in
                 if base \<in> set ROLE_OR_TEST_LOCAL_PARTS \<or> NUMBERED_TEST_RE base
                 then AddressBad email RoleOrTest
                        (''is a test or system address ('' @ base @ ''@). Nobody opts in from one, so it is not mailed.'') None
                 else AddressOk email)))"

section \<open>The MX check\<close>

definition MX_CHECK_MAX_DOMAINS :: nat where "MX_CHECK_MAX_DOMAINS = 200"

datatype mxAnswer = MxRecords nat | MxNotFound | MxError | MxTimeout

text \<open>The keys of \<open>counts\<close> in insertion order, sorted stably by falling count and cut.\<close>

definition pickedDomains :: "nat \<Rightarrow> string list \<Rightarrow> string list" where
  "pickedDomains maxDomains ds =
     take maxDomains (sort_key (\<lambda>d. - int (count_list ds d)) (rev (remdups (rev ds))))"

definition definitelyNoMx :: "mxAnswer \<Rightarrow> bool" where
  "definitelyNoMx a = (case a of MxRecords n \<Rightarrow> n = 0 | MxNotFound \<Rightarrow> True | MxError \<Rightarrow> False | MxTimeout \<Rightarrow> False)"

definition checkDomainsHaveMx :: "(string \<Rightarrow> mxAnswer) \<Rightarrow> nat option \<Rightarrow> string list \<Rightarrow> string list" where
  "checkDomainsHaveMx resolver maxDomains ds =
     filter (\<lambda>d. definitelyNoMx (resolver d))
       (pickedDomains (case maxDomains of Some n \<Rightarrow> n | None \<Rightarrow> MX_CHECK_MAX_DOMAINS) ds)"

section \<open>The sender policy\<close>

definition SHARED_SENDER_DOMAINS :: "string list" where
  "SHARED_SENDER_DOMAINS = [''chipp.ai'', ''adaas.dev'']"

datatype bulkSenderCode = CustomerDomain | DevCapture | SharedPlatformSender | NoSender

record bulkSenderStatus =
  bsAllowed :: bool
  bsCode :: bulkSenderCode
  bsFromEmail :: string
  bsDomain :: "string option"
  bsMessage :: string

record bulkSenderInputs =
  biFromEmail :: string
  biPlatformEmailFrom :: string
  biSmtpConfigured :: bool
  biPlatformDomain :: "string option"

definition VERIFY_DOMAIN_STEPS :: string where
  "VERIFY_DOMAIN_STEPS =
     ''To fix it, verify a sending domain you own: in the Software Factory, open this project'' @ [CHR 0x27] @ ''s '' @
     ''Settings, go to Emails, enter a domain you control (a subdomain such as news.yourbrand.com '' @
     ''works well), add the DNS records it shows at your DNS provider, then click Verify. When the '' @
     ''domain is verified the app redeploys and sends from it, and campaigns can go out. Sign-in '' @
     ''codes, invites, receipts and reminders keep working in the meantime.''"

definition domainOf :: "string \<Rightarrow> string option" where
  "domainOf address =
     (case splitLast (CHR ''@'') address of
        None \<Rightarrow> None
      | Some (_, rest) \<Rightarrow>
          (let domain = stripTail (toLowerCase (trim rest)) in if domain = [] then None else Some domain))"

definition isUnder :: "string \<Rightarrow> string \<Rightarrow> bool" where
  "isUnder domain zone \<longleftrightarrow> domain = zone \<or> endsWith domain (CHR ''.'' # zone)"

text \<open>The zones that are shared; an empty \<open>platformDomain\<close> counts as unset.\<close>

definition sharedZones :: "bulkSenderInputs \<Rightarrow> string list" where
  "sharedZones inp =
     SHARED_SENDER_DOMAINS @
     (case domainOf (biPlatformEmailFrom inp) of Some d \<Rightarrow> [d] | None \<Rightarrow> []) @
     (case biPlatformDomain inp of Some d \<Rightarrow> if d = [] then [] else [toLowerCase (trim d)] | None \<Rightarrow> [])"

definition noSenderMessage :: "string \<Rightarrow> string" where
  "noSenderMessage fromEmail =
     ''This app has no sending address of its own (EMAIL_FROM is '' @
     (if fromEmail = [] then ''not set'' else fromEmail) @ ''), so a campaign cannot go out. '' @ VERIFY_DOMAIN_STEPS"

definition sharedSenderMessage :: "string \<Rightarrow> string" where
  "sharedSenderMessage fromEmail =
     ''Campaigns cannot be sent from '' @ fromEmail @ ''. That address is shared by every app on '' @
     ''the platform, and bulk mail from a shared address puts all of them at risk: spam '' @
     ''complaints and bounces from one list get the shared sender blocked for everyone. '' @ VERIFY_DOMAIN_STEPS"

definition evaluateBulkSender :: "bulkSenderInputs \<Rightarrow> bulkSenderStatus" where
  "evaluateBulkSender inp =
     (let fromEmail = toLowerCase (trim (biFromEmail inp));
          domain = domainOf fromEmail;
          status = (\<lambda>ok c m. \<lparr>bsAllowed = ok, bsCode = c, bsFromEmail = fromEmail, bsDomain = domain, bsMessage = m\<rparr>)
      in if \<not> biSmtpConfigured inp
         then status True DevCapture
           (''SMTP is not configured here, so campaign mail only reaches the dev mailbox. In production '' @
            ''a campaign needs a verified sending domain of your own.'')
         else case domain of
           None \<Rightarrow> status False NoSender (noSenderMessage fromEmail)
         | Some d \<Rightarrow>
             if isReservedRecipientAddress fromEmail
             then status False NoSender (noSenderMessage fromEmail)
             else if fromEmail = toLowerCase (trim (biPlatformEmailFrom inp)) \<or> list_ex (isUnder d) (sharedZones inp)
             then status False SharedPlatformSender (sharedSenderMessage fromEmail)
             else status True CustomerDomain
               (''Campaigns send from '' @ fromEmail @ '', on your own domain '' @ d @ ''.''))"

end
