(* ===== verification/MailPolicy.thy ===== *)
theory MailPolicy
  imports MailHygiene
begin

text \<open>
  What the address checks and the sender policy of \<open>MailHygiene\<close> promise: which addresses pass, that
  following the suggestions for a misspelled domain comes to an end, and that no spelling of a shared
  sender is let through.
\<close>

section \<open>Normalization\<close>

lemma normalize_idem [simp]: "normalizeAddress (normalizeAddress s) = normalizeAddress s"
  by (simp add: normalizeAddress_def lower_trim)

lemma trimEnd_id: "s = [] \<or> \<not> jsSpace (last s) \<Longrightarrow> trimEnd s = s"
  by (cases s rule: rev_cases) (simp_all add: trimEnd_def)

lemma trimStart_append: "\<not> jsSpace c \<Longrightarrow> trimStart (l @ c # r) = trimStart l @ c # r"
  by (induction l) (simp_all add: trimStart_def)

lemma lowerChar_at [simp]: "lowerChar (CHR ''@'') = CHR ''@''" "lowerChar (CHR ''.'') = CHR ''.''"
  by (simp_all add: lowerChar_def isUpper_def)

lemma normalize_at:
  assumes "d \<noteq> []" and "\<not> jsSpace (last d)"
  shows "normalizeAddress (l @ CHR ''@'' # d) = toLowerCase (trimStart l) @ CHR ''@'' # toLowerCase d"
proof -
  have "trimStart (l @ CHR ''@'' # d) = trimStart l @ CHR ''@'' # d"
    by (rule trimStart_append) (simp add: jsSpace_def)
  moreover have "trimEnd (trimStart l @ CHR ''@'' # d) = trimStart l @ CHR ''@'' # d"
    using assms by (intro trimEnd_id) simp
  ultimately show ?thesis
    by (simp add: normalizeAddress_def trim_def) (simp add: toLowerCase_def)
qed

section \<open>The shape of an address\<close>

lemma hygiene_parts:
  assumes "HYGIENE_EMAIL_RE e"
  obtains l d where "e = l @ CHR ''@'' # d" "splitOn (CHR ''@'') e = [l, d]" "splitLast (CHR ''@'') e = Some (l, d)" "l \<noteq> []" "list_all addrChar l"
    "2 \<le> length (splitOn (CHR ''.'') d)" "\<And>w. w \<in> set (splitOn (CHR ''.'') d) \<Longrightarrow> w \<noteq> [] \<and> list_all addrChar w"
proof -
  from assms obtain l d where s: "splitOn (CHR ''@'') e = [l, d]"
    and p: "l \<noteq> []" "list_all addrChar l" "2 \<le> length (splitOn (CHR ''.'') d)"
      "list_all (\<lambda>w. w \<noteq> [] \<and> list_all addrChar w) (splitOn (CHR ''.'') d)"
    by (auto simp: HYGIENE_EMAIL_RE_def Let_def split: list.splits)
  have "e = l @ CHR ''@'' # d" using join_splitOn [of "CHR ''@''" e] by (simp add: s)
  moreover have "CHR ''@'' \<notin> set d" using splitOn_parts [of d "CHR ''@''" e] by (simp add: s)
  ultimately show ?thesis using that p s splitLast_append by (simp add: list_all_iff)
qed

lemma join_chars: "c \<in> set (joinWith sep ws) \<Longrightarrow> c \<in> set sep \<or> (\<exists>w\<in>set ws. c \<in> set w)"
  by (induction sep ws rule: joinWith.induct) auto

lemma hygiene_no_space:
  assumes "HYGIENE_EMAIL_RE e"
  shows "\<forall>c\<in>set e. \<not> jsSpace c"
  using assms
proof (rule hygiene_parts)
  fix l d
  assume e: "e = l @ CHR ''@'' # d" and l: "list_all addrChar l"
    and w: "\<And>w. w \<in> set (splitOn (CHR ''.'') d) \<Longrightarrow> w \<noteq> [] \<and> list_all addrChar w"
  have "\<not> jsSpace c" if "c \<in> set d" for c
    using join_chars [of c "[CHR ''.'']" "splitOn (CHR ''.'') d"] that w
    by (auto simp: join_splitOn list_all_iff addrChar_def jsSpace_def)
  with e l show ?thesis by (auto simp: list_all_iff addrChar_def jsSpace_def)
qed

text \<open>What the list hygiene accepts, the outbox accepts.\<close>

lemma hygiene_implies_outbox:
  assumes "HYGIENE_EMAIL_RE e"
  shows "EMAIL_RE e"
  using assms
proof (rule hygiene_parts)
  fix l d
  assume e: "splitOn (CHR ''@'') e = [l, d]" and l: "l \<noteq> []" "list_all addrChar l" and two: "2 \<le> length (splitOn (CHR ''.'') d)"
    and w: "\<And>w. w \<in> set (splitOn (CHR ''.'') d) \<Longrightarrow> w \<noteq> [] \<and> list_all addrChar w"
  from two obtain w1 w2 ws where ws: "splitOn (CHR ''.'') d = w1 # w2 # ws"
    by (cases "splitOn (CHR ''.'') d"; cases "tl (splitOn (CHR ''.'') d)") auto
  then have d: "d = w1 @ CHR ''.'' # joinWith ''.'' (w2 # ws)"
    using join_splitOn [of "CHR ''.''" d] by simp
  have ne: "w1 \<noteq> []" "joinWith ''.'' (w2 # ws) \<noteq> []" using w ws by (auto, cases ws) auto
  have "CHR ''.'' \<in> set (butlast (tl d))" using ne by (cases w1) (simp_all add: d butlast_append)
  then show ?thesis
    using l(1) e hygiene_no_space [OF assms] by (auto simp: EMAIL_RE_def list_ex_iff)
qed

section \<open>Suggestions\<close>

definition suggestionOf :: "string \<Rightarrow> string option" where
  "suggestionOf raw = (case checkAddress raw of AddressBad _ TypoDomain _ s \<Rightarrow> s | _ \<Rightarrow> None)"

lemma suggestionOf_Some:
  assumes "suggestionOf raw = Some s"
  obtains l d where "normalizeAddress raw = l @ CHR ''@'' # d" "splitLast (CHR ''@'') (normalizeAddress raw) = Some (l, d)"
    "HYGIENE_EMAIL_RE (normalizeAddress raw)" "typoOf l d = Some s"
proof -
  from assms obtain l d where "HYGIENE_EMAIL_RE (normalizeAddress raw)"
    "splitLast (CHR ''@'') (normalizeAddress raw) = Some (l, d)" "typoOf l d = Some s"
    by (auto simp: suggestionOf_def checkAddress_def Let_def split: option.splits if_splits)
  with that splitLast_Some show ?thesis by blast
qed

text \<open>The corrections of the domain table are not typos themselves.\<close>

lemma typo_fixes_checked:
  "list_all (\<lambda>(_, f). map_of TYPO_DOMAINS f = None \<and> typoTld (afterLastDot f) = None \<and> f \<noteq> [] \<and> \<not> jsSpace (last f) \<and>
     CHR ''@'' \<notin> set f \<and> toLowerCase f = f) TYPO_DOMAINS"
  by code_simp

lemma typo_fix:
  assumes "map_of TYPO_DOMAINS d = Some f"
  shows "typoOf l f = None" "f \<noteq> []" "\<not> jsSpace (last f)" "CHR ''@'' \<notin> set f" "toLowerCase f = f"
proof -
  from assms have "(d, f) \<in> set TYPO_DOMAINS" by (rule map_of_SomeD)
  with typo_fixes_checked show "typoOf l f = None" "f \<noteq> []" "\<not> jsSpace (last f)" "CHR ''@'' \<notin> set f" "toLowerCase f = f"
    by (auto simp: list_all_iff typoOf_def Let_def)
qed

lemma suggestion_at:
  assumes "d \<noteq> []" "\<not> jsSpace (last d)" "CHR ''@'' \<notin> set d" "toLowerCase d = d"
    and "suggestionOf (l @ CHR ''@'' # d) = Some s"
  shows "typoOf (toLowerCase (trimStart l)) d = Some s \<and> (\<forall>c\<in>set d. \<not> jsSpace c)"
proof -
  have n: "normalizeAddress (l @ CHR ''@'' # d) = toLowerCase (trimStart l) @ CHR ''@'' # d"
    using normalize_at [OF assms(1,2), of l] assms(4) by simp
  from assms(5) show ?thesis
  proof (rule suggestionOf_Some)
    fix l' d'
    assume "splitLast (CHR ''@'') (normalizeAddress (l @ CHR ''@'' # d)) = Some (l', d')" and t: "typoOf l' d' = Some s"
      and re: "HYGIENE_EMAIL_RE (normalizeAddress (l @ CHR ''@'' # d))"
    then have "l' = toLowerCase (trimStart l)" "d' = d"
      using splitLast_append [OF assms(3), of "toLowerCase (trimStart l)"] by (simp_all add: n)
    with t hygiene_no_space [OF re] show ?thesis by (simp add: n)
  qed
qed

lemma domain_fix_is_final:
  assumes "map_of TYPO_DOMAINS d = Some f"
  shows "suggestionOf (l @ CHR ''@'' # f) = None"
proof (cases "suggestionOf (l @ CHR ''@'' # f)")
  case (Some s)
  from suggestion_at [OF typo_fix(2-5) [OF assms] Some] typo_fix(1) [OF assms] show ?thesis by simp
qed

text \<open>A corrected top-level domain: \<open>com\<close>, or the text of the inherited function, which has spaces.\<close>

lemma typoTld_cases:
  "typoTld t = Some f \<Longrightarrow> f = ''com'' \<or> f = ''function Object() { [native code] }''"
proof -
  have "list_all (\<lambda>(_, f). f = ''com'') TYPO_TLDS" by code_simp
  then show "typoTld t = Some f \<Longrightarrow> f = ''com'' \<or> f = ''function Object() { [native code] }''"
    by (auto simp: typoTld_def list_all_iff dest!: map_of_SomeD split: option.splits if_splits)
qed

lemma tld_fix:
  assumes "splitLast (CHR ''.'') d = Some (b, t)"
  shows "take (length d - length (afterLastDot d)) d @ f = b @ CHR ''.'' # f"
proof -
  have "afterLastDot d = t" by (simp add: afterLastDot_def assms)
  with splitLast_Some [OF assms] show ?thesis by simp
qed

lemma lower_split: "toLowerCase (a @ c # b) = a @ c # b \<Longrightarrow> toLowerCase a = a \<and> toLowerCase b = b"
  by (simp add: toLowerCase_def)

text \<open>What the correction of a top-level domain leaves: the same address with the new end, in lower case.\<close>

lemma tld_typo:
  assumes "HYGIENE_EMAIL_RE e" and "e = l @ CHR ''@'' # d" and "splitLast (CHR ''@'') e = Some (l, d)"
    and "toLowerCase e = e" and "typoOf l d = Some s" and "map_of TYPO_DOMAINS d = None"
  obtains b f where "s = l @ CHR ''@'' # b @ CHR ''.'' # f" "CHR ''@'' \<notin> set b" "toLowerCase b = b"
    "f = ''com'' \<or> f = ''function Object() { [native code] }''"
proof -
  from assms(5,6) obtain f where f: "typoTld (afterLastDot d) = Some f"
    and s: "s = l @ CHR ''@'' # take (length d - length (afterLastDot d)) d @ f"
    by (auto simp: typoOf_def Let_def)
  from assms(1) obtain l' d' where "splitLast (CHR ''@'') e = Some (l', d')" "2 \<le> length (splitOn (CHR ''.'') d')"
    by (rule hygiene_parts) blast
  with assms(3) have "CHR ''.'' \<in> set d" using splitOn_no_sep [of "CHR ''.''" d] by fastforce
  then obtain b t where bt: "splitLast (CHR ''.'') d = Some (b, t)" by (auto simp: splitLast_def)
  then have d: "d = b @ CHR ''.'' # t" using splitLast_Some by blast
  have "CHR ''@'' \<notin> set d" using splitLast_Some [OF assms(3)] by simp
  then have at: "CHR ''@'' \<notin> set b" by (simp add: d)
  have low: "toLowerCase b = b" using assms(2,4) lower_split d by metis
  have "s = l @ CHR ''@'' # b @ CHR ''.'' # f" using s tld_fix [OF bt] by simp
  from that [OF this at low typoTld_cases [OF f]] show ?thesis .
qed

text \<open>
  C31. Following the suggestions for a misspelled address comes to an end: after two corrections at most
  (the top-level domain, then the provider) the address is not called a typo any more.
\<close>

theorem suggestions_converge:
  assumes "suggestionOf raw = Some s1" and "suggestionOf s1 = Some s2"
  shows "suggestionOf s2 = None"
  using assms(1)
proof (rule suggestionOf_Some)
  fix l d
  assume n: "normalizeAddress raw = l @ CHR ''@'' # d" and re: "HYGIENE_EMAIL_RE (normalizeAddress raw)"
    and split: "splitLast (CHR ''@'') (normalizeAddress raw) = Some (l, d)" and typo: "typoOf l d = Some s1"
  show ?thesis
  proof (cases "map_of TYPO_DOMAINS d")
    case (Some f)
    with typo have "s1 = l @ CHR ''@'' # f" by (simp add: typoOf_def)
    with domain_fix_is_final [OF Some] assms(2) show ?thesis by simp
  next
    case None
    from tld_typo [OF re n split _ typo None] obtain b f where s1: "s1 = l @ CHR ''@'' # b @ CHR ''.'' # f"
      and at: "CHR ''@'' \<notin> set b" and low: "toLowerCase b = b"
      and f: "f = ''com'' \<or> f = ''function Object() { [native code] }''"
      by (auto simp: normalizeAddress_def)
    let ?d1 = "b @ CHR ''.'' # f"
    from f show ?thesis
    proof
      assume com: "f = ''com''"
      have "toLowerCase ?d1 = ?d1" using low unfolding com by (simp add: toLowerCase_def lowerChar_def isUpper_def)
      with suggestion_at [of ?d1 l s2] assms(2) at
      have t2: "typoOf (toLowerCase (trimStart l)) ?d1 = Some s2" by (simp add: s1 com jsSpace_def)
      have "splitLast (CHR ''.'') ?d1 = Some (b, ''com'')" unfolding com by (rule splitLast_append) simp
      then have "typoTld (afterLastDot ?d1) = None" by (simp add: afterLastDot_def typoTld_def TYPO_TLDS_def)
      with t2 obtain g where "map_of TYPO_DOMAINS ?d1 = Some g" "s2 = toLowerCase (trimStart l) @ CHR ''@'' # g"
        by (auto simp: typoOf_def Let_def split: option.splits)
      then show ?thesis using domain_fix_is_final by simp
    next
      assume fn: "f = ''function Object() { [native code] }''"
      obtain l2 d2 where "HYGIENE_EMAIL_RE (normalizeAddress s1)" using suggestionOf_Some [OF assms(2)] by metis
      then have "\<forall>c\<in>set (normalizeAddress s1). \<not> jsSpace c" by (rule hygiene_no_space)
      moreover have "CHR '' '' \<in> set (normalizeAddress s1)"
      proof -
        have "normalizeAddress s1 = toLowerCase (trimStart l) @ CHR ''@'' # toLowerCase ?d1"
          unfolding s1 by (rule normalize_at) (simp_all add: fn jsSpace_def)
        then show ?thesis by (simp add: fn toLowerCase_def lowerChar_def isUpper_def)
      qed
      ultimately show ?thesis by (auto simp: jsSpace_def)
    qed
  qed
qed

theorem suggestions_converge_witness:
  "suggestionOf ''Ann@gmial.con'' = Some ''ann@gmial.com'' \<and> suggestionOf ''ann@gmial.com'' = Some ''ann@gmail.com'' \<and>
   suggestionOf ''ann@gmail.com'' = None"
proof -
  have 1: "suggestionOf ''Ann@gmial.con'' = Some ''ann@gmial.com''" by code_simp
  have 2: "suggestionOf ''ann@gmial.com'' = Some ''ann@gmail.com''" by code_simp
  from 1 2 suggestions_converge [OF 1 2] show ?thesis by blast
qed

section \<open>Accepted addresses\<close>

lemma checkAddress_normalize: "checkAddress (normalizeAddress raw) = checkAddress raw"
  by (simp add: checkAddress_def)

lemma checkAddress_Ok:
  assumes "checkAddress raw = AddressOk e"
  obtains l d where "e = normalizeAddress raw" "e = l @ CHR ''@'' # d" "HYGIENE_EMAIL_RE e" "length e \<le> 320"
    "\<not> isReservedRecipientAddress e" "typoOf l d = None" "hd (splitOn (CHR ''+'') l) \<notin> set ROLE_OR_TEST_LOCAL_PARTS"
    "\<not> NUMBERED_TEST_RE (hd (splitOn (CHR ''+'') l))"
proof -
  from assms obtain l d where "splitLast (CHR ''@'') (normalizeAddress raw) = Some (l, d)" "e = normalizeAddress raw"
    "HYGIENE_EMAIL_RE e" "length e \<le> 320"
    "\<not> isReservedRecipientAddress e" "typoOf l d = None" "hd (splitOn (CHR ''+'') l) \<notin> set ROLE_OR_TEST_LOCAL_PARTS"
    "\<not> NUMBERED_TEST_RE (hd (splitOn (CHR ''+'') l))"
    by (auto simp: checkAddress_def Let_def split: if_splits option.splits)
  with that splitLast_Some show ?thesis by blast
qed

lemma trim_no_spaces: "(\<forall>c\<in>set s. \<not> jsSpace c) \<Longrightarrow> trim s = s"
  by (cases "s = []") (simp_all add: trim_def trimStart_id trimEnd_id)

lemma accepted_is_outbox_address:
  assumes "checkAddress raw = AddressOk e"
  shows "EMAIL_RE (toLowerCase (trim e))"
  using assms
proof (rule checkAddress_Ok)
  assume e: "e = normalizeAddress raw" and re: "HYGIENE_EMAIL_RE e"
  have "trim e = e" by (rule trim_no_spaces) (rule hygiene_no_space [OF re])
  moreover have "toLowerCase e = e" by (simp add: e normalizeAddress_def)
  ultimately show ?thesis using hygiene_implies_outbox [OF re] by simp
qed

text \<open>
  What the hygiene check accepts is safe to queue: the accepted address is the trimmed lower-case
  form of the input and is accepted again unchanged, has at most 320 characters and no white space, is
  not at a reserved domain or a known misspelling, its local part without the plus tag is no role or
  test mailbox, and the outbox takes it.
\<close>

theorem accepted_addresses_are_sendable:
  assumes "checkAddress raw = AddressOk e"
  shows "e = normalizeAddress raw \<and> checkAddress e = AddressOk e \<and> length e \<le> 320 \<and> (\<forall>c\<in>set e. \<not> jsSpace c) \<and>
    \<not> isReservedRecipientAddress e \<and> suggestionOf e = None \<and>
    (\<exists>l d. e = l @ CHR ''@'' # d \<and> map_of TYPO_DOMAINS d = None \<and>
       hd (splitOn (CHR ''+'') l) \<notin> set ROLE_OR_TEST_LOCAL_PARTS \<and> \<not> NUMBERED_TEST_RE (hd (splitOn (CHR ''+'') l))) \<and>
    EMAIL_RE (toLowerCase (trim e))"
proof -
  from assms obtain l d where e: "e = normalizeAddress raw" "e = l @ CHR ''@'' # d" "HYGIENE_EMAIL_RE e" "length e \<le> 320"
    "\<not> isReservedRecipientAddress e" "typoOf l d = None" "hd (splitOn (CHR ''+'') l) \<notin> set ROLE_OR_TEST_LOCAL_PARTS"
    "\<not> NUMBERED_TEST_RE (hd (splitOn (CHR ''+'') l))"
    by (rule checkAddress_Ok)
  have again: "checkAddress e = AddressOk e" using assms checkAddress_normalize by (simp add: e(1))
  then have "suggestionOf e = None" by (simp add: suggestionOf_def)
  moreover have "map_of TYPO_DOMAINS d = None" using e(6) by (simp add: typoOf_def split: option.splits)
  ultimately show ?thesis
    using e again hygiene_no_space [OF e(3)] accepted_is_outbox_address [OF assms] by blast
qed

theorem accepted_addresses_are_sendable_witness:
  "checkAddress '' Ann+news@Example-Shop.DE '' = AddressOk ''ann+news@example-shop.de'' \<and>
   EMAIL_RE (toLowerCase (trim ''ann+news@example-shop.de''))"
proof -
  have ok: "checkAddress '' Ann+news@Example-Shop.DE '' = AddressOk ''ann+news@example-shop.de''" by code_simp
  from ok accepted_addresses_are_sendable [OF ok] show ?thesis by blast
qed

section \<open>The MX check is bounded and never rejects on doubt\<close>

lemma mx_check_is_bounded:
  "length (checkDomainsHaveMx r m ds) \<le> (case m of Some n \<Rightarrow> n | None \<Rightarrow> 200) \<and>
   set (checkDomainsHaveMx r m ds) \<subseteq> {d \<in> set ds. definitelyNoMx (r d)}"
proof -
  have len: "length (pickedDomains n ds) \<le> n" for n by (simp add: pickedDomains_def)
  have "set (pickedDomains n ds) \<subseteq> set ds" for n
    by (auto simp: pickedDomains_def dest: in_set_takeD)
  moreover have "length (checkDomainsHaveMx r m ds) \<le> (case m of Some n \<Rightarrow> n | None \<Rightarrow> 200)"
    unfolding checkDomainsHaveMx_def MX_CHECK_MAX_DOMAINS_def
    by (rule order_trans [OF length_filter_le]) (rule len)
  ultimately show ?thesis by (auto simp: checkDomainsHaveMx_def)
qed

section \<open>The sender policy\<close>

lemma dropWhile_skip: "\<forall>c\<in>set xs. P c \<Longrightarrow> dropWhile P (xs @ ys) = dropWhile P ys"
  by (induction xs) auto

lemma stripTail_append:
  "z \<noteq> [] \<Longrightarrow> last z \<noteq> CHR ''>'' \<Longrightarrow> last z \<noteq> CHR ''.'' \<Longrightarrow> \<not> jsSpace (last z) \<Longrightarrow>
   \<forall>c\<in>set tl'. c = CHR ''>'' \<or> c = CHR ''.'' \<or> jsSpace c \<Longrightarrow> stripTail (a @ z @ tl') = a @ z"
proof (cases z rule: rev_cases)
  case (snoc ys y)
  let ?p = "\<lambda>c. c = CHR ''>'' \<or> c = CHR ''.'' \<or> jsSpace c"
  assume "last z \<noteq> CHR ''>''" "last z \<noteq> CHR ''.''" "\<not> jsSpace (last z)" and tl': "\<forall>c\<in>set tl'. ?p c"
  with snoc have "\<not> ?p y" by simp
  moreover from tl' have "\<forall>c\<in>set (rev tl'). ?p c" by simp
  then have "dropWhile ?p (rev tl' @ y # rev ys @ rev a) = dropWhile ?p (y # rev ys @ rev a)"
    by (rule dropWhile_skip)
  ultimately show ?thesis unfolding snoc stripTail_def by simp
qed simp

lemma endsWith_append: "endsWith (a @ b) b"
  by (simp add: endsWith_def)

text \<open>
  No spelling of a shared sender may send a campaign: with SMTP configured, an address whose domain
  is a shared zone or any subdomain of one is refused, in any case, with any local part, and with
  trailing dots, spaces or a closing bracket; the zones are the platform's own, that of its sender, and
  the configured platform domain.
\<close>

theorem shared_senders_are_refused:
  assumes "biSmtpConfigured inp" and "zone \<in> set (sharedZones inp)"
    and "toLowerCase (trim (biFromEmail inp)) = l @ CHR ''@'' # sub @ zone @ rest"
    and "sub = [] \<or> last sub = CHR ''.''" and "CHR ''@'' \<notin> set (sub @ zone @ rest)"
    and "sub = [] \<or> \<not> jsSpace (hd sub)" and "zone \<noteq> []" and "\<not> jsSpace (hd zone)"
    and "last zone \<noteq> CHR ''>''" "last zone \<noteq> CHR ''.''" "\<not> jsSpace (last zone)"
    and "set rest \<subseteq> {CHR ''.'', CHR ''>''}"
  shows "\<not> bsAllowed (evaluateBulkSender inp) \<and>
    bsCode (evaluateBulkSender inp) \<in> {SharedPlatformSender, NoSender} \<and>
    bsDomain (evaluateBulkSender inp) = Some (sub @ zone)"
proof -
  let ?from = "toLowerCase (trim (biFromEmail inp))"
  have low: "toLowerCase (sub @ zone @ rest) = sub @ zone @ rest"
    using lower_split [of l "CHR ''@''" "sub @ zone @ rest"] assms(3) by (metis lower_idem)
  have strip: "stripTail (sub @ zone @ rest) = sub @ zone"
    using assms(7,9-12) by (intro stripTail_append) auto
  have "trim (sub @ zone @ rest) = sub @ zone @ rest"
  proof -
    have "\<not> jsSpace (hd (sub @ zone @ rest))" using assms(6-8) by (auto simp: hd_append)
    moreover have "\<not> jsSpace (last (sub @ zone @ rest))"
    proof (cases "rest = []")
      case False
      then have "last rest \<in> {CHR ''.'', CHR ''>''}" using assms(12) last_in_set by blast
      with False show ?thesis by (auto simp: jsSpace_def)
    qed (use assms(7,11) in simp)
    ultimately show ?thesis by (simp add: trim_def trimStart_id trimEnd_id)
  qed
  with low strip assms(3,7) have dom: "domainOf ?from = Some (sub @ zone)"
    using splitLast_append [OF assms(5), of l] by (simp add: domainOf_def Let_def)
  have "isUnder (sub @ zone) zone"
  proof (cases "sub = []")
    case False
    with assms(4) have "sub @ zone = butlast sub @ (CHR ''.'' # zone)"
      by (metis append.assoc append_butlast_last_id append_Cons append_Nil)
    then show ?thesis by (metis isUnder_def endsWith_append)
  qed (simp add: isUnder_def)
  with assms(2) have "list_ex (isUnder (sub @ zone)) (sharedZones inp)" by (auto simp: list_ex_iff)
  with dom assms(1) show ?thesis by (simp add: evaluateBulkSender_def Let_def)
qed

theorem shared_senders_are_refused_witness:
  "\<not> bsAllowed (evaluateBulkSender \<lparr>biFromEmail = '' News@Mail.CHIPP.ai. '', biPlatformEmailFrom = ''noreply@chipp.ai'',
      biSmtpConfigured = True, biPlatformDomain = None\<rparr>)"
proof -
  let ?i = "\<lparr>biFromEmail = '' News@Mail.CHIPP.ai. '', biPlatformEmailFrom = ''noreply@chipp.ai'',
      biSmtpConfigured = True, biPlatformDomain = None\<rparr>"
  have z: "''chipp.ai'' \<in> set (sharedZones ?i)" by (simp add: sharedZones_def SHARED_SENDER_DOMAINS_def)
  have f: "toLowerCase (trim (biFromEmail ?i)) = ''news'' @ CHR ''@'' # ''mail.'' @ ''chipp.ai'' @ ''.''" by code_simp
  from shared_senders_are_refused [OF _ z f] show ?thesis by (simp add: jsSpace_def)
qed

end
