(* ===== verification/Base64Url.thy ===== *)
theory Base64Url
  imports JsText
begin

text \<open>
  Bytes and text as Node's \<open>Buffer\<close>, \<^verbatim>\<open>btoa\<close> and the text coders have them, on lists of bytes: UTF-8 of the
  characters up to U+00FF, and base64url without padding, with a decoder that skips characters outside the
  alphabets.
\<close>

section \<open>UTF-8 and base64url\<close>

fun utf8Bytes :: "string \<Rightarrow> nat list" where
  "utf8Bytes [] = []"
| "utf8Bytes (c # s) =
     (if code c < 128 then [code c] else [192 + code c div 64, 128 + code c mod 64]) @ utf8Bytes s"

text \<open>\<open>None\<close> stands for a text with a character outside the model or a replacement character.\<close>

fun utf8Text :: "nat list \<Rightarrow> string option" where
  "utf8Text [] = Some []"
| "utf8Text (b # bs) =
     (if b < 128 then map_option (Cons (char_of b)) (utf8Text bs)
      else case bs of
        [] \<Rightarrow> None
      | c # cs \<Rightarrow>
          if (b = 194 \<or> b = 195) \<and> 128 \<le> c \<and> c < 192
          then map_option (Cons (char_of ((b - 192) * 64 + (c - 128)))) (utf8Text cs)
          else None)"

fun sextets :: "nat list \<Rightarrow> nat list" where
  "sextets (a # b # c # r) =
     a div 4 # (a mod 4 * 16 + b div 16) # (b mod 16 * 4 + c div 64) # c mod 64 # sextets r"
| "sextets [a, b] = [a div 4, a mod 4 * 16 + b div 16, b mod 16 * 4]"
| "sextets [a] = [a div 4, a mod 4 * 16]"
| "sextets [] = []"

fun octets :: "nat list \<Rightarrow> nat list" where
  "octets (p # q # r # s # rest) =
     (p * 4 + q div 16) # (q mod 16 * 16 + r div 4) # (r mod 4 * 64 + s) # octets rest"
| "octets [p, q, r] = [p * 4 + q div 16, q mod 16 * 16 + r div 4]"
| "octets [p, q] = [p * 4 + q div 16]"
| "octets _ = []"

definition b64Char :: "nat \<Rightarrow> char" where
  "b64Char n =
     (if n < 26 then char_of (65 + n) else if n < 52 then char_of (97 + (n - 26))
      else if n < 62 then char_of (48 + (n - 52)) else if n = 62 then CHR ''-'' else CHR ''_'')"

definition b64Val :: "char \<Rightarrow> nat option" where
  "b64Val c =
     (if isUpper c then Some (code c - 65) else if isLower c then Some (code c - 97 + 26)
      else if isDigit c then Some (code c - 48 + 52)
      else if c = CHR ''-'' \<or> c = CHR ''+'' then Some 62 else if c = CHR ''_'' \<or> c = CHR ''/'' then Some 63 else None)"

definition b64url :: "nat list \<Rightarrow> string" where
  "b64url bs = map b64Char (sextets bs)"

definition b64Bytes :: "string \<Rightarrow> nat list" where
  "b64Bytes s = octets (List.map_filter b64Val s)"

section \<open>The codec is inverted\<close>

lemma octets_sextets: "(\<And>b. b \<in> set bs \<Longrightarrow> b < 256) \<Longrightarrow> octets (sextets bs) = bs"
proof (induction bs rule: sextets.induct)
  case (1 a b c r)
  have "a mod 4 * 16 + b div 16 < 64" "b < 256" "c < 256" using 1(2) [of a] 1(2) [of b] 1(2) [of c] by auto
  then have "(a mod 4 * 16 + b div 16) div 16 = a mod 4" "(a mod 4 * 16 + b div 16) mod 16 = b div 16"
    "(b mod 16 * 4 + c div 64) div 4 = b mod 16" "(b mod 16 * 4 + c div 64) mod 4 = c div 64"
    by auto
  with 1 show ?case by (auto simp: mult.commute [of _ 4] mult.commute [of _ 16] mult.commute [of _ 64])
next
  case (2 a b)
  have "b < 256" using 2 by simp
  then show ?case by auto
qed auto

lemma sextets_lt: "(\<And>b. b \<in> set bs \<Longrightarrow> b < 256) \<Longrightarrow> x \<in> set (sextets bs) \<Longrightarrow> x < 64"
  by (induction bs rule: sextets.induct) (fastforce)+

lemma b64Val_b64Char: "n < 64 \<Longrightarrow> b64Val (b64Char n) = Some n"
  by (auto simp: b64Val_def b64Char_def isUpper_def isLower_def isDigit_def code_char_of)

lemma b64_inverse:
  assumes "\<And>b. b \<in> set bs \<Longrightarrow> b < 256"
  shows "b64Bytes (b64url bs) = bs"
proof -
  have "List.map_filter b64Val (map b64Char xs) = xs" if "\<And>x. x \<in> set xs \<Longrightarrow> x < 64" for xs
    using that by (induction xs) (simp_all add: map_filter_simps b64Val_b64Char)
  then show ?thesis
    using sextets_lt [OF assms] octets_sextets [OF assms] by (simp add: b64Bytes_def b64url_def)
qed

lemma code_less_256: "code c < 256"
  by (metis of_char_mod_256 mod_less_divisor zero_less_numeral)

lemma utf8_lt: "b \<in> set (utf8Bytes s) \<Longrightarrow> b < 256"
proof (induction s)
  case (Cons c s)
  have "code c < 256" by (rule code_less_256)
  moreover have "192 + n div 64 < 256" if "n < 256" for n :: nat using that by auto
  ultimately have "192 + code c div 64 < 256" by blast
  with Cons show ?case by (auto split: if_splits)
qed simp

lemma utf8_inverse: "utf8Text (utf8Bytes s) = Some s"
proof (induction s)
  case (Cons c s)
  have "code c < 256" by (rule code_less_256)
  moreover have "n < 128 \<or> n div 64 = 2 \<or> n div 64 = 3" if "n < 256" for n :: nat using that by auto
  ultimately have "code c < 128 \<or> code c div 64 = 2 \<or> code c div 64 = 3" by blast
  with Cons show ?case by auto
qed simp

lemma sextets_length: "length (sextets bs) \<le> 2 * length bs"
  by (induction bs rule: sextets.induct) auto

lemma utf8_length: "length (utf8Bytes s) \<le> 2 * length s"
  by (induction s) auto

lemma sextets_nonempty: "bs \<noteq> [] \<Longrightarrow> sextets bs \<noteq> []"
  by (induction bs rule: sextets.induct) auto

lemma b64_no_dot:
  assumes "\<And>b. b \<in> set bs \<Longrightarrow> b < 256"
  shows "CHR ''.'' \<notin> set (b64url bs)"
proof
  assume "CHR ''.'' \<in> set (b64url bs)"
  then obtain n where "n \<in> set (sextets bs)" "b64Char n = CHR ''.''" by (auto simp: b64url_def)
  with sextets_lt [OF assms] have "b64Val (CHR ''.'') = Some n" using b64Val_b64Char by metis
  then show False by (simp add: b64Val_def isUpper_def isLower_def isDigit_def)
qed

end
