(* ===== verification/UnsubscribeToken.thy ===== *)
theory UnsubscribeToken
  imports MailPolicy Base64Url
begin

text \<open>
  \<^verbatim>\<open>src/services/mailing/unsubscribe-token.ts\<close> with \<open>appOrigin\<close> of \<^verbatim>\<open>src/services/app-links.ts\<close>:
  the signed one-click unsubscribe link. The HMAC is a parameter, a function of the secret and the message.
\<close>

section \<open>Tokens\<close>

record tokenEnv =
  tkEnv :: "string \<Rightarrow> string option"
  tkHmac :: "string \<Rightarrow> string \<Rightarrow> nat list"

record unsubscribeTarget =
  utEmail :: string
  utOrg :: "uuid option"

definition tokenSecret :: "tokenEnv \<Rightarrow> string" where
  "tokenSecret te =
     (if truthy (tkEnv te ''EMAIL_UNSUBSCRIBE_SECRET'') then the (tkEnv te ''EMAIL_UNSUBSCRIBE_SECRET'')
      else if truthy (tkEnv te ''JWT_SECRET'') then the (tkEnv te ''JWT_SECRET'')
      else ''development-secret'')"

definition tokenMac :: "tokenEnv \<Rightarrow> string \<Rightarrow> nat list" where
  "tokenMac te payload = tkHmac te (tokenSecret te) payload"

definition tokenPayload :: "unsubscribeTarget \<Rightarrow> string" where
  "tokenPayload t =
     ''v1|'' @ (case utOrg t of Some x \<Rightarrow> x | None \<Rightarrow> []) @ ''|'' @ toLowerCase (trim (utEmail t))"

definition signUnsubscribeToken :: "tokenEnv \<Rightarrow> unsubscribeTarget \<Rightarrow> string" where
  "signUnsubscribeToken te t =
     b64url (utf8Bytes (tokenPayload t)) @ ''.'' @ b64url (tokenMac te (tokenPayload t))"

definition verifyUnsubscribeToken :: "tokenEnv \<Rightarrow> string \<Rightarrow> unsubscribeTarget option" where
  "verifyUnsubscribeToken te token =
     (if int (length token) > 2048 then None
      else case splitOn (CHR ''.'') token of
        [p, m] \<Rightarrow>
          (if p = [] then None
           else case utf8Text (b64Bytes p) of
             None \<Rightarrow> None
           | Some payload \<Rightarrow>
               if b64Bytes m \<noteq> tokenMac te payload then None
               else (case splitOn (CHR ''|'') payload of
                   [v, org, email] \<Rightarrow>
                     if v = ''v1'' \<and> email \<noteq> [] \<and> CHR ''@'' \<in> set email
                     then Some \<lparr>utEmail = email, utOrg = (if org = [] then None else Some org)\<rparr> else None
                 | _ \<Rightarrow> None))
      | _ \<Rightarrow> None)"

section \<open>Links and headers\<close>

definition originFrom :: "string option \<Rightarrow> string \<Rightarrow> string" where
  "originFrom raw fallback =
     (let value = (case raw of Some r \<Rightarrow> trim r | None \<Rightarrow> [])
      in rev (dropWhile (\<lambda>c. c = CHR ''/'') (rev (if value \<noteq> [] then value else fallback))))"

definition appOrigin :: "tokenEnv \<Rightarrow> string" where
  "appOrigin te = originFrom (tkEnv te ''APP_URL'') ''http://localhost:8000''"

definition unsubscribeUrl :: "tokenEnv \<Rightarrow> unsubscribeTarget \<Rightarrow> string" where
  "unsubscribeUrl te t = appOrigin te @ ''/api/unsubscribe'' @ ''/'' @ signUnsubscribeToken te t"

text \<open>\<^verbatim>\<open>/^[^\s@<>]+@[^\s@<>]+\.[^\s@<>]+$/\<close>\<close>

definition mailtoShape :: "string \<Rightarrow> bool" where
  "mailtoShape s \<longleftrightarrow> EMAIL_RE s \<and> CHR ''<'' \<notin> set s \<and> CHR ''>'' \<notin> set s"

definition oneClickUnsubscribeHeaders :: "tokenEnv \<Rightarrow> unsubscribeTarget \<Rightarrow> (string \<times> string) list" where
  "oneClickUnsubscribeHeaders te t =
     (let mailto = map_option trim (tkEnv te ''EMAIL_UNSUBSCRIBE_MAILTO'');
          parts = [''<'' @ unsubscribeUrl te t @ ''>''] @
            (case mailto of Some m \<Rightarrow> if m \<noteq> [] \<and> mailtoShape m then [''<mailto:'' @ m @ ''?subject=unsubscribe>''] else []
             | None \<Rightarrow> [])
      in [(''List-Unsubscribe'', joinWith '', '' parts), (''List-Unsubscribe-Post'', ''List-Unsubscribe=One-Click'')])"

section \<open>Properties\<close>

definition macOk :: "tokenEnv \<Rightarrow> bool" where
  "macOk te \<longleftrightarrow> (\<forall>k m. length (tkHmac te k m) = 32 \<and> (\<forall>b\<in>set (tkHmac te k m). b < 256))"

lemma token_parts:
  assumes "macOk te"
  shows "splitOn (CHR ''.'') (signUnsubscribeToken te t) =
    [b64url (utf8Bytes (tokenPayload t)), b64url (tokenMac te (tokenPayload t))]"
  unfolding signUnsubscribeToken_def
  using splitOn_append [OF b64_no_dot [OF utf8_lt]]
    splitOn_no_sep [OF b64_no_dot, of "tokenMac te (tokenPayload t)"] assms
  by (simp add: macOk_def tokenMac_def)

lemma token_length:
  assumes "macOk te" and "length (tokenPayload t) \<le> 480"
  shows "int (length (signUnsubscribeToken te t)) \<le> 2048"
proof -
  have "length (b64url (utf8Bytes (tokenPayload t))) \<le> 4 * length (tokenPayload t)"
    using sextets_length [of "utf8Bytes (tokenPayload t)"] utf8_length [of "tokenPayload t"] by (simp add: b64url_def)
  moreover have "length (b64url (tokenMac te (tokenPayload t))) \<le> 64"
    using sextets_length [of "tokenMac te (tokenPayload t)"] assms(1) by (simp add: b64url_def macOk_def tokenMac_def)
  ultimately show ?thesis using assms(2) by (simp add: signUnsubscribeToken_def)
qed

lemma lowerChar_fix: "lowerChar c = d \<Longrightarrow> \<not> isLower d \<Longrightarrow> code d < 128 \<Longrightarrow> c = d"
  by (auto simp: lowerChar_def isUpper_def isLower_def code_char_of split: if_splits)

lemma verified_token:
  assumes "verifyUnsubscribeToken te token = Some u"
  shows "\<exists>p m. splitOn (CHR ''.'') token = [p, m] \<and>
    b64Bytes m = tokenMac te (''v1|'' @ (case utOrg u of Some x \<Rightarrow> x | None \<Rightarrow> []) @ ''|'' @ utEmail u)"
proof -
  from assms obtain p m payload org where s: "splitOn (CHR ''.'') token = [p, m]"
    and mac: "b64Bytes m = tokenMac te payload" and parts: "splitOn (CHR ''|'') payload = [''v1'', org, utEmail u]"
    and org: "utOrg u = (if org = [] then None else Some org)"
    by (auto simp: verifyUnsubscribeToken_def split: if_splits list.splits option.splits)
  have "payload = ''v1|'' @ org @ ''|'' @ utEmail u"
    using join_splitOn [of "CHR ''|''" payload] by (simp add: parts)
  with s mac org show ?thesis by auto
qed

text \<open>
  C32. The unsubscribe link of an address without a vertical bar works, and only for the address it names: a
  token signed for an address (with an at sign, at most 320 characters) and a workspace (if there is one, of
  1 to 64 characters) that hold no vertical bar verifies, under the same secret, to the trimmed lower-case
  address and that workspace. Any token at all that verifies carries the HMAC of its own payload, which names
  exactly the target returned. (An address with a vertical bar gets a token that does not verify, see
  bar_address_cannot_unsubscribe.)
\<close>

theorem unsubscribe_token_roundtrip:
  assumes "macOk te" and "CHR ''@'' \<in> set (trim (utEmail t))" and "CHR ''|'' \<notin> set (utEmail t)"
    and "case utOrg t of Some x \<Rightarrow> x \<noteq> [] \<and> CHR ''|'' \<notin> set x \<and> length x \<le> 64 | None \<Rightarrow> True" and "length (trim (utEmail t)) \<le> 320"
  shows "verifyUnsubscribeToken te (signUnsubscribeToken te t) =
      Some \<lparr>utEmail = toLowerCase (trim (utEmail t)), utOrg = utOrg t\<rparr> \<and>
    (\<forall>token u. verifyUnsubscribeToken te token = Some u \<longrightarrow>
       (\<exists>p m. splitOn (CHR ''.'') token = [p, m] \<and> b64Bytes m = tokenMac te (''v1|'' @ (case utOrg u of Some x \<Rightarrow> x | None \<Rightarrow> []) @ ''|'' @ utEmail u)))"
proof -
  let ?e = "toLowerCase (trim (utEmail t))" and ?o = "case utOrg t of Some x \<Rightarrow> x | None \<Rightarrow> []"
  have bar: "CHR ''|'' \<notin> set ?e"
  proof
    assume "CHR ''|'' \<in> set ?e"
    then obtain c where c: "c \<in> set (trim (utEmail t))" "lowerChar c = CHR ''|''" by (auto simp: toLowerCase_def)
    from c(2) have "c = CHR ''|''" by (rule lowerChar_fix) (simp_all add: isLower_def)
    with c(1) set_trim_subset [of "utEmail t"] assms(3) show False by auto
  qed
  have at: "CHR ''@'' \<in> set ?e" using assms(2) by (force simp: toLowerCase_def)
  have "CHR ''|'' \<notin> set ?o" using assms(4) by (simp split: option.splits)
  with bar have parts: "splitOn (CHR ''|'') (tokenPayload t) = [''v1'', ?o, ?e]"
    using splitOn_append [of "CHR ''|''" "''v1''"] splitOn_append [of "CHR ''|''" ?o ?e] splitOn_no_sep [of "CHR ''|''" ?e]
    by (simp add: tokenPayload_def)
  have "length ?o \<le> 64" using assms(4) by (simp split: option.splits)
  then have "length (tokenPayload t) \<le> 480" using assms(5) by (simp add: tokenPayload_def toLowerCase_def)
  with assms(1) have short: "int (length (signUnsubscribeToken te t)) \<le> 2048" by (rule token_length)
  have "tokenPayload t \<noteq> []" by (simp add: tokenPayload_def)
  then have ne: "b64url (utf8Bytes (tokenPayload t)) \<noteq> []"
    by (simp add: b64url_def sextets_nonempty tokenPayload_def)
  have mac: "b64Bytes (b64url (tokenMac te (tokenPayload t))) = tokenMac te (tokenPayload t)"
    using assms(1) by (intro b64_inverse) (simp add: macOk_def tokenMac_def)
  have "verifyUnsubscribeToken te (signUnsubscribeToken te t) = Some \<lparr>utEmail = ?e, utOrg = utOrg t\<rparr>"
    using short ne mac parts at assms(2,4)
    by (auto simp: verifyUnsubscribeToken_def token_parts [OF assms(1)] b64_inverse utf8_lt utf8_inverse split: option.splits)
  moreover have "\<exists>p m. splitOn (CHR ''.'') token = [p, m] \<and>
      b64Bytes m = tokenMac te (''v1|'' @ (case utOrg u of Some x \<Rightarrow> x | None \<Rightarrow> []) @ ''|'' @ utEmail u)"
    if "verifyUnsubscribeToken te token = Some u" for token u
    using that by (rule verified_token)
  ultimately show ?thesis by blast
qed

definition exampleTokenEnv :: tokenEnv where
  "exampleTokenEnv = \<lparr>tkEnv = (\<lambda>_. None), tkHmac = (\<lambda>k m. replicate 32 7)\<rparr>"

definition exampleTarget :: unsubscribeTarget where
  "exampleTarget = \<lparr>utEmail = '' Ann@Example.com'', utOrg = Some ''o1''\<rparr>"

theorem unsubscribe_token_roundtrip_witness:
  "verifyUnsubscribeToken exampleTokenEnv (signUnsubscribeToken exampleTokenEnv exampleTarget) =
     Some \<lparr>utEmail = ''ann@example.com'', utOrg = Some ''o1''\<rparr>"
proof -
  have m: "macOk exampleTokenEnv" by (simp add: macOk_def exampleTokenEnv_def)
  have t: "trim (utEmail exampleTarget) = ''Ann@Example.com''" by code_simp
  have o': "utOrg exampleTarget = Some ''o1''" by (simp add: exampleTarget_def)
  have l: "toLowerCase ''Ann@Example.com'' = ''ann@example.com''" by code_simp
  have "CHR ''|'' \<notin> set (utEmail exampleTarget)" by (simp add: exampleTarget_def)
  from unsubscribe_token_roundtrip [OF m _ this] show ?thesis by (simp add: t o' l)
qed

text \<open>A vertical bar is legal in a local part and passes the list hygiene, but its link never verifies.\<close>

lemma bar_address_cannot_unsubscribe:
  "checkAddress ''a|b@shop.de'' = AddressOk ''a|b@shop.de'' \<and>
   verifyUnsubscribeToken exampleTokenEnv
     (signUnsubscribeToken exampleTokenEnv \<lparr>utEmail = ''a|b@shop.de'', utOrg = Some ''o1''\<rparr>) = None"
  by (rule conjI; code_simp)

end
