(* ===== verification/MailGate.thy ===== *)
theory MailGate
  imports UnsubscribeToken
begin

text \<open>
  The mailing tables of \<^verbatim>\<open>src/db/schema.ts\<close>, the communications gate of
  \<^verbatim>\<open>src/services/communications.service.ts\<close> and
  \<^verbatim>\<open>src/services/mailing/suppression.service.ts\<close>: which addresses are not mailed, how the app
  learns about them, and what a send asks before it goes out. The reading and the writing of one call
  are taken together; the JSON parser (for a preference stored as text) and the clocks are parameters.
\<close>

section \<open>Tables\<close>

record userRow =
  usId :: uuid
  usEmail :: string
  usOrg :: "uuid option"
  usPreferences :: json

record orgRow =
  ogId :: uuid
  ogCommunications :: bool

datatype suppressionCause = HardBounce | Complaint | Unsubscribed | Manual

record suppressionRow =
  spEmail :: string
  spOrg :: "uuid option"
  spReason :: suppressionCause
  spSource :: "string option"
  spDetail :: "string option"

datatype contactStatus = CSubscribed | CUnsubscribed | CSuppressed

datatype contactOrigin = OSignup | OImport | OManual

record contactRow =
  ctId :: uuid
  ctOrg :: uuid
  ctEmail :: string
  ctStatus :: contactStatus
  ctOrigin :: contactOrigin
  ctFirstSentAt :: "ms option"
  ctUnsubscribedAt :: "ms option"
  ctSuppressedAt :: "ms option"
  ctSuppressedReason :: "suppressionCause option"
  ctFirstName :: "string option"
  ctLastName :: "string option"
  ctConsentSource :: "string option"
  ctConsentSourceDetail :: "string option"
  ctConsentCollectedInApp :: bool
  ctConsentAttestedAt :: "ms option"
  ctConsentAttestedBy :: "uuid option"
  ctImportSessionId :: "uuid option"
  ctCreatedAt :: ms

datatype campaignStatus = CmDraft | CmScheduled | CmSending | CmPaused | CmSent | CmCancelled

record campaignRow =
  cmId :: uuid
  cmOrg :: uuid
  cmCreatedBy :: "uuid option"
  cmName :: string
  cmSubject :: string
  cmText :: string
  cmHtml :: "string option"
  cmStatus :: campaignStatus
  cmScheduledAt :: "ms option"
  cmStartedAt :: "ms option"
  cmCompletedAt :: "ms option"
  cmPausedReason :: "string option"
  cmWarmupStep :: nat
  cmNextColdBatchAt :: "ms option"
  cmHealthWindowStart :: "ms option"
  cmCreatedAt :: ms
  cmUpdatedAt :: ms

datatype recipientStatus = RPending | RQueued | RSkipped | RBounced | RComplained

record recipientRow =
  rpId :: uuid
  rpCampaign :: uuid
  rpContact :: uuid
  rpEmail :: string
  rpCold :: bool
  rpStatus :: recipientStatus
  rpSkipReason :: "string option"
  rpBatch :: "nat option"
  rpOutboxId :: "uuid option"
  rpQueuedAt :: "ms option"
  rpCreatedAt :: ms

record mailDb =
  users :: "userRow list"
  orgs :: "orgRow list"
  suppressions :: "suppressionRow list"
  contacts :: "contactRow list"
  campaigns :: "campaignRow list"
  recipients :: "recipientRow list"
  mailbox :: "outboxRow list"

section \<open>The communications gate\<close>

datatype suppressionReason = OrgDisabled | UserOptedOut | AddressSuppressed

text \<open>The properties of a preferences value: an object's own, an array's indices, a text that parses to either.\<close>

definition ownProperties :: "json \<Rightarrow> (string \<times> json) list option" where
  "ownProperties v =
     (case v of
        JObj kvs \<Rightarrow> Some kvs
      | JArr xs \<Rightarrow> Some (zip (map decimal [0..<length xs]) xs)
      | _ \<Rightarrow> None)"

definition coercePreferences :: "(string \<Rightarrow> json option) \<Rightarrow> json \<Rightarrow> (string \<times> json) list" where
  "coercePreferences parse v =
     (case ownProperties v of
        Some kvs \<Rightarrow> kvs
      | None \<Rightarrow>
          (case v of
             JStr s \<Rightarrow> (case parse s of
                 Some w \<Rightarrow> (case ownProperties w of Some kvs \<Rightarrow> kvs | None \<Rightarrow> [])
               | None \<Rightarrow> [])
           | _ \<Rightarrow> []))"

definition userWantsCommunications :: "(string \<Rightarrow> json option) \<Rightarrow> json \<Rightarrow> bool" where
  "userWantsCommunications parse v \<longleftrightarrow>
     map_of (coercePreferences parse v) ''communicationsEnabled'' \<noteq> Some (JBool False)"

text \<open>\<open>orgId ? org IS NULL OR org = orgId : org IS NULL\<close>, where an empty id is false.\<close>

definition suppressionApplies :: "string \<Rightarrow> uuid option \<Rightarrow> suppressionRow \<Rightarrow> bool" where
  "suppressionApplies email org s \<longleftrightarrow>
     spEmail s = email \<and> (spOrg s = None \<or> (truthy org \<and> spOrg s = org))"

definition getOrgCommunicationsEnabled :: "uuid \<Rightarrow> mailDb \<Rightarrow> bool" where
  "getOrgCommunicationsEnabled i db =
     (case List.find (\<lambda>r. ogId r = i) (orgs db) of Some r \<Rightarrow> ogCommunications r | None \<Rightarrow> True)"

definition setOrgCommunicationsEnabled :: "uuid \<Rightarrow> bool \<Rightarrow> mailDb \<Rightarrow> mailDb \<times> bool" where
  "setOrgCommunicationsEnabled i enabled db =
     (let db' = db\<lparr>orgs := updateWhere (\<lambda>r. ogId r = i) (\<lambda>r. r\<lparr>ogCommunications := enabled\<rparr>) (orgs db)\<rparr>
      in (db', getOrgCommunicationsEnabled i db'))"

text \<open>\<open>None\<close> lets the message through; a lookup that throws does too.\<close>

definition checkCommunicationsSuppression ::
    "(string \<Rightarrow> json option) \<Rightarrow> bool \<Rightarrow> string \<Rightarrow> uuid option \<Rightarrow> mailDb \<Rightarrow> suppressionReason option" where
  "checkCommunicationsSuppression parse lookupThrows to organizationId db =
     (if lookupThrows then None
      else let email = toLowerCase (trim to);
               recipient = List.find (\<lambda>u. usEmail u = email) (users db)
      in if (case recipient of Some u \<Rightarrow> \<not> userWantsCommunications parse (usPreferences u) | None \<Rightarrow> False)
         then Some UserOptedOut
         else let org = (case organizationId of Some i \<Rightarrow> Some i
                           | None \<Rightarrow> (case recipient of Some u \<Rightarrow> usOrg u | None \<Rightarrow> None))
         in if list_ex (suppressionApplies email org) (suppressions db) then Some AddressSuppressed
            else if truthy org \<and> \<not> getOrgCommunicationsEnabled (the org) db then Some OrgDisabled
            else None)"

definition getUserCommunicationsEnabled :: "(string \<Rightarrow> json option) \<Rightarrow> uuid \<Rightarrow> mailDb \<Rightarrow> bool" where
  "getUserCommunicationsEnabled parse i db =
     (case List.find (\<lambda>u. usId u = i) (users db) of
        Some u \<Rightarrow> userWantsCommunications parse (usPreferences u) | None \<Rightarrow> True)"

text \<open>\<open>{...prefs, [key]: v}\<close>\<close>

definition setProperty :: "string \<Rightarrow> json \<Rightarrow> (string \<times> json) list \<Rightarrow> (string \<times> json) list" where
  "setProperty k v kvs =
     (if k \<in> fst ` set kvs then map (\<lambda>(k', w). (k', if k' = k then v else w)) kvs else kvs @ [(k, v)])"

definition setUserCommunicationsEnabled :: "(string \<Rightarrow> json option) \<Rightarrow> uuid \<Rightarrow> bool \<Rightarrow> mailDb \<Rightarrow> mailDb \<times> bool" where
  "setUserCommunicationsEnabled parse i enabled db =
     (let current = (case List.find (\<lambda>u. usId u = i) (users db) of
                       Some u \<Rightarrow> coercePreferences parse (usPreferences u) | None \<Rightarrow> []);
          merged = JObj (setProperty ''communicationsEnabled'' (JBool enabled) current);
          db' = db\<lparr>users := updateWhere (\<lambda>u. usId u = i) (\<lambda>u. u\<lparr>usPreferences := merged\<rparr>) (users db)\<rparr>
      in (db', if list_ex (\<lambda>u. usId u = i) (users db) then userWantsCommunications parse merged else enabled))"

section \<open>Suppression\<close>

definition FEEDBACK_MATCH_WINDOW_DAYS :: int where "FEEDBACK_MATCH_WINDOW_DAYS = 30"

definition ZERO_UUID :: uuid where "ZERO_UUID = ''00000000-0000-0000-0000-000000000000''"

record suppressInput =
  siEmail :: string
  siReason :: suppressionCause
  siOrg :: "uuid option"
  siSource :: "string option"
  siDetail :: "string option"

text \<open>\<open>s ? s.slice(0, n) : null\<close>\<close>

definition sliceOrNull :: "nat \<Rightarrow> string option \<Rightarrow> string option" where
  "sliceOrNull n s = (if truthy s then map_option (take n) s else None)"

text \<open>The unique index is on the e-mail and \<open>COALESCE(organization_id, zero)\<close>.\<close>

definition suppressionKey :: "suppressionRow \<Rightarrow> string \<times> uuid" where
  "suppressionKey s = (spEmail s, case spOrg s of Some i \<Rightarrow> i | None \<Rightarrow> ZERO_UUID)"

definition upsertSuppression :: "suppressionRow \<Rightarrow> suppressionRow list \<Rightarrow> suppressionRow list" where
  "upsertSuppression row t =
     (if suppressionKey row \<in> suppressionKey ` set t
      then updateWhere (\<lambda>s. suppressionKey s = suppressionKey row)
             (\<lambda>s. s\<lparr>spReason := spReason row, spSource := spSource row, spDetail := spDetail row\<rparr>) t
      else t @ [row])"

definition contactScope :: "string \<Rightarrow> uuid option \<Rightarrow> contactRow \<Rightarrow> bool" where
  "contactScope email org c \<longleftrightarrow> ctEmail c = email \<and> (truthy org \<longrightarrow> Some (ctOrg c) = org)"

definition unsubscribeContacts :: "ms \<Rightarrow> string \<Rightarrow> uuid option \<Rightarrow> contactRow list \<Rightarrow> contactRow list" where
  "unsubscribeContacts now email org =
     updateWhere (\<lambda>c. contactScope email org c \<and> ctStatus c = CSubscribed)
       (\<lambda>c. c\<lparr>ctStatus := CUnsubscribed, ctUnsubscribedAt := Some now\<rparr>)"

definition suppressAddress :: "ms \<Rightarrow> suppressInput \<Rightarrow> mailDb \<Rightarrow> mailDb" where
  "suppressAddress now inp db =
     (let email = normalizeAddress (siEmail inp);
          row = \<lparr>spEmail = email, spOrg = siOrg inp, spReason = siReason inp,
                 spSource = sliceOrNull 64 (siSource inp), spDetail = sliceOrNull 1000 (siDetail inp)\<rparr>;
          db1 = db\<lparr>suppressions := upsertSuppression row (suppressions db)\<rparr>
      in if siReason inp = Unsubscribed
         then db1\<lparr>contacts := unsubscribeContacts now email (siOrg inp) (contacts db1)\<rparr>
         else db1\<lparr>contacts := updateWhere (\<lambda>c. contactScope email (siOrg inp) c \<and> ctStatus c \<noteq> CSuppressed)
                (\<lambda>c. c\<lparr>ctStatus := CSuppressed, ctSuppressedAt := Some now, ctSuppressedReason := Some (siReason inp)\<rparr>)
                (contacts db1)\<rparr>)"

definition isAddressSuppressed :: "string \<Rightarrow> uuid option \<Rightarrow> mailDb \<Rightarrow> bool" where
  "isAddressSuppressed email org db = list_ex (suppressionApplies (normalizeAddress email) org) (suppressions db)"

section \<open>Provider feedback\<close>

datatype feedbackType = FHardBounce | FComplaint | FSoftBounce | FUnsubscribe

datatype feedbackAction = ASuppressed | AUnsubscribed | AIgnored

record feedbackEvent =
  feType :: feedbackType
  feEmail :: string
  feCampaign :: "uuid option"
  feOrg :: "uuid option"
  feOccurredAt :: "ms option"
  feDetail :: "string option"

record feedbackResult =
  frEmail :: string
  frType :: feedbackType
  frAction :: feedbackAction
  frRecipient :: "uuid option"

text \<open>The latest send to the address that is still \<open>queued\<close> and inside the window.\<close>

definition matchedSend :: "string \<Rightarrow> ms \<Rightarrow> uuid option \<Rightarrow> recipientRow list \<Rightarrow> recipientRow option" where
  "matchedSend email since campaign t =
     (case orderedLimit (\<lambda>r. - the (rpQueuedAt r)) 1
        (filter (\<lambda>r. rpEmail r = email \<and> rpStatus r = RQueued \<and>
                   (case rpQueuedAt r of Some q \<Rightarrow> since \<le> q | None \<Rightarrow> False) \<and>
                   (truthy campaign \<longrightarrow> Some (rpCampaign r) = campaign)) t) of
        [] \<Rightarrow> None | r # _ \<Rightarrow> Some r)"

definition recordProviderFeedback :: "ms \<Rightarrow> feedbackEvent \<Rightarrow> mailDb \<Rightarrow> mailDb \<times> feedbackResult" where
  "recordProviderFeedback now ev db =
     (let email = normalizeAddress (feEmail ev);
          base = \<lparr>frEmail = email, frType = feType ev, frAction = AIgnored, frRecipient = None\<rparr>
      in case feType ev of
           FSoftBounce \<Rightarrow> (db, base)
         | FUnsubscribe \<Rightarrow>
             (suppressAddress now \<lparr>siEmail = email, siReason = Unsubscribed, siOrg = feOrg ev,
                 siSource = Some ''provider-feedback'', siDetail = feDetail ev\<rparr> db,
              base\<lparr>frAction := AUnsubscribed\<rparr>)
         | ft \<Rightarrow>
             (let db1 = suppressAddress now \<lparr>siEmail = email,
                    siReason = (if ft = FHardBounce then HardBounce else Complaint), siOrg = None,
                    siSource = Some ''provider-feedback'', siDetail = feDetail ev\<rparr> db;
                  since = (case feOccurredAt ev of Some t \<Rightarrow> t | None \<Rightarrow> now) - FEEDBACK_MATCH_WINDOW_DAYS * 86400000
              in case matchedSend email since (feCampaign ev) (recipients db1) of
                   None \<Rightarrow> (db1, base\<lparr>frAction := ASuppressed\<rparr>)
                 | Some m \<Rightarrow>
                     (db1\<lparr>recipients := updateWhere (\<lambda>r. rpId r = rpId m)
                        (\<lambda>r. r\<lparr>rpStatus := (if ft = FHardBounce then RBounced else RComplained)\<rparr>) (recipients db1)\<rparr>,
                      base\<lparr>frAction := ASuppressed, frRecipient := Some (rpId m)\<rparr>)))"

section \<open>One-click unsubscribe\<close>

definition unsubscribe :: "(string \<Rightarrow> json option) \<Rightarrow> ms \<Rightarrow> unsubscribeTarget \<Rightarrow> mailDb \<Rightarrow> mailDb" where
  "unsubscribe parse now target db =
     (let email = normalizeAddress (utEmail target);
          orgId = utOrg target
      in case List.find (\<lambda>u. usEmail u = email) (users db) of
           Some u \<Rightarrow>
             if \<not> truthy orgId \<or> usOrg u = orgId
             then fst (setUserCommunicationsEnabled parse (usId u) False
                    (db\<lparr>contacts := unsubscribeContacts now email orgId (contacts db)\<rparr>))
             else suppressAddress now \<lparr>siEmail = email, siReason = Unsubscribed, siOrg = orgId,
                    siSource = Some ''one-click'', siDetail = None\<rparr> db
         | None \<Rightarrow> suppressAddress now \<lparr>siEmail = email, siReason = Unsubscribed, siOrg = orgId,
                    siSource = Some ''one-click'', siDetail = None\<rparr> db)"

section \<open>Lemmas\<close>

lemma map_of_setProperty: "map_of (setProperty k v kvs) k = Some v"
proof (cases "k \<in> fst ` set kvs")
  case True
  then have "map_of (map (\<lambda>(k', w). (k', if k' = k then v else w)) kvs) k = Some v"
    by (induction kvs) auto
  with True show ?thesis by (simp add: setProperty_def)
next
  case False
  then have "map_of kvs k = None" by (simp add: map_of_eq_None_iff)
  with False show ?thesis by (simp add: setProperty_def map_add_def)
qed

lemma switched_off: "\<not> userWantsCommunications parse (JObj (setProperty ''communicationsEnabled'' (JBool False) kvs))"
  by (simp add: userWantsCommunications_def coercePreferences_def ownProperties_def map_of_setProperty)

lemma unsubscribed_contacts:
  "\<forall>c\<in>set (unsubscribeContacts now email org t).
     if contactScope email org c then ctStatus c \<noteq> CSubscribed else c \<in> set t"
  by (auto simp: unsubscribeContacts_def set_updateWhere contactScope_def)

lemma suppressed_contacts:
  "siReason inp \<noteq> Unsubscribed \<Longrightarrow>
   \<forall>c\<in>set (contacts (suppressAddress now inp db)). if contactScope (normalizeAddress (siEmail inp)) (siOrg inp) c
      then ctStatus c = CSuppressed else c \<in> set (contacts db)"
  by (auto simp: suppressAddress_def Let_def set_updateWhere contactScope_def)

lemma upsert_applies:
  assumes "\<forall>s\<in>set t. spOrg s \<noteq> Some ZERO_UUID" and "spOrg row \<noteq> Some ZERO_UUID"
    and "spOrg row = None \<or> (truthy org \<and> spOrg row = org)"
  shows "list_ex (suppressionApplies (spEmail row) org) (upsertSuppression row t)"
proof (cases "suppressionKey row \<in> suppressionKey ` set t")
  case True
  then obtain s where s: "s \<in> set t" "suppressionKey s = suppressionKey row" by auto
  with assms(1,2) have "spEmail s = spEmail row" "spOrg s = spOrg row"
    by (auto simp: suppressionKey_def split: option.splits)
  with assms(3) have "suppressionApplies (spEmail row) org
      (s\<lparr>spReason := spReason row, spSource := spSource row, spDetail := spDetail row\<rparr>)"
    by (auto simp: suppressionApplies_def)
  moreover have "s\<lparr>spReason := spReason row, spSource := spSource row, spDetail := spDetail row\<rparr> \<in> set (upsertSuppression row t)"
    using True updateWhere_in [OF s(1), of "\<lambda>x. suppressionKey x = suppressionKey row"] s(2)
    by (simp add: upsertSuppression_def)
  ultimately show ?thesis by (auto simp: list_ex_iff)
next
  case False
  with assms(3) show ?thesis by (auto simp: upsertSuppression_def suppressionApplies_def)
qed

lemma suppressAddress_fields [row_simps]:
  "users (suppressAddress now inp db) = users db" "orgs (suppressAddress now inp db) = orgs db"
  "recipients (suppressAddress now inp db) = recipients db" "campaigns (suppressAddress now inp db) = campaigns db"
  "mailbox (suppressAddress now inp db) = mailbox db"
  by (simp_all add: suppressAddress_def Let_def)

section \<open>Properties\<close>

lemma suppressed_unsubscribe:
  assumes "\<forall>s\<in>set (suppressions db). spOrg s \<noteq> Some ZERO_UUID" and "org \<noteq> Some ZERO_UUID" "org \<noteq> Some []"
    and "normalizeAddress to = e" and "org = None \<or> to_org = org"
    and db': "db' = suppressAddress now \<lparr>siEmail = e, siReason = Unsubscribed, siOrg = org, siSource = src, siDetail = None\<rparr> db"
  shows "checkCommunicationsSuppression parse False to to_org db' \<noteq> None \<and>
    (\<forall>c\<in>set (contacts db'). if contactScope e org c then ctStatus c \<noteq> CSubscribed else c \<in> set (contacts db))"
proof -
  let ?row = "\<lparr>spEmail = e, spOrg = org, spReason = Unsubscribed, spSource = sliceOrNull 64 src, spDetail = None\<rparr>"
  have e: "normalizeAddress e = e" using assms(4) by (metis normalize_idem)
  have s: "suppressions db' = upsertSuppression ?row (suppressions db)"
    by (simp add: db' suppressAddress_def Let_def e sliceOrNull_def truthy_def)
  have c: "contacts db' = unsubscribeContacts now e org (contacts db)"
    by (simp add: db' suppressAddress_def Let_def e)
  have applies: "list_ex (suppressionApplies e x) (suppressions db')" if "org = None \<or> x = org" for x
  proof -
    have "org = None \<or> truthy x \<and> org = x" using that assms(3) by (cases org) (auto simp: truthy_def)
    then show ?thesis unfolding s using upsert_applies [of "suppressions db" ?row x] assms(1,2) by simp
  qed
  have low: "toLowerCase (trim to) = e" using assms(4) by (simp add: normalizeAddress_def)
  have "list_ex (suppressionApplies e (case to_org of Some i \<Rightarrow> Some i | None \<Rightarrow> y)) (suppressions db')" for y
    using applies assms(5) by (cases to_org) auto
  then have "checkCommunicationsSuppression parse False to to_org db' \<noteq> None"
    by (simp add: checkCommunicationsSuppression_def Let_def low)
  with c unsubscribed_contacts show ?thesis by simp
qed

text \<open>
  C33. An unsubscribe stops the mail: after it the gate holds back every ordinary message to that address
  from the workspace named (from every workspace when none is), however the address is written; no
  contact row in that scope is still subscribed, and no other contact row changes.
\<close>

theorem unsubscribe_stops_ordinary_mail:
  assumes "\<forall>s\<in>set (suppressions db). spOrg s \<noteq> Some ZERO_UUID" and "utOrg t \<noteq> Some ZERO_UUID" "utOrg t \<noteq> Some []"
    and "normalizeAddress to = normalizeAddress (utEmail t)" and "utOrg t = None \<or> org = utOrg t"
  shows "checkCommunicationsSuppression parse False to org (unsubscribe parse now t db) \<noteq> None \<and>
    (\<forall>c\<in>set (contacts (unsubscribe parse now t db)).
       if contactScope (normalizeAddress (utEmail t)) (utOrg t) c then ctStatus c \<noteq> CSubscribed else c \<in> set (contacts db))"
proof -
  let ?e = "normalizeAddress (utEmail t)"
  let ?sup = "suppressAddress now \<lparr>siEmail = ?e, siReason = Unsubscribed, siOrg = utOrg t, siSource = Some ''one-click'', siDetail = None\<rparr> db"
  note viaRow = suppressed_unsubscribe [OF assms(1-3,4,5), of ?sup now "Some ''one-click''"]
  show ?thesis
  proof (cases "List.find (\<lambda>u. usEmail u = ?e) (users db)")
    case None
    then have "unsubscribe parse now t db = ?sup" by (simp add: unsubscribe_def Let_def)
    then show ?thesis using viaRow by simp
  next
    case (Some u)
    show ?thesis
    proof (cases "\<not> truthy (utOrg t) \<or> usOrg u = utOrg t")
      case False
      with Some have "unsubscribe parse now t db = ?sup" by (simp add: unsubscribe_def Let_def)
      then show ?thesis using viaRow by simp
    next
      case True
      let ?prefs = "JObj (setProperty ''communicationsEnabled'' (JBool False)
          (case List.find (\<lambda>x. usId x = usId u) (users db) of Some x \<Rightarrow> coercePreferences parse (usPreferences x) | None \<Rightarrow> []))"
      from True Some have db': "unsubscribe parse now t db =
          db\<lparr>contacts := unsubscribeContacts now ?e (utOrg t) (contacts db),
             users := updateWhere (\<lambda>x. usId x = usId u) (\<lambda>x. x\<lparr>usPreferences := ?prefs\<rparr>) (users db)\<rparr>"
        by (simp add: unsubscribe_def setUserCommunicationsEnabled_def Let_def)
      have "List.find (\<lambda>x. usEmail x = ?e) (updateWhere (\<lambda>x. usId x = usId u) (\<lambda>x. x\<lparr>usPreferences := ?prefs\<rparr>) (users db))
          = Some (u\<lparr>usPreferences := ?prefs\<rparr>)"
        using Some by (simp add: find_updateWhere)
      moreover have "toLowerCase (trim to) = ?e" using assms(4) by (simp add: normalizeAddress_def)
      ultimately have "checkCommunicationsSuppression parse False to org (unsubscribe parse now t db) = Some UserOptedOut"
        using switched_off by (simp add: checkCommunicationsSuppression_def Let_def db')
      then show ?thesis using unsubscribed_contacts by (simp add: db')
    qed
  qed
qed

definition bounceCause :: "feedbackEvent \<Rightarrow> suppressionCause" where
  "bounceCause ev = (if feType ev = FHardBounce then HardBounce else Complaint)"

definition bounceStatus :: "feedbackEvent \<Rightarrow> recipientStatus" where
  "bounceStatus ev = (if feType ev = FHardBounce then RBounced else RComplained)"

definition feedbackSince :: "ms \<Rightarrow> feedbackEvent \<Rightarrow> ms" where
  "feedbackSince now ev = (case feOccurredAt ev of Some t \<Rightarrow> t | None \<Rightarrow> now) - FEEDBACK_MATCH_WINDOW_DAYS * 86400000"

lemma bounce_effect:
  assumes "feType ev \<in> {FHardBounce, FComplaint}" and "recordProviderFeedback now ev db = (db', r)"
  shows "suppressions db' = upsertSuppression \<lparr>spEmail = normalizeAddress (feEmail ev), spOrg = None, spReason = bounceCause ev,
        spSource = Some ''provider-feedback'', spDetail = sliceOrNull 1000 (feDetail ev)\<rparr> (suppressions db)"
    and "contacts db' = updateWhere (\<lambda>k. ctEmail k = normalizeAddress (feEmail ev) \<and> ctStatus k \<noteq> CSuppressed)
        (\<lambda>k. k\<lparr>ctStatus := CSuppressed, ctSuppressedAt := Some now, ctSuppressedReason := Some (bounceCause ev)\<rparr>) (contacts db)"
    and "case matchedSend (normalizeAddress (feEmail ev)) (feedbackSince now ev) (feCampaign ev) (recipients db) of
        None \<Rightarrow> recipients db' = recipients db \<and> frRecipient r = None
      | Some m \<Rightarrow> recipients db' = updateWhere (\<lambda>x. rpId x = rpId m) (\<lambda>x. x\<lparr>rpStatus := bounceStatus ev\<rparr>) (recipients db) \<and>
          frRecipient r = Some (rpId m)"
proof -
  let ?s = "suppressAddress now \<lparr>siEmail = normalizeAddress (feEmail ev), siReason = bounceCause ev, siOrg = None,
      siSource = Some ''provider-feedback'', siDetail = feDetail ev\<rparr> db"
  have slice: "sliceOrNull 64 (Some ''provider-feedback'') = Some ''provider-feedback''"
    by (simp add: sliceOrNull_def truthy_def)
  have cause: "bounceCause ev \<noteq> Unsubscribed" by (simp add: bounceCause_def)
  from assms have eq: "(db', r) = (case matchedSend (normalizeAddress (feEmail ev)) (feedbackSince now ev) (feCampaign ev) (recipients db) of
        None \<Rightarrow> (?s, \<lparr>frEmail = normalizeAddress (feEmail ev), frType = feType ev, frAction = ASuppressed, frRecipient = None\<rparr>)
      | Some m \<Rightarrow> (?s\<lparr>recipients := updateWhere (\<lambda>x. rpId x = rpId m) (\<lambda>x. x\<lparr>rpStatus := bounceStatus ev\<rparr>) (recipients db)\<rparr>,
          \<lparr>frEmail = normalizeAddress (feEmail ev), frType = feType ev, frAction = ASuppressed, frRecipient = Some (rpId m)\<rparr>))"
    by (auto simp: recordProviderFeedback_def Let_def bounceCause_def bounceStatus_def feedbackSince_def row_simps split: option.splits)
  have tables: "suppressions db' = suppressions ?s" "contacts db' = contacts ?s"
    using eq by (auto split: option.splits)
  show "suppressions db' = upsertSuppression \<lparr>spEmail = normalizeAddress (feEmail ev), spOrg = None, spReason = bounceCause ev,
        spSource = Some ''provider-feedback'', spDetail = sliceOrNull 1000 (feDetail ev)\<rparr> (suppressions db)"
    unfolding tables by (simp add: suppressAddress_def Let_def slice)
  show "contacts db' = updateWhere (\<lambda>k. ctEmail k = normalizeAddress (feEmail ev) \<and> ctStatus k \<noteq> CSuppressed)
        (\<lambda>k. k\<lparr>ctStatus := CSuppressed, ctSuppressedAt := Some now, ctSuppressedReason := Some (bounceCause ev)\<rparr>) (contacts db)"
    unfolding tables using cause by (simp add: suppressAddress_def Let_def contactScope_def truthy_def)
  show "case matchedSend (normalizeAddress (feEmail ev)) (feedbackSince now ev) (feCampaign ev) (recipients db) of
        None \<Rightarrow> recipients db' = recipients db \<and> frRecipient r = None
      | Some m \<Rightarrow> recipients db' = updateWhere (\<lambda>x. rpId x = rpId m) (\<lambda>x. x\<lparr>rpStatus := bounceStatus ev\<rparr>) (recipients db) \<and>
          frRecipient r = Some (rpId m)"
    using eq by (auto simp: row_simps split: option.splits)
qed

lemma matchedSend_queued:
  assumes "matchedSend e since c t = Some m"
  shows "m \<in> set t \<and> rpStatus m = RQueued"
proof -
  let ?f = "filter (\<lambda>r. rpEmail r = e \<and> rpStatus r = RQueued \<and> (case rpQueuedAt r of Some q \<Rightarrow> since \<le> q | None \<Rightarrow> False) \<and>
                   (truthy c \<longrightarrow> Some (rpCampaign r) = c)) t"
  from assms have "m \<in> set (orderedLimit (\<lambda>r. - the (rpQueuedAt r)) 1 ?f)"
    by (auto simp: matchedSend_def split: list.splits)
  then have "m \<in> set ?f" using set_orderedLimit_subset by (rule subsetD [rotated])
  then show ?thesis by simp
qed

lemma matchedSend_Some:
  assumes "matchedSend e since (Some c) t = Some m" and "c \<noteq> []"
  shows "m \<in> set t" "rpStatus m = RQueued" "rpEmail m = e" "rpCampaign m = c"
proof -
  let ?f = "filter (\<lambda>r. rpEmail r = e \<and> rpStatus r = RQueued \<and> (case rpQueuedAt r of Some q \<Rightarrow> since \<le> q | None \<Rightarrow> False) \<and>
                   (truthy (Some c) \<longrightarrow> Some (rpCampaign r) = Some c)) t"
  from assms(1) have "m \<in> set (orderedLimit (\<lambda>r. - the (rpQueuedAt r)) 1 ?f)"
    by (auto simp: matchedSend_def split: list.splits)
  then have "m \<in> set ?f" using set_orderedLimit_subset by (rule subsetD [rotated])
  with assms(2) show "m \<in> set t" "rpStatus m = RQueued" "rpEmail m = e" "rpCampaign m = c"
    by (auto simp: truthy_def)
qed

lemma matchedSend_None:
  assumes "\<And>r. r \<in> set t \<Longrightarrow> \<not> (rpStatus r = RQueued \<and> rpEmail r = e \<and> rpCampaign r = c)" and "c \<noteq> []"
  shows "matchedSend e since (Some c) t = None"
proof (cases "matchedSend e since (Some c) t")
  case (Some m)
  from matchedSend_Some [OF this assms(2)] assms(1) show ?thesis by blast
qed

text \<open>
  A bounce or a complaint is counted once and stops all mail: the address is suppressed for every
  workspace, every contact row of it is marked, and at most one recipient row, a queued one of the named
  campaign, is moved to bounced or complained; reporting the send again, as either, changes neither the
  contacts nor the recipients.
\<close>

theorem feedback_is_counted_once:
  assumes "feType ev \<in> {FHardBounce, FComplaint}" "feType ev2 \<in> {FHardBounce, FComplaint}"
    and "normalizeAddress (feEmail ev2) = normalizeAddress (feEmail ev)" and "feCampaign ev = Some c" "feCampaign ev2 = Some c" "c \<noteq> []"
    and "\<forall>s\<in>set (suppressions db). spOrg s \<noteq> Some ZERO_UUID" and "distinct (map rpId (recipients db))"
    and "\<forall>r\<in>set (recipients db). \<forall>s\<in>set (recipients db). rpCampaign r = rpCampaign s \<longrightarrow> rpEmail r = rpEmail s \<longrightarrow> r = s"
    and "recordProviderFeedback now ev db = (db1, r1)" and "recordProviderFeedback now2 ev2 db1 = (db2, r2)"
  shows "(\<forall>org. isAddressSuppressed (feEmail ev) org db1) \<and>
    (\<forall>k\<in>set (contacts db1). ctEmail k = normalizeAddress (feEmail ev) \<longrightarrow> ctStatus k = CSuppressed) \<and>
    (recipients db1 = recipients db \<and> frRecipient r1 = None \<or>
      (\<exists>m\<in>set (recipients db). rpStatus m = RQueued \<and> rpCampaign m = c \<and> rpEmail m = normalizeAddress (feEmail ev) \<and>
         frRecipient r1 = Some (rpId m) \<and>
         recipients db1 = updateWhere (\<lambda>r. r = m)
           (\<lambda>r. r\<lparr>rpStatus := (if feType ev = FHardBounce then RBounced else RComplained)\<rparr>) (recipients db))) \<and>
    contacts db2 = contacts db1 \<and>
    (frRecipient r1 \<noteq> None \<longrightarrow> recipients db2 = recipients db1 \<and> frRecipient r2 = None)"
proof -
  let ?e = "normalizeAddress (feEmail ev)"
  note one = bounce_effect [OF assms(1,10)] and two = bounce_effect [OF assms(2,11)]
  have sup: "isAddressSuppressed (feEmail ev) org db1" for org
    using upsert_applies [OF assms(7), of "\<lparr>spEmail = ?e, spOrg = None, spReason = bounceCause ev,
        spSource = Some ''provider-feedback'', spDetail = sliceOrNull 1000 (feDetail ev)\<rparr>" org] one(1)
    by (simp add: isAddressSuppressed_def)
  have marked: "\<forall>k\<in>set (contacts db1). ctEmail k = ?e \<longrightarrow> ctStatus k = CSuppressed"
    unfolding one(2) by (auto simp: set_updateWhere)
  have "contacts db2 = contacts db1"
    unfolding two(2) using marked assms(3) by (intro updateWhere_none) auto
  moreover have "recipients db1 = recipients db \<and> frRecipient r1 = None \<or>
      (\<exists>m\<in>set (recipients db). rpStatus m = RQueued \<and> rpCampaign m = c \<and> rpEmail m = ?e \<and> frRecipient r1 = Some (rpId m) \<and>
         recipients db1 = updateWhere (\<lambda>r. r = m) (\<lambda>r. r\<lparr>rpStatus := bounceStatus ev\<rparr>) (recipients db)) \<and>
      recipients db2 = recipients db1 \<and> frRecipient r2 = None"
  proof (cases "matchedSend ?e (feedbackSince now ev) (Some c) (recipients db)")
    case None
    with one(3) assms(4) show ?thesis by simp
  next
    case (Some m)
    note m = matchedSend_Some [OF Some assms(6)]
    have same: "updateWhere (\<lambda>r. rpId r = rpId m) f (recipients db) = updateWhere (\<lambda>r. r = m) f (recipients db)" for f
      using distinct_key_eq [OF assms(8)] m(1) by (intro updateWhere_cong) auto
    from one(3) Some assms(4) have r1: "recipients db1 = updateWhere (\<lambda>r. r = m) (\<lambda>r. r\<lparr>rpStatus := bounceStatus ev\<rparr>) (recipients db)"
      "frRecipient r1 = Some (rpId m)" by (simp_all add: same)
    have "\<not> (rpStatus r = RQueued \<and> rpEmail r = ?e \<and> rpCampaign r = c)" if "r \<in> set (recipients db1)" for r
      using that m assms(9) unfolding r1(1) by (auto simp: set_updateWhere bounceStatus_def split: if_splits)
    then have "matchedSend ?e (feedbackSince now2 ev2) (Some c) (recipients db1) = None"
      by (rule matchedSend_None [OF _ assms(6)])
    with two(3) assms(3,5) m r1 show ?thesis by auto
  qed
  ultimately show ?thesis using sup marked unfolding bounceStatus_def by auto
qed

section \<open>Examples\<close>

definition exampleContact :: contactRow where
  "exampleContact = \<lparr>ctId = ''k1'', ctOrg = ''o1'', ctEmail = ''ann@example.com'', ctStatus = CSubscribed, ctOrigin = OImport,
     ctFirstSentAt = None, ctUnsubscribedAt = None, ctSuppressedAt = None, ctSuppressedReason = None,
     ctFirstName = None, ctLastName = None, ctConsentSource = Some ''event'', ctConsentSourceDetail = Some ''Fair'',
     ctConsentCollectedInApp = False, ctConsentAttestedAt = Some 0, ctConsentAttestedBy = None,
     ctImportSessionId = None, ctCreatedAt = 0\<rparr>"

definition exampleSend :: "uuid \<Rightarrow> uuid \<Rightarrow> ms \<Rightarrow> recipientRow" where
  "exampleSend i c t = \<lparr>rpId = i, rpCampaign = c, rpContact = ''k1'', rpEmail = ''ann@example.com'', rpCold = True,
     rpStatus = RQueued, rpSkipReason = None, rpBatch = Some 1, rpOutboxId = None, rpQueuedAt = Some t, rpCreatedAt = 0\<rparr>"

definition exampleMailDb :: mailDb where
  "exampleMailDb = \<lparr>users = [], orgs = [\<lparr>ogId = ''o1'', ogCommunications = True\<rparr>], suppressions = [],
     contacts = [exampleContact], campaigns = [], recipients = [exampleSend ''r1'' ''c1'' 5, exampleSend ''r2'' ''c2'' 7], mailbox = []\<rparr>"

definition exampleBounce :: "uuid option \<Rightarrow> feedbackEvent" where
  "exampleBounce c = \<lparr>feType = FHardBounce, feEmail = ''Ann@example.com '', feCampaign = c, feOrg = None,
     feOccurredAt = Some 9, feDetail = None\<rparr>"

theorem unsubscribe_stops_ordinary_mail_witness:
  "checkCommunicationsSuppression (\<lambda>_. None) False ''ANN@example.com'' (Some ''o1'')
     (unsubscribe (\<lambda>_. None) 9 exampleTarget exampleMailDb) \<noteq> None"
proof -
  have same: "normalizeAddress ''ANN@example.com'' = normalizeAddress (utEmail exampleTarget)" by code_simp
  have org: "utOrg exampleTarget = Some ''o1''" by (simp add: exampleTarget_def)
  have none: "\<forall>s\<in>set (suppressions exampleMailDb). spOrg s \<noteq> Some ZERO_UUID" by (simp add: exampleMailDb_def)
  from unsubscribe_stops_ordinary_mail [OF none _ _ same, of "Some ''o1''"] show ?thesis
    by (simp add: org ZERO_UUID_def)
qed

theorem feedback_is_counted_once_witness:
  "frRecipient (snd (recordProviderFeedback 9 (exampleBounce (Some ''c2'')) exampleMailDb)) = Some ''r2'' \<and>
   frRecipient (snd (recordProviderFeedback 10 (exampleBounce (Some ''c2''))
      (fst (recordProviderFeedback 9 (exampleBounce (Some ''c2'')) exampleMailDb)))) = None"
proof -
  let ?one = "recordProviderFeedback 9 (exampleBounce (Some ''c2'')) exampleMailDb"
  let ?two = "recordProviderFeedback 10 (exampleBounce (Some ''c2'')) (fst ?one)"
  have first: "frRecipient (snd ?one) = Some ''r2''" by code_simp
  have ty: "feType (exampleBounce (Some ''c2'')) \<in> {FHardBounce, FComplaint}"
    "feCampaign (exampleBounce (Some ''c2'')) = Some ''c2''" by (simp_all add: exampleBounce_def)
  have db: "\<forall>s\<in>set (suppressions exampleMailDb). spOrg s \<noteq> Some ZERO_UUID" "distinct (map rpId (recipients exampleMailDb))"
    "\<forall>r\<in>set (recipients exampleMailDb). \<forall>s\<in>set (recipients exampleMailDb).
       rpCampaign r = rpCampaign s \<longrightarrow> rpEmail r = rpEmail s \<longrightarrow> r = s"
    by (simp_all add: exampleMailDb_def exampleSend_def)
  have "?one = (fst ?one, snd ?one)" "?two = (fst ?two, snd ?two)" by simp_all
  from feedback_is_counted_once [OF ty(1,1) refl ty(2,2) _ db this] first show ?thesis by simp
qed

text \<open>
  Without the campaign the second report of one bounce finds the next older send, so a repeated report
  marks a send that did not bounce.
\<close>

lemma repeated_bounce_hits_an_earlier_send:
  "frRecipient (snd (recordProviderFeedback 9 (exampleBounce None) exampleMailDb)) = Some ''r2'' \<and>
   frRecipient (snd (recordProviderFeedback 10 (exampleBounce None)
      (fst (recordProviderFeedback 9 (exampleBounce None) exampleMailDb)))) = Some ''r1''"
  by (rule conjI; code_simp)

end
