(* ===== verification/Campaign.thy ===== *)
theory Campaign
  imports MailGate
begin

text \<open>
  \<^verbatim>\<open>src/services/mailing/campaign.service.ts\<close>: newsletters. A campaign is drafted, started or
  scheduled, released in batches by the job runner, and paused by a person or by the warm-up
  thresholds. A database transaction is a function to an error or a new state. Generated ids, the database's clock,
  the sender configuration, the token's secret and \<open>toFixed\<close> are fields of \<open>campaignEnv\<close>; the rates are compared as
  fractions, which is what comparing the doubles decides for any count a list can have.
\<close>

section \<open>Constants and environment\<close>

definition WARMUP_BATCH_SIZES :: "int list" where
  "WARMUP_BATCH_SIZES = [50, 200, 500, 1000, 2500, 5000]"

definition WARMUP_BATCH_INTERVAL_MS :: ms where "WARMUP_BATCH_INTERVAL_MS = 4 * 60 * 60 * 1000"
definition WARMUP_MAX_HARD_BOUNCE_RATE :: rat where "WARMUP_MAX_HARD_BOUNCE_RATE = 2 / 100"
definition WARMUP_MAX_COMPLAINT_RATE :: rat where "WARMUP_MAX_COMPLAINT_RATE = 1 / 1000"
definition WARMUP_MIN_SAMPLE :: nat where "WARMUP_MIN_SAMPLE = 20"
definition CAMPAIGN_RELEASE_CHUNK :: nat where "CAMPAIGN_RELEASE_CHUNK = 500"
definition CAMPAIGNS_PER_TICK :: nat where "CAMPAIGNS_PER_TICK = 10"

record campaignEnv =
  ceSender :: bulkSenderInputs
  ceToken :: tokenEnv
  ceBrand :: string
  ceVars :: "string \<Rightarrow> string option"
  ceDbNow :: ms
  ceRecipientId :: "uuid \<Rightarrow> uuid \<Rightarrow> uuid"
  ceOutboxId :: "uuid \<Rightarrow> uuid"
  ceToFixed :: "rat \<Rightarrow> nat \<Rightarrow> string"

fun statusName :: "campaignStatus \<Rightarrow> string" where
  "statusName CmDraft = ''draft''"
| "statusName CmScheduled = ''scheduled''"
| "statusName CmSending = ''sending''"
| "statusName CmPaused = ''paused''"
| "statusName CmSent = ''sent''"
| "statusName CmCancelled = ''cancelled''"

section \<open>Create, edit, read\<close>

record campaignContent =
  ccName :: string
  ccSubject :: string
  ccText :: string
  ccHtml :: "string option"

definition cleanContent :: "campaignContent \<Rightarrow> appError + campaignContent" where
  "cleanContent inp =
     (if trim (ccName inp) = [] \<or> length (trim (ccName inp)) > 200
      then Inl (BadRequestError ''Campaign name must be 1-200 characters.'')
      else if trim (ccSubject inp) = [] \<or> length (trim (ccSubject inp)) > 300
      then Inl (BadRequestError ''Subject must be 1-300 characters.'')
      else if trim (ccText inp) = [] then Inl (BadRequestError ''A plain-text body is required.'')
      else Inr (inp\<lparr>ccName := trim (ccName inp), ccSubject := trim (ccSubject inp)\<rparr>))"

definition createCampaign ::
    "campaignEnv \<Rightarrow> uuid \<Rightarrow> uuid \<Rightarrow> uuid option \<Rightarrow> campaignContent \<Rightarrow> mailDb \<Rightarrow> appError + mailDb \<times> campaignRow" where
  "createCampaign ce newId org user inp db =
     ebind (cleanContent inp) (\<lambda>c.
       let row = \<lparr>cmId = newId, cmOrg = org, cmCreatedBy = user, cmName = ccName c, cmSubject = ccSubject c,
             cmText = ccText c, cmHtml = ccHtml c, cmStatus = CmDraft, cmScheduledAt = None, cmStartedAt = None,
             cmCompletedAt = None, cmPausedReason = None, cmWarmupStep = 0, cmNextColdBatchAt = None,
             cmHealthWindowStart = None, cmCreatedAt = ceDbNow ce, cmUpdatedAt = ceDbNow ce\<rparr>
       in Inr (db\<lparr>campaigns := campaigns db @ [row]\<rparr>, row))"

definition getCampaign :: "uuid \<Rightarrow> uuid \<Rightarrow> mailDb \<Rightarrow> appError + campaignRow" where
  "getCampaign i org db =
     (case List.find (\<lambda>c. cmId c = i \<and> cmOrg c = org) (campaigns db) of
        Some c \<Rightarrow> Inr c | None \<Rightarrow> Inl (notFound ''Campaign'' i))"

text \<open>
  \<^verbatim>\<open>UPDATE email_campaigns SET f WHERE p RETURNING *\<close>, first row; the table's trigger stamps
  \<open>updated_at\<close>.
\<close>

definition updateCampaigns ::
    "campaignEnv \<Rightarrow> (campaignRow \<Rightarrow> bool) \<Rightarrow> (campaignRow \<Rightarrow> campaignRow) \<Rightarrow> mailDb \<Rightarrow> mailDb \<times> campaignRow option" where
  "updateCampaigns ce p f db =
     (let g = (\<lambda>c. (f c)\<lparr>cmUpdatedAt := ceDbNow ce\<rparr>)
      in (db\<lparr>campaigns := updateWhere p g (campaigns db)\<rparr>, map_option g (List.find p (campaigns db))))"

definition updateCampaign ::
    "campaignEnv \<Rightarrow> uuid \<Rightarrow> uuid \<Rightarrow> campaignContent \<Rightarrow> mailDb \<Rightarrow> appError + mailDb \<times> campaignRow" where
  "updateCampaign ce i org inp db =
     ebind (cleanContent inp) (\<lambda>c.
       case updateCampaigns ce (\<lambda>r. cmId r = i \<and> cmOrg r = org \<and> cmStatus r = CmDraft)
              (\<lambda>r. r\<lparr>cmName := ccName c, cmSubject := ccSubject c, cmText := ccText c, cmHtml := ccHtml c\<rparr>) db of
         (db', Some r) \<Rightarrow> Inr (db', r)
       | (_, None) \<Rightarrow> ebind (getCampaign i org db)
           (\<lambda>_. Inl (ConflictError ''Only a draft campaign can be edited.'')))"

definition listCampaigns :: "uuid \<Rightarrow> int option \<Rightarrow> mailDb \<Rightarrow> campaignRow list" where
  "listCampaigns org limit db =
     orderedLimit (\<lambda>c. - cmCreatedAt c) (nat (min (max (case limit of Some n \<Rightarrow> n | None \<Rightarrow> 50) 1) 200))
       (filter (\<lambda>c. cmOrg c = org) (campaigns db))"

section \<open>Start\<close>

definition bulkSenderStatusOf :: "campaignEnv \<Rightarrow> bulkSenderStatus" where
  "bulkSenderStatusOf ce = evaluateBulkSender (ceSender ce)"

definition assertBulkSenderAllowed :: "campaignEnv \<Rightarrow> appError option" where
  "assertBulkSenderAllowed ce =
     (if bsAllowed (bulkSenderStatusOf ce) then None
      else Some (SenderDomainRequiredError (bsMessage (bulkSenderStatusOf ce))))"

fun causeText :: "suppressionCause \<Rightarrow> string" where
  "causeText HardBounce = ''hard bounce''"
| "causeText Complaint = ''complaint''"
| "causeText Unsubscribed = ''unsubscribed''"
| "causeText Manual = ''manual''"

text \<open>One recipient per subscribed contact; a pair that is already there is left alone.\<close>

definition newRecipient :: "campaignEnv \<Rightarrow> uuid \<Rightarrow> contactRow \<Rightarrow> recipientRow" where
  "newRecipient ce campaign c =
     \<lparr>rpId = ceRecipientId ce campaign (ctId c), rpCampaign = campaign, rpContact = ctId c, rpEmail = ctEmail c,
      rpCold = (ctOrigin c \<noteq> OSignup \<and> ctFirstSentAt c = None), rpStatus = RPending, rpSkipReason = None,
      rpBatch = None, rpOutboxId = None, rpQueuedAt = None, rpCreatedAt = ceDbNow ce\<rparr>"

definition recipientKey :: "recipientRow \<Rightarrow> uuid \<times> uuid" where
  "recipientKey r = (rpCampaign r, rpContact r)"

definition insertRecipients :: "campaignEnv \<Rightarrow> campaignRow \<Rightarrow> mailDb \<Rightarrow> recipientRow list" where
  "insertRecipients ce c db =
     fold (\<lambda>k t. fst (insertOnConflictDoNothing recipientKey (newRecipient ce (cmId c) k) t))
       (filter (\<lambda>k. ctOrg k = cmOrg c \<and> ctStatus k = CSubscribed) (contacts db)) (recipients db)"

text \<open>Of several suppression rows that match, PostgreSQL takes one; here the first.\<close>

definition suppressedBy :: "uuid \<Rightarrow> string \<Rightarrow> suppressionRow list \<Rightarrow> suppressionRow option" where
  "suppressedBy org email t = List.find (\<lambda>s. spEmail s = email \<and> (spOrg s = None \<or> spOrg s = Some org)) t"

definition skipSuppressed :: "campaignRow \<Rightarrow> suppressionRow list \<Rightarrow> recipientRow \<Rightarrow> recipientRow" where
  "skipSuppressed c t r =
     (if rpCampaign r = cmId c \<and> rpStatus r = RPending
      then (case suppressedBy (cmOrg c) (rpEmail r) t of
          Some s \<Rightarrow> r\<lparr>rpStatus := RSkipped,
             rpSkipReason := Some (''Address is suppressed ('' @ causeText (spReason s) @ '').'')\<rparr>
        | None \<Rightarrow> r)
      else r)"

text \<open>The updates are grouped by reason and cut in thousands; what a row gets is its own reason.\<close>

definition skipUnclean :: "campaignRow \<Rightarrow> recipientRow \<Rightarrow> recipientRow" where
  "skipUnclean c r =
     (if rpCampaign r = cmId c \<and> rpStatus r = RPending
      then (case checkAddress (rpEmail r) of
          AddressBad _ _ reason _ \<Rightarrow> r\<lparr>rpStatus := RSkipped, rpSkipReason := Some (take 500 (''Email '' @ reason))\<rparr>
        | AddressOk _ \<Rightarrow> r)
      else r)"

definition snapshotRecipients :: "campaignEnv \<Rightarrow> campaignRow \<Rightarrow> mailDb \<Rightarrow> mailDb" where
  "snapshotRecipients ce c db =
     db\<lparr>recipients := map (skipUnclean c) (map (skipSuppressed c (suppressions db)) (insertRecipients ce c db))\<rparr>"

definition startCampaign ::
    "campaignEnv \<Rightarrow> ms \<Rightarrow> uuid \<Rightarrow> uuid \<Rightarrow> ms option \<Rightarrow> mailDb \<Rightarrow> appError + mailDb \<times> campaignRow option" where
  "startCampaign ce now i org sendAt db =
     (case assertBulkSenderAllowed ce of
        Some e \<Rightarrow> Inl e
      | None \<Rightarrow>
     if \<not> getOrgCommunicationsEnabled org db
     then Inl (BadRequestError (''This workspace'' @ [CHR 0x27] @
            ''s email is turned off (Settings, Notifications). Turn it on before sending a campaign.''))
     else ebind (getCampaign i org db) (\<lambda>campaign.
       if cmStatus campaign \<noteq> CmDraft \<and> cmStatus campaign \<noteq> CmScheduled
       then Inl (ConflictError (''A '' @ statusName (cmStatus campaign) @ '' campaign cannot be started again.''))
       else if \<not> list_ex (\<lambda>k. ctOrg k = org \<and> ctStatus k = CSubscribed) (contacts db)
       then Inl (BadRequestError (''There is nobody subscribed on this workspace'' @ [CHR 0x27] @ ''s list yet.''))
       else case sendAt of
         Some t \<Rightarrow>
           if t > now
           then Inr (updateCampaigns ce (\<lambda>r. cmId r = cmId campaign)
                  (\<lambda>r. r\<lparr>cmStatus := CmScheduled, cmScheduledAt := Some t\<rparr>) db)
           else Inr (updateCampaigns ce (\<lambda>r. cmId r = cmId campaign)
                  (\<lambda>r. r\<lparr>cmStatus := CmSending, cmStartedAt := Some now,
                        cmScheduledAt := (case cmScheduledAt campaign of Some x \<Rightarrow> Some x | None \<Rightarrow> Some now),
                        cmHealthWindowStart := Some now, cmNextColdBatchAt := Some now\<rparr>)
                  (snapshotRecipients ce campaign db))
       | None \<Rightarrow>
           Inr (updateCampaigns ce (\<lambda>r. cmId r = cmId campaign)
                  (\<lambda>r. r\<lparr>cmStatus := CmSending, cmStartedAt := Some now,
                        cmScheduledAt := (case cmScheduledAt campaign of Some x \<Rightarrow> Some x | None \<Rightarrow> Some now),
                        cmHealthWindowStart := Some now, cmNextColdBatchAt := Some now\<rparr>)
                  (snapshotRecipients ce campaign db))))"

section \<open>Pause, resume, cancel\<close>

text \<open>The table's own check on \<open>paused_reason\<close> refuses more than 2000 characters.\<close>

definition pauseCampaign ::
    "campaignEnv \<Rightarrow> uuid \<Rightarrow> uuid \<Rightarrow> string option \<Rightarrow> mailDb \<Rightarrow> appError + mailDb \<times> campaignRow" where
  "pauseCampaign ce i org reason db =
     (let why = (case reason of Some x \<Rightarrow> x | None \<Rightarrow> ''Paused by an admin.'')
      in case updateCampaigns ce
             (\<lambda>r. cmId r = i \<and> cmOrg r = org \<and> (cmStatus r = CmScheduled \<or> cmStatus r = CmSending))
             (\<lambda>r. r\<lparr>cmStatus := CmPaused, cmPausedReason := Some why\<rparr>) db of
           (db', Some r) \<Rightarrow>
             if int (length why) > 2000 then Inl (PlainError ''check constraint on paused_reason'') else Inr (db', r)
         | (_, None) \<Rightarrow> ebind (getCampaign i org db)
             (\<lambda>c. Inl (ConflictError (''A '' @ statusName (cmStatus c) @ '' campaign cannot be paused.''))))"

text \<open>\<open>meanwhile\<close> is what others commit between the read and the update.\<close>

definition resumeCampaign ::
    "campaignEnv \<Rightarrow> (mailDb \<Rightarrow> mailDb) \<Rightarrow> ms \<Rightarrow> uuid \<Rightarrow> uuid \<Rightarrow> mailDb \<Rightarrow> mailDb \<times> (appError + campaignRow)" where
  "resumeCampaign ce meanwhile now i org db =
     (case assertBulkSenderAllowed ce of
        Some e \<Rightarrow> (db, Inl e)
      | None \<Rightarrow> (case getCampaign i org db of
          Inl e \<Rightarrow> (db, Inl e)
        | Inr c \<Rightarrow>
            if cmStatus c \<noteq> CmPaused
            then (db, Inl (ConflictError (''A '' @ statusName (cmStatus c) @ '' campaign cannot be resumed.'')))
            else (case (if cmStartedAt c = None
                     then updateCampaigns ce (\<lambda>r. cmId r = cmId c)
                            (\<lambda>r. r\<lparr>cmStatus := CmScheduled, cmPausedReason := None\<rparr>) (meanwhile db)
                     else updateCampaigns ce (\<lambda>r. cmId r = cmId c \<and> cmStatus r = CmPaused)
                            (\<lambda>r. r\<lparr>cmStatus := CmSending, cmPausedReason := None, cmHealthWindowStart := Some now,
                                  cmNextColdBatchAt := Some now\<rparr>) (meanwhile db)) of
                (db', Some r) \<Rightarrow> (db', Inr r)
              | (db', None) \<Rightarrow> (db', Inl (PlainError ''no result'')))))"

definition campaignSource :: "uuid \<Rightarrow> string" where
  "campaignSource i = ''campaign:'' @ i"

definition skipPending :: "uuid \<Rightarrow> mailDb \<Rightarrow> mailDb" where
  "skipPending i db =
     db\<lparr>recipients := updateWhere (\<lambda>r. rpCampaign r = i \<and> rpStatus r = RPending)
        (\<lambda>r. r\<lparr>rpStatus := RSkipped, rpSkipReason := Some ''Campaign cancelled.''\<rparr>) (recipients db)\<rparr>"

definition stopMail :: "uuid \<Rightarrow> mailDb \<Rightarrow> mailDb" where
  "stopMail i db =
     db\<lparr>mailbox := updateWhere (\<lambda>m. obSource m = Some (campaignSource i) \<and> obStatus m = MailPending)
        (\<lambda>m. m\<lparr>obStatus := MailCancelled\<rparr>) (mailbox db)\<rparr>"

text \<open>
  The transaction takes no lock on the campaign before its last statement, so others may commit before
  each of its three statements (\<open>meanwhile 0\<close>, \<open>1\<close>, \<open>2\<close>); the rows it has changed are locked
  against them. Without a campaign to update it rolls back, which leaves what the others did.
\<close>

definition cancelCampaign ::
    "campaignEnv \<Rightarrow> (nat \<Rightarrow> mailDb \<Rightarrow> mailDb) \<Rightarrow> ms \<Rightarrow> uuid \<Rightarrow> uuid \<Rightarrow> mailDb \<Rightarrow> mailDb \<times> (appError + campaignRow)" where
  "cancelCampaign ce meanwhile now i org db =
     (case getCampaign i org db of
        Inl e \<Rightarrow> (db, Inl e)
      | Inr c \<Rightarrow>
          if cmStatus c = CmSent \<or> cmStatus c = CmCancelled
          then (db, Inl (ConflictError (''A '' @ statusName (cmStatus c) @ '' campaign cannot be cancelled.'')))
          else (let db1 = skipPending (cmId c) (meanwhile 0 db);
                    db2 = stopMail (cmId c) (meanwhile 1 db1)
                in case updateCampaigns ce (\<lambda>r. cmId r = cmId c)
                          (\<lambda>r. r\<lparr>cmStatus := CmCancelled, cmCompletedAt := Some now\<rparr>) (meanwhile 2 db2) of
                     (db3, Some r) \<Rightarrow> (db3, Inr r)
                   | (_, None) \<Rightarrow> (meanwhile 2 (meanwhile 1 (meanwhile 0 db)), Inl (PlainError ''no result''))))"

end
