(* ===== verification/CampaignAdvance.thy ===== *)
theory CampaignAdvance
  imports Campaign
begin

text \<open>
  The runner's side of \<^verbatim>\<open>src/services/mailing/campaign.service.ts\<close>: the footer, the release of a batch
  into the outbox, the warm-up health check, one step of one campaign, one pass over the live
  campaigns, and the report. \<open>escapeHtml\<close> is from \<^verbatim>\<open>src/lib/safe-html.ts\<close>.
\<close>

section \<open>The unsubscribe footer\<close>

definition escapeHtml :: "string \<Rightarrow> string" where
  "escapeHtml s =
     concat (map (\<lambda>c. if c = CHR ''&'' then ''&amp;'' else if c = CHR ''<'' then ''&lt;'' else if c = CHR ''>'' then ''&gt;''
        else if c = CHR 0x22 then ''&quot;'' else if c = CHR 0x27 then ''&#39;'' else [c]) s)"

text \<open>
  The text before and after the first \<^verbatim>\<open></body>\<close>, in any case, with the matched tag; \<open>None\<close> where
  there is none.
\<close>

fun splitBody :: "string \<Rightarrow> (string \<times> string \<times> string) option" where
  "splitBody [] = None"
| "splitBody (c # s) =
     (if startsWith (toLowerCase (c # s)) ''</body>'' then Some ([], take 7 (c # s), drop 7 (c # s))
      else map_option (\<lambda>(pre, m, post). (c # pre, m, post)) (splitBody s))"

text \<open>The \<^verbatim>\<open>$\<close> patterns of a replacement string, for a pattern without groups.\<close>

fun expandReplacement :: "string \<Rightarrow> string \<Rightarrow> string \<Rightarrow> string \<Rightarrow> string" where
  "expandReplacement pre m post (c # d # s) =
     (if c = CHR ''$'' \<and> d = CHR ''$'' then CHR ''$'' # expandReplacement pre m post s
      else if c = CHR ''$'' \<and> d = CHR ''&'' then m @ expandReplacement pre m post s
      else if c = CHR ''$'' \<and> d = CHR 0x60 then pre @ expandReplacement pre m post s
      else if c = CHR ''$'' \<and> d = CHR 0x27 then post @ expandReplacement pre m post s
      else c # expandReplacement pre m post (d # s))"
| "expandReplacement pre m post [c] = [c]"
| "expandReplacement pre m post [] = []"

definition withUnsubscribeFooter :: "campaignEnv \<Rightarrow> campaignRow \<Rightarrow> string \<Rightarrow> string \<times> string option" where
  "withUnsubscribeFooter ce c email =
     (let url = unsubscribeUrl (ceToken ce) \<lparr>utEmail = email, utOrg = Some (cmOrg c)\<rparr>;
          nl = [CHR 0x0A];
          text' = trimEnd (cmText c) @ nl @ nl @ ''--'' @ nl @ ''You are receiving this because you are on the '' @ ceBrand ce @
                  '' mailing list.'' @ nl @ ''Unsubscribe: '' @ url @ nl
      in if \<not> truthy (cmHtml c) then (text', None)
         else let html = the (cmHtml c);
                  q = [CHR 0x22];
                  footer = ''<p style='' @ q @ ''font-size:12px;color:#6b7280;margin-top:32px'' @ q @
                           ''>You are receiving this because you are on the '' @ escapeHtml (ceBrand ce) @
                           '' mailing list. <a href='' @ q @ escapeHtml url @ q @ ''>Unsubscribe</a>.</p>''
              in (text', Some (case splitBody html of
                    Some (pre, m, post) \<Rightarrow> pre @ expandReplacement pre m post (footer @ ''</body>'') @ post
                  | None \<Rightarrow> html @ footer)))"

section \<open>Release\<close>

definition campaignKey :: "uuid \<Rightarrow> uuid \<Rightarrow> string" where
  "campaignKey campaign contact = ''campaign:'' @ campaign @ '':'' @ contact"

definition campaignMail :: "campaignEnv \<Rightarrow> campaignRow \<Rightarrow> recipientRow \<Rightarrow> ms \<Rightarrow> enqueueEmailInput" where
  "campaignMail ce c r now =
     (let content = withUnsubscribeFooter ce c (rpEmail r)
      in \<lparr>eiTo = rpEmail r, eiSubject = cmSubject c, eiText = fst content, eiHtml = snd content, eiReplyTo = None,
          eiSendAt = Some now, eiKey = Some (campaignKey (cmId c) (rpContact r)), eiOrg = Some (cmOrg c), eiUser = None,
          eiSource = Some (campaignSource (cmId c)), eiMaxAttempts = None\<rparr>)"

definition queueRecipient :: "nat \<Rightarrow> uuid \<Rightarrow> ms \<Rightarrow> recipientRow \<Rightarrow> recipientRow" where
  "queueRecipient batch outboxId now r =
     r\<lparr>rpStatus := RQueued, rpOutboxId := Some outboxId, rpQueuedAt := Some now, rpBatch := Some batch\<rparr>"

fun releaseRows ::
    "campaignEnv \<Rightarrow> campaignRow \<Rightarrow> nat \<Rightarrow> ms \<Rightarrow> recipientRow list \<Rightarrow> mailDb \<Rightarrow> appError + mailDb" where
  "releaseRows ce c batch now [] db = Inr db"
| "releaseRows ce c batch now (r # rows) db =
     ebind (enqueueEmail (ceOutboxId ce (rpId r)) now (ceDbNow ce) (campaignMail ce c r now) (mailbox db))
       (\<lambda>(t, row, _). releaseRows ce c batch now rows
          (db\<lparr>mailbox := t,
              recipients := updateWhere (\<lambda>x. rpId x = rpId r) (queueRecipient batch (obId row) now) (recipients db)\<rparr>))"

text \<open>\<open>release\<close>; the contacts are updated in chunks of a thousand.\<close>

definition release ::
    "campaignEnv \<Rightarrow> campaignRow \<Rightarrow> recipientRow list \<Rightarrow> nat \<Rightarrow> ms \<Rightarrow> mailDb \<Rightarrow> appError + mailDb \<times> nat" where
  "release ce c rows batch now db =
     ebind (releaseRows ce c batch now rows db) (\<lambda>db1.
       Inr (db1\<lparr>contacts := updateWhere (\<lambda>k. ctId k \<in> set (map rpContact rows) \<and> ctFirstSentAt k = None)
                 (\<lambda>k. k\<lparr>ctFirstSentAt := Some now\<rparr>) (contacts db1)\<rparr>, length rows))"

section \<open>Health\<close>

record coldHealthResult =
  chReleased :: nat
  chBounced :: nat
  chComplained :: nat
  chUnhealthy :: bool
  chReason :: string

definition pct :: "campaignEnv \<Rightarrow> rat \<Rightarrow> string" where
  "pct ce n = ceToFixed ce (n * 100) (if n < 1 / 100 then 2 else 1) @ ''%''"

definition healthProblems :: "campaignEnv \<Rightarrow> nat \<Rightarrow> nat \<Rightarrow> nat \<Rightarrow> string list" where
  "healthProblems ce released bounced complained =
     (let bounceRate = of_nat bounced / of_nat released;
          complaintRate = of_nat complained / of_nat released
      in (if bounceRate > WARMUP_MAX_HARD_BOUNCE_RATE
          then [decimal bounced @ '' hard bounces ('' @ pct ce bounceRate @ '', the limit is '' @
                pct ce WARMUP_MAX_HARD_BOUNCE_RATE @ '')''] else []) @
         (if complaintRate > WARMUP_MAX_COMPLAINT_RATE
          then [decimal complained @ '' spam complaints ('' @ pct ce complaintRate @ '', the limit is '' @
                pct ce WARMUP_MAX_COMPLAINT_RATE @ '')''] else []))"

definition coldSample :: "campaignRow \<Rightarrow> mailDb \<Rightarrow> recipientRow list" where
  "coldSample c db =
     (let since = (case cmHealthWindowStart c of Some t \<Rightarrow> t
                     | None \<Rightarrow> (case cmStartedAt c of Some t \<Rightarrow> t | None \<Rightarrow> 0))
      in filter (\<lambda>r. rpCampaign r = cmId c \<and> rpCold r \<and> (case rpQueuedAt r of Some q \<Rightarrow> since \<le> q | None \<Rightarrow> False))
           (recipients db))"

definition countStatus :: "recipientStatus list \<Rightarrow> recipientRow list \<Rightarrow> nat" where
  "countStatus ss rs = length (filter (\<lambda>r. rpStatus r \<in> set ss) rs)"

definition coldHealth :: "campaignEnv \<Rightarrow> campaignRow \<Rightarrow> mailDb \<Rightarrow> coldHealthResult" where
  "coldHealth ce c db =
     (let rows = coldSample c db;
          released = countStatus [RQueued, RBounced, RComplained] rows;
          bounced = countStatus [RBounced] rows;
          complained = countStatus [RComplained] rows;
          base = \<lparr>chReleased = released, chBounced = bounced, chComplained = complained, chUnhealthy = False, chReason = []\<rparr>
      in if released < WARMUP_MIN_SAMPLE then base
         else let problems = healthProblems ce released bounced complained
              in if problems = [] then base
                 else base\<lparr>chUnhealthy := True, chReason :=
                   ''Paused to protect your sender: the first '' @ decimal released @ '' imported contacts produced '' @
                   joinWith '' and '' problems @ ''. A list like this usually holds many old or never-confirmed '' @
                   ''addresses, and mailing the rest would get your sending domain filtered or blocked. The '' @
                   ''addresses that bounced or complained are already suppressed. Check where the list came '' @
                   ''from and remove anyone who did not ask for your email, then resume, or cancel the campaign.''\<rparr>)"

section \<open>One step\<close>

datatype stepOutcome = SSending | SPaused | SSent

record stepResult =
  srQueued :: nat
  srOutcome :: stepOutcome

definition setPaused :: "campaignEnv \<Rightarrow> uuid \<Rightarrow> string \<Rightarrow> mailDb \<Rightarrow> mailDb" where
  "setPaused ce i reason db =
     fst (updateCampaigns ce (\<lambda>r. cmId r = i) (\<lambda>r. r\<lparr>cmStatus := CmPaused, cmPausedReason := Some (take 2000 reason)\<rparr>) db)"

definition pendingOf :: "campaignRow \<Rightarrow> bool \<Rightarrow> mailDb \<Rightarrow> recipientRow list" where
  "pendingOf c cold db =
     filter (\<lambda>r. rpCampaign r = cmId c \<and> rpStatus r = RPending \<and> rpCold r = cold) (recipients db)"

definition rampSize :: "nat \<Rightarrow> nat" where
  "rampSize step = nat (WARMUP_BATCH_SIZES ! min step (length WARMUP_BATCH_SIZES - 1))"

definition warmRows :: "campaignRow \<Rightarrow> mailDb \<Rightarrow> recipientRow list" where
  "warmRows c db = take CAMPAIGN_RELEASE_CHUNK (pendingOf c False db)"

definition coldRows :: "campaignRow \<Rightarrow> mailDb \<Rightarrow> recipientRow list" where
  "coldRows c db = orderedLimit rpCreatedAt (rampSize (cmWarmupStep c)) (pendingOf c True db)"

definition coldBatchDue :: "campaignRow \<Rightarrow> ms \<Rightarrow> bool" where
  "coldBatchDue c now \<longleftrightarrow> (case cmNextColdBatchAt c of None \<Rightarrow> True | Some t \<Rightarrow> t \<le> now)"

definition releaseCold :: "campaignEnv \<Rightarrow> campaignRow \<Rightarrow> ms \<Rightarrow> mailDb \<Rightarrow> appError + mailDb \<times> nat" where
  "releaseCold ce c now db =
     (if \<not> coldBatchDue c now \<or> coldRows c db = [] then Inr (db, 0)
      else ebind (release ce c (coldRows c db) (cmWarmupStep c + 1) now db) (\<lambda>(db1, n).
        Inr (fst (updateCampaigns ce (\<lambda>r. cmId r = cmId c)
               (\<lambda>r. r\<lparr>cmWarmupStep := cmWarmupStep c + 1, cmNextColdBatchAt := Some (now + WARMUP_BATCH_INTERVAL_MS)\<rparr>) db1), n)))"

text \<open>The end of a step: a campaign with nothing pending is sent.\<close>

definition finishStep :: "campaignEnv \<Rightarrow> campaignRow \<Rightarrow> ms \<Rightarrow> nat \<Rightarrow> mailDb \<Rightarrow> mailDb \<times> stepResult" where
  "finishStep ce c now queued db =
     (if list_ex (\<lambda>r. rpCampaign r = cmId c \<and> rpStatus r = RPending) (recipients db)
      then (db, \<lparr>srQueued = queued, srOutcome = SSending\<rparr>)
      else (fst (updateCampaigns ce (\<lambda>r. cmId r = cmId c) (\<lambda>r. r\<lparr>cmStatus := CmSent, cmCompletedAt := Some now\<rparr>) db),
            \<lparr>srQueued = queued, srOutcome = SSent\<rparr>))"

text \<open>A scheduled campaign takes its snapshot and becomes a sending one.\<close>

definition beginSending :: "campaignEnv \<Rightarrow> campaignRow \<Rightarrow> ms \<Rightarrow> mailDb \<Rightarrow> mailDb \<times> campaignRow" where
  "beginSending ce c now db =
     (if cmStatus c \<noteq> CmScheduled then (db, c)
      else (let f = (\<lambda>r. r\<lparr>cmStatus := CmSending, cmStartedAt := Some now, cmHealthWindowStart := Some now,
                           cmNextColdBatchAt := Some now\<rparr>);
                db1 = snapshotRecipients ce c db
            in case updateCampaigns ce (\<lambda>r. cmId r = cmId c) f db1 of
                 (db2, Some r) \<Rightarrow> (db2, r)
               | (db2, None) \<Rightarrow> (db2, f c)))"

text \<open>
  \<open>advanceOne\<close>. \<open>locked\<close>: another replica holds the row, which \<^verbatim>\<open>SKIP LOCKED\<close> passes over. An error
  rolls the transaction back.
\<close>

definition advanceOne ::
    "campaignEnv \<Rightarrow> bool \<Rightarrow> uuid \<Rightarrow> ms \<Rightarrow> mailDb \<Rightarrow> appError + mailDb \<times> stepResult option" where
  "advanceOne ce locked i now db =
     (case List.find (\<lambda>c. cmId c = i \<and> (cmStatus c = CmScheduled \<or> cmStatus c = CmSending)) (campaigns db) of
        None \<Rightarrow> Inr (db, None)
      | Some campaign \<Rightarrow>
          if locked then Inr (db, None)
          else if \<not> bsAllowed (bulkSenderStatusOf ce)
          then Inr (setPaused ce (cmId campaign) (bsMessage (bulkSenderStatusOf ce)) db,
                    Some \<lparr>srQueued = 0, srOutcome = SPaused\<rparr>)
          else (case beginSending ce campaign now db of
              (db1, c) \<Rightarrow>
                if chUnhealthy (coldHealth ce c db1)
                then Inr (setPaused ce (cmId c) (chReason (coldHealth ce c db1)) db1, Some \<lparr>srQueued = 0, srOutcome = SPaused\<rparr>)
                else ebind (release ce c (warmRows c db1) 0 now db1) (\<lambda>(db2, warm).
                     ebind (releaseCold ce c now db2) (\<lambda>(db3, cold).
                       (case finishStep ce c now (warm + cold) db3 of (db4, res) \<Rightarrow> Inr (db4, Some res))))))"

section \<open>One pass\<close>

record advanceResult =
  arCampaigns :: nat
  arQueued :: nat
  arPaused :: nat
  arCompleted :: nat

definition campaignsEnabled :: "campaignEnv \<Rightarrow> bool" where
  "campaignsEnabled ce =
     (let v = toLowerCase (case ceVars ce ''MAILING_CAMPAIGNS_ENABLED'' of Some x \<Rightarrow> x | None \<Rightarrow> ''1'')
      in v \<noteq> ''0'' \<and> v \<noteq> ''false'')"

definition liveCampaigns :: "ms \<Rightarrow> mailDb \<Rightarrow> uuid list" where
  "liveCampaigns now db =
     map cmId (orderedLimit cmUpdatedAt CAMPAIGNS_PER_TICK
       (filter (\<lambda>c. cmStatus c = CmSending \<or>
           (cmStatus c = CmScheduled \<and> (case cmScheduledAt c of Some t \<Rightarrow> t \<le> now | None \<Rightarrow> False))) (campaigns db)))"

definition countStep :: "stepResult \<Rightarrow> advanceResult \<Rightarrow> advanceResult" where
  "countStep s res =
     res\<lparr>arCampaigns := arCampaigns res + 1, arQueued := arQueued res + srQueued s,
        arPaused := arPaused res + (if srOutcome s = SPaused then 1 else 0),
        arCompleted := arCompleted res + (if srOutcome s = SSent then 1 else 0)\<rparr>"

definition advanceStep ::
    "campaignEnv \<Rightarrow> (uuid \<Rightarrow> bool) \<Rightarrow> ms \<Rightarrow> uuid \<Rightarrow> mailDb \<times> advanceResult \<Rightarrow> mailDb \<times> advanceResult" where
  "advanceStep ce locked now i s =
     (case advanceOne ce (locked i) i now (fst s) of
        Inl _ \<Rightarrow> s
      | Inr (db, None) \<Rightarrow> (db, snd s)
      | Inr (db, Some r) \<Rightarrow> (db, countStep r (snd s)))"

definition advanceCampaigns :: "campaignEnv \<Rightarrow> (uuid \<Rightarrow> bool) \<Rightarrow> ms \<Rightarrow> mailDb \<Rightarrow> mailDb \<times> advanceResult" where
  "advanceCampaigns ce locked now db =
     (let zero = \<lparr>arCampaigns = 0, arQueued = 0, arPaused = 0, arCompleted = 0\<rparr>
      in if \<not> campaignsEnabled ce then (db, zero)
         else fold (advanceStep ce locked now) (liveCampaigns now db) (db, zero))"

section \<open>The report\<close>

record campaignCounts =
  cnPending :: nat
  cnQueued :: nat
  cnSkipped :: nat
  cnBounced :: nat
  cnComplained :: nat
  cnTotal :: nat
  cnColdPending :: nat

record campaignReportResult =
  crCampaign :: campaignRow
  crCounts :: campaignCounts
  crNextBatchSize :: "nat option"
  crNextBatchAt :: "ms option"
  crSkipped :: "(string \<times> string option) list"

definition campaignCountsOf :: "recipientRow list \<Rightarrow> campaignCounts" where
  "campaignCountsOf rs =
     \<lparr>cnPending = countStatus [RPending] rs, cnQueued = countStatus [RQueued] rs, cnSkipped = countStatus [RSkipped] rs,
      cnBounced = countStatus [RBounced] rs, cnComplained = countStatus [RComplained] rs, cnTotal = length rs,
      cnColdPending = length (filter (\<lambda>r. rpStatus r = RPending \<and> rpCold r) rs)\<rparr>"

definition campaignReport :: "uuid \<Rightarrow> uuid \<Rightarrow> mailDb \<Rightarrow> appError + campaignReportResult" where
  "campaignReport i org db =
     ebind (getCampaign i org db) (\<lambda>c.
       let rs = filter (\<lambda>r. rpCampaign r = cmId c) (recipients db);
           n = campaignCountsOf rs
       in Inr \<lparr>crCampaign = c, crCounts = n,
            crNextBatchSize = (if cnColdPending n > 0 \<and> cmStatus c \<in> {CmSending, CmScheduled, CmPaused}
                then Some (min (cnColdPending n) (rampSize (cmWarmupStep c))) else None),
            crNextBatchAt = (if cnColdPending n > 0 then cmNextColdBatchAt c else None),
            crSkipped = map (\<lambda>r. (rpEmail r, rpSkipReason r)) (take 200 (filter (\<lambda>r. rpStatus r = RSkipped) rs))\<rparr>)"

end
