(* ===== verification/CampaignSystem.thy ===== *)
theory CampaignSystem
  imports CampaignAdvance
begin

text \<open>
  Campaigns as a state machine over the mailing tables: one step per committed transaction of
  \<^verbatim>\<open>src/services/mailing/campaign.service.ts\<close> and of the services that share its tables (the outbox,
  provider feedback, and whatever edits people and suppressions). The theory holds the machine's
  invariant, the order in which campaigns and recipients develop, and that a step never fails on a
  recipient it picked.
\<close>

section \<open>What a campaign and a recipient may become\<close>

text \<open>0: being written, 1: not started, 2: started, 3: finished.\<close>

definition phase :: "campaignRow \<Rightarrow> nat" where
  "phase c =
     (case cmStatus c of CmDraft \<Rightarrow> 0 | CmScheduled \<Rightarrow> 1 | CmSending \<Rightarrow> 2
      | CmPaused \<Rightarrow> if cmStartedAt c = None then 1 else 2 | CmSent \<Rightarrow> 3 | CmCancelled \<Rightarrow> 3)"

text \<open>
  \<open>later calm c c'\<close>: \<open>c'\<close> is a later state of the campaign \<open>c\<close>. In any run it never returns to the draft,
  keeps its content once it left it, stays started, and its warm-up step never falls. In a calm run, where
  nobody else commits while a resume or a cancel is under way, it also never goes back a phase, keeps its
  first start, and never changes again once it is finished.
\<close>

definition later :: "bool \<Rightarrow> campaignRow \<Rightarrow> campaignRow \<Rightarrow> bool" where
  "later calm c c' \<longleftrightarrow> cmId c' = cmId c \<and> cmOrg c' = cmOrg c \<and> cmWarmupStep c \<le> cmWarmupStep c' \<and>
     (phase c \<noteq> 0 \<longrightarrow> phase c' \<noteq> 0 \<and>
        (cmName c', cmSubject c', cmText c', cmHtml c') = (cmName c, cmSubject c, cmText c, cmHtml c)) \<and>
     (cmStartedAt c \<noteq> None \<longrightarrow> cmStartedAt c' \<noteq> None) \<and>
     (calm \<longrightarrow> phase c \<le> phase c' \<and> (phase c = 3 \<longrightarrow> c' = c) \<and>
        (cmStartedAt c \<noteq> None \<longrightarrow> cmStartedAt c' = cmStartedAt c))"

definition recipientPhase :: "recipientRow \<Rightarrow> nat" where
  "recipientPhase r = (case rpStatus r of RPending \<Rightarrow> 0 | RQueued \<Rightarrow> 1 | _ \<Rightarrow> 2)"

text \<open>A recipient is pending, then queued or skipped; what was queued may bounce or complain, once.\<close>

definition recipientLater :: "recipientRow \<Rightarrow> recipientRow \<Rightarrow> bool" where
  "recipientLater r r' \<longleftrightarrow> rpId r' = rpId r \<and> recipientKey r' = recipientKey r \<and> rpEmail r' = rpEmail r \<and> rpCold r' = rpCold r \<and>
     recipientPhase r \<le> recipientPhase r' \<and> (recipientPhase r = 2 \<longrightarrow> r' = r) \<and>
     (rpStatus r = RQueued \<longrightarrow> rpStatus r' \<noteq> RSkipped \<and>
        (rpQueuedAt r', rpOutboxId r', rpBatch r') = (rpQueuedAt r, rpOutboxId r, rpBatch r))"

definition evolves :: "bool \<Rightarrow> mailDb \<Rightarrow> mailDb \<Rightarrow> bool" where
  "evolves calm db db' \<longleftrightarrow> (\<forall>c\<in>set (campaigns db). \<exists>c'\<in>set (campaigns db'). later calm c c') \<and>
     (\<forall>r\<in>set (recipients db). \<exists>r'\<in>set (recipients db'). recipientLater r r')"

lemma later_refl [simp]: "later calm c c" by (simp add: later_def)

lemma later_trans: "later calm a b \<Longrightarrow> later calm b c \<Longrightarrow> later calm a c"
  by (auto simp: later_def)

lemma recipientPhase_simps [simp]: "recipientPhase r = 0 \<longleftrightarrow> rpStatus r = RPending" "recipientPhase r = Suc 0 \<longleftrightarrow> rpStatus r = RQueued"
  "recipientPhase r \<le> 2"
  by (auto simp: recipientPhase_def split: recipientStatus.splits)

lemma recipientLater_refl [simp]: "recipientLater r r" by (simp add: recipientLater_def)

lemma recipientLater_trans: "recipientLater a b \<Longrightarrow> recipientLater b c \<Longrightarrow> recipientLater a c"
  by (auto simp: recipientLater_def recipientPhase_def split: recipientStatus.splits)

lemma evolves_refl [simp]: "evolves calm db db"
  by (auto simp: evolves_def intro: later_refl recipientLater_refl)

lemma evolves_trans: "evolves calm a b \<Longrightarrow> evolves calm b c \<Longrightarrow> evolves calm a c"
  unfolding evolves_def by (meson later_trans recipientLater_trans)

section \<open>The invariant\<close>

text \<open>What the code assumes of the ids PostgreSQL generates: short and without spaces.\<close>

definition uuidText :: "uuid \<Rightarrow> bool" where
  "uuidText i \<longleftrightarrow> length i \<le> 36 \<and> (\<forall>c\<in>set i. \<not> jsSpace c)"

definition mailKeys :: "outboxRow list \<Rightarrow> string option list" where
  "mailKeys t = filter (\<lambda>k. k \<noteq> None) (map obKey t)"

definition campaignOk :: "bool \<Rightarrow> campaignRow \<Rightarrow> bool" where
  "campaignOk calm c \<longleftrightarrow> uuidText (cmId c) \<and> trim (cmSubject c) \<noteq> [] \<and> trim (cmText c) \<noteq> [] \<and>
     (calm \<longrightarrow> (phase c = 0 \<longrightarrow> cmStartedAt c = None) \<and>
       (phase c = 1 \<longrightarrow> cmStartedAt c = None \<and> cmScheduledAt c \<noteq> None) \<and>
       (phase c = 2 \<longrightarrow> cmStartedAt c \<noteq> None \<and> cmHealthWindowStart c \<noteq> None) \<and>
       (cmStatus c = CmPaused \<longrightarrow> cmPausedReason c \<noteq> None) \<and>
       (cmStatus c = CmSent \<longrightarrow> cmStartedAt c \<noteq> None) \<and> (phase c = 3 \<longrightarrow> cmCompletedAt c \<noteq> None))"

text \<open>
  A pending recipient passed the hygiene check and belongs to a campaign, in a calm run to one that is
  started and unfinished; one that was queued has its time and its mail.
\<close>

definition cleanAddress :: "string \<Rightarrow> bool" where
  "cleanAddress a \<longleftrightarrow> (case checkAddress a of AddressOk _ \<Rightarrow> True | AddressBad _ _ _ _ \<Rightarrow> False)"

definition recipientOk :: "bool \<Rightarrow> mailDb \<Rightarrow> recipientRow \<Rightarrow> bool" where
  "recipientOk calm db r \<longleftrightarrow> uuidText (rpContact r) \<and>
     (rpStatus r = RPending \<longrightarrow> cleanAddress (rpEmail r) \<and> 
        (\<exists>c\<in>set (campaigns db). cmId c = rpCampaign r \<and> (calm \<longrightarrow> phase c = 2))) \<and>
     (rpStatus r \<in> {RQueued, RBounced, RComplained} \<longrightarrow> rpQueuedAt r \<noteq> None \<and>
        Some (campaignKey (rpCampaign r) (rpContact r)) \<in> set (mailKeys (mailbox db)))"

definition campInv :: "bool \<Rightarrow> mailDb \<Rightarrow> bool" where
  "campInv calm db \<longleftrightarrow> distinct (map cmId (campaigns db)) \<and> distinct (map rpId (recipients db)) \<and>
     distinct (map recipientKey (recipients db)) \<and> distinct (mailKeys (mailbox db)) \<and>
     (\<forall>c\<in>set (campaigns db). campaignOk calm c) \<and> (\<forall>r\<in>set (recipients db). recipientOk calm db r)"

text \<open>A transaction \<^emph>\<open>advances\<close> the tables if it keeps the invariant and the order above.\<close>

definition advances :: "bool \<Rightarrow> mailDb \<Rightarrow> mailDb \<Rightarrow> bool" where
  "advances calm db db' \<longleftrightarrow> campInv calm db' \<and> evolves calm db db'"

lemma advances_refl: "campInv calm db \<Longrightarrow> advances calm db db"
  by (simp add: advances_def)

lemma advances_trans: "advances calm a b \<Longrightarrow> advances calm b c \<Longrightarrow> advances calm a c"
  by (auto simp: advances_def intro: evolves_trans)

section \<open>The elementary changes\<close>

lemma updateWhere_ex: "r \<in> set t \<Longrightarrow> P (if p r then f r else r) \<Longrightarrow> \<exists>r'\<in>set (updateWhere p f t). P r'"
  by (auto simp: updateWhere_def split: if_splits)

lemma advances_fields:
  assumes "campInv calm db" and "campaigns db' = campaigns db" "recipients db' = recipients db"
    and "set (mailKeys (mailbox db)) \<subseteq> set (mailKeys (mailbox db'))" and "distinct (mailKeys (mailbox db'))"
  shows "advances calm db db'"
  using assms by (auto simp: advances_def campInv_def evolves_def recipientOk_def intro: later_refl recipientLater_refl)

lemma mailKeys_same: "map obKey t' = map obKey t \<Longrightarrow> mailKeys t' = mailKeys t"
  by (simp add: mailKeys_def)

lemma advances_recipients:
  assumes inv: "campInv calm db"
    and step: "\<And>r. r \<in> set (recipients db) \<Longrightarrow> p r \<Longrightarrow> recipientLater r (f r) \<and> recipientOk calm db (f r)"
  shows "advances calm db (db\<lparr>recipients := updateWhere p f (recipients db)\<rparr>)"
proof -
  let ?db = "db\<lparr>recipients := updateWhere p f (recipients db)\<rparr>"
  have keep: "recipientLater r (if p r then f r else r)" if "r \<in> set (recipients db)" for r
    using step that by simp
  then have "map rpId (recipients ?db) = map rpId (recipients db)"
    "map recipientKey (recipients ?db) = map recipientKey (recipients db)"
    by (simp_all add: updateWhere_def recipientLater_def)
  moreover have "recipientOk calm ?db r" if "r \<in> set (recipients ?db)" for r
  proof -
    from that have "recipientOk calm db r" using inv step by (auto simp: set_updateWhere campInv_def)
    then show ?thesis by (simp add: recipientOk_def)
  qed
  ultimately have "campInv calm ?db" using inv by (simp add: campInv_def)
  moreover have "evolves calm db ?db"
    unfolding evolves_def using keep by (auto intro: later_refl updateWhere_ex)
  ultimately show ?thesis by (simp add: advances_def)
qed

lemma updateCampaigns_fields [row_simps]:
  "recipients (fst (updateCampaigns ce p f db)) = recipients db" "mailbox (fst (updateCampaigns ce p f db)) = mailbox db"
  "contacts (fst (updateCampaigns ce p f db)) = contacts db"
  "campaigns (fst (updateCampaigns ce p f db)) = updateWhere p (\<lambda>c. (f c)\<lparr>cmUpdatedAt := ceDbNow ce\<rparr>) (campaigns db)"
  by (simp_all add: updateCampaigns_def Let_def)

lemma stamp_phase [simp]: "phase (c\<lparr>cmUpdatedAt := t\<rparr>) = phase c"
  by (cases "cmStatus c") (simp_all add: phase_def)

lemma stamp_ok [simp]: "campaignOk calm (c\<lparr>cmUpdatedAt := t\<rparr>) = campaignOk calm c"
  unfolding campaignOk_def stamp_phase by simp

text \<open>What an update may do to one row that is not finished.\<close>

definition develops :: "bool \<Rightarrow> campaignRow \<Rightarrow> campaignRow \<Rightarrow> bool" where
  "develops calm c c' \<longleftrightarrow> (calm \<longrightarrow> phase c \<noteq> 3) \<and> later calm c c' \<and> campaignOk calm c'"

text \<open>An update of a campaign that is not finished and that finishes it only when nothing is pending.\<close>

lemma advances_campaigns:
  assumes inv: "campInv calm db"
    and step: "\<And>c. c \<in> set (campaigns db) \<Longrightarrow> campaignOk calm c \<Longrightarrow> p c \<Longrightarrow> develops calm c (f c) \<and>
      (calm \<longrightarrow> phase c = 2 \<longrightarrow> phase (f c) = 2 \<or> (\<forall>r\<in>set (recipients db). rpCampaign r = cmId c \<longrightarrow> rpStatus r \<noteq> RPending))"
  shows "advances calm db (fst (updateCampaigns ce p f db))"
proof -
  let ?f = "\<lambda>c. (f c)\<lparr>cmUpdatedAt := ceDbNow ce\<rparr>"
  let ?db = "fst (updateCampaigns ce p f db)"
  have keep: "later calm c (if p c then ?f c else c)" if "c \<in> set (campaigns db)" for c
    using step [OF that] that inv by (auto simp: later_def develops_def campInv_def)
  then have ids: "map cmId (campaigns ?db) = map cmId (campaigns db)"
    by (simp add: row_simps updateWhere_def later_def)
  have "recipientOk calm ?db r" if r: "r \<in> set (recipients db)" for r
  proof -
    from inv r have ok: "recipientOk calm db r" by (simp add: campInv_def)
    have "\<exists>c\<in>set (campaigns ?db). cmId c = rpCampaign r \<and> (calm \<longrightarrow> phase c = 2)" if "rpStatus r = RPending"
    proof -
      from ok that obtain c where c: "c \<in> set (campaigns db)" "cmId c = rpCampaign r" "calm \<Longrightarrow> phase c = 2"
        by (auto simp: recipientOk_def)
      have "campaignOk calm c" using c(1) inv by (simp add: campInv_def)
      then have "phase (if p c then ?f c else c) = 2" if calm
        using step [OF c(1)] c(2) c(3) [OF that] r that \<open>rpStatus r = RPending\<close> by auto
      moreover have "(if p c then ?f c else c) \<in> set (campaigns ?db)"
        using c(1) by (simp add: row_simps set_updateWhere)
      moreover have "cmId (if p c then ?f c else c) = rpCampaign r" using keep [OF c(1)] c(2) by (simp add: later_def)
      ultimately show ?thesis by blast
    qed
    with ok show ?thesis by (simp add: recipientOk_def row_simps)
  qed
  moreover have "\<forall>c\<in>set (campaigns ?db). campaignOk calm c"
    using inv step by (auto simp: row_simps set_updateWhere campInv_def develops_def)
  ultimately have "campInv calm ?db" using inv ids by (simp add: campInv_def row_simps)
  moreover have "evolves calm db ?db"
    unfolding evolves_def row_simps using keep by (auto intro: recipientLater_refl updateWhere_ex)
  ultimately show ?thesis by (simp add: advances_def)
qed

section \<open>Draft, pause, resume, cancel\<close>

text \<open>What each operation makes of one campaign row.\<close>

lemmas row_defs = develops_def later_def campaignOk_def phase_def

lemma edit_row:
  "campaignOk calm c \<Longrightarrow> cmStatus c = CmDraft \<Longrightarrow> trim s \<noteq> [] \<Longrightarrow> trim t \<noteq> [] \<Longrightarrow>
   develops calm c (c\<lparr>cmName := n, cmSubject := s, cmText := t, cmHtml := h\<rparr>) \<and> phase c \<noteq> 2"
  by (simp add: row_defs)

lemma pause_row:
  assumes "campaignOk calm c" and "cmStatus c = CmScheduled \<or> cmStatus c = CmSending"
  shows "develops calm c (c\<lparr>cmStatus := CmPaused, cmPausedReason := Some why\<rparr>) \<and>
    (calm \<longrightarrow> phase (c\<lparr>cmStatus := CmPaused, cmPausedReason := Some why\<rparr>) = phase c)"
proof (cases calm)
  case True
  with assms show ?thesis by (elim disjE) (simp_all add: row_defs)
next
  case False
  let ?c = "c\<lparr>cmStatus := CmPaused, cmPausedReason := Some why\<rparr>"
  have "phase ?c \<noteq> 0" by (simp add: phase_def)
  with assms(1) False show ?thesis by (simp add: develops_def later_def campaignOk_def)
qed

lemma reschedule_row:
  assumes "campaignOk calm c" and "calm \<Longrightarrow> cmStatus c = CmPaused \<and> cmStartedAt c = None"
  shows "develops calm c (c\<lparr>cmStatus := CmScheduled, cmPausedReason := None\<rparr>) \<and> (calm \<longrightarrow> phase c \<noteq> 2)"
proof -
  have p: "calm \<Longrightarrow> phase c = 1" using assms(2) by (simp add: phase_def)
  have p': "phase (c\<lparr>cmStatus := CmScheduled, cmPausedReason := None\<rparr>) = 1" by (simp add: phase_def)
  from assms(1) p have "campaignOk calm (c\<lparr>cmStatus := CmScheduled, cmPausedReason := None\<rparr>)"
    unfolding campaignOk_def p' by simp
  with p show ?thesis unfolding develops_def later_def p' by simp
qed

lemma resume_row:
  "campaignOk calm c \<Longrightarrow> cmStatus c = CmPaused \<Longrightarrow> (calm \<Longrightarrow> cmStartedAt c \<noteq> None) \<Longrightarrow>
   develops calm c (c\<lparr>cmStatus := CmSending, cmPausedReason := None, cmHealthWindowStart := Some now, cmNextColdBatchAt := t\<rparr>) \<and>
   phase (c\<lparr>cmStatus := CmSending, cmPausedReason := None, cmHealthWindowStart := Some now, cmNextColdBatchAt := t\<rparr>) = 2"
  by (cases calm) (simp_all add: row_defs)

lemma cancel_row:
  assumes "campaignOk calm c" and "calm \<Longrightarrow> cmStatus c \<noteq> CmSent \<and> cmStatus c \<noteq> CmCancelled"
  shows "develops calm c (c\<lparr>cmStatus := CmCancelled, cmCompletedAt := Some now\<rparr>)"
proof -
  have p: "phase c \<le> 3" "calm \<Longrightarrow> phase c \<noteq> 3" using assms(2) by (cases "cmStatus c"; simp add: phase_def)+
  have p': "phase (c\<lparr>cmStatus := CmCancelled, cmCompletedAt := Some now\<rparr>) = 3" by (simp add: phase_def)
  from assms(1) have "campaignOk calm (c\<lparr>cmStatus := CmCancelled, cmCompletedAt := Some now\<rparr>)"
    unfolding campaignOk_def p' by simp
  with p show ?thesis unfolding develops_def later_def p' by simp
qed

lemma sent_row:
  assumes "campaignOk calm c" and "cmStatus c = CmSending"
  shows "develops calm c (c\<lparr>cmStatus := CmSent, cmCompletedAt := Some now\<rparr>)"
  using assms by (cases calm) (simp_all add: row_defs)

lemma begin_row:
  assumes "campaignOk calm c" and "cmStatus c = CmDraft \<or> cmStatus c = CmScheduled"
    and "cmStatus c' = CmSending" "cmStartedAt c' \<noteq> None" "cmHealthWindowStart c' \<noteq> None"
    and "(cmId c', cmOrg c', cmName c', cmSubject c', cmText c', cmHtml c', cmWarmupStep c') =
      (cmId c, cmOrg c, cmName c, cmSubject c, cmText c, cmHtml c, cmWarmupStep c)"
  shows "develops calm c c' \<and> phase c' = 2"
proof -
  have p: "phase c \<le> 1" using assms(2) by (auto simp: phase_def)
  have p': "phase c' = 2" using assms(3) by (simp add: phase_def)
  have none: "calm \<Longrightarrow> cmStartedAt c = None" using assms(1) p by (cases "phase c") (auto simp: campaignOk_def)
  have "campaignOk calm c'" using assms(1,3-6) unfolding campaignOk_def p' by simp
  with p assms(4,6) none show ?thesis unfolding develops_def later_def p' by simp
qed

lemma schedule_row:
  "campaignOk calm c \<Longrightarrow> cmStatus c = CmDraft \<or> cmStatus c = CmScheduled \<Longrightarrow>
   develops calm c (c\<lparr>cmStatus := CmScheduled, cmScheduledAt := Some t\<rparr>) \<and> phase c \<noteq> 2"
  by (elim disjE) (simp_all add: row_defs)

lemma clean_content:
  "cleanContent inp = Inr c \<Longrightarrow> trim (ccSubject c) \<noteq> [] \<and> trim (ccText c) \<noteq> []"
  by (auto simp: cleanContent_def split: if_splits)

lemma create_advances:
  assumes inv: "campInv calm db" and new: "newId \<notin> cmId ` set (campaigns db)" "uuidText newId"
    and run: "createCampaign ce newId org user inp db = Inr (db', row)"
  shows "advances calm db db'"
proof -
  from run obtain c where c: "cleanContent inp = Inr c" and db': "db' = db\<lparr>campaigns := campaigns db @ [row]\<rparr>"
    and row: "cmId row = newId" "cmStatus row = CmDraft" "cmStartedAt row = None" "cmSubject row = ccSubject c" "cmText row = ccText c"
    by (auto simp: createCampaign_def Let_def ebind_Inr_iff)
  have "campaignOk calm row" using clean_content [OF c] new(2) row by (simp add: campaignOk_def phase_def)
  moreover have "recipientOk calm db' r" if "r \<in> set (recipients db)" for r
    using inv that by (auto simp: db' campInv_def recipientOk_def)
  ultimately have "campInv calm db'" using inv new row by (simp add: campInv_def db')
  moreover have "evolves calm db db'" by (auto simp: evolves_def db' intro: later_refl recipientLater_refl)
  ultimately show ?thesis by (simp add: advances_def)
qed

lemma update_advances:
  assumes "campInv calm db" and run: "updateCampaign ce i org inp db = Inr (db', row)"
  shows "advances calm db db'"
proof -
  from run obtain c where c: "cleanContent inp = Inr c"
    and db': "db' = fst (updateCampaigns ce (\<lambda>r. cmId r = i \<and> cmOrg r = org \<and> cmStatus r = CmDraft)
       (\<lambda>r. r\<lparr>cmName := ccName c, cmSubject := ccSubject c, cmText := ccText c, cmHtml := ccHtml c\<rparr>) db)"
    by (auto simp: updateCampaign_def updateCampaigns_def Let_def ebind_Inr_iff split: option.splits)
  show ?thesis unfolding db'
    using clean_content [OF c] edit_row by (intro advances_campaigns [OF assms(1)]) blast
qed

lemma pause_advances:
  assumes "campInv calm db" and run: "pauseCampaign ce i org reason db = Inr (db', row)"
  shows "advances calm db db'"
proof -
  define why where "why = (case reason of Some x \<Rightarrow> x | None \<Rightarrow> ''Paused by an admin.'')"
  let ?u = "updateCampaigns ce (\<lambda>r. cmId r = i \<and> cmOrg r = org \<and> (cmStatus r = CmScheduled \<or> cmStatus r = CmSending))
      (\<lambda>r. r\<lparr>cmStatus := CmPaused, cmPausedReason := Some why\<rparr>) db"
  from run have db': "db' = fst ?u"
    unfolding pauseCampaign_def Let_def why_def [symmetric]
    by (cases ?u; cases "snd ?u") (simp_all add: ebind_Inr_iff split: if_splits)
  show ?thesis unfolding db'
    using pause_row by (intro advances_campaigns [OF assms(1)]) metis
qed

lemma found_campaign:
  assumes "campInv calm db" "getCampaign i org db = Inr c"
  shows "c \<in> set (campaigns db)" "campaignOk calm c" "\<And>r. r \<in> set (campaigns db) \<Longrightarrow> cmId r = cmId c \<Longrightarrow> r = c"
proof -
  from assms(2) show c: "c \<in> set (campaigns db)"
    by (auto simp: getCampaign_def dest: find_Some_in split: option.splits)
  with assms(1) show "campaignOk calm c" by (simp add: campInv_def)
  fix r assume "r \<in> set (campaigns db)" "cmId r = cmId c"
  with c assms(1) show "r = c" unfolding campInv_def by (blast intro: distinct_key_eq)
qed

lemma resume_advances:
  assumes inv: "campInv calm db" and run: "resumeCampaign ce meanwhile now i org db = (db', ans)"
    and mean: "\<And>x. campInv calm x \<Longrightarrow> advances calm x (meanwhile x)" and still: "\<And>x. calm \<Longrightarrow> meanwhile x = x"
  shows "advances calm db db'"
proof (cases "db' = db")
  case False
  then obtain c where c: "getCampaign i org db = Inr c" "cmStatus c = CmPaused"
    using run by (cases "getCampaign i org db") (auto simp: resumeCampaign_def split: option.splits if_splits)
  let ?db = "meanwhile db"
  let ?again = "updateCampaigns ce (\<lambda>r. cmId r = cmId c) (\<lambda>r. r\<lparr>cmStatus := CmScheduled, cmPausedReason := None\<rparr>) ?db"
  let ?on = "updateCampaigns ce (\<lambda>r. cmId r = cmId c \<and> cmStatus r = CmPaused)
     (\<lambda>r. r\<lparr>cmStatus := CmSending, cmPausedReason := None, cmHealthWindowStart := Some now, cmNextColdBatchAt := Some now\<rparr>) ?db"
  from run False have db': "db' = (if cmStartedAt c = None then fst ?again else fst ?on)"
    unfolding resumeCampaign_def c(1) sum.case
    by (cases ?again; cases "snd ?again"; cases ?on; cases "snd ?on") (auto simp: c(2) split: option.splits if_splits)
  have first: "advances calm db ?db" by (rule mean [OF inv])
  then have inv': "campInv calm ?db" by (simp add: advances_def)
  have row: "calm \<Longrightarrow> r = c" if "r \<in> set (campaigns ?db)" "cmId r = cmId c" for r
    using found_campaign(3) [OF inv c(1)] that still [of db] by simp
  show ?thesis
  proof (cases "cmStartedAt c = None")
    case True
    have "advances calm ?db (fst ?again)"
      by (rule advances_campaigns [OF inv']) (use row True c(2) reschedule_row in blast)
    with first show ?thesis unfolding db' if_P [OF True] by (rule advances_trans)
  next
    case False
    have "advances calm ?db (fst ?on)"
      by (rule advances_campaigns [OF inv']) (use row False c(2) resume_row in blast)
    with first show ?thesis unfolding db' if_not_P [OF False] by (rule advances_trans)
  qed
qed (simp add: advances_refl inv)

lemma skipPending_advances: "campInv calm db \<Longrightarrow> advances calm db (skipPending i db)"
  unfolding skipPending_def
  by (intro advances_recipients)
    (auto simp: recipientLater_def recipientKey_def recipientPhase_def recipientOk_def campInv_def)

lemma stopMail_advances:
  assumes "campInv calm db"
  shows "advances calm db (stopMail i db)"
proof -
  have "mailKeys (mailbox (stopMail i db)) = mailKeys (mailbox db)"
    unfolding stopMail_def by (simp, rule mailKeys_same, rule map_updateWhere) simp
  then show ?thesis using assms by (intro advances_fields) (simp_all add: stopMail_def campInv_def)
qed

lemma skipped_none_pending:
  "r \<in> set (recipients (stopMail i (skipPending i db))) \<Longrightarrow> rpCampaign r = i \<Longrightarrow> rpStatus r \<noteq> RPending"
  unfolding stopMail_def skipPending_def by (simp, erule in_updateWhereE) auto

text \<open>A campaign's cancellation, by the last statement of the transaction.\<close>

lemma cancelled_advances:
  assumes inv: "campInv calm db"
    and none: "\<And>r. calm \<Longrightarrow> r \<in> set (recipients db) \<Longrightarrow> rpCampaign r = i \<Longrightarrow> rpStatus r \<noteq> RPending"
    and row: "\<And>r. calm \<Longrightarrow> r \<in> set (campaigns db) \<Longrightarrow> cmId r = i \<Longrightarrow> cmStatus r \<noteq> CmSent \<and> cmStatus r \<noteq> CmCancelled"
  shows "advances calm db (fst (updateCampaigns ce (\<lambda>r. cmId r = i) (\<lambda>r. r\<lparr>cmStatus := CmCancelled, cmCompletedAt := Some now\<rparr>) db))"
proof (rule advances_campaigns [OF inv])
  fix r assume r: "r \<in> set (campaigns db)" "campaignOk calm r" "cmId r = i"
  have "develops calm r (r\<lparr>cmStatus := CmCancelled, cmCompletedAt := Some now\<rparr>)"
    by (rule cancel_row [OF r(2)]) (rule row [OF _ r(1,3)])
  with none r(3) show "develops calm r (r\<lparr>cmStatus := CmCancelled, cmCompletedAt := Some now\<rparr>) \<and>
      (calm \<longrightarrow> phase r = 2 \<longrightarrow> phase (r\<lparr>cmStatus := CmCancelled, cmCompletedAt := Some now\<rparr>) = 2 \<or>
         (\<forall>x\<in>set (recipients db). rpCampaign x = cmId r \<longrightarrow> rpStatus x \<noteq> RPending))"
    by blast
qed

lemma cancel_advances:
  assumes inv: "campInv calm db" and run: "cancelCampaign ce meanwhile now i org db = (db', ans)"
    and mean: "\<And>n x. campInv calm x \<Longrightarrow> advances calm x (meanwhile n x)" and still: "\<And>n x. calm \<Longrightarrow> meanwhile n x = x"
  shows "advances calm db db'"
proof (cases "db' = db")
  case False
  then obtain c where c: "getCampaign i org db = Inr c" "cmStatus c \<noteq> CmSent" "cmStatus c \<noteq> CmCancelled"
    using run by (cases "getCampaign i org db") (auto simp: cancelCampaign_def split: if_splits)
  define db1 where "db1 = skipPending (cmId c) (meanwhile 0 db)"
  define db2 where "db2 = stopMail (cmId c) (meanwhile 1 db1)"
  let ?f = "\<lambda>r. r\<lparr>cmStatus := CmCancelled, cmCompletedAt := Some now\<rparr>"
  let ?u = "updateCampaigns ce (\<lambda>r. cmId r = cmId c) ?f (meanwhile 2 db2)"
  have db': "db' = fst ?u \<or> db' = meanwhile 2 (meanwhile 1 (meanwhile 0 db))"
    using run c(2,3) unfolding cancelCampaign_def c(1) sum.case Let_def db1_def [symmetric] db2_def [symmetric]
    by (cases ?u; cases "snd ?u") simp_all
  have goes: "campInv calm y \<and> advances calm db (g y)" if "advances calm db y" "\<And>x. campInv calm x \<Longrightarrow> advances calm x (g x)" for y g
    using that advances_trans [OF that(1) that(2)] by (simp add: advances_def)
  have m0: "advances calm db (meanwhile 0 db)" by (rule mean [OF inv])
  have a1: "advances calm db db1" unfolding db1_def using goes [OF m0] skipPending_advances by blast
  have m1: "advances calm db (meanwhile 1 db1)" using goes [OF a1] mean by blast
  have a2: "advances calm db db2" unfolding db2_def using goes [OF m1] stopMail_advances by blast
  have m2: "advances calm db (meanwhile 2 db2)" using goes [OF a2] mean by blast
  then have inv2: "campInv calm (meanwhile 2 db2)" by (simp add: advances_def)
  have "advances calm (meanwhile 2 db2) (fst ?u)"
  proof (rule cancelled_advances [OF inv2])
    fix r assume "calm" "r \<in> set (recipients (meanwhile 2 db2))" "rpCampaign r = cmId c"
    then show "rpStatus r \<noteq> RPending" by (simp add: still db1_def db2_def skipped_none_pending)
  next
    fix r assume r: "calm" "r \<in> set (campaigns (meanwhile 2 db2))" "cmId r = cmId c"
    then have "r \<in> set (campaigns db)" by (simp add: still db1_def db2_def stopMail_def skipPending_def)
    with found_campaign(3) [OF inv c(1)] r(3) c(2,3) show "cmStatus r \<noteq> CmSent \<and> cmStatus r \<noteq> CmCancelled" by blast
  qed
  with m2 have "advances calm db (fst ?u)" by (rule advances_trans)
  moreover have "advances calm db (meanwhile 2 (meanwhile 1 (meanwhile 0 db)))"
    using goes [OF goes [OF m0 mean, THEN conjunct2] mean, THEN conjunct2] .
  ultimately show ?thesis using db' by blast
qed (simp add: advances_refl inv)

section \<open>The snapshot\<close>

definition freshRecipients :: "campaignEnv \<Rightarrow> uuid \<Rightarrow> mailDb \<Rightarrow> bool" where
  "freshRecipients ce i db \<longleftrightarrow> inj_on (ceRecipientId ce i) (ctId ` set (contacts db)) \<and>
     (\<forall>k\<in>set (contacts db). uuidText (ctId k) \<and> ceRecipientId ce i (ctId k) \<notin> rpId ` set (recipients db))"

text \<open>What the insert adds to the table: pending recipients of this campaign, one per contact.\<close>

definition addedRecipients :: "campaignEnv \<Rightarrow> uuid \<Rightarrow> mailDb \<Rightarrow> recipientRow list \<Rightarrow> bool" where
  "addedRecipients ce i db new \<longleftrightarrow> (\<forall>r\<in>set new. \<exists>k\<in>set (contacts db). r = newRecipient ce i k) \<and>
     distinct (map rpId (recipients db @ new)) \<and> distinct (map recipientKey (recipients db @ new))"

lemma newRecipient_fields [row_simps]:
  "rpId (newRecipient ce i k) = ceRecipientId ce i (ctId k)" "rpCampaign (newRecipient ce i k) = i"
  "rpContact (newRecipient ce i k) = ctId k" "rpStatus (newRecipient ce i k) = RPending"
  "rpEmail (newRecipient ce i k) = ctEmail k" "recipientKey (newRecipient ce i k) = (i, ctId k)"
  by (simp_all add: newRecipient_def recipientKey_def)

lemma insertRecipients_adds:
  assumes inv: "campInv calm db" and fresh: "freshRecipients ce (cmId c) db"
  obtains new where "insertRecipients ce c db = recipients db @ new" "addedRecipients ce (cmId c) db new"
proof -
  let ?P = "\<lambda>t. \<exists>new. t = recipients db @ new \<and> addedRecipients ce (cmId c) db new"
  have "?P (insertRecipients ce c db)" unfolding insertRecipients_def
  proof (rule fold_invariant)
    show "?P (recipients db)" using inv by (auto simp: addedRecipients_def campInv_def)
  next
    fix k t assume k: "k \<in> set (filter (\<lambda>k. ctOrg k = cmOrg c \<and> ctStatus k = CSubscribed) (contacts db))" and "?P t"
    then obtain new where t: "t = recipients db @ new" and new: "addedRecipients ce (cmId c) db new" by blast
    show "?P (fst (insertOnConflictDoNothing recipientKey (newRecipient ce (cmId c) k) t))"
    proof (cases "recipientKey (newRecipient ce (cmId c) k) \<in> recipientKey ` set t")
      case True
      with t new show ?thesis by (auto simp: insertOnConflictDoNothing_def)
    next
      case False
      have "ceRecipientId ce (cmId c) (ctId k) \<notin> rpId ` set new"
      proof
        assume "ceRecipientId ce (cmId c) (ctId k) \<in> rpId ` set new"
        then obtain r where r: "r \<in> set new" "rpId r = ceRecipientId ce (cmId c) (ctId k)" by force
        with new obtain j where j: "j \<in> set (contacts db)" "r = newRecipient ce (cmId c) j" by (auto simp: addedRecipients_def)
        with r fresh k have "ctId j = ctId k" by (auto simp: freshRecipients_def row_simps dest: inj_onD)
        with False r j t show False by (force simp: row_simps)
      qed
      moreover have "ceRecipientId ce (cmId c) (ctId k) \<notin> rpId ` set (recipients db)"
        using fresh k by (auto simp: freshRecipients_def)
      ultimately have "addedRecipients ce (cmId c) db (new @ [newRecipient ce (cmId c) k])"
        using new k False t by (auto simp: addedRecipients_def row_simps)
      with False t show ?thesis by (auto simp: insertOnConflictDoNothing_def)
    qed
  qed
  with that show ?thesis by blast
qed

text \<open>The two screens, as one function of a row.\<close>

definition screened :: "campaignRow \<Rightarrow> suppressionRow list \<Rightarrow> recipientRow \<Rightarrow> recipientRow" where
  "screened c t r = skipUnclean c (skipSuppressed c t r)"

lemma screened_other: "rpCampaign r \<noteq> cmId c \<or> rpStatus r \<noteq> RPending \<Longrightarrow> screened c t r = r"
  by (auto simp: screened_def skipUnclean_def skipSuppressed_def)

lemma screened_fields [row_simps]:
  "rpId (screened c t r) = rpId r" "recipientKey (screened c t r) = recipientKey r"
  "rpCampaign (screened c t r) = rpCampaign r" "rpContact (screened c t r) = rpContact r"
  "rpEmail (screened c t r) = rpEmail r" "rpCold (screened c t r) = rpCold r"
  by (simp_all add: screened_def skipUnclean_def skipSuppressed_def recipientKey_def split: option.splits addressCheck.splits)

text \<open>A recipient the screens let through has a clean address that is not suppressed.\<close>

lemma screened_pending:
  assumes "rpStatus r = RPending" and "rpCampaign r = cmId c"
  shows "if suppressedBy (cmOrg c) (rpEmail r) t = None \<and> cleanAddress (rpEmail r) then screened c t r = r
    else rpStatus (screened c t r) = RSkipped \<and> rpSkipReason (screened c t r) \<noteq> None"
  using assms
  by (auto simp: screened_def skipUnclean_def skipSuppressed_def cleanAddress_def split: option.splits addressCheck.splits)

lemma snapshot_fields [row_simps]:
  "campaigns (snapshotRecipients ce c db) = campaigns db" "contacts (snapshotRecipients ce c db) = contacts db"
  "mailbox (snapshotRecipients ce c db) = mailbox db"
  "recipients (snapshotRecipients ce c db) = map (screened c (suppressions db)) (insertRecipients ce c db)"
  by (simp_all add: snapshotRecipients_def screened_def o_def)

lemma no_pending_before:
  assumes "campInv True db" and "c \<in> set (campaigns db)" and "phase c \<noteq> 2" and "r \<in> set (recipients db)" "rpCampaign r = cmId c"
  shows "rpStatus r \<noteq> RPending"
proof
  assume "rpStatus r = RPending"
  with assms obtain c' where "c' \<in> set (campaigns db)" "cmId c' = cmId c" "phase c' = 2"
    by (auto simp: campInv_def recipientOk_def)
  with assms(1-3) show False unfolding campInv_def by (metis distinct_key_eq)
qed

lemma screened_cases:
  "screened c t r = r \<or> rpStatus r = RPending \<and> rpStatus (screened c t r) = RSkipped"
  using screened_other screened_pending [of r c t] by (cases "rpStatus r = RPending \<and> rpCampaign r = cmId c") (auto split: if_splits)

lemma screened_later: "recipientLater r (screened c t r)"
  using screened_cases [of c t r] by (auto simp: recipientLater_def row_simps recipientPhase_def)

lemma screened_ok: "recipientOk calm db r \<Longrightarrow> recipientOk calm db (screened c t r)"
  using screened_cases [of c t r] by (auto simp: recipientOk_def row_simps)

text \<open>The snapshot and the start of the campaign, one transaction.\<close>

lemma begin_advances:
  assumes inv: "campInv calm db" and c: "c \<in> set (campaigns db)" and fresh: "freshRecipients ce (cmId c) db"
    and row: "develops calm c (f c)" "phase (f c) = 2"
  shows "advances calm db (fst (updateCampaigns ce (\<lambda>r. cmId r = cmId c) f (snapshotRecipients ce c db)))"
proof -
  let ?s = "screened c (suppressions db)"
  from insertRecipients_adds [OF inv fresh] obtain new where
    rs: "insertRecipients ce c db = recipients db @ new" and new: "addedRecipients ce (cmId c) db new" .
  let ?u = "fst (updateCampaigns ce (\<lambda>r. cmId r = cmId c) f db)"
  let ?db = "fst (updateCampaigns ce (\<lambda>r. cmId r = cmId c) f (snapshotRecipients ce c db))"
  have only: "r = c" if "r \<in> set (campaigns db)" "cmId r = cmId c" for r
    using inv c that unfolding campInv_def by (blast intro: distinct_key_eq)
  have u: "advances calm db ?u" using row only by (intro advances_campaigns [OF inv]) blast
  have same: "campaigns ?db = campaigns ?u" "mailbox ?db = mailbox ?u" "recipients ?u = recipients db"
    "recipients ?db = map ?s (recipients db @ new)"
    by (simp_all add: row_simps rs)
  have live: "\<exists>x\<in>set (campaigns ?db). cmId x = cmId c \<and> phase x = 2"
    using c row by (auto simp: row_simps develops_def later_def intro!: updateWhere_ex)
  have "recipientOk calm ?db (?s r)" if "r \<in> set new" for r
  proof -
    from new that obtain k where k: "k \<in> set (contacts db)" "r = newRecipient ce (cmId c) k"
      by (auto simp: addedRecipients_def)
    with fresh have "uuidText (rpContact r)" "rpStatus r = RPending" "rpCampaign r = cmId c"
      by (auto simp: freshRecipients_def row_simps)
    with screened_pending [OF this(2,3), of "suppressions db"] live show ?thesis
      by (auto simp: recipientOk_def row_simps split: if_splits)
  qed
  moreover have "recipientOk calm ?db (?s r)" if "r \<in> set (recipients db)" for r
    using u that same by (intro screened_ok) (auto simp: advances_def campInv_def recipientOk_def)
  ultimately have "\<forall>r\<in>set (recipients ?db). recipientOk calm ?db r" by (auto simp: same(4))
  moreover have "distinct (map rpId (recipients ?db))" "distinct (map recipientKey (recipients ?db))"
    unfolding same using new by (simp_all add: addedRecipients_def o_def screened_fields)
  ultimately have "campInv calm ?db" using u same(1,2) by (simp add: advances_def campInv_def)
  moreover have "evolves calm db ?db"
    unfolding evolves_def same(1,4) using u by (auto simp: advances_def evolves_def intro: screened_later)
  ultimately show ?thesis by (simp add: advances_def)
qed

lemma start_advances:
  assumes inv: "campInv calm db" and fresh: "freshRecipients ce i db" and run: "startCampaign ce now i org sendAt db = Inr (db', row)"
  shows "advances calm db db'"
proof -
  from run obtain c where c: "getCampaign i org db = Inr c" "cmStatus c = CmDraft \<or> cmStatus c = CmScheduled"
    by (auto simp: startCampaign_def ebind_Inr_iff split: option.splits if_splits)
  note found = found_campaign [OF inv c(1)]
  have i: "cmId c = i" using c(1) by (auto simp: getCampaign_def dest: find_Some_in split: option.splits)
  define f :: "campaignRow \<Rightarrow> campaignRow" where "f = (\<lambda>r. r\<lparr>cmStatus := CmSending, cmStartedAt := Some now,
      cmScheduledAt := (case cmScheduledAt c of Some x \<Rightarrow> Some x | None \<Rightarrow> Some now),
      cmHealthWindowStart := Some now, cmNextColdBatchAt := Some now\<rparr>)"
  let ?later = "\<lambda>t. updateCampaigns ce (\<lambda>r. cmId r = cmId c) (\<lambda>r. r\<lparr>cmStatus := CmScheduled, cmScheduledAt := Some t\<rparr>) db"
  let ?now = "updateCampaigns ce (\<lambda>r. cmId r = cmId c) f (snapshotRecipients ce c db)"
  from run have "(\<exists>t. ?later t = (db', row)) \<or> ?now = (db', row)"
    unfolding startCampaign_def c(1) f_def [symmetric] ebind_simps by (auto split: option.splits if_splits)
  then have "(\<exists>t. db' = fst (?later t)) \<or> db' = fst ?now" by (metis fst_conv)
  then show ?thesis
  proof
    assume "\<exists>t. db' = fst (?later t)"
    then obtain t where "db' = fst (?later t)" ..
    then show ?thesis using schedule_row [OF found(2) c(2)] found(3)
      by (simp only:) (intro advances_campaigns [OF inv], blast)
  next
    assume "db' = fst ?now"
    moreover have "develops calm c (f c) \<and> phase (f c) = 2"
      by (rule begin_row [OF found(2) c(2)]) (simp_all add: f_def)
    ultimately show ?thesis using begin_advances [OF inv found(1)] fresh i by simp
  qed
qed

section \<open>Release\<close>

lemma trim_has_text: "c \<in> set s \<Longrightarrow> \<not> jsSpace c \<Longrightarrow> trim s \<noteq> []"
proof -
  assume c: "c \<in> set s" "\<not> jsSpace c"
  then have "trimStart s \<noteq> []" by (auto simp: trimStart_def dropWhile_eq_Nil_conv)
  then have "trimEnd (trimStart s) \<noteq> []" using trimStart_hd trimEnd_hd by metis
  then show ?thesis by (simp add: trim_def)
qed

lemma campaign_key:
  assumes "uuidText i" "uuidText j"
  shows "trim (campaignKey i j) = campaignKey i j" "campaignKey i j \<noteq> []" "length (campaignKey i j) \<le> 512"
proof -
  have "\<forall>c\<in>set (campaignKey i j). \<not> jsSpace c"
    using assms by (auto simp: campaignKey_def uuidText_def jsSpace_def)
  then show "trim (campaignKey i j) = campaignKey i j" by (rule trim_no_spaces)
qed (use assms in \<open>simp_all add: campaignKey_def uuidText_def\<close>)

lemma campaign_mail_accepted:
  assumes "campaignOk calm c" and "cleanAddress (rpEmail r)" and "uuidText (rpContact r)"
  shows "checkEmail (campaignMail ce c r now) = None"
    and "outboxKey (campaignMail ce c r now) = Some (campaignKey (cmId c) (rpContact r))"
proof -
  have ids: "uuidText (cmId c)" using assms(1) by (simp add: campaignOk_def)
  note key = campaign_key [OF ids assms(3)]
  show k: "outboxKey (campaignMail ce c r now) = Some (campaignKey (cmId c) (rpContact r))"
    by (simp add: outboxKey_def campaignMail_def Let_def key)
  from assms(2) obtain e where "checkAddress (rpEmail r) = AddressOk e"
    by (auto simp: cleanAddress_def split: addressCheck.splits)
  with accepted_is_outbox_address [OF this] have "EMAIL_RE (toLowerCase (trim (rpEmail r)))"
    by (elim checkAddress_Ok) (simp add: normalizeAddress_def flip: lower_trim)
  moreover have "CHR ''-'' \<in> set (fst (withUnsubscribeFooter ce c (rpEmail r)))" "\<not> jsSpace CHR ''-''"
    by (auto simp: withUnsubscribeFooter_def Let_def jsSpace_def)
  ultimately show "checkEmail (campaignMail ce c r now) = None"
    using assms(1) key(3) unfolding checkEmail_None k by (auto simp: campaignMail_def Let_def campaignOk_def dest: trim_has_text)
qed

lemma enqueue_keys:
  assumes "checkEmail inp = None" and "outboxKey inp = Some k" and "distinct (mailKeys t)"
  obtains t' row b where "enqueueEmail i now dbNow inp t = Inr (t', row, b)" "set (mailKeys t) \<subseteq> set (mailKeys t')"
    "distinct (mailKeys t')" "Some k \<in> set (mailKeys t')"
proof (cases "List.find (\<lambda>r. obKey r = Some k) t")
  case None
  then have "Some k \<notin> set (mailKeys t)" by (auto simp: mailKeys_def find_None_iff_all)
  then have keys: "mailKeys (t @ [newOutboxRow i now dbNow inp]) = mailKeys t @ [Some k]"
    using assms(2) by (simp add: mailKeys_def newOutboxRow_def)
  have "enqueueEmail i now dbNow inp t = Inr (t @ [newOutboxRow i now dbNow inp], newOutboxRow i now dbNow inp, True)"
    using None assms by (simp add: enqueueEmail_def Let_def)
  then show ?thesis by (rule that) (use keys \<open>Some k \<notin> set (mailKeys t)\<close> assms(3) in auto)
next
  case (Some r)
  then have "r \<in> set t" "obKey r = Some k" by (auto dest: find_Some_in)
  then have "Some k \<in> set (mailKeys t)" by (simp add: mailKeys_def) (metis imageI)
  have "enqueueEmail i now dbNow inp t = Inr (t, r, False)"
    using Some assms by (simp add: enqueueEmail_def Let_def)
  then show ?thesis by (rule that) (use \<open>Some k \<in> set (mailKeys t)\<close> assms(3) in auto)
qed

text \<open>The rows a step picked: pending rows of the table, of one started campaign.\<close>

definition releasable :: "bool \<Rightarrow> campaignRow \<Rightarrow> recipientRow list \<Rightarrow> mailDb \<Rightarrow> bool" where
  "releasable calm c rows db \<longleftrightarrow> campaignOk calm c \<and> distinct (map rpId rows) \<and>
     (\<forall>r\<in>set rows. r \<in> set (recipients db) \<and> rpStatus r = RPending \<and> rpCampaign r = cmId c)"

lemma advances_mailbox:
  assumes "campInv calm db" and "set (mailKeys (mailbox db)) \<subseteq> set (mailKeys t)" and "distinct (mailKeys t)"
  shows "advances calm db (db\<lparr>mailbox := t\<rparr>)"
  using assms by (intro advances_fields) simp_all

lemma release_one:
  assumes inv: "campInv calm db" and rel: "releasable calm c (r # rows) db"
  obtains t row b where "enqueueEmail i now dbNow (campaignMail ce c r now) (mailbox db) = Inr (t, row, b)"
    "advances calm db (db\<lparr>mailbox := t, recipients := updateWhere (\<lambda>x. rpId x = rpId r) (queueRecipient n (obId row) now) (recipients db)\<rparr>)"
    "releasable calm c rows (db\<lparr>mailbox := t, recipients := updateWhere (\<lambda>x. rpId x = rpId r) (queueRecipient n (obId row) now) (recipients db)\<rparr>)"
proof -
  from rel have r: "r \<in> set (recipients db)" "rpStatus r = RPending" "rpCampaign r = cmId c" "campaignOk calm c"
    by (auto simp: releasable_def)
  with inv have ok: "recipientOk calm db r" by (simp add: campInv_def)
  with r have clean: "cleanAddress (rpEmail r)" "uuidText (rpContact r)" by (simp_all add: recipientOk_def)
  note mail = campaign_mail_accepted [OF r(4) clean, of ce now]
  have "distinct (mailKeys (mailbox db))" using inv by (simp add: campInv_def)
  with mail obtain t row b where t: "enqueueEmail i now dbNow (campaignMail ce c r now) (mailbox db) = Inr (t, row, b)"
    "set (mailKeys (mailbox db)) \<subseteq> set (mailKeys t)" "distinct (mailKeys t)"
    "Some (campaignKey (cmId c) (rpContact r)) \<in> set (mailKeys t)" by (rule enqueue_keys)
  let ?f = "queueRecipient n (obId row) now"
  let ?db1 = "db\<lparr>mailbox := t\<rparr>"
  let ?db2 = "db\<lparr>mailbox := t, recipients := updateWhere (\<lambda>x. rpId x = rpId r) ?f (recipients db)\<rparr>"
  have one: "advances calm db ?db1" by (rule advances_mailbox [OF inv t(2,3)])
  have only: "x = r" if "x \<in> set (recipients db)" "rpId x = rpId r" for x
    using inv r(1) that unfolding campInv_def by (blast intro: distinct_key_eq)
  have "advances calm ?db1 (?db1\<lparr>recipients := updateWhere (\<lambda>x. rpId x = rpId r) ?f (recipients ?db1)\<rparr>)"
  proof (rule advances_recipients)
    show "campInv calm ?db1" using one by (simp add: advances_def)
  next
    fix x assume "x \<in> set (recipients ?db1)" "rpId x = rpId r"
    then have "x = r" using only by simp
    with r(2,3) clean(2) t(4) show "recipientLater x (?f x) \<and> recipientOk calm ?db1 (?f x)"
      by (simp add: recipientLater_def recipientPhase_def recipientKey_def queueRecipient_def recipientOk_def)
  qed
  then have "advances calm ?db1 ?db2" by simp
  with one have "advances calm db ?db2" by (rule advances_trans)
  moreover have "releasable calm c rows ?db2"
  proof -
    have "x \<in> set (recipients ?db2)" if "x \<in> set rows" for x
    proof -
      from rel have "rpId r \<notin> rpId ` set rows" "x \<in> set (recipients db)" using that by (simp_all add: releasable_def)
      moreover from this(1) have "rpId x \<noteq> rpId r" using that by (metis imageI)
      ultimately have "x \<in> set (recipients db)" "rpId x \<noteq> rpId r" by simp_all
      then show ?thesis by (force simp: set_updateWhere)
    qed
    with rel show ?thesis by (simp add: releasable_def)
  qed
  ultimately show ?thesis using that t(1) by blast
qed

text \<open>
  A release succeeds, and the recipients it leaves are the old ones with exactly the picked rows queued
  (\<open>m\<close> is the mail each got).
\<close>

lemma releaseRows_succeeds:
  assumes "campInv calm db" and "releasable calm c rows db"
  shows "\<exists>db' m. releaseRows ce c n now rows db = Inr db' \<and> advances calm db db' \<and> campaigns db' = campaigns db \<and>
    contacts db' = contacts db \<and>
    recipients db' = updateWhere (\<lambda>x. rpId x \<in> rpId ` set rows) (\<lambda>x. queueRecipient n (m (rpId x)) now x) (recipients db)"
  using assms
proof (induction rows arbitrary: db)
  case Nil
  then show ?case by (simp add: advances_refl updateWhere_none)
next
  case (Cons r rows)
  from release_one [OF Cons.prems, where i = "ceOutboxId ce (rpId r)" and dbNow = "ceDbNow ce" and ce = ce and n = n and now = now]
  obtain t row b where t: "enqueueEmail (ceOutboxId ce (rpId r)) now (ceDbNow ce) (campaignMail ce c r now) (mailbox db) = Inr (t, row, b)"
    and one: "advances calm db (db\<lparr>mailbox := t, recipients := updateWhere (\<lambda>x. rpId x = rpId r) (queueRecipient n (obId row) now) (recipients db)\<rparr>)"
    and rel: "releasable calm c rows (db\<lparr>mailbox := t, recipients := updateWhere (\<lambda>x. rpId x = rpId r) (queueRecipient n (obId row) now) (recipients db)\<rparr>)" .
  let ?db1 = "db\<lparr>mailbox := t, recipients := updateWhere (\<lambda>x. rpId x = rpId r) (queueRecipient n (obId row) now) (recipients db)\<rparr>"
  from one have "campInv calm ?db1" by (simp add: advances_def)
  from Cons.IH [OF this rel] obtain db' m where rest: "releaseRows ce c n now rows ?db1 = Inr db'" "advances calm ?db1 db'"
    "campaigns db' = campaigns ?db1" "contacts db' = contacts ?db1"
    "recipients db' = updateWhere (\<lambda>x. rpId x \<in> rpId ` set rows) (\<lambda>x. queueRecipient n (m (rpId x)) now x) (recipients ?db1)"
    by blast
  have apart: "rpId r \<notin> rpId ` set rows" using Cons.prems(2) by (simp add: releasable_def)
  have "recipients db' = updateWhere (\<lambda>x. rpId x \<in> rpId ` set (r # rows))
      (\<lambda>x. queueRecipient n ((m(rpId r := obId row)) (rpId x)) now x) (recipients db)"
    using apart by (auto simp: rest(5) updateWhere_def queueRecipient_def)
  moreover have "releaseRows ce c n now (r # rows) db = Inr db'" using t rest(1) by simp
  moreover have "advances calm db db'" using one rest(2) by (rule advances_trans)
  ultimately show ?case using rest(3,4) by auto
qed

lemma release_succeeds:
  assumes "campInv calm db" and "releasable calm c rows db"
  obtains db' m where "release ce c rows n now db = Inr (db', length rows)" "advances calm db db'" "campaigns db' = campaigns db"
    "recipients db' = updateWhere (\<lambda>x. rpId x \<in> rpId ` set rows) (\<lambda>x. queueRecipient n (m (rpId x)) now x) (recipients db)"
proof -
  from releaseRows_succeeds [OF assms] obtain db1 m where one: "releaseRows ce c n now rows db = Inr db1" "advances calm db db1"
    "campaigns db1 = campaigns db"
    "recipients db1 = updateWhere (\<lambda>x. rpId x \<in> rpId ` set rows) (\<lambda>x. queueRecipient n (m (rpId x)) now x) (recipients db)"
    by blast
  let ?db = "db1\<lparr>contacts := updateWhere (\<lambda>k. ctId k \<in> set (map rpContact rows) \<and> ctFirstSentAt k = None)
      (\<lambda>k. k\<lparr>ctFirstSentAt := Some now\<rparr>) (contacts db1)\<rparr>"
  have "campInv calm db1" using one(2) by (simp add: advances_def)
  then have "advances calm db1 ?db" by (intro advances_fields) (simp_all add: campInv_def)
  with one(2) have "advances calm db ?db" by (rule advances_trans)
  with one that show ?thesis by (simp add: release_def)
qed

section \<open>One step of the runner\<close>

lemma pending_releasable:
  assumes "campInv calm db" and "campaignOk calm c"
  shows "releasable calm c (warmRows c db) db" "releasable calm c (coldRows c db) db"
proof -
  have d: "distinct (map rpId (pendingOf c b db))" for b
    using assms(1) by (simp add: campInv_def pendingOf_def distinct_map_filter)
  have "distinct (map rpId (warmRows c db))"
    unfolding warmRows_def take_map [symmetric] by (rule distinct_take) (rule d)
  then show "releasable calm c (warmRows c db) db"
    using assms(2) by (auto simp: releasable_def warmRows_def pendingOf_def dest: in_set_takeD)
  show "releasable calm c (coldRows c db) db"
    using assms(2) d [of True] set_orderedLimit_subset [of rpCreatedAt "rampSize (cmWarmupStep c)" "pendingOf c True db"]
    by (auto simp: releasable_def coldRows_def pendingOf_def distinct_map_orderedLimit)
qed

text \<open>The rows of the cold batch, and the campaign row it leaves.\<close>

definition coldBatch :: "campaignRow \<Rightarrow> ms \<Rightarrow> mailDb \<Rightarrow> recipientRow list" where
  "coldBatch c now db = (if coldBatchDue c now then coldRows c db else [])"

definition ramped :: "campaignRow \<Rightarrow> ms \<Rightarrow> recipientRow list \<Rightarrow> campaignRow \<Rightarrow> bool" where
  "ramped c now cold c' \<longleftrightarrow> cmId c' = cmId c \<and>
     (if cold = [] then cmWarmupStep c' = cmWarmupStep c \<and> cmNextColdBatchAt c' = cmNextColdBatchAt c
      else cmWarmupStep c' = cmWarmupStep c + 1 \<and> cmNextColdBatchAt c' = Some (now + WARMUP_BATCH_INTERVAL_MS))"

lemma releaseCold_succeeds:
  assumes inv: "campInv calm db" and c: "c \<in> set (campaigns db)" "cmStatus c = CmSending"
  obtains db' m where "releaseCold ce c now db = Inr (db', length (coldBatch c now db))" "advances calm db db'"
    "\<forall>x\<in>set (campaigns db'). cmId x = cmId c \<longrightarrow> campaignOk calm x \<and> cmStatus x = CmSending \<and> ramped c now (coldBatch c now db) x"
    "recipients db' = updateWhere (\<lambda>x. rpId x \<in> rpId ` set (coldBatch c now db))
       (\<lambda>x. queueRecipient (cmWarmupStep c + 1) (m (rpId x)) now x) (recipients db)"
proof -
  have ok: "campaignOk calm c" using inv c(1) by (simp add: campInv_def)
  have only: "r = c" if "r \<in> set (campaigns db)" "cmId r = cmId c" for r
    using inv c(1) that unfolding campInv_def by (blast intro: distinct_key_eq)
  show ?thesis
  proof (cases "coldBatch c now db = []")
    case True
    then have "releaseCold ce c now db = Inr (db, length (coldBatch c now db))"
      by (auto simp: releaseCold_def coldBatch_def split: if_splits)
    then show ?thesis
      by (rule that [OF _ advances_refl [OF inv]]) (use only ok c(2) True in \<open>auto simp: ramped_def updateWhere_none\<close>)
  next
    case False
    then have due: "coldBatchDue c now" "coldBatch c now db = coldRows c db" "coldRows c db \<noteq> []"
      by (auto simp: coldBatch_def split: if_splits)
    from release_succeeds [OF inv pending_releasable(2) [OF inv ok], where ce = ce and n = "cmWarmupStep c + 1" and now = now]
    obtain db1 m where one: "release ce c (coldRows c db) (cmWarmupStep c + 1) now db = Inr (db1, length (coldRows c db))"
      "advances calm db db1" "campaigns db1 = campaigns db"
      "recipients db1 = updateWhere (\<lambda>x. rpId x \<in> rpId ` set (coldRows c db)) (\<lambda>x. queueRecipient (cmWarmupStep c + 1) (m (rpId x)) now x)
        (recipients db)" .
    let ?f = "\<lambda>r. r\<lparr>cmWarmupStep := cmWarmupStep c + 1, cmNextColdBatchAt := Some (now + WARMUP_BATCH_INTERVAL_MS)\<rparr>"
    let ?db = "fst (updateCampaigns ce (\<lambda>r. cmId r = cmId c) ?f db1)"
    have row: "develops calm c (?f c) \<and> phase (?f c) = 2 \<and> campaignOk calm (?f c)"
      using ok c(2) by (cases calm) (simp_all add: row_defs)
    have "advances calm db1 ?db"
    proof (rule advances_campaigns)
      show "campInv calm db1" using one(2) by (simp add: advances_def)
    qed (use only row one(3) in auto)
    with one(2) have adv: "advances calm db ?db" by (rule advances_trans)
    have eq: "releaseCold ce c now db = Inr (?db, length (coldBatch c now db))"
      using due one(1) by (simp add: releaseCold_def)
    have rows: "campaignOk calm x \<and> cmStatus x = CmSending \<and> ramped c now (coldBatch c now db) x"
      if "x \<in> set (campaigns ?db)" "cmId x = cmId c" for x
    proof -
      from that only have "x = (?f c)\<lparr>cmUpdatedAt := ceDbNow ce\<rparr>"
        by (auto simp: row_simps one(3) set_updateWhere split: if_splits)
      with row c(2) due show ?thesis by (simp add: ramped_def)
    qed
    show ?thesis
      by (rule that [OF eq adv]) (use rows one(4) due in \<open>auto simp: row_simps\<close>)
  qed
qed

text \<open>A campaign the step found is waiting or sending, and is the only one with its id.\<close>

definition liveRow :: "campaignRow \<Rightarrow> mailDb \<Rightarrow> bool" where
  "liveRow c db \<longleftrightarrow> c \<in> set (campaigns db) \<and> (cmStatus c = CmScheduled \<or> cmStatus c = CmSending)"

lemma liveRow_only:
  assumes "campInv calm db" and "liveRow c db"
  shows "campaignOk calm c" and "\<And>r. r \<in> set (campaigns db) \<Longrightarrow> cmId r = cmId c \<Longrightarrow> r = c"
proof -
  from assms show "campaignOk calm c" by (simp add: campInv_def liveRow_def)
  fix r assume "r \<in> set (campaigns db)" "cmId r = cmId c"
  with assms show "r = c" unfolding campInv_def liveRow_def by (blast intro: distinct_key_eq)
qed

lemma setPaused_advances:
  assumes "campInv calm db" and "liveRow c db"
  shows "advances calm db (setPaused ce (cmId c) reason db)"
  unfolding setPaused_def
proof (rule advances_campaigns [OF assms(1)])
  fix r assume "r \<in> set (campaigns db)" "cmId r = cmId c"
  then have "r = c" by (rule liveRow_only(2) [OF assms])
  with pause_row [OF liveRow_only(1) [OF assms]] assms(2)
  show "develops calm r (r\<lparr>cmStatus := CmPaused, cmPausedReason := Some (take 2000 reason)\<rparr>) \<and>
      (calm \<longrightarrow> phase r = 2 \<longrightarrow> phase (r\<lparr>cmStatus := CmPaused, cmPausedReason := Some (take 2000 reason)\<rparr>) = 2 \<or>
         (\<forall>x\<in>set (recipients db). rpCampaign x = cmId r \<longrightarrow> rpStatus x \<noteq> RPending))"
    by (auto simp: liveRow_def)
qed

lemma setPaused_status:
  assumes "liveRow c db"
  shows "\<exists>x\<in>set (campaigns (setPaused ce (cmId c) reason db)). cmId x = cmId c \<and> cmStatus x = CmPaused"
  using assms by (auto simp: setPaused_def row_simps liveRow_def intro!: updateWhere_ex)

lemma beginSending_advances:
  assumes inv: "campInv calm db" and live: "liveRow c db" and fresh: "freshRecipients ce (cmId c) db"
  shows "advances calm db (fst (beginSending ce c now db)) \<and> liveRow (snd (beginSending ce c now db)) (fst (beginSending ce c now db)) \<and>
    cmStatus (snd (beginSending ce c now db)) = CmSending \<and> cmId (snd (beginSending ce c now db)) = cmId c"
proof (cases "cmStatus c = CmScheduled")
  case False
  with live show ?thesis by (simp add: beginSending_def advances_refl inv liveRow_def)
next
  case True
  define f :: "campaignRow \<Rightarrow> campaignRow" where "f = (\<lambda>r. r\<lparr>cmStatus := CmSending, cmStartedAt := Some now,
     cmHealthWindowStart := Some now, cmNextColdBatchAt := Some now\<rparr>)"
  let ?db = "fst (updateCampaigns ce (\<lambda>r. cmId r = cmId c) f (snapshotRecipients ce c db))"
  let ?c = "(f c)\<lparr>cmUpdatedAt := ceDbNow ce\<rparr>"
  have c: "c \<in> set (campaigns db)" using live by (simp add: liveRow_def)
  have "List.find (\<lambda>r. cmId r = cmId c) (campaigns (snapshotRecipients ce c db)) = Some c"
    using find_key_unique [OF _ c, of cmId] inv by (simp add: row_simps campInv_def)
  then have eq: "beginSending ce c now db = (?db, ?c)"
    unfolding beginSending_def Let_def f_def [symmetric] using True by (simp add: updateCampaigns_def Let_def)
  have row: "develops calm c (f c) \<and> phase (f c) = 2"
    using True liveRow_only(1) [OF inv live] by (intro begin_row) (simp_all add: f_def)
  from begin_advances [OF inv c fresh] row have "advances calm db ?db" by blast
  moreover have "?c \<in> set (campaigns ?db)"
    using updateWhere_in [OF c, of "\<lambda>r. cmId r = cmId c" "\<lambda>r. (f r)\<lparr>cmUpdatedAt := ceDbNow ce\<rparr>"] by (simp add: row_simps)
  ultimately show ?thesis unfolding eq by (simp add: liveRow_def f_def)
qed

lemma finishStep_advances:
  assumes "campInv calm db" and "\<And>x. x \<in> set (campaigns db) \<Longrightarrow> cmId x = cmId c \<Longrightarrow> campaignOk calm x \<and> cmStatus x = CmSending"
    and "finishStep ce c now n db = (db', s)"
  shows "advances calm db db' \<and> recipients db' = recipients db \<and> mailbox db' = mailbox db \<and> srQueued s = n \<and>
    (if list_ex (\<lambda>r. rpCampaign r = cmId c \<and> rpStatus r = RPending) (recipients db)
     then srOutcome s = SSending \<and> campaigns db' = campaigns db
     else srOutcome s = SSent \<and> campaigns db' = updateWhere (\<lambda>r. cmId r = cmId c)
       (\<lambda>r. r\<lparr>cmStatus := CmSent, cmCompletedAt := Some now, cmUpdatedAt := ceDbNow ce\<rparr>) (campaigns db))"
proof (cases "list_ex (\<lambda>r. rpCampaign r = cmId c \<and> rpStatus r = RPending) (recipients db)")
  case False
  then have "\<forall>r\<in>set (recipients db). rpCampaign r = cmId c \<longrightarrow> rpStatus r \<noteq> RPending" by (auto simp: list_ex_iff)
  then have "advances calm db (fst (updateCampaigns ce (\<lambda>r. cmId r = cmId c) (\<lambda>r. r\<lparr>cmStatus := CmSent, cmCompletedAt := Some now\<rparr>) db))"
    using assms(2) sent_row by (intro advances_campaigns [OF assms(1)]) force
  with False assms(3) show ?thesis by (auto simp: finishStep_def row_simps)
qed (use assms in \<open>auto simp: finishStep_def advances_refl\<close>)

lemma filter_updateWhere_same:
  "(\<And>r. r \<in> set t \<Longrightarrow> p r \<Longrightarrow> \<not> P r \<and> \<not> P (f r)) \<Longrightarrow> filter P (updateWhere p f t) = filter P t"
  by (induction t) (auto simp: updateWhere_def)

lemma find_only:
  assumes "\<And>r. r \<in> set t \<Longrightarrow> p r \<Longrightarrow> r = x" and "x \<in> set t" and "p x"
  shows "List.find p t = Some x"
proof (cases "List.find p t")
  case None
  with assms(2,3) show ?thesis by (auto simp: find_None_iff_all)
next
  case (Some y)
  with assms(1) show ?thesis by (auto dest: find_Some_in)
qed

lemma rampSize_le: "rampSize n \<le> 5000"
proof -
  have "WARMUP_BATCH_SIZES ! min n (length WARMUP_BATCH_SIZES - 1) \<in> set WARMUP_BATCH_SIZES"
    by (rule nth_mem) (simp add: WARMUP_BATCH_SIZES_def)
  moreover have "\<forall>x\<in>set WARMUP_BATCH_SIZES. x \<le> 5000" by (simp add: WARMUP_BATCH_SIZES_def)
  ultimately show ?thesis by (auto simp: rampSize_def)
qed

fun stepStatus :: "stepOutcome \<Rightarrow> campaignStatus" where
  "stepStatus SSending = CmSending"
| "stepStatus SPaused = CmPaused"
| "stepStatus SSent = CmSent"

text \<open>
  The release of a healthy sending campaign: both releases succeed, the recipients of the two batches are
  queued and no other changes, and the campaign is sent exactly when nothing is left pending.
\<close>

lemma release_step:
  assumes inv: "campInv calm db" and live: "liveRow c db" and sending: "cmStatus c = CmSending"
  obtains db2 db3 db4 s f where "release ce c (warmRows c db) 0 now db = Inr (db2, length (warmRows c db))"
    "releaseCold ce c now db2 = Inr (db3, length (coldBatch c now db))"
    "finishStep ce c now (length (warmRows c db) + length (coldBatch c now db)) db3 = (db4, s)" "advances calm db db4"
    "srQueued s = length (warmRows c db) + length (coldBatch c now db)"
    "\<exists>c'\<in>set (campaigns db4). cmStatus c' = stepStatus (srOutcome s) \<and> ramped c now (coldBatch c now db) c'"
    "srOutcome s = (if list_ex (\<lambda>r. rpCampaign r = cmId c \<and> rpStatus r = RPending) (recipients db4) then SSending else SSent)"
    "recipients db4 = map f (recipients db)"
    "\<forall>r\<in>set (recipients db). if r \<in> set (warmRows c db) \<union> set (coldBatch c now db)
       then rpStatus (f r) = RQueued \<and> rpQueuedAt (f r) = Some now \<and> rpBatch (f r) = Some (if rpCold r then cmWarmupStep c + 1 else 0)
       else f r = r"
proof -
  note ok = liveRow_only(1) [OF inv live]
  let ?warm = "warmRows c db" and ?cold = "coldBatch c now db"
  from release_succeeds [OF inv pending_releasable(1) [OF inv ok], where ce = ce and n = 0 and now = now]
  obtain db2 m where two: "release ce c ?warm 0 now db = Inr (db2, length ?warm)" "advances calm db db2" "campaigns db2 = campaigns db"
    "recipients db2 = updateWhere (\<lambda>x. rpId x \<in> rpId ` set ?warm) (\<lambda>x. queueRecipient 0 (m (rpId x)) now x) (recipients db)" .
  have inv2: "campInv calm db2" and c2: "c \<in> set (campaigns db2)" using two(2,3) live by (simp_all add: advances_def liveRow_def)
  have apart: "r \<in> set (recipients db) \<Longrightarrow> s \<in> set (recipients db) \<Longrightarrow> rpId r = rpId s \<Longrightarrow> r = s" for r s
    using inv unfolding campInv_def by (blast intro: distinct_key_eq)
  have warm: "r \<in> set (recipients db) \<and> \<not> rpCold r" if "r \<in> set ?warm" for r
    using that by (auto simp: warmRows_def pendingOf_def dest: in_set_takeD)
  have coldSet: "r \<in> set (recipients db) \<and> rpCold r" if "r \<in> set ?cold" for r
    using that set_orderedLimit_subset by (fastforce simp: coldBatch_def coldRows_def pendingOf_def split: if_splits)
  have "pendingOf c True db2 = pendingOf c True db"
  proof -
    have "filter (\<lambda>r. rpCampaign r = cmId c \<and> rpStatus r = RPending \<and> rpCold r) (recipients db2) =
        filter (\<lambda>r. rpCampaign r = cmId c \<and> rpStatus r = RPending \<and> rpCold r) (recipients db)"
      unfolding two(4) using warm apart
      by (intro filter_updateWhere_same) (auto simp: queueRecipient_def)
    then show ?thesis by (simp add: pendingOf_def)
  qed
  then have batch: "coldBatch c now db2 = ?cold" by (simp add: coldBatch_def coldRows_def)
  from releaseCold_succeeds [OF inv2 c2 sending, where ce = ce and now = now, unfolded batch]
  obtain db3 m' where three: "releaseCold ce c now db2 = Inr (db3, length ?cold)" "advances calm db2 db3"
    "\<forall>x\<in>set (campaigns db3). cmId x = cmId c \<longrightarrow> campaignOk calm x \<and> cmStatus x = CmSending \<and> ramped c now ?cold x"
    "recipients db3 = updateWhere (\<lambda>x. rpId x \<in> rpId ` set ?cold) (\<lambda>x. queueRecipient (cmWarmupStep c + 1) (m' (rpId x)) now x)
       (recipients db2)" .
  obtain db4 s where fin: "finishStep ce c now (length ?warm + length ?cold) db3 = (db4, s)" by fastforce
  have "campInv calm db3" using three(2) by (simp add: advances_def)
  from finishStep_advances [OF this _ fin] three(3)
  have four: "advances calm db3 db4 \<and> recipients db4 = recipients db3 \<and> mailbox db4 = mailbox db3 \<and> srQueued s = length ?warm + length ?cold \<and>
    (if list_ex (\<lambda>r. rpCampaign r = cmId c \<and> rpStatus r = RPending) (recipients db3)
     then srOutcome s = SSending \<and> campaigns db4 = campaigns db3
     else srOutcome s = SSent \<and> campaigns db4 = updateWhere (\<lambda>r. cmId r = cmId c)
       (\<lambda>r. r\<lparr>cmStatus := CmSent, cmCompletedAt := Some now, cmUpdatedAt := ceDbNow ce\<rparr>) (campaigns db3))" by blast
  have adv: "advances calm db db4" using two(2) three(2) four advances_trans by blast
  from three(2) c2 obtain c3 where c3: "c3 \<in> set (campaigns db3)" "cmId c3 = cmId c"
    by (force simp: advances_def evolves_def later_def)
  with three(3) have c3': "cmStatus c3 = CmSending" "ramped c now ?cold c3" by blast+
  have camp: "\<exists>c'\<in>set (campaigns db4). cmStatus c' = stepStatus (srOutcome s) \<and> ramped c now ?cold c'"
  proof (cases "list_ex (\<lambda>r. rpCampaign r = cmId c \<and> rpStatus r = RPending) (recipients db3)")
    case True
    with four c3 c3' show ?thesis by auto
  next
    case False
    with four have eq: "srOutcome s = SSent" "campaigns db4 = updateWhere (\<lambda>r. cmId r = cmId c)
       (\<lambda>r. r\<lparr>cmStatus := CmSent, cmCompletedAt := Some now, cmUpdatedAt := ceDbNow ce\<rparr>) (campaigns db3)" by simp_all
    show ?thesis unfolding eq using c3 c3' by (intro updateWhere_ex [OF c3(1)]) (simp add: ramped_def)
  qed
  define f where "f = (\<lambda>r. if rpId r \<in> rpId ` set ?cold then queueRecipient (cmWarmupStep c + 1) (m' (rpId r)) now r
      else if rpId r \<in> rpId ` set ?warm then queueRecipient 0 (m (rpId r)) now r else r)"
  have ids: "rpId r \<in> rpId ` set ?warm \<longleftrightarrow> r \<in> set ?warm" "rpId r \<in> rpId ` set ?cold \<longleftrightarrow> r \<in> set ?cold"
    if "r \<in> set (recipients db)" for r
    using that warm coldSet apart by (auto intro: imageI)
  have rs: "recipients db4 = map f (recipients db)"
    unfolding four [THEN conjunct2, THEN conjunct1] three(4) two(4) updateWhere_def map_map f_def
    using warm coldSet apart by (intro map_cong refl) (auto simp: queueRecipient_def)
  have per: "if r \<in> set ?warm \<union> set ?cold
     then rpStatus (f r) = RQueued \<and> rpQueuedAt (f r) = Some now \<and> rpBatch (f r) = Some (if rpCold r then cmWarmupStep c + 1 else 0)
     else f r = r" if "r \<in> set (recipients db)" for r
    using ids [OF that] warm coldSet by (auto simp: f_def queueRecipient_def)
  show ?thesis
    by (rule that [OF two(1) three(1) fin adv _ camp _ rs]) (use four per in \<open>auto split: if_splits\<close>)
qed

lemma advanceOne_advances:
  assumes inv: "campInv calm db" and fresh: "freshRecipients ce i db"
  obtains db' s where "advanceOne ce locked i now db = Inr (db', s)" "advances calm db db'"
    "\<And>r. s = Some r \<Longrightarrow> \<exists>c\<in>set (campaigns db'). cmId c = i \<and> cmStatus c = stepStatus (srOutcome r)"
proof (cases "List.find (\<lambda>c. cmId c = i \<and> (cmStatus c = CmScheduled \<or> cmStatus c = CmSending)) (campaigns db)")
  case None
  then show ?thesis using that advances_refl [OF inv] by (simp add: advanceOne_def)
next
  case (Some c)
  then have live: "liveRow c db" and i: "cmId c = i" by (auto simp: liveRow_def dest: find_Some_in)
  show ?thesis
  proof (cases "locked \<or> \<not> bsAllowed (bulkSenderStatusOf ce)")
    case True
    then have "advanceOne ce locked i now db = Inr (if locked then (db, None)
        else (setPaused ce (cmId c) (bsMessage (bulkSenderStatusOf ce)) db, Some \<lparr>srQueued = 0, srOutcome = SPaused\<rparr>))"
      using Some by (cases locked) (simp_all add: advanceOne_def)
    then show ?thesis
      using that advances_refl [OF inv] setPaused_advances [OF inv live] setPaused_status [OF live] i by (cases locked) simp_all
  next
    case False
    obtain db1 c1 where b: "beginSending ce c now db = (db1, c1)" by fastforce
    with beginSending_advances [OF inv live, of ce now] fresh i
    have one: "advances calm db db1" "liveRow c1 db1" "cmStatus c1 = CmSending" "cmId c1 = i" by simp_all
    then have inv1: "campInv calm db1" by (simp add: advances_def)
    show ?thesis
    proof (cases "chUnhealthy (coldHealth ce c1 db1)")
      case True
      let ?db = "setPaused ce (cmId c1) (chReason (coldHealth ce c1 db1)) db1"
      have "advanceOne ce locked i now db = Inr (?db, Some \<lparr>srQueued = 0, srOutcome = SPaused\<rparr>)"
        using Some False b True by (simp add: advanceOne_def)
      then show ?thesis
        by (rule that [OF _ advances_trans [OF one(1) setPaused_advances [OF inv1 one(2)]]])
          (use setPaused_status [OF one(2)] one(4) in auto)
    next
      case healthy: False
      obtain db2 db3 db4 s where rel:
        "release ce c1 (warmRows c1 db1) 0 now db1 = Inr (db2, length (warmRows c1 db1))"
        "releaseCold ce c1 now db2 = Inr (db3, length (coldBatch c1 now db1))"
        "finishStep ce c1 now (length (warmRows c1 db1) + length (coldBatch c1 now db1)) db3 = (db4, s)" "advances calm db1 db4"
        "\<exists>c'\<in>set (campaigns db4). cmStatus c' = stepStatus (srOutcome s) \<and> ramped c1 now (coldBatch c1 now db1) c'"
        by (rule release_step [OF inv1 one(2,3), of ce now]) (rule that; assumption)
      have "advanceOne ce locked i now db = Inr (db4, Some s)"
        using Some False b healthy rel(1-3) by (simp add: advanceOne_def)
      then show ?thesis
        by (rule that [OF _ advances_trans [OF one(1) rel(4)]]) (use rel(5) one(4) in \<open>auto simp: ramped_def\<close>)
    qed
  qed
qed

section \<open>Feedback\<close>

lemma feedback_advances:
  assumes inv: "campInv calm db" and run: "recordProviderFeedback now ev db = (db', ans)"
  shows "advances calm db db'"
proof -
  have sup: "advances calm db (suppressAddress t inp db)" for t inp
    using inv by (intro advances_fields) (simp_all add: row_simps campInv_def)
  show ?thesis
  proof (cases "feType ev \<in> {FHardBounce, FComplaint}")
    case False
    then show ?thesis using run sup advances_refl [OF inv]
      by (cases "feType ev") (auto simp: recordProviderFeedback_def Let_def)
  next
    case True
    note eff = bounce_effect [OF this run]
    have tables: "campaigns db' = campaigns db" "mailbox db' = mailbox db"
      using True run by (auto simp: recordProviderFeedback_def Let_def row_simps split: option.splits)
    show ?thesis
    proof (cases "matchedSend (normalizeAddress (feEmail ev)) (feedbackSince now ev) (feCampaign ev) (recipients db)")
      case None
      with eff(3) tables inv show ?thesis by (intro advances_fields) (simp_all add: campInv_def)
    next
      case (Some m)
      let ?f = "\<lambda>x. x\<lparr>rpStatus := bounceStatus ev\<rparr>"
      let ?db1 = "db\<lparr>recipients := updateWhere (\<lambda>x. rpId x = rpId m) ?f (recipients db)\<rparr>"
      from Some have m: "m \<in> set (recipients db)" "rpStatus m = RQueued" by (auto dest: matchedSend_queued)
      have "advances calm db ?db1"
      proof (rule advances_recipients [OF inv])
        fix x assume x: "x \<in> set (recipients db)" "rpId x = rpId m"
        with inv m(1) have "x = m" unfolding campInv_def by (blast intro: distinct_key_eq)
        moreover have "recipientOk calm db m" using inv m(1) by (simp add: campInv_def)
        ultimately show "recipientLater x (?f x) \<and> recipientOk calm db (?f x)" using m(2)
          by (simp add: recipientLater_def recipientPhase_def recipientKey_def recipientOk_def bounceStatus_def)
      qed
      moreover from this have "advances calm ?db1 db'"
        using eff(3) Some tables by (intro advances_fields) (simp_all add: advances_def campInv_def)
      ultimately show ?thesis by (rule advances_trans)
    qed
  qed
qed

section \<open>The machine\<close>

text \<open>
  One step per transaction. Every step may run in an environment of its own (ids, clock, sender). People,
  workspaces, contacts and suppressions may change in any way between two steps; the outbox changes by
  its own operations. \<open>resumeCampaign\<close> and \<open>cancelCampaign\<close> are several statements without a lock on the
  campaign, so whole runs of the machine may come between them; in a \<^emph>\<open>calm\<close> machine nothing does. (An
  advance and a start hold the campaign's row from their first statement on; a report of a bounce holds
  the suppression it upserts first.)
\<close>

inductive campStep :: "bool \<Rightarrow> mailDb \<Rightarrow> mailDb \<Rightarrow> bool" for calm :: bool where
  stepCreate:
    "createCampaign ce newId org user inp db = Inr (db', row) \<Longrightarrow> newId \<notin> cmId ` set (campaigns db) \<Longrightarrow> uuidText newId \<Longrightarrow>
     campStep calm db db'"
| stepUpdate: "updateCampaign ce i org inp db = Inr (db', row) \<Longrightarrow> campStep calm db db'"
| stepStart:
    "startCampaign ce now i org sendAt db = Inr (db', ans) \<Longrightarrow> freshRecipients ce i db \<Longrightarrow> campStep calm db db'"
| stepPause: "pauseCampaign ce i org reason db = Inr (db', row) \<Longrightarrow> campStep calm db db'"
| stepResume:
    "(\<And>x. (campStep calm)\<^sup>*\<^sup>* x (between x)) \<Longrightarrow> (\<And>x. calm \<Longrightarrow> between x = x) \<Longrightarrow>
     resumeCampaign ce between now i org db = (db', res) \<Longrightarrow> campStep calm db db'"
| stepCancel:
    "(\<And>n x. (campStep calm)\<^sup>*\<^sup>* x (meanwhile n x)) \<Longrightarrow> (\<And>n x. calm \<Longrightarrow> meanwhile n x = x) \<Longrightarrow>
     cancelCampaign ce meanwhile now i org db = (db', res) \<Longrightarrow> campStep calm db db'"
| stepAdvance:
    "advanceOne ce locked i now db = Inr (db', s) \<Longrightarrow> freshRecipients ce i db \<Longrightarrow> campStep calm db db'"
| stepFeedback: "recordProviderFeedback now ev db = (db', fr) \<Longrightarrow> campStep calm db db'"
| stepPeople:
    "campaigns db' = campaigns db \<Longrightarrow> recipients db' = recipients db \<Longrightarrow> mailbox db' = mailbox db \<Longrightarrow> campStep calm db db'"
| stepEnqueue:
    "enqueueEmail i now dbNow inp (mailbox db) = Inr (t, mail, b) \<Longrightarrow> campStep calm db (db\<lparr>mailbox := t\<rparr>)"
| stepClaimMail: "claimDueEmails locks now limit (mailbox db) = (t, claimed) \<Longrightarrow> campStep calm db (db\<lparr>mailbox := t\<rparr>)"
| stepSettleMail:
    "campStep calm db (db\<lparr>mailbox := updateWhere (\<lambda>r. obId r = i) (settle now a c) (mailbox db)\<rparr>)"
| stepCancelMail: "cancelEmail i (mailbox db) = (t, b) \<Longrightarrow> campStep calm db (db\<lparr>mailbox := t\<rparr>)"

definition campInit :: "mailDb \<Rightarrow> bool" where
  "campInit db \<longleftrightarrow> campaigns db = [] \<and> recipients db = [] \<and> mailbox db = []"

lemma enqueue_mailKeys:
  assumes "enqueueEmail i now dbNow inp t = Inr (t', row, b)" and "distinct (mailKeys t)"
  shows "set (mailKeys t) \<subseteq> set (mailKeys t') \<and> distinct (mailKeys t')"
proof (cases "outboxKey inp")
  case None
  with assms show ?thesis by (auto simp: enqueueEmail_def Let_def mailKeys_def newOutboxRow_def split: option.splits)
next
  case (Some k)
  moreover from assms(1) have "checkEmail inp = None" by (auto simp: enqueueEmail_def split: option.splits)
  ultimately show ?thesis using enqueue_keys [OF _ _ assms(2), of inp k i now dbNow] assms(1) by (metis Inr_inject prod.inject)
qed

text \<open>What comes between two statements of a request keeps the invariant too.\<close>

lemma run_advances:
  assumes "(\<lambda>x y. campStep calm x y \<and> (campInv calm x \<longrightarrow> advances calm x y))\<^sup>*\<^sup>* db db'" and "campInv calm db"
  shows "advances calm db db'"
  using assms
proof (induction rule: rtranclp_induct)
  case (step y z)
  then have "advances calm db y" by simp
  moreover from this have "campInv calm y" by (simp add: advances_def)
  ultimately show ?case using step.hyps(2) advances_trans by blast
qed (rule advances_refl)

lemma campStep_advances: "campStep calm db db' \<Longrightarrow> campInv calm db \<Longrightarrow> advances calm db db'"
proof (induction rule: campStep.induct)
  case (stepAdvance ce locked i now db db' s)
  from advanceOne_advances [OF stepAdvance.prems stepAdvance.hyps(2), of locked now] stepAdvance.hyps(1)
  show ?case by (metis Inr_inject prod.inject)
next
  case (stepResume between ce now i org db db' res)
  show ?case
    by (rule resume_advances [OF stepResume.prems stepResume.hyps(2)])
      (use run_advances [OF stepResume.IH] stepResume.hyps(1) in auto)
next
  case (stepCancel meanwhile ce now i org db db' res)
  show ?case
    by (rule cancel_advances [OF stepCancel.prems stepCancel.hyps(2)])
      (use run_advances [OF stepCancel.IH] stepCancel.hyps(1) in auto)
next
  case (stepPeople db' db)
  then show ?case by (intro advances_fields) (simp_all add: campInv_def)
next
  case (stepEnqueue i now dbNow inp db t mail b)
  then have "distinct (mailKeys (mailbox db))" by (simp add: campInv_def)
  from enqueue_mailKeys [OF stepEnqueue.hyps this] show ?case using stepEnqueue.prems by (intro advances_mailbox) auto
next
  case (stepClaimMail locks now limit db t claimed)
  then have "map obKey t = map obKey (mailbox db)"
    using claim_table [of locks now limit "mailbox db"] by (simp add: markRows_def map_updateWhere startSending_def)
  then have "mailKeys t = mailKeys (mailbox db)" by (rule mailKeys_same)
  with stepClaimMail.prems show ?case by (intro advances_mailbox) (simp_all add: campInv_def)
next
  case (stepSettleMail db i now a c)
  have "mailKeys (updateWhere (\<lambda>r. obId r = i) (settle now a c) (mailbox db)) = mailKeys (mailbox db)"
    by (rule mailKeys_same) (rule map_updateWhere, rule settle_fields)
  with stepSettleMail.prems show ?case by (intro advances_mailbox) (simp_all add: campInv_def)
next
  case (stepCancelMail i db t b)
  then have "mailKeys t = mailKeys (mailbox db)"
    by (intro mailKeys_same) (auto simp: cancelEmail_def map_updateWhere)
  with stepCancelMail.prems show ?case by (intro advances_mailbox) (simp_all add: campInv_def)
qed (blast intro: create_advances update_advances start_advances pause_advances feedback_advances)+

interpretation campaignMachine: machine campInit "campStep calm" "campInv calm" for calm
  by unfold_locales (auto simp: campInit_def campInv_def mailKeys_def advances_def dest: campStep_advances)

lemma run_evolves: "(campStep calm)\<^sup>*\<^sup>* db db' \<Longrightarrow> campInv calm db \<Longrightarrow> evolves calm db db'"
proof (induction rule: rtranclp_induct)
  case (step y z)
  have "campInv calm y" by (rule campaignMachine.inv_run [OF step.hyps(1) step.prems])
  with step.hyps(2) have "evolves calm y z" using campStep_advances by (simp add: advances_def)
  with step.IH [OF step.prems] show ?case by (rule evolves_trans)
qed simp

end
