(* ===== verification/CampaignProofs.thy ===== *)
theory CampaignProofs
  imports CampaignSystem
begin

text \<open>
  The properties of campaigns over the machine of \<open>CampaignSystem\<close>, and the runs their witnesses use.
\<close>

section \<open>Properties\<close>

lemma one_mail:
  assumes "distinct (mailKeys t)" and "Some k \<in> set (mailKeys t)"
  shows "length (filter (\<lambda>m. obKey m = Some k) t) = 1"
proof -
  have "length (filter (\<lambda>m. obKey m = Some k) t) = count_list (mailKeys t) (Some k)"
    by (induction t) (auto simp: mailKeys_def)
  moreover have "count_list (mailKeys t) (Some k) = 1"
    using assms by (simp add: distinct_count_atmost_1 flip: count_mset)
  ultimately show ?thesis by simp
qed

text \<open>
  C11. In every reachable state of the mailing tables, whatever comes between the statements of a resume or
  a cancel: campaigns and recipients are unique (a contact is at most once in a campaign), a recipient that
  still waits has a clean address and belongs to a campaign, and everyone who was queued has exactly one
  mail in the outbox under the recipient's key. If each resume and cancel runs in one go (calm), a
  recipient waits only for a campaign that started and is not finished, so a sent or cancelled campaign
  has nobody waiting. (Without that condition it may have, see cancel_races_a_start below.)
\<close>

theorem campaign_system_invariant:
  assumes "reachable campInit (campStep calm) db"
  shows "distinct (map cmId (campaigns db)) \<and> distinct (map recipientKey (recipients db)) \<and>
    (\<forall>r\<in>set (recipients db). rpStatus r = RPending \<longrightarrow> cleanAddress (rpEmail r) \<and>
       (\<exists>c\<in>set (campaigns db). cmId c = rpCampaign r \<and>
          (calm \<longrightarrow> cmStatus c \<in> {CmSending, CmPaused} \<and> cmStartedAt c \<noteq> None))) \<and>
    (calm \<longrightarrow> (\<forall>c\<in>set (campaigns db). cmStatus c \<in> {CmSent, CmCancelled} \<longrightarrow>
       (\<forall>r\<in>set (recipients db). rpCampaign r = cmId c \<longrightarrow> rpStatus r \<noteq> RPending))) \<and>
    (\<forall>r\<in>set (recipients db). rpStatus r \<in> {RQueued, RBounced, RComplained} \<longrightarrow> rpQueuedAt r \<noteq> None \<and>
       length (filter (\<lambda>m. obKey m = Some (campaignKey (rpCampaign r) (rpContact r))) (mailbox db)) = 1)"
proof -
  have inv: "campInv calm db" by (rule campaignMachine.inv_reachable [OF assms])
  have two: "cmStatus c \<in> {CmSending, CmPaused} \<and> cmStartedAt c \<noteq> None" if "phase c = 2" "campaignOk True c" for c
    using that by (cases "cmStatus c") (auto simp: phase_def campaignOk_def split: if_splits)
  have rows: "recipientOk calm db r" if "r \<in> set (recipients db)" for r using inv that by (simp add: campInv_def)
  have "rpStatus r \<noteq> RPending"
    if calm "c \<in> set (campaigns db)" "cmStatus c \<in> {CmSent, CmCancelled}" "r \<in> set (recipients db)" "rpCampaign r = cmId c" for c r
    using no_pending_before [OF _ that(2) _ that(4,5)] inv that(1,3) by (auto simp: phase_def)
  moreover have "\<exists>c\<in>set (campaigns db). cmId c = rpCampaign r \<and> (calm \<longrightarrow> cmStatus c \<in> {CmSending, CmPaused} \<and> cmStartedAt c \<noteq> None)"
    if "r \<in> set (recipients db)" "rpStatus r = RPending" for r
  proof -
    from rows [OF that(1)] that(2) obtain c where c: "c \<in> set (campaigns db)" "cmId c = rpCampaign r" "calm \<Longrightarrow> phase c = 2"
      by (auto simp: recipientOk_def)
    have "campaignOk calm c" using inv c(1) by (simp add: campInv_def)
    with two [of c] c(3) have "calm \<Longrightarrow> cmStatus c \<in> {CmSending, CmPaused} \<and> cmStartedAt c \<noteq> None" by simp
    with c(1,2) show ?thesis by blast
  qed
  moreover have "rpQueuedAt r \<noteq> None \<and> length (filter (\<lambda>m. obKey m = Some (campaignKey (rpCampaign r) (rpContact r))) (mailbox db)) = 1"
    if "r \<in> set (recipients db)" "rpStatus r \<in> {RQueued, RBounced, RComplained}" for r
    using rows [OF that(1)] that(2) inv one_mail unfolding recipientOk_def campInv_def by blast
  moreover have "cleanAddress (rpEmail r)" if "r \<in> set (recipients db)" "rpStatus r = RPending" for r
    using rows [OF that(1)] that(2) by (simp add: recipientOk_def)
  ultimately show ?thesis using inv unfolding campInv_def by blast
qed

text \<open>
  C34. However a run goes on, and whatever comes between the statements of a resume or a cancel: no campaign
  and no recipient is lost; a campaign never returns to the draft, keeps its content once it left it and
  stays started, and its warm-up step never falls; a recipient is queued or skipped at most once and after
  that at most bounces or complains, keeping its time, its batch and its mail. If each resume and cancel
  runs in one go (calm), a campaign only moves forward (draft, waiting, started, finished), keeps its
  first start, and a sent or cancelled row never changes again. (Without that condition a resume brings a
  cancelled campaign back, see resume_undoes_a_cancel below.)
\<close>

theorem campaign_lifecycle:
  assumes "reachable campInit (campStep calm) db" and "(campStep calm)\<^sup>*\<^sup>* db db'"
  shows "(\<forall>c\<in>set (campaigns db). \<exists>c'\<in>set (campaigns db'). later calm c c') \<and>
    (\<forall>r\<in>set (recipients db). \<exists>r'\<in>set (recipients db'). recipientLater r r') \<and>
    (\<forall>c\<in>set (campaigns db). cmStatus c \<noteq> CmDraft \<longrightarrow> (\<exists>c'\<in>set (campaigns db'). cmId c' = cmId c \<and>
       cmStatus c' \<noteq> CmDraft \<and> (cmSubject c', cmText c', cmHtml c') = (cmSubject c, cmText c, cmHtml c))) \<and>
    (calm \<longrightarrow> (\<forall>c\<in>set (campaigns db). cmStatus c \<in> {CmSent, CmCancelled} \<longrightarrow> c \<in> set (campaigns db')))"
proof -
  have "evolves calm db db'" by (rule run_evolves [OF assms(2) campaignMachine.inv_reachable [OF assms(1)]])
  then have ev: "\<forall>c\<in>set (campaigns db). \<exists>c'\<in>set (campaigns db'). later calm c c'"
    "\<forall>r\<in>set (recipients db). \<exists>r'\<in>set (recipients db'). recipientLater r r'"
    by (simp_all add: evolves_def)
  have same: "c' = c" if "later calm c c'" calm "cmStatus c \<in> {CmSent, CmCancelled}" for c c'
    using that by (auto simp: later_def phase_def)
  have draft: "phase c = 0 \<longleftrightarrow> cmStatus c = CmDraft" for c
    by (cases "cmStatus c") (simp_all add: phase_def)
  have kept: "cmId c' = cmId c \<and> cmStatus c' \<noteq> CmDraft \<and> (cmSubject c', cmText c', cmHtml c') = (cmSubject c, cmText c, cmHtml c)"
    if "later calm c c'" "cmStatus c \<noteq> CmDraft" for c c'
    using that by (simp add: later_def draft)
  from ev(1) same have "calm \<Longrightarrow> c \<in> set (campaigns db')"
    if "c \<in> set (campaigns db)" "cmStatus c \<in> {CmSent, CmCancelled}" for c
    using that by metis
  moreover from ev(1) kept have "\<exists>c'\<in>set (campaigns db'). cmId c' = cmId c \<and>
       cmStatus c' \<noteq> CmDraft \<and> (cmSubject c', cmText c', cmHtml c') = (cmSubject c, cmText c, cmHtml c)"
    if "c \<in> set (campaigns db)" "cmStatus c \<noteq> CmDraft" for c
    using that by meson
  ultimately show ?thesis using ev by blast
qed

text \<open>
  C36. A step of the runner never fails: in every reachable state the transaction commits, whatever the
  sender configuration, the health of the campaign or the lock, because every recipient it picks is one
  that the outbox accepts; and the outcome it reports is the status the campaign is left in.
\<close>

theorem advance_never_fails:
  assumes "reachable campInit (campStep calm) db" and "freshRecipients ce i db"
  shows "\<exists>db' s. advanceOne ce locked i now db = Inr (db', s) \<and>
    (case s of None \<Rightarrow> db' = db
     | Some r \<Rightarrow> \<exists>c\<in>set (campaigns db'). cmId c = i \<and> cmStatus c = stepStatus (srOutcome r))"
proof -
  from advanceOne_advances [OF campaignMachine.inv_reachable [OF assms(1)] assms(2), of locked now]
  obtain db' s where run: "advanceOne ce locked i now db = Inr (db', s)"
    and st: "s = Some r \<Longrightarrow> \<exists>c\<in>set (campaigns db'). cmId c = i \<and> cmStatus c = stepStatus (srOutcome r)" for r
    by (metis (no_types, lifting))
  have "db' = db" if "s = None"
    using run that by (auto simp: advanceOne_def ebind_Inr_iff split: option.splits if_splits prod.splits)
  with run st show ?thesis by (cases s) auto
qed

text \<open>Both batches take every recipient there is, or are full; the cold one takes the oldest.\<close>

lemma warm_complete:
  assumes "r \<in> set (pendingOf c False db)" and "r \<notin> set (warmRows c db)"
  shows "length (warmRows c db) = 500"
proof (rule ccontr)
  assume "length (warmRows c db) \<noteq> 500"
  then have "warmRows c db = pendingOf c False db" by (auto simp: warmRows_def CAMPAIGN_RELEASE_CHUNK_def)
  with assms show False by simp
qed

lemma cold_complete:
  assumes "coldBatchDue c now" and "r \<in> set (pendingOf c True db)" and "r \<notin> set (coldBatch c now db)"
  shows "length (coldBatch c now db) = rampSize (cmWarmupStep c) \<and> (\<forall>q\<in>set (coldBatch c now db). rpCreatedAt q \<le> rpCreatedAt r)"
  using assms orderedLimit_full [OF assms(2), of rpCreatedAt "rampSize (cmWarmupStep c)"]
    orderedLimit_minimal [OF _ assms(2), of _ rpCreatedAt "rampSize (cmWarmupStep c)"]
  by (auto simp: coldBatch_def coldRows_def)


section \<open>A run\<close>

definition exampleCampaignEnv :: campaignEnv where
  "exampleCampaignEnv = \<lparr>ceSender = \<lparr>biFromEmail = ''news@shop.de'', biPlatformEmailFrom = ''mail@platform.dev'',
       biSmtpConfigured = True, biPlatformDomain = None\<rparr>,
     ceToken = exampleTokenEnv, ceBrand = ''Shop'', ceVars = (\<lambda>_. None), ceDbNow = 1,
     ceRecipientId = (\<lambda>c k. k), ceOutboxId = (\<lambda>r. r), ceToFixed = (\<lambda>_ _. [])\<rparr>"

definition examplePeople :: mailDb where
  "examplePeople = exampleMailDb\<lparr>recipients := [], contacts := [exampleContact\<lparr>ctEmail := ''ann@shop.org''\<rparr>]\<rparr>"

definition resultOf :: "mailDb \<Rightarrow> 'e + mailDb \<times> 'a \<Rightarrow> mailDb" where
  "resultOf d r = (case r of Inr (d', _) \<Rightarrow> d' | Inl _ \<Rightarrow> d)"

definition exampleDrafted :: mailDb where
  "exampleDrafted = resultOf examplePeople (createCampaign exampleCampaignEnv ''c1'' ''o1'' None
     \<lparr>ccName = ''News'', ccSubject = ''Hello'', ccText = ''Hi'', ccHtml = None\<rparr> examplePeople)"

definition exampleSending :: mailDb where
  "exampleSending = resultOf exampleDrafted (startCampaign exampleCampaignEnv 5 ''c1'' ''o1'' None exampleDrafted)"

text \<open>The ids the next transaction draws.\<close>

definition exampleNextEnv :: campaignEnv where
  "exampleNextEnv = exampleCampaignEnv\<lparr>ceRecipientId := (\<lambda>c k. ''n'' @ k)\<rparr>"

definition exampleDone :: mailDb where
  "exampleDone = resultOf exampleSending (advanceOne exampleNextEnv False ''c1'' 6 exampleSending)"

lemma resultOf_run: "isl r = False \<Longrightarrow> \<exists>x. r = Inr (resultOf d r, x)"
  by (cases r) (auto simp: resultOf_def)

lemma drafted_reachable: "reachable campInit (campStep True) exampleDrafted"
proof -
  let ?run = "createCampaign exampleCampaignEnv ''c1'' ''o1'' None
     \<lparr>ccName = ''News'', ccSubject = ''Hello'', ccText = ''Hi'', ccHtml = None\<rparr> examplePeople"
  have "isl ?run = False" by code_simp
  from resultOf_run [OF this] obtain x where "?run = Inr (exampleDrafted, x)" unfolding exampleDrafted_def by blast
  then have "campStep True examplePeople exampleDrafted"
    by (rule stepCreate) (simp_all add: examplePeople_def exampleMailDb_def uuidText_def jsSpace_def)
  moreover have "reachable campInit (campStep True) examplePeople"
    by (rule reach_init) (simp add: campInit_def examplePeople_def exampleMailDb_def)
  ultimately show ?thesis by (rule reach_step [rotated])
qed

lemma freshRecipients_one:
  assumes "ctId ` set (contacts db) = {k}" and "uuidText k" and "ceRecipientId ce i k \<notin> rpId ` set (recipients db)"
  shows "freshRecipients ce i db"
proof -
  from assms(1) have "ctId c = k" if "c \<in> set (contacts db)" for c using that by blast
  with assms show ?thesis by (auto simp: freshRecipients_def)
qed

lemma example_uuid: "uuidText ''k1''" by (simp add: uuidText_def jsSpace_def)

lemma example_fresh: "freshRecipients exampleCampaignEnv ''c1'' exampleDrafted"
proof (rule freshRecipients_one [OF _ example_uuid])
  show "ctId ` set (contacts exampleDrafted) = {''k1''}" by code_simp
  show "ceRecipientId exampleCampaignEnv ''c1'' ''k1'' \<notin> rpId ` set (recipients exampleDrafted)" by code_simp
qed

lemma example_fresh2: "freshRecipients exampleNextEnv ''c1'' exampleSending"
proof (rule freshRecipients_one [OF _ example_uuid])
  show "ctId ` set (contacts exampleSending) = {''k1''}" by code_simp
  show "ceRecipientId exampleNextEnv ''c1'' ''k1'' \<notin> rpId ` set (recipients exampleSending)" by code_simp
qed

lemma sending_reachable: "reachable campInit (campStep True) exampleSending"
proof -
  let ?run = "startCampaign exampleCampaignEnv 5 ''c1'' ''o1'' None exampleDrafted"
  have "isl ?run = False" by code_simp
  from resultOf_run [OF this] obtain x where "?run = Inr (exampleSending, x)" unfolding exampleSending_def by blast
  then have "campStep True exampleDrafted exampleSending" by (rule stepStart) (rule example_fresh)
  with drafted_reachable show ?thesis by (rule reach_step)
qed

lemma done_run: "\<exists>x. advanceOne exampleNextEnv False ''c1'' 6 exampleSending = Inr (exampleDone, x)"
  unfolding exampleDone_def by (rule resultOf_run) code_simp

lemma done_step: "campStep True exampleSending exampleDone"
  using done_run example_fresh2 by (blast intro: stepAdvance)

lemmas done_reachable = reach_step [OF sending_reachable done_step]

theorem campaign_system_invariant_witness:
  "length (filter (\<lambda>m. obKey m = Some (campaignKey ''c1'' ''k1'')) (mailbox exampleDone)) = 1"
proof -
  have "map (\<lambda>r. (rpStatus r, rpCampaign r, rpContact r)) (recipients exampleDone) = [(RQueued, ''c1'', ''k1'')]" by code_simp
  then obtain r where "r \<in> set (recipients exampleDone)" "rpStatus r = RQueued" "rpCampaign r = ''c1''" "rpContact r = ''k1''"
    by (auto simp: map_eq_Cons_conv)
  with campaign_system_invariant [OF done_reachable] show ?thesis by fastforce
qed

theorem campaign_lifecycle_witness:
  "\<exists>c\<in>set (campaigns exampleSending). cmStatus c = CmSending \<and> (\<exists>c'\<in>set (campaigns exampleDone). cmStatus c' = CmSent \<and> later True c c')"
proof -
  have "map cmStatus (campaigns exampleSending) = [CmSending]" "map cmStatus (campaigns exampleDone) = [CmSent]" by code_simp+
  then obtain c c' where rows: "campaigns exampleSending = [c]" "cmStatus c = CmSending" "campaigns exampleDone = [c']" "cmStatus c' = CmSent"
    by (auto simp: map_eq_Cons_conv)
  from campaign_lifecycle [OF sending_reachable r_into_rtranclp [of "campStep True", OF done_step]] have "later True c c'" by (simp add: rows)
  with rows show ?thesis by simp
qed

theorem advance_never_fails_witness:
  "\<exists>db' s. advanceOne exampleNextEnv False ''c1'' 6 exampleSending = Inr (db', s) \<and>
    (case s of None \<Rightarrow> db' = exampleSending
     | Some r \<Rightarrow> \<exists>c\<in>set (campaigns db'). cmId c = ''c1'' \<and> cmStatus c = stepStatus (srOutcome r))"
  by (rule advance_never_fails [OF sending_reachable example_fresh2])


text \<open>
  What a run that is not calm can do. \<open>resumeCampaign\<close> of a campaign that never started reads it, and then
  updates it by its id alone, so a cancel committed in between is undone. And \<open>cancelCampaign\<close> takes no
  lock on the campaign before its last statement, so a start that commits inside it leaves its recipients
  waiting for a cancelled campaign.
\<close>

lemma resume_undoes_a_cancel:
  "let waiting = resultOf exampleDrafted (startCampaign exampleCampaignEnv 5 ''c1'' ''o1'' (Some 99) exampleDrafted);
       paused = resultOf waiting (pauseCampaign exampleCampaignEnv ''c1'' ''o1'' None waiting);
       cancel = (\<lambda>d. fst (cancelCampaign exampleCampaignEnv (\<lambda>_ x. x) 7 ''c1'' ''o1'' d))
   in map cmStatus (campaigns (cancel paused)) = [CmCancelled] \<and>
      map cmStatus (campaigns (fst (resumeCampaign exampleCampaignEnv cancel 8 ''c1'' ''o1'' paused))) = [CmScheduled]"
  unfolding Let_def by (rule conjI; code_simp)

lemma cancel_races_a_start:
  "let waiting = resultOf exampleDrafted (startCampaign exampleCampaignEnv 5 ''c1'' ''o1'' (Some 99) exampleDrafted);
       start = (\<lambda>n d. if n = 2 then resultOf d (startCampaign exampleCampaignEnv 6 ''c1'' ''o1'' None d) else d);
       after = fst (cancelCampaign exampleCampaignEnv start 7 ''c1'' ''o1'' waiting)
   in map cmStatus (campaigns after) = [CmCancelled] \<and> map rpStatus (recipients after) = [RPending]"
  unfolding Let_def by (rule conjI; code_simp)

end
