(* ===== verification/JobRunner.thy ===== *)
theory JobRunner
  imports ScheduledJobs CampaignProofs
begin

text \<open>
  \<^verbatim>\<open>src/jobs/runner.ts\<close>: the in-process loop that runs due jobs, releases campaigns and delivers the
  outbox. First what one tick does to the tables, where the three services meet; then the loop of timers
  and ticks as a machine. The environment is a parameter; the tick's duration and the log lines are left
  out, and the clock is the \<open>now\<close> of the tick.
\<close>

section \<open>Tuning\<close>

definition DEFAULT_TICK_MS :: ms where "DEFAULT_TICK_MS = 30000"

definition jobsEnabled :: "(string \<Rightarrow> string option) \<Rightarrow> bool" where
  "jobsEnabled env =
     (let v = toLowerCase (case env ''JOBS_ENABLED'' of Some x \<Rightarrow> x | None \<Rightarrow> ''1'')
      in v \<noteq> ''0'' \<and> v \<noteq> ''false'')"

definition tickIntervalMs :: "(string \<Rightarrow> string option) \<Rightarrow> rat" where
  "tickIntervalMs env =
     (case env ''JOBS_TICK_MS'' of
        None \<Rightarrow> of_int DEFAULT_TICK_MS
      | Some raw \<Rightarrow> (case jsNumber raw of
            Some v \<Rightarrow> if v \<ge> 1000 then v else of_int DEFAULT_TICK_MS
          | None \<Rightarrow> of_int DEFAULT_TICK_MS))"

section \<open>One tick\<close>

text \<open>What the three services draw from the world in one tick.\<close>

record tickWorld =
  twJobs :: jobRuntime
  twRegistry :: "jobHandler jobDefinition list"
  twJobIds :: "jobRow \<Rightarrow> uuid \<times> ms"
  twLockedJobs :: "uuid set"
  twCampaigns :: campaignEnv
  twLockedCampaigns :: "uuid \<Rightarrow> bool"
  twLockedMail :: "uuid set"
  twSend :: "outboxRow \<Rightarrow> sendAttempt"

record tickResult =
  trNow :: ms
  trJobs :: runDueResult
  trCampaigns :: advanceResult
  trEmails :: deliverResult

text \<open>The jobs' tables and the mailing tables; both views have the one outbox.\<close>

record runnerDb =
  rnJobs :: jobsDb
  rnMail :: mailDb

definition withOutbox :: "outboxRow list \<Rightarrow> runnerDb \<Rightarrow> runnerDb" where
  "withOutbox t db = db\<lparr>rnJobs := (rnJobs db)\<lparr>outbox := t\<rparr>, rnMail := (rnMail db)\<lparr>mailbox := t\<rparr>\<rparr>"

definition jobsStage :: "tickWorld \<Rightarrow> ms \<Rightarrow> runnerDb \<Rightarrow> runnerDb \<times> runDueResult" where
  "jobsStage w now db =
     (case runDueScheduledJobs (twJobs w) (twRegistry w) (twJobIds w) (twLockedJobs w) now None (rnJobs db) of
        (j, res) \<Rightarrow> (withOutbox (outbox j) (db\<lparr>rnJobs := j\<rparr>), res))"

definition campaignStage :: "tickWorld \<Rightarrow> ms \<Rightarrow> runnerDb \<Rightarrow> runnerDb \<times> advanceResult" where
  "campaignStage w now db =
     (case advanceCampaigns (twCampaigns w) (twLockedCampaigns w) now (rnMail db) of
        (m, res) \<Rightarrow> (withOutbox (mailbox m) (db\<lparr>rnMail := m\<rparr>), res))"

text \<open>\<open>runJobsTick\<close>: the tables, the messages that left, and the result or the error that ends the tick.\<close>

definition runJobsTick :: "tickWorld \<Rightarrow> ms \<Rightarrow> runnerDb \<Rightarrow> runnerDb \<times> outgoing list \<times> (string + tickResult)" where
  "runJobsTick w now db =
     (let (db1, jr) = jobsStage w now db;
          (db2, ar) = campaignStage w now db1;
          (t, sent, r) = deliverDueEmails (twLockedMail w) (twSend w) now None (mailbox (rnMail db2))
      in (withOutbox t db2, sent,
          (case r of Inl e \<Rightarrow> Inl e
           | Inr er \<Rightarrow> Inr \<lparr>trNow = now, trJobs = jr, trCampaigns = ar, trEmails = er\<rparr>)))"

text \<open>\<open>tickOnce\<close> logs what happened and never throws.\<close>

definition tickOnce :: "tickWorld \<Rightarrow> ms \<Rightarrow> runnerDb \<Rightarrow> runnerDb" where
  "tickOnce w now db = fst (runJobsTick w now db)"

lemma withOutbox_mailbox [row_simps]: "mailbox (rnMail (withOutbox t db)) = t" "outbox (rnJobs (withOutbox t db)) = t"
  by (simp_all add: withOutbox_def)

section \<open>The loop\<close>

text \<open>
  The module's variables and what the JavaScript runtime holds for them: \<open>rlPending\<close> the timers that are
  set, \<open>rlTimer\<close> the handle the code kept, \<open>rlActive\<close> the ticks under way and \<open>rlTicking\<close> the one the
  code knows.
\<close>

record runnerLoop =
  rlTimer :: "nat option"
  rlPending :: "(nat \<times> rat) list"
  rlNextId :: nat
  rlRunning :: bool
  rlTicking :: "nat option"
  rlActive :: "nat list"

definition runnerInit :: runnerLoop where
  "runnerInit = \<lparr>rlTimer = None, rlPending = [], rlNextId = 0, rlRunning = False, rlTicking = None, rlActive = []\<rparr>"

definition schedule :: "rat \<Rightarrow> runnerLoop \<Rightarrow> runnerLoop" where
  "schedule delayMs s =
     (if \<not> rlRunning s then s
      else s\<lparr>rlTimer := Some (rlNextId s), rlPending := rlPending s @ [(rlNextId s, delayMs)], rlNextId := rlNextId s + 1\<rparr>)"

text \<open>The timer callback up to its await, and after it.\<close>

definition tickStarts :: "nat \<times> rat \<Rightarrow> runnerLoop \<Rightarrow> runnerLoop" where
  "tickStarts t s =
     s\<lparr>rlPending := remove1 t (rlPending s), rlTimer := None, rlTicking := Some (fst t), rlActive := rlActive s @ [fst t]\<rparr>"

definition tickEnds :: "(string \<Rightarrow> string option) \<Rightarrow> nat \<Rightarrow> runnerLoop \<Rightarrow> runnerLoop" where
  "tickEnds env i s = schedule (tickIntervalMs env) (s\<lparr>rlActive := remove1 i (rlActive s), rlTicking := None\<rparr>)"

definition startJobRunner :: "(string \<Rightarrow> string option) \<Rightarrow> rat option \<Rightarrow> runnerLoop \<Rightarrow> runnerLoop" where
  "startJobRunner env initialDelayMs s =
     (if rlRunning s then s
      else schedule (case initialDelayMs of Some d \<Rightarrow> d | None \<Rightarrow> tickIntervalMs env) (s\<lparr>rlRunning := True\<rparr>))"

text \<open>\<open>stopJobRunner\<close> up to its await; it then waits for the tick in \<open>rlTicking\<close>, if there is one.\<close>

definition stopJobRunner :: "runnerLoop \<Rightarrow> runnerLoop" where
  "stopJobRunner s =
     (if \<not> rlRunning s then s
      else (case rlTimer s of
              None \<Rightarrow> s\<lparr>rlRunning := False\<rparr>
            | Some i \<Rightarrow> s\<lparr>rlRunning := False, rlTimer := None, rlPending := filter (\<lambda>t. fst t \<noteq> i) (rlPending s)\<rparr>))"

text \<open>\<open>awaited\<close>: the runner is started again only after the tick that a stop waits for has ended.\<close>

inductive runnerStep :: "bool \<Rightarrow> runnerLoop \<Rightarrow> runnerLoop \<Rightarrow> bool" for awaited :: bool where
  runnerStart: "(awaited \<Longrightarrow> rlRunning s \<or> rlTicking s = None) \<Longrightarrow> runnerStep awaited s (startJobRunner env d s)"
| runnerStop: "runnerStep awaited s (stopJobRunner s)"
| runnerFire: "t \<in> set (rlPending s) \<Longrightarrow> runnerStep awaited s (tickStarts t s)"
| runnerTicked: "i \<in> set (rlActive s) \<Longrightarrow> runnerStep awaited s (tickEnds env i s)"

inductive_cases runnerStepE: "runnerStep awaited s s'"

definition runnerInv :: "runnerLoop \<Rightarrow> bool" where
  "runnerInv s \<longleftrightarrow>
     (case rlTimer s of None \<Rightarrow> rlPending s = [] | Some i \<Rightarrow> \<exists>d. rlPending s = [(i, d)]) \<and>
     (case rlTicking s of None \<Rightarrow> rlActive s = [] | Some i \<Rightarrow> rlActive s = [i]) \<and>
     (rlTimer s = None \<or> rlTicking s = None) \<and>
     (if rlRunning s then rlTimer s \<noteq> None \<or> rlTicking s \<noteq> None else rlTimer s = None)"

lemmas runner_ops = startJobRunner_def stopJobRunner_def tickStarts_def tickEnds_def schedule_def

lemma runnerInv_start: "runnerInv s \<Longrightarrow> rlRunning s \<or> rlTicking s = None \<Longrightarrow> runnerInv (startJobRunner env d s)"
  by (cases "rlTimer s"; cases "rlTicking s"; cases "rlRunning s") (simp_all add: runnerInv_def runner_ops)

lemma runnerInv_stop: "runnerInv s \<Longrightarrow> runnerInv (stopJobRunner s)"
  by (cases "rlTimer s"; cases "rlRunning s") (auto simp: runnerInv_def runner_ops)

lemma runnerInv_fire: "runnerInv s \<Longrightarrow> t \<in> set (rlPending s) \<Longrightarrow> runnerInv (tickStarts t s)"
  by (cases "rlTimer s"; cases "rlTicking s"; cases "rlRunning s") (auto simp: runnerInv_def runner_ops)

lemma runnerInv_ticked: "runnerInv s \<Longrightarrow> i \<in> set (rlActive s) \<Longrightarrow> runnerInv (tickEnds env i s)"
  by (cases "rlTimer s"; cases "rlTicking s"; cases "rlRunning s") (simp_all add: runnerInv_def runner_ops)

lemma runnerInv_step: "runnerInv s \<Longrightarrow> runnerStep True s s' \<Longrightarrow> runnerInv s'"
  by (erule runnerStepE) (auto intro: runnerInv_start runnerInv_stop runnerInv_fire runnerInv_ticked)

interpretation jobRunner: machine "\<lambda>s. s = runnerInit" "runnerStep True" runnerInv
proof unfold_locales
  fix s assume "s = runnerInit"
  then show "runnerInv s" by (simp add: runnerInit_def runnerInv_def)
next
  fix s s' assume "runnerInv s" and "runnerStep True s s'"
  then show "runnerInv s'" by (rule runnerInv_step)
qed

text \<open>
  Started again only after a stop has settled, the runner has one timer or one tick while it runs, and
  no timer once it is stopped.
\<close>

lemma runner_has_one_loop:
  assumes "reachable (\<lambda>s. s = runnerInit) (runnerStep True) s"
  shows "length (rlPending s) + length (rlActive s) \<le> 1 \<and> (rlRunning s \<longrightarrow> length (rlPending s) + length (rlActive s) = 1) \<and>
    (\<not> rlRunning s \<longrightarrow> rlPending s = [])"
  using jobRunner.inv_reachable [OF assms] by (auto simp: runnerInv_def split: option.splits if_splits)

text \<open>Otherwise there can be two loops, of which a stop ends one.\<close>

lemma restarted_runner_has_two_loops:
  "let s1 = tickStarts (0, 5) (startJobRunner (\<lambda>_. None) (Some 5) runnerInit);
       s2 = tickEnds (\<lambda>_. None) 0 (startJobRunner (\<lambda>_. None) (Some 5) (stopJobRunner s1))
   in rlActive s1 = [0] \<and> map fst (rlPending s2) = [1, 2] \<and> map fst (rlPending (stopJobRunner s2)) = [1]"
  by code_simp

section \<open>Properties\<close>

text \<open>
  A tick delivers what it queued: mail that the jobs and the campaigns of a tick put into the outbox
  is delivered by the same tick, at most fifty messages; when no more are due and nobody else holds one,
  nothing is left due at the tick's time, and every message counts as sent, retried or failed.
\<close>

theorem tick_delivers_what_it_queued:
  assumes "jobsStage w now db = (db1, jr)" and "campaignStage w now db1 = (db2, ar)"
    and "runJobsTick w now db = (db', sent, Inr res)" and "twLockedMail w = {}" and "\<And>c. saMeanwhile (twSend w c) = (\<lambda>x. x)"
    and "distinct (map obId (mailbox (rnMail db2)))"
  shows "trJobs res = jr \<and> trCampaigns res = ar \<and> outbox (rnJobs db') = mailbox (rnMail db') \<and>
    length sent \<le> 50 \<and>
    drClaimed (trEmails res) = min 50 (length (filter (dueEmail now) (mailbox (rnMail db2)))) \<and>
    drSent (trEmails res) + drRetried (trEmails res) + drFailed (trEmails res) = drClaimed (trEmails res) \<and>
    (length (filter (dueEmail now) (mailbox (rnMail db2))) \<le> 50 \<longrightarrow> (\<forall>r\<in>set (mailbox (rnMail db')). \<not> dueEmail now r))"
proof -
  let ?t = "mailbox (rnMail db2)"
  obtain t1 rows where claim: "claimDueEmails {} now None ?t = (t1, rows)" by fastforce
  from assms(1-4) obtain t' er where run: "deliverDueEmails {} (twSend w) now None ?t = (t', sent, Inr er)"
    and db': "db' = withOutbox t' db2" and res: "res = \<lparr>trNow = now, trJobs = jr, trCampaigns = ar, trEmails = er\<rparr>"
    by (auto simp: runJobsTick_def Let_def split: prod.splits sum.splits)
  have limit: "deliverLimit None = 50" by (simp add: deliverLimit_def)
  note pass = quiet_pass [OF assms(6,5) claim run]
  have "length rows = length (pickDue obId (dueEmail now) obSendAt {} 50 ?t)"
    using claim limit by (auto simp: claimDueEmails_def Let_def)
  then have rows: "length rows = min 50 (length (filter (dueEmail now) ?t))"
    by (simp add: pickDue_def length_orderedLimit_eq)
  have sent: "sent = map messageOf (filter (\<lambda>c. saError (twSend w c) = None) rows)"
    and counts: "drClaimed er = length rows" "drSent er + drRetried er + drFailed er = length rows"
    by (rule pass [THEN conjunct2, THEN conjunct2, THEN conjunct1], rule pass [THEN conjunct1],
        rule pass [THEN conjunct2, THEN conjunct1])
  have "length sent \<le> 50" using rows length_filter_le [of _ rows] unfolding sent length_map by (metis min.boundedE)
  moreover have "\<forall>r\<in>set t'. \<not> dueEmail now r" if "length (filter (dueEmail now) ?t) \<le> 50"
  proof
    fix r assume r: "r \<in> set t'"
    have "length (filter (dueEmail now) ?t) \<le> deliverLimit None" using that unfolding limit .
    then show "\<not> dueEmail now r" by (rule quiet_pass_clears [OF assms(6,5) claim run _ r])
  qed
  ultimately show ?thesis using counts rows unfolding db' res row_simps tickResult.simps by metis
qed

definition exampleWorld :: tickWorld where
  "exampleWorld = \<lparr>twJobs = exampleRuntime,
     twRegistry = [\<lparr>jdKind = ''digest'', jdHandler = (\<lambda>_. exampleRun\<lparr>ruMails := [(''m1'', 5, 5, exampleJobMail)]\<rparr>), jdDescription = []\<rparr>],
     twJobIds = (\<lambda>_. (''h0'', 0)), twLockedJobs = {},
     twCampaigns = exampleCampaignEnv, twLockedCampaigns = (\<lambda>_. False), twLockedMail = {}, twSend = (\<lambda>_. exampleAttempt None)\<rparr>"

definition exampleRunnerDb :: runnerDb where
  "exampleRunnerDb = \<lparr>rnJobs = exampleJobsDb, rnMail = examplePeople\<rparr>"

theorem tick_delivers_what_it_queued_witness:
  "\<exists>db' sent res. runJobsTick exampleWorld 5 exampleRunnerDb = (db', sent, Inr res) \<and>
     drClaimed (trEmails res) = 1 \<and> \<not> list_ex (dueEmail 5) (mailbox (rnMail db'))"
proof -
  let ?j = "jobsStage exampleWorld 5 exampleRunnerDb"
  let ?c = "campaignStage exampleWorld 5 (fst ?j)"
  let ?tick = "runJobsTick exampleWorld 5 exampleRunnerDb"
  have "isl (snd (snd ?tick)) = False" by code_simp
  then obtain res where "snd (snd ?tick) = Inr res" by (cases "snd (snd ?tick)") simp_all
  then have run: "?tick = (fst ?tick, fst (snd ?tick), Inr res)" by (metis prod.collapse)
  have stages: "?j = (fst ?j, snd ?j)" "?c = (fst ?c, snd ?c)" by simp_all
  have due: "length (filter (dueEmail 5) (mailbox (rnMail (fst ?c)))) = 1" by code_simp
  have ids: "distinct (map obId (mailbox (rnMail (fst ?c))))" by code_simp
  have free: "twLockedMail exampleWorld = {}" and quiet: "\<And>c. saMeanwhile (twSend exampleWorld c) = (\<lambda>x. x)"
    by (simp_all add: exampleWorld_def exampleAttempt_def)
  from tick_delivers_what_it_queued [OF stages run free quiet ids] due
  have "drClaimed (trEmails res) = 1" "\<forall>r\<in>set (mailbox (rnMail (fst ?tick))). \<not> dueEmail 5 r" by simp_all
  with run show ?thesis by (metis list_ex_iff)
qed

end
