(* ===== verification/JsDecimal.thy ===== *)
theory JsDecimal
  imports JsText
begin

text \<open>
  The numbers a spreadsheet holds, as the finite decimals they are read from: \<open>Dec m k\<close> is
  \<open>m / 10 ^ k\<close> with the least such \<open>k\<close>. \<open>decimalOf\<close> is \<open>Number(s)\<close> of a plain decimal literal and
  \<open>numberToString\<close> is \<open>String(n)\<close>, with the exponent form ECMAScript uses from \<open>1e21\<close> and below
  \<open>1e-6\<close>. The decimals are exact, so a literal of more than fifteen significant digits, which a
  double rounds, is outside the model.
\<close>

section \<open>Values\<close>

datatype jsDecimal = Dec int nat

fun normDec :: "int \<Rightarrow> nat \<Rightarrow> jsDecimal" where
  "normDec m 0 = Dec m 0"
| "normDec m (Suc k) = (if m mod 10 = 0 then normDec (m div 10) k else Dec m (Suc k))"

fun canonicalDec :: "jsDecimal \<Rightarrow> bool" where
  "canonicalDec (Dec m k) \<longleftrightarrow> k = 0 \<or> m mod 10 \<noteq> 0"

section \<open>Reading\<close>

text \<open>The sign, the digits before the point and those after it, of \<^verbatim>\<open>/^-?\d+(\.\d+)?$/\<close>.\<close>

definition plainNumber :: "string \<Rightarrow> (bool \<times> string \<times> string) option" where
  "plainNumber s =
     (let (neg, body) = (case s of c # r \<Rightarrow> if c = CHR ''-'' then (True, r) else (False, s) | [] \<Rightarrow> (False, s));
          whole = takeWhile isDigit body
      in if whole = [] then None
         else (case dropWhile isDigit body of
             [] \<Rightarrow> Some (neg, whole, [])
           | c # fracDigits \<Rightarrow>
               if c = CHR ''.'' \<and> fracDigits \<noteq> [] \<and> list_all isDigit fracDigits then Some (neg, whole, fracDigits) else None))"

definition isPlainNumberText :: "string \<Rightarrow> bool" where
  "isPlainNumberText s \<longleftrightarrow> plainNumber s \<noteq> None"

definition decimalOf :: "bool \<times> string \<times> string \<Rightarrow> jsDecimal" where
  "decimalOf parts =
     (case parts of (neg, whole, fracDigits) \<Rightarrow>
        (let n = int (digitsVal (whole @ fracDigits)) in normDec (if neg then - n else n) (length fracDigits)))"

section \<open>Printing\<close>

fun stripZeros :: "string \<Rightarrow> string" where
  "stripZeros s = rev (dropWhile (\<lambda>c. c = CHR ''0'') (rev s))"

text \<open>\<open>ds\<close> are the significant digits and \<open>n\<close> is the position of the point.\<close>

definition exponentForm :: "string \<Rightarrow> int \<Rightarrow> string" where
  "exponentForm ds n =
     (let e = n - 1 in
      take 1 ds @ (if length ds > 1 then ''.'' @ drop 1 ds else []) @ ''e'' @
      (if e < 0 then ''-'' @ decimal (nat (- e)) else ''+'' @ decimal (nat e)))"

definition magnitudeText :: "nat \<Rightarrow> nat \<Rightarrow> string" where
  "magnitudeText m k =
     (let ds = decimal m; n = int (length ds) - int k
      in if k = 0 then (if length ds \<le> 21 then ds else exponentForm (stripZeros ds) n)
         else if 0 < n then take (nat n) ds @ ''.'' @ drop (nat n) ds
         else if - 6 < n then ''0.'' @ replicate (nat (- n)) (CHR ''0'') @ ds
         else exponentForm ds n)"

fun numberToString :: "jsDecimal \<Rightarrow> string" where
  "numberToString (Dec m k) =
     (if m < 0 then CHR ''-'' # magnitudeText (nat (- m)) k else magnitudeText (nat m) k)"

section \<open>Lemmas\<close>

lemma normDec_canonical: "canonicalDec (normDec m k)"
  by (induction m k rule: normDec.induct) auto

lemma normDec_of_canonical: "canonicalDec (Dec m k) \<Longrightarrow> normDec m k = Dec m k"
  by (cases k) auto

lemma normDec_neg: "normDec (- m) k = (case normDec m k of Dec a b \<Rightarrow> Dec (- a) b)"
proof (induction m k rule: normDec.induct)
  case (2 m k)
  show ?case
  proof (cases "m mod 10 = 0")
    case True
    then have "(- m) mod 10 = 0" "(- m) div 10 = - (m div 10)"
      by (simp_all add: zmod_zminus1_eq_if zdiv_zminus1_eq_if)
    with True 2 show ?thesis by simp
  next
    case False
    then have "(- m) mod 10 \<noteq> 0" by (simp add: zmod_zminus1_eq_if)
    with False show ?thesis by simp
  qed
qed simp

lemma digitsVal_Cons_zeros: "digitsVal (replicate n (CHR ''0'') @ ds) = digitsVal ds"
proof -
  have "foldl (\<lambda>n c. 10 * n + digitVal c) 0 (replicate n (CHR ''0'')) = 0"
    by (induction n) (simp_all add: digitVal_def)
  then show ?thesis by (simp add: digitsVal_def)
qed

lemma list_all_decimal: "list_all isDigit (decimal n)"
  using decimal_digits by (auto simp: list_all_iff)

lemma not_digit_minus [simp]: "\<not> isDigit (CHR ''-'')" "\<not> isDigit (CHR ''.'')"
  by (simp_all add: isDigit_def)

lemma plainNumber_whole:
  assumes "list_all isDigit ds" and "ds \<noteq> []"
  shows "plainNumber ds = Some (False, ds, [])" and "plainNumber (CHR ''-'' # ds) = Some (True, ds, [])"
proof -
  have tw: "takeWhile isDigit ds = ds" "dropWhile isDigit ds = []"
    using assms(1) by (simp_all add: list_all_iff)
  obtain c r where ds: "ds = c # r" using assms(2) by (cases ds) auto
  then have "c \<noteq> CHR ''-''" using assms(1) by (auto simp: isDigit_def)
  then show "plainNumber ds = Some (False, ds, [])"
    using tw assms(2) by (simp add: plainNumber_def Let_def ds)
  show "plainNumber (CHR ''-'' # ds) = Some (True, ds, [])"
    using assms(2) by (simp add: plainNumber_def Let_def tw)
qed

lemma takeWhile_point:
  assumes "list_all isDigit ds"
  shows "takeWhile isDigit (ds @ CHR ''.'' # es) = ds" and "dropWhile isDigit (ds @ CHR ''.'' # es) = CHR ''.'' # es"
  using assms by (induction ds) auto

lemma plainNumber_point:
  assumes "list_all isDigit ds" and "ds \<noteq> []" and "list_all isDigit es" and "es \<noteq> []"
  shows "plainNumber (ds @ CHR ''.'' # es) = Some (False, ds, es)"
    and "plainNumber (CHR ''-'' # ds @ CHR ''.'' # es) = Some (True, ds, es)"
proof -
  obtain c r where ds: "ds = c # r" using assms(2) by (cases ds) auto
  then have "c \<noteq> CHR ''-''" using assms(1) by (auto simp: isDigit_def)
  then show "plainNumber (ds @ CHR ''.'' # es) = Some (False, ds, es)"
    using takeWhile_point [OF assms(1)] assms by (simp add: plainNumber_def Let_def ds)
  show "plainNumber (CHR ''-'' # ds @ CHR ''.'' # es) = Some (True, ds, es)"
    using takeWhile_point [OF assms(1)] assms by (simp add: plainNumber_def Let_def)
qed

text \<open>The plain form: neither an exponent nor rounding.\<close>

fun plainRange :: "jsDecimal \<Rightarrow> bool" where
  "plainRange (Dec m k) \<longleftrightarrow>
     (let d = length (decimal (nat \<bar>m\<bar>)) in if k = 0 then d \<le> 21 else int d - int k > - 6)"

lemma magnitude_parts:
  assumes "if k = 0 then length (decimal m) \<le> 21 else int (length (decimal m)) - int k > - 6"
  shows "\<exists>w f. plainNumber (magnitudeText m k) = Some (False, w, f) \<and>
               plainNumber (CHR ''-'' # magnitudeText m k) = Some (True, w, f) \<and>
               digitsVal (w @ f) = m \<and> length f = k \<and> magnitudeText m k \<noteq> []"
proof (cases "k = 0")
  case True
  then show ?thesis using assms plainNumber_whole [OF list_all_decimal [of m] decimal_nonempty]
    by (simp add: magnitudeText_def Let_def)
next
  case False
  let ?n = "int (length (decimal m)) - int k"
  have digits: "list_all isDigit (take i (decimal m))" "list_all isDigit (drop i (decimal m))" for i
    using list_all_decimal by (auto simp: list_all_iff dest: in_set_takeD in_set_dropD)
  have z: "list_all isDigit ''0''" "list_all isDigit (replicate i (CHR ''0'') @ decimal m)" for i
    using list_all_decimal by (auto simp: list_all_iff isDigit_def)
  show ?thesis
  proof (cases "0 < ?n")
    case True
    then have ne: "take (nat ?n) (decimal m) \<noteq> []" "drop (nat ?n) (decimal m) \<noteq> []" using False by auto
    show ?thesis
      using plainNumber_point [OF digits(1) ne(1) digits(2) ne(2)] False True
      by (auto simp: magnitudeText_def Let_def)
  next
    case small: False
    let ?f = "replicate (nat (- ?n)) (CHR ''0'') @ decimal m"
    have "plainNumber (''0'' @ CHR ''.'' # ?f) = Some (False, ''0'', ?f)"
      "plainNumber (CHR ''-'' # ''0'' @ CHR ''.'' # ?f) = Some (True, ''0'', ?f)"
      by (rule plainNumber_point [OF z(1) _ z(2)]; simp)+
    moreover have "magnitudeText m k = ''0'' @ CHR ''.'' # ?f"
      using False small assms by (simp add: magnitudeText_def Let_def)
    moreover have "digitsVal (''0'' @ ?f) = m"
      using digitsVal_Cons_zeros [of "Suc (nat (- ?n))" "decimal m"] by simp
    moreover have "length ?f = k" using small by simp
    ultimately show ?thesis by (metis append_Cons list.distinct(1))
  qed
qed

text \<open>\<open>Number(String(n)) = n\<close>.\<close>

lemma number_roundtrip:
  assumes "canonicalDec n" and "plainRange n"
  shows "\<exists>p. plainNumber (numberToString n) = Some p \<and> decimalOf p = n"
proof (cases n)
  case (Dec m k)
  let ?m = "nat \<bar>m\<bar>"
  have "if k = 0 then length (decimal ?m) \<le> 21 else int (length (decimal ?m)) - int k > - 6"
    using assms(2) Dec by (simp add: Let_def)
  from magnitude_parts [OF this] obtain w f where p:
    "plainNumber (magnitudeText ?m k) = Some (False, w, f)"
    "plainNumber (CHR ''-'' # magnitudeText ?m k) = Some (True, w, f)"
    "digitsVal (w @ f) = ?m" "length f = k" by blast
  have norm: "normDec m k = Dec m k" using assms(1) Dec normDec_of_canonical by blast
  show ?thesis
  proof (cases "m < 0")
    case True
    then show ?thesis using p norm Dec by (auto simp: decimalOf_def Let_def)
  next
    case False
    then show ?thesis using p norm Dec by (auto simp: decimalOf_def Let_def)
  qed
qed

end
