(* ===== verification/UploadTypes.thy ===== *)
theory UploadTypes
  imports JsText
begin

text \<open>
  \<^verbatim>\<open>src/utils/upload-types.ts\<close>: the one allowlist of file types, the check every upload route
  makes, and the policy it shows the browser. A type is named by its id, a string, so that the filter
  on \<open>allow\<close> is the one the code has; \<open>id in UPLOAD_TYPES\<close> is membership of the table (the names an
  object inherits are no ids of the type \<open>UploadTypeId\<close>). Sizes are integers.
\<close>

section \<open>The table\<close>

type_synonym uploadTypeId = string

record uploadTypeSpec =
  utsId :: uploadTypeId
  utsLabel :: string
  utsExtensions :: "string list"
  utsContentTypes :: "string list"

definition UPLOAD_TYPE_IDS :: "uploadTypeId list" where
  "UPLOAD_TYPE_IDS = [''pdf'', ''jpeg'', ''png'', ''doc'', ''docx'', ''csv'', ''xlsx'']"

definition UPLOAD_TYPES :: "(uploadTypeId \<times> uploadTypeSpec) list" where
  "UPLOAD_TYPES = [
     (''pdf'', \<lparr>utsId = ''pdf'', utsLabel = ''PDF'', utsExtensions = [''.pdf''],
        utsContentTypes = [''application/pdf'']\<rparr>),
     (''jpeg'', \<lparr>utsId = ''jpeg'', utsLabel = ''JPEG image'', utsExtensions = [''.jpg'', ''.jpeg''],
        utsContentTypes = [''image/jpeg'']\<rparr>),
     (''png'', \<lparr>utsId = ''png'', utsLabel = ''PNG image'', utsExtensions = [''.png''],
        utsContentTypes = [''image/png'']\<rparr>),
     (''doc'', \<lparr>utsId = ''doc'', utsLabel = ''Word document (legacy)'', utsExtensions = [''.doc''],
        utsContentTypes = [''application/msword'']\<rparr>),
     (''docx'', \<lparr>utsId = ''docx'', utsLabel = ''Word document'', utsExtensions = [''.docx''],
        utsContentTypes = [''application/vnd.openxmlformats-officedocument.wordprocessingml.document'']\<rparr>),
     (''csv'', \<lparr>utsId = ''csv'', utsLabel = ''CSV spreadsheet'', utsExtensions = [''.csv''],
        utsContentTypes = [''text/csv'', ''application/csv'', ''application/vnd.ms-excel'']\<rparr>),
     (''xlsx'', \<lparr>utsId = ''xlsx'', utsLabel = ''Excel spreadsheet'', utsExtensions = [''.xlsx''],
        utsContentTypes = [''application/vnd.openxmlformats-officedocument.spreadsheetml.sheet'']\<rparr>)]"

definition MAX_UPLOAD_BYTES :: int where
  "MAX_UPLOAD_BYTES = 20 * 1024 * 1024"

section \<open>Checking\<close>

datatype uploadRejectionCode =
    MissingFilename | MissingContentType | ExtensionNotAllowed | ContentTypeNotAllowed
  | TypeMismatch | EmptyFile | TooLarge

record uploadCheckOk =
  ukType :: uploadTypeSpec
  ukExtension :: string
  ukContentType :: string

record uploadCheckFailure =
  ufCode :: uploadRejectionCode
  ufMessage :: string

type_synonym uploadCheckResult = "uploadCheckFailure + uploadCheckOk"

record uploadCheckOptions =
  uoAllow :: "uploadTypeId list option"
  uoMaxBytes :: "int option"

record uploadCandidate =
  ucFilename :: string
  ucContentType :: string
  ucSizeBytes :: "int option"

definition defaultUploadOptions :: uploadCheckOptions where
  "defaultUploadOptions = \<lparr>uoAllow = None, uoMaxBytes = None\<rparr>"

text \<open>\<^verbatim>\<open>filename.split(/[\\/]/).pop()\<close>: what follows the last slash or backslash.\<close>

definition basename :: "string \<Rightarrow> string" where
  "basename s = rev (takeWhile (\<lambda>c. c \<noteq> CHR ''/'' \<and> c \<noteq> CHR 0x5C) (rev s))"

definition extensionOf :: "string \<Rightarrow> string" where
  "extensionOf filename =
     (case splitLast (CHR ''.'') (basename (trim filename)) of
        None \<Rightarrow> []
      | Some (stem, ext) \<Rightarrow> if stem = [] \<or> ext = [] then [] else toLowerCase (CHR ''.'' # ext))"

definition normalizeContentType :: "string \<Rightarrow> string" where
  "normalizeContentType contentType = toLowerCase (trim (hd (splitOn (CHR '';'') contentType)))"

definition allowedTypes :: "uploadTypeId list option \<Rightarrow> uploadTypeSpec list" where
  "allowedTypes allow =
     map (\<lambda>i. the (map_of UPLOAD_TYPES i))
       (case allow of
          None \<Rightarrow> UPLOAD_TYPE_IDS
        | Some ids \<Rightarrow> filter (\<lambda>i. i \<in> fst ` set UPLOAD_TYPES) ids)"

definition typeList :: "uploadTypeSpec list \<Rightarrow> string" where
  "typeList types = joinWith '', '' (map (\<lambda>t. hd (utsExtensions t)) types)"

text \<open>\<open>Math.round(x / y)\<close> for integers, which rounds halves up.\<close>

definition roundDiv :: "int \<Rightarrow> int \<Rightarrow> int" where
  "roundDiv x y = (2 * x + y) div (2 * y)"

definition intText :: "int \<Rightarrow> string" where
  "intText n = (if n < 0 then CHR ''-'' # decimal (nat (- n)) else decimal (nat n))"

definition formatBytes :: "int \<Rightarrow> string" where
  "formatBytes bytes =
     (if bytes \<ge> 1024 * 1024 then intText (roundDiv bytes (1024 * 1024)) @ '' MB''
      else if bytes \<ge> 1024 then intText (roundDiv bytes 1024) @ '' KB''
      else intText bytes @ '' bytes'')"

definition uploadFailure :: "uploadRejectionCode \<Rightarrow> string \<Rightarrow> uploadCheckResult" where
  "uploadFailure c m = Inl \<lparr>ufCode = c, ufMessage = m\<rparr>"

definition maxBytesOf :: "uploadCheckOptions \<Rightarrow> int" where
  "maxBytesOf options =
     min (case uoMaxBytes options of Some n \<Rightarrow> n | None \<Rightarrow> MAX_UPLOAD_BYTES) MAX_UPLOAD_BYTES"

definition checkUpload :: "uploadCandidate \<Rightarrow> uploadCheckOptions \<Rightarrow> uploadCheckResult" where
  "checkUpload candidate options =
     (let types = allowedTypes (uoAllow options);
          maxBytes = maxBytesOf options;
          filename = trim (ucFilename candidate);
          extension = extensionOf filename;
          contentType = normalizeContentType (ucContentType candidate)
      in if filename = [] then uploadFailure MissingFilename ''The file needs a name.''
         else case List.find (\<lambda>t. extension \<in> set (utsExtensions t)) types of
           None \<Rightarrow> uploadFailure ExtensionNotAllowed
             ((if extension = [] then ''That file'' else extension) @
              '' is not an accepted file type. Accepted: '' @ typeList types @ ''.'')
         | Some byExtension \<Rightarrow>
             if contentType = []
             then uploadFailure MissingContentType ''The upload did not declare a content type.''
             else (case List.find (\<lambda>t. contentType \<in> set (utsContentTypes t)) types of
               None \<Rightarrow> uploadFailure ContentTypeNotAllowed
                 (contentType @ '' is not an accepted content type. Accepted: '' @ typeList types @ ''.'')
             | Some byContentType \<Rightarrow>
                 if utsId byExtension \<noteq> utsId byContentType
                 then uploadFailure TypeMismatch
                   (''This file is named '' @ extension @ '' but declares itself as '' @ contentType @
                    ''. Rename it or re-export it, then try again.'')
                 else if (case ucSizeBytes candidate of Some n \<Rightarrow> n \<le> 0 | None \<Rightarrow> False)
                 then uploadFailure EmptyFile ''That file is empty.''
                 else if (case ucSizeBytes candidate of Some n \<Rightarrow> n > maxBytes | None \<Rightarrow> False)
                 then uploadFailure TooLarge
                   (''That file is larger than the '' @ formatBytes maxBytes @ '' limit.'')
                 else Inr \<lparr>ukType = byExtension, ukExtension = extension, ukContentType = contentType\<rparr>))"

definition assertAllowedUpload :: "uploadCandidate \<Rightarrow> uploadCheckOptions \<Rightarrow> appError + uploadCheckOk" where
  "assertAllowedUpload candidate options =
     (case checkUpload candidate options of
        Inl failure \<Rightarrow> Inl (BadRequestError (ufMessage failure))
      | Inr result \<Rightarrow> Inr result)"

section \<open>What the browser is told\<close>

record uploadPolicy =
  upMaxBytes :: int
  upAccept :: string
  upTypes :: "uploadTypeSpec list"

text \<open>\<open>[...new Set(parts)]\<close> keeps the first occurrence of each part.\<close>

definition uniq :: "'a list \<Rightarrow> 'a list" where
  "uniq xs = rev (remdups (rev xs))"

definition acceptAttribute :: "uploadTypeId list option \<Rightarrow> string" where
  "acceptAttribute allow =
     joinWith '','' (uniq (concat (map (\<lambda>t. utsExtensions t @ utsContentTypes t) (allowedTypes allow))))"

definition describeUploadPolicy :: "uploadCheckOptions \<Rightarrow> uploadPolicy" where
  "describeUploadPolicy options =
     \<lparr>upMaxBytes = maxBytesOf options,
      upAccept = acceptAttribute (uoAllow options),
      upTypes = allowedTypes (uoAllow options)\<rparr>"

section \<open>Lemmas\<close>

lemma uniq_simps [simp]: "set (uniq xs) = set xs" "distinct (uniq xs)"
  by (simp_all add: uniq_def)

text \<open>An extension and a content type each belong to at most one type of the table.\<close>

definition typesApart :: "uploadTypeSpec \<Rightarrow> uploadTypeSpec \<Rightarrow> bool" where
  "typesApart s t \<longleftrightarrow>
     utsId s = utsId t \<or>
     (list_all (\<lambda>x. x \<notin> set (utsExtensions t)) (utsExtensions s) \<and>
      list_all (\<lambda>x. x \<notin> set (utsContentTypes t)) (utsContentTypes s))"

lemma table_apart: "list_all (\<lambda>s. list_all (typesApart (snd s)) (map snd UPLOAD_TYPES)) UPLOAD_TYPES"
  by code_simp

lemma table_keyed: "list_all (\<lambda>(i, t). utsId t = i) UPLOAD_TYPES"
  by code_simp

lemma table_keys: "map fst UPLOAD_TYPES = UPLOAD_TYPE_IDS"
  by code_simp

lemma map_of_UPLOAD_TYPES: "map_of UPLOAD_TYPES i = Some t \<Longrightarrow> utsId t = i \<and> (i, t) \<in> set UPLOAD_TYPES"
  using table_keyed map_of_SomeD [of UPLOAD_TYPES i t] by (fastforce simp: list_all_iff)

lemma table_lookup: "i \<in> set UPLOAD_TYPE_IDS \<longleftrightarrow> (\<exists>t. map_of UPLOAD_TYPES i = Some t)"
  by (metis domIff dom_map_of_conv_image_fst image_set not_None_eq table_keys)

lemma types_apart:
  assumes "map_of UPLOAD_TYPES i = Some s" and "map_of UPLOAD_TYPES j = Some t"
  shows "typesApart s t"
  using table_apart assms [THEN map_of_SomeD] by (force simp: list_all_iff)

lemma extension_owner:
  assumes "map_of UPLOAD_TYPES i = Some s" and "map_of UPLOAD_TYPES j = Some t"
    and "x \<in> set (utsExtensions s)" and "x \<in> set (utsExtensions t)"
  shows "s = t"
  using types_apart [OF assms(1,2)] assms map_of_UPLOAD_TYPES
  by (metis list_all_iff option.inject typesApart_def)

lemma content_type_owner:
  assumes "map_of UPLOAD_TYPES i = Some s" and "map_of UPLOAD_TYPES j = Some t"
    and "x \<in> set (utsContentTypes s)" and "x \<in> set (utsContentTypes t)"
  shows "s = t"
  using types_apart [OF assms(1,2)] assms map_of_UPLOAD_TYPES
  by (metis list_all_iff option.inject typesApart_def)

lemma set_allowedTypes:
  "t \<in> set (allowedTypes allow) \<longleftrightarrow>
   map_of UPLOAD_TYPES (utsId t) = Some t \<and> (case allow of None \<Rightarrow> True | Some ids \<Rightarrow> utsId t \<in> set ids)"
proof -
  have known: "set (case allow of None \<Rightarrow> UPLOAD_TYPE_IDS | Some ids \<Rightarrow> filter (\<lambda>i. i \<in> fst ` set UPLOAD_TYPES) ids)
      = {i \<in> set UPLOAD_TYPE_IDS. case allow of None \<Rightarrow> True | Some ids \<Rightarrow> i \<in> set ids}" (is "set ?ids = ?known")
    by (auto simp: table_keys [symmetric] split: option.splits)
  have "t \<in> set (allowedTypes allow) \<longleftrightarrow> (\<exists>i\<in>?known. map_of UPLOAD_TYPES i = Some t)"
    unfolding allowedTypes_def set_map known by (force simp: table_lookup)
  also have "\<dots> \<longleftrightarrow> map_of UPLOAD_TYPES (utsId t) = Some t \<and> utsId t \<in> ?known"
    using map_of_UPLOAD_TYPES by blast
  finally show ?thesis using table_lookup by auto
qed

lemma labels_nonempty:
  "map_of UPLOAD_TYPES i = Some t \<Longrightarrow> [] \<notin> set (utsExtensions t) \<and> [] \<notin> set (utsContentTypes t)"
proof -
  have "list_all (\<lambda>(i, t). [] \<notin> set (utsExtensions t) \<and> [] \<notin> set (utsContentTypes t)) UPLOAD_TYPES"
    by code_simp
  then show "map_of UPLOAD_TYPES i = Some t \<Longrightarrow> [] \<notin> set (utsExtensions t) \<and> [] \<notin> set (utsContentTypes t)"
    using map_of_SomeD [of UPLOAD_TYPES i t] by (fastforce simp: list_all_iff)
qed

lemma extensionOf_trim [simp]: "extensionOf (trim s) = extensionOf s"
  by (simp add: extensionOf_def)

lemma extensionOf_blank: "trim s = [] \<Longrightarrow> extensionOf s = []"
  by (simp add: extensionOf_def basename_def splitLast_def)

lemma find_unique:
  assumes "\<And>s t. s \<in> set ts \<Longrightarrow> t \<in> set ts \<Longrightarrow> p s \<Longrightarrow> p t \<Longrightarrow> s = t"
  shows "List.find p ts = Some t \<longleftrightarrow> t \<in> set ts \<and> p t"
  using assms by (induction ts) auto

lemma allowed_entry: "t \<in> set (allowedTypes allow) \<Longrightarrow> map_of UPLOAD_TYPES (utsId t) = Some t"
  by (simp add: set_allowedTypes)

lemma find_extension:
  "List.find (\<lambda>t. x \<in> set (utsExtensions t)) (allowedTypes allow) = Some t \<longleftrightarrow>
   t \<in> set (allowedTypes allow) \<and> x \<in> set (utsExtensions t)"
  by (rule find_unique) (rule extension_owner [OF allowed_entry allowed_entry])

lemma find_content_type:
  "List.find (\<lambda>t. x \<in> set (utsContentTypes t)) (allowedTypes allow) = Some t \<longleftrightarrow>
   t \<in> set (allowedTypes allow) \<and> x \<in> set (utsContentTypes t)"
  by (rule find_unique) (rule content_type_owner [OF allowed_entry allowed_entry])

definition sizeFits :: "uploadCheckOptions \<Rightarrow> int option \<Rightarrow> bool" where
  "sizeFits options sz =
     (case sz of None \<Rightarrow> True | Some n \<Rightarrow> 0 < n \<and> n \<le> maxBytesOf options)"

lemma checkUpload_Inr:
  "checkUpload c options = Inr r \<longleftrightarrow>
     (\<exists>t. t \<in> set (allowedTypes (uoAllow options)) \<and>
        extensionOf (ucFilename c) \<in> set (utsExtensions t) \<and>
        normalizeContentType (ucContentType c) \<in> set (utsContentTypes t) \<and>
        sizeFits options (ucSizeBytes c) \<and>
        r = \<lparr>ukType = t, ukExtension = extensionOf (ucFilename c),
             ukContentType = normalizeContentType (ucContentType c)\<rparr>)" (is "?l \<longleftrightarrow> ?r")
proof
  assume ?l
  then obtain t u where
    t: "List.find (\<lambda>t. extensionOf (ucFilename c) \<in> set (utsExtensions t)) (allowedTypes (uoAllow options)) = Some t"
    and u: "List.find (\<lambda>t. normalizeContentType (ucContentType c) \<in> set (utsContentTypes t))
              (allowedTypes (uoAllow options)) = Some u"
    and same: "utsId t = utsId u"
    and fits: "\<not> (case ucSizeBytes c of Some n \<Rightarrow> n \<le> 0 | None \<Rightarrow> False)"
              "\<not> (case ucSizeBytes c of Some n \<Rightarrow> n > maxBytesOf options | None \<Rightarrow> False)"
    and r: "r = \<lparr>ukType = t, ukExtension = extensionOf (ucFilename c),
                 ukContentType = normalizeContentType (ucContentType c)\<rparr>"
    unfolding checkUpload_def Let_def uploadFailure_def extensionOf_trim
    by (simp split: if_split_asm option.split_asm)
  from t u same have "u = t"
    by (metis allowed_entry find_content_type find_extension option.inject)
  with t u have "t \<in> set (allowedTypes (uoAllow options))" "extensionOf (ucFilename c) \<in> set (utsExtensions t)"
    "normalizeContentType (ucContentType c) \<in> set (utsContentTypes t)"
    by (simp_all add: find_extension find_content_type)
  moreover from fits have "sizeFits options (ucSizeBytes c)"
    by (simp add: sizeFits_def split: option.splits)
  ultimately show ?r using r by blast
next
  assume ?r
  then obtain t where t: "t \<in> set (allowedTypes (uoAllow options))"
      "extensionOf (ucFilename c) \<in> set (utsExtensions t)"
      "normalizeContentType (ucContentType c) \<in> set (utsContentTypes t)"
    and fits: "sizeFits options (ucSizeBytes c)"
    and r: "r = \<lparr>ukType = t, ukExtension = extensionOf (ucFilename c),
             ukContentType = normalizeContentType (ucContentType c)\<rparr>" by blast
  from t have "extensionOf (ucFilename c) \<noteq> []" "normalizeContentType (ucContentType c) \<noteq> []"
    using labels_nonempty [OF allowed_entry [OF t(1)]] by metis+
  moreover from this have "trim (ucFilename c) \<noteq> []" using extensionOf_blank by metis
  moreover have "List.find (\<lambda>t. extensionOf (ucFilename c) \<in> set (utsExtensions t)) (allowedTypes (uoAllow options)) = Some t"
    "List.find (\<lambda>t. normalizeContentType (ucContentType c) \<in> set (utsContentTypes t))
       (allowedTypes (uoAllow options)) = Some t"
    using t by (simp_all add: find_extension find_content_type)
  ultimately show ?l using fits r
    unfolding checkUpload_def Let_def extensionOf_trim
    by (simp add: sizeFits_def split: option.splits)
qed

lemma maxBytesOf_cap: "maxBytesOf options \<le> MAX_UPLOAD_BYTES"
  by (simp add: maxBytesOf_def)

text \<open>
  An upload is accepted exactly when its extension and its declared content type belong to the
  same type of the allowlist that the call lets through and its size is positive and within the cap;
  the options of a call can only refuse more, with the same answer for what they let through.
\<close>

theorem upload_options_only_narrow:
  "checkUpload c options = Inr r \<longleftrightarrow>
     checkUpload c defaultUploadOptions = Inr r \<and>
     utsId (ukType r) \<in> set UPLOAD_TYPE_IDS \<and>
     (case uoAllow options of None \<Rightarrow> True | Some ids \<Rightarrow> utsId (ukType r) \<in> set ids) \<and>
     ukExtension r \<in> set (utsExtensions (ukType r)) \<and>
     ukContentType r \<in> set (utsContentTypes (ukType r)) \<and>
     (case ucSizeBytes c of None \<Rightarrow> True | Some n \<Rightarrow> 0 < n \<and> n \<le> maxBytesOf options \<and> n \<le> MAX_UPLOAD_BYTES)"
proof -
  have size: "sizeFits options s \<longleftrightarrow> sizeFits defaultUploadOptions s \<and>
      (case s of None \<Rightarrow> True | Some n \<Rightarrow> 0 < n \<and> n \<le> maxBytesOf options \<and> n \<le> MAX_UPLOAD_BYTES)" for s
    by (auto simp: sizeFits_def maxBytesOf_def defaultUploadOptions_def split: option.splits)
  show ?thesis
    unfolding checkUpload_Inr set_allowedTypes size [of "ucSizeBytes c"]
    by (cases "uoAllow options") (auto simp: defaultUploadOptions_def table_lookup)
qed

end
