(* ===== verification/ImportDefinitions.thy ===== *)
theory ImportDefinitions
  imports JsDecimal UploadTypes "HOL-Library.AList"
begin

text \<open>
  \<^verbatim>\<open>src/services/import/definitions.ts\<close>: what an application writes to get a spreadsheet importer.
  A definition carries functions over the application's tables; the state of those tables is the type
  parameter \<open>'db\<close>. A JavaScript object used as a map is an association list, written with
  \<open>AList.update\<close> as an assignment writes it; a key that is missing and one that holds
  \<open>null\<close> are told apart where the source does. Keys that every object inherits
  (\<^verbatim>\<open>constructor\<close>, \<^verbatim>\<open>__proto__\<close>) are outside the model. An ISO time stamp is the
  instant it prints.
\<close>

section \<open>Values\<close>

datatype importValue = IvNull | IvString string | IvNumber jsDecimal | IvBool bool

type_synonym rowValues = "(string \<times> importValue) list"

type_synonym textValues = "(string \<times> string) list"

definition valueOf :: "rowValues \<Rightarrow> string \<Rightarrow> importValue" where
  "valueOf values k = (case map_of values k of Some v \<Rightarrow> v | None \<Rightarrow> IvNull)"

text \<open>\<open>String(v)\<close>\<close>

fun valueText :: "importValue \<Rightarrow> string" where
  "valueText IvNull = ''null''"
| "valueText (IvString s) = s"
| "valueText (IvNumber n) = numberToString n"
| "valueText (IvBool b) = (if b then ''true'' else ''false'')"

text \<open>\<open>String(v ?? "")\<close>\<close>

fun orEmpty :: "importValue \<Rightarrow> string" where
  "orEmpty IvNull = []"
| "orEmpty v = valueText v"

section \<open>Fields\<close>

datatype importFieldKind = FkText | FkEmail | FkDate | FkEnum | FkNumber | FkBoolean

datatype dateOrder = Mdy | Dmy

record importFieldSpec =
  ifKey :: string
  ifLabel :: string
  ifKind :: importFieldKind
  ifRequired :: bool
  ifAliases :: "string list"
  ifOptions :: "string list option"
  ifMaxLength :: "nat option"
  ifDateOrder :: "dateOrder option"
  ifInputOnly :: bool
  ifHelp :: "string option"

section \<open>Derivations\<close>

text \<open>\<open>idRun\<close> answers the keys it sets, or the message of the error it throws.\<close>

record importDerivation =
  idFrom :: "string list"
  idProduces :: "string list"
  idRun :: "rowValues \<Rightarrow> string + rowValues"

text \<open>\<open>s.lastIndexOf(" ")\<close> and \<open>s.indexOf(",")\<close> are the splits they are used for.\<close>

definition splitNameParts :: "string \<Rightarrow> string \<times> string option" where
  "splitNameParts full =
     (case splitLast (CHR '' '') full of
        None \<Rightarrow> (full, None)
      | Some (before, after) \<Rightarrow> (trim before, Some (trim after)))"

definition runSplitFullName :: "string \<Rightarrow> string \<Rightarrow> string \<Rightarrow> rowValues \<Rightarrow> string + rowValues" where
  "runSplitFullName frm firstKey lastKey values =
     (case valueOf values frm of
        IvString raw \<Rightarrow>
          (let full = collapseSpaces (trim raw);
               bySpace = (case splitNameParts full of
                   (f, None) \<Rightarrow> Inr [(firstKey, IvString f)]
                 | (f, Some l) \<Rightarrow> Inr (AList.update lastKey (IvString l) [(firstKey, IvString f)]))
           in if full = [] then Inr []
              else (case splitFirst (CHR '','') full of
                  Some (before, after) \<Rightarrow>
                    if before \<noteq> [] \<and> trim before \<noteq> [] \<and> trim after \<noteq> []
                    then Inr (AList.update lastKey (IvString (trim before)) [(firstKey, IvString (trim after))])
                    else bySpace
                | None \<Rightarrow> bySpace))
      | _ \<Rightarrow> Inr [])"

definition splitFullName :: "string \<Rightarrow> string \<Rightarrow> string \<Rightarrow> importDerivation" where
  "splitFullName frm firstKey lastKey =
     \<lparr>idFrom = [frm], idProduces = [firstKey, lastKey], idRun = runSplitFullName frm firstKey lastKey\<rparr>"

section \<open>Existing records and the write of a row\<close>

record existingRecord =
  erId :: uuid
  erValues :: rowValues

record importAttestationSource =
  asValue :: string
  asLabel :: string
  asCollectedInApp :: bool

record importAttestationSpec =
  apQuestion :: string
  apSources :: "importAttestationSource list"
  apStatement :: string
  apExternalWarning :: string

text \<open>\<^verbatim>\<open>optedIn\<close>, which is the constant \<^verbatim>\<open>true\<close>, has no field.\<close>

record importAttestation =
  iaListSource :: string
  iaListSourceDetail :: "string option"
  iaCollectedInApp :: bool
  iaAttestedBy :: "uuid option"
  iaAttestedAt :: ms

record upsertRowOptions =
  urOrg :: uuid
  urUser :: "uuid option"
  urValues :: rowValues
  urExtras :: textValues
  urExistingId :: "uuid option"
  urRowNumber :: nat
  urAttestation :: "importAttestation option"
  urSessionId :: uuid

record importRowProblem =
  ipField :: string
  ipMessage :: string

text \<open>
  \<open>dfUpsertRow\<close> is given the id the database would generate; it answers the new tables and the id of
  the record, or the message of the error it throws.
\<close>

record 'db importDefinition =
  dfName :: string
  dfLabel :: string
  dfDescription :: string
  dfFields :: "importFieldSpec list"
  dfMatchBy :: "string list list"
  dfDerive :: "importDerivation list"
  dfCapability :: "string option"
  dfAllow :: "uploadTypeId list option"
  dfAttestation :: "importAttestationSpec option"
  dfScreenRows :: "(uuid \<Rightarrow> rowValues list \<Rightarrow> 'db \<Rightarrow> importRowProblem option list) option"
  dfLoadExisting :: "uuid \<Rightarrow> rowValues list \<Rightarrow> 'db \<Rightarrow> existingRecord list"
  dfUpsertRow :: "uuid \<Rightarrow> upsertRowOptions \<Rightarrow> 'db \<Rightarrow> string + 'db \<times> uuid"
  dfSampleCsv :: "string option"

section \<open>The attestation\<close>

text \<open>\<open>raw.k\<close> of a submitted value; anything but an object has no properties.\<close>

definition property :: "json \<Rightarrow> string \<Rightarrow> json option" where
  "property v k = (case v of JObj kvs \<Rightarrow> map_of kvs k | _ \<Rightarrow> None)"

definition trimmedText :: "json option \<Rightarrow> string" where
  "trimmedText v = (case v of Some (JStr s) \<Rightarrow> trim s | _ \<Rightarrow> [])"

definition validateImportAttestation ::
    "'db importDefinition \<Rightarrow> json \<Rightarrow> uuid option \<Rightarrow> ms \<Rightarrow> appError + importAttestation" where
  "validateImportAttestation def input user now =
     (case dfAttestation def of
        None \<Rightarrow> Inl (PlainError (''Import definition '' @ quoted (dfName def) @ '' takes no attestation.''))
      | Some spec \<Rightarrow>
          (case List.find (\<lambda>s. property input ''listSource'' = Some (JStr (asValue s))) (apSources spec) of
             None \<Rightarrow> Inl (BadRequestError (''Before importing '' @ dfLabel def @
               '', say where this list came from: '' @ joinWith '', '' (map asLabel (apSources spec)) @ ''.''))
           | Some src \<Rightarrow>
               (let detail = trimmedText (property input ''listSourceDetail'') in
                guard (length detail > 500)
                  (BadRequestError ''The list source description must be 500 characters or fewer.'')
                (guard (\<not> asCollectedInApp src \<and> length detail < 2)
                  (BadRequestError (''Name where this list was collected (for example the platform it was exported from, '' @
                     ''or the event where people signed up).''))
                (guard (property input ''optedIn'' \<noteq> Some (JBool True))
                  (BadRequestError (''Before importing '' @ dfLabel def @ '', confirm: '' @ apStatement spec))
                (Inr \<lparr>iaListSource = asValue src,
                      iaListSourceDetail = (if detail = [] then None else Some detail),
                      iaCollectedInApp = asCollectedInApp src,
                      iaAttestedBy = user,
                      iaAttestedAt = now\<rparr>))))))"

section \<open>The registry\<close>

definition defError :: "'db importDefinition \<Rightarrow> string \<Rightarrow> appError" where
  "defError def rest = PlainError (''Import definition '' @ quoted (dfName def) @ rest)"

text \<open>
  The first complaint of \<open>assertDefinitionIsCoherent\<close>, in the order the code checks: no fields, repeated
  keys, an \<open>enum\<close> with no options, a \<open>matchBy\<close> tuple that is empty or names no field, a derivation that
  names no field, and a required \<open>inputOnly\<close> field that nothing produces.
\<close>

definition enumProblem :: "'db importDefinition \<Rightarrow> appError option" where
  "enumProblem def =
     map_option (\<lambda>f. defError def ('': field '' @ quoted (ifKey f) @ '' is an enum with no options.''))
       (List.find (\<lambda>f. ifKind f = FkEnum \<and> (case ifOptions f of None \<Rightarrow> True | Some os \<Rightarrow> os = [])) (dfFields def))"

fun matchByProblem :: "'db importDefinition \<Rightarrow> string set \<Rightarrow> string list list \<Rightarrow> appError option" where
  "matchByProblem def keys [] = None"
| "matchByProblem def keys (tuple # rest) =
     (if tuple = [] then Some (defError def '' has an empty matchBy tuple.'')
      else (case List.find (\<lambda>k. k \<notin> keys) tuple of
          Some k \<Rightarrow> Some (defError def ('': matchBy names '' @ quoted k @ '', which is not a field.''))
        | None \<Rightarrow> matchByProblem def keys rest))"

definition deriveProblem :: "'db importDefinition \<Rightarrow> string set \<Rightarrow> appError option" where
  "deriveProblem def keys =
     map_option (\<lambda>k. defError def ('': a derivation names '' @ quoted k @ '', which is not a field.''))
       (List.find (\<lambda>k. k \<notin> keys) (concat (map (\<lambda>d. idFrom d @ idProduces d) (dfDerive def))))"

definition unfillableProblem :: "'db importDefinition \<Rightarrow> appError option" where
  "unfillableProblem def =
     map_option (\<lambda>f. defError def ('': field '' @ quoted (ifKey f) @ '' is required and input-only but no derivation produces it.''))
       (List.find (\<lambda>f. ifRequired f \<and> ifInputOnly f \<and> ifKey f \<notin> set (concat (map idProduces (dfDerive def))))
          (dfFields def))"

fun firstProblem :: "appError option list \<Rightarrow> appError + unit" where
  "firstProblem [] = Inr ()"
| "firstProblem (None # ps) = firstProblem ps"
| "firstProblem (Some e # ps) = Inl e"

definition assertDefinitionIsCoherent :: "'db importDefinition \<Rightarrow> appError + unit" where
  "assertDefinitionIsCoherent def =
     (let keys = set (map ifKey (dfFields def)) in
      firstProblem
        [if dfFields def = [] then Some (defError def '' has no fields.'') else None,
         if \<not> distinct (map ifKey (dfFields def)) then Some (defError def '' has duplicate field keys.'') else None,
         enumProblem def,
         matchByProblem def keys (dfMatchBy def),
         deriveProblem def keys,
         unfillableProblem def])"

text \<open>The registry is the list of the registered definitions, in the order of registration.\<close>

type_synonym 'db importRegistry = "'db importDefinition list"

definition findImportDefinition :: "string \<Rightarrow> 'db importRegistry \<Rightarrow> 'db importDefinition option" where
  "findImportDefinition name registry = List.find (\<lambda>d. dfName d = name) registry"

definition getImportDefinition :: "string \<Rightarrow> 'db importRegistry \<Rightarrow> appError + 'db importDefinition" where
  "getImportDefinition name registry =
     (case findImportDefinition name registry of
        Some d \<Rightarrow> Inr d
      | None \<Rightarrow> Inl (notFound ''Import definition'' (''No import named '' @ quoted name @ '' is registered.'')))"

definition registerImportDefinition ::
    "'db importDefinition \<Rightarrow> 'db importRegistry \<Rightarrow> appError + 'db importRegistry" where
  "registerImportDefinition def registry =
     guard (findImportDefinition (dfName def) registry \<noteq> None)
       (PlainError (''Import definition '' @ quoted (dfName def) @ '' is already registered.''))
     (ebind (assertDefinitionIsCoherent def) (\<lambda>_. Inr (registry @ [def])))"

definition clearImportDefinitions :: "'db importRegistry \<Rightarrow> 'db importRegistry" where
  "clearImportDefinitions registry = []"

text \<open>\<open>collate\<close> is the collation key of \<open>localeCompare\<close>.\<close>

definition listImportDefinitions :: "(string \<Rightarrow> 'k::linorder) \<Rightarrow> 'db importRegistry \<Rightarrow> 'db importDefinition list" where
  "listImportDefinitions collate registry = sort_key (\<lambda>d. collate (dfLabel d)) registry"

section \<open>Field helpers\<close>

definition fieldsByKey :: "'db importDefinition \<Rightarrow> string \<Rightarrow> importFieldSpec option" where
  "fieldsByKey def k = map_of (rev (map (\<lambda>f. (ifKey f, f)) (dfFields def))) k"

definition targetFields :: "'db importDefinition \<Rightarrow> importFieldSpec list" where
  "targetFields def = filter (\<lambda>f. \<not> ifInputOnly f) (dfFields def)"

definition definitionUploadTypes :: "'db importDefinition \<Rightarrow> uploadTypeId list" where
  "definitionUploadTypes def = (case dfAllow def of Some ids \<Rightarrow> ids | None \<Rightarrow> [''csv'', ''xlsx''])"

definition definitionCapability :: "'db importDefinition \<Rightarrow> string" where
  "definitionCapability def = (case dfCapability def of Some c \<Rightarrow> c | None \<Rightarrow> ''app.write'')"

record fieldDescription =
  fdKey :: string
  fdLabel :: string
  fdKind :: importFieldKind
  fdRequired :: bool
  fdInputOnly :: bool
  fdOptions :: "string list option"
  fdHelp :: "string option"
  fdAliases :: "string list"

record definitionDescription =
  ddName :: string
  ddLabel :: string
  ddDescription :: string
  ddCapability :: string
  ddAcceptTypes :: "uploadTypeId list"
  ddMatchBy :: "string list list"
  ddHasSample :: bool
  ddAttestation :: "importAttestationSpec option"
  ddFields :: "fieldDescription list"

definition describeField :: "importFieldSpec \<Rightarrow> fieldDescription" where
  "describeField f =
     \<lparr>fdKey = ifKey f, fdLabel = ifLabel f, fdKind = ifKind f, fdRequired = ifRequired f,
      fdInputOnly = ifInputOnly f, fdOptions = ifOptions f, fdHelp = ifHelp f, fdAliases = ifAliases f\<rparr>"

definition describeImportDefinition :: "'db importDefinition \<Rightarrow> definitionDescription" where
  "describeImportDefinition def =
     \<lparr>ddName = dfName def, ddLabel = dfLabel def, ddDescription = dfDescription def,
      ddCapability = definitionCapability def, ddAcceptTypes = definitionUploadTypes def,
      ddMatchBy = dfMatchBy def, ddHasSample = (dfSampleCsv def \<noteq> None),
      ddAttestation = dfAttestation def, ddFields = map describeField (dfFields def)\<rparr>"

section \<open>Lemmas\<close>

lemma firstProblem_Inr: "firstProblem ps = Inr u \<longleftrightarrow> list_all (\<lambda>p. p = None) ps"
  by (induction ps rule: firstProblem.induct) auto

lemma matchByProblem_None:
  "matchByProblem def keys tuples = None \<longleftrightarrow> (\<forall>t\<in>set tuples. t \<noteq> [] \<and> set t \<subseteq> keys)"
  by (induction def keys tuples rule: matchByProblem.induct)
    (auto simp: find_None_iff_all split: option.splits dest: find_Some_in)

text \<open>What a definition that was accepted at registration promises.\<close>

definition coherent :: "'db importDefinition \<Rightarrow> bool" where
  "coherent def \<longleftrightarrow>
     dfFields def \<noteq> [] \<and> distinct (map ifKey (dfFields def)) \<and>
     (\<forall>f\<in>set (dfFields def). ifKind f = FkEnum \<longrightarrow> (\<exists>os. ifOptions f = Some os \<and> os \<noteq> [])) \<and>
     (\<forall>t\<in>set (dfMatchBy def). t \<noteq> [] \<and> set t \<subseteq> ifKey ` set (dfFields def)) \<and>
     (\<forall>d\<in>set (dfDerive def). set (idFrom d) \<union> set (idProduces d) \<subseteq> ifKey ` set (dfFields def)) \<and>
     (\<forall>f\<in>set (dfFields def). ifRequired f \<and> ifInputOnly f \<longrightarrow>
        (\<exists>d\<in>set (dfDerive def). ifKey f \<in> set (idProduces d)))"

lemma coherent_iff: "assertDefinitionIsCoherent def = Inr () \<longleftrightarrow> coherent def"
  unfolding assertDefinitionIsCoherent_def Let_def firstProblem_Inr coherent_def
    enumProblem_def deriveProblem_def unfillableProblem_def
  by (auto simp: matchByProblem_None find_None_iff_all split: option.splits)

lemma registered_coherent:
  "registerImportDefinition def registry = Inr registry' \<Longrightarrow>
   coherent def \<and> registry' = registry @ [def] \<and> dfName def \<notin> dfName ` set registry"
  by (auto simp: registerImportDefinition_def ebind_Inr_iff coherent_iff findImportDefinition_def find_key_None)

lemma fieldsByKey_Some:
  assumes "distinct (map ifKey (dfFields def))"
  shows "fieldsByKey def k = Some f \<longleftrightarrow> f \<in> set (dfFields def) \<and> ifKey f = k"
proof -
  have "distinct (map fst (rev (map (\<lambda>f. (ifKey f, f)) (dfFields def))))"
    using assms by (simp add: rev_map [symmetric] comp_def)
  then show ?thesis unfolding fieldsByKey_def by (auto simp: map_of_eq_Some_iff)
qed

lemma valueOf_update: "valueOf (AList.update k v vs) k' = (if k' = k then v else valueOf vs k')"
  by (simp add: valueOf_def update_conv)

end
