(* ===== verification/ImportParse.thy ===== *)
theory ImportParse
  imports ImportDefinitions "HOL-Library.Word"
begin

text \<open>
  \<^verbatim>\<open>src/services/import/parse.ts\<close>: bytes in, a header and rows of text out. A CSV is read here,
  on its UTF-16 code units (16-bit words), so that the byte order mark and every character are as the code
  sees them; the cells then become the \<open>string\<close>s of the other theories. The decoder
  (\<open>TextDecoder\<close>, fatal on bytes that are not UTF-8) and the workbook reader (sheetjs) are parameters;
  the cells the latter answers are the type \<open>rawCell\<close>, and the conversion of each to text is modelled.
\<close>

section \<open>Types and limits\<close>

datatype spreadsheetFormat = SfCsv | SfXlsx

definition HEADER_SCAN_ROWS :: nat where "HEADER_SCAN_ROWS = 10"

definition MAX_IMPORT_ROWS :: int where "MAX_IMPORT_ROWS = 20000"

definition MAX_IMPORT_COLUMNS :: int where "MAX_IMPORT_COLUMNS = 200"

type_synonym grid = "string list list"

record parsedSpreadsheet =
  psFormat :: spreadsheetFormat
  psSheetName :: string
  psSheetNames :: "string list"
  psHeaderRowIndex :: int
  psSkippedLeadingRows :: int
  psColumns :: "string list"
  psRows :: grid

record parseOptions =
  poFilename :: "string option"
  poContentType :: "string option"
  poSheetName :: "string option"
  poHeaderRowIndex :: "int option"

section \<open>CSV\<close>

type_synonym units = "16 word list"

abbreviation (input) QUOTE :: "16 word" where "QUOTE \<equiv> 34"
abbreviation (input) COMMA :: "16 word" where "COMMA \<equiv> 44"
abbreviation (input) CR :: "16 word" where "CR \<equiv> 13"
abbreviation (input) LF :: "16 word" where "LF \<equiv> 10"
abbreviation (input) BOM :: "16 word" where "BOM \<equiv> 65279"

text \<open>
  The loop of \<open>parseCsv\<close>. Its arguments are the flags \<open>quoted\<close> (here \<open>inQuotes\<close>) and \<open>sawAnyChar\<close>, the \<open>field\<close> and the
  \<open>row\<close> being built, the \<open>rows\<close> so far and the input from position \<open>i\<close> on.
\<close>

fun csvLoop :: "bool \<Rightarrow> bool \<Rightarrow> units \<Rightarrow> units list \<Rightarrow> units list list \<Rightarrow> units \<Rightarrow> units list list" where
  "csvLoop inQuotes saw field row rows [] =
     (if saw \<or> field \<noteq> [] \<or> row \<noteq> [] then rows @ [row @ [field]] else rows)"
| "csvLoop inQuotes saw field row rows (ch # rest) =
     (if inQuotes then
        (if ch = QUOTE then
           (if take 1 rest = [QUOTE]
            then csvLoop True True (field @ [QUOTE]) row rows (drop 1 rest)
            else csvLoop False True field row rows rest)
         else csvLoop True True (field @ [ch]) row rows rest)
      else if ch = QUOTE then csvLoop True True field row rows rest
      else if ch = COMMA then csvLoop False True [] (row @ [field]) rows rest
      else if ch = CR then
        csvLoop False False [] [] (rows @ [row @ [field]]) (if take 1 rest = [LF] then drop 1 rest else rest)
      else if ch = LF then csvLoop False False [] [] (rows @ [row @ [field]]) rest
      else csvLoop False True (field @ [ch]) row rows rest)"

definition parseCsv :: "units \<Rightarrow> units list list" where
  "parseCsv txt =
     csvLoop False False [] [] [] (if take 1 txt = [BOM] then drop 1 txt else txt)"

section \<open>Shaping\<close>

definition blankCell :: "string \<Rightarrow> bool" where
  "blankCell cell \<longleftrightarrow> trim cell = []"

definition trimGrid :: "grid \<Rightarrow> appError + grid" where
  "trimGrid g =
     (let trimmed = rev (dropWhile (list_all blankCell) (rev g));
          widest = foldl (\<lambda>m row. max m (length row)) 0 trimmed
      in guard (int (length trimmed) > MAX_IMPORT_ROWS + int HEADER_SCAN_ROWS)
           (BadRequestError ''That file has more than 20000 rows. Split it and import each part.'')
         (guard (int widest > MAX_IMPORT_COLUMNS)
           (BadRequestError ''That file has more than 200 columns. Remove the ones you do not need.'')
         (Inr trimmed)))"

text \<open>\<^verbatim>\<open>value.replace(/[,\s]/g, "")\<close>\<close>

definition withoutSeparators :: "string \<Rightarrow> string" where
  "withoutSeparators s = filter (\<lambda>c. c \<noteq> CHR '','' \<and> \<not> jsSpace c) s"

definition isPlainNumber :: "string \<Rightarrow> bool" where
  "isPlainNumber s \<longleftrightarrow> isPlainNumberText (withoutSeparators s)"

definition headerScore :: "string list \<Rightarrow> int option" where
  "headerScore row =
     (let cells = map trim row;
          filled = int (length (filter (\<lambda>c. c \<noteq> []) cells));
          numeric = int (length (filter (\<lambda>c. c \<noteq> [] \<and> isPlainNumber c) cells))
      in if filled = 0 then None
         else Some (if filled < 2 then filled - 5 else filled * 2 - numeric * 3))"

text \<open>\<open>bestScore\<close> starts at minus infinity, which is \<open>None\<close>.\<close>

definition scanRow :: "grid \<Rightarrow> nat \<times> int option \<Rightarrow> nat \<Rightarrow> nat \<times> int option" where
  "scanRow g best i =
     (case headerScore (g ! i) of
        None \<Rightarrow> best
      | Some score \<Rightarrow>
          (if (case snd best of None \<Rightarrow> True | Some b \<Rightarrow> score > b) then (i, Some score) else best))"

definition detectHeaderRow :: "grid \<Rightarrow> nat" where
  "detectHeaderRow g = fst (foldl (scanRow g) (0, None) [0..<min (length g) HEADER_SCAN_ROWS])"

definition headerBase :: "nat \<Rightarrow> string \<Rightarrow> string" where
  "headerBase i cell = (if trim cell = [] then ''Column '' @ decimal (i + 1) else trim cell)"

text \<open>\<open>seen\<close> counts each label, in lower case, among the columns already labelled.\<close>

fun labelLoop :: "nat \<Rightarrow> (string \<times> nat) list \<Rightarrow> string list \<Rightarrow> string list" where
  "labelLoop i seen [] = []"
| "labelLoop i seen (cell # cells) =
     (let base = headerBase i cell;
          count = (case map_of seen (toLowerCase base) of Some n \<Rightarrow> n | None \<Rightarrow> 0)
      in (if count = 0 then base else base @ '' ('' @ decimal (count + 1) @ '')'') #
         labelLoop (i + 1) (AList.update (toLowerCase base) (count + 1) seen) cells)"

definition labelColumns :: "string list \<Rightarrow> string list" where
  "labelColumns headerRow = labelLoop 0 [] (rev (dropWhile blankCell (rev headerRow)))"

definition padRow :: "nat \<Rightarrow> string list \<Rightarrow> string list" where
  "padRow n raw = map (\<lambda>c. trim (if c < length raw then raw ! c else [])) [0..<n]"

record gridMeta =
  gmFormat :: spreadsheetFormat
  gmSheetName :: string
  gmSheetNames :: "string list"
  gmHeaderRowIndex :: "int option"

definition shapeGrid :: "grid \<Rightarrow> gridMeta \<Rightarrow> appError + parsedSpreadsheet" where
  "shapeGrid g meta =
     guard (g = []) (BadRequestError ''That file has no rows.'')
     (let headerRowIndex = (case gmHeaderRowIndex meta of Some i \<Rightarrow> i | None \<Rightarrow> int (detectHeaderRow g)) in
      guard (headerRowIndex < 0 \<or> headerRowIndex \<ge> int (length g))
        (BadRequestError (''Row '' @ intText (headerRowIndex + 1) @ '' is not in that file.''))
      (let columns = labelColumns (g ! nat headerRowIndex) in
       guard (columns = []) (BadRequestError ''The header row of that file is empty.'')
       (let rows = map (padRow (length columns))
                     (filter (\<lambda>raw. \<not> list_all blankCell raw) (drop (nat headerRowIndex + 1) g)) in
        guard (int (length rows) > MAX_IMPORT_ROWS)
          (BadRequestError (''That file has '' @ decimal (length rows) @ 
             '' data rows, more than the 20000 limit. Split it and import each part.''))
        (Inr \<lparr>psFormat = gmFormat meta, psSheetName = gmSheetName meta, psSheetNames = gmSheetNames meta,
              psHeaderRowIndex = headerRowIndex, psSkippedLeadingRows = headerRowIndex,
              psColumns = columns, psRows = rows\<rparr>))))"

section \<open>Workbooks\<close>

record dateParts =
  dpYear :: int
  dpMonth :: nat
  dpDay :: nat
  dpHours :: nat
  dpMinutes :: nat
  dpSeconds :: nat

text \<open>
  A cell as sheetjs answers it: nothing, a date with its local components (or an invalid one), a
  number, a boolean, or text.
\<close>

datatype rawCell =
    RcNothing
  | RcDate "dateParts option"
  | RcNumber jsDecimal
  | RcBool bool
  | RcText string

definition pad2 :: "nat \<Rightarrow> string" where
  "pad2 n = padStart2 (decimal n)"

definition dateText :: "dateParts \<Rightarrow> string" where
  "dateText d =
     (let date = intText (dpYear d) @ ''-'' @ pad2 (dpMonth d) @ ''-'' @ pad2 (dpDay d) in
      if dpHours d \<noteq> 0 \<or> dpMinutes d \<noteq> 0 \<or> dpSeconds d \<noteq> 0
      then date @ '' '' @ pad2 (dpHours d) @ '':'' @ pad2 (dpMinutes d) @ '':'' @ pad2 (dpSeconds d)
      else date)"

fun cellToText :: "rawCell \<Rightarrow> string" where
  "cellToText RcNothing = []"
| "cellToText (RcDate None) = []"
| "cellToText (RcDate (Some d)) = dateText d"
| "cellToText (RcNumber n) = numberToString n"
| "cellToText (RcBool b) = (if b then ''true'' else ''false'')"
| "cellToText (RcText s) = s"

record workbook =
  wbSheetNames :: "string list"
  wbSheets :: "(string \<times> rawCell list list) list"

text \<open>The first candidate sheet that exists and holds something, with its text.\<close>

fun firstFilledSheet :: "workbook \<Rightarrow> string list \<Rightarrow> (string \<times> grid) option" where
  "firstFilledSheet wb [] = None"
| "firstFilledSheet wb (name # names) =
     (case map_of (wbSheets wb) name of
        None \<Rightarrow> firstFilledSheet wb names
      | Some cells \<Rightarrow>
          (let g = map (map cellToText) cells in
           if list_ex (list_ex (\<lambda>cell. cell \<noteq> [])) g then Some (name, g) else firstFilledSheet wb names))"

definition readXlsxGrid ::
    "('bytes \<Rightarrow> string + workbook) \<Rightarrow> 'bytes \<Rightarrow> string option \<Rightarrow> appError + (grid \<times> string \<times> string list)" where
  "readXlsxGrid reader bytes wanted =
     (case reader bytes of
        Inl message \<Rightarrow> Inl (BadRequestError (''That spreadsheet could not be read: '' @ message))
      | Inr wb \<Rightarrow>
          (let sheetNames = wbSheetNames wb in
           guard (sheetNames = []) (BadRequestError ''That workbook has no sheets.'')
           (guard (truthy wanted \<and> the wanted \<notin> set sheetNames)
             (BadRequestError (''That workbook has no sheet named '' @ quoted (the wanted) @ ''. It has: '' @
                joinWith '', '' sheetNames @ ''.''))
           (case firstFilledSheet wb (if truthy wanted then [the wanted] else sheetNames) of
              Some (name, g) \<Rightarrow> ebind (trimGrid g) (\<lambda>trimmed. Inr (trimmed, name, sheetNames))
            | None \<Rightarrow> Inl (BadRequestError ''Every sheet in that workbook is empty.'')))))"

section \<open>Entry point\<close>

text \<open>A code unit as the character it is, for the characters up to U+00FF that \<open>string\<close> has.\<close>

definition unitChar :: "16 word \<Rightarrow> char" where
  "unitChar u = char_of (unat u)"

definition readCsvGrid :: "('bytes \<Rightarrow> units option) \<Rightarrow> 'bytes \<Rightarrow> appError + grid" where
  "readCsvGrid decoder bytes =
     (case decoder bytes of
        None \<Rightarrow> Inl (BadRequestError
          ''That CSV is not UTF-8 text. Re-export it as UTF-8 (or as .xlsx) and try again.'')
      | Some txt \<Rightarrow> trimGrid (map (map (map unitChar)) (parseCsv txt)))"

definition detectFormat :: "parseOptions \<Rightarrow> spreadsheetFormat" where
  "detectFormat options =
     (let ext = extensionOf (case poFilename options of Some f \<Rightarrow> f | None \<Rightarrow> []);
          ct = normalizeContentType (case poContentType options of Some c \<Rightarrow> c | None \<Rightarrow> [])
      in if ext = ''.xlsx'' \<or> ext = ''.xls'' then SfXlsx
         else if ext = ''.csv'' then SfCsv
         else if strIncludes ct ''spreadsheetml'' \<or> ct = ''application/vnd.ms-excel'' then SfXlsx
         else SfCsv)"

record 'bytes sheetReaders =
  srByteLength :: "'bytes \<Rightarrow> nat"
  srDecoder :: "'bytes \<Rightarrow> units option"
  srWorkbook :: "'bytes \<Rightarrow> string + workbook"

definition parseSpreadsheet :: "'bytes sheetReaders \<Rightarrow> 'bytes \<Rightarrow> parseOptions \<Rightarrow> appError + parsedSpreadsheet" where
  "parseSpreadsheet rd bytes options =
     guard (srByteLength rd bytes = 0) (BadRequestError ''That file is empty.'')
     (let format = detectFormat options in
      ebind (if format = SfXlsx
             then readXlsxGrid (srWorkbook rd) bytes (poSheetName options)
             else ebind (readCsvGrid (srDecoder rd) bytes) (\<lambda>g. Inr (g, [], [])))
        (\<lambda>(g, sheetName, sheetNames).
           shapeGrid g \<lparr>gmFormat = format, gmSheetName = sheetName, gmSheetNames = sheetNames,
                        gmHeaderRowIndex = poHeaderRowIndex options\<rparr>))"

end
