(* ===== verification/ImportNormalize.thy ===== *)
theory ImportNormalize
  imports ImportParse
begin

text \<open>
  \<^verbatim>\<open>src/services/import/normalize.ts\<close>: one cell, then one row, of text into typed values and errors.
  Each regular expression is written as the run of character classes it is; where one could match in two
  ways the order of the alternatives is the order a backtracking matcher tries them in.
\<close>

section \<open>Cells\<close>

type_synonym cellResult = "importValue \<times> string option"

record cellError =
  ceField :: string
  ceLabel :: string
  ceMessage :: string

definition DEFAULT_TEXT_MAX :: nat where "DEFAULT_TEXT_MAX = 500"

definition okValue :: "importValue \<Rightarrow> cellResult" where
  "okValue v = (v, None)"

definition badValue :: "string \<Rightarrow> cellResult" where
  "badValue message = (IvNull, Some message)"

definition normalizeText :: "importFieldSpec \<Rightarrow> string \<Rightarrow> cellResult" where
  "normalizeText field txt =
     (let collapsed = collapseSpaces txt;
          maxLen = (case ifMaxLength field of Some n \<Rightarrow> n | None \<Rightarrow> DEFAULT_TEXT_MAX)
      in if length collapsed > maxLen
         then badValue (''is longer than '' @ decimal maxLen @ '' characters ('' @ decimal (length collapsed) @ '').'')
         else okValue (IvString collapsed))"

text \<open>\<^verbatim>\<open>/^[^\s@,;<>"]+@[^\s@,;<>".]+\.[^\s@,;<>"]{2,}$/\<close>\<close>

definition emailChar :: "char \<Rightarrow> bool" where
  "emailChar c \<longleftrightarrow> \<not> jsSpace c \<and> c \<notin> {CHR ''@'', CHR '','', CHR '';'', CHR ''<'', CHR ''>'', CHR 0x22}"

definition IMPORT_EMAIL_RE :: "string \<Rightarrow> bool" where
  "IMPORT_EMAIL_RE s \<longleftrightarrow>
     (case splitFirst (CHR ''@'') s of
        None \<Rightarrow> False
      | Some (local, domain) \<Rightarrow>
          (case splitFirst (CHR ''.'') domain of
             None \<Rightarrow> False
           | Some (host, tld) \<Rightarrow>
               local \<noteq> [] \<and> list_all emailChar local \<and> host \<noteq> [] \<and> list_all emailChar host \<and>
               2 \<le> length tld \<and> list_all emailChar tld))"

definition normalizeEmail :: "importFieldSpec \<Rightarrow> string \<Rightarrow> cellResult" where
  "normalizeEmail field txt =
     (let email = toLowerCase txt;
          maxLen = (case ifMaxLength field of Some n \<Rightarrow> n | None \<Rightarrow> 320)
      in if CHR '','' \<in> set email \<or> CHR '';'' \<in> set email
         then badValue (''looks like more than one address: '' @ quoted txt @ ''.'')
         else if \<not> IMPORT_EMAIL_RE email then badValue (''is not an email address: '' @ quoted txt @ ''.'')
         else if length email > maxLen then badValue (''is longer than '' @ decimal maxLen @ '' characters.'')
         else okValue (IvString email))"

section \<open>Dates\<close>

definition MONTHS :: "(string \<times> nat) list" where
  "MONTHS = [(''jan'', 1), (''feb'', 2), (''mar'', 3), (''apr'', 4), (''may'', 5), (''jun'', 6), (''jul'', 7),
     (''aug'', 8), (''sep'', 9), (''sept'', 9), (''oct'', 10), (''nov'', 11), (''dec'', 12)]"

text \<open>A run of \<open>lo\<close> to \<open>hi\<close> digits that the next character ends, and what follows it.\<close>

definition digitRun :: "nat \<Rightarrow> nat \<Rightarrow> string \<Rightarrow> (string \<times> string) option" where
  "digitRun lo hi s =
     (let ds = takeWhile isDigit s in
      if lo \<le> length ds \<and> length ds \<le> hi then Some (ds, dropWhile isDigit s) else None)"

definition oneOf :: "string \<Rightarrow> string \<Rightarrow> string option" where
  "oneOf cs s = (case s of c # r \<Rightarrow> if c \<in> set cs then Some r else None | [] \<Rightarrow> None)"

text \<open>\<^verbatim>\<open>/^(\d{a,b})[seps](\d{c,d})[seps](\d{e,f})$/\<close>, whose groups no separator can end early.\<close>

definition threeNumbers ::
    "string \<Rightarrow> nat \<times> nat \<Rightarrow> nat \<times> nat \<Rightarrow> nat \<times> nat \<Rightarrow> string \<Rightarrow> (string \<times> string \<times> string) option" where
  "threeNumbers seps r1 r2 r3 s =
     (case digitRun (fst r1) (snd r1) s of
        None \<Rightarrow> None
      | Some (a, s1) \<Rightarrow>
     (case oneOf seps s1 of
        None \<Rightarrow> None
      | Some s2 \<Rightarrow>
     (case digitRun (fst r2) (snd r2) s2 of
        None \<Rightarrow> None
      | Some (b, s3) \<Rightarrow>
     (case oneOf seps s3 of
        None \<Rightarrow> None
      | Some s4 \<Rightarrow>
     (case digitRun (fst r3) (snd r3) s4 of
        None \<Rightarrow> None
      | Some (c, s5) \<Rightarrow> if s5 = [] then Some (a, b, c) else None)))))"

definition isoDate :: "string \<Rightarrow> (string \<times> string \<times> string) option" where
  "isoDate = threeNumbers ''-/'' (4, 4) (1, 2) (1, 2)"

definition numericDate :: "string \<Rightarrow> (string \<times> string \<times> string) option" where
  "numericDate = threeNumbers ''-/.'' (1, 2) (1, 2) (2, 4)"

definition isLetter :: "char \<Rightarrow> bool" where
  "isLetter c \<longleftrightarrow> isLower c \<or> isUpper c"

text \<open>\<^verbatim>\<open>[A-Za-z]{3,9}\.?\<close>, then one white space character or a hyphen.\<close>

definition monthWord :: "string \<Rightarrow> (string \<times> string) option" where
  "monthWord s =
     (let name = takeWhile isLetter s; rest = dropWhile isLetter s;
          rest' = (case rest of c # r \<Rightarrow> if c = CHR ''.'' then r else rest | [] \<Rightarrow> rest)
      in if length name < 3 \<or> length name > 9 then None
         else (case rest' of
             [] \<Rightarrow> None
           | c # r \<Rightarrow> if jsSpace c \<or> c = CHR ''-'' then Some (name, r) else None))"

text \<open>\<^verbatim>\<open>/^(\d{1,2})[\s-]([A-Za-z]{3,9})\.?[\s-](\d{2,4})$/\<close> as day, name and year.\<close>

definition dayFirst :: "string \<Rightarrow> (string \<times> string \<times> string) option" where
  "dayFirst s =
     (case digitRun 1 2 s of
        Some (day, c # s1) \<Rightarrow>
          if jsSpace c \<or> c = CHR ''-''
          then (case monthWord s1 of
              None \<Rightarrow> None
            | Some (name, s2) \<Rightarrow>
                (case digitRun 2 4 s2 of
                   Some (year, []) \<Rightarrow> Some (day, name, year)
                 | _ \<Rightarrow> None))
          else None
      | _ \<Rightarrow> None)"

text \<open>
  What follows the day in \<^verbatim>\<open>/^([A-Za-z]{3,9})\.?[\s-](\d{1,2}),?[\s-]?\s*(\d{2,4})$/\<close>: a comma or not,
  a hyphen or not, white space, and the year. (A white space character in place of the hyphen is part of
  the white space.)
\<close>

definition yearTail :: "string \<Rightarrow> string option" where
  "yearTail s =
     (let s1 = (case s of c # r \<Rightarrow> if c = CHR '','' then r else s | [] \<Rightarrow> s);
          s2 = (case s1 of c # r \<Rightarrow> if c = CHR ''-'' then r else s1 | [] \<Rightarrow> s1)
      in (case digitRun 2 4 (dropWhile jsSpace s2) of
            Some (year, []) \<Rightarrow> Some year
          | _ \<Rightarrow> None))"

text \<open>The day takes two digits where the rest still matches, and one otherwise.\<close>

definition dayTail :: "nat \<Rightarrow> string \<Rightarrow> (string \<times> string) option" where
  "dayTail n s =
     (if n \<le> length s \<and> list_all isDigit (take n s)
      then map_option (\<lambda>year. (take n s, year)) (yearTail (drop n s)) else None)"

definition monthFirst :: "string \<Rightarrow> (string \<times> string \<times> string) option" where
  "monthFirst s =
     (case monthWord s of
        None \<Rightarrow> None
      | Some (name, s1) \<Rightarrow>
          (case dayTail 2 s1 of
             Some (day, year) \<Rightarrow> Some (day, name, year)
           | None \<Rightarrow> (case dayTail 1 s1 of
               Some (day, year) \<Rightarrow> Some (day, name, year)
             | None \<Rightarrow> None)))"

text \<open>Two-digit years: 00 to 69 are this century, 70 to 99 the last.\<close>

definition expandYear :: "nat \<Rightarrow> nat" where
  "expandYear year = (if year \<ge> 100 then year else if year < 70 then 2000 + year else 1900 + year)"

definition parseNamedMonth :: "string \<Rightarrow> (nat \<times> nat \<times> nat) option" where
  "parseNamedMonth txt =
     (case (case dayFirst txt of Some p \<Rightarrow> Some p | None \<Rightarrow> monthFirst txt) of
        None \<Rightarrow> None
      | Some (day, name, year) \<Rightarrow>
          (let lower = toLowerCase name in
           case (case map_of MONTHS (take 4 lower) of Some m \<Rightarrow> Some m | None \<Rightarrow> map_of MONTHS (take 3 lower)) of
             None \<Rightarrow> None
           | Some month \<Rightarrow> Some (expandYear (digitsVal year), month, digitsVal day)))"

text \<open>
  \<open>new Date(Date.UTC(year, month, 0)).getUTCDate()\<close>: the day before the first of the month after
  \<open>month\<close>, in the proleptic Gregorian calendar; \<open>Date.UTC\<close> reads the years 0 to 99 as 1900 to 1999.
\<close>

definition leapYear :: "nat \<Rightarrow> bool" where
  "leapYear y \<longleftrightarrow> 4 dvd y \<and> (\<not> 100 dvd y \<or> 400 dvd y)"

definition daysInMonth :: "nat \<Rightarrow> nat \<Rightarrow> nat" where
  "daysInMonth year month =
     (let y = (if year < 100 then 1900 + year else year) in
      if month = 2 then (if leapYear y then 29 else 28)
      else if month \<in> {4, 6, 9, 11} then 30 else 31)"

text \<open>\<^verbatim>\<open>text.split(/[T ]/)[0].trim()\<close>\<close>

definition dateBody :: "string \<Rightarrow> string" where
  "dateBody txt = trim (takeWhile (\<lambda>c. c \<noteq> CHR ''T'' \<and> c \<noteq> CHR '' '') txt)"

definition readDate :: "importFieldSpec \<Rightarrow> string \<Rightarrow> (nat \<times> nat \<times> nat) option" where
  "readDate field txt =
     (case isoDate (dateBody txt) of
        Some (y, m, d) \<Rightarrow> Some (digitsVal y, digitsVal m, digitsVal d)
      | None \<Rightarrow>
     (case parseNamedMonth (trim txt) of
        Some ymd \<Rightarrow> Some ymd
      | None \<Rightarrow>
     (case numericDate (dateBody txt) of
        None \<Rightarrow> None
      | Some (a, b, y) \<Rightarrow>
          (if ifDateOrder field = Some Dmy
           then Some (expandYear (digitsVal y), digitsVal b, digitsVal a)
           else Some (expandYear (digitsVal y), digitsVal a, digitsVal b)))))"

definition isoText :: "nat \<Rightarrow> nat \<Rightarrow> nat \<Rightarrow> string" where
  "isoText y m d = decimal y @ ''-'' @ pad2 m @ ''-'' @ pad2 d"

definition normalizeDate :: "importFieldSpec \<Rightarrow> string \<Rightarrow> cellResult" where
  "normalizeDate field txt =
     (let bad = badValue (''is not a date we can read: '' @ quoted txt @ ''.'') in
      case readDate field txt of
        None \<Rightarrow> bad
      | Some (year, month, day) \<Rightarrow>
          if month < 1 \<or> month > 12 then bad
          else if day < 1 \<or> day > daysInMonth year month then bad
          else if year < 1900 \<or> year > 2200 then bad
          else okValue (IvString (isoText year month day)))"

section \<open>Numbers, booleans and options\<close>

text \<open>\<^verbatim>\<open>replace(/^[$...]/, "")\<close> removes one currency sign; the euro sign is not a modelled character.\<close>

definition withoutCurrency :: "string \<Rightarrow> string" where
  "withoutCurrency s =
     (case s of c # r \<Rightarrow> if c = CHR ''$'' \<or> c = CHR 0xA3 then r else s | [] \<Rightarrow> s)"

definition normalizeNumber :: "string \<Rightarrow> cellResult" where
  "normalizeNumber txt =
     (case plainNumber (withoutCurrency (withoutSeparators txt)) of
        None \<Rightarrow> badValue (''is not a number: '' @ quoted txt @ ''.'')
      | Some parts \<Rightarrow> okValue (IvNumber (decimalOf parts)))"

definition TRUTHY :: "string list" where
  "TRUTHY = [''true'', ''yes'', ''y'', ''1'', ''x'', ''on'', ''t'']"

definition FALSY :: "string list" where
  "FALSY = [''false'', ''no'', ''n'', ''0'', ''off'', ''f'', ''-'']"

definition normalizeBoolean :: "string \<Rightarrow> cellResult" where
  "normalizeBoolean txt =
     (let key = toLowerCase txt in
      if key \<in> set TRUTHY then okValue (IvBool True)
      else if key \<in> set FALSY then okValue (IvBool False)
      else badValue (''is not a yes or a no: '' @ quoted txt @ ''.''))"

text \<open>\<^verbatim>\<open>value.toLowerCase().replace(/[^a-z0-9]/g, "")\<close>\<close>

definition squash :: "string \<Rightarrow> string" where
  "squash s = filter (\<lambda>c. isLower c \<or> isDigit c) (toLowerCase s)"

definition normalizeEnum :: "importFieldSpec \<Rightarrow> string \<Rightarrow> cellResult" where
  "normalizeEnum field txt =
     (let options = (case ifOptions field of Some os \<Rightarrow> os | None \<Rightarrow> []);
          bad = badValue (''is not one of '' @ joinWith '', '' options @ '': '' @ quoted txt @ ''.'')
      in case List.find (\<lambda>option. squash option = squash txt) options of
           None \<Rightarrow> bad
         | Some hit \<Rightarrow> if hit = [] then bad else okValue (IvString hit))"

definition normalizeCell :: "importFieldSpec \<Rightarrow> string \<Rightarrow> cellResult" where
  "normalizeCell field raw =
     (let txt = trim raw in
      if txt = [] then okValue IvNull
      else (case ifKind field of
          FkText \<Rightarrow> normalizeText field txt
        | FkEmail \<Rightarrow> normalizeEmail field txt
        | FkDate \<Rightarrow> normalizeDate field txt
        | FkNumber \<Rightarrow> normalizeNumber txt
        | FkBoolean \<Rightarrow> normalizeBoolean txt
        | FkEnum \<Rightarrow> normalizeEnum field txt))"

section \<open>Rows\<close>

record normalizedRow =
  nrValues :: rowValues
  nrAllValues :: rowValues
  nrExtras :: textValues
  nrErrors :: "cellError list"

fun isBlank :: "importValue \<Rightarrow> bool" where
  "isBlank IvNull = True"
| "isBlank (IvString s) = (trim s = [])"
| "isBlank (IvNumber n) = False"
| "isBlank (IvBool b) = False"

type_synonym rowState = "rowValues \<times> cellError list"

definition setCell :: "importFieldSpec \<Rightarrow> cellResult \<Rightarrow> rowState \<Rightarrow> rowState" where
  "setCell field result st =
     (AList.update (ifKey field) (fst result) (fst st),
      snd st @ (case snd result of
          None \<Rightarrow> []
        | Some message \<Rightarrow> [\<lparr>ceField = ifKey field, ceLabel = ifLabel field, ceMessage = message\<rparr>]))"

text \<open>A field no column is mapped to is absent, not empty and wrong.\<close>

definition readField :: "textValues \<Rightarrow> importFieldSpec \<Rightarrow> rowState \<Rightarrow> rowState" where
  "readField cells field =
     setCell field (case map_of cells (ifKey field) of None \<Rightarrow> okValue IvNull | Some raw \<Rightarrow> normalizeCell field raw)"

definition applyProduced ::
    "'db importDefinition \<Rightarrow> string \<times> importValue \<Rightarrow> rowState \<Rightarrow> rowState" where
  "applyProduced def kv st =
     (if \<not> isBlank (valueOf (fst st) (fst kv)) then st
      else (case fieldsByKey def (fst kv) of
          None \<Rightarrow> st
        | Some field \<Rightarrow> setCell field (normalizeCell field (orEmpty (snd kv))) st))"

definition derivationError :: "'db importDefinition \<Rightarrow> importDerivation \<Rightarrow> string \<Rightarrow> cellError" where
  "derivationError def d message =
     \<lparr>ceField = (case idProduces d of k # _ \<Rightarrow> k | [] \<Rightarrow> ''row''),
      ceLabel = (case fieldsByKey def (case idProduces d of k # _ \<Rightarrow> k | [] \<Rightarrow> []) of
          Some f \<Rightarrow> ifLabel f | None \<Rightarrow> ''Row''),
      ceMessage = ''could not be derived: '' @ message\<rparr>"

definition applyDerivation :: "'db importDefinition \<Rightarrow> importDerivation \<Rightarrow> rowState \<Rightarrow> rowState" where
  "applyDerivation def d st =
     (if list_all (\<lambda>k. isBlank (valueOf (fst st) k)) (idFrom d) then st
      else (case idRun d (fst st) of
          Inl message \<Rightarrow> (fst st, snd st @ [derivationError def d message])
        | Inr produced \<Rightarrow> fold (applyProduced def) produced st))"

definition requireField :: "importFieldSpec \<Rightarrow> rowState \<Rightarrow> rowState" where
  "requireField field st =
     (if ifRequired field \<and> isBlank (valueOf (fst st) (ifKey field)) \<and>
         \<not> list_ex (\<lambda>e. ceField e = ifKey field) (snd st)
      then (fst st, snd st @ [\<lparr>ceField = ifKey field, ceLabel = ifLabel field, ceMessage = ''is required.''\<rparr>])
      else st)"

definition targetValues :: "'db importDefinition \<Rightarrow> rowValues \<Rightarrow> rowValues" where
  "targetValues def values =
     fold (\<lambda>f. AList.update (ifKey f) (valueOf values (ifKey f))) (targetFields def) []"

text \<open>Normalize, derive, then check what is required.\<close>

definition normalizeRow :: "'db importDefinition \<Rightarrow> textValues \<Rightarrow> textValues \<Rightarrow> normalizedRow" where
  "normalizeRow def cells extras =
     (let st1 = fold (readField cells) (dfFields def) ([], []);
          st2 = fold (applyDerivation def) (dfDerive def) st1;
          st3 = fold requireField (dfFields def) st2
      in \<lparr>nrValues = targetValues def (fst st3), nrAllValues = fst st3,
          nrExtras = extras, nrErrors = snd st3\<rparr>)"

end
