(* ===== verification/ImportNormalizeProofs.thy ===== *)
theory ImportNormalizeProofs
  imports ImportNormalize
begin

text \<open>
  What \<^verbatim>\<open>src/services/import/normalize.ts\<close> promises: a value it accepts is read back unchanged, a date it
  accepts is a day of the calendar, and a row without errors has every required value, each of the type of
  its field.
\<close>

section \<open>Strings\<close>

lemma hd_collapse: "s \<noteq> [] \<Longrightarrow> collapseSpaces s \<noteq> [] \<and> (\<not> jsSpace (hd s) \<longrightarrow> hd (collapseSpaces s) = hd s)"
  by (induction s rule: collapseSpaces.induct) auto

lemma jsSpace_blank [simp]: "jsSpace (CHR '' '')"
  by (simp add: jsSpace_def)

lemma last_collapse: "s \<noteq> [] \<Longrightarrow> \<not> jsSpace (last s) \<Longrightarrow> last (collapseSpaces s) = last s"
proof (induction s rule: collapseSpaces.induct)
  case (2 c cs)
  then show ?case
    using hd_collapse [of cs] by (cases "cs = []") auto
qed simp

lemma collapse_hd_space:
  "collapseSpaces s \<noteq> [] \<Longrightarrow> jsSpace (hd (collapseSpaces s)) \<longleftrightarrow> jsSpace (hd s)"
  by (induction s rule: collapseSpaces.induct) auto

lemma collapse_idem [simp]: "collapseSpaces (collapseSpaces s) = collapseSpaces s"
proof (induction s rule: collapseSpaces.induct)
  case (2 c cs)
  show ?case
  proof (cases "jsSpace c \<and> cs \<noteq> [] \<and> jsSpace (hd cs)")
    case True
    with 2 show ?thesis by simp
  next
    case False
    then have "\<not> (jsSpace c \<and> collapseSpaces cs \<noteq> [] \<and> jsSpace (hd (collapseSpaces cs)))"
      using collapse_hd_space by (cases cs) auto
    with False 2 show ?thesis by auto
  qed
qed simp

lemma trim_id: "s = [] \<or> (\<not> jsSpace (hd s) \<and> \<not> jsSpace (last s)) \<Longrightarrow> trim s = s"
  by (cases s rule: rev_cases) (auto simp: trim_def trimStart_id trimEnd_snoc hd_append trimEnd_def)

lemma last_trimEnd: "trimEnd s \<noteq> [] \<Longrightarrow> \<not> jsSpace (last (trimEnd s))"
  unfolding trimEnd_def by (simp add: last_rev hd_dropWhile)

lemma last_trim: "trim s \<noteq> [] \<Longrightarrow> \<not> jsSpace (last (trim s))"
  unfolding trim_def by (rule last_trimEnd)

lemma trim_collapse [simp]: "trim (collapseSpaces (trim s)) = collapseSpaces (trim s)"
proof (cases "trim s = []")
  case False
  then show ?thesis
    using hd_collapse hd_trim last_trim last_collapse by (intro trim_id) metis
qed simp

lemma collapse_trim_nonempty: "trim s \<noteq> [] \<Longrightarrow> collapseSpaces (trim s) \<noteq> []"
  using hd_collapse by blast

lemma squash_trim [simp]: "squash (trim s) = squash s"
proof -
  have none: "filter (\<lambda>c. isLower (lowerChar c) \<or> isDigit (lowerChar c)) (dropWhile jsSpace t) =
      filter (\<lambda>c. isLower (lowerChar c) \<or> isDigit (lowerChar c)) t" for t
    by (induction t) (auto simp: jsSpace_def isLower_def isDigit_def lowerChar_def isUpper_def)
  have "filter (\<lambda>c. isLower (lowerChar c) \<or> isDigit (lowerChar c)) (trim s) =
      filter (\<lambda>c. isLower (lowerChar c) \<or> isDigit (lowerChar c)) s"
    unfolding trim_def trimEnd_def trimStart_def
    by (simp add: none rev_filter [symmetric])
  then show ?thesis by (simp add: squash_def toLowerCase_def filter_map comp_def)
qed

section \<open>The calendar\<close>

text \<open>
  The day number of a date, as ECMAScript counts it: \<open>DayFromYear\<close> and the days of the year before the
  month. A date of the calendar is one that comes before the first day of the next month.
\<close>

definition dayFromYear :: "int \<Rightarrow> int" where
  "dayFromYear y = 365 * (y - 1970) + (y - 1969) div 4 - (y - 1901) div 100 + (y - 1601) div 400"

definition daysBefore :: "bool \<Rightarrow> nat \<Rightarrow> int" where
  "daysBefore leap month =
     [0, 31, 59, 90, 120, 151, 181, 212, 243, 273, 304, 334, 365] ! (month - 1) + (if leap \<and> month > 2 then 1 else 0)"

definition dayNumber :: "nat \<Rightarrow> nat \<Rightarrow> nat \<Rightarrow> int" where
  "dayNumber y m d = dayFromYear (int y) + daysBefore (leapYear y) m + int d - 1"

fun monthAfter :: "nat \<times> nat \<Rightarrow> nat \<times> nat" where
  "monthAfter (y, m) = (if m = 12 then (y + 1, 1) else (y, m + 1))"

definition calendarDate :: "nat \<Rightarrow> nat \<Rightarrow> nat \<Rightarrow> bool" where
  "calendarDate y m d \<longleftrightarrow>
     1 \<le> m \<and> m \<le> 12 \<and> 1 \<le> d \<and> dayNumber y m d < (case monthAfter (y, m) of (y', m') \<Rightarrow> dayNumber y' m' 1)"

lemma div_step: "(a + 1) div n = a div n + (if n dvd a + 1 then 1 else 0)" if "0 < n" for a n :: int
proof -
  define q where "q = a div n"
  define r where "r = a mod n"
  have a: "a = n * q + r" and r: "0 \<le> r" "r < n" using that by (simp_all add: q_def r_def)
  show ?thesis
  proof (cases "r = n - 1")
    case True
    then have "a + 1 = n * (q + 1)" by (simp add: a algebra_simps)
    moreover from this have "(a + 1) div n = q + 1" using that by simp
    ultimately show ?thesis by (simp add: q_def)
  next
    case False
    then have "(a + 1) div n = q" "(a + 1) mod n = r + 1"
      using r by (auto intro: int_div_pos_eq [of _ _ _ "r + 1"] int_mod_pos_eq [of _ _ q] simp: a)
    moreover have "\<not> n dvd a + 1" using \<open>(a + 1) mod n = r + 1\<close> r by (simp add: dvd_eq_mod_eq_0)
    ultimately show ?thesis by (simp add: q_def)
  qed
qed

lemma year_length: "dayFromYear (int y + 1) - dayFromYear (int y) = (if leapYear y then 366 else 365)"
proof -
  have d4: "4 dvd int y - 1969 + 1 \<longleftrightarrow> 4 dvd y" by presburger
  have d100: "100 dvd int y - 1901 + 1 \<longleftrightarrow> 100 dvd y" by presburger
  have d400: "400 dvd int y - 1601 + 1 \<longleftrightarrow> 400 dvd y" by presburger
  have steps: "(int y + 1 - 1969) div 4 = (int y - 1969) div 4 + (if 4 dvd y then 1 else 0)"
    "(int y + 1 - 1901) div 100 = (int y - 1901) div 100 + (if 100 dvd y then 1 else 0)"
    "(int y + 1 - 1601) div 400 = (int y - 1601) div 400 + (if 400 dvd y then 1 else 0)"
    using div_step [of 4 "int y - 1969"] div_step [of 100 "int y - 1901"] div_step [of 400 "int y - 1601"]
    unfolding d4 d100 d400 by (simp_all add: algebra_simps)
  have collect: "365 * (x + 1 - 1970) + (A + a) - (B + b) + (C + c) - (365 * (x - 1970) + A - B + C) = 365 + a - b + c"
    for x A B C a b c :: int by simp
  have "dayFromYear (int y + 1) - dayFromYear (int y) =
      365 + (if 4 dvd y then 1 else 0) - (if 100 dvd y then 1 else 0) + (if 400 dvd y then 1 else 0)"
    unfolding dayFromYear_def steps by (rule collect)
  moreover have "400 dvd y \<Longrightarrow> 100 dvd y" "100 dvd y \<Longrightarrow> 4 dvd y"
    using dvd_trans [of 100 400 y] dvd_trans [of 4 100 y] by simp_all
  ultimately show ?thesis unfolding leapYear_def
    by (cases "4 dvd y"; cases "100 dvd y"; cases "400 dvd y") simp_all
qed

lemma month_length:
  assumes "1 \<le> m" and "m \<le> 12" and "100 \<le> y"
  shows "(case monthAfter (y, m) of (y', m') \<Rightarrow> dayNumber y' m' 1) - dayNumber y m 1 = int (daysInMonth y m)"
proof -
  from assms(1,2) have "m = 1 \<or> m = 2 \<or> m = 3 \<or> m = 4 \<or> m = 5 \<or> m = 6 \<or>
      m = 7 \<or> m = 8 \<or> m = 9 \<or> m = 10 \<or> m = 11 \<or> m = 12" by presburger
  then show ?thesis
    using year_length [of y, unfolded add.commute [of _ 1]] assms(3)
    by (auto simp: dayNumber_def daysBefore_def daysInMonth_def Let_def split: if_splits)
qed

lemma calendarDate_iff:
  assumes "100 \<le> y"
  shows "calendarDate y m d \<longleftrightarrow> 1 \<le> m \<and> m \<le> 12 \<and> 1 \<le> d \<and> d \<le> daysInMonth y m"
proof -
  have "dayNumber y m d = dayNumber y m 1 + int d - 1" by (simp add: dayNumber_def)
  then show ?thesis using month_length [of m y] assms by (auto simp: calendarDate_def split: prod.splits)
qed

lemma normalizeDate_accepts:
  "normalizeDate field txt = (v, None) \<longleftrightarrow>
     (\<exists>y m d. readDate field txt = Some (y, m, d) \<and> calendarDate y m d \<and> 1900 \<le> y \<and> y \<le> 2200 \<and>
        v = IvString (isoText y m d))"
proof -
  have "1900 \<le> y \<Longrightarrow> calendarDate y m d \<longleftrightarrow> 1 \<le> m \<and> m \<le> 12 \<and> 1 \<le> d \<and> d \<le> daysInMonth y m" for y m d
    by (simp add: calendarDate_iff)
  then show ?thesis
    unfolding normalizeDate_def Let_def
    by (auto simp: okValue_def badValue_def split: option.splits)
qed

text \<open>
  A date cell is accepted exactly when it can be read as a day of the calendar (by the day counts of the
  years and months) between 1900 and 2200, and what is stored is that day, printed as an ISO date.
\<close>

theorem dates_are_calendar_dates:
  "normalizeDate field txt = (v, None) \<longleftrightarrow>
     (\<exists>y m d. readDate field txt = Some (y, m, d) \<and> calendarDate y m d \<and> 1900 \<le> y \<and> y \<le> 2200 \<and>
        v = IvString (isoText y m d))"
  by (rule normalizeDate_accepts)

section \<open>Accepted values read back\<close>

lemma digitRun_append:
  assumes "list_all isDigit ds" and "lo \<le> length ds" and "length ds \<le> hi" and "rest = [] \<or> \<not> isDigit (hd rest)"
  shows "digitRun lo hi (ds @ rest) = Some (ds, rest)"
proof -
  have "takeWhile isDigit rest = []" "dropWhile isDigit rest = rest"
    using assms(4) by (cases rest; simp)+
  then show ?thesis using assms(1-3) by (simp add: digitRun_def list_all_iff takeWhile_append2 dropWhile_append2)
qed

lemma decimal_lt10: "n < 10 \<Longrightarrow> decimal n = [digitChar n]"
  by (subst decimal.simps) simp

lemma decimal_ge10: "10 \<le> n \<Longrightarrow> decimal n = decimal (n div 10) @ [digitChar (n mod 10)]"
  by (subst decimal.simps) simp

lemma length_year: "1000 \<le> y \<Longrightarrow> y < 10000 \<Longrightarrow> length (decimal y) = 4"
  by (simp add: decimal_ge10 decimal_lt10 div_mult2_eq [symmetric])

lemma pad2_digits:
  assumes "n < 100"
  shows "length (pad2 n) = 2" and "list_all isDigit (pad2 n)" and "digitsVal (pad2 n) = n"
proof -
  have two: "pad2 n = (if n < 10 then CHR ''0'' # decimal n else decimal n)"
    using assms by (auto simp: pad2_def padStart2_def decimal_lt10 decimal_ge10)
  show "length (pad2 n) = 2" using assms unfolding two by (simp add: decimal_lt10 decimal_ge10)
  show "list_all isDigit (pad2 n)" unfolding two using list_all_decimal by (auto simp: isDigit_def)
  have "digitsVal (CHR ''0'' # decimal n) = digitsVal (decimal n)"
    using digitsVal_Cons_zeros [of 1 "decimal n"] by simp
  then show "digitsVal (pad2 n) = n" unfolding two by simp
qed

text \<open>The characters of printed dates and numbers.\<close>

definition plainChar :: "char \<Rightarrow> bool" where
  "plainChar c \<longleftrightarrow> isDigit c \<or> c = CHR ''-'' \<or> c = CHR ''.''"

lemma plainChar_ok:
  assumes "plainChar c"
  shows "\<not> jsSpace c" and "c \<noteq> CHR ''T''" and "c \<noteq> CHR '' ''" and "c \<noteq> CHR '',''" and "c \<noteq> CHR ''$''" and "c \<noteq> CHR 0xA3"
  using assms by (auto simp: plainChar_def isDigit_def jsSpace_def)

lemma plain_text:
  assumes "list_all plainChar s"
  shows "trim s = s" and "withoutSeparators s = s" and "withoutCurrency s = s"
    and "takeWhile (\<lambda>c. c \<noteq> CHR ''T'' \<and> c \<noteq> CHR '' '') s = s"
proof -
  have ok: "c \<in> set s \<Longrightarrow> plainChar c" for c using assms by (simp add: list_all_iff)
  show "trim s = s"
    using ok [of "hd s"] ok [of "last s"] plainChar_ok(1) by (cases "s = []") (auto intro!: trim_id)
  show "withoutSeparators s = s"
    unfolding withoutSeparators_def using ok plainChar_ok(1,4) by (auto intro!: filter_True)
  show "withoutCurrency s = s"
    using ok [of "hd s"] plainChar_ok(5,6) by (cases s) (auto simp: withoutCurrency_def)
  show "takeWhile (\<lambda>c. c \<noteq> CHR ''T'' \<and> c \<noteq> CHR '' '') s = s"
    using ok plainChar_ok(2,3) by (auto simp: takeWhile_eq_all_conv)
qed

lemma digits_plain: "list_all isDigit s \<Longrightarrow> list_all plainChar s"
  by (auto simp: list_all_iff plainChar_def)

lemma isoDate_isoText:
  assumes "1000 \<le> y" and "y < 10000" and "m < 100" and "d < 100"
  shows "isoDate (isoText y m d) = Some (decimal y, pad2 m, pad2 d)"
proof -
  note digits = pad2_digits [OF assms(3)] pad2_digits [OF assms(4)] length_year [OF assms(1,2)] list_all_decimal [of y]
  have "digitRun 4 4 (isoText y m d) = Some (decimal y, CHR ''-'' # pad2 m @ ''-'' @ pad2 d)"
    unfolding isoText_def using digits by (simp add: digitRun_append)
  moreover have "digitRun 1 2 (pad2 m @ ''-'' @ pad2 d) = Some (pad2 m, CHR ''-'' # pad2 d)"
    using digits by (simp add: digitRun_append)
  moreover have "digitRun 1 2 (pad2 d) = Some (pad2 d, [])"
    using digits digitRun_append [of "pad2 d" 1 2 "[]"] by simp
  ultimately show ?thesis
    unfolding isoDate_def threeNumbers_def by (simp add: oneOf_def)
qed

lemma isoText_plain: "m < 100 \<Longrightarrow> d < 100 \<Longrightarrow> list_all plainChar (isoText y m d)"
  using digits_plain [OF pad2_digits(2)] digits_plain [OF list_all_decimal]
  by (simp add: isoText_def) (simp add: plainChar_def)

lemma readDate_isoText:
  assumes "1000 \<le> y" and "y < 10000" and "m < 100" and "d < 100"
  shows "readDate field (isoText y m d) = Some (y, m, d)"
proof -
  have "dateBody (isoText y m d) = isoText y m d"
    unfolding dateBody_def plain_text(4) [OF isoText_plain [OF assms(3,4)]]
    by (rule plain_text(1) [OF isoText_plain [OF assms(3,4)]])
  then show ?thesis
    using isoDate_isoText [OF assms] pad2_digits assms by (simp add: readDate_def)
qed

lemma find_squash:
  "List.find (\<lambda>option. squash option = squash txt) options = Some hit \<Longrightarrow>
   List.find (\<lambda>option. squash option = squash (trim hit)) options = Some hit"
  using find_Some_in by fastforce

lemma magnitude_plain:
  assumes "if k = 0 then length (decimal m) \<le> 21 else int (length (decimal m)) - int k > - 6"
  shows "list_all plainChar (magnitudeText m k) \<and> magnitudeText m k \<noteq> []"
proof -
  note digits = digits_plain [OF list_all_decimal [of m]]
  then have "list_all plainChar (take i (decimal m))" "list_all plainChar (drop i (decimal m))" for i
    by (auto simp: list_all_iff dest: in_set_takeD in_set_dropD)
  moreover have "plainChar (CHR ''.'')" "plainChar (CHR ''0'')" by (simp_all add: plainChar_def isDigit_def)
  ultimately show ?thesis using digits assms by (auto simp: magnitudeText_def Let_def list_all_iff)
qed

lemma numberText_plain: "plainRange n \<Longrightarrow> list_all plainChar (numberToString n) \<and> numberToString n \<noteq> []"
proof (induction n rule: numberToString.induct)
  case (1 m k)
  then have "if k = 0 then length (decimal (nat \<bar>m\<bar>)) \<le> 21 else int (length (decimal (nat \<bar>m\<bar>))) - int k > - 6"
    by (simp add: Let_def)
  from magnitude_plain [OF this] have "list_all plainChar (magnitudeText (nat \<bar>m\<bar>) k) \<and> magnitudeText (nat \<bar>m\<bar>) k \<noteq> []" .
  moreover have "plainChar (CHR ''-'')" by (simp add: plainChar_def)
  ultimately show ?case by (simp add: abs_if split: if_splits)
qed

lemma decimalOf_canonical: "canonicalDec (decimalOf p)"
  by (simp add: decimalOf_def Let_def normDec_canonical split: prod.splits)

lemma okValue_iff [simp]: "okValue v = (w, None) \<longleftrightarrow> v = w" "badValue m \<noteq> (w, None)"
  by (simp_all add: okValue_def badValue_def)

lemma text_reads_back:
  assumes "normalizeText field (trim raw) = (v, None)" and "trim raw \<noteq> []"
  shows "\<exists>s. v = IvString s \<and> trim s = s \<and> s \<noteq> [] \<and> normalizeText field s = (v, None)"
proof -
  let ?s = "collapseSpaces (trim raw)"
  from assms(1) have v: "v = IvString ?s" by (simp add: normalizeText_def Let_def split: if_splits)
  with assms(1) have "normalizeText field ?s = (v, None)" by (simp add: normalizeText_def)
  with v collapse_trim_nonempty [OF assms(2)] show ?thesis by simp
qed

lemma email_reads_back:
  assumes "normalizeEmail field (trim raw) = (v, None)" and "trim raw \<noteq> []"
  shows "\<exists>s. v = IvString s \<and> trim s = s \<and> s \<noteq> [] \<and> normalizeEmail field s = (v, None)"
proof -
  let ?s = "toLowerCase (trim raw)"
  from assms(1) have v: "v = IvString ?s" by (simp add: normalizeEmail_def Let_def split: if_splits)
  with assms(1) have "normalizeEmail field ?s = (v, None)"
    by (simp add: normalizeEmail_def Let_def split: if_splits)
  moreover have "trim ?s = ?s" "?s \<noteq> []" using assms(2) by (simp_all add: lower_trim [symmetric]) (simp add: toLowerCase_def)
  ultimately show ?thesis using v by simp
qed

lemma date_reads_back:
  assumes "normalizeDate field (trim raw) = (v, None)"
  shows "\<exists>s. v = IvString s \<and> trim s = s \<and> s \<noteq> [] \<and> normalizeDate field s = (v, None)"
proof -
  from assms obtain y m d where ymd: "calendarDate y m d" "1900 \<le> y" "y \<le> 2200" "v = IvString (isoText y m d)"
    by (auto simp: normalizeDate_accepts)
  then have "m < 100" "d < 100" "1000 \<le> y" "y < 10000"
    using calendarDate_iff [of y m d] by (auto simp: daysInMonth_def Let_def split: if_splits)
  moreover from this have "readDate field (isoText y m d) = Some (y, m, d)" by (intro readDate_isoText)
  ultimately show ?thesis
    using ymd plain_text(1) [OF isoText_plain [of m d y]] by (auto simp: normalizeDate_accepts isoText_def)
qed

lemma number_reads_back:
  assumes "normalizeNumber txt = (v, None)" and "case v of IvNumber n \<Rightarrow> plainRange n | _ \<Rightarrow> True"
  shows "trim (valueText v) = valueText v \<and> valueText v \<noteq> [] \<and> normalizeNumber (valueText v) = (v, None)"
proof -
  from assms obtain p where v: "v = IvNumber (decimalOf p)" and range: "plainRange (decimalOf p)"
    by (auto simp: normalizeNumber_def split: option.splits)
  note plain = plain_text [OF conjunct1 [OF numberText_plain [OF range]]] numberText_plain [OF range]
  from number_roundtrip [OF decimalOf_canonical range] obtain q where
    "plainNumber (numberToString (decimalOf p)) = Some q" "decimalOf q = decimalOf p" by blast
  then have "normalizeNumber (numberToString (decimalOf p)) = (v, None)"
    unfolding normalizeNumber_def plain(2,3) v by simp
  then show ?thesis unfolding v valueText.simps using plain(1) plain(5) by blast
qed

lemma boolean_reads_back:
  assumes "normalizeBoolean txt = (v, None)"
  shows "trim (valueText v) = valueText v \<and> valueText v \<noteq> [] \<and> normalizeBoolean (valueText v) = (v, None)"
proof -
  have both: "normalizeBoolean ''true'' = (IvBool True, None)" "normalizeBoolean ''false'' = (IvBool False, None)"
    "trim ''true'' = ''true''" "trim ''false'' = ''false''" by code_simp+
  from assms obtain b where "v = IvBool b"
    by (auto simp: normalizeBoolean_def Let_def split: if_splits)
  with both show ?thesis by (cases b) simp_all
qed

lemma enum_reads_back:
  assumes "normalizeEnum field txt = (v, None)"
  shows "\<exists>s. v = IvString s \<and> normalizeEnum field (trim s) = (v, None)"
proof -
  let ?options = "case ifOptions field of Some os \<Rightarrow> os | None \<Rightarrow> []"
  from assms obtain hit where "List.find (\<lambda>option. squash option = squash txt) ?options = Some hit"
    and v: "hit \<noteq> []" "v = IvString hit"
    by (auto simp: normalizeEnum_def Let_def split: option.splits if_splits)
  with find_squash [of "txt" ?options hit] show ?thesis by (simp add: normalizeEnum_def Let_def)
qed

text \<open>
  What a cell is normalized to is a fixpoint: the stored value, printed, normalizes to itself, for every kind
  of field (numbers that print without an exponent), so exporting and importing again changes nothing.
\<close>

theorem accepted_values_read_back:
  assumes ok: "normalizeCell field raw = (v, None)" and some: "\<not> isBlank v"
    and fits: "case v of IvNumber n \<Rightarrow> plainRange n | _ \<Rightarrow> True"
  shows "normalizeCell field (valueText v) = (v, None)"
proof -
  have raw: "trim raw \<noteq> []" using ok some by (auto simp: normalizeCell_def)
  show ?thesis
  proof (cases "ifKind field")
    case FkText
    with ok raw have "normalizeText field (trim raw) = (v, None)" by (simp add: normalizeCell_def Let_def)
    from text_reads_back [OF this raw] FkText show ?thesis by (auto simp: normalizeCell_def Let_def)
  next
    case FkEmail
    with ok raw have "normalizeEmail field (trim raw) = (v, None)" by (simp add: normalizeCell_def Let_def)
    from email_reads_back [OF this raw] FkEmail show ?thesis by (auto simp: normalizeCell_def Let_def)
  next
    case FkDate
    with ok raw have "normalizeDate field (trim raw) = (v, None)" by (simp add: normalizeCell_def Let_def)
    from date_reads_back [OF this] FkDate show ?thesis by (auto simp: normalizeCell_def Let_def)
  next
    case FkNumber
    with ok raw have "normalizeNumber (trim raw) = (v, None)" by (simp add: normalizeCell_def Let_def)
    from number_reads_back [OF this fits] FkNumber show ?thesis by (simp add: normalizeCell_def Let_def)
  next
    case FkBoolean
    with ok raw have "normalizeBoolean (trim raw) = (v, None)" by (simp add: normalizeCell_def Let_def)
    from boolean_reads_back [OF this] FkBoolean show ?thesis by (simp add: normalizeCell_def Let_def)
  next
    case FkEnum
    with ok raw have "normalizeEnum field (trim raw) = (v, None)" by (simp add: normalizeCell_def Let_def)
    from enum_reads_back [OF this] some FkEnum show ?thesis by (auto simp: normalizeCell_def Let_def)
  qed
qed

definition exampleField :: "importFieldKind \<Rightarrow> importFieldSpec" where
  "exampleField k =
     \<lparr>ifKey = ''k'', ifLabel = ''K'', ifKind = k, ifRequired = False, ifAliases = [], ifOptions = None,
      ifMaxLength = None, ifDateOrder = None, ifInputOnly = False, ifHelp = None\<rparr>"

lemma example_date: "normalizeCell (exampleField FkDate) '' 4 Mar 2026'' = (IvString ''2026-03-04'', None)"
  by code_simp

theorem accepted_values_read_back_witness:
  "normalizeCell (exampleField FkDate) ''2026-03-04'' = (IvString ''2026-03-04'', None)"
proof -
  have "\<not> isBlank (IvString ''2026-03-04'')" by code_simp
  from accepted_values_read_back [OF example_date this] show ?thesis by simp
qed

text \<open>A month and a year without a day are read as a day of that month in another year.\<close>

lemma month_year_is_read_as_a_day:
  "normalizeCell (exampleField FkDate) ''Mar 2026'' = (IvString ''2026-03-20'', None)"
  "normalizeCell (exampleField FkDate) ''Dec 1999'' = (IvString ''1999-12-19'', None)"
  by code_simp+

section \<open>Rows\<close>

text \<open>The values a field may hold.\<close>

definition fits :: "importFieldSpec \<Rightarrow> importValue \<Rightarrow> bool" where
  "fits field v \<longleftrightarrow>
     v = IvNull \<or>
     (case ifKind field of
        FkText \<Rightarrow> (\<exists>s. v = IvString s \<and> s \<noteq> [] \<and> trim s = s \<and> collapseSpaces s = s \<and>
          length s \<le> (case ifMaxLength field of Some n \<Rightarrow> n | None \<Rightarrow> DEFAULT_TEXT_MAX))
      | FkEmail \<Rightarrow> (\<exists>s. v = IvString s \<and> IMPORT_EMAIL_RE s \<and> toLowerCase s = s \<and>
          length s \<le> (case ifMaxLength field of Some n \<Rightarrow> n | None \<Rightarrow> 320))
      | FkDate \<Rightarrow> (\<exists>y m d. v = IvString (isoText y m d) \<and> calendarDate y m d \<and> 1900 \<le> y \<and> y \<le> 2200)
      | FkNumber \<Rightarrow> (\<exists>n. v = IvNumber n \<and> canonicalDec n)
      | FkBoolean \<Rightarrow> (\<exists>b. v = IvBool b)
      | FkEnum \<Rightarrow> (\<exists>s os. v = IvString s \<and> ifOptions field = Some os \<and> s \<in> set os))"

lemma bad_null: "fst (badValue m) = IvNull"
  by (simp add: badValue_def)

lemma ok_value: "fst (okValue v) = v"
  by (simp add: okValue_def)

lemma fits_text: "trim raw \<noteq> [] \<Longrightarrow> ifKind field = FkText \<Longrightarrow> fits field (fst (normalizeText field (trim raw)))"
  using collapse_trim_nonempty [of raw]
  by (simp add: fits_def normalizeText_def Let_def bad_null ok_value)

lemma fits_email: "ifKind field = FkEmail \<Longrightarrow> fits field (fst (normalizeEmail field t))"
  by (simp add: fits_def normalizeEmail_def Let_def bad_null ok_value)

lemma fits_date:
  assumes "ifKind field = FkDate"
  shows "fits field (fst (normalizeDate field t))"
proof (cases "snd (normalizeDate field t)")
  case None
  then have "normalizeDate field t = (fst (normalizeDate field t), None)" by (cases "normalizeDate field t") simp
  with assms show ?thesis unfolding normalizeDate_accepts fits_def by auto
next
  case (Some m)
  then have "fst (normalizeDate field t) = IvNull"
    by (auto simp: normalizeDate_def Let_def okValue_def badValue_def split: option.splits)
  then show ?thesis by (simp add: fits_def)
qed

lemma fits_number: "ifKind field = FkNumber \<Longrightarrow> fits field (fst (normalizeNumber t))"
  by (auto simp: fits_def normalizeNumber_def bad_null ok_value decimalOf_canonical split: option.splits)

lemma fits_boolean: "ifKind field = FkBoolean \<Longrightarrow> fits field (fst (normalizeBoolean t))"
  by (auto simp: fits_def normalizeBoolean_def Let_def bad_null ok_value)

lemma fits_enum: "ifKind field = FkEnum \<Longrightarrow> fits field (fst (normalizeEnum field t))"
  using find_Some_in
  by (fastforce simp: fits_def normalizeEnum_def Let_def bad_null ok_value split: option.splits)

lemma normalizeCell_fits: "fits field (fst (normalizeCell field raw))"
proof (cases "trim raw = []")
  case True
  then show ?thesis by (simp add: normalizeCell_def fits_def okValue_def)
next
  case False
  then show ?thesis
    using fits_text [of raw field] fits_email fits_date fits_number fits_boolean fits_enum
    by (cases "ifKind field") (simp_all add: normalizeCell_def Let_def)
qed

definition rowFits :: "'db importDefinition \<Rightarrow> rowValues \<Rightarrow> bool" where
  "rowFits def values \<longleftrightarrow> list_all (\<lambda>f. fits f (valueOf values (ifKey f))) (dfFields def)"

lemma rowFits_empty: "rowFits def []"
  by (simp add: rowFits_def valueOf_def fits_def list_all_iff)

lemma setCell_fits:
  assumes "distinct (map ifKey (dfFields def))" and "f \<in> set (dfFields def)" and "fits f (fst result)"
    and "rowFits def (fst st)"
  shows "rowFits def (fst (setCell f result st))"
  using assms distinct_key_eq [OF assms(1)] by (auto simp: rowFits_def list_all_iff setCell_def valueOf_update)

lemma readField_fits:
  assumes "distinct (map ifKey (dfFields def))" and "f \<in> set (dfFields def)" and "rowFits def (fst st)"
  shows "rowFits def (fst (readField cells f st))"
proof -
  have "fits f (fst (case map_of cells (ifKey f) of None \<Rightarrow> okValue IvNull | Some raw \<Rightarrow> normalizeCell f raw))"
    by (simp add: ok_value normalizeCell_fits fits_def [of f IvNull] split: option.splits)
  then show ?thesis unfolding readField_def using setCell_fits assms by blast
qed

lemma applyProduced_fits:
  assumes "distinct (map ifKey (dfFields def))" and "rowFits def (fst st)"
  shows "rowFits def (fst (applyProduced def kv st))"
  using assms setCell_fits [OF assms(1) _ normalizeCell_fits assms(2)]
  by (auto simp: applyProduced_def fieldsByKey_Some split: option.splits)

lemma applyDerivation_fits:
  assumes "distinct (map ifKey (dfFields def))" and "rowFits def (fst st)"
  shows "rowFits def (fst (applyDerivation def d st))"
proof -
  have "rowFits def (fst (fold (applyProduced def) produced st))" for produced
    by (rule fold_invariant [where P = "\<lambda>st. rowFits def (fst st)"])
      (use assms applyProduced_fits in blast)+
  with assms(2) show ?thesis by (auto simp: applyDerivation_def split: sum.splits)
qed

lemma fold_require:
  "fst (fold requireField fs st) = fst st \<and>
   (snd (fold requireField fs st) = [] \<longrightarrow> snd st = [] \<and>
      list_all (\<lambda>f. ifRequired f \<longrightarrow> \<not> isBlank (valueOf (fst st) (ifKey f))) fs)"
proof (induction fs arbitrary: st)
  case (Cons f fs)
  from Cons [of "requireField f st"] show ?case
    by (auto simp: requireField_def split: if_splits)
qed simp

lemma fold_update_keys:
  "distinct (map g fs) \<Longrightarrow> set (map g fs) \<inter> fst ` set al = {} \<Longrightarrow>
   fold (\<lambda>f. AList.update (g f) (h f)) fs al = al @ map (\<lambda>f. (g f, h f)) fs"
proof (induction fs arbitrary: al)
  case (Cons f fs)
  have "AList.update (g f) (h f) al = al @ [(g f, h f)]"
    using Cons.prems by (induction al) auto
  moreover have "set (map g fs) \<inter> fst ` set (al @ [(g f, h f)]) = {}" using Cons.prems by auto
  ultimately show ?case using Cons.IH [of "al @ [(g f, h f)]"] Cons.prems by simp
qed simp

lemma targetValues_eq:
  "distinct (map ifKey (dfFields def)) \<Longrightarrow>
   targetValues def values = map (\<lambda>f. (ifKey f, valueOf values (ifKey f))) (targetFields def)"
  unfolding targetValues_def
  by (subst fold_update_keys) (auto simp: targetFields_def distinct_map_filter)

lemma normalizeRow_fits:
  assumes "distinct (map ifKey (dfFields def))"
  shows "rowFits def (nrAllValues (normalizeRow def cells extras))"
proof -
  let ?st1 = "fold (readField cells) (dfFields def) ([], [])"
  let ?st2 = "fold (applyDerivation def) (dfDerive def) ?st1"
  have "rowFits def (fst ?st1)"
    by (rule fold_invariant [where P = "\<lambda>st. rowFits def (fst st)"])
      (use rowFits_empty readField_fits [OF assms] in \<open>auto simp del: fold_simps\<close>)
  then have "rowFits def (fst ?st2)"
    by (rule fold_invariant [where P = "\<lambda>st. rowFits def (fst st)"]) (rule applyDerivation_fits [OF assms])
  then show ?thesis
    using fold_require [of "dfFields def" ?st2] by (simp add: normalizeRow_def Let_def)
qed

lemma normalizeRow_required:
  "nrErrors (normalizeRow def cells extras) = [] \<Longrightarrow> f \<in> set (dfFields def) \<Longrightarrow> ifRequired f \<Longrightarrow>
     \<not> isBlank (valueOf (nrAllValues (normalizeRow def cells extras)) (ifKey f))"
  using fold_require [of "dfFields def" "fold (applyDerivation def) (dfDerive def) (fold (readField cells) (dfFields def) ([], []))"]
  by (simp add: normalizeRow_def Let_def list_all_iff)

lemma normalizeRow_values:
  "nrValues (normalizeRow def cells extras) = targetValues def (nrAllValues (normalizeRow def cells extras))"
  by (simp add: normalizeRow_def Let_def)

text \<open>
  Normalizing a row of a registered definition yields, for every field, a value of the kind the field
  declares (an empty one where the cell was empty or wrong), whether it was read or derived; a row
  without errors has every required value; and exactly the fields that are not input-only reach the
  write.
\<close>

theorem normalized_row_is_typed:
  assumes "assertDefinitionIsCoherent def = Inr ()"
  shows "list_all (\<lambda>f. fits f (valueOf (nrAllValues (normalizeRow def cells extras)) (ifKey f))) (dfFields def) \<and>
    (nrErrors (normalizeRow def cells extras) = [] \<longrightarrow>
       list_all (\<lambda>f. ifRequired f \<longrightarrow> \<not> isBlank (valueOf (nrAllValues (normalizeRow def cells extras)) (ifKey f)))
         (dfFields def)) \<and>
    nrValues (normalizeRow def cells extras) =
      map (\<lambda>f. (ifKey f, valueOf (nrAllValues (normalizeRow def cells extras)) (ifKey f))) (targetFields def) \<and>
    nrExtras (normalizeRow def cells extras) = extras"
proof -
  have keys: "distinct (map ifKey (dfFields def))" using assms by (simp add: coherent_iff coherent_def)
  then show ?thesis
    using normalizeRow_fits [OF keys, of cells extras] normalizeRow_required [of def cells extras]
    by (simp add: rowFits_def list_all_iff normalizeRow_values targetValues_eq [OF keys])
      (simp add: normalizeRow_def Let_def)
qed

definition exampleDefinition :: "unit importDefinition" where
  "exampleDefinition =
     \<lparr>dfName = ''people'', dfLabel = ''People'', dfDescription = ''Staff roster'',
      dfFields = [(exampleField FkText)\<lparr>ifKey := ''n'', ifInputOnly := True\<rparr>, (exampleField FkText)\<lparr>ifKey := ''f'', ifRequired := True\<rparr>,
                  (exampleField FkText)\<lparr>ifKey := ''l''\<rparr>, exampleField FkDate],
      dfMatchBy = [[''f'', ''l'']], dfDerive = [splitFullName ''n'' ''f'' ''l''], dfCapability = None, dfAllow = None,
      dfAttestation = None, dfScreenRows = None, dfLoadExisting = (\<lambda>_ _ _. []),
      dfUpsertRow = (\<lambda>i _ _. Inr ((), i)), dfSampleCsv = None\<rparr>"

lemma example_coherent: "assertDefinitionIsCoherent exampleDefinition = Inr ()"
  unfolding coherent_iff
  by (simp add: coherent_def exampleDefinition_def exampleField_def splitFullName_def)

theorem normalized_row_is_typed_witness:
  "valueOf (nrAllValues (normalizeRow exampleDefinition [(''n'', ''Ruiz, Ana'')] [])) ''f'' = IvString ''Ana'' \<and>
   nrValues (normalizeRow exampleDefinition [(''n'', ''Ruiz, Ana'')] []) =
     [(''f'', IvString ''Ana''), (''l'', IvString ''Ruiz''), (''k'', IvNull)]"
proof -
  let ?all = "nrAllValues (normalizeRow exampleDefinition [(''n'', ''Ruiz, Ana'')] [])"
  have v: "valueOf ?all ''f'' = IvString ''Ana''" "valueOf ?all ''l'' = IvString ''Ruiz''" "valueOf ?all ''k'' = IvNull"
    by code_simp+
  with normalized_row_is_typed [OF example_coherent, of "[(''n'', ''Ruiz, Ana'')]" "[]"]
  show ?thesis by (simp add: targetFields_def exampleDefinition_def exampleField_def)
qed

end
