(* ===== verification/ImportParseProofs.thy ===== *)
theory ImportParseProofs
  imports ImportParse
begin

text \<open>
  What the reader of \<^verbatim>\<open>src/services/import/parse.ts\<close> promises: a CSV printed by the rules of
  RFC 4180 reads back cell for cell, and what a file is shaped into is rectangular, within the limits,
  and the same when the file is read again with the sheet and the header row that were chosen.
\<close>

section \<open>Printing a CSV\<close>

text \<open>
  A field is written with or without quotes; a row ends in one of the three line endings. A field
  without quotes may not hold a quote, a comma or a line break, and a lone \<^verbatim>\<open>\r\<close> may not be
  followed by a row whose text starts with \<^verbatim>\<open>\n\<close>, that is, by an empty row that ends in one.
\<close>

datatype lineEnding = EndLf | EndCrLf | EndCr

fun endingText :: "lineEnding \<Rightarrow> units" where
  "endingText EndLf = [LF]"
| "endingText EndCrLf = [CR, LF]"
| "endingText EndCr = [CR]"

definition special :: "16 word \<Rightarrow> bool" where
  "special u \<longleftrightarrow> u = QUOTE \<or> u = COMMA \<or> u = CR \<or> u = LF"

fun escapeQuotes :: "units \<Rightarrow> units" where
  "escapeQuotes [] = []"
| "escapeQuotes (u # us) = (if u = QUOTE then QUOTE # QUOTE # escapeQuotes us else u # escapeQuotes us)"

fun fieldText :: "bool \<times> units \<Rightarrow> units" where
  "fieldText (quote, us) = (if quote then QUOTE # escapeQuotes us @ [QUOTE] else us)"

fun plainField :: "bool \<times> units \<Rightarrow> bool" where
  "plainField (quote, us) \<longleftrightarrow> quote \<or> list_all (\<lambda>u. \<not> special u) us"

definition rowText :: "(bool \<times> units) list \<Rightarrow> units" where
  "rowText cells = joinWith [COMMA] (map fieldText cells)"

type_synonym csvLine = "(bool \<times> units) list \<times> lineEnding"

definition lineText :: "csvLine \<Rightarrow> units" where
  "lineText l = rowText (fst l) @ endingText (snd l)"

definition csvText :: "csvLine list \<Rightarrow> (bool \<times> units) list \<Rightarrow> units" where
  "csvText lines final = concat (map lineText lines) @ rowText final"

definition csvRowOk :: "(bool \<times> units) list \<Rightarrow> bool" where
  "csvRowOk cells \<longleftrightarrow> cells \<noteq> [] \<and> list_all plainField cells"

fun linesOk :: "csvLine list \<Rightarrow> (bool \<times> units) list \<Rightarrow> bool" where
  "linesOk [] final \<longleftrightarrow> final = [] \<or> (csvRowOk final \<and> rowText final \<noteq> [])"
| "linesOk (l # ls) final \<longleftrightarrow>
     csvRowOk (fst l) \<and> (snd l = EndCr \<longrightarrow> take 1 (csvText ls final) \<noteq> [LF]) \<and> linesOk ls final"

section \<open>Reading it back\<close>

lemma csv_quoted:
  "take 1 rest \<noteq> [QUOTE] \<Longrightarrow>
   csvLoop True True field row rows (escapeQuotes us @ QUOTE # rest) = csvLoop False True (field @ us) row rows rest"
  by (induction us arbitrary: field) auto

lemma csv_plain:
  "list_all (\<lambda>u. \<not> special u) us \<Longrightarrow>
   csvLoop False saw field row rows (us @ rest) = csvLoop False (saw \<or> us \<noteq> []) (field @ us) row rows rest"
  by (induction us arbitrary: saw field) (auto simp: special_def)

lemma csv_field:
  assumes "plainField f" and "take 1 rest \<noteq> [QUOTE]"
  shows "csvLoop False saw [] row rows (fieldText f @ rest) =
    csvLoop False (saw \<or> fieldText f \<noteq> []) (snd f) row rows rest"
proof (cases f)
  case (Pair q us)
  show ?thesis
  proof (cases q)
    case True
    then show ?thesis using csv_quoted [OF assms(2), of "[]" row rows us] Pair by simp
  next
    case False
    then show ?thesis using csv_plain [of us saw "[]"] assms(1) Pair by simp
  qed
qed

lemma csv_row:
  assumes "cells \<noteq> []" and "list_all plainField cells" and "take 1 rest \<noteq> [QUOTE]"
  shows "csvLoop False saw [] row rows (rowText cells @ rest) =
    csvLoop False (saw \<or> rowText cells \<noteq> []) (snd (last cells)) (row @ map snd (butlast cells)) rows rest"
  using assms
proof (induction cells arbitrary: saw row)
  case (Cons f fs)
  show ?case
  proof (cases fs)
    case Nil
    then show ?thesis using Cons.prems csv_field [of f rest] by (simp add: rowText_def)
  next
    case (Cons g gs)
    have split: "rowText (f # fs) = fieldText f @ COMMA # rowText fs"
      using Cons by (simp add: rowText_def)
    have "csvLoop False saw [] row rows (rowText (f # fs) @ rest) =
        csvLoop False (saw \<or> fieldText f \<noteq> []) (snd f) row rows (COMMA # rowText fs @ rest)"
      using Cons.prems csv_field [of f "COMMA # rowText fs @ rest"] by (simp add: split)
    also have "\<dots> = csvLoop False True [] (row @ [snd f]) rows (rowText fs @ rest)"
      by simp
    also have "\<dots> = csvLoop False True (snd (last fs)) (row @ map snd (butlast (f # fs))) rows rest"
      using Cons.IH [of True "row @ [snd f]"] Cons.prems Cons by simp
    also have "\<dots> = csvLoop False (saw \<or> rowText (f # fs) \<noteq> []) (snd (last (f # fs)))
        (row @ map snd (butlast (f # fs))) rows rest"
    proof -
      have "rowText (f # fs) \<noteq> []" unfolding split by simp
      moreover have "last (f # fs) = last fs" using Cons by simp
      ultimately show ?thesis by simp
    qed
    finally show ?thesis .
  qed
qed simp

lemma map_snoc_last: "xs \<noteq> [] \<Longrightarrow> map f (butlast xs) @ [f (last xs)] = map f xs"
  by (induction xs) auto

lemma csv_line:
  assumes "csvRowOk (fst l)" and "snd l = EndCr \<Longrightarrow> take 1 rest \<noteq> [LF]"
  shows "csvLoop False False [] [] rows (lineText l @ rest) =
    csvLoop False False [] [] (rows @ [map snd (fst l)]) rest"
proof -
  let ?cells = "fst l"
  have cells: "map snd (butlast ?cells) @ [snd (last ?cells)] = map snd ?cells"
    using assms(1) by (simp add: csvRowOk_def map_snoc_last)
  have "csvLoop False False [] [] rows (lineText l @ rest) =
      csvLoop False (rowText ?cells \<noteq> []) (snd (last ?cells)) (map snd (butlast ?cells)) rows
        (endingText (snd l) @ rest)"
    using assms(1) csv_row [of ?cells "endingText (snd l) @ rest" False "[]"]
    by (cases "snd l") (simp_all add: csvRowOk_def lineText_def)
  also have "\<dots> = csvLoop False False [] [] (rows @ [map snd ?cells]) rest"
    using assms(2) cells by (cases "snd l") simp_all
  finally show ?thesis .
qed

lemma csv_lines:
  "linesOk lines final \<Longrightarrow>
   csvLoop False False [] [] rows (csvText lines final) =
     rows @ map (\<lambda>l. map snd (fst l)) lines @ (if final = [] then [] else [map snd final])"
proof (induction lines arbitrary: rows)
  case Nil
  show ?case
  proof (cases "final = []")
    case True
    then show ?thesis by (simp add: csvText_def rowText_def)
  next
    case False
    then have "csvLoop False False [] [] rows (rowText final) =
        csvLoop False True (snd (last final)) (map snd (butlast final)) rows []"
      using Nil csv_row [of final "[]" False "[]"] by (simp add: csvRowOk_def)
    then show ?thesis using False
      by (simp add: csvText_def map_snoc_last)
  qed
next
  case (Cons l ls)
  have "csvLoop False False [] [] rows (csvText (l # ls) final) =
      csvLoop False False [] [] rows (lineText l @ csvText ls final)"
    by (simp add: csvText_def)
  also have "\<dots> = csvLoop False False [] [] (rows @ [map snd (fst l)]) (csvText ls final)"
    using Cons.prems csv_line by simp
  finally show ?case using Cons by simp
qed

text \<open>
  C38. A CSV written by the rules of RFC 4180, each field quoted or not, each row ended by a line feed, a
  carriage return or both, with or without a byte order mark and with or without an ending on the
  last row, reads back as its rows.
\<close>

theorem csv_roundtrip:
  assumes "linesOk lines final"
  shows "parseCsv (BOM # csvText lines final) =
        map (\<lambda>l. map snd (fst l)) lines @ (if final = [] then [] else [map snd final]) \<and>
      (take 1 (csvText lines final) = [BOM] \<or>
       parseCsv (csvText lines final) = parseCsv (BOM # csvText lines final))"
proof -
  note read = csv_lines [OF assms, of "[]"]
  show ?thesis
    by (cases "take 1 (csvText lines final) = [BOM]") (simp_all only: parseCsv_def read, simp_all add: read)
qed

definition exampleCsv :: "csvLine list" where
  "exampleCsv =
     [([(True, [97, QUOTE, 98, LF]), (False, [99])], EndCrLf),
      ([(False, []), (True, [COMMA])], EndCr),
      ([(False, [100])], EndLf)]"

theorem csv_roundtrip_witness:
  "parseCsv (csvText exampleCsv [(False, [101])]) =
     [[[97, QUOTE, 98, LF], [99]], [[], [COMMA]], [[100]], [[101]]]"
  using csv_roundtrip [of exampleCsv "[(False, [101])]"]
  by (simp add: exampleCsv_def csvText_def lineText_def rowText_def csvRowOk_def special_def)

section \<open>The shape of what is read\<close>

lemma length_labelLoop [simp]: "length (labelLoop i seen cells) = length cells"
  by (induction i seen cells rule: labelLoop.induct) (auto simp: Let_def)

lemma headerBase_nonempty [simp]: "headerBase i cell \<noteq> []"
  by (simp add: headerBase_def)

lemma labelLoop_nonempty: "list_all (\<lambda>l. l \<noteq> []) (labelLoop i seen cells)"
  by (induction i seen cells rule: labelLoop.induct) (auto simp: Let_def)

lemma labelColumns_nonempty: "list_all (\<lambda>l. l \<noteq> []) (labelColumns row)"
  by (simp add: labelColumns_def labelLoop_nonempty)

lemma length_labelColumns: "length (labelColumns row) \<le> length row"
  unfolding labelColumns_def length_labelLoop length_rev
  using length_dropWhile_le [of blankCell "rev row"] by simp

lemma foldl_max_le:
  "int (foldl (\<lambda>m row. max m (length row)) k rows) \<le> n \<longleftrightarrow> int k \<le> n \<and> list_all (\<lambda>row. int (length row) \<le> n) rows"
proof (induction rows arbitrary: k)
  case (Cons row rows)
  have "int (max k (length row)) \<le> n \<longleftrightarrow> int k \<le> n \<and> int (length row) \<le> n" by linarith
  with Cons show ?case by simp
qed simp

lemma trimGrid_Inr:
  "trimGrid g = Inr g' \<Longrightarrow>
     int (length g') \<le> MAX_IMPORT_ROWS + int HEADER_SCAN_ROWS \<and> list_all (\<lambda>row. int (length row) \<le> MAX_IMPORT_COLUMNS) g'"
  by (auto simp: trimGrid_def Let_def not_less foldl_max_le list_all_rev)

lemma padRow_ok: "length (padRow n raw) = n \<and> list_all (\<lambda>c. trim c = c) (padRow n raw)"
  by (simp add: padRow_def list_all_iff)

lemma shapeGrid_Inr:
  assumes "shapeGrid g meta = Inr p"
  shows "psColumns p \<noteq> []" and "list_all (\<lambda>l. l \<noteq> []) (psColumns p)"
    and "\<exists>row\<in>set g. length (psColumns p) \<le> length row"
    and "int (length (psRows p)) \<le> MAX_IMPORT_ROWS"
    and "list_all (\<lambda>row. length row = length (psColumns p) \<and> list_all (\<lambda>c. trim c = c) row) (psRows p)"
proof -
  let ?i = "case gmHeaderRowIndex meta of Some i \<Rightarrow> i | None \<Rightarrow> int (detectHeaderRow g)"
  have i: "0 \<le> ?i" "?i < int (length g)"
    and columns: "psColumns p = labelColumns (g ! nat ?i)" "psColumns p \<noteq> []"
    and rows: "psRows p = map (padRow (length (psColumns p)))
        (filter (\<lambda>raw. \<not> list_all blankCell raw) (drop (nat ?i + 1) g))" "int (length (psRows p)) \<le> MAX_IMPORT_ROWS"
    using assms unfolding shapeGrid_def Let_def guard_Inr_iff by auto
  show "psColumns p \<noteq> []" "int (length (psRows p)) \<le> MAX_IMPORT_ROWS" by fact+
  show "list_all (\<lambda>l. l \<noteq> []) (psColumns p)" by (simp add: columns(1) labelColumns_nonempty)
  have "g ! nat ?i \<in> set g" using i by (intro nth_mem) linarith
  then show "\<exists>row\<in>set g. length (psColumns p) \<le> length row"
    using length_labelColumns columns(1) by metis
  show "list_all (\<lambda>row. length row = length (psColumns p) \<and> list_all (\<lambda>c. trim c = c) row) (psRows p)"
    unfolding rows(1) by (simp add: list_all_iff padRow_ok [unfolded list_all_iff])
qed

text \<open>The grid behind a parse, and the shaping of it.\<close>

lemma parse_Inr:
  assumes "parseSpreadsheet rd bytes options = Inr p"
  obtains g where "list_all (\<lambda>row. int (length row) \<le> MAX_IMPORT_COLUMNS) g"
    and "shapeGrid g \<lparr>gmFormat = detectFormat options, gmSheetName = psSheetName p,
           gmSheetNames = psSheetNames p, gmHeaderRowIndex = poHeaderRowIndex options\<rparr> = Inr p"
proof -
  obtain g n ns where src: "(if detectFormat options = SfXlsx
        then readXlsxGrid (srWorkbook rd) bytes (poSheetName options)
        else ebind (readCsvGrid (srDecoder rd) bytes) (\<lambda>g. Inr (g, [], []))) = Inr (g, n, ns)"
    and shape: "shapeGrid g \<lparr>gmFormat = detectFormat options, gmSheetName = n, gmSheetNames = ns,
        gmHeaderRowIndex = poHeaderRowIndex options\<rparr> = Inr p"
    using assms unfolding parseSpreadsheet_def Let_def guard_Inr_iff ebind_Inr_iff by auto
  have "\<exists>g0. trimGrid g0 = Inr g"
  proof (cases "detectFormat options = SfXlsx")
    case True
    then show ?thesis using src
      by (auto simp: readXlsxGrid_def Let_def ebind_Inr_iff split: sum.splits option.splits)
  next
    case False
    then show ?thesis using src
      by (auto simp: readCsvGrid_def ebind_Inr_iff split: option.splits)
  qed
  moreover have "n = psSheetName p" "ns = psSheetNames p"
    using shape by (auto simp: shapeGrid_def Let_def)
  ultimately show ?thesis using that trimGrid_Inr shape by blast
qed

text \<open>
  A file that parses has between 1 and 200 columns, each with a label, and at most 20000 data rows, each
  with one trimmed cell per column.
\<close>

theorem parsed_sheet_is_rectangular:
  assumes "parseSpreadsheet rd bytes options = Inr p"
  shows "0 < length (psColumns p) \<and> int (length (psColumns p)) \<le> MAX_IMPORT_COLUMNS \<and>
    list_all (\<lambda>l. l \<noteq> []) (psColumns p) \<and> int (length (psRows p)) \<le> MAX_IMPORT_ROWS \<and>
    list_all (\<lambda>row. length row = length (psColumns p) \<and> list_all (\<lambda>c. trim c = c) row) (psRows p)"
proof -
  from parse_Inr [OF assms] obtain g where
    g: "list_all (\<lambda>row. int (length row) \<le> MAX_IMPORT_COLUMNS) g"
    and shape: "shapeGrid g \<lparr>gmFormat = detectFormat options, gmSheetName = psSheetName p,
           gmSheetNames = psSheetNames p, gmHeaderRowIndex = poHeaderRowIndex options\<rparr> = Inr p"
    by blast
  from shapeGrid_Inr(3) [OF shape] g have "int (length (psColumns p)) \<le> MAX_IMPORT_COLUMNS"
    by (auto simp: list_all_iff intro: le_trans)
  with shapeGrid_Inr [OF shape] show ?thesis by simp
qed

definition plainReaders :: "string sheetReaders" where
  "plainReaders = \<lparr>srByteLength = length, srDecoder = (\<lambda>s. Some (map of_char s)), srWorkbook = (\<lambda>s. Inl ''no workbook'')\<rparr>"

definition csvOptions :: parseOptions where
  "csvOptions = \<lparr>poFilename = Some ''list.csv'', poContentType = None, poSheetName = None, poHeaderRowIndex = None\<rparr>"

definition exampleSheet :: string where
  "exampleSheet = ''Name,Email,'' @ [char_of (10::nat)] @ ''Ann,ann@x.io'' @ [char_of (10::nat)]"

definition exampleParsed :: parsedSpreadsheet where
  "exampleParsed =
     \<lparr>psFormat = SfCsv, psSheetName = [], psSheetNames = [], psHeaderRowIndex = 0, psSkippedLeadingRows = 0,
      psColumns = [''Name'', ''Email''], psRows = [[''Ann'', ''ann@x.io'']]\<rparr>"

lemma example_parses: "parseSpreadsheet plainReaders exampleSheet csvOptions = Inr exampleParsed"
  by code_simp

theorem parsed_sheet_is_rectangular_witness:
  "length (psColumns exampleParsed) = 2 \<and> int (length (psColumns exampleParsed)) \<le> MAX_IMPORT_COLUMNS"
  using parsed_sheet_is_rectangular [OF example_parses] by (simp add: exampleParsed_def)

section \<open>Reading the file again\<close>

definition sheetText :: "workbook \<Rightarrow> string \<Rightarrow> grid option" where
  "sheetText wb name =
     (case map_of (wbSheets wb) name of
        None \<Rightarrow> None
      | Some cells \<Rightarrow>
          if list_ex (list_ex (\<lambda>cell. cell \<noteq> [])) (map (map cellToText) cells)
          then Some (map (map cellToText) cells) else None)"

lemma firstFilled_Cons:
  "firstFilledSheet wb (name # names) =
     (case sheetText wb name of Some g \<Rightarrow> Some (name, g) | None \<Rightarrow> firstFilledSheet wb names)"
proof (cases "map_of (wbSheets wb) name")
  case None
  then show ?thesis by (simp add: sheetText_def)
next
  case (Some cells)
  then show ?thesis
    by (cases "list_ex (list_ex (\<lambda>cell. cell \<noteq> [])) (map (map cellToText) cells)")
      (simp_all only: sheetText_def Let_def firstFilledSheet.simps option.case if_True if_False)
qed

lemma firstFilled_alone:
  "firstFilledSheet wb names = Some (n, g) \<Longrightarrow> n \<in> set names \<and> firstFilledSheet wb [n] = Some (n, g)"
proof (induction names)
  case (Cons name names)
  show ?case
  proof (cases "sheetText wb name")
    case None
    then show ?thesis using Cons by (simp add: firstFilled_Cons del: firstFilledSheet.simps(2))
  next
    case (Some h)
    then show ?thesis using Cons.prems by (simp add: firstFilled_Cons del: firstFilledSheet.simps(2))
  qed
qed simp

definition rereadOptions :: "parsedSpreadsheet \<Rightarrow> parseOptions \<Rightarrow> parseOptions" where
  "rereadOptions p options =
     options\<lparr>poSheetName := (if psSheetName p = [] then None else Some (psSheetName p)),
             poHeaderRowIndex := Some (psHeaderRowIndex p)\<rparr>"

lemma xlsx_reread:
  assumes "readXlsxGrid reader bytes wanted = Inr (g, n, ns)"
  shows "readXlsxGrid reader bytes (if n = [] then None else Some n) = Inr (g, n, ns)"
proof -
  from assms obtain wb raw where wb: "reader bytes = Inr wb" "ns = wbSheetNames wb" "ns \<noteq> []"
    and wanted: "\<not> (truthy wanted \<and> the wanted \<notin> set ns)"
    and pick: "firstFilledSheet wb (if truthy wanted then [the wanted] else ns) = Some (n, raw)"
    and trimmed: "trimGrid raw = Inr g"
    by (auto simp: readXlsxGrid_def Let_def ebind_Inr_iff split: sum.splits option.splits)
  note alone = firstFilled_alone [OF pick]
  have "n \<in> set ns" using alone wanted by (auto split: if_splits)
  moreover have "firstFilledSheet wb (if n = [] then ns else [n]) = Some (n, raw)"
    using alone pick by (auto simp: truthy_def split: if_splits option.splits)
  ultimately show ?thesis using wb trimmed
    by (auto simp: readXlsxGrid_def Let_def truthy_def)
qed

lemma shape_reread:
  assumes "shapeGrid g meta = Inr p"
  shows "shapeGrid g (meta\<lparr>gmHeaderRowIndex := Some (psHeaderRowIndex p)\<rparr>) = Inr p"
proof -
  have "psHeaderRowIndex p = (case gmHeaderRowIndex meta of Some i \<Rightarrow> i | None \<Rightarrow> int (detectHeaderRow g))"
    using assms by (auto simp: shapeGrid_def Let_def)
  then show ?thesis using assms by (simp add: shapeGrid_def)
qed

text \<open>
  Reading a file again with the sheet and the header row that a first reading chose gives the same
  columns and rows, so the column indexes of a stored mapping keep their meaning.
\<close>

theorem reread_gives_the_same_sheet:
  assumes "parseSpreadsheet rd bytes options = Inr p"
  shows "parseSpreadsheet rd bytes (rereadOptions p options) = Inr p"
proof -
  let ?read = "\<lambda>wanted. if detectFormat options = SfXlsx
        then readXlsxGrid (srWorkbook rd) bytes wanted
        else ebind (readCsvGrid (srDecoder rd) bytes) (\<lambda>g. Inr (g, [], []))"
  let ?again = "if psSheetName p = [] then None else Some (psSheetName p)"
  obtain g n ns where some: "srByteLength rd bytes \<noteq> 0" and src: "?read (poSheetName options) = Inr (g, n, ns)"
    and shape: "shapeGrid g \<lparr>gmFormat = detectFormat options, gmSheetName = n, gmSheetNames = ns,
        gmHeaderRowIndex = poHeaderRowIndex options\<rparr> = Inr p"
    using assms unfolding parseSpreadsheet_def Let_def guard_Inr_iff ebind_Inr_iff by auto
  have n: "n = psSheetName p" using shape by (auto simp: shapeGrid_def Let_def)
  have again: "?read ?again = Inr (g, n, ns)"
    using src xlsx_reread [of "srWorkbook rd" bytes "poSheetName options" g n ns] n by (auto split: if_splits)
  have "detectFormat (rereadOptions p options) = detectFormat options"
    "poSheetName (rereadOptions p options) = ?again"
    "poHeaderRowIndex (rereadOptions p options) = Some (psHeaderRowIndex p)"
    by (simp_all add: detectFormat_def rereadOptions_def)
  then show ?thesis
    using some again shape_reread [OF shape]
    unfolding parseSpreadsheet_def Let_def by (simp only: guard_simps ebind_simps split_conv gridMeta.simps)
qed

theorem reread_gives_the_same_sheet_witness:
  "parseSpreadsheet plainReaders exampleSheet (csvOptions\<lparr>poHeaderRowIndex := Some 0\<rparr>) = Inr exampleParsed"
  using reread_gives_the_same_sheet [OF example_parses]
  by (simp add: rereadOptions_def exampleParsed_def csvOptions_def)

text \<open>A suffix can collide with a label of the file.\<close>

lemma labels_may_repeat: "labelColumns [''A (2)'', ''A'', ''A''] = [''A (2)'', ''A'', ''A (2)'']"
  by code_simp

end
