(* ===== verification/ImportMapping.thy ===== *)
theory ImportMapping
  imports ImportNormalize
begin

text \<open>
  \<^verbatim>\<open>src/services/import/mapping.ts\<close>: which column feeds which field, and which record a row is. The
  column indexes of a submitted mapping are integers, as the route validates them; a \<open>Map\<close> is an
  association list in insertion order.
\<close>

section \<open>Proposing a mapping\<close>

datatype mappingConfidence = McExact | McAlias | McFuzzy | McNone

record columnProposal =
  cpColumnIndex :: nat
  cpColumnLabel :: string
  cpFieldKey :: "string option"
  cpConfidence :: mappingConfidence
  cpAmbiguous :: bool
  cpCandidates :: "string list"

definition matchesAtTier :: "string \<Rightarrow> importFieldSpec \<Rightarrow> mappingConfidence \<Rightarrow> bool" where
  "matchesAtTier heading field tier \<longleftrightarrow>
     (let lower = toLowerCase (trim heading); squashed = squash (trim heading) in
      case tier of
        McExact \<Rightarrow> lower = toLowerCase (ifKey field) \<or> lower = toLowerCase (ifLabel field)
      | McAlias \<Rightarrow> list_ex (\<lambda>alias. toLowerCase (trim alias) = lower) (ifAliases field)
      | _ \<Rightarrow> squashed \<noteq> [] \<and>
          (squashed = squash (ifKey field) \<or> squashed = squash (ifLabel field) \<or>
           list_ex (\<lambda>alias. squash alias = squashed) (ifAliases field)))"

definition initialProposal :: "nat \<Rightarrow> string \<Rightarrow> columnProposal" where
  "initialProposal i label =
     \<lparr>cpColumnIndex = i, cpColumnLabel = label, cpFieldKey = None, cpConfidence = McNone,
      cpAmbiguous = False, cpCandidates = []\<rparr>"

definition settledProposal :: "columnProposal \<Rightarrow> bool" where
  "settledProposal p \<longleftrightarrow> truthy (cpFieldKey p) \<or> cpAmbiguous p"

definition hitsFor :: "importFieldSpec list \<Rightarrow> string set \<Rightarrow> mappingConfidence \<Rightarrow> string \<Rightarrow> string list" where
  "hitsFor specs claimed tier label =
     map ifKey (filter (\<lambda>f. ifKey f \<notin> claimed \<and> matchesAtTier label f tier) specs)"

text \<open>What one column decides in one pass: its proposal, and the field it wants.\<close>

definition decideColumn ::
    "importFieldSpec list \<Rightarrow> string set \<Rightarrow> mappingConfidence \<Rightarrow> columnProposal \<Rightarrow> columnProposal \<times> (nat \<times> string) option" where
  "decideColumn specs claimed tier p =
     (if settledProposal p then (p, None)
      else (case hitsFor specs claimed tier (cpColumnLabel p) of
          [] \<Rightarrow> (p, None)
        | [k] \<Rightarrow> (p\<lparr>cpConfidence := tier\<rparr>, Some (cpColumnIndex p, k))
        | ks \<Rightarrow> (p\<lparr>cpAmbiguous := True, cpCandidates := ks\<rparr>, None)))"

definition groupDecision :: "nat \<times> string \<Rightarrow> (string \<times> nat list) list \<Rightarrow> (string \<times> nat list) list" where
  "groupDecision d m =
     AList.update (snd d) ((case map_of m (snd d) of Some indexes \<Rightarrow> indexes | None \<Rightarrow> []) @ [fst d]) m"

definition clashing :: "string \<Rightarrow> columnProposal \<Rightarrow> columnProposal" where
  "clashing k p = p\<lparr>cpConfidence := McNone, cpAmbiguous := True, cpCandidates := [k]\<rparr>"

type_synonym proposalState = "columnProposal list \<times> string set"

definition settleField :: "string \<times> nat list \<Rightarrow> proposalState \<Rightarrow> proposalState" where
  "settleField grp st =
     (case grp of (k, indexes) \<Rightarrow>
        (case indexes of
           [i] \<Rightarrow> ((fst st)[i := (fst st ! i)\<lparr>cpFieldKey := Some k\<rparr>], insert k (snd st))
         | _ \<Rightarrow> (fold (\<lambda>i ps. ps[i := clashing k (ps ! i)]) indexes (fst st), snd st)))"

definition proposalPass :: "importFieldSpec list \<Rightarrow> mappingConfidence \<Rightarrow> proposalState \<Rightarrow> proposalState" where
  "proposalPass specs tier st =
     (let decided = map (decideColumn specs (snd st) tier) (fst st);
          decisions = List.map_filter snd decided
      in fold settleField (fold groupDecision decisions []) (map fst decided, snd st))"

definition proposeMapping :: "string list \<Rightarrow> 'db importDefinition \<Rightarrow> columnProposal list" where
  "proposeMapping columns def =
     fst (fold (proposalPass (dfFields def)) [McExact, McAlias, McFuzzy]
       (map2 initialProposal [0..<length columns] columns, {}))"

section \<open>Resolving a mapping\<close>

record columnMappingEntry =
  meColumnIndex :: int
  meFieldKey :: "string option"
  meCustom :: "string option"

record columnTarget =
  ctgFieldKey :: "string option"
  ctgCustom :: "string option"

record resolveState =
  rsByColumn :: "(nat \<times> columnTarget) list"
  rsUsedFields :: "(string \<times> nat) list"
  rsUsedCustom :: "string list"
  rsErrors :: "string list"

definition mapError :: "string \<Rightarrow> resolveState \<Rightarrow> resolveState" where
  "mapError m st = st\<lparr>rsErrors := rsErrors st @ [m]\<rparr>"

definition setTarget :: "nat \<Rightarrow> columnTarget \<Rightarrow> resolveState \<Rightarrow> resolveState" where
  "setTarget i target st = st\<lparr>rsByColumn := AList.update i target (rsByColumn st)\<rparr>"

definition orEmptyText :: "string option \<Rightarrow> string" where
  "orEmptyText s = (case s of Some t \<Rightarrow> t | None \<Rightarrow> [])"

definition resolveEntry ::
    "string list \<Rightarrow> 'db importDefinition \<Rightarrow> columnMappingEntry \<Rightarrow> resolveState \<Rightarrow> resolveState" where
  "resolveEntry columns def entry st =
     (let ci = meColumnIndex entry; i = nat ci; custom = trim (orEmptyText (meCustom entry)) in
      if ci < 0 then mapError (''Column '' @ intText ci @ '' is not a column in this file.'') st
      else if ci \<ge> int (length columns)
      then mapError (''This file has '' @ decimal (length columns) @ '' columns, so there is no column '' @
             intText (ci + 1) @ ''.'') st
      else if i \<in> fst ` set (rsByColumn st)
      then mapError (''Column '' @ quoted (columns ! i) @ '' is mapped twice.'') st
      else if truthy (meFieldKey entry) then
        (let key = the (meFieldKey entry) in
         if key \<notin> ifKey ` set (dfFields def)
         then mapError (quoted key @ '' is not a field of this import.'') st
         else (case map_of (rsUsedFields st) key of
             Some already \<Rightarrow>
               mapError (''Both '' @ quoted (columns ! already) @ '' and '' @ quoted (columns ! i) @
                 '' are mapped to '' @ key @ ''. Pick one.'') st
           | None \<Rightarrow>
               setTarget i \<lparr>ctgFieldKey = Some key, ctgCustom = None\<rparr>
                 (st\<lparr>rsUsedFields := AList.update key i (rsUsedFields st)\<rparr>)))
      else if custom \<noteq> [] then
        (let name = take 64 custom in
         if toLowerCase name \<in> set (rsUsedCustom st)
         then mapError (''Two columns are both kept as '' @ quoted name @ ''. Give them different names.'') st
         else setTarget i \<lparr>ctgFieldKey = None, ctgCustom = Some name\<rparr>
                (st\<lparr>rsUsedCustom := toLowerCase name # rsUsedCustom st\<rparr>))
      else setTarget i \<lparr>ctgFieldKey = None, ctgCustom = None\<rparr> st)"

definition producedByDerivation :: "'db importDefinition \<Rightarrow> string \<Rightarrow> bool" where
  "producedByDerivation def key \<longleftrightarrow> list_ex (\<lambda>d. key \<in> set (idProduces d)) (dfDerive def)"

definition unmappedRequired :: "'db importDefinition \<Rightarrow> (string \<times> nat) list \<Rightarrow> importFieldSpec list" where
  "unmappedRequired def used =
     filter (\<lambda>f. ifRequired f \<and> ifKey f \<notin> fst ` set used \<and> \<not> producedByDerivation def (ifKey f)) (dfFields def)"

definition requiredMessage :: "importFieldSpec \<Rightarrow> string" where
  "requiredMessage f = ifLabel f @ '' is required, so a column has to be mapped to it.''"

definition resolveStart :: resolveState where
  "resolveStart = \<lparr>rsByColumn = [], rsUsedFields = [], rsUsedCustom = [], rsErrors = []\<rparr>"

definition resolveMapping ::
    "columnMappingEntry list \<Rightarrow> string list \<Rightarrow> 'db importDefinition \<Rightarrow> (nat \<times> columnTarget) list \<times> string list" where
  "resolveMapping entries columns def =
     (let st = fold (resolveEntry columns def) entries resolveStart in
      (rsByColumn st, rsErrors st @ map requiredMessage (unmappedRequired def (rsUsedFields st))))"

text \<open>The proposal as a mapping the client can send straight back (\<^verbatim>\<open>import.service.ts\<close>).\<close>

definition proposalToMapping :: "columnProposal list \<Rightarrow> columnMappingEntry list" where
  "proposalToMapping proposal =
     map (\<lambda>p. \<lparr>meColumnIndex = int (cpColumnIndex p), meFieldKey = cpFieldKey p, meCustom = None\<rparr>) proposal"

text \<open>Which cells feed which field, and the cells kept as extra data.\<close>

definition rowCell :: "string list \<Rightarrow> nat \<times> columnTarget \<Rightarrow> textValues \<times> textValues \<Rightarrow> textValues \<times> textValues" where
  "rowCell row entry acc =
     (case entry of (i, target) \<Rightarrow>
        (let cell = (if i < length row then row ! i else []) in
         if truthy (ctgFieldKey target) then (AList.update (the (ctgFieldKey target)) cell (fst acc), snd acc)
         else if truthy (ctgCustom target) then (fst acc, AList.update (the (ctgCustom target)) cell (snd acc))
         else acc))"

definition rowCells :: "string list \<Rightarrow> (nat \<times> columnTarget) list \<Rightarrow> textValues \<times> textValues" where
  "rowCells row byColumn = fold (rowCell row) byColumn ([], [])"

section \<open>Identity\<close>

text \<open>How two values are compared: trimmed, white space collapsed, in lower case.\<close>

definition identityToken :: "importValue \<Rightarrow> string" where
  "identityToken v = (case v of IvNull \<Rightarrow> [] | _ \<Rightarrow> toLowerCase (collapseSpaces (trim (valueText v))))"

definition NUL :: char where "NUL = CHR 0x00"

definition tupleKey :: "rowValues \<Rightarrow> nat \<Rightarrow> string list \<Rightarrow> string option" where
  "tupleKey values i tuple =
     (let parts = map (\<lambda>k. identityToken (valueOf values k)) tuple in
      if [] \<in> set parts then None else Some (decimal i @ NUL # joinWith [NUL] parts))"

definition identityKeys :: "rowValues \<Rightarrow> string list list \<Rightarrow> string list" where
  "identityKeys values matchBy =
     List.map_filter (\<lambda>(i, tuple). tupleKey values i tuple) (zip [0..<length matchBy] matchBy)"

text \<open>The first record to claim a key keeps it.\<close>

definition claimKeys :: "'v \<Rightarrow> string list \<Rightarrow> (string \<times> 'v) list \<Rightarrow> (string \<times> 'v) list" where
  "claimKeys v keys index =
     fold (\<lambda>key m. if map_of m key = None then AList.update key v m else m) keys index"

definition buildIdentityIndex :: "existingRecord list \<Rightarrow> string list list \<Rightarrow> (string \<times> uuid) list" where
  "buildIdentityIndex existing matchBy =
     fold (\<lambda>r. claimKeys (erId r) (identityKeys (erValues r) matchBy)) existing []"

definition lookupIdentity :: "(string \<times> uuid) list \<Rightarrow> string list list \<Rightarrow> rowValues \<Rightarrow> uuid option" where
  "lookupIdentity index matchBy values =
     (case List.find (\<lambda>key. truthy (map_of index key)) (identityKeys values matchBy) of
        None \<Rightarrow> None
      | Some key \<Rightarrow> map_of index key)"

end
