(* ===== verification/ImportMappingProofs.thy ===== *)
theory ImportMappingProofs
  imports ImportMapping ImportNormalizeProofs
begin

text \<open>
  What \<^verbatim>\<open>src/services/import/mapping.ts\<close> promises. The proposal depends on the headings of the file as a
  bag, never on the order of the columns; it gives a field to at most one column; the server accepts it;
  and a mapping the server accepts is one-to-one. Identity keys are equal exactly when the identity
  tokens are.
\<close>

section \<open>One pass of the proposal\<close>

definition columnAt :: "nat \<Rightarrow> columnProposal \<Rightarrow> columnProposal" where
  "columnAt i p = p\<lparr>cpColumnIndex := i\<rparr>"

lemma columnAt_simps [simp]:
  "cpColumnIndex (columnAt i p) = i" "cpColumnLabel (columnAt i p) = cpColumnLabel p"
  "cpFieldKey (columnAt i p) = cpFieldKey p" "cpConfidence (columnAt i p) = cpConfidence p"
  "cpAmbiguous (columnAt i p) = cpAmbiguous p" "cpCandidates (columnAt i p) = cpCandidates p"
  "columnAt i (columnAt j p) = columnAt i p"
  by (simp_all add: columnAt_def)

definition wanted :: "importFieldSpec list \<Rightarrow> string set \<Rightarrow> mappingConfidence \<Rightarrow> columnProposal \<Rightarrow> string option" where
  "wanted specs claimed tier p = map_option snd (snd (decideColumn specs claimed tier p))"

lemma decide_columnAt:
  "decideColumn specs claimed tier (columnAt i p) =
     (columnAt i (fst (decideColumn specs claimed tier p)),
      map_option (\<lambda>k. (i, k)) (wanted specs claimed tier p))"
  by (auto simp: decideColumn_def wanted_def settledProposal_def columnAt_def split: list.splits)

lemma wanted_columnAt [simp]: "wanted specs claimed tier (columnAt i p) = wanted specs claimed tier p"
  by (simp add: wanted_def decide_columnAt option.map_comp comp_def)

lemma groups_map_of:
  "map_of (fold groupDecision ds m) k =
     (case map fst (filter (\<lambda>d. snd d = k) ds) of
        [] \<Rightarrow> map_of m k
      | is \<Rightarrow> Some ((case map_of m k of Some js \<Rightarrow> js | None \<Rightarrow> []) @ is))"
  by (induction ds arbitrary: m) (auto simp: groupDecision_def update_conv' split: list.splits option.splits)

lemma groups_distinct: "distinct (map fst m) \<Longrightarrow> distinct (map fst (fold groupDecision ds m))"
  by (induction ds arbitrary: m) (auto simp: groupDecision_def distinct_update)

lemma groups_set:
  "set (fold groupDecision ds []) = {(k, map fst (filter (\<lambda>d. snd d = k) ds)) | k. k \<in> snd ` set ds}"
proof -
  have d: "distinct (map fst (fold groupDecision ds []))" by (rule groups_distinct) simp
  have "(k, js) \<in> set (fold groupDecision ds []) \<longleftrightarrow> k \<in> snd ` set ds \<and> js = map fst (filter (\<lambda>d. snd d = k) ds)"
    for k js
  proof -
    have "k \<in> snd ` set ds \<longleftrightarrow> filter (\<lambda>d. snd d = k) ds \<noteq> []" by (auto simp: filter_empty_conv)
    then show ?thesis
      unfolding map_of_eq_Some_iff [OF d, symmetric] groups_map_of by (auto split: list.splits)
  qed
  then show ?thesis by auto
qed

text \<open>What settling one group does to the proposals.\<close>

definition settleAt :: "string \<times> nat list \<Rightarrow> nat \<Rightarrow> columnProposal \<Rightarrow> columnProposal" where
  "settleAt grp j p =
     (if j \<in> set (snd grp)
      then (if snd grp = [j] then p\<lparr>cpFieldKey := Some (fst grp)\<rparr> else clashing (fst grp) p) else p)"

lemma clashing_idem [simp]: "clashing k (clashing k p) = clashing k p"
  by (simp add: clashing_def)

lemma fold_clashing:
  "\<forall>i\<in>set is. i < length ps \<Longrightarrow>
   length (fold (\<lambda>i ps. ps[i := clashing k (ps ! i)]) is ps) = length ps \<and>
   (\<forall>j < length ps. fold (\<lambda>i ps. ps[i := clashing k (ps ! i)]) is ps ! j =
      (if j \<in> set is then clashing k (ps ! j) else ps ! j))"
proof (induction "is" arbitrary: ps)
  case (Cons i "is")
  from Cons.IH [of "ps[i := clashing k (ps ! i)]"] Cons.prems show ?case
    by (auto simp: nth_list_update)
qed simp

lemma settleField_nth:
  assumes "\<forall>i\<in>set (snd grp). i < length (fst st)" and "j < length (fst st)"
  shows "length (fst (settleField grp st)) = length (fst st)"
    and "fst (settleField grp st) ! j = settleAt grp j (fst st ! j)"
  using assms fold_clashing [of "snd grp" "fst st" "fst grp"]
  by (auto simp: settleField_def settleAt_def nth_list_update split: prod.splits list.splits)

lemma settleField_claims:
  "snd (settleField grp st) = snd st \<union> (if length (snd grp) = 1 then {fst grp} else {})"
  by (auto simp: settleField_def length_Suc_conv split: prod.splits list.splits)

text \<open>Settling all groups: each column is in at most one of them.\<close>

lemma settleFields:
  assumes "\<forall>g\<in>set groups. \<forall>i\<in>set (snd g). i < length (fst st)" and "distinct (map fst groups)"
    and "\<forall>g\<in>set groups. \<forall>h\<in>set groups. \<forall>i. i \<in> set (snd g) \<and> i \<in> set (snd h) \<longrightarrow> g = h"
  shows "length (fst (fold settleField groups st)) = length (fst st) \<and>
    (\<forall>j < length (fst st). fst (fold settleField groups st) ! j =
       (case List.find (\<lambda>g. j \<in> set (snd g)) groups of None \<Rightarrow> fst st ! j | Some g \<Rightarrow> settleAt g j (fst st ! j))) \<and>
    snd (fold settleField groups st) = snd st \<union> {k. \<exists>i. (k, [i]) \<in> set groups}"
  using assms
proof (induction groups arbitrary: st)
  case (Cons g groups)
  let ?st = "settleField g st"
  have len: "length (fst ?st) = length (fst st)"
    using Cons.prems(1) settleField_nth(1) [of g st 0] settleField_nth(1) [of g st]
    by (cases "fst st = []") (auto simp: settleField_def split: prod.splits list.splits)
  have nth: "fst ?st ! j = settleAt g j (fst st ! j)" if "j < length (fst st)" for j
    using settleField_nth(2) [of g st j] Cons.prems(1) that by simp
  have alone: "j \<in> set (snd g) \<Longrightarrow> List.find (\<lambda>g. j \<in> set (snd g)) groups = None" for j
    using Cons.prems(2,3) by (auto simp: find_None_iff_all)
  have "snd ?st \<union> {k. \<exists>i. (k, [i]) \<in> set groups} = snd st \<union> {k. \<exists>i. (k, [i]) \<in> set (g # groups)}"
    by (cases g) (auto simp: settleField_claims length_Suc_conv)
  moreover have "(case List.find (\<lambda>g. j \<in> set (snd g)) groups of None \<Rightarrow> fst ?st ! j | Some h \<Rightarrow> settleAt h j (fst ?st ! j)) =
      (case List.find (\<lambda>g. j \<in> set (snd g)) (g # groups) of None \<Rightarrow> fst st ! j | Some h \<Rightarrow> settleAt h j (fst st ! j))"
    if "j < length (fst st)" for j
    using nth [OF that] alone [of j] by (auto simp: settleAt_def split: option.splits)
  ultimately show ?case
    using Cons.IH [of ?st] Cons.prems len by (simp add: ball_Un)
qed simp

section \<open>The proposal as a function of the bag of headings\<close>

text \<open>
  The reference: what becomes of a heading is a function of the heading, of what it has become so far, and
  of how many columns of the file want each field.
\<close>

type_synonym outcomes = "string \<Rightarrow> columnProposal"

definition rivals ::
    "importFieldSpec list \<Rightarrow> mappingConfidence \<Rightarrow> string multiset \<Rightarrow> outcomes \<times> string set \<Rightarrow> string \<Rightarrow> nat" where
  "rivals specs tier M st k = size {#l \<in># M. wanted specs (snd st) tier (fst st l) = Some k#}"

definition headingPass ::
    "importFieldSpec list \<Rightarrow> string multiset \<Rightarrow> mappingConfidence \<Rightarrow> outcomes \<times> string set \<Rightarrow> outcomes \<times> string set" where
  "headingPass specs M tier st =
     ((\<lambda>l. let p = fst (decideColumn specs (snd st) tier (fst st l)) in
          case wanted specs (snd st) tier (fst st l) of
            None \<Rightarrow> p
          | Some k \<Rightarrow> if rivals specs tier M st k = 1 then p\<lparr>cpFieldKey := Some k\<rparr> else clashing k p),
      snd st \<union> {k. rivals specs tier M st k = 1})"

definition headingOutcome :: "string multiset \<Rightarrow> 'db importDefinition \<Rightarrow> outcomes" where
  "headingOutcome M def =
     fst (fold (headingPass (dfFields def) M) [McExact, McAlias, McFuzzy] (initialProposal 0, {}))"

text \<open>The proposals of the code, given what the reference has for each heading.\<close>

definition spread :: "string list \<Rightarrow> outcomes \<Rightarrow> columnProposal list" where
  "spread columns out = map (\<lambda>i. columnAt i (out (columns ! i))) [0..<length columns]"

lemma spread_nth [simp]: "i < length columns \<Longrightarrow> spread columns out ! i = columnAt i (out (columns ! i))"
  "length (spread columns out) = length columns"
  by (simp_all add: spread_def)

definition wantedBy ::
    "importFieldSpec list \<Rightarrow> mappingConfidence \<Rightarrow> outcomes \<times> string set \<Rightarrow> string list \<Rightarrow> nat \<Rightarrow> string option" where
  "wantedBy specs tier st columns i = wanted specs (snd st) tier (fst st (columns ! i))"

lemma decisions_of_spread:
  "List.map_filter snd (map (decideColumn specs (snd st) tier) (spread columns (fst st))) =
     List.map_filter (\<lambda>i. map_option (\<lambda>k. (i, k)) (wantedBy specs tier st columns i)) [0..<length columns]"
  by (simp add: spread_def comp_def map_filter_map_filter [symmetric] List.map_filter_def decide_columnAt wantedBy_def
      filter_map option.map_sel)

lemma filter_map_filter:
  "filter (\<lambda>d. snd d = k) (List.map_filter (\<lambda>i. map_option (\<lambda>k. (i, k)) (w i)) is) =
   map (\<lambda>i. (i, k)) (filter (\<lambda>i. w i = Some k) is)"
  by (induction "is") (auto simp: List.map_filter_simps split: option.splits)

lemma rivals_count:
  "rivals specs tier (mset columns) st k =
     length (filter (\<lambda>i. wantedBy specs tier st columns i = Some k) [0..<length columns])"
proof -
  have "filter P columns = map ((!) columns) (filter (\<lambda>i. P (columns ! i)) [0..<length columns])" for P
    using filter_map [of P "(!) columns" "[0..<length columns]"] by (simp add: map_nth comp_def)
  then have "length (filter P columns) = length (filter (\<lambda>i. P (columns ! i)) [0..<length columns])" for P
    by (metis length_map)
  then show ?thesis
    unfolding rivals_def wantedBy_def by (simp add: mset_filter [symmetric] del: mset_filter)
qed

lemma single_group: "(\<exists>i. (k, [i]) \<in> {(k, F k) | k. F k \<noteq> []}) \<longleftrightarrow> length (F k) = 1"
proof -
  have "(\<exists>i. (k, [i]) \<in> {(k, F k) | k. F k \<noteq> []}) \<longleftrightarrow> (\<exists>i. F k = [i])" by (auto dest: sym)
  then show ?thesis by (simp add: length_Suc_conv)
qed

lemma singleton_member: "x \<in> set xs \<Longrightarrow> xs = [x] \<longleftrightarrow> length xs = 1"
  by (cases xs) auto

lemma pass_refines:
  "proposalPass specs tier (spread columns (fst st), snd st) =
     (spread columns (fst (headingPass specs (mset columns) tier st)), snd (headingPass specs (mset columns) tier st))"
proof -
  let ?n = "length columns"
  let ?w = "wantedBy specs tier st columns"
  let ?D = "List.map_filter (\<lambda>i. map_option (\<lambda>k. (i, k)) (?w i)) [0..<?n]"
  let ?IS = "\<lambda>k. filter (\<lambda>i. ?w i = Some k) [0..<?n]"
  let ?groups = "fold groupDecision ?D []"
  let ?decided = "map (decideColumn specs (snd st) tier) (spread columns (fst st))"
  let ?st0 = "(map fst ?decided, snd st)"
  have keys: "k \<in> snd ` set ?D \<longleftrightarrow> ?IS k \<noteq> []" for k
    by (force simp: set_map_filter filter_empty_conv)
  have groups: "set ?groups = {(k, ?IS k) | k. ?IS k \<noteq> []}"
    unfolding groups_set keys filter_map_filter by (simp add: comp_def)
  have dist: "distinct (map fst ?groups)" by (rule groups_distinct) simp
  have pick: "List.find (\<lambda>g. j \<in> set (snd g)) ?groups = map_option (\<lambda>k. (k, ?IS k)) (?w j)" if "j < ?n" for j
  proof (cases "?w j")
    case None
    then show ?thesis by (auto simp: find_None_iff_all groups)
  next
    case (Some k)
    then have "(k, ?IS k) \<in> set ?groups" "j \<in> set (?IS k)"
      using that unfolding groups by (auto simp: filter_empty_conv)
    moreover have only: "g = (k, ?IS k)" if "g \<in> set ?groups" "j \<in> set (snd g)" for g
    proof -
      from that(1) [unfolded groups] obtain k' where g: "g = (k', ?IS k')" by blast
      then have "?w j = Some k'" using that(2) by simp
      with Some g show ?thesis by simp
    qed
    ultimately obtain g where g: "List.find (\<lambda>g. j \<in> set (snd g)) ?groups = Some g"
      by (metis (no_types, lifting) find_None_iff_all not_None_eq snd_conv)
    show ?thesis unfolding g Some using only find_Some_in [OF g] by simp
  qed
  have settled: "length (fst (fold settleField ?groups ?st0)) = ?n \<and>
    (\<forall>j < ?n. fst (fold settleField ?groups ?st0) ! j =
       (case List.find (\<lambda>g. j \<in> set (snd g)) ?groups of None \<Rightarrow> fst ?st0 ! j | Some g \<Rightarrow> settleAt g j (fst ?st0 ! j))) \<and>
    snd (fold settleField ?groups ?st0) = snd st \<union> {k. \<exists>i. (k, [i]) \<in> set ?groups}"
  proof -
    have len: "length (fst ?st0) = ?n" by simp
    have "\<forall>g\<in>set ?groups. \<forall>i\<in>set (snd g). i < length (fst ?st0)" unfolding groups len by auto
    moreover have "\<forall>g\<in>set ?groups. \<forall>h\<in>set ?groups. \<forall>i. i \<in> set (snd g) \<and> i \<in> set (snd h) \<longrightarrow> g = h"
      unfolding groups by auto
    ultimately show ?thesis using settleFields [of ?groups ?st0] dist unfolding len snd_conv by blast
  qed
  have single: "(\<exists>i. (k, [i]) \<in> set ?groups) \<longleftrightarrow> rivals specs tier (mset columns) st k = 1" for k
    unfolding groups rivals_count by (rule single_group)
  have "fst (fold settleField ?groups ?st0) = spread columns (fst (headingPass specs (mset columns) tier st))"
  proof (rule nth_equalityI)
    fix j assume "j < length (fst (fold settleField ?groups ?st0))"
    then have j: "j < ?n" using settled by simp
    let ?p = "fst (decideColumn specs (snd st) tier (fst st (columns ! j)))"
    have at0: "fst ?st0 ! j = columnAt j ?p" using j by (simp add: decide_columnAt)
    have "fst (fold settleField ?groups ?st0) ! j =
        (case ?w j of None \<Rightarrow> columnAt j ?p | Some k \<Rightarrow> settleAt (k, ?IS k) j (columnAt j ?p))"
      using settled j pick [OF j] at0 by (simp split: option.splits)
    also have "\<dots> = columnAt j (fst (headingPass specs (mset columns) tier st) (columns ! j))"
    proof (cases "?w j")
      case None
      then show ?thesis by (simp add: headingPass_def Let_def wantedBy_def)
    next
      case (Some k)
      then have "j \<in> set (?IS k)" using j by simp
      moreover from this have "?IS k = [j] \<longleftrightarrow> length (?IS k) = 1" by (rule singleton_member)
      ultimately show ?thesis
        using Some unfolding headingPass_def Let_def rivals_count
        by (simp add: wantedBy_def settleAt_def columnAt_def clashing_def)
    qed
    finally show "fst (fold settleField ?groups ?st0) ! j =
        spread columns (fst (headingPass specs (mset columns) tier st)) ! j" using j by simp
  qed (use settled in simp)
  moreover have "snd (fold settleField ?groups ?st0) = snd (headingPass specs (mset columns) tier st)"
    using settled single by (simp add: headingPass_def)
  ultimately show ?thesis
    unfolding proposalPass_def Let_def fst_conv snd_conv decisions_of_spread by (simp add: prod_eq_iff)
qed

lemma passes_refine:
  "fold (proposalPass specs) tiers (spread columns (fst st), snd st) =
     (spread columns (fst (fold (headingPass specs (mset columns)) tiers st)),
      snd (fold (headingPass specs (mset columns)) tiers st))"
proof (induction tiers arbitrary: st)
  case (Cons t ts)
  then show ?case by (simp add: pass_refines)
qed simp

lemma proposal_spread: "proposeMapping columns def = spread columns (headingOutcome (mset columns) def)"
proof -
  have "map2 initialProposal [0..<length columns] columns = spread columns (initialProposal 0)"
    by (rule nth_equalityI) (simp_all add: initialProposal_def columnAt_def)
  then show ?thesis
    using passes_refine [of "dfFields def" "[McExact, McAlias, McFuzzy]" columns "(initialProposal 0, {})"]
    by (simp add: proposeMapping_def headingOutcome_def)
qed

text \<open>
  What the wizard proposes for a column is a function of its heading and the bag of headings in the file: it
  is the reference's outcome for the heading, wherever the column stands and whatever the order of the
  others.
\<close>

theorem proposal_ignores_column_order:
  assumes "mset columns = mset columns'" and "i < length columns" and "j < length columns'"
    and "columns ! i = columns' ! j"
  shows "proposeMapping columns def ! i = columnAt i (headingOutcome (mset columns) def (columns ! i)) \<and>
    proposeMapping columns def ! i = columnAt i (proposeMapping columns' def ! j)"
  using assms by (simp add: proposal_spread)

theorem proposal_ignores_column_order_witness:
  "proposeMapping [''K'', ''l'', ''f''] exampleDefinition ! 0 =
     columnAt 0 (proposeMapping [''f'', ''K'', ''l''] exampleDefinition ! 1)"
  by (rule proposal_ignores_column_order [THEN conjunct2]) simp_all

section \<open>A field goes to at most one column\<close>

definition tierHit :: "importFieldSpec list \<Rightarrow> columnProposal \<Rightarrow> string \<Rightarrow> bool" where
  "tierHit specs p k \<longleftrightarrow>
     \<not> cpAmbiguous p \<and> cpConfidence p \<noteq> McNone \<and>
     list_ex (\<lambda>f. ifKey f = k \<and> matchesAtTier (cpColumnLabel p) f (cpConfidence p)) specs"

definition goodOutcomes :: "importFieldSpec list \<Rightarrow> string multiset \<Rightarrow> outcomes \<times> string set \<Rightarrow> bool" where
  "goodOutcomes specs M st \<longleftrightarrow>
     (\<forall>l. cpColumnLabel (fst st l) = l) \<and>
     (\<forall>l k. cpFieldKey (fst st l) = Some k \<longrightarrow> l \<in># M \<longrightarrow> k \<in> snd st) \<and>
     (\<forall>l k. cpFieldKey (fst st l) = Some k \<longrightarrow> tierHit specs (fst st l) k) \<and>
     (\<forall>k. size {#l \<in># M. cpFieldKey (fst st l) = Some k#} \<le> 1)"

lemma tierHit_key: "tierHit specs p k \<Longrightarrow> k \<in> ifKey ` set specs"
  by (auto simp: tierHit_def list_ex_iff)

lemma hitsFor_in: "k \<in> set (hitsFor specs claimed tier label) \<Longrightarrow>
   k \<notin> claimed \<and> list_ex (\<lambda>f. ifKey f = k \<and> matchesAtTier label f tier) specs"
  by (auto simp: hitsFor_def list_ex_iff)

lemma wanted_Some:
  "wanted specs claimed tier p = Some k \<Longrightarrow>
   \<not> settledProposal p \<and> fst (decideColumn specs claimed tier p) = p\<lparr>cpConfidence := tier\<rparr> \<and>
   k \<notin> claimed \<and> list_ex (\<lambda>f. ifKey f = k \<and> matchesAtTier (cpColumnLabel p) f tier) specs"
  using hitsFor_in [of k specs claimed tier "cpColumnLabel p"]
  by (auto simp: wanted_def decideColumn_def split: if_splits list.splits)

lemma wanted_None:
  "wanted specs claimed tier p = None \<Longrightarrow>
   fst (decideColumn specs claimed tier p) = p \<or>
   (\<not> settledProposal p \<and> (\<exists>ks. fst (decideColumn specs claimed tier p) = p\<lparr>cpAmbiguous := True, cpCandidates := ks\<rparr>))"
  by (auto simp: wanted_def decideColumn_def split: if_splits list.splits)

lemma headingPass_key:
  assumes nonempty: "[] \<notin> ifKey ` set specs" and good: "goodOutcomes specs M st"
  shows "cpFieldKey (fst (headingPass specs M tier st) l) = Some k \<longleftrightarrow>
     cpFieldKey (fst st l) = Some k \<or>
     (wanted specs (snd st) tier (fst st l) = Some k \<and> rivals specs tier M st k = 1)"
proof -
  have free: "cpFieldKey (fst st l) = None" if "\<not> settledProposal (fst st l)"
  proof (cases "cpFieldKey (fst st l)")
    case (Some k)
    then have "tierHit specs (fst st l) k" using good unfolding goodOutcomes_def by blast
    then have "k \<noteq> []" using nonempty tierHit_key by blast
    with Some that show ?thesis by (simp add: settledProposal_def truthy_def)
  qed
  show ?thesis
  proof (cases "wanted specs (snd st) tier (fst st l)")
    case None
    from wanted_None [OF None] None show ?thesis by (auto simp: headingPass_def Let_def)
  next
    case (Some k')
    from wanted_Some [OF Some] free Some show ?thesis by (auto simp: headingPass_def Let_def clashing_def)
  qed
qed

lemma headingPass_good:
  assumes nonempty: "[] \<notin> ifKey ` set specs" and good: "goodOutcomes specs M st" and tier: "tier \<noteq> McNone"
  shows "goodOutcomes specs M (headingPass specs M tier st)"
proof -
  note key = headingPass_key [OF nonempty good, of tier]
  let ?new = "fst (headingPass specs M tier st)"
  have label: "cpColumnLabel (?new l) = l" for l
    using good by (auto simp: goodOutcomes_def headingPass_def Let_def decideColumn_def clashing_def split: option.splits list.splits)
  have claimed: "l \<in># M \<Longrightarrow> cpFieldKey (?new l) = Some k \<Longrightarrow> k \<in> snd (headingPass specs M tier st)" for l k
    using good unfolding key by (auto simp: goodOutcomes_def headingPass_def)
  have hit: "tierHit specs (?new l) k" if "cpFieldKey (?new l) = Some k" for l k
  proof (cases "wanted specs (snd st) tier (fst st l)")
    case None
    with that key have old: "cpFieldKey (fst st l) = Some k" by simp
    then have "tierHit specs (fst st l) k" using good by (simp add: goodOutcomes_def)
    moreover from this have "k \<noteq> []" using nonempty tierHit_key by blast
    then have "settledProposal (fst st l)" using old by (simp add: settledProposal_def truthy_def)
    ultimately show ?thesis using None by (simp add: headingPass_def Let_def decideColumn_def)
  next
    case (Some k')
    note w = wanted_Some [OF Some]
    have "cpFieldKey (fst st l) = None \<or> cpFieldKey (fst st l) = Some []"
      using w by (cases "cpFieldKey (fst st l)") (auto simp: settledProposal_def truthy_def)
    moreover have "cpFieldKey (fst st l) \<noteq> Some []"
      using good nonempty tierHit_key unfolding goodOutcomes_def by blast
    ultimately have "k' = k" "rivals specs tier M st k = 1" using that Some unfolding key by auto
    moreover have "cpColumnLabel (fst st l) = l" using good by (simp add: goodOutcomes_def)
    ultimately show ?thesis
      using w Some tier by (auto simp: headingPass_def Let_def tierHit_def settledProposal_def)
  qed
  have once: "size {#l \<in># M. cpFieldKey (?new l) = Some k#} \<le> 1" for k
  proof (cases "k \<in> snd st")
    case True
    then have "wanted specs (snd st) tier (fst st l) \<noteq> Some k" for l using wanted_Some by blast
    then have "{#l \<in># M. cpFieldKey (?new l) = Some k#} = {#l \<in># M. cpFieldKey (fst st l) = Some k#}"
      by (simp add: key)
    then show ?thesis using good by (simp add: goodOutcomes_def)
  next
    case False
    then have new: "{#l \<in># M. cpFieldKey (?new l) = Some k#} =
        {#l \<in># M. wanted specs (snd st) tier (fst st l) = Some k \<and> rivals specs tier M st k = 1#}"
      using good by (intro filter_mset_cong) (auto simp: key goodOutcomes_def)
    show ?thesis unfolding new by (cases "rivals specs tier M st k = 1") (simp_all add: rivals_def)
  qed
  show ?thesis unfolding goodOutcomes_def using label claimed hit once by blast
qed

lemma headingOutcome_good:
  assumes "[] \<notin> ifKey ` set (dfFields def)"
  shows "\<exists>claimed. goodOutcomes (dfFields def) M (headingOutcome M def, claimed)"
proof -
  have "goodOutcomes (dfFields def) M (initialProposal 0, {})"
    by (simp add: goodOutcomes_def initialProposal_def)
  then have "goodOutcomes (dfFields def) M (fold (headingPass (dfFields def) M) [McExact, McAlias, McFuzzy] (initialProposal 0, {}))"
    by (rule fold_invariant) (use headingPass_good [OF assms] in auto)
  then show ?thesis unfolding headingOutcome_def by (metis prod.collapse)
qed

lemma distinct_map_filter_nth:
  assumes "\<And>i j k. i < length xs \<Longrightarrow> j < length xs \<Longrightarrow> f (xs ! i) = Some k \<Longrightarrow> f (xs ! j) = Some k \<Longrightarrow> i = j"
  shows "distinct (List.map_filter f xs)"
  using assms
proof (induction xs)
  case (Cons x xs)
  have "distinct (List.map_filter f xs)"
    using Cons.prems [of "Suc _" "Suc _"] by (intro Cons.IH) (metis Suc_less_eq length_Cons nat.inject nth_Cons_Suc)
  moreover have "y \<notin> set (List.map_filter f xs)" if y: "f x = Some y" for y
  proof
    assume "y \<in> set (List.map_filter f xs)"
    then obtain j where "j < length xs" "f (xs ! j) = Some y" by (auto simp: set_map_filter in_set_conv_nth)
    with Cons.prems [of 0 "Suc j" y] y show False by simp
  qed
  ultimately show ?case by (auto simp: List.map_filter_simps split: option.splits)
qed (simp add: List.map_filter_simps)

lemma count_two:
  assumes "i < length xs" and "j < length xs" and "i \<noteq> j" and "P (xs ! i)" and "P (xs ! j)"
  shows "2 \<le> length (filter P xs)"
proof -
  have "{i, j} \<subseteq> {n. n < length xs \<and> P (xs ! n)}" using assms by auto
  then have "card {i, j} \<le> card {n. n < length xs \<and> P (xs ! n)}" by (intro card_mono) auto
  then show ?thesis using assms(3) by (simp add: length_filter_conv_card)
qed

lemma proposal_good:
  assumes "[] \<notin> ifKey ` set (dfFields def)"
  shows "distinct (List.map_filter cpFieldKey (proposeMapping columns def))"
    and "p \<in> set (proposeMapping columns def) \<Longrightarrow> cpFieldKey p = Some k \<Longrightarrow> tierHit (dfFields def) p k"
proof -
  let ?out = "headingOutcome (mset columns) def"
  obtain claimed where good: "goodOutcomes (dfFields def) (mset columns) (?out, claimed)"
    using headingOutcome_good [OF assms] by blast
  show "distinct (List.map_filter cpFieldKey (proposeMapping columns def))"
    unfolding proposal_spread
  proof (rule distinct_map_filter_nth)
    fix i j k
    assume ij: "i < length (spread columns ?out)" "j < length (spread columns ?out)"
      and k: "cpFieldKey (spread columns ?out ! i) = Some k" "cpFieldKey (spread columns ?out ! j) = Some k"
    have "length (filter (\<lambda>l. cpFieldKey (?out l) = Some k) columns) \<le> 1"
      using good by (simp add: goodOutcomes_def mset_filter [symmetric] del: mset_filter)
    with count_two [of i columns j "\<lambda>l. cpFieldKey (?out l) = Some k"] ij k show "i = j" by fastforce
  qed
  show "p \<in> set (proposeMapping columns def) \<Longrightarrow> cpFieldKey p = Some k \<Longrightarrow> tierHit (dfFields def) p k"
  proof -
    assume "p \<in> set (proposeMapping columns def)" and k: "cpFieldKey p = Some k"
    then obtain i where "p = columnAt i (?out (columns ! i))" by (auto simp: proposal_spread spread_def)
    with good k show ?thesis by (auto simp: goodOutcomes_def tierHit_def)
  qed
qed

section \<open>A mapping the server accepts\<close>

lemma update_absent: "k \<notin> fst ` set al \<Longrightarrow> AList.update k v al = al @ [(k, v)]"
  by (induction al) auto

definition fieldTargets :: "(nat \<times> columnTarget) list \<Rightarrow> (string \<times> nat) list" where
  "fieldTargets byColumn = List.map_filter (\<lambda>(i, t). map_option (\<lambda>k. (k, i)) (ctgFieldKey t)) byColumn"

definition customTargets :: "(nat \<times> columnTarget) list \<Rightarrow> string list" where
  "customTargets byColumn = List.map_filter (\<lambda>(i, t). map_option toLowerCase (ctgCustom t)) byColumn"

definition resolveInv :: "string list \<Rightarrow> 'db importDefinition \<Rightarrow> resolveState \<Rightarrow> bool" where
  "resolveInv columns def st \<longleftrightarrow>
     distinct (map fst (rsByColumn st)) \<and> list_all (\<lambda>(i, t). i < length columns) (rsByColumn st) \<and>
     rsUsedFields st = fieldTargets (rsByColumn st) \<and>
     distinct (map fst (fieldTargets (rsByColumn st))) \<and>
     fst ` set (fieldTargets (rsByColumn st)) \<subseteq> ifKey ` set (dfFields def) \<and>
     rsUsedCustom st = rev (customTargets (rsByColumn st)) \<and> distinct (customTargets (rsByColumn st))"

lemma targets_append [simp]:
  "fieldTargets (bs @ cs) = fieldTargets bs @ fieldTargets cs"
  "customTargets (bs @ cs) = customTargets bs @ customTargets cs"
  by (simp_all add: fieldTargets_def customTargets_def List.map_filter_def)

lemma targets_single [simp]:
  "fieldTargets [(i, t)] = (case ctgFieldKey t of Some k \<Rightarrow> [(k, i)] | None \<Rightarrow> [])"
  "customTargets [(i, t)] = (case ctgCustom t of Some c \<Rightarrow> [toLowerCase c] | None \<Rightarrow> [])"
  by (simp_all add: fieldTargets_def customTargets_def List.map_filter_simps split: option.splits)

lemma resolve_start: "resolveInv columns def resolveStart"
  by (simp add: resolveInv_def resolveStart_def fieldTargets_def customTargets_def List.map_filter_simps)

text \<open>An entry either is refused, leaving everything but the errors, or sets the target of a new column.\<close>

definition entryTarget :: "columnMappingEntry \<Rightarrow> columnTarget" where
  "entryTarget entry =
     (if truthy (meFieldKey entry) then \<lparr>ctgFieldKey = meFieldKey entry, ctgCustom = None\<rparr>
      else if trim (orEmptyText (meCustom entry)) \<noteq> []
      then \<lparr>ctgFieldKey = None, ctgCustom = Some (take 64 (trim (orEmptyText (meCustom entry))))\<rparr>
      else \<lparr>ctgFieldKey = None, ctgCustom = None\<rparr>)"

definition takesEntry :: "string list \<Rightarrow> 'db importDefinition \<Rightarrow> columnMappingEntry \<Rightarrow> resolveState \<Rightarrow> bool" where
  "takesEntry columns def entry st \<longleftrightarrow>
     0 \<le> meColumnIndex entry \<and> meColumnIndex entry < int (length columns) \<and>
     nat (meColumnIndex entry) \<notin> fst ` set (rsByColumn st) \<and>
     (case ctgFieldKey (entryTarget entry) of
        Some k \<Rightarrow> k \<in> ifKey ` set (dfFields def) \<and> k \<notin> fst ` set (rsUsedFields st)
      | None \<Rightarrow> (case ctgCustom (entryTarget entry) of
            Some c \<Rightarrow> toLowerCase c \<notin> set (rsUsedCustom st) | None \<Rightarrow> True))"

definition takenState :: "columnMappingEntry \<Rightarrow> resolveState \<Rightarrow> resolveState" where
  "takenState entry st =
    \<lparr>rsByColumn = rsByColumn st @ [(nat (meColumnIndex entry), entryTarget entry)],
     rsUsedFields = rsUsedFields st @
       (case ctgFieldKey (entryTarget entry) of Some k \<Rightarrow> [(k, nat (meColumnIndex entry))] | None \<Rightarrow> []),
     rsUsedCustom = (case ctgCustom (entryTarget entry) of Some c \<Rightarrow> [toLowerCase c] | None \<Rightarrow> []) @ rsUsedCustom st,
     rsErrors = rsErrors st\<rparr>"

lemma resolve_cases:
  "if takesEntry columns def entry st then resolveEntry columns def entry st = takenState entry st
   else (\<exists>m. resolveEntry columns def entry st = mapError m st)"
proof -
  let ?ci = "meColumnIndex entry"
  let ?custom = "trim (orEmptyText (meCustom entry))"
  note eval = resolveEntry_def Let_def takesEntry_def entryTarget_def takenState_def
  consider (outside) "?ci < 0 \<or> ?ci \<ge> int (length columns) \<or> nat ?ci \<in> fst ` set (rsByColumn st)"
    | (column) "0 \<le> ?ci" "?ci < int (length columns)" "nat ?ci \<notin> fst ` set (rsByColumn st)" by linarith
  then show ?thesis
  proof cases
    case outside
    then have "\<not> takesEntry columns def entry st" by (auto simp: takesEntry_def)
    moreover have "\<exists>m. resolveEntry columns def entry st = mapError m st"
    proof (cases "?ci < 0 \<or> ?ci \<ge> int (length columns)")
      case True
      then show ?thesis by (cases "?ci < 0") (auto simp: resolveEntry_def Let_def)
    next
      case False
      then show ?thesis using outside by (auto simp: resolveEntry_def Let_def)
    qed
    ultimately show ?thesis by simp
  next
    case column
    then have base: "\<not> ?ci < 0" "\<not> ?ci \<ge> int (length columns)" by simp_all
    show ?thesis
    proof (cases "truthy (meFieldKey entry)")
      case True
      then obtain k where k: "meFieldKey entry = Some k" "truthy (Some k)" by (cases "meFieldKey entry") (auto simp: truthy_def)
      show ?thesis
      proof (cases "k \<in> ifKey ` set (dfFields def) \<and> map_of (rsUsedFields st) k = None")
        case True
        then have "k \<notin> fst ` set (rsUsedFields st)" by (simp add: map_of_eq_None_iff)
        then show ?thesis using True column base k
          by (simp add: eval setTarget_def update_absent)
      next
        case False
        then have "\<not> takesEntry columns def entry st"
          using k by (auto simp: takesEntry_def entryTarget_def map_of_eq_None_iff)
        moreover have "\<exists>m. resolveEntry columns def entry st = mapError m st"
          using False column base k by (auto simp: resolveEntry_def Let_def)
        ultimately show ?thesis by simp
      qed
    next
      case False
      show ?thesis
      proof (cases "?custom = []")
        case True
        then show ?thesis using False column base by (simp add: eval setTarget_def update_absent)
      next
        case custom: False
        show ?thesis
        proof (cases "toLowerCase (take 64 ?custom) \<in> set (rsUsedCustom st)")
          case True
          then have "\<not> takesEntry columns def entry st"
            using False custom by (auto simp: takesEntry_def entryTarget_def)
          moreover have "\<exists>m. resolveEntry columns def entry st = mapError m st"
            using True False custom column base by (auto simp: resolveEntry_def Let_def)
          ultimately show ?thesis by simp
        next
          case fresh: False
          then show ?thesis using False custom column base by (simp add: eval setTarget_def update_absent)
        qed
      qed
    qed
  qed
qed

lemma taken_inv:
  assumes inv: "resolveInv columns def st" and takes: "takesEntry columns def entry st"
  shows "resolveInv columns def (takenState entry st)"
proof (cases "ctgFieldKey (entryTarget entry)")
  case None
  then show ?thesis using inv takes unfolding resolveInv_def takesEntry_def takenState_def
    by (cases "ctgCustom (entryTarget entry)") auto
next
  case (Some k)
  then have "ctgCustom (entryTarget entry) = None" by (auto simp: entryTarget_def split: if_splits)
  moreover have "k \<notin> set (map fst (rsUsedFields st))" "k \<in> ifKey ` set (dfFields def)"
    "nat (meColumnIndex entry) \<notin> fst ` set (rsByColumn st)" "nat (meColumnIndex entry) < length columns"
    using takes Some by (auto simp: takesEntry_def)
  ultimately show ?thesis using Some inv unfolding resolveInv_def takenState_def by simp
qed

lemma resolve_inv:
  assumes "resolveInv columns def st"
  shows "resolveInv columns def (resolveEntry columns def entry st)"
proof (cases "takesEntry columns def entry st")
  case True
  then show ?thesis using resolve_cases [of columns def entry st] taken_inv [OF assms True] by simp
next
  case False
  then obtain m where "resolveEntry columns def entry st = mapError m st"
    using resolve_cases [of columns def entry st] by auto
  then show ?thesis using assms unfolding resolveInv_def mapError_def by simp
qed

lemma resolve_errors:
  "rsErrors (fold (resolveEntry columns def) entries st) = [] \<Longrightarrow>
   rsErrors st = [] \<and>
   rsByColumn (fold (resolveEntry columns def) entries st) =
     rsByColumn st @ map (\<lambda>e. (nat (meColumnIndex e), entryTarget e)) entries"
proof (induction entries arbitrary: st)
  case (Cons e es)
  from Cons.IH [of "resolveEntry columns def e st"] Cons.prems
  have "rsErrors (resolveEntry columns def e st) = []" and
    cols: "rsByColumn (fold (resolveEntry columns def) (e # es) st) =
      rsByColumn (resolveEntry columns def e st) @ map (\<lambda>e. (nat (meColumnIndex e), entryTarget e)) es" by simp_all
  then have "takesEntry columns def e st" "rsErrors st = []"
    using resolve_cases [of columns def e st] by (auto simp: mapError_def takenState_def split: if_splits)
  with cols resolve_cases [of columns def e st] show ?case by (simp add: takenState_def)
qed simp

lemma resolve_fold_inv: "resolveInv columns def (fold (resolveEntry columns def) entries resolveStart)"
  by (rule fold_invariant) (simp_all add: resolve_start resolve_inv)

text \<open>
  A mapping that is accepted uses every entry: each column of the file at most once and in range, each field at
  most once and only fields of the import, extra columns under names that differ, and every required
  field has a column or a derivation.
\<close>

theorem accepted_mapping_is_one_to_one:
  assumes "resolveMapping entries columns def = (byColumn, [])"
  shows "byColumn = map (\<lambda>e. (nat (meColumnIndex e), entryTarget e)) entries \<and>
    distinct (map fst byColumn) \<and> list_all (\<lambda>(i, t). i < length columns) byColumn \<and>
    distinct (map fst (fieldTargets byColumn)) \<and> fst ` set (fieldTargets byColumn) \<subseteq> ifKey ` set (dfFields def) \<and>
    distinct (customTargets byColumn) \<and>
    list_all (\<lambda>f. \<not> ifRequired f \<or> ifKey f \<in> fst ` set (fieldTargets byColumn) \<or> producedByDerivation def (ifKey f))
      (dfFields def)"
proof -
  let ?st = "fold (resolveEntry columns def) entries resolveStart"
  from assms have "rsErrors ?st = []" "byColumn = rsByColumn ?st" and req: "unmappedRequired def (rsUsedFields ?st) = []"
    by (simp_all add: resolveMapping_def Let_def)
  with resolve_errors [of columns def entries resolveStart] resolve_fold_inv [of columns def entries]
  have "byColumn = map (\<lambda>e. (nat (meColumnIndex e), entryTarget e)) entries"
    and "rsUsedFields ?st = fieldTargets byColumn" and inv: "resolveInv columns def ?st"
    by (simp_all add: resolveStart_def resolveInv_def)
  with req show ?thesis
    using \<open>byColumn = rsByColumn ?st\<close>
    by (auto simp: resolveInv_def unmappedRequired_def filter_empty_conv list_all_iff)
qed

theorem accepted_mapping_is_one_to_one_witness:
  "length (fst (resolveMapping [\<lparr>meColumnIndex = 1, meFieldKey = Some ''n'', meCustom = None\<rparr>,
      \<lparr>meColumnIndex = 0, meFieldKey = None, meCustom = Some ''Tag''\<rparr>] [''Tag'', ''Name''] exampleDefinition)) = 2"
proof -
  let ?entries = "[\<lparr>meColumnIndex = 1, meFieldKey = Some ''n'', meCustom = None\<rparr>,
      \<lparr>meColumnIndex = 0, meFieldKey = None, meCustom = Some ''Tag''\<rparr>]"
  have "snd (resolveMapping ?entries [''Tag'', ''Name''] exampleDefinition) = []" by code_simp
  then have "resolveMapping ?entries [''Tag'', ''Name''] exampleDefinition =
      (fst (resolveMapping ?entries [''Tag'', ''Name''] exampleDefinition), [])" by (simp add: prod_eq_iff)
  from accepted_mapping_is_one_to_one [OF this] show ?thesis by simp
qed

section \<open>The proposal is a mapping the server accepts\<close>

lemma entryTarget_proposal:
  "entryTarget \<lparr>meColumnIndex = i, meFieldKey = k, meCustom = None\<rparr> =
     \<lparr>ctgFieldKey = (if truthy k then k else None), ctgCustom = None\<rparr>"
  by (simp add: entryTarget_def orEmptyText_def)

lemma resolve_all_taken:
  assumes "distinct (map meColumnIndex entries)" and "list_all (\<lambda>e. 0 \<le> meColumnIndex e \<and> meColumnIndex e < int (length columns)) entries"
    and "list_all (\<lambda>e. ctgCustom (entryTarget e) = None) entries"
    and "distinct (List.map_filter (\<lambda>e. ctgFieldKey (entryTarget e)) entries)"
    and "set (List.map_filter (\<lambda>e. ctgFieldKey (entryTarget e)) entries) \<subseteq> ifKey ` set (dfFields def)"
    and "fst ` set (rsByColumn st) \<inter> (nat \<circ> meColumnIndex) ` set entries = {}"
    and "fst ` set (rsUsedFields st) \<inter> set (List.map_filter (\<lambda>e. ctgFieldKey (entryTarget e)) entries) = {}"
  shows "rsErrors (fold (resolveEntry columns def) entries st) = rsErrors st \<and>
    fst ` set (rsUsedFields (fold (resolveEntry columns def) entries st)) =
      fst ` set (rsUsedFields st) \<union> set (List.map_filter (\<lambda>e. ctgFieldKey (entryTarget e)) entries)"
  using assms
proof (induction entries arbitrary: st)
  case (Cons e es)
  have "takesEntry columns def e st"
    using Cons.prems by (auto simp: takesEntry_def List.map_filter_simps split: option.splits)
  then have step: "resolveEntry columns def e st = takenState e st"
    using resolve_cases [of columns def e st] by simp
  have "nat (meColumnIndex e) \<notin> (nat \<circ> meColumnIndex) ` set es"
    using Cons.prems(1,2) by (auto simp: list_all_iff) (metis image_eqI nat_eq_iff2)
  then show ?case
    using Cons.IH [of "takenState e st"] Cons.prems
    by (auto simp: step takenState_def List.map_filter_simps split: option.splits)
qed (simp add: List.map_filter_simps)

lemma map_filter_cong: "(\<And>x. x \<in> set xs \<Longrightarrow> f x = g x) \<Longrightarrow> List.map_filter f xs = List.map_filter g xs"
  by (induction xs) (auto simp: List.map_filter_simps split: option.splits)

lemma proposal_entries:
  assumes "[] \<notin> ifKey ` set (dfFields def)" and "p \<in> set (proposeMapping columns def)"
  shows "ctgFieldKey (entryTarget \<lparr>meColumnIndex = i, meFieldKey = cpFieldKey p, meCustom = None\<rparr>) = cpFieldKey p"
proof (cases "cpFieldKey p")
  case (Some k)
  then have "k \<noteq> []" using proposal_good(2) [OF assms] tierHit_key assms(1) by metis
  with Some show ?thesis by (simp add: entryTarget_proposal truthy_def)
qed (simp add: entryTarget_proposal)

text \<open>
  The wizard's proposal maps a field to at most one column, whose heading matches it at the confidence
  stated, and the server accepts the proposal as it stands, apart from naming the required fields that no
  heading matched.
\<close>

theorem proposal_is_accepted:
  assumes "[] \<notin> ifKey ` set (dfFields def)"
  shows "distinct (List.map_filter cpFieldKey (proposeMapping columns def)) \<and>
    list_all (\<lambda>p. case cpFieldKey p of None \<Rightarrow> True | Some k \<Rightarrow> tierHit (dfFields def) p k) (proposeMapping columns def) \<and>
    snd (resolveMapping (proposalToMapping (proposeMapping columns def)) columns def) =
      map requiredMessage (filter (\<lambda>f. ifRequired f \<and> Some (ifKey f) \<notin> cpFieldKey ` set (proposeMapping columns def) \<and>
        \<not> producedByDerivation def (ifKey f)) (dfFields def))"
proof -
  let ?ps = "proposeMapping columns def"
  let ?entries = "proposalToMapping ?ps"
  have good: "distinct (List.map_filter cpFieldKey ?ps)"
    "\<And>p k. p \<in> set ?ps \<Longrightarrow> cpFieldKey p = Some k \<Longrightarrow> tierHit (dfFields def) p k"
    using proposal_good [OF assms] by blast+
  have index: "map meColumnIndex ?entries = map int [0..<length columns]"
    by (simp add: proposalToMapping_def proposal_spread spread_def comp_def)
  have keys: "List.map_filter (\<lambda>e. ctgFieldKey (entryTarget e)) ?entries = List.map_filter cpFieldKey ?ps"
  proof -
    have "List.map_filter (\<lambda>e. ctgFieldKey (entryTarget e)) ?entries =
        List.map_filter (\<lambda>p. ctgFieldKey (entryTarget
          \<lparr>meColumnIndex = int (cpColumnIndex p), meFieldKey = cpFieldKey p, meCustom = None\<rparr>)) ?ps"
      by (simp add: proposalToMapping_def List.map_filter_def filter_map comp_def)
    also have "\<dots> = List.map_filter cpFieldKey ?ps"
      using proposal_entries [OF assms] by (intro map_filter_cong) simp_all
    finally show ?thesis .
  qed
  have "distinct (map meColumnIndex ?entries)" unfolding index by (simp add: distinct_map)
  moreover have "list_all (\<lambda>e. 0 \<le> meColumnIndex e \<and> meColumnIndex e < int (length columns)) ?entries"
  proof -
    have "list_all (\<lambda>i. 0 \<le> i \<and> i < int (length columns)) (map meColumnIndex ?entries)"
      unfolding index by (simp add: list_all_iff)
    then show ?thesis by (simp add: list.pred_map comp_def)
  qed
  moreover have "list_all (\<lambda>e. ctgCustom (entryTarget e) = None) ?entries"
    by (simp add: proposalToMapping_def list_all_iff entryTarget_proposal)
  moreover have "set (List.map_filter cpFieldKey ?ps) \<subseteq> ifKey ` set (dfFields def)"
    using good(2) tierHit_key by (fastforce simp: set_map_filter)
  ultimately have run: "rsErrors (fold (resolveEntry columns def) ?entries resolveStart) = [] \<and>
      fst ` set (rsUsedFields (fold (resolveEntry columns def) ?entries resolveStart)) = set (List.map_filter cpFieldKey ?ps)"
    using resolve_all_taken [of ?entries columns def resolveStart, unfolded keys] good(1) by (simp add: resolveStart_def)
  have "k \<in> set (List.map_filter cpFieldKey ?ps) \<longleftrightarrow> Some k \<in> cpFieldKey ` set ?ps" for k
    by (force simp: set_map_filter)
  then have "snd (resolveMapping ?entries columns def) =
      map requiredMessage (filter (\<lambda>f. ifRequired f \<and> Some (ifKey f) \<notin> cpFieldKey ` set ?ps \<and>
        \<not> producedByDerivation def (ifKey f)) (dfFields def))"
    using run by (simp add: resolveMapping_def Let_def unmappedRequired_def)
  moreover have "list_all (\<lambda>p. case cpFieldKey p of None \<Rightarrow> True | Some k \<Rightarrow> tierHit (dfFields def) p k) ?ps"
    using good(2) by (auto simp: list_all_iff split: option.splits)
  ultimately show ?thesis using good(1) by blast
qed

theorem proposal_is_accepted_witness:
  "snd (resolveMapping (proposalToMapping (proposeMapping [''N'', ''k''] exampleDefinition)) [''N'', ''k''] exampleDefinition) = []"
proof -
  have "[] \<notin> ifKey ` set (dfFields exampleDefinition)" by code_simp
  from proposal_is_accepted [OF this, of "[''N'', ''k'']"]
  show ?thesis by (simp add: exampleDefinition_def exampleField_def producedByDerivation_def splitFullName_def)
qed

section \<open>Identity keys\<close>

lemma joinWith_inj:
  assumes "\<forall>w\<in>set ws. c \<notin> set w" and "\<forall>w\<in>set vs. c \<notin> set w" and "ws \<noteq> []" and "vs \<noteq> []"
  shows "joinWith [c] ws = joinWith [c] vs \<longleftrightarrow> ws = vs"
  using splitOn_join [of ws c] splitOn_join [of vs c] assms by metis

lemma decimal_no_NUL: "NUL \<notin> set (decimal n)"
  using decimal_digits [of n] by (auto simp: NUL_def isDigit_def)

text \<open>
  Two rows share the key of a tuple exactly when they agree on the tokens of all its fields, none of them
  empty; the keys of different tuples never meet. (Text without the character NUL, which separates the
  parts.)
\<close>

lemma tupleKey_eq:
  assumes "\<forall>k\<in>set t. NUL \<notin> set (identityToken (valueOf v k))" and "\<forall>k\<in>set u. NUL \<notin> set (identityToken (valueOf w k))"
    and "t \<noteq> []" and "u \<noteq> []" and "tupleKey v i t = Some key"
  shows "tupleKey w j u = Some key \<longleftrightarrow>
    i = j \<and> map (\<lambda>k. identityToken (valueOf w k)) u = map (\<lambda>k. identityToken (valueOf v k)) t"
proof -
  let ?v = "map (\<lambda>k. identityToken (valueOf v k)) t"
  let ?w = "map (\<lambda>k. identityToken (valueOf w k)) u"
  have key: "[] \<notin> set ?v" "key = decimal i @ NUL # joinWith [NUL] ?v"
    using assms(5) by (auto simp: tupleKey_def Let_def split: if_splits)
  have "decimal j @ NUL # joinWith [NUL] ?w = decimal i @ NUL # joinWith [NUL] ?v \<longleftrightarrow> i = j \<and> ?w = ?v"
  proof -
    have "a @ NUL # x = b @ NUL # y \<longleftrightarrow> a = b \<and> x = y" if "NUL \<notin> set a" "NUL \<notin> set b" for a b x y
      using splitFirst_append [of NUL a x] splitFirst_append [of NUL b y] that by (metis option.inject prod.inject)
    then show ?thesis using joinWith_inj [of ?w NUL ?v] assms decimal_no_NUL by auto
  qed
  moreover have "?w = ?v \<Longrightarrow> [] \<notin> set ?w" using key(1) by simp
  ultimately show ?thesis using key(2) by (auto simp: tupleKey_def Let_def simp del: set_map)
qed

end
