(* ===== verification/Requests.thy ===== *)
theory Requests
  imports Prelude
begin

text \<open>
  Requests as the server runs them. A handler is a sequence of database statements with JavaScript
  between them; while one request waits for its statement the others go on. So a request is a tree: a
  statement changes the database and the rest of the request depends on what it returned. The theory gives the
  two ways to run requests, one alone to its end (\<open>handle\<close>) and any number of them interleaved
  statement by statement (\<open>serverStep\<close>), and the rule for what holds under every interleaving: each
  statement keeps an invariant and a guarantee, and what a request has read may be used later only as far as
  the guarantee of the others preserves it. A transaction is one statement.
\<close>

section \<open>Requests\<close>

datatype ('db, 'r) request =
    Answer 'r
  | Stmt "'db \<Rightarrow> 'db" "'db \<Rightarrow> ('db, 'r) request"

primrec handle :: "('db, 'r) request \<Rightarrow> 'db \<Rightarrow> 'r \<times> 'db" where
  "handle (Answer r) db = (r, db)"
| "handle (Stmt f k) db = handle (k db) (f db)"

text \<open>
  A query, a statement that returns something, a statement that may raise (a unique violation), and the
  JavaScript around them: a throw, a check that throws, and one part of a handler after the other.
\<close>

definition select :: "('db \<Rightarrow> 'a) \<Rightarrow> ('a \<Rightarrow> ('db, 'r) request) \<Rightarrow> ('db, 'r) request" where
  "select q k = Stmt (\<lambda>db. db) (\<lambda>db. k (q db))"

definition execute :: "('db \<Rightarrow> 'db) \<Rightarrow> ('db, 'r) request \<Rightarrow> ('db, 'r) request" where
  "execute f p = Stmt f (\<lambda>_. p)"

definition returning :: "('db \<Rightarrow> 'db \<times> 'a) \<Rightarrow> ('a \<Rightarrow> ('db, 'r) request) \<Rightarrow> ('db, 'r) request" where
  "returning f k = Stmt (\<lambda>db. fst (f db)) (\<lambda>db. k (snd (f db)))"

definition attempt :: "('db \<Rightarrow> 'e + 'db \<times> 'a) \<Rightarrow> ('a \<Rightarrow> ('db, 'e + 'r) request) \<Rightarrow> ('db, 'e + 'r) request" where
  "attempt f k =
     Stmt (\<lambda>db. case f db of Inl _ \<Rightarrow> db | Inr (db', _) \<Rightarrow> db')
       (\<lambda>db. case f db of Inl e \<Rightarrow> Answer (Inl e) | Inr (_, x) \<Rightarrow> k x)"

definition check :: "bool \<Rightarrow> 'e \<Rightarrow> ('db, 'e + 'r) request \<Rightarrow> ('db, 'e + 'r) request" where
  "check bad e p = (if bad then Answer (Inl e) else p)"

primrec andThen :: "('db, 'e + 'a) request \<Rightarrow> ('a \<Rightarrow> ('db, 'e + 'b) request) \<Rightarrow> ('db, 'e + 'b) request" where
  "andThen (Answer r) g = (case r of Inl e \<Rightarrow> Answer (Inl e) | Inr x \<Rightarrow> g x)"
| "andThen (Stmt f k) g = Stmt f (\<lambda>db. andThen (k db) g)"

text \<open>A \<open>catch\<close> around one part of a handler.\<close>

primrec rescue :: "('db, 'e + 'a) request \<Rightarrow> ('e \<Rightarrow> ('db, 'e + 'a) request) \<Rightarrow> ('db, 'e + 'a) request" where
  "rescue (Answer r) h = (case r of Inl e \<Rightarrow> h e | Inr x \<Rightarrow> Answer (Inr x))"
| "rescue (Stmt f k) h = Stmt f (\<lambda>db. rescue (k db) h)"

named_theorems request_simps "what a request does when it runs alone"

lemma handle_select [request_simps]: "handle (select q k) db = handle (k (q db)) db"
  by (simp add: select_def)

lemma handle_execute [request_simps]: "handle (execute f p) db = handle p (f db)"
  by (simp add: execute_def)

lemma handle_returning [request_simps]: "handle (returning f k) db = handle (k (snd (f db))) (fst (f db))"
  by (simp add: returning_def)

lemma handle_attempt [request_simps]:
  "handle (attempt f k) db = (case f db of Inl e \<Rightarrow> (Inl e, db) | Inr (db', x) \<Rightarrow> handle (k x) db')"
  by (simp add: attempt_def split: sum.splits prod.splits)

lemma handle_check [request_simps]: "handle (check bad e p) db = (if bad then (Inl e, db) else handle p db)"
  by (simp add: check_def)

lemma handle_andThen [request_simps]:
  "handle (andThen p g) db = (case handle p db of (Inl e, db') \<Rightarrow> (Inl e, db') | (Inr x, db') \<Rightarrow> handle (g x) db')"
  by (induction p arbitrary: db) (auto split: sum.splits)

lemma handle_rescue [request_simps]:
  "handle (rescue p h) db = (case handle p db of (Inl e, db') \<Rightarrow> handle (h e) db' | (Inr x, db') \<Rightarrow> (Inr x, db'))"
  by (induction p arbitrary: db) (auto split: sum.splits)

lemma handle_map [request_simps]: "handle (map_request g p) db = map_prod g id (handle p db)"
  by (induction p arbitrary: db) auto

section \<open>What every interleaving keeps\<close>

text \<open>
  \<open>keeps I G p seen\<close>: whatever the other requests do between the statements of \<open>p\<close>, as long as they keep
  \<open>I\<close> and move the database along \<open>G\<close>, every statement of \<open>p\<close> does the same. \<open>seen\<close> is the database
  as the request last saw it.
\<close>

primrec keeps :: "('db \<Rightarrow> bool) \<Rightarrow> ('db \<Rightarrow> 'db \<Rightarrow> bool) \<Rightarrow> ('db, 'r) request \<Rightarrow> 'db \<Rightarrow> bool" where
  "keeps I G (Answer r) seen = True"
| "keeps I G (Stmt f k) seen =
     (\<forall>db. I db \<longrightarrow> G seen db \<longrightarrow> I (f db) \<and> G db (f db) \<and> keeps I G (k db) (f db))"

lemma keeps_select:
  "(\<And>db. I db \<Longrightarrow> G seen db \<Longrightarrow> keeps I G (k (q db)) db) \<Longrightarrow> (\<And>db. G db db) \<Longrightarrow> keeps I G (select q k) seen"
  by (simp add: select_def)

lemma keeps_execute:
  "(\<And>db. I db \<Longrightarrow> G seen db \<Longrightarrow> I (f db) \<and> G db (f db) \<and> keeps I G p (f db)) \<Longrightarrow> keeps I G (execute f p) seen"
  by (simp add: execute_def)

lemma keeps_returning:
  assumes "\<And>db db' x. I db \<Longrightarrow> G seen db \<Longrightarrow> f db = (db', x) \<Longrightarrow> I db' \<and> G db db' \<and> keeps I G (k x) db'"
  shows "keeps I G (returning f k) seen"
  using assms [OF _ _ prod.collapse [symmetric]] by (simp add: returning_def)

lemma keeps_attempt:
  assumes "\<And>db db' x. I db \<Longrightarrow> G seen db \<Longrightarrow> f db = Inr (db', x) \<Longrightarrow> I db' \<and> G db db' \<and> keeps I G (k x) db'"
    and "\<And>db. G db db"
  shows "keeps I G (attempt f k) seen"
proof (simp add: attempt_def, intro allI impI)
  fix db assume db: "I db" "G seen db"
  show "I (case f db of Inl _ \<Rightarrow> db | Inr (db', _) \<Rightarrow> db') \<and> G db (case f db of Inl _ \<Rightarrow> db | Inr (db', _) \<Rightarrow> db') \<and>
    keeps I G (case f db of Inl e \<Rightarrow> Answer (Inl e) | Inr (_, x) \<Rightarrow> k x) (case f db of Inl _ \<Rightarrow> db | Inr (db', _) \<Rightarrow> db')"
  proof (cases "f db")
    case (Inl e)
    with db assms(2) show ?thesis by simp
  next
    case (Inr r)
    then show ?thesis using assms(1) [OF db, of "fst r" "snd r"] by (simp add: case_prod_beta)
  qed
qed

lemma keeps_check: "(\<not> bad \<Longrightarrow> keeps I G p seen) \<Longrightarrow> keeps I G (check bad e p) seen"
  by (simp add: check_def)

lemma keeps_andThen:
  assumes "keeps I G p seen" and "\<And>x db. I db \<Longrightarrow> G seen db \<Longrightarrow> keeps I G (g x) db" and "I seen"
    and "\<And>a b c. G a b \<Longrightarrow> G b c \<Longrightarrow> G a c" and "\<And>a. G a a"
  shows "keeps I G (andThen p g) seen"
  using assms(1-3)
proof (induction p arbitrary: seen)
  case (Answer r)
  then show ?case using assms(5) by (cases r) auto
next
  case (Stmt f k)
  show ?case
  proof (simp, intro allI impI)
    fix db assume "I db" "G seen db"
    with Stmt.prems(1) have now: "I (f db)" "G db (f db)" "keeps I G (k db) (f db)" by auto
    have "keeps I G (andThen (k db) g) (f db)"
    proof (rule Stmt.IH [OF _ now(3) _ now(1)])
      fix x db' assume "I db'" "G (f db) db'"
      then show "keeps I G (g x) db'"
        using Stmt.prems(2) assms(4) \<open>G seen db\<close> now(2) by blast
    qed simp
    with now show "I (f db) \<and> G db (f db) \<and> keeps I G (andThen (k db) g) (f db)" by simp
  qed
qed

lemma keeps_rescue:
  assumes "keeps I G p seen" and "\<And>e db. I db \<Longrightarrow> G seen db \<Longrightarrow> keeps I G (h e) db" and "I seen"
    and "\<And>a b c. G a b \<Longrightarrow> G b c \<Longrightarrow> G a c" and "\<And>a. G a a"
  shows "keeps I G (rescue p h) seen"
  using assms(1-3)
proof (induction p arbitrary: seen)
  case (Answer r)
  then show ?case using assms(5) by (cases r) auto
next
  case (Stmt f k)
  show ?case
  proof (simp, intro allI impI)
    fix db assume "I db" "G seen db"
    with Stmt.prems(1) have now: "I (f db)" "G db (f db)" "keeps I G (k db) (f db)" by auto
    have "keeps I G (rescue (k db) h) (f db)"
    proof (rule Stmt.IH [OF _ now(3) _ now(1)])
      fix e db' assume "I db'" "G (f db) db'"
      then show "keeps I G (h e) db'"
        using Stmt.prems(2) assms(4) \<open>G seen db\<close> now(2) by blast
    qed simp
    with now show "I (f db) \<and> G db (f db) \<and> keeps I G (rescue (k db) h) (f db)" by simp
  qed
qed

lemma keeps_map: "keeps I G (map_request g p) seen = keeps I G p seen"
  by (induction p arbitrary: seen) auto

lemma keeps_later:
  assumes "keeps I G p seen" and "G seen later" and "\<And>a b c. G a b \<Longrightarrow> G b c \<Longrightarrow> G a c"
  shows "keeps I G p later"
  using assms by (cases p) auto

lemma keeps_strengthen:
  assumes "keeps (\<lambda>db. I db \<and> F db) G p seen" and "F seen" and "\<And>a b. G a b \<Longrightarrow> F a \<Longrightarrow> F b"
  shows "keeps I G p seen"
  using assms(1,2)
proof (induction p arbitrary: seen)
  case (Stmt f k)
  show ?case
  proof (simp, intro allI impI)
    fix db assume "I db" "G seen db"
    with Stmt.prems assms(3) have "I (f db) \<and> F (f db)" "G db (f db)" "keeps (\<lambda>db. I db \<and> F db) G (k db) (f db)" by auto
    with Stmt.IH [OF _ this(3)] show "I (f db) \<and> G db (f db) \<and> keeps I G (k db) (f db)" by auto
  qed
qed simp

lemma keeps_handle:
  assumes "keeps I G p db" and "I db" and "\<And>a. G a a" and "\<And>a b c. G a b \<Longrightarrow> G b c \<Longrightarrow> G a c"
  shows "I (snd (handle p db)) \<and> G db (snd (handle p db))"
  using assms(1,2)
proof (induction p arbitrary: db)
  case (Answer r)
  then show ?case using assms(3) by simp
next
  case (Stmt f k)
  from Stmt.prems have now: "I (f db)" "G db (f db)" "keeps I G (k db) (f db)" using assms(3) by auto
  from Stmt.IH [OF _ now(3,1)] now(2) assms(4) show ?case by auto
qed

section \<open>The server\<close>

record ('db, 'r) server =
  svDb :: 'db
  svPool :: "('db, 'r) request list"

text \<open>
  A request arrives, and some request of the pool runs its next statement. The pool is never cleaned up: a
  request that has answered stays there and does nothing.
\<close>

inductive serverStep ::
    "(('db, 'r) request \<Rightarrow> bool) \<Rightarrow> ('db, 'r) server \<Rightarrow> ('db, 'r) server \<Rightarrow> bool"
  for accepts :: "('db, 'r) request \<Rightarrow> bool" where
  stepArrive: "accepts p \<Longrightarrow> serverStep accepts s (s\<lparr>svPool := svPool s @ [p]\<rparr>)"
| stepStatement:
    "i < length (svPool s) \<Longrightarrow> svPool s ! i = Stmt f k \<Longrightarrow>
     serverStep accepts s \<lparr>svDb = f (svDb s), svPool = (svPool s)[i := k (svDb s)]\<rparr>"

definition serverInit :: "'db \<Rightarrow> ('db, 'r) server \<Rightarrow> bool" where
  "serverInit db0 s \<longleftrightarrow> svDb s = db0 \<and> svPool s = []"

inductive_cases serverStepE: "serverStep accepts s s'"

lemma reachable_rtranclp: "step\<^sup>*\<^sup>* s t \<Longrightarrow> reachable init step s \<Longrightarrow> reachable init step t"
  by (induction rule: rtranclp_induct) (auto intro: reach_step)

text \<open>A request that finds the server idle runs to its end as \<open>handle\<close> says.\<close>

lemma run_at:
  "i < length (svPool s) \<Longrightarrow> svPool s ! i = p \<Longrightarrow>
   (serverStep accepts)\<^sup>*\<^sup>* s \<lparr>svDb = snd (handle p (svDb s)), svPool = (svPool s)[i := Answer (fst (handle p (svDb s)))]\<rparr>"
proof (induction p arbitrary: s)
  case (Answer r)
  then have "s = \<lparr>svDb = svDb s, svPool = (svPool s)[i := Answer r]\<rparr>" by (metis list_update_id server.surjective old.unit.exhaust)
  then show ?case by simp
next
  case (Stmt f k)
  let ?t = "\<lparr>svDb = f (svDb s), svPool = (svPool s)[i := k (svDb s)]\<rparr>"
  from Stmt.prems have "serverStep accepts s ?t" by (rule stepStatement)
  also have "(serverStep accepts)\<^sup>*\<^sup>* ?t \<lparr>svDb = snd (handle (k (svDb s)) (svDb ?t)),
      svPool = (svPool ?t)[i := Answer (fst (handle (k (svDb s)) (svDb ?t)))]\<rparr>"
    by (rule Stmt.IH) (use Stmt.prems in simp_all)
  finally show ?case by simp
qed

lemma run_alone:
  assumes "accepts p"
  shows "(serverStep accepts)\<^sup>*\<^sup>* s \<lparr>svDb = snd (handle p (svDb s)), svPool = svPool s @ [Answer (fst (handle p (svDb s)))]\<rparr>"
proof -
  have "serverStep accepts s (s\<lparr>svPool := svPool s @ [p]\<rparr>)" using assms by (rule stepArrive)
  also have "(serverStep accepts)\<^sup>*\<^sup>* (s\<lparr>svPool := svPool s @ [p]\<rparr>)
      \<lparr>svDb = snd (handle p (svDb s)), svPool = svPool s @ [Answer (fst (handle p (svDb s)))]\<rparr>"
    using run_at [of "length (svPool s)" "s\<lparr>svPool := svPool s @ [p]\<rparr>" p accepts] by simp
  finally show ?thesis .
qed

text \<open>A request whose statements run as one, in a transaction or because nobody else is there.\<close>

definition atOnce :: "('db, 'r) request \<Rightarrow> ('db, 'r) request" where
  "atOnce p = Stmt (\<lambda>db. snd (handle p db)) (\<lambda>db. Answer (fst (handle p db)))"

lemma handle_atOnce [request_simps]: "handle (atOnce p) db = handle p db"
  by (simp add: atOnce_def)

lemma keeps_atOnce: "(\<And>db. I db \<Longrightarrow> I (snd (handle p db)) \<and> G db (snd (handle p db))) \<Longrightarrow> keeps I G (atOnce p) seen"
  by (simp add: atOnce_def)

text \<open>
  The contract of a system of requests: what holds of the first database, a guarantee that is a preorder, and
  requests that keep both from any state in which they may arrive. Then the invariant holds in every
  reachable state, and the database only ever moves along the guarantee.
\<close>

definition pooled :: "('db \<Rightarrow> bool) \<Rightarrow> ('db \<Rightarrow> 'db \<Rightarrow> bool) \<Rightarrow> ('db, 'r) server \<Rightarrow> bool" where
  "pooled I G s \<longleftrightarrow> I (svDb s) \<and> (\<forall>p\<in>set (svPool s). keeps I G p (svDb s))"

locale request_system =
  fixes accepts :: "('db, 'r) request \<Rightarrow> bool"
    and db0 :: 'db
    and I :: "'db \<Rightarrow> bool"
    and G :: "'db \<Rightarrow> 'db \<Rightarrow> bool"
  assumes start: "I db0"
    and G_refl: "G db db"
    and G_trans: "G db db' \<Longrightarrow> G db' db'' \<Longrightarrow> G db db''"
    and accepted: "accepts p \<Longrightarrow> I db \<Longrightarrow> keeps I G p db"
begin

lemma pooled_step:
  assumes "pooled I G s" and "serverStep accepts s s'"
  shows "pooled I G s' \<and> G (svDb s) (svDb s')"
  using assms(2)
proof (cases rule: serverStep.cases)
  case (stepArrive p)
  with assms(1) accepted G_refl show ?thesis by (auto simp: pooled_def)
next
  case (stepStatement i f k)
  then have "keeps I G (Stmt f k) (svDb s)" using assms(1) by (metis nth_mem pooled_def)
  with assms(1) G_refl have now: "I (f (svDb s))" "G (svDb s) (f (svDb s))" "keeps I G (k (svDb s)) (f (svDb s))"
    by (auto simp: pooled_def)
  have "keeps I G p (f (svDb s))" if "p \<in> set ((svPool s)[i := k (svDb s)])" for p
  proof -
    from that have "p = k (svDb s) \<or> p \<in> set (svPool s)" by (auto dest: set_update_subset_insert [THEN subsetD])
    then show ?thesis
      using now(2,3) assms(1) G_trans by (auto simp: pooled_def intro: keeps_later)
  qed
  with now stepStatement(1) show ?thesis by (simp add: pooled_def)
qed

lemma server_reachable: "reachable (serverInit db0) (serverStep accepts) s \<Longrightarrow> pooled I G s"
proof (induction rule: reachable.induct)
  case (reach_init s)
  then show ?case using start by (simp add: serverInit_def pooled_def)
next
  case (reach_step s s')
  then show ?case using pooled_step by blast
qed

lemma server_run:
  assumes "(serverStep accepts)\<^sup>*\<^sup>* s s'" and "reachable (serverInit db0) (serverStep accepts) s"
  shows "G (svDb s) (svDb s')"
  using assms(1)
proof (induction rule: rtranclp_induct)
  case base
  show ?case by (rule G_refl)
next
  case (step t u)
  have "pooled I G t"
    using step.hyps(1) assms(2)
    by (induction rule: rtranclp_induct) (auto dest: server_reachable pooled_step)
  with step pooled_step G_trans show ?case by blast
qed

end

end
