(* ===== verification/Roles.thy ===== *)
theory Roles
  imports JsText
begin

text \<open>
  \<^verbatim>\<open>src/lib/roles.ts\<close>: the role hierarchy and who has which capability. Roles and capabilities are the
  strings the code compares; a role the hierarchy does not know has rank 0.
\<close>

definition ROLES :: "string list" where
  "ROLES = [''owner'', ''admin'', ''editor'', ''viewer'']"

definition ASSIGNABLE_ROLES :: "string list" where
  "ASSIGNABLE_ROLES = [''admin'', ''editor'', ''viewer'']"

definition HIERARCHY :: "(string \<times> nat) list" where
  "HIERARCHY = [(''owner'', 100), (''admin'', 80), (''editor'', 50), (''member'', 50), (''viewer'', 20)]"

definition CAPABILITIES :: "string list" where
  "CAPABILITIES = [''team.invite'', ''team.update_role'', ''team.remove'', ''org.update'',
     ''org.transfer_ownership'', ''billing.manage'', ''files.review'', ''email.broadcast'',
     ''app.write'', ''app.read'']"

definition CAPABILITY_MIN_ROLE :: "(string \<times> string) list" where
  "CAPABILITY_MIN_ROLE =
     [(''team.invite'', ''admin''), (''team.update_role'', ''admin''), (''team.remove'', ''admin''),
      (''org.update'', ''admin''), (''org.transfer_ownership'', ''owner''), (''billing.manage'', ''admin''),
      (''files.review'', ''admin''), (''email.broadcast'', ''admin''), (''app.write'', ''editor''),
      (''app.read'', ''viewer'')]"

definition rankOf :: "string \<Rightarrow> nat" where
  "rankOf role = (case map_of HIERARCHY role of Some n \<Rightarrow> n | None \<Rightarrow> 0)"

definition hasAtLeast :: "string \<Rightarrow> string \<Rightarrow> bool" where
  "hasAtLeast role minimum \<longleftrightarrow> rankOf role \<ge> rankOf minimum"

text \<open>A capability outside the table has no minimum, and the rank of \<open>undefined\<close> is 0.\<close>

definition can :: "string \<Rightarrow> string \<Rightarrow> bool" where
  "can role cap \<longleftrightarrow> (case map_of CAPABILITY_MIN_ROLE cap of Some r \<Rightarrow> hasAtLeast role r | None \<Rightarrow> True)"

definition canManage :: "string \<Rightarrow> string \<Rightarrow> bool" where
  "canManage actorRole targetRole \<longleftrightarrow>
     can actorRole ''team.update_role'' \<and> targetRole \<noteq> ''owner'' \<and>
     \<not> (targetRole = ''admin'' \<and> actorRole \<noteq> ''owner'')"

text \<open>\<open>role.charAt(0).toUpperCase() + role.slice(1)\<close>, for a role that starts with an ASCII letter.\<close>

definition roleLabel :: "string \<Rightarrow> string" where
  "roleLabel role =
     (if role = ''member'' then ''Editor''
      else (case role of [] \<Rightarrow> [] | c # cs \<Rightarrow> (if isLower c then char_of (code c - 32) else c) # cs))"

section \<open>Lemmas\<close>

lemma every_capability_has_a_minimum:
  "map fst CAPABILITY_MIN_ROLE = CAPABILITIES"
  by (simp add: CAPABILITY_MIN_ROLE_def CAPABILITIES_def)

lemma can_monotone: "can r cap \<Longrightarrow> rankOf r \<le> rankOf r' \<Longrightarrow> can r' cap"
  by (auto simp: can_def hasAtLeast_def split: option.splits)

lemma rankOf_cases: "rankOf r \<in> {0, 20, 50, 80, 100}"
  by (auto simp: rankOf_def HIERARCHY_def)

lemma rankOf_eq_100: "rankOf r = 100 \<longleftrightarrow> r = ''owner''"
  by (auto simp: rankOf_def HIERARCHY_def)

lemma rankOf_eq_80: "rankOf r = 80 \<longleftrightarrow> r = ''admin''"
  by (auto simp: rankOf_def HIERARCHY_def)

text \<open>Whoever can manage a role outranks it, so nobody manages a peer and no two roles manage each other.\<close>

lemma can_update_role: "can a ''team.update_role'' \<longleftrightarrow> 80 \<le> rankOf a"
  by (simp add: can_def CAPABILITY_MIN_ROLE_def hasAtLeast_def rankOf_def [of "''admin''"] HIERARCHY_def)

lemma canManage_outranks:
  assumes "canManage a t"
  shows "rankOf t < rankOf a"
proof -
  have a: "80 \<le> rankOf a" and t: "rankOf t \<noteq> 100" and peers: "rankOf t = 80 \<Longrightarrow> rankOf a = 100"
    using assms unfolding canManage_def can_update_role rankOf_eq_100 rankOf_eq_80 by simp_all
  show ?thesis using rankOf_cases [of t] t peers a by (elim insertE) simp_all
qed

lemma reviewers: "can r ''files.review'' \<longleftrightarrow> r = ''admin'' \<or> r = ''owner''"
  by (auto simp: can_def CAPABILITY_MIN_ROLE_def hasAtLeast_def rankOf_def HIERARCHY_def)

end
