(* ===== verification/Accounts.thy ===== *)
theory Accounts
  imports Requests JsText Roles
begin

text \<open>
  The tables behind accounts and access (\<^verbatim>\<open>src/db/schema.ts\<close>, with the constraints of
  \<^verbatim>\<open>db/migrations/001_initial_schema.sql\<close> and \<^verbatim>\<open>003_team_management.sql\<close>): users, organizations,
  sign-in codes, invitations, portal links and verification sessions. \<open>trail\<close> is no table: it records, newest
  first, what the statements did that the theorems count (a code was minted, tried, opened a session; an
  invitation was consumed), and no operation reads it. \<^verbatim>\<open>updated_at\<close> is kept by triggers and left out.
\<close>

section \<open>Tables\<close>

record accountRow =
  acId :: uuid
  acEmail :: string
  acName :: "string option"
  acPicture :: "string option"
  acRole :: string
  acOrg :: "uuid option"
  acOauthProvider :: "string option"
  acOauthId :: "string option"
  acEmailVerified :: bool
  acLastLoginAt :: "ms option"
  acTokenInvalidatedBefore :: "ms option"
  acPreferences :: "(string \<times> json) list"
  acCreatedAt :: ms

record organizationRow =
  onId :: uuid
  onName :: string
  onSlug :: "string option"
  onTier :: string
  onCreditsExhausted :: bool
  onStripeCustomerId :: "string option"
  onCreatedAt :: ms
  onUpdatedAt :: ms

record otpRow =
  otId :: uuid
  otEmail :: string
  otCode :: string
  otAttempts :: int
  otExpiresAt :: ms
  otCreatedAt :: ms

record inviteRow =
  ivId :: uuid
  ivOrg :: uuid
  ivInvitedBy :: uuid
  ivEmail :: string
  ivRole :: string
  ivToken :: string
  ivAcceptedAt :: "ms option"
  ivRevokedAt :: "ms option"
  ivExpiresAt :: ms
  ivCreatedAt :: ms

record portalRow =
  ptId :: uuid
  ptOrg :: uuid
  ptUser :: uuid
  ptEmail :: string
  ptSubjectType :: string
  ptSubjectId :: string
  ptTokenHash :: string
  ptExpiresAt :: "ms option"
  ptRevokedAt :: "ms option"
  ptLastSentAt :: "ms option"
  ptLastUsedAt :: "ms option"
  ptCreatedBy :: "uuid option"
  ptCreatedAt :: ms

datatype verificationStatus = VsClaimed | VsIssued | VsFailed

record verificationRow =
  vfId :: uuid
  vfJti :: string
  vfTicketId :: string
  vfRunId :: string
  vfRole :: string
  vfStatus :: verificationStatus
  vfUser :: "uuid option"
  vfExpiresAt :: "ms option"

datatype trailEvent =
    Minted uuid
  | Tried uuid
  | Opened uuid
  | Joined uuid

record accountDb =
  accounts :: "accountRow list"
  organizations :: "organizationRow list"
  otps :: "otpRow list"
  invites :: "inviteRow list"
  portalTokens :: "portalRow list"
  verificationRows :: "verificationRow list"
  trail :: "trailEvent list"

definition emptyAccounts :: accountDb where
  "emptyAccounts =
     \<lparr>accounts = [], organizations = [], otps = [], invites = [], portalTokens = [], verificationRows = [], trail = []\<rparr>"

text \<open>What Postgres answers to a row that breaks a unique constraint; the error handler makes it a 500.\<close>

definition uniqueViolation :: appError where
  "uniqueViolation = PlainError ''duplicate key value violates unique constraint''"

section \<open>Statements\<close>

text \<open>The insert of an account with the defaults of its columns, and the updates of one by its id.\<close>

definition newAccount :: "uuid \<Rightarrow> ms \<Rightarrow> string \<Rightarrow> string option \<Rightarrow> string \<Rightarrow> uuid \<Rightarrow> accountRow" where
  "newAccount i now email name role org =
     \<lparr>acId = i, acEmail = email, acName = name, acPicture = None, acRole = role, acOrg = Some org,
      acOauthProvider = None, acOauthId = None, acEmailVerified = True, acLastLoginAt = None,
      acTokenInvalidatedBefore = None, acPreferences = [], acCreatedAt = now\<rparr>"

definition insertAccount :: "accountRow \<Rightarrow> accountDb \<Rightarrow> appError + accountDb \<times> accountRow" where
  "insertAccount a db =
     (if acId a \<in> acId ` set (accounts db) \<or> acEmail a \<in> acEmail ` set (accounts db) then Inl uniqueViolation
      else Inr (db\<lparr>accounts := accounts db @ [a]\<rparr>, a))"

definition setAccount :: "(accountRow \<Rightarrow> bool) \<Rightarrow> (accountRow \<Rightarrow> accountRow) \<Rightarrow> accountDb \<Rightarrow> accountDb" where
  "setAccount p f db = db\<lparr>accounts := updateWhere p f (accounts db)\<rparr>"

definition accountById :: "uuid \<Rightarrow> accountDb \<Rightarrow> accountRow option" where
  "accountById i db = List.find (\<lambda>a. acId a = i) (accounts db)"

definition accountByEmail :: "string \<Rightarrow> accountDb \<Rightarrow> accountRow option" where
  "accountByEmail email db = List.find (\<lambda>a. acEmail a = email) (accounts db)"

definition memberOf :: "uuid \<Rightarrow> uuid \<Rightarrow> accountDb \<Rightarrow> accountRow option" where
  "memberOf i org db = List.find (\<lambda>a. acId a = i \<and> acOrg a = Some org) (accounts db)"

definition orgById :: "uuid option \<Rightarrow> accountDb \<Rightarrow> organizationRow option" where
  "orgById i db = List.find (\<lambda>g. Some (onId g) = i) (organizations db)"

definition insertOrg :: "organizationRow \<Rightarrow> accountDb \<Rightarrow> appError + accountDb \<times> organizationRow" where
  "insertOrg g db =
     (if onId g \<in> onId ` set (organizations db) \<or> onSlug g \<noteq> None \<and> onSlug g \<in> onSlug ` set (organizations db)
      then Inl uniqueViolation else Inr (db\<lparr>organizations := organizations db @ [g]\<rparr>, g))"

definition newOrg :: "uuid \<Rightarrow> ms \<Rightarrow> string \<Rightarrow> string \<Rightarrow> organizationRow" where
  "newOrg i now name slug =
     \<lparr>onId = i, onName = name, onSlug = Some slug, onTier = ''FREE'', onCreditsExhausted = False,
      onStripeCustomerId = None, onCreatedAt = now, onUpdatedAt = now\<rparr>"

text \<open>An invitation that waits, and the key of the partial unique index \<^verbatim>\<open>invites_pending_unique\<close>.\<close>

definition pendingInvite :: "inviteRow \<Rightarrow> bool" where
  "pendingInvite v \<longleftrightarrow> ivAcceptedAt v = None \<and> ivRevokedAt v = None"

definition inviteKey :: "inviteRow \<Rightarrow> uuid \<times> string" where
  "inviteKey v = (ivOrg v, ivEmail v)"

section \<open>The state of the tables\<close>

definition peopleOk :: "accountDb \<Rightarrow> bool" where
  "peopleOk db \<longleftrightarrow> distinct (map acId (accounts db)) \<and> distinct (map acEmail (accounts db)) \<and>
     distinct (map onId (organizations db)) \<and>
     distinct (map onSlug (filter (\<lambda>g. onSlug g \<noteq> None) (organizations db))) \<and>
     (\<forall>a\<in>set (accounts db). acRole a \<in> set ROLES \<and>
        (\<forall>org. acOrg a = Some org \<longrightarrow> org \<in> onId ` set (organizations db)))"

definition joinsOf :: "uuid \<Rightarrow> trailEvent list \<Rightarrow> nat" where
  "joinsOf i es = length (filter (\<lambda>e. e = Joined i) es)"

definition invitesOk :: "accountDb \<Rightarrow> bool" where
  "invitesOk db \<longleftrightarrow> distinct (map ivId (invites db)) \<and> distinct (map ivToken (invites db)) \<and>
     distinct (map inviteKey (filter pendingInvite (invites db))) \<and>
     (\<forall>v\<in>set (invites db). ivRole v \<in> set ASSIGNABLE_ROLES \<and>
        ivOrg v \<in> onId ` set (organizations db) \<and> ivInvitedBy v \<in> acId ` set (accounts db) \<and>
        joinsOf (ivId v) (trail db) = (if ivAcceptedAt v = None then 0 else 1)) \<and>
     (\<forall>i. i \<notin> ivId ` set (invites db) \<longrightarrow> joinsOf i (trail db) = 0)"

definition portalOk :: "accountDb \<Rightarrow> bool" where
  "portalOk db \<longleftrightarrow> distinct (map ptId (portalTokens db)) \<and> distinct (map ptTokenHash (portalTokens db)) \<and>
     (\<forall>t\<in>set (portalTokens db). ptUser t \<in> acId ` set (accounts db) \<and> ptOrg t \<in> onId ` set (organizations db))"

text \<open>
  What happened to a code since it was minted, and the state of the codes. \<open>counted\<close> is the accounting of
  the tries, which the atomic \<^verbatim>\<open>UPDATE\<close> of the sign-in keeps; the confirmation of an e-mail change does not keep it.
\<close>

definition sinceMinted :: "uuid \<Rightarrow> trailEvent list \<Rightarrow> trailEvent list" where
  "sinceMinted i es = takeWhile (\<lambda>e. e \<noteq> Minted i) es"

definition OTP_MAX_ATTEMPTS :: int where
  "OTP_MAX_ATTEMPTS = 5"

definition triesOf :: "uuid \<Rightarrow> trailEvent list \<Rightarrow> nat" where
  "triesOf i es = length (filter (\<lambda>e. e = Tried i) (sinceMinted i es))"

definition openingsOf :: "uuid \<Rightarrow> trailEvent list \<Rightarrow> nat" where
  "openingsOf i es = length (filter (\<lambda>e. e = Opened i) (sinceMinted i es))"

definition otpsOk :: "bool \<Rightarrow> accountDb \<Rightarrow> bool" where
  "otpsOk counted db \<longleftrightarrow> distinct (map otId (otps db)) \<and>
     (\<forall>r\<in>set (otps db). 0 \<le> otAttempts r \<and> otAttempts r \<le> OTP_MAX_ATTEMPTS \<and> openingsOf (otId r) (trail db) = 0 \<and>
        (counted \<longrightarrow> otAttempts r = int (triesOf (otId r) (trail db)))) \<and>
     (\<forall>i. openingsOf i (trail db) \<le> 1 \<and> (counted \<longrightarrow> int (triesOf i (trail db)) \<le> OTP_MAX_ATTEMPTS))"

definition accountInv :: "bool \<Rightarrow> accountDb \<Rightarrow> bool" where
  "accountInv counted db \<longleftrightarrow>
     peopleOk db \<and> invitesOk db \<and> portalOk db \<and> otpsOk counted db \<and> distinct (map vfJti (verificationRows db))"

text \<open>
  How the tables move. Nothing that is named elsewhere goes away: accounts, organizations, invitations and portal
  links stay, an invitation keeps what it says, and what was accepted or revoked stays so.
\<close>

definition inviteKept :: "inviteRow \<Rightarrow> inviteRow \<Rightarrow> bool" where
  "inviteKept v w \<longleftrightarrow> ivId w = ivId v \<and> ivOrg w = ivOrg v \<and> ivEmail w = ivEmail v \<and> ivRole w = ivRole v \<and>
     ivToken w = ivToken v \<and> ivInvitedBy w = ivInvitedBy v \<and> ivExpiresAt w = ivExpiresAt v \<and>
     (ivAcceptedAt v \<noteq> None \<longrightarrow> ivAcceptedAt w = ivAcceptedAt v) \<and> (ivRevokedAt v \<noteq> None \<longrightarrow> ivRevokedAt w \<noteq> None)"

definition portalKept :: "portalRow \<Rightarrow> portalRow \<Rightarrow> bool" where
  "portalKept t u \<longleftrightarrow> ptId u = ptId t \<and> ptOrg u = ptOrg t \<and> ptUser u = ptUser t \<and> ptEmail u = ptEmail t \<and>
     ptSubjectType u = ptSubjectType t \<and> ptSubjectId u = ptSubjectId t \<and> ptTokenHash u = ptTokenHash t \<and>
     ptExpiresAt u = ptExpiresAt t \<and> (ptRevokedAt t \<noteq> None \<longrightarrow> ptRevokedAt u = ptRevokedAt t)"

definition accountGrew :: "accountDb \<Rightarrow> accountDb \<Rightarrow> bool" where
  "accountGrew db db' \<longleftrightarrow> acId ` set (accounts db) \<subseteq> acId ` set (accounts db') \<and>
     onId ` set (organizations db) \<subseteq> onId ` set (organizations db') \<and>
     (\<forall>v\<in>set (invites db). \<exists>w\<in>set (invites db'). inviteKept v w) \<and>
     (\<forall>t\<in>set (portalTokens db). \<exists>u\<in>set (portalTokens db'). portalKept t u) \<and>
     set (map vfJti (verificationRows db)) \<subseteq> set (map vfJti (verificationRows db')) \<and>
     (\<exists>es. trail db' = es @ trail db)"

end
