(* ===== verification/Sessions.thy ===== *)
theory Sessions
  imports Accounts Base64Url
begin

text \<open>
  \<^verbatim>\<open>src/api/middleware/auth.ts\<close> with \<^verbatim>\<open>src/utils/session-duration.ts\<close>: session tokens, who is signed
  in, and what a signed-in user may do. The JSON web tokens are those of the library \<^verbatim>\<open>jose\<close>: \<open>aeVerify\<close> is
  \<open>jwtVerify\<close> with the app's secret at a time, and answers the claims of a token it accepts. Claims are the
  properties of a JSON object; the environment's values, the e-mail check of the schemas and the hash of a portal
  token are fields of \<open>authEnv\<close> too.
\<close>

section \<open>Tokens\<close>

type_synonym claims = "(string \<times> json) list"

record authEnv =
  aeVerify :: "ms \<Rightarrow> string \<Rightarrow> claims option"
  aeHipaaEnabled :: "string option"
  aeIsEmail :: "string \<Rightarrow> bool"
  aeIssue :: appError
  aeHash :: "string \<Rightarrow> string"

definition HIPAA_SESSION_DURATION_MS :: ms where
  "HIPAA_SESSION_DURATION_MS = 4 * 60 * 60 * 1000"

definition DEFAULT_SESSION_DURATION_MS :: ms where
  "DEFAULT_SESSION_DURATION_MS = 30 * 24 * 60 * 60 * 1000"

definition isHipaaEnabled :: "authEnv \<Rightarrow> bool" where
  "isHipaaEnabled env \<longleftrightarrow> aeHipaaEnabled env = Some ''true'' \<or> aeHipaaEnabled env = Some ''1''"

definition getSessionDurationMs :: "authEnv \<Rightarrow> ms" where
  "getSessionDurationMs env = (if isHipaaEnabled env then HIPAA_SESSION_DURATION_MS else DEFAULT_SESSION_DURATION_MS)"

definition jsonText :: "string option \<Rightarrow> json" where
  "jsonText s = (case s of None \<Rightarrow> JNull | Some t \<Rightarrow> JStr t)"

record sessionUser =
  suId :: uuid
  suEmail :: string
  suName :: "string option"
  suOrg :: "uuid option"
  suRole :: string

text \<open>\<open>setIssuedAt()\<close> is the current second and \<open>setExpirationTime("Ns")\<close> is N seconds after it.\<close>

definition identityClaims :: "sessionUser \<Rightarrow> claims" where
  "identityClaims u =
     [(''sub'', JStr (suId u)), (''email'', JStr (suEmail u)), (''name'', jsonText (suName u)),
      (''organizationId'', jsonText (suOrg u)), (''role'', JStr (suRole u))]"

definition lifetimeClaims :: "ms \<Rightarrow> int \<Rightarrow> claims" where
  "lifetimeClaims now ttlSec = [(''iat'', JNum (now div 1000)), (''exp'', JNum (now div 1000 + ttlSec))]"

definition createSessionToken :: "authEnv \<Rightarrow> ms \<Rightarrow> sessionUser \<Rightarrow> claims" where
  "createSessionToken env now u = identityClaims u @ lifetimeClaims now (getSessionDurationMs env div 1000)"

definition VERIFICATION_SESSION_CLAIM :: string where
  "VERIFICATION_SESSION_CLAIM = ''vrf''"

definition createVerificationSessionToken :: "ms \<Rightarrow> int \<Rightarrow> string \<Rightarrow> sessionUser \<Rightarrow> claims" where
  "createVerificationSessionToken now ttlSeconds jti u =
     identityClaims u @ [(VERIFICATION_SESSION_CLAIM, JObj [(''ro'', JBool True), (''jti'', JStr jti)])] @
     lifetimeClaims now ttlSeconds"

definition isVerificationSessionPayload :: "claims \<Rightarrow> bool" where
  "isVerificationSessionPayload p \<longleftrightarrow> map_of p VERIFICATION_SESSION_CLAIM \<noteq> None"

definition createWsToken :: "ms \<Rightarrow> uuid \<Rightarrow> uuid \<Rightarrow> claims" where
  "createWsToken now i org =
     [(''sub'', JStr i), (''organizationId'', JStr org), (''scope'', JStr ''ws'')] @ lifetimeClaims now 60"

definition verifyWsToken :: "authEnv \<Rightarrow> ms \<Rightarrow> string \<Rightarrow> claims option" where
  "verifyWsToken env now token =
     (case aeVerify env now token of
        None \<Rightarrow> None
      | Some p \<Rightarrow> if map_of p ''scope'' = Some (JStr ''ws'') then Some p else None)"

definition verifyToken :: "authEnv \<Rightarrow> ms \<Rightarrow> string \<Rightarrow> claims option" where
  "verifyToken env now token =
     (case aeVerify env now token of
        None \<Rightarrow> None
      | Some p \<Rightarrow> if map_of p ''scope'' \<noteq> None \<or> map_of p ''aud'' \<noteq> None then None else Some p)"

section \<open>The session cookie\<close>

definition SESSION_COOKIE :: string where
  "SESSION_COOKIE = ''session_id''"

definition sessionMaxAge :: "authEnv \<Rightarrow> int" where
  "sessionMaxAge env = getSessionDurationMs env div 1000"

definition hexDigit :: "char \<Rightarrow> nat option" where
  "hexDigit c =
     (if isDigit c then Some (digitVal c)
      else if 97 \<le> code c \<and> code c \<le> 102 then Some (code c - 87)
      else if 65 \<le> code c \<and> code c \<le> 70 then Some (code c - 55) else None)"

definition hexByte :: "string \<Rightarrow> nat option" where
  "hexByte s =
     (case s of a # b # _ \<Rightarrow> (case (hexDigit a, hexDigit b) of (Some m, Some n) \<Rightarrow> Some (16 * m + n) | _ \<Rightarrow> None)
      | _ \<Rightarrow> None)"

text \<open>
  \<open>decodeURIComponent\<close>. \<open>None\<close> is the \<open>URIError\<close>; it also stands for an escape of a character
  outside the model's strings, which no token contains.
\<close>

fun decodeURIComponent :: "string \<Rightarrow> string option" where
  "decodeURIComponent [] = Some []"
| "decodeURIComponent (c # s) =
     (if c \<noteq> CHR ''%'' then map_option (Cons c) (decodeURIComponent s)
      else case hexByte s of
        None \<Rightarrow> None
      | Some n \<Rightarrow>
          if n < 128 then map_option (Cons (char_of n)) (decodeURIComponent (drop 2 s))
          else if (n = 194 \<or> n = 195) \<and> drop 2 s \<noteq> [] \<and> hd (drop 2 s) = CHR ''%''
          then (case hexByte (drop 3 s) of
              Some m \<Rightarrow>
                if 128 \<le> m \<and> m < 192
                then map_option (Cons (char_of ((n - 192) * 64 + (m - 128)))) (decodeURIComponent (drop 5 s))
                else None
            | None \<Rightarrow> None)
          else None)"

definition sessionCandidate :: "string \<Rightarrow> string option" where
  "sessionCandidate part =
     (case splitFirst (CHR ''='') part of
        None \<Rightarrow> None
      | Some (name, rest) \<Rightarrow>
          if trim name \<noteq> SESSION_COOKIE then None
          else (let value = trim rest in
                if value = [] then None
                else Some (case decodeURIComponent value of Some v \<Rightarrow> v | None \<Rightarrow> value)))"

definition getSessionTokenCandidates :: "string option \<Rightarrow> string list" where
  "getSessionTokenCandidates cookie =
     List.map_filter sessionCandidate (splitOn (CHR '';'') (case cookie of None \<Rightarrow> [] | Some raw \<Rightarrow> raw))"

fun verifyFirstValidToken :: "authEnv \<Rightarrow> ms \<Rightarrow> string list \<Rightarrow> claims option" where
  "verifyFirstValidToken env now [] = None"
| "verifyFirstValidToken env now (token # rest) =
     (case verifyToken env now token of Some p \<Rightarrow> Some p | None \<Rightarrow> verifyFirstValidToken env now rest)"

section \<open>Who is signed in\<close>

record authUser =
  auId :: uuid
  auEmail :: string
  auName :: "string option"
  auOrg :: uuid
  auRole :: string

text \<open>\<open>down\<close> says that the read of the account failed or timed out.\<close>

definition revokedToken :: "accountRow \<Rightarrow> claims \<Rightarrow> bool" where
  "revokedToken a p \<longleftrightarrow>
     (case (acTokenInvalidatedBefore a, map_of p ''iat'') of
        (Some cutoff, Some (JNum iat)) \<Rightarrow> iat < cutoff div 1000 | _ \<Rightarrow> False)"

definition resolveUser :: "bool \<Rightarrow> claims \<Rightarrow> accountDb \<Rightarrow> authUser option" where
  "resolveUser down p db =
     (case map_of p ''sub'' of
        Some (JStr i) \<Rightarrow>
          if i = [] \<or> down then None
          else (case accountById i db of
              None \<Rightarrow> None
            | Some a \<Rightarrow>
                if \<not> truthy (acOrg a) then None
                else if revokedToken a p then None
                else Some \<lparr>auId = acId a, auEmail = acEmail a, auName = acName a, auOrg = the (acOrg a), auRole = acRole a\<rparr>)
      | _ \<Rightarrow> None)"

definition requireAuth ::
    "authEnv \<Rightarrow> ms \<Rightarrow> bool \<Rightarrow> string option \<Rightarrow> (authUser \<Rightarrow> (accountDb, appError + 'r) request) \<Rightarrow> (accountDb, appError + 'r) request" where
  "requireAuth env now down cookie next =
     (let candidates = getSessionTokenCandidates cookie in
      if candidates = [] then Answer (Inl (UnauthorizedError ''Authentication required''))
      else (case verifyFirstValidToken env now candidates of
          None \<Rightarrow> Answer (Inl (UnauthorizedError ''Invalid or expired session''))
        | Some p \<Rightarrow>
            select (resolveUser down p) (\<lambda>u.
              case u of None \<Rightarrow> Answer (Inl (UnauthorizedError ''User not found'')) | Some user \<Rightarrow> next user)))"

definition resolveOptionalUser ::
    "authEnv \<Rightarrow> ms \<Rightarrow> bool \<Rightarrow> string option \<Rightarrow> (authUser option \<Rightarrow> (accountDb, 'r) request) \<Rightarrow> (accountDb, 'r) request" where
  "resolveOptionalUser env now down cookie next =
     (case verifyFirstValidToken env now (getSessionTokenCandidates cookie) of
        None \<Rightarrow> next None
      | Some p \<Rightarrow> select (resolveUser down p) next)"

text \<open>\<open>requireCapability\<close> for a user who is signed in, as a check before a result and before a request.\<close>

definition lacksCapability :: "string \<Rightarrow> authUser \<Rightarrow> appError" where
  "lacksCapability cap user =
     ForbiddenError (''Your role ('' @ auRole user @ '') does not have the '' @ quoted cap @ '' permission.'')"

definition requireCapability :: "string \<Rightarrow> authUser \<Rightarrow> appError + 'a \<Rightarrow> appError + 'a" where
  "requireCapability cap user r = guard (\<not> can (auRole user) cap) (lacksCapability cap user) r"

definition withCapability ::
    "string \<Rightarrow> authUser \<Rightarrow> (accountDb, appError + 'r) request \<Rightarrow> (accountDb, appError + 'r) request" where
  "withCapability cap user p = check (\<not> can (auRole user) cap) (lacksCapability cap user) p"

section \<open>The guard of verification sessions\<close>

definition upperChar :: "char \<Rightarrow> char" where
  "upperChar c = (if isLower c then char_of (code c - 32) else c)"

definition SAFE_METHODS :: "string list" where
  "SAFE_METHODS = [''GET'', ''HEAD'', ''OPTIONS'']"

definition VERIFICATION_WRITE_ALLOWLIST :: "string list" where
  "VERIFICATION_WRITE_ALLOWLIST = [''/api/auth/logout'']"

definition readOnlyExempt :: "string \<Rightarrow> string \<Rightarrow> bool" where
  "readOnlyExempt httpMethod path \<longleftrightarrow>
     map upperChar httpMethod \<in> set SAFE_METHODS \<or> path \<in> set VERIFICATION_WRITE_ALLOWLIST"

definition verificationReadOnlyGuard ::
    "authEnv \<Rightarrow> ms \<Rightarrow> string \<Rightarrow> string \<Rightarrow> string option \<Rightarrow> (accountDb, appError + 'r) request \<Rightarrow> (accountDb, appError + 'r) request" where
  "verificationReadOnlyGuard env now httpMethod path cookie next =
     (if readOnlyExempt httpMethod path then next
      else check (case verifyFirstValidToken env now (getSessionTokenCandidates cookie) of
                    Some p \<Rightarrow> isVerificationSessionPayload p | None \<Rightarrow> False)
             (ForbiddenError ''Verification sessions are read-only'') next)"

end
