(* ===== verification/StorageKeys.thy ===== *)
theory StorageKeys
  imports JsText
begin

text \<open>
  \<^verbatim>\<open>src/services/storage-keys.ts\<close>: which object a storage key names. The project's prefix (the
  environment variable \<^verbatim>\<open>R2_KEY_PREFIX\<close>) and the random part of a key are arguments.
\<close>

section \<open>The project's namespace\<close>

definition badKey :: "string \<Rightarrow> appError" where
  "badKey m = BadRequestError (''storage: '' @ m)"

fun segmentProblem :: "string list \<Rightarrow> appError option" where
  "segmentProblem [] = None"
| "segmentProblem (seg # parts) =
     (if seg = ''..'' \<or> seg = ''.'' \<or> seg = [] then Some (badKey ''key contains invalid segment'')
      else if CHR 0x5C \<in> set seg then Some (badKey ''key contains backslash'')
      else segmentProblem parts)"

definition scopedKey :: "string \<Rightarrow> string \<Rightarrow> appError + string" where
  "scopedKey keyPrefix relativeKey =
     guard (relativeKey = []) (badKey ''missing key'')
     (guard (startsWith relativeKey ''/'') (badKey ''key must not start with /'')
     (guard (length relativeKey > 900) (badKey ''key too long'')
     (case segmentProblem (splitOn (CHR ''/'') relativeKey) of
        Some e \<Rightarrow> Inl e
      | None \<Rightarrow> Inr (keyPrefix @ relativeKey))))"

definition crossTenant :: appError where
  "crossTenant = ForbiddenError ''Cross-tenant access forbidden''"

definition assertOwnedKey :: "string \<Rightarrow> string \<Rightarrow> appError + string" where
  "assertOwnedKey keyPrefix fullKey =
     guard (fullKey = []) (badKey ''missing key'')
     (guard (keyPrefix \<noteq> [] \<and> \<not> startsWith fullKey keyPrefix) crossTenant
     (Inr fullKey))"

definition relativeKeyOf :: "string \<Rightarrow> string \<Rightarrow> appError + string" where
  "relativeKeyOf keyPrefix fullKey =
     ebind (assertOwnedKey keyPrefix fullKey) (\<lambda>k. Inr (drop (length keyPrefix) k))"

section \<open>The namespace of one organization\<close>

definition MANAGED_UPLOAD_PREFIX :: string where "MANAGED_UPLOAD_PREFIX = ''uploads/''"

definition RAW_ORG_PREFIX :: string where "RAW_ORG_PREFIX = ''org/''"

definition managedUploadKey :: "uuid \<Rightarrow> uuid \<Rightarrow> string \<Rightarrow> string" where
  "managedUploadKey organizationId randomId extension =
     MANAGED_UPLOAD_PREFIX @ organizationId @ ''/'' @ randomId @ extension"

definition orgScopedRawKey :: "string \<Rightarrow> string \<Rightarrow> uuid \<Rightarrow> appError + string" where
  "orgScopedRawKey keyPrefix relativeKey organizationId =
     (let mine = RAW_ORG_PREFIX @ organizationId @ ''/'' in
      guard (organizationId = []) crossTenant
      (ebind (scopedKey keyPrefix relativeKey) (\<lambda>_.
       guard (startsWith relativeKey MANAGED_UPLOAD_PREFIX)
         (ForbiddenError (''That file is a managed upload. Use /api/files/uploads/:id, which applies its review '' @
            ''status and its owner's permissions.''))
       (if startsWith relativeKey mine then Inr relativeKey
        else guard (startsWith relativeKey RAW_ORG_PREFIX) crossTenant (Inr (mine @ relativeKey))))))"

section \<open>Lemmas\<close>

lemma startsWith_append [simp]: "startsWith (p @ s) p"
  by (simp add: startsWith_def)

lemma startsWith_iff: "startsWith s p \<longleftrightarrow> (\<exists>t. s = p @ t)"
proof
  assume "startsWith s p"
  then have "s = p @ drop (length p) s" by (metis append_take_drop_id startsWith_def)
  then show "\<exists>t. s = p @ t" ..
qed auto

lemma segmentProblem_None:
  "segmentProblem parts = None \<longleftrightarrow>
     (\<forall>seg\<in>set parts. seg \<notin> {''..'', ''.'', []} \<and> CHR 0x5C \<notin> set seg)"
  by (induction parts rule: segmentProblem.induct) auto

text \<open>A key no driver refuses: short, relative, and made of ordinary segments.\<close>

definition cleanKey :: "string \<Rightarrow> bool" where
  "cleanKey k \<longleftrightarrow> k \<noteq> [] \<and> length k \<le> 900 \<and>
     (\<forall>seg\<in>set (splitOn (CHR ''/'') k). seg \<notin> {''..'', ''.'', []} \<and> CHR 0x5C \<notin> set seg)"

lemma cleanKey_relative:
  assumes "cleanKey k"
  shows "\<not> startsWith k ''/''"
proof
  assume "startsWith k ''/''"
  then obtain t where "k = CHR ''/'' # t" by (auto simp: startsWith_iff)
  then have "[] \<in> set (splitOn (CHR ''/'') k)" by simp
  with assms show False unfolding cleanKey_def by blast
qed

lemma scopedKey_Inr: "scopedKey p k = Inr f \<longleftrightarrow> cleanKey k \<and> f = p @ k"
proof -
  have seg: "cleanKey k \<longleftrightarrow> k \<noteq> [] \<and> length k \<le> 900 \<and> segmentProblem (splitOn (CHR ''/'') k) = None"
    by (simp only: cleanKey_def segmentProblem_None)
  show ?thesis
  proof (cases "segmentProblem (splitOn (CHR ''/'') k)")
    case None
    with cleanKey_relative [of k] show ?thesis by (auto simp: scopedKey_def seg)
  qed (auto simp: scopedKey_def seg)
qed

lemma relativeKeyOf_scopedKey: "scopedKey p k = Inr f \<Longrightarrow> relativeKeyOf p f = Inr k"
  by (auto simp: scopedKey_Inr relativeKeyOf_def assertOwnedKey_def cleanKey_def)

lemma orgScopedRawKey_Inr:
  assumes "orgScopedRawKey p k org = Inr s"
  shows "org \<noteq> []" and "cleanKey k" and "\<not> startsWith k MANAGED_UPLOAD_PREFIX"
    and "(k = s \<and> startsWith k (RAW_ORG_PREFIX @ org @ ''/'')) \<or>
      (s = RAW_ORG_PREFIX @ org @ ''/'' @ k \<and> \<not> startsWith k RAW_ORG_PREFIX)"
  using assms by (auto simp: orgScopedRawKey_def Let_def ebind_Inr_iff scopedKey_Inr split: if_splits)

lemma splitOn_under:
  "c \<notin> set a \<Longrightarrow> c \<notin> set b \<Longrightarrow> splitOn c (a @ c # b @ c # k) = a # b # splitOn c k"
  by (simp add: splitOn_append)

text \<open>
  C37. Raw storage keys stay in their workspace. A key that the scoping lets through lies under the raw prefix
  and that workspace's id, has no dot or empty segment that could climb out of it, is never a key of
  the managed layer and never a key any other workspace could be given; and if the scoped key is within
  the 900 characters a key may have, giving it back yields the same key (a longer one is refused, see
  long_keys_do_not_come_back).
\<close>

theorem raw_keys_stay_in_their_workspace:
  assumes "orgScopedRawKey p k org = Inr s"
    and "CHR ''/'' \<notin> set org" and "CHR ''/'' \<notin> set org'" and "org' \<noteq> org"
    and "org \<notin> {''.'', ''..''}" and "CHR 0x5C \<notin> set org"
  shows "startsWith s (RAW_ORG_PREFIX @ org @ ''/'') \<and>
    (\<forall>seg\<in>set (splitOn (CHR ''/'') s). seg \<notin> {''..'', ''.'', []} \<and> CHR 0x5C \<notin> set seg) \<and>
    (\<forall>k'. orgScopedRawKey p k' org' \<noteq> Inr s) \<and>
    (\<forall>r ext. managedUploadKey org' r ext \<noteq> s \<and> managedUploadKey org r ext \<noteq> s) \<and>
    (length s \<le> 900 \<longrightarrow> orgScopedRawKey p s org = Inr s)"
proof -
  note parts = orgScopedRawKey_Inr [OF assms(1)]
  have under: "startsWith s (RAW_ORG_PREFIX @ org @ ''/'')"
    using parts(4) by (auto simp: startsWith_iff)
  then obtain t where s: "s = ''org'' @ CHR ''/'' # org @ CHR ''/'' # t"
    by (auto simp: startsWith_iff RAW_ORG_PREFIX_def)
  have segs: "\<forall>seg\<in>set (splitOn (CHR ''/'') s). seg \<notin> {''..'', ''.'', []} \<and> CHR 0x5C \<notin> set seg"
    using parts(4)
  proof
    assume "k = s \<and> startsWith k (RAW_ORG_PREFIX @ org @ ''/'')"
    with parts(2) show ?thesis by (simp add: cleanKey_def)
  next
    assume r: "s = RAW_ORG_PREFIX @ org @ ''/'' @ k \<and> \<not> startsWith k RAW_ORG_PREFIX"
    have "splitOn (CHR ''/'') s = ''org'' # org # splitOn (CHR ''/'') k"
      using splitOn_under [of "CHR ''/''" "''org''" org k] assms(2) r by (simp add: RAW_ORG_PREFIX_def)
    with parts(1,2) assms(5,6) show ?thesis by (simp add: cleanKey_def)
  qed
  have head: "splitOn (CHR ''/'') s = ''org'' # org # splitOn (CHR ''/'') t"
    unfolding s using assms(2) by (intro splitOn_under) auto
  have other: "orgScopedRawKey p k' org' \<noteq> Inr s" for k'
  proof
    assume "orgScopedRawKey p k' org' = Inr s"
    from orgScopedRawKey_Inr(4) [OF this] have "startsWith s (RAW_ORG_PREFIX @ org' @ ''/'')"
      by (auto simp: startsWith_iff)
    then obtain t' where "s = ''org'' @ CHR ''/'' # org' @ CHR ''/'' # t'"
      by (auto simp: startsWith_iff RAW_ORG_PREFIX_def)
    then have "splitOn (CHR ''/'') s = ''org'' # org' # splitOn (CHR ''/'') t'"
      using assms(3) splitOn_under [of "CHR ''/''" "''org''" org' t'] by simp
    with head assms(4) show False by simp
  qed
  have managed: "managedUploadKey o' r ext \<noteq> s" for o' r ext
    by (simp add: s managedUploadKey_def MANAGED_UPLOAD_PREFIX_def)
  have "orgScopedRawKey p s org = Inr s" if "length s \<le> 900"
  proof -
    have "cleanKey s" using that segs by (simp add: cleanKey_def s)
    then have "scopedKey p s = Inr (p @ s)" by (simp add: scopedKey_Inr)
    moreover have "\<not> startsWith s MANAGED_UPLOAD_PREFIX" by (simp add: s startsWith_def MANAGED_UPLOAD_PREFIX_def)
    ultimately show ?thesis using under parts(1) by (simp add: orgScopedRawKey_def Let_def)
  qed
  with under segs other managed show ?thesis by blast
qed

theorem raw_keys_stay_in_their_workspace_witness:
  "orgScopedRawKey ''p/'' ''docs/a.pdf'' ''o1'' = Inr ''org/o1/docs/a.pdf'' \<and>
   orgScopedRawKey ''p/'' ''org/o1/docs/a.pdf'' ''o1'' = Inr ''org/o1/docs/a.pdf'' \<and>
   orgScopedRawKey ''p/'' ''org/o1/docs/a.pdf'' ''o2'' \<noteq> Inr ''org/o1/docs/a.pdf''"
proof -
  have eq: "orgScopedRawKey ''p/'' ''docs/a.pdf'' ''o1'' = Inr ''org/o1/docs/a.pdf''" by code_simp
  from raw_keys_stay_in_their_workspace [OF this, of "''o2''"] eq show ?thesis by simp
qed

text \<open>
  The scoped key of a key near the limit is over it: the route hands out a key that every later call
  refuses.
\<close>

lemma long_keys_do_not_come_back:
  assumes "orgScopedRawKey p k org = Inr s" and "length k > 859" and "length org = 36"
    and "\<not> startsWith k RAW_ORG_PREFIX"
  shows "scopedKey p s = Inl (badKey ''key too long'')"
proof -
  from orgScopedRawKey_Inr(4) [OF assms(1)] assms(4) have s: "s = ''org/'' @ org @ ''/'' @ k"
    by (auto simp: startsWith_iff RAW_ORG_PREFIX_def)
  with assms(2,3) have "length s > 900" by simp
  moreover have "s \<noteq> []" "\<not> startsWith s ''/''" by (simp_all add: s startsWith_def)
  ultimately show ?thesis by (simp add: scopedKey_def)
qed

end
