(* ===== verification/UploadedFiles.thy ===== *)
theory UploadedFiles
  imports Sessions StorageKeys UploadTypes "HOL-Library.AList"
begin

text \<open>
  \<^verbatim>\<open>src/services/uploaded-file.service.ts\<close>, the object store it writes through
  (\<^verbatim>\<open>putObject\<close>, \<^verbatim>\<open>getObject\<close> and \<^verbatim>\<open>deleteObject\<close> of \<^verbatim>\<open>src/services/storage.service.ts\<close>, over
  either driver), and the managed routes of \<^verbatim>\<open>src/api/routes/files/index.ts\<close>. The store is the list of
  its objects under their full keys, the newest first; the wire protocol of the drivers is left out, and whether a call of
  the store or the insert of a row fails is an argument. The clock, the generated ids and the bytes of a
  file are arguments too.
\<close>

section \<open>State\<close>

datatype uploadedFileStatus = PendingReview | Approved | Rejected

record uploadedFile =
  fiId :: uuid
  fiOrg :: uuid
  fiUploadedBy :: "uuid option"
  fiSubjectType :: "string option"
  fiSubjectId :: "string option"
  fiStorageKey :: string
  fiFilename :: string
  fiContentType :: string
  fiSizeBytes :: int
  fiStatus :: uploadedFileStatus
  fiReviewReason :: "string option"
  fiReviewedBy :: "uuid option"
  fiReviewedAt :: "ms option"
  fiCreatedAt :: ms
  fiUpdatedAt :: ms

record 'bytes storedObject =
  soBody :: 'bytes
  soContentType :: string

record 'bytes fileStore =
  fsRows :: "uploadedFile list"
  fsObjects :: "(string \<times> 'bytes storedObject) list"

section \<open>The object store\<close>

text \<open>\<open>fails\<close> is the error the driver throws, if it throws one.\<close>

definition putObject ::
    "string \<Rightarrow> appError option \<Rightarrow> string \<Rightarrow> 'bytes \<Rightarrow> string \<Rightarrow> 'bytes fileStore \<Rightarrow> appError + 'bytes fileStore" where
  "putObject keyPrefix fails key body contentType st =
     ebind (scopedKey keyPrefix key) (\<lambda>fullKey.
       case fails of
         Some e \<Rightarrow> Inl e
       | None \<Rightarrow> Inr (st\<lparr>fsObjects := AList.update fullKey
           \<lparr>soBody = body,
            soContentType = (if contentType = [] then ''application/octet-stream'' else contentType)\<rparr>
           (fsObjects st)\<rparr>))"

definition getObject :: "string \<Rightarrow> string \<Rightarrow> 'bytes fileStore \<Rightarrow> appError + 'bytes storedObject" where
  "getObject keyPrefix key st =
     ebind (scopedKey keyPrefix key) (\<lambda>fullKey.
       case map_of (fsObjects st) fullKey of
         Some obj \<Rightarrow> Inr obj
       | None \<Rightarrow> Inl (notFound ''File'' []))"

definition deleteObject ::
    "string \<Rightarrow> appError option \<Rightarrow> string \<Rightarrow> 'bytes fileStore \<Rightarrow> appError + 'bytes fileStore" where
  "deleteObject keyPrefix fails key st =
     ebind (scopedKey keyPrefix key) (\<lambda>fullKey.
       case fails of
         Some e \<Rightarrow> Inl e
       | None \<Rightarrow> Inr (st\<lparr>fsObjects := AList.delete fullKey (fsObjects st)\<rparr>))"

section \<open>Storing\<close>

record 'bytes storeUploadedFileInput =
  sfOrg :: uuid
  sfUploadedByUserId :: "uuid option"
  sfFilename :: string
  sfContentType :: string
  sfBody :: 'bytes
  sfSubjectType :: "string option"
  sfSubjectId :: "string option"
  sfAllow :: "uploadTypeId list option"
  sfMaxBytes :: "int option"
  sfStatus :: "uploadedFileStatus option"

text \<open>The values the database and \<open>crypto.randomUUID\<close> supply, and the failures the environment causes.\<close>

record storeEnvironment =
  sePrefix :: string
  seRandomId :: uuid
  seRowId :: uuid
  seNow :: ms
  sePutFails :: "appError option"
  seInsertFails :: "appError option"
  seDeleteFails :: "appError option"

definition controlChar :: "char \<Rightarrow> bool" where
  "controlChar c \<longleftrightarrow> code c < 32 \<or> code c = 127"

definition displayFilename :: "string \<Rightarrow> string" where
  "displayFilename filename =
     (let shown = take 255 (filter (\<lambda>c. \<not> controlChar c) (basename (trim filename)))
      in if shown = [] then ''file'' else shown)"

definition uploadedRow ::
    "storeEnvironment \<Rightarrow> ('bytes \<Rightarrow> int) \<Rightarrow> 'bytes storeUploadedFileInput \<Rightarrow> uploadCheckOk \<Rightarrow> uploadedFile" where
  "uploadedRow env size_of inp ok =
     \<lparr>fiId = seRowId env, fiOrg = sfOrg inp, fiUploadedBy = sfUploadedByUserId inp,
      fiSubjectType = sfSubjectType inp, fiSubjectId = sfSubjectId inp,
      fiStorageKey = managedUploadKey (sfOrg inp) (seRandomId env) (ukExtension ok),
      fiFilename = displayFilename (sfFilename inp), fiContentType = ukContentType ok,
      fiSizeBytes = size_of (sfBody inp),
      fiStatus = (case sfStatus inp of Some s \<Rightarrow> s | None \<Rightarrow> PendingReview),
      fiReviewReason = None, fiReviewedBy = None, fiReviewedAt = None,
      fiCreatedAt = seNow env, fiUpdatedAt = seNow env\<rparr>"

text \<open>The unique index is on the organization and the storage key; the id is the primary key.\<close>

definition fileKey :: "uploadedFile \<Rightarrow> uuid \<times> string" where
  "fileKey r = (fiOrg r, fiStorageKey r)"

text \<open>
  The bytes go first. When the row cannot be inserted they are taken away again, and a failure to do so
  is only logged; the answer carries the store that is left behind, as the store is not rolled back.
\<close>

definition storeUploadedFile ::
    "storeEnvironment \<Rightarrow> ('bytes \<Rightarrow> int) \<Rightarrow> 'bytes storeUploadedFileInput \<Rightarrow> 'bytes fileStore
      \<Rightarrow> (appError + uploadedFile) \<times> 'bytes fileStore" where
  "storeUploadedFile env size_of inp st =
     (case assertAllowedUpload
         \<lparr>ucFilename = sfFilename inp, ucContentType = sfContentType inp, ucSizeBytes = Some (size_of (sfBody inp))\<rparr>
         \<lparr>uoAllow = sfAllow inp, uoMaxBytes = sfMaxBytes inp\<rparr> of
        Inl e \<Rightarrow> (Inl e, st)
      | Inr ok \<Rightarrow>
          (let row = uploadedRow env size_of inp ok; key = fiStorageKey row in
           case putObject (sePrefix env) (sePutFails env) key (sfBody inp) (ukContentType ok) st of
             Inl e \<Rightarrow> (Inl e, st)
           | Inr st1 \<Rightarrow>
               (let undone = (case deleteObject (sePrefix env) (seDeleteFails env) key st1 of
                                Inl _ \<Rightarrow> st1 | Inr st2 \<Rightarrow> st2) in
                if seInsertFails env \<noteq> None then (Inl (the (seInsertFails env)), undone)
                else if fiId row \<in> fiId ` set (fsRows st) \<or> fileKey row \<in> fileKey ` set (fsRows st)
                then (Inl (ConflictError ''That file has already been uploaded.''), undone)
                else (Inr row, st1\<lparr>fsRows := fsRows st1 @ [row]\<rparr>))))"

section \<open>Reading\<close>

definition ownedFile :: "uuid \<Rightarrow> uuid \<Rightarrow> uploadedFile \<Rightarrow> bool" where
  "ownedFile i org r \<longleftrightarrow> fiId r = i \<and> fiOrg r = org"

definition getUploadedFile :: "uuid \<Rightarrow> uuid \<Rightarrow> uploadedFile list \<Rightarrow> appError + uploadedFile" where
  "getUploadedFile i org rows =
     (case List.find (ownedFile i org) rows of
        Some r \<Rightarrow> Inr r
      | None \<Rightarrow> Inl (notFound ''File'' []))"

record listUploadedFilesOptions =
  loOrg :: uuid
  loStatus :: "uploadedFileStatus option"
  loSubjectType :: "string option"
  loSubjectId :: "string option"
  loUploadedBy :: "uuid option"
  loLimit :: "int option"

definition limitOf :: "int option \<Rightarrow> nat" where
  "limitOf limit = nat (min (max (case limit of Some n \<Rightarrow> n | None \<Rightarrow> 100) 1) 500)"

text \<open>A filter that is absent or the empty string is not applied.\<close>

definition subjectMatches :: "listUploadedFilesOptions \<Rightarrow> uploadedFile \<Rightarrow> bool" where
  "subjectMatches options r \<longleftrightarrow>
     (case loStatus options of Some s \<Rightarrow> fiStatus r = s | None \<Rightarrow> True) \<and>
     (truthy (loSubjectType options) \<longrightarrow> fiSubjectType r = loSubjectType options) \<and>
     (truthy (loSubjectId options) \<longrightarrow> fiSubjectId r = loSubjectId options)"

definition newestFirst :: "int option \<Rightarrow> uploadedFile list \<Rightarrow> uploadedFile list" where
  "newestFirst limit rows = orderedLimit (\<lambda>r. - fiCreatedAt r) (limitOf limit) rows"

definition listUploadedFiles :: "listUploadedFilesOptions \<Rightarrow> uploadedFile list \<Rightarrow> uploadedFile list" where
  "listUploadedFiles options rows =
     newestFirst (loLimit options)
       (filter (\<lambda>r. fiOrg r = loOrg options \<and> subjectMatches options r \<and>
          (truthy (loUploadedBy options) \<longrightarrow> fiUploadedBy r = loUploadedBy options)) rows)"

definition REVIEW_CAPABILITY :: string where "REVIEW_CAPABILITY = ''files.review''"

record uploadViewer =
  uvId :: uuid
  uvRole :: string

definition listVisibleUploadedFiles ::
    "listUploadedFilesOptions \<Rightarrow> uploadViewer \<Rightarrow> uploadedFile list \<Rightarrow> uploadedFile list" where
  "listVisibleUploadedFiles options viewer rows =
     (if can (uvRole viewer) REVIEW_CAPABILITY then listUploadedFiles options rows
      else newestFirst (loLimit options)
        (filter (\<lambda>r. fiOrg r = loOrg options \<and>
           (fiStatus r = Approved \<or> fiUploadedBy r = Some (uvId viewer)) \<and> subjectMatches options r) rows))"

definition listPendingReview :: "uuid \<Rightarrow> int option \<Rightarrow> uploadedFile list \<Rightarrow> uploadedFile list" where
  "listPendingReview org limit rows =
     orderedLimit fiCreatedAt (limitOf limit) (filter (\<lambda>r. fiOrg r = org \<and> fiStatus r = PendingReview) rows)"

definition countPendingReview :: "uuid \<Rightarrow> uploadedFile list \<Rightarrow> nat" where
  "countPendingReview org rows = length (filter (\<lambda>r. fiOrg r = org \<and> fiStatus r = PendingReview) rows)"

section \<open>Review\<close>

definition recordDecision ::
    "ms \<Rightarrow> uuid \<Rightarrow> uuid \<Rightarrow> uuid \<Rightarrow> uploadedFileStatus \<Rightarrow> string option \<Rightarrow> uploadedFile list
      \<Rightarrow> appError + uploadedFile \<times> uploadedFile list" where
  "recordDecision now i org reviewer status reason rows =
     (let decide = (\<lambda>r. r\<lparr>fiStatus := status, fiReviewReason := reason, fiReviewedBy := Some reviewer,
                          fiReviewedAt := Some now, fiUpdatedAt := now\<rparr>) in
      case List.find (ownedFile i org) rows of
        None \<Rightarrow> Inl (notFound ''File'' [])
      | Some r \<Rightarrow> Inr (decide r, updateWhere (ownedFile i org) decide rows))"

definition approveUploadedFile ::
    "ms \<Rightarrow> uuid \<Rightarrow> uuid \<Rightarrow> uuid \<Rightarrow> uploadedFile list \<Rightarrow> appError + uploadedFile \<times> uploadedFile list" where
  "approveUploadedFile now i org reviewer rows = recordDecision now i org reviewer Approved None rows"

definition rejectUploadedFile ::
    "ms \<Rightarrow> uuid \<Rightarrow> uuid \<Rightarrow> uuid \<Rightarrow> string \<Rightarrow> uploadedFile list \<Rightarrow> appError + uploadedFile \<times> uploadedFile list" where
  "rejectUploadedFile now i org reviewer reason rows =
     guard (trim reason = []) (BadRequestError ''A rejection needs a reason.'')
       (recordDecision now i org reviewer Rejected (Some (take 1000 (trim reason))) rows)"

section \<open>Deleting\<close>

text \<open>The row and then the bytes; bytes that cannot be removed are logged and stay.\<close>

definition deleteUploadedFile ::
    "string \<Rightarrow> appError option \<Rightarrow> uuid \<Rightarrow> uuid \<Rightarrow> 'bytes fileStore \<Rightarrow> appError + 'bytes fileStore" where
  "deleteUploadedFile keyPrefix fails i org st =
     (case List.find (ownedFile i org) (fsRows st) of
        None \<Rightarrow> Inl (notFound ''File'' [])
      | Some r \<Rightarrow>
          (let st1 = st\<lparr>fsRows := deleteWhere (ownedFile i org) (fsRows st)\<rparr> in
           case deleteObject keyPrefix fails (fiStorageKey r) st1 of Inl _ \<Rightarrow> Inr st1 | Inr st2 \<Rightarrow> Inr st2))"

section \<open>Access\<close>

definition uploadedByViewer :: "uploadedFile \<Rightarrow> uploadViewer \<Rightarrow> bool" where
  "uploadedByViewer f viewer \<longleftrightarrow> truthy (fiUploadedBy f) \<and> fiUploadedBy f = Some (uvId viewer)"

definition canReadUploadedFile :: "uploadedFile \<Rightarrow> uploadViewer \<Rightarrow> bool" where
  "canReadUploadedFile f viewer \<longleftrightarrow>
     fiStatus f = Approved \<or> uploadedByViewer f viewer \<or> can (uvRole viewer) REVIEW_CAPABILITY"

definition assertCanReadUploadedFile :: "uploadedFile \<Rightarrow> uploadViewer \<Rightarrow> appError + unit" where
  "assertCanReadUploadedFile f viewer =
     guard (\<not> canReadUploadedFile f viewer) (ForbiddenError ''This file is waiting on review.'') (Inr ())"

definition canDeleteUploadedFile :: "uploadedFile \<Rightarrow> uploadViewer \<Rightarrow> bool" where
  "canDeleteUploadedFile f viewer \<longleftrightarrow> uploadedByViewer f viewer \<or> can (uvRole viewer) REVIEW_CAPABILITY"

section \<open>The routes\<close>

text \<open>
  The handlers of \<^verbatim>\<open>src/api/routes/files/index.ts\<close> for a user who is signed in, after their schemas
  have read the request.
\<close>

definition viewerOf :: "authUser \<Rightarrow> uploadViewer" where
  "viewerOf user = \<lparr>uvId = auId user, uvRole = auRole user\<rparr>"

text \<open>A filter of the query string that is empty is absent; a status outside the three is refused.\<close>

definition statusFilter :: "string option \<Rightarrow> appError + uploadedFileStatus option" where
  "statusFilter status =
     (if \<not> truthy status then Inr None
      else if status = Some ''pending_review'' then Inr (Some PendingReview)
      else if status = Some ''approved'' then Inr (Some Approved)
      else if status = Some ''rejected'' then Inr (Some Rejected)
      else Inl (BadRequestError ''Unknown status filter.''))"

definition listUploadsRoute ::
    "authUser \<Rightarrow> string option \<Rightarrow> string option \<Rightarrow> string option \<Rightarrow> uploadedFile list \<Rightarrow> appError + uploadedFile list" where
  "listUploadsRoute user status subjectType subjectId rows =
     ebind (statusFilter status) (\<lambda>s. Inr (listVisibleUploadedFiles
       \<lparr>loOrg = auOrg user, loStatus = s, loSubjectType = subjectType, loSubjectId = subjectId,
        loUploadedBy = None, loLimit = None\<rparr> (viewerOf user) rows))"

definition readUploadRoute :: "authUser \<Rightarrow> uuid \<Rightarrow> uploadedFile list \<Rightarrow> appError + uploadedFile" where
  "readUploadRoute user i rows =
     ebind (getUploadedFile i (auOrg user) rows) (\<lambda>f.
     ebind (assertCanReadUploadedFile f (viewerOf user)) (\<lambda>_. Inr f))"

definition deleteUploadRoute ::
    "string \<Rightarrow> appError option \<Rightarrow> authUser \<Rightarrow> uuid \<Rightarrow> 'bytes fileStore \<Rightarrow> appError + 'bytes fileStore" where
  "deleteUploadRoute keyPrefix fails user i st =
     ebind (getUploadedFile i (auOrg user) (fsRows st)) (\<lambda>f.
     guard (\<not> canDeleteUploadedFile f (viewerOf user))
       (ForbiddenError ''Only the person who uploaded this file, or a reviewer, can remove it.'')
     (deleteUploadedFile keyPrefix fails (fiId f) (auOrg user) st))"

text \<open>The queue a reviewer is shown, and the number beside it.\<close>

definition reviewQueueRoute :: "authUser \<Rightarrow> uploadedFile list \<Rightarrow> appError + uploadedFile list \<times> nat" where
  "reviewQueueRoute user rows =
     requireCapability REVIEW_CAPABILITY user
       (let files = listPendingReview (auOrg user) None rows in Inr (files, length files))"

definition approveRoute ::
    "ms \<Rightarrow> authUser \<Rightarrow> uuid \<Rightarrow> uploadedFile list \<Rightarrow> appError + uploadedFile \<times> uploadedFile list" where
  "approveRoute now user i rows =
     requireCapability REVIEW_CAPABILITY user (approveUploadedFile now i (auOrg user) (auId user) rows)"

text \<open>
  \<open>issue\<close> is the message the schema library has for a value it refuses; the validation hook answers 400
  with it.
\<close>

definition rejectSchema :: "string \<Rightarrow> string option" where
  "rejectSchema s = (let t = trim s in if t \<noteq> [] \<and> length t \<le> 1000 then Some t else None)"

definition rejectRoute ::
    "ms \<Rightarrow> (string \<Rightarrow> string) \<Rightarrow> authUser \<Rightarrow> uuid \<Rightarrow> string \<Rightarrow> uploadedFile list
      \<Rightarrow> appError + uploadedFile \<times> uploadedFile list" where
  "rejectRoute now issue user i reason rows =
     requireCapability REVIEW_CAPABILITY user
       (case rejectSchema reason of
          None \<Rightarrow> Inl (BadRequestError (issue reason))
        | Some r \<Rightarrow> rejectUploadedFile now i (auOrg user) (auId user) r rows)"

definition storeRoute ::
    "storeEnvironment \<Rightarrow> ('bytes \<Rightarrow> int) \<Rightarrow> authUser \<Rightarrow> string \<Rightarrow> string \<Rightarrow> 'bytes \<Rightarrow> string option \<Rightarrow> string option
      \<Rightarrow> 'bytes fileStore \<Rightarrow> (appError + uploadedFile) \<times> 'bytes fileStore" where
  "storeRoute env size_of user name type body subjectType subjectId st =
     storeUploadedFile env size_of
       \<lparr>sfOrg = auOrg user, sfUploadedByUserId = Some (auId user), sfFilename = name, sfContentType = type,
        sfBody = body, sfSubjectType = subjectType, sfSubjectId = subjectId, sfAllow = None,
        sfMaxBytes = None, sfStatus = None\<rparr> st"

text \<open>The raw layer: a key of the caller's choice, bound to the caller's workspace.\<close>

definition keyChar :: "char \<Rightarrow> bool" where
  "keyChar c \<longleftrightarrow> isLower c \<or> isUpper c \<or> isDigit c \<or> c \<in> set ''_-./''"

definition relativeKeySchema :: "string \<Rightarrow> string option" where
  "relativeKeySchema s =
     (let t = trim s in if t \<noteq> [] \<and> length t \<le> 900 \<and> list_all keyChar t then Some t else None)"

definition rawUploadRoute ::
    "string \<Rightarrow> appError option \<Rightarrow> (string \<Rightarrow> string) \<Rightarrow> ('bytes \<Rightarrow> int) \<Rightarrow> authUser \<Rightarrow> string
      \<Rightarrow> (string \<times> string \<times> 'bytes) option \<Rightarrow> string option \<Rightarrow> 'bytes fileStore \<Rightarrow> appError + string \<times> 'bytes fileStore" where
  "rawUploadRoute keyPrefix fails issue size_of user requestType file keyField st =
     requireCapability ''app.write'' user
     (guard (\<not> startsWith requestType ''multipart/form-data'')
        (BadRequestError ''Use multipart/form-data: { file, key }'')
      (case file of
         None \<Rightarrow> Inl (BadRequestError ''`file` field is required and must be a file'')
       | Some (name, type, body) \<Rightarrow>
           (if keyField = None \<or> trim (the keyField) = []
            then Inl (BadRequestError ''`key` field is required (relative key)'')
            else (case relativeKeySchema (the keyField) of
               None \<Rightarrow> Inl (BadRequestError (''key: '' @ issue (the keyField)))
             | Some key \<Rightarrow>
                 ebind (orgScopedRawKey keyPrefix key (auOrg user)) (\<lambda>scoped.
                 ebind (assertAllowedUpload
                     \<lparr>ucFilename = (if name = [] then scoped else name), ucContentType = type,
                      ucSizeBytes = Some (size_of body)\<rparr> defaultUploadOptions) (\<lambda>accepted.
                 ebind (putObject keyPrefix fails scoped body (ukContentType accepted) st) (\<lambda>st'.
                 Inr (scoped, st'))))))))"

definition rawDeleteRoute ::
    "string \<Rightarrow> appError option \<Rightarrow> (string \<Rightarrow> string) \<Rightarrow> authUser \<Rightarrow> string \<Rightarrow> 'bytes fileStore
      \<Rightarrow> appError + string \<times> 'bytes fileStore" where
  "rawDeleteRoute keyPrefix fails issue user keyField st =
     requireCapability ''app.write'' user
     (case relativeKeySchema keyField of
        None \<Rightarrow> Inl (BadRequestError (issue keyField))
      | Some key \<Rightarrow>
          ebind (orgScopedRawKey keyPrefix key (auOrg user)) (\<lambda>scoped.
          ebind (deleteObject keyPrefix fails scoped st) (\<lambda>st'. Inr (scoped, st'))))"

end
