(* ===== verification/UploadedFilesProofs.thy ===== *)
theory UploadedFilesProofs
  imports UploadedFiles
begin

text \<open>
  What the uploads promise: the list a person is shown is the files they may read, a decision can only be
  made by a reviewer of the workspace, and a row of the managed layer never points at bytes that are gone,
  whatever the managed and the raw routes do and whatever fails on the way.
\<close>

section \<open>Who sees what\<close>

lemma limitOf_bounds: "1 \<le> limitOf l \<and> limitOf l \<le> 500"
  by (auto simp: limitOf_def split: option.splits)

lemma set_newestFirst:
  "length rows \<le> limitOf l \<Longrightarrow> set (newestFirst l rows) = set rows"
  by (simp add: newestFirst_def orderedLimit_def)

lemma set_newestFirst_subset: "set (newestFirst l rows) \<subseteq> set rows"
  by (simp add: newestFirst_def set_orderedLimit_subset)

text \<open>The rows a request asks for, whoever asks.\<close>

definition askedFor :: "listUploadedFilesOptions \<Rightarrow> uploadedFile list \<Rightarrow> uploadedFile list" where
  "askedFor options rows = filter (\<lambda>r. fiOrg r = loOrg options \<and> subjectMatches options r) rows"

lemma visible_eq:
  assumes "uvId viewer \<noteq> []" and "loUploadedBy options = None"
  shows "listVisibleUploadedFiles options viewer rows =
    newestFirst (loLimit options) (filter (\<lambda>r. canReadUploadedFile r viewer) (askedFor options rows))"
proof (cases "can (uvRole viewer) REVIEW_CAPABILITY")
  case True
  then show ?thesis
    using assms(2)
    by (simp add: listVisibleUploadedFiles_def listUploadedFiles_def askedFor_def canReadUploadedFile_def truthy_def)
next
  case False
  have "uploadedByViewer r viewer \<longleftrightarrow> fiUploadedBy r = Some (uvId viewer)" for r
    using assms(1) by (auto simp: uploadedByViewer_def truthy_def)
  with False show ?thesis
    by (auto simp: listVisibleUploadedFiles_def askedFor_def canReadUploadedFile_def conj_ac
        intro!: arg_cong [where f = "newestFirst (loLimit options)"] filter_cong)
qed

text \<open>
  A person is shown exactly the files they may read. For a request that does not ask for one
  uploader's files, the list is the newest of the workspace's files that match and that
  the read rule accepts, all of them when they fit the limit, and a single file is served by
  its id to the same people only, so a pending or rejected file is never seen by anyone but its uploader and
  the reviewers, and a file of another workspace is not found.
\<close>

theorem shown_files_are_the_readable_ones:
  assumes "uvId viewer \<noteq> []" and "loUploadedBy options = None" and "viewer = viewerOf user"
    and "distinct (map fiId rows)"
  shows "set (listVisibleUploadedFiles options viewer rows) \<subseteq>
      {f \<in> set rows. fiOrg f = loOrg options \<and> subjectMatches options f \<and>
        (fiStatus f = Approved \<or> fiUploadedBy f = Some (uvId viewer) \<or> uvRole viewer \<in> {''admin'', ''owner''})} \<and>
    (length (askedFor options rows) \<le> limitOf (loLimit options) \<longrightarrow>
      set (listVisibleUploadedFiles options viewer rows) =
        {f \<in> set rows. fiOrg f = loOrg options \<and> subjectMatches options f \<and> canReadUploadedFile f viewer}) \<and>
    (\<forall>f\<in>set rows. readUploadRoute user (fiId f) rows =
      (if fiOrg f \<noteq> auOrg user then Inl (NotFoundError ''File not found'')
       else if canReadUploadedFile f viewer then Inr f
       else Inl (ForbiddenError ''This file is waiting on review.'')))"
proof -
  note eq = visible_eq [OF assms(1,2)]
  have access: "canReadUploadedFile f viewer \<longleftrightarrow>
      fiStatus f = Approved \<or> fiUploadedBy f = Some (uvId viewer) \<or> uvRole viewer \<in> {''admin'', ''owner''}" for f
    using assms(1)
    by (auto simp: canReadUploadedFile_def uploadedByViewer_def truthy_def REVIEW_CAPABILITY_def reviewers)
  have "set (listVisibleUploadedFiles options viewer rows) \<subseteq>
      {f \<in> set rows. fiOrg f = loOrg options \<and> subjectMatches options f \<and> canReadUploadedFile f viewer}"
    unfolding eq using set_newestFirst_subset by (fastforce simp: askedFor_def)
  moreover have "set (listVisibleUploadedFiles options viewer rows) =
      {f \<in> set rows. fiOrg f = loOrg options \<and> subjectMatches options f \<and> canReadUploadedFile f viewer}"
    if "length (askedFor options rows) \<le> limitOf (loLimit options)"
  proof -
    have "length (filter (\<lambda>r. canReadUploadedFile r viewer) (askedFor options rows)) \<le> limitOf (loLimit options)"
      using that length_filter_le order_trans by blast
    from set_newestFirst [OF this] show ?thesis unfolding eq by (auto simp: askedFor_def)
  qed
  moreover have "readUploadRoute user (fiId f) rows =
      (if fiOrg f \<noteq> auOrg user then Inl (NotFoundError ''File not found'')
       else if canReadUploadedFile f viewer then Inr f
       else Inl (ForbiddenError ''This file is waiting on review.''))" if "f \<in> set rows" for f
  proof (cases "fiOrg f = auOrg user")
    case True
    have "List.find (ownedFile (fiId f) (auOrg user)) rows = Some f"
    proof (cases "List.find (ownedFile (fiId f) (auOrg user)) rows")
      case None
      with that True show ?thesis by (auto simp: find_None_iff_all ownedFile_def)
    next
      case (Some g)
      then have "g \<in> set rows" "fiId g = fiId f" by (auto dest: find_Some_in simp: ownedFile_def)
      with assms(4) that have "g = f" by (blast intro: distinct_key_eq)
      with Some show ?thesis by simp
    qed
    with True assms(3) show ?thesis by (simp add: readUploadRoute_def getUploadedFile_def assertCanReadUploadedFile_def)
  next
    case False
    have "List.find (ownedFile (fiId f) (auOrg user)) rows = None"
    proof (rule ccontr)
      assume "List.find (ownedFile (fiId f) (auOrg user)) rows \<noteq> None"
      then obtain g where "List.find (ownedFile (fiId f) (auOrg user)) rows = Some g" by blast
      then have "g \<in> set rows" "fiId g = fiId f" "fiOrg g = auOrg user"
        by (auto dest: find_Some_in simp: ownedFile_def)
      with assms(4) that have "g = f" by (blast intro: distinct_key_eq)
      with False \<open>fiOrg g = auOrg user\<close> show False by simp
    qed
    with False show ?thesis by (simp add: readUploadRoute_def getUploadedFile_def notFound_def)
  qed
  ultimately show ?thesis unfolding access by blast
qed

section \<open>Rows and bytes\<close>

definition objectKey :: "string \<Rightarrow> uploadedFile \<Rightarrow> string" where
  "objectKey keyPrefix r = keyPrefix @ fiStorageKey r"

text \<open>A row of the managed namespace whose bytes are in the store, with the type and the size it says.\<close>

definition hasBytes :: "string \<Rightarrow> ('bytes \<Rightarrow> int) \<Rightarrow> (string \<times> 'bytes storedObject) list \<Rightarrow> uploadedFile \<Rightarrow> bool" where
  "hasBytes p size_of objects r \<longleftrightarrow>
     cleanKey (fiStorageKey r) \<and> startsWith (fiStorageKey r) MANAGED_UPLOAD_PREFIX \<and>
     (\<exists>obj. map_of objects (objectKey p r) = Some obj \<and>
        soContentType obj = fiContentType r \<and> size_of (soBody obj) = fiSizeBytes r)"

text \<open>Every row has its bytes, and no two rows share them.\<close>

definition fileStoreOk :: "string \<Rightarrow> ('bytes \<Rightarrow> int) \<Rightarrow> 'bytes fileStore \<Rightarrow> bool" where
  "fileStoreOk p size_of st \<longleftrightarrow>
     (\<forall>r\<in>set (fsRows st). hasBytes p size_of (fsObjects st) r) \<and> distinct (map fiStorageKey (fsRows st))"

text \<open>
  Any request the two layers serve, with whatever fails on the way. The random part of a new key is one
  that is not in use, which is what \<open>crypto.randomUUID\<close> promises.
\<close>

inductive fileStep :: "string \<Rightarrow> ('bytes \<Rightarrow> int) \<Rightarrow> 'bytes fileStore \<Rightarrow> 'bytes fileStore \<Rightarrow> bool" for p size_of where
  store: "\<lbrakk>storeUploadedFile env size_of inp st = (r, st'); sePrefix env = p;
     \<And>org ext. managedUploadKey org (seRandomId env) ext \<notin> fiStorageKey ` set (fsRows st)\<rbrakk> \<Longrightarrow> fileStep p size_of st st'"
| approve: "approveRoute now user i (fsRows st) = Inr (f, rows) \<Longrightarrow> fileStep p size_of st (st\<lparr>fsRows := rows\<rparr>)"
| reject: "rejectRoute now issue user i reason (fsRows st) = Inr (f, rows) \<Longrightarrow> fileStep p size_of st (st\<lparr>fsRows := rows\<rparr>)"
| remove: "deleteUploadRoute p fails user i st = Inr st' \<Longrightarrow> fileStep p size_of st st'"
| rawUpload: "rawUploadRoute p fails issue size_of user ct upload keyField st = Inr (k, st') \<Longrightarrow> fileStep p size_of st st'"
| rawDelete: "rawDeleteRoute p fails issue user key st = Inr (k, st') \<Longrightarrow> fileStep p size_of st st'"

lemma putObject_Inr:
  "putObject p fails key body ct st = Inr st' \<Longrightarrow>
     cleanKey key \<and> fsRows st' = fsRows st \<and>
     map_of (fsObjects st') = (map_of (fsObjects st))(p @ key \<mapsto>
       \<lparr>soBody = body, soContentType = (if ct = [] then ''application/octet-stream'' else ct)\<rparr>)"
  by (auto simp: putObject_def ebind_Inr_iff scopedKey_Inr update_conv' split: option.splits)

lemma deleteObject_Inr:
  "deleteObject p fails key st = Inr st' \<Longrightarrow>
     fsRows st' = fsRows st \<and> map_of (fsObjects st') = (map_of (fsObjects st))(p @ key := None)"
  by (auto simp: deleteObject_def ebind_Inr_iff scopedKey_Inr delete_conv' split: option.splits)

text \<open>A store whose rows are the old ones and whose objects under their keys are too.\<close>

lemma fileStoreOk_same:
  assumes "fileStoreOk p size_of st" and "fsRows st' = fsRows st"
    and "\<And>r. r \<in> set (fsRows st) \<Longrightarrow> map_of (fsObjects st') (objectKey p r) = map_of (fsObjects st) (objectKey p r)"
  shows "fileStoreOk p size_of st'"
  using assms unfolding fileStoreOk_def hasBytes_def by auto

lemma fileStoreOk_decision:
  assumes "fileStoreOk p size_of st" and "recordDecision now i org reviewer status reason (fsRows st) = Inr (f, rows)"
  shows "fileStoreOk p size_of (st\<lparr>fsRows := rows\<rparr>)"
proof -
  let ?d = "\<lambda>r. r\<lparr>fiStatus := status, fiReviewReason := reason, fiReviewedBy := Some reviewer,
                  fiReviewedAt := Some now, fiUpdatedAt := now\<rparr>"
  have rows: "rows = updateWhere (ownedFile i org) ?d (fsRows st)"
    using assms(2) by (auto simp: recordDecision_def Let_def split: option.splits)
  have keys: "map fiStorageKey rows = map fiStorageKey (fsRows st)"
    unfolding rows by (rule map_updateWhere) simp
  have "hasBytes p size_of (fsObjects st) r" if "r \<in> set rows" for r
    using that assms(1) unfolding rows
    by (elim in_updateWhereE) (auto simp: fileStoreOk_def hasBytes_def objectKey_def)
  with keys assms(1) show ?thesis by (simp add: fileStoreOk_def)
qed

lemma raw_key_not_managed:
  assumes "orgScopedRawKey p k org = Inr s" and "startsWith m MANAGED_UPLOAD_PREFIX"
  shows "m \<noteq> s"
  using orgScopedRawKey_Inr [OF assms(1)] assms(2)
  by (auto simp: startsWith_iff RAW_ORG_PREFIX_def MANAGED_UPLOAD_PREFIX_def)

lemma raw_object_not_managed:
  assumes "fileStoreOk p size_of st" and "orgScopedRawKey p k org = Inr s" and "r \<in> set (fsRows st)"
  shows "objectKey p r \<noteq> p @ s"
  using assms raw_key_not_managed [OF assms(2), of "fiStorageKey r"]
  by (auto simp: fileStoreOk_def hasBytes_def objectKey_def)

lemma accepted_content_type: "assertAllowedUpload c opts = Inr ok \<Longrightarrow> ukContentType ok \<noteq> []"
  by (auto simp: assertAllowedUpload_def checkUpload_def uploadFailure_def Let_def
      split: sum.splits if_splits option.splits)

lemma storeUploadedFile_keeps:
  assumes ok: "fileStoreOk p size_of st" and eq: "storeUploadedFile env size_of inp st = (r, st')" and p: "sePrefix env = p"
    and fresh: "\<And>org ext. managedUploadKey org (seRandomId env) ext \<notin> fiStorageKey ` set (fsRows st)"
  shows "fileStoreOk p size_of st'"
proof (cases "assertAllowedUpload
         \<lparr>ucFilename = sfFilename inp, ucContentType = sfContentType inp, ucSizeBytes = Some (size_of (sfBody inp))\<rparr>
         \<lparr>uoAllow = sfAllow inp, uoMaxBytes = sfMaxBytes inp\<rparr>")
  case (Inl e)
  with eq ok show ?thesis by (simp add: storeUploadedFile_def)
next
  case accepted: (Inr accepted)
  let ?row = "uploadedRow env size_of inp accepted"
  let ?key = "fiStorageKey ?row"
  have key: "?key = managedUploadKey (sfOrg inp) (seRandomId env) (ukExtension accepted)"
    by (simp add: uploadedRow_def)
  have apart: "fiStorageKey q \<noteq> ?key" if "q \<in> set (fsRows st)" for q
    using imageI [OF that, of fiStorageKey] fresh [of "sfOrg inp" "ukExtension accepted"] unfolding key by metis
  then have new: "objectKey p q \<noteq> p @ ?key" "fiStorageKey q \<noteq> ?key" if "q \<in> set (fsRows st)" for q
    using that by (simp_all add: objectKey_def)
  show ?thesis
  proof (cases "putObject p (sePutFails env) ?key (sfBody inp) (ukContentType accepted) st")
    case (Inl e)
    with accepted eq ok p show ?thesis by (simp add: storeUploadedFile_def Let_def)
  next
    case st1: (Inr st1)
    note put = putObject_Inr [OF st1]
    have ok1: "fileStoreOk p size_of st1" by (rule fileStoreOk_same [OF ok]) (use put new in auto)
    have undone: "fileStoreOk p size_of (case deleteObject p (seDeleteFails env) ?key st1 of Inl _ \<Rightarrow> st1 | Inr st2 \<Rightarrow> st2)"
    proof (cases "deleteObject p (seDeleteFails env) ?key st1")
      case (Inr st2)
      note del = deleteObject_Inr [OF this]
      have "fileStoreOk p size_of st2" by (rule fileStoreOk_same [OF ok1]) (use del put new in auto)
      with Inr show ?thesis by simp
    qed (simp add: ok1)
    have "startsWith ?key MANAGED_UPLOAD_PREFIX" by (simp add: key managedUploadKey_def)
    moreover have "map_of (fsObjects st1) (objectKey p ?row) =
        Some \<lparr>soBody = sfBody inp, soContentType = ukContentType accepted\<rparr>"
      using put accepted_content_type [OF accepted] by (simp add: objectKey_def)
    ultimately have "hasBytes p size_of (fsObjects st1) ?row"
      using put by (simp add: hasBytes_def) (simp add: uploadedRow_def)
    moreover have "?key \<notin> fiStorageKey ` set (fsRows st1)" using put apart by (metis imageE)
    ultimately have stored: "fileStoreOk p size_of (st1\<lparr>fsRows := fsRows st1 @ [?row]\<rparr>)"
      using ok1 by (auto simp: fileStoreOk_def)
    show ?thesis
      using eq accepted st1 p undone stored by (auto simp: storeUploadedFile_def Let_def split: if_splits)
  qed
qed

lemma deleteUploadedFile_keeps:
  assumes ok: "fileStoreOk p size_of st" and eq: "deleteUploadedFile p fails i org st = Inr st'"
  shows "fileStoreOk p size_of st'"
proof -
  obtain r where r: "List.find (ownedFile i org) (fsRows st) = Some r"
    using eq by (auto simp: deleteUploadedFile_def split: option.splits)
  let ?st1 = "st\<lparr>fsRows := deleteWhere (ownedFile i org) (fsRows st)\<rparr>"
  have in_rows: "r \<in> set (fsRows st)" "ownedFile i org r" using find_Some_in [OF r] by auto
  have ok1: "fileStoreOk p size_of ?st1"
    using ok by (auto simp: fileStoreOk_def distinct_map_deleteWhere)
  have other: "fiStorageKey q \<noteq> fiStorageKey r" if "q \<in> set (fsRows ?st1)" for q
    using that in_rows ok distinct_key_eq [of fiStorageKey "fsRows st" q r] by (auto simp: fileStoreOk_def)
  show ?thesis
  proof (cases "deleteObject p fails (fiStorageKey r) ?st1")
    case (Inl e)
    with eq r ok1 show ?thesis by (simp add: deleteUploadedFile_def Let_def)
  next
    case (Inr st2)
    note del = deleteObject_Inr [OF this]
    have "fileStoreOk p size_of st2"
      by (rule fileStoreOk_same [OF ok1]) (use del other in \<open>auto simp: objectKey_def\<close>)
    with eq r Inr show ?thesis by (simp add: deleteUploadedFile_def Let_def)
  qed
qed

lemma rawDelete_keeps:
  assumes "fileStoreOk p size_of st" and "rawDeleteRoute p fails issue user key st = Inr (k, st')"
  shows "fileStoreOk p size_of st'"
proof -
  from assms(2) obtain relative where scoped: "orgScopedRawKey p relative (auOrg user) = Inr k"
    and del: "deleteObject p fails k st = Inr st'"
    by (auto simp: rawDeleteRoute_def requireCapability_def ebind_Inr_iff split: option.splits)
  show ?thesis
    by (rule fileStoreOk_same [OF assms(1)])
      (use deleteObject_Inr [OF del] raw_object_not_managed [OF assms(1) scoped] in auto)
qed

lemma rawUpload_keeps:
  assumes "fileStoreOk p size_of st" and "rawUploadRoute p fails issue size_of user ct upload keyField st = Inr (k, st')"
  shows "fileStoreOk p size_of st'"
proof -
  from assms(2) obtain key body c where scoped: "orgScopedRawKey p key (auOrg user) = Inr k"
    and put: "putObject p fails k body c st = Inr st'"
    by (auto simp: rawUploadRoute_def requireCapability_def ebind_Inr_iff split: option.splits if_splits)
  show ?thesis
    by (rule fileStoreOk_same [OF assms(1)])
      (use putObject_Inr [OF put] raw_object_not_managed [OF assms(1) scoped] in auto)
qed

lemma fileStep_keeps: "fileStep p size_of st st' \<Longrightarrow> fileStoreOk p size_of st \<Longrightarrow> fileStoreOk p size_of st'"
proof (induction rule: fileStep.induct)
  case (store env inp st r st')
  then show ?case using storeUploadedFile_keeps by blast
next
  case (approve now user i st f rows)
  then show ?case
    by (auto simp: approveRoute_def requireCapability_def approveUploadedFile_def intro: fileStoreOk_decision)
next
  case (reject now issue user i reason st f rows)
  then show ?case
    by (auto simp: rejectRoute_def requireCapability_def rejectUploadedFile_def intro: fileStoreOk_decision
        split: option.splits)
next
  case (remove fails user i st st')
  then show ?case
    by (auto simp: deleteUploadRoute_def ebind_Inr_iff intro: deleteUploadedFile_keeps)
qed (blast intro: rawUpload_keeps rawDelete_keeps)+

definition emptyStore :: "'bytes fileStore" where
  "emptyStore = \<lparr>fsRows = [], fsObjects = []\<rparr>"

interpretation uploads: machine "\<lambda>st. st = emptyStore" "fileStep p size_of" "fileStoreOk p size_of" for p size_of
proof
  fix st :: "'a fileStore"
  show "st = emptyStore \<Longrightarrow> fileStoreOk p size_of st" by (simp add: emptyStore_def fileStoreOk_def)
qed (rule fileStep_keeps)

text \<open>
  C16. A row never points at nothing. After any requests to the managed and the raw file routes, whichever of
  their writes fail, every row of the uploaded files has an object under its storage key, with the content
  type and the size the row says, no other row uses that key, and no raw key of any workspace names it.
\<close>

theorem rows_point_at_their_bytes:
  assumes "reachable (\<lambda>st. st = emptyStore) (fileStep p size_of) st" and "r \<in> set (fsRows st)"
  shows "(\<exists>obj. getObject p (fiStorageKey r) st = Inr obj \<and>
      soContentType obj = fiContentType r \<and> size_of (soBody obj) = fiSizeBytes r) \<and>
    (\<forall>q\<in>set (fsRows st). fiStorageKey q = fiStorageKey r \<longrightarrow> q = r) \<and>
    (\<forall>key org. orgScopedRawKey p key org \<noteq> Inr (fiStorageKey r))"
proof -
  from uploads.inv_reachable [OF assms(1)] assms(2)
  have bytes: "hasBytes p size_of (fsObjects st) r" and apart: "distinct (map fiStorageKey (fsRows st))"
    by (simp_all add: fileStoreOk_def)
  from bytes have "scopedKey p (fiStorageKey r) = Inr (objectKey p r)"
    by (simp add: hasBytes_def scopedKey_Inr objectKey_def)
  with bytes have "\<exists>obj. getObject p (fiStorageKey r) st = Inr obj \<and>
      soContentType obj = fiContentType r \<and> size_of (soBody obj) = fiSizeBytes r"
    by (auto simp: hasBytes_def getObject_def)
  moreover have "orgScopedRawKey p key org \<noteq> Inr (fiStorageKey r)" for key org
    using raw_key_not_managed [of p key org "fiStorageKey r" "fiStorageKey r"] bytes by (auto simp: hasBytes_def)
  ultimately show ?thesis using apart assms(2) by (blast intro: distinct_key_eq)
qed

section \<open>Examples\<close>

definition exampleStoreEnv :: storeEnvironment where
  "exampleStoreEnv = \<lparr>sePrefix = ''p/'', seRandomId = ''u1'', seRowId = ''f1'', seNow = 5, sePutFails = None,
     seInsertFails = None, seDeleteFails = None\<rparr>"

definition exampleUser :: "string \<Rightarrow> uuid \<Rightarrow> authUser" where
  "exampleUser role i = \<lparr>auId = i, auEmail = i @ ''@acme.de'', auName = None, auOrg = ''o1'', auRole = role\<rparr>"

definition exampleStore :: "string fileStore" where
  "exampleStore = snd (storeRoute exampleStoreEnv (\<lambda>b. int (length b)) (exampleUser ''editor'' ''u7'') ''../a.PDF''
     ''application/pdf'' ''bytes'' None None emptyStore)"

definition exampleFile :: uploadedFile where
  "exampleFile = \<lparr>fiId = ''f1'', fiOrg = ''o1'', fiUploadedBy = Some ''u7'', fiSubjectType = None, fiSubjectId = None,
     fiStorageKey = ''uploads/o1/u1.pdf'', fiFilename = ''a.PDF'', fiContentType = ''application/pdf'', fiSizeBytes = 5,
     fiStatus = PendingReview, fiReviewReason = None, fiReviewedBy = None, fiReviewedAt = None, fiCreatedAt = 5,
     fiUpdatedAt = 5\<rparr>"

lemma example_stored: "fsRows exampleStore = [exampleFile]"
  by code_simp

theorem shown_files_are_the_readable_ones_witness:
  "readUploadRoute (exampleUser ''editor'' ''u8'') ''f1'' [exampleFile] =
     Inl (ForbiddenError ''This file is waiting on review.'')"
proof -
  let ?o = "\<lparr>loOrg = ''o1'', loStatus = None, loSubjectType = None, loSubjectId = None, loUploadedBy = None, loLimit = None\<rparr>"
  have "\<not> canReadUploadedFile exampleFile (viewerOf (exampleUser ''editor'' ''u8''))" by code_simp
  with shown_files_are_the_readable_ones [of "viewerOf (exampleUser ''editor'' ''u8'')" ?o "exampleUser ''editor'' ''u8''"
      "[exampleFile]"]
  show ?thesis by (simp add: viewerOf_def exampleUser_def exampleFile_def)
qed

lemma example_reachable:
  "reachable (\<lambda>st. st = emptyStore) (fileStep ''p/'' (\<lambda>b. int (length b))) exampleStore"
proof (rule reach_step [OF reach_init])
  show "fileStep ''p/'' (\<lambda>b. int (length b)) emptyStore exampleStore"
    unfolding exampleStore_def storeRoute_def
    by (rule fileStep.store [OF prod.collapse [symmetric]]) (simp_all add: exampleStoreEnv_def emptyStore_def)
qed simp

theorem rows_point_at_their_bytes_witness:
  "\<exists>obj. getObject ''p/'' ''uploads/o1/u1.pdf'' exampleStore = Inr obj \<and> soContentType obj = ''application/pdf''"
  using rows_point_at_their_bytes [OF example_reachable, of exampleFile]
  by (auto simp: example_stored exampleFile_def)

text \<open>
  What the review screen calls the number of pending files is the length of the page it was given, which
  stops at the limit of the list.
\<close>

lemma pending_count_is_the_page:
  assumes "reviewQueueRoute user rows = Inr (files, n)"
  shows "n = min 100 (countPendingReview (auOrg user) rows)"
  using assms by (auto simp: reviewQueueRoute_def requireCapability_def listPendingReview_def countPendingReview_def
      length_orderedLimit_eq limitOf_def)

end
