(* ===== verification/ImportSession.thy ===== *)
theory ImportSession
  imports ImportMapping UploadedFiles
begin

text \<open>
  \<^verbatim>\<open>src/services/import/import.service.ts\<close>: the four steps of the import wizard over the application's
  tables (the type \<open>'db\<close> a definition works on), the \<^verbatim>\<open>import_sessions\<close> table and the uploaded files. The
  registry of definitions, the readers of the two file formats, the clock and the ids the database would
  generate are arguments; a JSONB column holds the value that was written to it.
\<close>

section \<open>Sessions\<close>

datatype importSessionStatus = SsParsed | SsMapped | SsCommitted | SsFailed

datatype rowOutcome = OutCreated | OutUpdated | OutSkipped | OutFailed

record importResultRow =
  rrRowNumber :: nat
  rrOutcome :: rowOutcome
  rrReason :: "string option"
  rrRecordId :: "uuid option"

record importResult =
  irCreated :: nat
  irUpdated :: nat
  irSkipped :: nat
  irFailed :: nat
  irProblemRows :: "importResultRow list"
  irUnlisted :: nat
  irRolledBack :: bool
  irError :: "string option"

record importSession =
  imId :: uuid
  imOrg :: uuid
  imCreatedBy :: "uuid option"
  imDefinitionName :: string
  imUploadedFileId :: "uuid option"
  imFilename :: string
  imStatus :: importSessionStatus
  imSheetName :: "string option"
  imHeaderRowIndex :: int
  imColumns :: "string list"
  imMapping :: "columnMappingEntry list"
  imRowCount :: nat
  imResult :: "importResult option"
  imAttestation :: "importAttestation option"
  imCommittedAt :: "ms option"
  imCreatedAt :: ms

definition PREVIEW_ROW_LIMIT :: int where "PREVIEW_ROW_LIMIT = 25"

definition MAX_LISTED_PROBLEM_ROWS :: nat where "MAX_LISTED_PROBLEM_ROWS = 1000"

section \<open>Preparation\<close>

datatype rowAction = RaCreate | RaUpdate | RaSkip

record preparedRow =
  prRowNumber :: nat
  prAction :: rowAction
  prValues :: rowValues
  prAllValues :: rowValues
  prExtras :: textValues
  prErrors :: "cellError list"
  prExistingId :: "uuid option"
  prDuplicateOfRow :: "nat option"

record prepareCounts =
  pcTotal :: nat
  pcCreate :: nat
  pcUpdate :: nat
  pcInvalid :: nat
  pcDuplicate :: nat

type_synonym numberedRow = "nat \<times> normalizedRow"

definition normalizeRows :: "'db importDefinition \<Rightarrow> (nat \<times> columnTarget) list \<Rightarrow> grid \<Rightarrow> numberedRow list" where
  "normalizeRows def byColumn rows =
     map2 (\<lambda>i row. case rowCells row byColumn of (cells, extras) \<Rightarrow> (i + 1, normalizeRow def cells extras))
       [0..<length rows] rows"

definition rowValid :: "numberedRow \<Rightarrow> bool" where
  "rowValid r \<longleftrightarrow> nrErrors (snd r) = []"

definition problemError :: "'db importDefinition \<Rightarrow> importRowProblem \<Rightarrow> cellError" where
  "problemError def p =
     \<lparr>ceField = ipField p,
      ceLabel = (case List.find (\<lambda>f. ifKey f = ipField p) (dfFields def) of Some f \<Rightarrow> ifLabel f | None \<Rightarrow> ''Row''),
      ceMessage = ipMessage p\<rparr>"

text \<open>The i-th problem is the i-th valid row's; an answer that is too short reports nothing for the rest.\<close>

fun applyScreening ::
    "'db importDefinition \<Rightarrow> importRowProblem option list \<Rightarrow> numberedRow list \<Rightarrow> numberedRow list" where
  "applyScreening def ps [] = []"
| "applyScreening def ps (r # rs) =
     (if \<not> rowValid r then r # applyScreening def ps rs
      else (case ps of
          Some p # ps' \<Rightarrow>
            (fst r, (snd r)\<lparr>nrErrors := nrErrors (snd r) @ [problemError def p]\<rparr>) # applyScreening def ps' rs
        | _ \<Rightarrow> r # applyScreening def (drop 1 ps) rs))"

definition screenNormalized :: "'db importDefinition \<Rightarrow> uuid \<Rightarrow> 'db \<Rightarrow> numberedRow list \<Rightarrow> numberedRow list" where
  "screenNormalized def org db rows =
     (case dfScreenRows def of
        None \<Rightarrow> rows
      | Some screen \<Rightarrow>
          (let candidates = filter rowValid rows in
           if candidates = [] then rows
           else applyScreening def (screen org (map (\<lambda>r. nrAllValues (snd r)) candidates) db) rows))"

definition preparedOf :: "numberedRow \<Rightarrow> rowAction \<Rightarrow> uuid option \<Rightarrow> nat option \<Rightarrow> preparedRow" where
  "preparedOf r action existingId duplicateOf =
     \<lparr>prRowNumber = fst r, prAction = action, prValues = nrValues (snd r), prAllValues = nrAllValues (snd r),
      prExtras = nrExtras (snd r), prErrors = nrErrors (snd r), prExistingId = existingId,
      prDuplicateOfRow = duplicateOf\<rparr>"

text \<open>
  One turn of the loop that decides every row: an invalid row is skipped, a row whose identity an earlier
  row of the file has claimed is a duplicate, and any other row claims its identities and is an update or a
  create.
\<close>

record prepareState =
  pzClaimed :: "(string \<times> nat) list"
  pzRows :: "preparedRow list"
  pzCounts :: prepareCounts

definition firstClaim :: "(string \<times> nat) list \<Rightarrow> string list \<Rightarrow> nat option" where
  "firstClaim claimed keys =
     (case List.find (\<lambda>k. map_of claimed k \<noteq> None) keys of None \<Rightarrow> None | Some k \<Rightarrow> map_of claimed k)"

definition prepareRow ::
    "'db importDefinition \<Rightarrow> (string \<times> uuid) list \<Rightarrow> numberedRow \<Rightarrow> prepareState \<Rightarrow> prepareState" where
  "prepareRow def index r st =
     (let counts = pzCounts st; keys = identityKeys (nrAllValues (snd r)) (dfMatchBy def) in
      if \<not> rowValid r
      then st\<lparr>pzRows := pzRows st @ [preparedOf r RaSkip None None],
              pzCounts := counts\<lparr>pcInvalid := pcInvalid counts + 1\<rparr>\<rparr>
      else (case firstClaim (pzClaimed st) keys of
          Some n \<Rightarrow> st\<lparr>pzRows := pzRows st @ [preparedOf r RaSkip None (Some n)],
                      pzCounts := counts\<lparr>pcDuplicate := pcDuplicate counts + 1\<rparr>\<rparr>
        | None \<Rightarrow>
            (let existing = lookupIdentity index (dfMatchBy def) (nrAllValues (snd r)) in
             st\<lparr>pzClaimed := claimKeys (fst r) keys (pzClaimed st),
                pzRows := pzRows st @ [preparedOf r (if truthy existing then RaUpdate else RaCreate) existing None],
                pzCounts := (if truthy existing then counts\<lparr>pcUpdate := pcUpdate counts + 1\<rparr>
                             else counts\<lparr>pcCreate := pcCreate counts + 1\<rparr>)\<rparr>)))"

definition prepareStart :: "nat \<Rightarrow> prepareState" where
  "prepareStart n =
     \<lparr>pzClaimed = [], pzRows = [],
      pzCounts = \<lparr>pcTotal = n, pcCreate = 0, pcUpdate = 0, pcInvalid = 0, pcDuplicate = 0\<rparr>\<rparr>"

record 'db preparedImport =
  piDefinition :: "'db importDefinition"
  piRows :: "preparedRow list"
  piCounts :: prepareCounts

definition existingFor :: "'db importDefinition \<Rightarrow> uuid \<Rightarrow> 'db \<Rightarrow> numberedRow list \<Rightarrow> existingRecord list" where
  "existingFor def org db rows =
     (let lookupRows = map (\<lambda>r. nrAllValues (snd r)) (filter rowValid rows) in
      if lookupRows = [] then [] else dfLoadExisting def org lookupRows db)"

definition prepareRows :: "'db importDefinition \<Rightarrow> uuid \<Rightarrow> 'db \<Rightarrow> numberedRow list \<Rightarrow> prepareState" where
  "prepareRows def org db rows =
     fold (prepareRow def (buildIdentityIndex (existingFor def org db rows) (dfMatchBy def))) rows
       (prepareStart (length rows))"

definition prepareImport ::
    "'db importDefinition \<Rightarrow> uuid \<Rightarrow> string list \<Rightarrow> grid \<Rightarrow> columnMappingEntry list \<Rightarrow> 'db
      \<Rightarrow> appError + 'db preparedImport" where
  "prepareImport def org columns rows mapping db =
     (case resolveMapping mapping columns def of (byColumn, errors) \<Rightarrow>
        guard (errors \<noteq> []) (BadRequestError (joinWith '' '' errors))
        (let st = prepareRows def org db (screenNormalized def org db (normalizeRows def byColumn rows))
         in Inr \<lparr>piDefinition = def, piRows = pzRows st, piCounts = pzCounts st\<rparr>))"

definition skipReason :: "preparedRow \<Rightarrow> string" where
  "skipReason row =
     (case prDuplicateOfRow row of
        Some n \<Rightarrow> ''Row '' @ decimal n @ '' is the same record. Only the first one is imported.''
      | None \<Rightarrow>
          if prErrors row \<noteq> []
          then joinWith '' '' (map (\<lambda>e. ceLabel e @ '' '' @ ceMessage e) (prErrors row))
          else ''Not imported.'')"

section \<open>State\<close>

record ('db, 'bytes) importState =
  isDb :: 'db
  isSessions :: "importSession list"
  isFiles :: "'bytes fileStore"

record ('db, 'bytes) importEnv =
  ieRegistry :: "'db importRegistry"
  ieReaders :: "'bytes sheetReaders"
  iePrefix :: string

section \<open>Creating a session\<close>

record 'bytes createImportSessionInput =
  ciOrg :: uuid
  ciUser :: "uuid option"
  ciDefinitionName :: string
  ciFilename :: string
  ciContentType :: string
  ciBody :: 'bytes
  ciSheetName :: "string option"
  ciHeaderRowIndex :: "int option"

definition newSession ::
    "uuid \<Rightarrow> ms \<Rightarrow> uuid \<Rightarrow> uuid option \<Rightarrow> string \<Rightarrow> uploadedFile \<Rightarrow> parsedSpreadsheet \<Rightarrow> columnProposal list \<Rightarrow> importSession" where
  "newSession sid now org user defName f parsed proposal =
     \<lparr>imId = sid, imOrg = org, imCreatedBy = user, imDefinitionName = defName,
      imUploadedFileId = Some (fiId f), imFilename = fiFilename f, imStatus = SsParsed,
      imSheetName = (if psSheetName parsed = [] then None else Some (psSheetName parsed)),
      imHeaderRowIndex = psHeaderRowIndex parsed, imColumns = psColumns parsed,
      imMapping = proposalToMapping proposal, imRowCount = length (psRows parsed),
      imResult = None, imAttestation = None, imCommittedAt = None, imCreatedAt = now\<rparr>"

text \<open>The session row, with the id and the time the database gives it.\<close>

definition insertSession ::
    "importSession \<Rightarrow> ('db, 'bytes) importState \<Rightarrow> ('db, 'bytes) importState" where
  "insertSession session st = st\<lparr>isSessions := isSessions st @ [session]\<rparr>"

definition createImportSession ::
    "('db, 'bytes) importEnv \<Rightarrow> storeEnvironment \<Rightarrow> uuid \<Rightarrow> 'bytes createImportSessionInput \<Rightarrow> ('db, 'bytes) importState
      \<Rightarrow> (appError + importSession \<times> columnProposal list) \<times> ('db, 'bytes) importState" where
  "createImportSession env senv sid inp st =
     (case ebind (getImportDefinition (ciDefinitionName inp) (ieRegistry env)) (\<lambda>def.
           ebind (parseSpreadsheet (ieReaders env) (ciBody inp)
             \<lparr>poFilename = Some (ciFilename inp), poContentType = Some (ciContentType inp),
              poSheetName = ciSheetName inp, poHeaderRowIndex = ciHeaderRowIndex inp\<rparr>) (\<lambda>parsed. Inr (def, parsed))) of
        Inl e \<Rightarrow> (Inl e, st)
      | Inr (def, parsed) \<Rightarrow>
          (case storeUploadedFile senv (\<lambda>b. int (srByteLength (ieReaders env) b))
               \<lparr>sfOrg = ciOrg inp, sfUploadedByUserId = ciUser inp, sfFilename = ciFilename inp,
                sfContentType = ciContentType inp, sfBody = ciBody inp, sfSubjectType = Some ''import'',
                sfSubjectId = Some (dfName def), sfAllow = Some (definitionUploadTypes def),
                sfMaxBytes = None, sfStatus = Some Approved\<rparr> (isFiles st) of
             (Inl e, files) \<Rightarrow> (Inl e, st\<lparr>isFiles := files\<rparr>)
           | (Inr f, files) \<Rightarrow>
               (let proposal = proposeMapping (psColumns parsed) def;
                    session = newSession sid (seNow senv) (ciOrg inp) (ciUser inp) (dfName def) f parsed proposal
                in (Inr (session, proposal), insertSession session (st\<lparr>isFiles := files\<rparr>)))))"

record createFromUploadInput =
  cuOrg :: uuid
  cuUser :: "uuid option"
  cuDefinitionName :: string
  cuUploadedFileId :: uuid
  cuSheetName :: "string option"
  cuHeaderRowIndex :: "int option"

definition createImportSessionFromUpload ::
    "('db, 'bytes) importEnv \<Rightarrow> uuid \<Rightarrow> ms \<Rightarrow> createFromUploadInput \<Rightarrow> ('db, 'bytes) importState
      \<Rightarrow> appError + (importSession \<times> columnProposal list) \<times> ('db, 'bytes) importState" where
  "createImportSessionFromUpload env sid now inp st =
     ebind (getImportDefinition (cuDefinitionName inp) (ieRegistry env)) (\<lambda>def.
     ebind (getUploadedFile (cuUploadedFileId inp) (cuOrg inp) (fsRows (isFiles st))) (\<lambda>f.
     ebind (assertAllowedUpload
         \<lparr>ucFilename = fiFilename f, ucContentType = fiContentType f, ucSizeBytes = Some (fiSizeBytes f)\<rparr>
         \<lparr>uoAllow = Some (definitionUploadTypes def), uoMaxBytes = None\<rparr>) (\<lambda>_.
     ebind (getObject (iePrefix env) (fiStorageKey f) (isFiles st)) (\<lambda>object.
     ebind (parseSpreadsheet (ieReaders env) (soBody object)
         \<lparr>poFilename = Some (fiFilename f), poContentType = Some (fiContentType f),
          poSheetName = cuSheetName inp, poHeaderRowIndex = cuHeaderRowIndex inp\<rparr>) (\<lambda>parsed.
       let proposal = proposeMapping (psColumns parsed) def;
           session = newSession sid now (cuOrg inp) (cuUser inp) (dfName def) f parsed proposal
       in Inr ((session, proposal), insertSession session st))))))"

section \<open>Reading a session\<close>

definition ownedSession :: "uuid \<Rightarrow> uuid \<Rightarrow> importSession \<Rightarrow> bool" where
  "ownedSession i org s \<longleftrightarrow> imId s = i \<and> imOrg s = org"

definition getImportSession :: "uuid \<Rightarrow> uuid \<Rightarrow> importSession list \<Rightarrow> appError + importSession" where
  "getImportSession i org sessions =
     (case List.find (ownedSession i org) sessions of
        Some s \<Rightarrow> Inr s
      | None \<Rightarrow> Inl (notFound ''Import session'' []))"

definition listImportSessions ::
    "uuid \<Rightarrow> string option \<Rightarrow> int option \<Rightarrow> importSession list \<Rightarrow> importSession list" where
  "listImportSessions org definitionName limit sessions =
     orderedLimit (\<lambda>s. - imCreatedAt s)
       (nat (min (max (case limit of Some n \<Rightarrow> n | None \<Rightarrow> 20) 1) 100))
       (filter (\<lambda>s. imOrg s = org \<and> (truthy definitionName \<longrightarrow> Some (imDefinitionName s) = definitionName)) sessions)"

text \<open>\<^verbatim>\<open>UPDATE ... RETURNING *\<close> and \<open>executeTakeFirstOrThrow\<close>.\<close>

definition updateSession ::
    "uuid \<Rightarrow> uuid \<Rightarrow> (importSession \<Rightarrow> importSession) \<Rightarrow> ('db, 'bytes) importState
      \<Rightarrow> appError + importSession \<times> ('db, 'bytes) importState" where
  "updateSession i org change st =
     (case List.find (ownedSession i org) (isSessions st) of
        None \<Rightarrow> Inl (PlainError ''no result'')
      | Some s \<Rightarrow> Inr (change s, st\<lparr>isSessions := updateWhere (ownedSession i org) change (isSessions st)\<rparr>))"

section \<open>Mapping\<close>

definition assertNotCommitted :: "importSession \<Rightarrow> appError + unit" where
  "assertNotCommitted session =
     guard (imStatus session = SsCommitted) (ConflictError ''This import has already been committed.'') (Inr ())"

definition setImportSessionMapping ::
    "('db, 'bytes) importEnv \<Rightarrow> uuid \<Rightarrow> uuid \<Rightarrow> columnMappingEntry list \<Rightarrow> ('db, 'bytes) importState
      \<Rightarrow> appError + importSession \<times> ('db, 'bytes) importState" where
  "setImportSessionMapping env i org entries st =
     ebind (getImportSession i org (isSessions st)) (\<lambda>session.
     ebind (assertNotCommitted session) (\<lambda>_.
     ebind (getImportDefinition (imDefinitionName session) (ieRegistry env)) (\<lambda>def.
       let errors = snd (resolveMapping entries (imColumns session) def) in
       guard (errors \<noteq> []) (BadRequestError (joinWith '' '' errors))
         (updateSession i org (\<lambda>s. s\<lparr>imMapping := entries, imStatus := SsMapped\<rparr>) st))))"

section \<open>Preparing what a session holds\<close>

definition readSessionGrid ::
    "('db, 'bytes) importEnv \<Rightarrow> importSession \<Rightarrow> ('db, 'bytes) importState \<Rightarrow> appError + string list \<times> grid" where
  "readSessionGrid env session st =
     guard (\<not> truthy (imUploadedFileId session))
       (BadRequestError ''The file for this import has been deleted. Upload it again to start over.'')
     (ebind (getUploadedFile (the (imUploadedFileId session)) (imOrg session) (fsRows (isFiles st))) (\<lambda>f.
      ebind (getObject (iePrefix env) (fiStorageKey f) (isFiles st)) (\<lambda>object.
      ebind (parseSpreadsheet (ieReaders env) (soBody object)
          \<lparr>poFilename = Some (fiFilename f), poContentType = Some (fiContentType f),
           poSheetName = imSheetName session, poHeaderRowIndex = Some (imHeaderRowIndex session)\<rparr>) (\<lambda>parsed.
        Inr (psColumns parsed, psRows parsed)))))"

definition prepareForSession ::
    "('db, 'bytes) importEnv \<Rightarrow> importSession \<Rightarrow> ('db, 'bytes) importState \<Rightarrow> appError + 'db preparedImport" where
  "prepareForSession env session st =
     ebind (getImportDefinition (imDefinitionName session) (ieRegistry env)) (\<lambda>def.
     ebind (readSessionGrid env session st) (\<lambda>(columns, rows).
       guard (length columns \<noteq> length (imColumns session))
         (ConflictError ''The file behind this import has changed. Start the import again.'')
         (prepareImport def (imOrg session) columns rows (imMapping session) (isDb st))))"

section \<open>Preview\<close>

record importPreviewRow =
  pwRowNumber :: nat
  pwAction :: rowAction
  pwValues :: rowValues
  pwErrors :: "cellError list"
  pwDuplicateOfRow :: "nat option"
  pwReason :: "string option"

record importPreview =
  pvSessionId :: uuid
  pvDefinitionName :: string
  pvColumns :: "string list"
  pvMapping :: "columnMappingEntry list"
  pvCounts :: prepareCounts
  pvRows :: "importPreviewRow list"
  pvProblemRows :: "importPreviewRow list"
  pvUnlisted :: nat

definition toPreviewRow :: "preparedRow \<Rightarrow> importPreviewRow" where
  "toPreviewRow row =
     \<lparr>pwRowNumber = prRowNumber row, pwAction = prAction row, pwValues = prAllValues row,
      pwErrors = prErrors row, pwDuplicateOfRow = prDuplicateOfRow row,
      pwReason = (if prAction row = RaSkip then Some (skipReason row) else None)\<rparr>"

definition skippedRows :: "preparedRow list \<Rightarrow> preparedRow list" where
  "skippedRows rows = filter (\<lambda>r. prAction r = RaSkip) rows"

definition rowsToWrite :: "preparedRow list \<Rightarrow> preparedRow list" where
  "rowsToWrite rows = filter (\<lambda>r. prAction r \<noteq> RaSkip) rows"

definition previewImportSession ::
    "('db, 'bytes) importEnv \<Rightarrow> uuid \<Rightarrow> uuid \<Rightarrow> int option \<Rightarrow> ('db, 'bytes) importState \<Rightarrow> appError + importPreview" where
  "previewImportSession env i org limit st =
     ebind (getImportSession i org (isSessions st)) (\<lambda>session.
     ebind (prepareForSession env session st) (\<lambda>prepared.
       let n = nat (min (max (case limit of Some l \<Rightarrow> l | None \<Rightarrow> PREVIEW_ROW_LIMIT) 1) 200);
           problems = skippedRows (piRows prepared)
       in Inr \<lparr>pvSessionId = imId session, pvDefinitionName = imDefinitionName session,
               pvColumns = imColumns session, pvMapping = imMapping session, pvCounts = piCounts prepared,
               pvRows = map toPreviewRow (take n (piRows prepared)),
               pvProblemRows = map toPreviewRow (take MAX_LISTED_PROBLEM_ROWS problems),
               pvUnlisted = length problems - MAX_LISTED_PROBLEM_ROWS\<rparr>))"

section \<open>Commit\<close>

definition problemRow :: "preparedRow \<Rightarrow> rowOutcome \<Rightarrow> string \<Rightarrow> importResultRow" where
  "problemRow row outcome reason =
     \<lparr>rrRowNumber = prRowNumber row, rrOutcome = outcome, rrReason = Some reason, rrRecordId = None\<rparr>"

text \<open>A template string prints a missing number as \<^verbatim>\<open>null\<close>.\<close>

definition numberText :: "nat option \<Rightarrow> string" where
  "numberText n = (case n of Some i \<Rightarrow> decimal i | None \<Rightarrow> ''null'')"

definition rolledBackRow :: "string option \<Rightarrow> nat option \<Rightarrow> preparedRow \<Rightarrow> importResultRow" where
  "rolledBackRow err failedRowNumber row =
     (if Some (prRowNumber row) = failedRowNumber
      then problemRow row OutFailed (''Could not be saved: '' @ (case err of Some m \<Rightarrow> m | None \<Rightarrow> ''unknown error''))
      else problemRow row OutSkipped
        (''Not imported: row '' @ numberText failedRowNumber @ '' failed and the whole import was rolled back.''))"

definition buildResult ::
    "(preparedRow \<times> uuid) list \<Rightarrow> preparedRow list \<Rightarrow> bool \<Rightarrow> string option \<Rightarrow> preparedRow list \<Rightarrow> nat option \<Rightarrow> importResult" where
  "buildResult written skipped rolledBack err rolledBackRows failedRowNumber =
     (let updated = length (filter (\<lambda>w. prAction (fst w) = RaUpdate) written);
          problems = sort_key rrRowNumber
            (map (\<lambda>r. problemRow r OutSkipped (skipReason r)) skipped @
             map (rolledBackRow err failedRowNumber) rolledBackRows)
      in \<lparr>irCreated = length written - updated, irUpdated = updated,
          irSkipped = length (filter (\<lambda>p. rrOutcome p = OutSkipped) problems),
          irFailed = length (filter (\<lambda>r. Some (prRowNumber r) = failedRowNumber) rolledBackRows),
          irProblemRows = take MAX_LISTED_PROBLEM_ROWS problems,
          irUnlisted = length problems - MAX_LISTED_PROBLEM_ROWS,
          irRolledBack = rolledBack, irError = err\<rparr>)"

text \<open>The rows in order, until one throws: its number and its message.\<close>

fun writeRows ::
    "(preparedRow \<Rightarrow> 'db \<Rightarrow> string + 'db \<times> uuid) \<Rightarrow> preparedRow list \<Rightarrow> 'db
      \<Rightarrow> (nat \<times> string) + ('db \<times> (preparedRow \<times> uuid) list)" where
  "writeRows upsert [] db = Inr (db, [])"
| "writeRows upsert (row # rows) db =
     (case upsert row db of
        Inl m \<Rightarrow> Inl (prRowNumber row, m)
      | Inr (db', i) \<Rightarrow>
          (case writeRows upsert rows db' of
             Inl failure \<Rightarrow> Inl failure
           | Inr (db'', written) \<Rightarrow> Inr (db'', (row, i) # written)))"

definition upsertPrepared ::
    "'db importDefinition \<Rightarrow> (nat \<Rightarrow> uuid) \<Rightarrow> importSession \<Rightarrow> uuid option \<Rightarrow> importAttestation option
      \<Rightarrow> preparedRow \<Rightarrow> 'db \<Rightarrow> string + 'db \<times> uuid" where
  "upsertPrepared def newId session user attestation row =
     dfUpsertRow def (newId (prRowNumber row))
       \<lparr>urOrg = imOrg session, urUser = user, urValues = prValues row, urExtras = prExtras row,
        urExistingId = prExistingId row, urRowNumber = prRowNumber row, urAttestation = attestation,
        urSessionId = imId session\<rparr>"

text \<open>
  What can go wrong around the transaction of \<open>withTimeout\<close>: the database does not start it, or runs
  the rows and refuses the commit, each with a message; or the timer fires first, and then the promise is rejected
  while the transaction goes on by itself, to be committed or lost.
\<close>

datatype txFault = TxNotStarted string | TxNotCommitted string | TxTimedOut bool

definition TIMEOUT_MESSAGE :: string where
  "TIMEOUT_MESSAGE = ''DB operation timed out after 120000ms (including pool acquisition)''"

text \<open>
  The outcome the caller sees (the rows written, or the failed row's number and the message), and the
  tables after the transaction.
\<close>

definition runTransaction ::
    "txFault option \<Rightarrow> (preparedRow \<Rightarrow> 'db \<Rightarrow> string + 'db \<times> uuid) \<Rightarrow> preparedRow list \<Rightarrow> 'db
      \<Rightarrow> ((nat option \<times> string) + (preparedRow \<times> uuid) list) \<times> 'db" where
  "runTransaction fault upsert rows db =
     (case fault of
        Some (TxNotStarted m) \<Rightarrow> (Inl (None, m), db)
      | Some (TxTimedOut lands) \<Rightarrow>
          (Inl (None, TIMEOUT_MESSAGE),
           (case writeRows upsert rows db of Inr (db', _) \<Rightarrow> if lands then db' else db | Inl _ \<Rightarrow> db))
      | _ \<Rightarrow>
          (case writeRows upsert rows db of
             Inl (n, m) \<Rightarrow> (Inl (Some n, m), db)
           | Inr (db', written) \<Rightarrow>
               (case fault of Some (TxNotCommitted m) \<Rightarrow> (Inl (None, m), db) | _ \<Rightarrow> (Inr written, db'))))"

definition storeResult ::
    "ms \<Rightarrow> importSession \<Rightarrow> importResult \<Rightarrow> importSessionStatus \<Rightarrow> ('db, 'bytes) importState
      \<Rightarrow> (appError + importSession \<times> importResult) \<times> ('db, 'bytes) importState" where
  "storeResult now session result status st =
     (case updateSession (imId session) (imOrg session)
         (\<lambda>s. s\<lparr>imStatus := status, imResult := Some result, imCommittedAt := Some now\<rparr>) st of
        Inl e \<Rightarrow> (Inl e, st)
      | Inr (s, st') \<Rightarrow> (Inr (s, result), st'))"

text \<open>The write of the prepared rows, and the account of it.\<close>

definition commitPrepared ::
    "txFault option \<Rightarrow> (nat \<Rightarrow> uuid) \<Rightarrow> ms \<Rightarrow> importSession \<Rightarrow> uuid option \<Rightarrow> importAttestation option
      \<Rightarrow> 'db preparedImport \<Rightarrow> ('db, 'bytes) importState
      \<Rightarrow> (appError + importSession \<times> importResult) \<times> ('db, 'bytes) importState" where
  "commitPrepared fault newId now session user attestation prepared st =
     (let toWrite = rowsToWrite (piRows prepared); skipped = skippedRows (piRows prepared) in
      if toWrite = [] then storeResult now session (buildResult [] skipped False None [] None) SsCommitted st
      else (case runTransaction fault
              (upsertPrepared (piDefinition prepared) newId session user attestation) toWrite (isDb st) of
          (Inl (failedRow, message), db') \<Rightarrow>
            storeResult now session (buildResult [] skipped True (Some message) toWrite failedRow) SsFailed
              (st\<lparr>isDb := db'\<rparr>)
        | (Inr written, db') \<Rightarrow>
            storeResult now session (buildResult written skipped False None [] None) SsCommitted
              (st\<lparr>isDb := db'\<rparr>)))"

text \<open>The statement of the importer is checked and stored before anything is written.\<close>

definition attestSession ::
    "'db importDefinition \<Rightarrow> json \<Rightarrow> uuid option \<Rightarrow> ms \<Rightarrow> importSession \<Rightarrow> ('db, 'bytes) importState
      \<Rightarrow> appError + importSession \<times> importAttestation option \<times> ('db, 'bytes) importState" where
  "attestSession def attestation user now session st =
     (if dfAttestation def = None then Inr (session, None, st)
      else ebind (validateImportAttestation def attestation user now) (\<lambda>a.
           ebind (updateSession (imId session) (imOrg session) (\<lambda>s. s\<lparr>imAttestation := Some a\<rparr>) st) (\<lambda>(s, st').
           Inr (s, Some a, st'))))"

definition commitImportSession ::
    "('db, 'bytes) importEnv \<Rightarrow> txFault option \<Rightarrow> (nat \<Rightarrow> uuid) \<Rightarrow> ms \<Rightarrow> uuid \<Rightarrow> uuid \<Rightarrow> uuid option \<Rightarrow> json
      \<Rightarrow> ('db, 'bytes) importState
      \<Rightarrow> (appError + importSession \<times> importResult) \<times> ('db, 'bytes) importState" where
  "commitImportSession env fault newId now i org user attestation st =
     (case ebind (getImportSession i org (isSessions st)) (\<lambda>session.
           guard (imStatus session = SsCommitted) (ConflictError ''This import has already been committed.'')
           (ebind (getImportDefinition (imDefinitionName session) (ieRegistry env)) (\<lambda>def.
            attestSession def attestation user now session st))) of
        Inl e \<Rightarrow> (Inl e, st)
      | Inr (session, att, st1) \<Rightarrow>
          (case prepareForSession env session st1 of
             Inl e \<Rightarrow> (Inl e, st1)
           | Inr prepared \<Rightarrow> commitPrepared fault newId now session user att prepared st1))"

end
