(* ===== verification/Contacts.thy ===== *)
theory Contacts
  imports ImportSession MailGate
begin

text \<open>
  \<^verbatim>\<open>src/services/mailing/contacts.service.ts\<close>: the three doors onto a mailing list (a sign-up, a
  spreadsheet import, an admin typing an address in), the screening they share, and the lists. The tables
  are those of \<^verbatim>\<open>mailDb\<close>; the rows of a query without \<^verbatim>\<open>ORDER BY\<close> come in table order. The answers
  of the DNS, the generated ids and the clock are arguments.
\<close>

section \<open>Hygiene for a batch of addresses\<close>

text \<open>
  \<open>ceEmptyUpdate\<close> is what the query builder and the database make of an \<^verbatim>\<open>UPDATE\<close> that sets no column:
  \<open>None\<close> when it is accepted, or the message of the error.
\<close>

record contactEnv =
  ceMxEnv :: "string option"
  ceResolver :: "string \<Rightarrow> mxAnswer"
  ceEmptyUpdate :: "string option"
  ceNow :: ms

definition mxCheckEnabled :: "string option \<Rightarrow> bool" where
  "mxCheckEnabled v \<longleftrightarrow> (let s = toLowerCase (orEmptyText v) in s = ''1'' \<or> s = ''true'')"

text \<open>The text of a reason with its first underscore replaced by a blank.\<close>

definition suppressedCauseText :: "suppressionCause \<Rightarrow> string" where
  "suppressedCauseText c =
     (case c of HardBounce \<Rightarrow> ''hard bounce'' | Complaint \<Rightarrow> ''complaint'' | Unsubscribed \<Rightarrow> ''unsubscribed''
      | Manual \<Rightarrow> ''manual'')"

text \<open>\<open>email.slice(email.lastIndexOf("@") + 1)\<close>\<close>

definition mailDomain :: "string \<Rightarrow> string" where
  "mailDomain e = (case splitLast (CHR ''@'') e of Some (_, d) \<Rightarrow> d | None \<Rightarrow> e)"

definition hygieneProblem :: "string \<Rightarrow> string option" where
  "hygieneProblem e =
     (case checkAddress e of AddressOk _ \<Rightarrow> None | AddressBad _ _ reason _ \<Rightarrow> Some (''Email '' @ reason))"

text \<open>Rows \<open>i\<close> to \<open>i + n - 1\<close>, for \<open>i = 0, n, 2 n, ...\<close>\<close>

fun chunksOf :: "nat \<Rightarrow> 'a list \<Rightarrow> 'a list list" where
  "chunksOf n xs = (if n = 0 \<or> xs = [] then [] else take n xs # chunksOf n (drop n xs))"

declare chunksOf.simps [simp del]

definition suppressionHits :: "uuid \<Rightarrow> mailDb \<Rightarrow> string list \<Rightarrow> suppressionRow list" where
  "suppressionHits org db chunk =
     filter (\<lambda>s. spEmail s \<in> set chunk \<and> (spOrg s = None \<or> spOrg s = Some org)) (suppressions db)"

text \<open>The reason the map \<open>suppressed\<close> ends up with: a later row replaces an earlier one.\<close>

definition suppressedReason :: "uuid \<Rightarrow> mailDb \<Rightarrow> string list \<Rightarrow> string \<Rightarrow> suppressionCause option" where
  "suppressedReason org db emails =
     map_of (rev (map (\<lambda>s. (spEmail s, spReason s)) (concat (map (suppressionHits org db) (chunksOf 1000 emails)))))"

definition suppressionProblem :: "suppressionCause \<Rightarrow> string" where
  "suppressionProblem reason =
     (if reason = Unsubscribed then ''Email unsubscribed from this workspace's mail. It is not added back.''
      else ''Email is suppressed ('' @ suppressedCauseText reason @ ''). It is not mailed again.'')"

definition screenAddresses :: "contactEnv \<Rightarrow> uuid \<Rightarrow> string list \<Rightarrow> mailDb \<Rightarrow> string option list" where
  "screenAddresses env org emails db =
     (let okEmails = map normalizeAddress (filter (\<lambda>e. hygieneProblem e = None) emails) in
      if okEmails = [] then map hygieneProblem emails
      else (let suppressed = suppressedReason org db okEmails;
                noMx = (if mxCheckEnabled (ceMxEnv env)
                        then checkDomainsHaveMx (ceResolver env) None (map mailDomain okEmails) else [])
            in map (\<lambda>raw.
                 case hygieneProblem raw of
                   Some m \<Rightarrow> Some m
                 | None \<Rightarrow>
                     (case suppressed (normalizeAddress raw) of
                        Some reason \<Rightarrow> Some (suppressionProblem reason)
                      | None \<Rightarrow>
                          (let domain = mailDomain (normalizeAddress raw) in
                           if domain \<in> set noMx then Some (''Email domain '' @ domain @ '' has no mail server.'')
                           else None))) emails))"

section \<open>Writes\<close>

record contactInput =
  coOrg :: uuid
  coEmail :: string
  coFirstName :: "string option"
  coLastName :: "string option"

definition cleanName :: "string option \<Rightarrow> string option" where
  "cleanName v =
     (case v of
        None \<Rightarrow> None
      | Some s \<Rightarrow> (let t = collapseSpaces (trim s) in if t = [] then None else Some (take 200 t)))"

definition textValue :: "importValue \<Rightarrow> string option" where
  "textValue v = (case v of IvString s \<Rightarrow> Some s | _ \<Rightarrow> None)"

definition assertAddressUsable :: "contactEnv \<Rightarrow> uuid \<Rightarrow> string \<Rightarrow> mailDb \<Rightarrow> appError + string" where
  "assertAddressUsable env org email db =
     (case screenAddresses env org [email] db of
        Some problem # _ \<Rightarrow> Inl (BadRequestError problem)
      | _ \<Rightarrow> Inr (normalizeAddress email))"

text \<open>A new row, with the defaults of the table.\<close>

definition newContact :: "uuid \<Rightarrow> ms \<Rightarrow> uuid \<Rightarrow> string \<Rightarrow> string option \<Rightarrow> string option \<Rightarrow> contactOrigin \<Rightarrow> contactRow" where
  "newContact i now org email firstName lastName origin =
     \<lparr>ctId = i, ctOrg = org, ctEmail = email, ctStatus = CSubscribed, ctOrigin = origin, ctFirstSentAt = None,
      ctUnsubscribedAt = None, ctSuppressedAt = None, ctSuppressedReason = None, ctFirstName = firstName,
      ctLastName = lastName, ctConsentSource = None, ctConsentSourceDetail = None, ctConsentCollectedInApp = False,
      ctConsentAttestedAt = None, ctConsentAttestedBy = None, ctImportSessionId = None, ctCreatedAt = now\<rparr>"

definition contactKey :: "contactRow \<Rightarrow> uuid \<times> string" where
  "contactKey c = (ctOrg c, ctEmail c)"

text \<open>An insert that the primary key or the unique (organization, email) refuses.\<close>

definition contactClash :: "contactRow \<Rightarrow> mailDb \<Rightarrow> bool" where
  "contactClash c db \<longleftrightarrow> contactKey c \<in> contactKey ` set (contacts db) \<or> ctId c \<in> ctId ` set (contacts db)"

definition optInAgain :: "contactRow \<Rightarrow> contactRow" where
  "optInAgain c =
     (if ctStatus c = CUnsubscribed then c\<lparr>ctStatus := CSubscribed, ctUnsubscribedAt := None\<rparr> else c)"

definition assertAddressUsableForSignup :: "string \<Rightarrow> mailDb \<Rightarrow> appError + string" where
  "assertAddressUsableForSignup raw db =
     (case checkAddress raw of
        AddressBad _ _ reason _ \<Rightarrow> Inl (BadRequestError (''Email '' @ reason))
      | AddressOk email \<Rightarrow>
          (case List.find (\<lambda>s. spEmail s = email \<and> spOrg s = None) (suppressions db) of
             Some s \<Rightarrow>
               if spReason s \<noteq> Unsubscribed then Inl (BadRequestError (suppressionProblem (spReason s)))
               else Inr email
           | None \<Rightarrow> Inr email))"

definition addSignupContact :: "uuid \<Rightarrow> ms \<Rightarrow> contactInput \<Rightarrow> mailDb \<Rightarrow> appError + contactRow \<times> mailDb" where
  "addSignupContact i now inp db =
     ebind (assertAddressUsableForSignup (coEmail inp) db) (\<lambda>email.
       let fresh = (newContact i now (coOrg inp) email (cleanName (coFirstName inp)) (cleanName (coLastName inp)) OSignup)
                     \<lparr>ctConsentSource := Some ''app_signup'', ctConsentCollectedInApp := True, ctConsentAttestedAt := Some now\<rparr>;
           known = (\<lambda>c. contactKey c = contactKey fresh);
           forget = deleteWhere (\<lambda>s. spEmail s = email \<and> spOrg s = Some (coOrg inp) \<and> spReason s = Unsubscribed)
                      (suppressions db)
       in Inr (case List.find known (contacts db) of
            Some c \<Rightarrow> (optInAgain c, db\<lparr>contacts := updateWhere known optInAgain (contacts db), suppressions := forget\<rparr>)
          | None \<Rightarrow> (fresh, db\<lparr>contacts := contacts db @ [fresh], suppressions := forget\<rparr>)))"

definition consentColumns :: "importAttestation \<Rightarrow> contactRow \<Rightarrow> contactRow" where
  "consentColumns a c =
     c\<lparr>ctConsentSource := Some (iaListSource a), ctConsentSourceDetail := iaListSourceDetail a,
       ctConsentCollectedInApp := iaCollectedInApp a, ctConsentAttestedAt := Some (iaAttestedAt a),
       ctConsentAttestedBy := iaAttestedBy a\<rparr>"

section \<open>The import definition\<close>

definition CONTACTS_IMPORT_NAME :: string where "CONTACTS_IMPORT_NAME = ''email_contacts''"

definition listSource :: "string \<Rightarrow> string \<Rightarrow> bool \<Rightarrow> importAttestationSource" where
  "listSource v l inApp = \<lparr>asValue = v, asLabel = l, asCollectedInApp = inApp\<rparr>"

definition CONTACT_LIST_SOURCES :: "importAttestationSource list" where
  "CONTACT_LIST_SOURCES =
     [listSource ''app_signup'' ''People who signed up in this app'' True,
      listSource ''previous_platform'' ''Exported from another platform (Kajabi, Mailchimp, ConvertKit, ...)'' False,
      listSource ''website_form'' ''A signup form on my own website'' False,
      listSource ''event'' ''Collected in person or at an event'' False,
      listSource ''customers'' ''My own customers who agreed to email'' False,
      listSource ''other'' ''Somewhere else'' False]"

definition CONTACT_IMPORT_ATTESTATION :: importAttestationSpec where
  "CONTACT_IMPORT_ATTESTATION =
     \<lparr>apQuestion = ''Where did this list come from?'', apSources = CONTACT_LIST_SOURCES,
      apStatement = ''Everyone on this list agreed to receive email from me, and I am not importing purchased, '' @
        ''rented or scraped addresses.'',
      apExternalWarning = ''This list was not collected through this app. People who signed up somewhere else often '' @
        ''do not recognise a new sender, and old exports are full of addresses that no longer work. '' @
        ''Both turn into spam complaints and bounces, which can stop all of this app's email, '' @
        ''sign-in codes included. Import only people who asked for your email, and expect the '' @
        ''first campaign to them to go out slowly in small batches.''\<rparr>"

definition contactField :: "string \<Rightarrow> string \<Rightarrow> importFieldKind \<Rightarrow> string list \<Rightarrow> nat option \<Rightarrow> importFieldSpec" where
  "contactField key label kind aliases maxLength =
     \<lparr>ifKey = key, ifLabel = label, ifKind = kind, ifRequired = False, ifAliases = aliases, ifOptions = None,
      ifMaxLength = maxLength, ifDateOrder = None, ifInputOnly = False, ifHelp = None\<rparr>"

definition CONTACT_FIELDS :: "importFieldSpec list" where
  "CONTACT_FIELDS =
     [(contactField ''email'' ''Email'' FkEmail
         [''email address'', ''e-mail'', ''subscriber'', ''subscriber email'', ''contact email''] None)\<lparr>ifRequired := True\<rparr>,
      (contactField ''fullName'' ''Full name'' FkText [''name'', ''subscriber name'', ''contact name''] (Some 200))
         \<lparr>ifInputOnly := True\<rparr>,
      contactField ''firstName'' ''First name'' FkText [''first'', ''given name'', ''fname''] (Some 200),
      contactField ''lastName'' ''Last name'' FkText [''last'', ''surname'', ''family name'', ''lname''] (Some 200)]"

definition rowEmail :: "rowValues \<Rightarrow> string" where
  "rowEmail r = orEmpty (valueOf r ''email'')"

definition contactsScreenRows :: "contactEnv \<Rightarrow> uuid \<Rightarrow> rowValues list \<Rightarrow> mailDb \<Rightarrow> importRowProblem option list" where
  "contactsScreenRows env org rows db =
     map (map_option (\<lambda>m. \<lparr>ipField = ''email'', ipMessage = m\<rparr>)) (screenAddresses env org (map rowEmail rows) db)"

definition contactsLoadExisting :: "uuid \<Rightarrow> rowValues list \<Rightarrow> mailDb \<Rightarrow> existingRecord list" where
  "contactsLoadExisting org rows db =
     (let emails = uniq (filter (\<lambda>e. e \<noteq> []) (map rowEmail rows));
          found = concat (map (\<lambda>chunk. filter (\<lambda>c. ctOrg c = org \<and> ctEmail c \<in> set chunk) (contacts db))
                    (chunksOf 1000 emails))
      in map (\<lambda>c. \<lparr>erId = ctId c, erValues = [(''email'', IvString (ctEmail c))]\<rparr>) found)"

definition DUPLICATE_MESSAGE :: string where
  "DUPLICATE_MESSAGE = ''duplicate key value violates unique constraint''"

text \<open>\<open>set({...(firstName ? { firstName } : {}), ...})\<close>\<close>

definition setNames :: "string option \<Rightarrow> string option \<Rightarrow> contactRow \<Rightarrow> contactRow" where
  "setNames firstName lastName c =
     c\<lparr>ctFirstName := (if firstName = None then ctFirstName c else firstName),
       ctLastName := (if lastName = None then ctLastName c else lastName)\<rparr>"

definition contactsUpsertRow ::
    "contactEnv \<Rightarrow> uuid \<Rightarrow> upsertRowOptions \<Rightarrow> mailDb \<Rightarrow> string + mailDb \<times> uuid" where
  "contactsUpsertRow env newId options db =
     (case urAttestation options of
        None \<Rightarrow> Inl ''Contacts import committed without an attestation.''
      | Some a \<Rightarrow>
          (let firstName = cleanName (textValue (valueOf (urValues options) ''firstName''));
               lastName = cleanName (textValue (valueOf (urValues options) ''lastName''))
           in if truthy (urExistingId options)
              then (let mine = (\<lambda>c. ctId c = the (urExistingId options) \<and> ctOrg c = urOrg options) in
                    if firstName = None \<and> lastName = None \<and> ceEmptyUpdate env \<noteq> None then Inl (the (ceEmptyUpdate env))
                    else if list_ex mine (contacts db)
                    then Inr (db\<lparr>contacts := updateWhere mine (setNames firstName lastName) (contacts db)\<rparr>,
                              the (urExistingId options))
                    else Inl ''no result'')
              else (let c = consentColumns a
                          ((newContact newId (ceNow env) (urOrg options)
                             (normalizeAddress (valueText (valueOf (urValues options) ''email''))) firstName lastName OImport)
                             \<lparr>ctImportSessionId := Some (urSessionId options)\<rparr>)
                    in if contactClash c db then Inl DUPLICATE_MESSAGE
                       else Inr (db\<lparr>contacts := contacts db @ [c]\<rparr>, newId))))"

definition contactsImportDefinition :: "contactEnv \<Rightarrow> mailDb importDefinition" where
  "contactsImportDefinition env =
     \<lparr>dfName = CONTACTS_IMPORT_NAME, dfLabel = ''Mailing list contacts'',
      dfDescription = ''Email subscribers for newsletters and campaigns. You will be asked where the list came '' @
        ''from and to confirm everyone opted in. Typos, test addresses and people who already '' @
        ''unsubscribed or bounced are skipped. Re-importing updates names; it never re-subscribes '' @
        ''anyone.'',
      dfFields = CONTACT_FIELDS, dfMatchBy = [[''email'']],
      dfDerive = [splitFullName ''fullName'' ''firstName'' ''lastName''],
      dfCapability = Some ''email.broadcast'', dfAllow = None, dfAttestation = Some CONTACT_IMPORT_ATTESTATION,
      dfScreenRows = Some (contactsScreenRows env), dfLoadExisting = contactsLoadExisting,
      dfUpsertRow = contactsUpsertRow env,
      dfSampleCsv = Some (''Email,First name,Last name'' @ [CHR 0x0A] @ ''ada@yourbrand.com,Ada,Lovelace'' @ [CHR 0x0A])\<rparr>"

definition registerContactsImport :: "contactEnv \<Rightarrow> mailDb importRegistry \<Rightarrow> appError + mailDb importRegistry" where
  "registerContactsImport env registry =
     (if findImportDefinition CONTACTS_IMPORT_NAME registry = None
      then registerImportDefinition (contactsImportDefinition env) registry else Inr registry)"

section \<open>An address typed in by hand\<close>

definition addManualContact ::
    "contactEnv \<Rightarrow> mailDb importRegistry \<Rightarrow> uuid \<Rightarrow> contactInput \<Rightarrow> uuid option \<Rightarrow> json \<Rightarrow> mailDb
      \<Rightarrow> appError + contactRow \<times> mailDb" where
  "addManualContact env registry i inp user attestation db =
     (let def = (case findImportDefinition CONTACTS_IMPORT_NAME registry of
                   Some d \<Rightarrow> d | None \<Rightarrow> contactsImportDefinition env) in
      ebind (validateImportAttestation def attestation user (ceNow env)) (\<lambda>a.
      ebind (assertAddressUsable env (coOrg inp) (coEmail inp) db) (\<lambda>email.
      guard (list_ex (\<lambda>c. ctOrg c = coOrg inp \<and> ctEmail c = email) (contacts db))
        (ConflictError (email @ '' is already on this workspace's list.''))
      (let c = consentColumns a (newContact i (ceNow env) (coOrg inp) email (cleanName (coFirstName inp))
                 (cleanName (coLastName inp)) OManual)
       in Inr (c, db\<lparr>contacts := contacts db @ [c]\<rparr>)))))"

section \<open>Reads\<close>

record listContactsOptions =
  lcOrg :: uuid
  lcStatus :: "contactStatus option"
  lcOrigin :: "contactOrigin option"
  lcLimit :: "int option"
  lcOffset :: "int option"

definition listContacts :: "listContactsOptions \<Rightarrow> mailDb \<Rightarrow> contactRow list" where
  "listContacts options db =
     take (nat (min (max (case lcLimit options of Some n \<Rightarrow> n | None \<Rightarrow> 100) 1) 500))
       (drop (nat (max (case lcOffset options of Some n \<Rightarrow> n | None \<Rightarrow> 0) 0))
         (sort_key (\<lambda>c. - ctCreatedAt c)
           (filter (\<lambda>c. ctOrg c = lcOrg options \<and>
              (case lcStatus options of Some s \<Rightarrow> ctStatus c = s | None \<Rightarrow> True) \<and>
              (case lcOrigin options of Some r \<Rightarrow> ctOrigin c = r | None \<Rightarrow> True)) (contacts db))))"

record contactTotals =
  tcSubscribed :: nat
  tcUnsubscribed :: nat
  tcSuppressed :: nat
  tcCold :: nat
  tcTotal :: nat

definition contactCounts :: "uuid \<Rightarrow> mailDb \<Rightarrow> contactTotals" where
  "contactCounts org db =
     (let mine = filter (\<lambda>c. ctOrg c = org) (contacts db);
          count = (\<lambda>s. length (filter (\<lambda>c. ctStatus c = s) mine))
      in \<lparr>tcSubscribed = count CSubscribed, tcUnsubscribed = count CUnsubscribed, tcSuppressed = count CSuppressed,
          tcCold = length (filter (\<lambda>c. ctStatus c = CSubscribed \<and> ctOrigin c \<noteq> OSignup \<and> ctFirstSentAt c = None) mine),
          tcTotal = length mine\<rparr>)"

end
