(* ===== verification/ImportSessionProofs.thy ===== *)
theory ImportSessionProofs
  imports ImportSession ImportNormalizeProofs ImportParseProofs UploadedFilesProofs
begin

text \<open>
  The two promises of \<^verbatim>\<open>import.service.ts\<close> about rows: every row is decided, the same way in the preview
  and in the commit, and each commit that answers is all or nothing and accounts for every row. The two
  lemmas at the end say where the promises stop.
\<close>

section \<open>Identity\<close>

definition rowKeys :: "'db importDefinition \<Rightarrow> rowValues \<Rightarrow> string list" where
  "rowKeys def values = identityKeys values (dfMatchBy def)"

lemma claimKeys_map_of:
  "map_of (claimKeys v keys index) k =
     (if map_of index k \<noteq> None then map_of index k else if k \<in> set keys then Some v else None)"
  unfolding claimKeys_def
proof (induction keys arbitrary: index)
  case (Cons a keys)
  then show ?case by (auto simp: update_conv')
qed auto

lemma firstClaim_Some:
  "firstClaim claimed keys = Some n \<Longrightarrow> \<exists>k\<in>set keys. map_of claimed k = Some n"
  by (auto simp: firstClaim_def split: option.splits dest: find_Some_in)

lemma firstClaim_None: "firstClaim claimed keys = None \<Longrightarrow> k \<in> set keys \<Longrightarrow> map_of claimed k = None"
  by (auto simp: firstClaim_def find_None_iff_all split: option.splits dest: find_Some_in)

lemma lookup_truthy: "lookupIdentity index m values = Some i \<Longrightarrow> i \<noteq> []"
  by (auto simp: lookupIdentity_def truthy_def split: option.splits dest!: find_Some_in)

section \<open>Every row is decided\<close>

text \<open>The numbered row a prepared row was made from.\<close>

definition rowOf :: "preparedRow \<Rightarrow> numberedRow" where
  "rowOf w = (prRowNumber w, \<lparr>nrValues = prValues w, nrAllValues = prAllValues w, nrExtras = prExtras w,
     nrErrors = prErrors w\<rparr>)"

lemma rowOf_preparedOf [simp]: "rowOf (preparedOf r a e d) = r"
  by (cases r) (simp add: rowOf_def preparedOf_def)

lemma preparedOf_simps [simp]:
  "prRowNumber (preparedOf r a e d) = fst r" "prAction (preparedOf r a e d) = a"
  "prAllValues (preparedOf r a e d) = nrAllValues (snd r)" "prErrors (preparedOf r a e d) = nrErrors (snd r)"
  "prExistingId (preparedOf r a e d) = e" "prDuplicateOfRow (preparedOf r a e d) = d"
  by (simp_all add: preparedOf_def)

definition landing :: "preparedRow \<Rightarrow> bool" where
  "landing w \<longleftrightarrow> prAction w \<noteq> RaSkip"

text \<open>What is decided about a row: whether it is invalid, a duplicate, an update or a create.\<close>

definition decided :: "'db importDefinition \<Rightarrow> (string \<times> uuid) list \<Rightarrow> preparedRow \<Rightarrow> bool" where
  "decided def index w \<longleftrightarrow>
     (if prErrors w \<noteq> [] then prAction w = RaSkip \<and> prDuplicateOfRow w = None
      else if prDuplicateOfRow w \<noteq> None then prAction w = RaSkip
      else prExistingId w = lookupIdentity index (dfMatchBy def) (prAllValues w) \<and>
           prAction w = (if prExistingId w = None then RaCreate else RaUpdate))"

definition countRows :: "nat \<Rightarrow> preparedRow list \<Rightarrow> prepareCounts" where
  "countRows n ws =
     \<lparr>pcTotal = n, pcCreate = length (filter (\<lambda>w. prAction w = RaCreate) ws),
      pcUpdate = length (filter (\<lambda>w. prAction w = RaUpdate) ws),
      pcInvalid = length (filter (\<lambda>w. prErrors w \<noteq> []) ws),
      pcDuplicate = length (filter (\<lambda>w. prDuplicateOfRow w \<noteq> None) ws)\<rparr>"

definition prepareInv :: "'db importDefinition \<Rightarrow> (string \<times> uuid) list \<Rightarrow> nat \<Rightarrow> numberedRow list \<Rightarrow> prepareState \<Rightarrow> bool" where
  "prepareInv def index n rs st \<longleftrightarrow>
     map rowOf (pzRows st) = rs \<and> pzCounts st = countRows n (pzRows st) \<and>
     list_all (decided def index) (pzRows st) \<and>
     (\<forall>k i. map_of (pzClaimed st) k = Some i \<longrightarrow>
        (\<exists>w\<in>set (pzRows st). landing w \<and> prRowNumber w = i \<and> k \<in> set (rowKeys def (prAllValues w)))) \<and>
     (\<forall>w\<in>set (pzRows st). landing w \<longrightarrow>
        (\<forall>k\<in>set (rowKeys def (prAllValues w)). map_of (pzClaimed st) k = Some (prRowNumber w))) \<and>
     (\<forall>w\<in>set (pzRows st). \<forall>i. prDuplicateOfRow w = Some i \<longrightarrow>
        i < prRowNumber w \<and> (\<exists>v\<in>set (pzRows st). landing v \<and> prRowNumber v = i \<and>
          set (rowKeys def (prAllValues v)) \<inter> set (rowKeys def (prAllValues w)) \<noteq> {}))"

lemma prepare_start: "prepareInv def index n [] (prepareStart n)"
  by (simp add: prepareInv_def prepareStart_def countRows_def)

lemma prepare_skip:
  assumes inv: "prepareInv def index n rs st" and w: "rowOf w = r" "prAction w = RaSkip" "decided def index w"
    and dup: "\<And>i. prDuplicateOfRow w = Some i \<Longrightarrow> i < fst r \<and> (\<exists>v\<in>set (pzRows st). landing v \<and> prRowNumber v = i \<and>
          set (rowKeys def (prAllValues v)) \<inter> set (rowKeys def (prAllValues w)) \<noteq> {})"
  shows "prepareInv def index n (rs @ [r])
     (st\<lparr>pzRows := pzRows st @ [w], pzCounts := countRows n (pzRows st @ [w])\<rparr>)"
  using inv w dup unfolding prepareInv_def landing_def by (fastforce simp: rowOf_def)

lemma prepare_land:
  assumes inv: "prepareInv def index n rs st" and w: "rowOf w = r" "prAction w \<noteq> RaSkip" "decided def index w"
    and free: "\<And>k. k \<in> set (rowKeys def (prAllValues w)) \<Longrightarrow> map_of (pzClaimed st) k = None"
  shows "prepareInv def index n (rs @ [r])
     (st\<lparr>pzClaimed := claimKeys (fst r) (rowKeys def (prAllValues w)) (pzClaimed st),
         pzRows := pzRows st @ [w], pzCounts := countRows n (pzRows st @ [w])\<rparr>)"
proof -
  have number: "prRowNumber w = fst r" using w(1) by (auto simp: rowOf_def)
  have nodup: "prDuplicateOfRow w = None" using w(2,3) by (auto simp: decided_def split: if_splits)
  let ?keys = "rowKeys def (prAllValues w)"
  let ?st = "st\<lparr>pzClaimed := claimKeys (fst r) ?keys (pzClaimed st), pzRows := pzRows st @ [w],
      pzCounts := countRows n (pzRows st @ [w])\<rparr>"
  from inv have rows: "map rowOf (pzRows st) = rs" "list_all (decided def index) (pzRows st)"
    and claimed: "\<And>k i. map_of (pzClaimed st) k = Some i \<Longrightarrow>
        \<exists>v\<in>set (pzRows st). landing v \<and> prRowNumber v = i \<and> k \<in> set (rowKeys def (prAllValues v))"
    and claims: "\<And>v k. v \<in> set (pzRows st) \<Longrightarrow> landing v \<Longrightarrow> k \<in> set (rowKeys def (prAllValues v)) \<Longrightarrow>
        map_of (pzClaimed st) k = Some (prRowNumber v)"
    and dups: "\<And>v i. v \<in> set (pzRows st) \<Longrightarrow> prDuplicateOfRow v = Some i \<Longrightarrow>
        i < prRowNumber v \<and> (\<exists>u\<in>set (pzRows st). landing u \<and> prRowNumber u = i \<and>
          set (rowKeys def (prAllValues u)) \<inter> set (rowKeys def (prAllValues v)) \<noteq> {})"
    unfolding prepareInv_def by blast+
  have c1: "\<exists>v\<in>set (pzRows ?st). landing v \<and> prRowNumber v = i \<and> k \<in> set (rowKeys def (prAllValues v))"
    if "map_of (pzClaimed ?st) k = Some i" for k i
  proof (cases "map_of (pzClaimed st) k")
    case None
    with that have "k \<in> set ?keys" "i = fst r" by (auto simp: claimKeys_map_of split: if_splits)
    with w(2) number show ?thesis by (auto simp: landing_def)
  next
    case (Some j)
    with that have "map_of (pzClaimed st) k = Some i" by (simp add: claimKeys_map_of)
    from claimed [OF this] show ?thesis by auto
  qed
  have c2: "map_of (pzClaimed ?st) k = Some (prRowNumber v)"
    if "v \<in> set (pzRows ?st)" "landing v" "k \<in> set (rowKeys def (prAllValues v))" for v k
  proof (cases "v \<in> set (pzRows st)")
    case True
    from claims [OF this that(2,3)] show ?thesis by (simp add: claimKeys_map_of)
  next
    case False
    with that(1) have "v = w" by simp
    with that(3) free number show ?thesis by (simp add: claimKeys_map_of)
  qed
  have c3: "i < prRowNumber v \<and> (\<exists>u\<in>set (pzRows ?st). landing u \<and> prRowNumber u = i \<and>
      set (rowKeys def (prAllValues u)) \<inter> set (rowKeys def (prAllValues v)) \<noteq> {})"
    if "v \<in> set (pzRows ?st)" "prDuplicateOfRow v = Some i" for v i
    using that nodup dups [of v i] by auto
  show ?thesis
    unfolding prepareInv_def using rows w c1 c2 c3 by simp
qed

lemma prepareRow_keeps:
  assumes inv: "prepareInv def index n rs st" and later: "\<forall>q\<in>set rs. fst q < fst r"
  shows "prepareInv def index n (rs @ [r]) (prepareRow def index r st)"
proof -
  have counts: "pzCounts st = countRows n (pzRows st)" using inv by (simp add: prepareInv_def)
  have numbers: "prRowNumber v < fst r" if "v \<in> set (pzRows st)" for v
  proof -
    have "rowOf v \<in> set rs" using inv that by (auto simp: prepareInv_def)
    with later show ?thesis by (auto simp: rowOf_def)
  qed
  show ?thesis
  proof (cases "rowValid r")
    case False
    let ?w = "preparedOf r RaSkip None None"
    have "prepareRow def index r st = st\<lparr>pzRows := pzRows st @ [?w], pzCounts := countRows n (pzRows st @ [?w])\<rparr>"
      using False counts by (simp add: prepareRow_def Let_def countRows_def rowValid_def)
    moreover have "decided def index ?w" using False by (simp add: decided_def rowValid_def)
    ultimately show ?thesis using prepare_skip [OF inv, of ?w r] by simp
  next
    case True
    let ?keys = "rowKeys def (nrAllValues (snd r))"
    show ?thesis
    proof (cases "firstClaim (pzClaimed st) ?keys")
      case (Some i)
      let ?w = "preparedOf r RaSkip None (Some i)"
      from firstClaim_Some [OF Some] obtain k where "k \<in> set ?keys" "map_of (pzClaimed st) k = Some i" by blast
      with inv obtain v where v: "v \<in> set (pzRows st)" "landing v" "prRowNumber v = i"
        "k \<in> set (rowKeys def (prAllValues v))" unfolding prepareInv_def by blast
      with \<open>k \<in> set ?keys\<close> numbers have dup: "i < fst r \<and> (\<exists>v\<in>set (pzRows st). landing v \<and> prRowNumber v = i \<and>
          set (rowKeys def (prAllValues v)) \<inter> set (rowKeys def (prAllValues ?w)) \<noteq> {})" by auto
      have "prepareRow def index r st = st\<lparr>pzRows := pzRows st @ [?w], pzCounts := countRows n (pzRows st @ [?w])\<rparr>"
        using True Some counts by (simp add: prepareRow_def Let_def countRows_def rowValid_def rowKeys_def)
      moreover have "decided def index ?w" using True by (simp add: decided_def rowValid_def)
      ultimately show ?thesis using prepare_skip [OF inv, of ?w r] dup by simp
    next
      case None
      let ?e = "lookupIdentity index (dfMatchBy def) (nrAllValues (snd r))"
      let ?w = "preparedOf r (if truthy ?e then RaUpdate else RaCreate) ?e None"
      have truthy: "truthy ?e \<longleftrightarrow> ?e \<noteq> None" using lookup_truthy by (auto simp: truthy_def split: option.splits)
      have "prepareRow def index r st = st\<lparr>pzClaimed := claimKeys (fst r) ?keys (pzClaimed st),
          pzRows := pzRows st @ [?w], pzCounts := countRows n (pzRows st @ [?w])\<rparr>"
        using True None counts by (simp add: prepareRow_def Let_def countRows_def rowValid_def rowKeys_def)
      moreover have "decided def index ?w" using True truthy by (simp add: decided_def rowValid_def)
      ultimately show ?thesis using prepare_land [OF inv, of ?w r] firstClaim_None [OF None] by simp
    qed
  qed
qed

lemma prepare_fold:
  assumes "prepareInv def index n before st" and "sorted_wrt (<) (map fst (before @ rs))"
  shows "prepareInv def index n (before @ rs) (fold (prepareRow def index) rs st)"
  using assms
proof (induction rs arbitrary: before st)
  case (Cons r rs)
  have "prepareInv def index n (before @ [r]) (prepareRow def index r st)"
    using Cons.prems by (intro prepareRow_keeps) (auto simp: sorted_wrt_append)
  with Cons.IH [of "before @ [r]"] Cons.prems(2) show ?case by simp
qed simp

lemma normalize_numbers: "map fst (normalizeRows def byColumn rows) = [1..<length rows + 1]"
  by (rule nth_equalityI) (auto simp: normalizeRows_def split_beta simp del: upt_Suc)

lemma screening_numbers: "map fst (applyScreening def ps rs) = map fst rs"
  by (induction def ps rs rule: applyScreening.induct) (auto split: list.splits option.splits)

lemma screened_numbers: "map fst (screenNormalized def org db rs) = map fst rs"
  by (simp add: screenNormalized_def Let_def screening_numbers split: option.splits)

lemma index_map_of:
  "map_of (buildIdentityIndex loaded m) k =
     map_option erId (List.find (\<lambda>r. k \<in> set (identityKeys (erValues r) m)) loaded)"
proof -
  have "map_of (fold (\<lambda>r. claimKeys (erId r) (identityKeys (erValues r) m)) loaded index) k =
      (case map_of index k of Some i \<Rightarrow> Some i
       | None \<Rightarrow> map_option erId (List.find (\<lambda>r. k \<in> set (identityKeys (erValues r) m)) loaded))" for index
    by (induction loaded arbitrary: index) (auto simp: claimKeys_map_of split: option.splits)
  then show ?thesis by (simp add: buildIdentityIndex_def)
qed

text \<open>Looking a row up finds the first record, in the order of the row's keys, that has one of them.\<close>

lemma lookup_iff:
  assumes "\<forall>r\<in>set loaded. erId r \<noteq> []"
  shows "case lookupIdentity (buildIdentityIndex loaded m) m values of
      None \<Rightarrow> \<forall>r\<in>set loaded. set (identityKeys (erValues r) m) \<inter> set (identityKeys values m) = {}
    | Some i \<Rightarrow> \<exists>r\<in>set loaded. erId r = i \<and> set (identityKeys (erValues r) m) \<inter> set (identityKeys values m) \<noteq> {}"
proof -
  let ?p = "\<lambda>k. truthy (map_of (buildIdentityIndex loaded m) k)"
  have hit: "?p k \<longleftrightarrow> (\<exists>r\<in>set loaded. k \<in> set (identityKeys (erValues r) m))" for k
    using assms find_None_iff_all [of "\<lambda>r. k \<in> set (identityKeys (erValues r) m)" loaded]
    by (auto simp: index_map_of truthy_def split: option.splits dest: find_Some_in)
  show ?thesis
  proof (cases "List.find ?p (identityKeys values m)")
    case None
    then have "lookupIdentity (buildIdentityIndex loaded m) m values = None" by (simp add: lookupIdentity_def)
    moreover have "\<forall>k\<in>set (identityKeys values m). \<not> ?p k" using None by (simp only: find_None_iff_all)
    ultimately show ?thesis unfolding hit by auto
  next
    case (Some k)
    from find_Some_in [OF this] have k: "k \<in> set (identityKeys values m)" "?p k" by auto
    then obtain r where "List.find (\<lambda>r. k \<in> set (identityKeys (erValues r) m)) loaded = Some r"
      by (auto simp: index_map_of truthy_def split: option.splits)
    then show ?thesis using Some k(1) by (auto simp: lookupIdentity_def index_map_of dest: find_Some_in)
  qed
qed

definition offeredRows :: "preparedRow list \<Rightarrow> rowValues list" where
  "offeredRows ws = map prAllValues (filter (\<lambda>w. prErrors w = []) ws)"

lemma offered_rows: "map rowOf ws = rs \<Longrightarrow> map (\<lambda>r. nrAllValues (snd r)) (filter rowValid rs) = offeredRows ws"
  by (auto simp: offeredRows_def filter_map o_def rowOf_def rowValid_def)

definition loadedFor :: "'db importDefinition \<Rightarrow> uuid \<Rightarrow> 'db \<Rightarrow> preparedRow list \<Rightarrow> existingRecord list" where
  "loadedFor def org db ws = (if offeredRows ws = [] then [] else dfLoadExisting def org (offeredRows ws) db)"

lemma prepareImport_inv:
  assumes "prepareImport def org columns rows mapping db = Inr p"
  obtains st where "prepareInv def (buildIdentityIndex (loadedFor def org db (piRows p)) (dfMatchBy def)) (length rows)
      (screenNormalized def org db (normalizeRows def (fst (resolveMapping mapping columns def)) rows)) st"
    "pzRows st = piRows p" "pzCounts st = piCounts p" "piDefinition p = def" "snd (resolveMapping mapping columns def) = []"
proof -
  let ?rs = "screenNormalized def org db (normalizeRows def (fst (resolveMapping mapping columns def)) rows)"
  let ?i = "buildIdentityIndex (existingFor def org db ?rs) (dfMatchBy def)"
  let ?st = "fold (prepareRow def ?i) ?rs (prepareStart (length ?rs))"
  have numbers: "map fst ?rs = [1..<length rows + 1]"
    by (simp only: screened_numbers normalize_numbers)
  then have len: "length ?rs = length rows" by (metis diff_add_inverse2 length_map length_upt)
  have p: "pzRows ?st = piRows p" "pzCounts ?st = piCounts p" "piDefinition p = def"
    "snd (resolveMapping mapping columns def) = []"
    using assms by (auto simp: prepareImport_def prepareRows_def Let_def split: prod.splits)
  have inv: "prepareInv def ?i (length rows) ?rs ?st"
    using prepare_fold [OF prepare_start, of ?rs def ?i "length rows"]
    by (simp only: append_Nil numbers len) (simp del: upt_Suc)
  then have "map rowOf (piRows p) = ?rs" unfolding prepareInv_def p(1) by (rule conjunct1)
  from offered_rows [OF this] have "existingFor def org db ?rs = loadedFor def org db (piRows p)"
    by (simp add: existingFor_def loadedFor_def Let_def)
  with inv p that show ?thesis by simp
qed

lemma filter_partition_length:
  "list_all (\<lambda>x. (if P x then 1 else 0) + (if Q x then 1 else 0) + (if R x then 1 else 0) + (if S x then 1 else 0) = (1::nat)) xs \<Longrightarrow>
     length (filter P xs) + length (filter Q xs) + length (filter R xs) + length (filter S xs) = length xs"
  by (induction xs) (auto split: if_splits)

text \<open>
  C15. Every row is decided, and no two rows that are written share an identity key. Preparing a file keeps
  its rows with their numbers 1, 2, ... and counts each exactly once as a create, an update, an invalid row
  or a duplicate; a row is left out only when it has an error or an earlier row of the file that is written
  shares an identity key with it; and a row is an update of a record the application loaded with one of its
  identity keys, a create when no loaded record has any. (Two rows that share no key may still be updates of
  one record which has both, see two_rows_may_update_one_record.)
\<close>

theorem every_row_is_decided:
  assumes "prepareImport def org columns rows mapping db = Inr p"
    and "\<And>offered. \<forall>r\<in>set (dfLoadExisting def org offered db). erId r \<noteq> []"
  shows "map prRowNumber (piRows p) = [1..<length rows + 1] \<and> piCounts p = countRows (length rows) (piRows p) \<and>
    pcCreate (piCounts p) + pcUpdate (piCounts p) + pcInvalid (piCounts p) + pcDuplicate (piCounts p) = length rows \<and>
    (\<forall>w\<in>set (piRows p). prAction w = RaSkip \<longleftrightarrow> prErrors w \<noteq> [] \<or> prDuplicateOfRow w \<noteq> None) \<and>
    (\<forall>w\<in>set (piRows p). \<forall>i. prDuplicateOfRow w = Some i \<longrightarrow>
       (\<exists>v\<in>set (piRows p). prRowNumber v = i \<and> i < prRowNumber w \<and> prAction v \<noteq> RaSkip \<and>
          set (rowKeys def (prAllValues v)) \<inter> set (rowKeys def (prAllValues w)) \<noteq> {})) \<and>
    (\<forall>w\<in>set (piRows p). \<forall>v\<in>set (piRows p). prAction w \<noteq> RaSkip \<longrightarrow> prAction v \<noteq> RaSkip \<longrightarrow>
       set (rowKeys def (prAllValues v)) \<inter> set (rowKeys def (prAllValues w)) \<noteq> {} \<longrightarrow> v = w) \<and>
    (\<forall>w\<in>set (piRows p).
       (prAction w = RaUpdate \<longrightarrow> (\<exists>r\<in>set (dfLoadExisting def org (offeredRows (piRows p)) db).
          prExistingId w = Some (erId r) \<and> set (rowKeys def (erValues r)) \<inter> set (rowKeys def (prAllValues w)) \<noteq> {})) \<and>
       (prAction w = RaCreate \<longrightarrow> prExistingId w = None \<and>
          (\<forall>r\<in>set (dfLoadExisting def org (offeredRows (piRows p)) db).
             set (rowKeys def (erValues r)) \<inter> set (rowKeys def (prAllValues w)) = {})))"
proof -
  let ?l = "loadedFor def org db (piRows p)"
  let ?i = "buildIdentityIndex ?l (dfMatchBy def)"
  let ?rs = "screenNormalized def org db (normalizeRows def (fst (resolveMapping mapping columns def)) rows)"
  obtain st where inv: "prepareInv def ?i (length rows) ?rs st" and p: "pzRows st = piRows p" "pzCounts st = piCounts p"
    using assms(1) by (rule prepareImport_inv)
  from inv have rs: "map rowOf (piRows p) = ?rs" and counts: "piCounts p = countRows (length rows) (piRows p)"
    and dec: "list_all (decided def ?i) (piRows p)"
    unfolding prepareInv_def p by blast+
  have "map fst (map rowOf (piRows p)) = map prRowNumber (piRows p)" by (simp add: o_def rowOf_def)
  then have numbers: "map prRowNumber (piRows p) = [1..<length rows + 1]"
    unfolding rs by (simp only: screened_numbers normalize_numbers)
  then have distinct: "distinct (map prRowNumber (piRows p))" by simp
  have d: "decided def ?i w" if "w \<in> set (piRows p)" for w using dec that by (simp add: list_all_iff)
  have len: "length (piRows p) = length rows" using numbers by (metis diff_add_inverse2 length_map length_upt)
  have total: "pcCreate (piCounts p) + pcUpdate (piCounts p) + pcInvalid (piCounts p) + pcDuplicate (piCounts p) = length rows"
    unfolding counts countRows_def prepareCounts.simps len [symmetric]
  proof (rule filter_partition_length, unfold list_all_iff, rule ballI)
    fix w assume "w \<in> set (piRows p)"
    from d [OF this] show "(if prAction w = RaCreate then 1 else 0) + (if prAction w = RaUpdate then 1 else 0) +
        (if prErrors w \<noteq> [] then 1 else 0) + (if prDuplicateOfRow w \<noteq> None then 1 else 0) = (1::nat)"
      by (auto simp: decided_def split: if_splits)
  qed
  have skips: "prAction w = RaSkip \<longleftrightarrow> prErrors w \<noteq> [] \<or> prDuplicateOfRow w \<noteq> None" if "w \<in> set (piRows p)" for w
    using d [OF that] by (auto simp: decided_def split: if_splits)
  have dups: "\<forall>w\<in>set (piRows p). \<forall>i. prDuplicateOfRow w = Some i \<longrightarrow>
       (\<exists>v\<in>set (piRows p). prRowNumber v = i \<and> i < prRowNumber w \<and> prAction v \<noteq> RaSkip \<and>
          set (rowKeys def (prAllValues v)) \<inter> set (rowKeys def (prAllValues w)) \<noteq> {})"
    using inv unfolding prepareInv_def p landing_def by blast
  have once: "v = w" if "w \<in> set (piRows p)" "v \<in> set (piRows p)" "prAction w \<noteq> RaSkip" "prAction v \<noteq> RaSkip"
    "set (rowKeys def (prAllValues v)) \<inter> set (rowKeys def (prAllValues w)) \<noteq> {}" for v w
  proof -
    from that(5) obtain k where "k \<in> set (rowKeys def (prAllValues v))" "k \<in> set (rowKeys def (prAllValues w))" by blast
    with inv that(1-4) have "map_of (pzClaimed st) k = Some (prRowNumber v)" "map_of (pzClaimed st) k = Some (prRowNumber w)"
      unfolding prepareInv_def p landing_def by blast+
    then have "prRowNumber v = prRowNumber w" by simp
    with distinct that(1,2) show ?thesis by (blast intro: distinct_key_eq)
  qed
  have found: "(prAction w = RaUpdate \<longrightarrow> (\<exists>r\<in>set (dfLoadExisting def org (offeredRows (piRows p)) db).
          prExistingId w = Some (erId r) \<and> set (rowKeys def (erValues r)) \<inter> set (rowKeys def (prAllValues w)) \<noteq> {})) \<and>
       (prAction w = RaCreate \<longrightarrow> prExistingId w = None \<and>
          (\<forall>r\<in>set (dfLoadExisting def org (offeredRows (piRows p)) db).
             set (rowKeys def (erValues r)) \<inter> set (rowKeys def (prAllValues w)) = {}))" if w: "w \<in> set (piRows p)" for w
  proof (cases "prAction w = RaSkip")
    case False
    with skips [OF w] have ok: "prErrors w = []" "prDuplicateOfRow w = None" by simp_all
    with d [OF w] have e: "prExistingId w = lookupIdentity ?i (dfMatchBy def) (prAllValues w)"
      "prAction w = (if prExistingId w = None then RaCreate else RaUpdate)" by (simp_all add: decided_def)
    from ok w have "prAllValues w \<in> set (offeredRows (piRows p))" by (auto simp: offeredRows_def)
    then have l: "?l = dfLoadExisting def org (offeredRows (piRows p)) db" by (auto simp: loadedFor_def)
    have "\<forall>r\<in>set ?l. erId r \<noteq> []" unfolding l by (rule assms(2))
    note look = lookup_iff [OF this, of "dfMatchBy def" "prAllValues w", folded e(1) rowKeys_def, unfolded l]
    show ?thesis
    proof (cases "prExistingId w")
      case None
      with look e(2) show ?thesis by simp
    next
      case (Some i)
      with look have "\<exists>r\<in>set (dfLoadExisting def org (offeredRows (piRows p)) db). erId r = i \<and>
          set (rowKeys def (erValues r)) \<inter> set (rowKeys def (prAllValues w)) \<noteq> {}" by simp
      with Some e(2) show ?thesis by (metis option.distinct(1) rowAction.distinct(1))
    qed
  qed simp
  show ?thesis using numbers counts total skips dups once found by blast
qed

section \<open>The account of a commit\<close>

lemma length_filter_sort_key: "length (filter P (sort_key f xs)) = length (filter P xs)"
  by (metis mset_filter mset_sort size_mset)

lemma map_sort_key: "map f (sort_key f xs) = sort (map f xs)"
  by (rule properties_for_sort [symmetric]) simp_all

lemma sort_partition:
  assumes "sorted ns" and "mset ms = mset (filter P ns)"
  shows "sort ms = filter P ns"
  by (rule properties_for_sort) (use assms in \<open>simp_all add: sorted_filter [of id, simplified]\<close>)

lemma problemRow_simps [simp]:
  "rrRowNumber (problemRow r out m) = prRowNumber r" "rrOutcome (problemRow r out m) = out"
  "rrReason (problemRow r out m) = Some m"
  by (simp_all add: problemRow_def)

lemma rolledBackRow_simps [simp]:
  "rrRowNumber (rolledBackRow err n r) = prRowNumber r"
  "rrOutcome (rolledBackRow err n r) = (if Some (prRowNumber r) = n then OutFailed else OutSkipped)"
  "rrReason (rolledBackRow err n r) \<noteq> None"
  by (simp_all add: rolledBackRow_def)

lemma buildResult_facts:
  fixes written skipped rolled rb err n
  defines "r \<equiv> buildResult written skipped rb err rolled n"
  assumes "\<forall>w\<in>set written. prAction (fst w) \<noteq> RaSkip"
  shows "irCreated r = length (filter (\<lambda>w. prAction (fst w) = RaCreate) written)"
    and "irUpdated r = length (filter (\<lambda>w. prAction (fst w) = RaUpdate) written)"
    and "irSkipped r + irFailed r = length skipped + length rolled"
    and "map rrRowNumber (irProblemRows r) = take MAX_LISTED_PROBLEM_ROWS (sort (map prRowNumber skipped @ map prRowNumber rolled))"
    and "length (irProblemRows r) + irUnlisted r = length skipped + length rolled"
    and "\<forall>q\<in>set (irProblemRows r). rrReason q \<noteq> None"
    and "irRolledBack r = rb" "irError r = err"
proof -
  let ?p = "map (\<lambda>r. problemRow r OutSkipped (skipReason r)) skipped @ map (rolledBackRow err n) rolled"
  have split: "length (filter (\<lambda>w. prAction (fst w) = RaUpdate) written) +
      length (filter (\<lambda>w. prAction (fst w) = RaCreate) written) = length written"
    using assms(2) rowAction.exhaust by (induction written) auto
  then show "irCreated r = length (filter (\<lambda>w. prAction (fst w) = RaCreate) written)"
    and "irUpdated r = length (filter (\<lambda>w. prAction (fst w) = RaUpdate) written)"
    by (simp_all add: r_def buildResult_def Let_def)
  have "length (filter (\<lambda>q. rrOutcome q = OutSkipped) (map (\<lambda>r. problemRow r OutSkipped (skipReason r)) skipped)) = length skipped"
    by (simp add: filter_map o_def)
  moreover have "length (filter (\<lambda>q. rrOutcome q = OutSkipped) (map (rolledBackRow err n) rolled)) +
      length (filter (\<lambda>r. Some (prRowNumber r) = n) rolled) = length rolled"
    by (induction rolled) auto
  ultimately show "irSkipped r + irFailed r = length skipped + length rolled"
    by (simp add: r_def buildResult_def Let_def length_filter_sort_key)
  have "map rrRowNumber ?p = map prRowNumber skipped @ map prRowNumber rolled" by (simp add: o_def)
  then show "map rrRowNumber (irProblemRows r) = take MAX_LISTED_PROBLEM_ROWS (sort (map prRowNumber skipped @ map prRowNumber rolled))"
    by (simp only: r_def buildResult_def Let_def importResult.simps take_map [symmetric] map_sort_key)
  show "length (irProblemRows r) + irUnlisted r = length skipped + length rolled"
    by (simp add: r_def buildResult_def Let_def)
  have "\<forall>q\<in>set (sort_key rrRowNumber ?p). rrReason q \<noteq> None"
    by (auto simp: rolledBackRow_def)
  then show "\<forall>q\<in>set (irProblemRows r). rrReason q \<noteq> None"
    by (auto simp: r_def buildResult_def Let_def dest: in_set_takeD)
  show "irRolledBack r = rb" "irError r = err" by (simp_all add: r_def buildResult_def Let_def)
qed

lemma writeRows_rows: "writeRows upsert rows db = Inr (db', written) \<Longrightarrow> map fst written = rows"
  by (induction upsert rows db arbitrary: db' written rule: writeRows.induct) (auto split: sum.splits prod.splits)

lemma updateSession_Inr:
  "updateSession i org f st = Inr (s, st') \<Longrightarrow>
     \<exists>old. List.find (ownedSession i org) (isSessions st) = Some old \<and> s = f old \<and>
       st' = st\<lparr>isSessions := updateWhere (ownedSession i org) f (isSessions st)\<rparr>"
  by (auto simp: updateSession_def split: option.splits)

lemma storeResult_Inr:
  "storeResult now session result status st = (Inr (s, r), st') \<Longrightarrow>
     r = result \<and> imStatus s = status \<and> imResult s = Some result \<and> isDb st' = isDb st \<and> isFiles st' = isFiles st"
  by (auto simp: storeResult_def split: sum.splits dest!: updateSession_Inr)

text \<open>What the tables hold after a transaction, and what was written.\<close>

definition landed ::
    "txFault option \<Rightarrow> importSession \<Rightarrow> importResult \<Rightarrow> (preparedRow \<times> uuid) list
      \<Rightarrow> (preparedRow \<Rightarrow> 'db \<Rightarrow> string + 'db \<times> uuid) \<Rightarrow> preparedRow list \<Rightarrow> 'db \<Rightarrow> 'db \<Rightarrow> bool" where
  "landed fault s res written upsert rows db db' \<longleftrightarrow>
     imStatus s = SsCommitted \<and> \<not> irRolledBack res \<and> irError res = None \<and>
       writeRows upsert (rowsToWrite rows) db = Inr (db', written) \<or>
     imStatus s = SsFailed \<and> irRolledBack res \<and> irError res \<noteq> None \<and> written = [] \<and>
       (fault \<noteq> Some (TxTimedOut True) \<longrightarrow> db' = db)"

definition accounted :: "importResult \<Rightarrow> (preparedRow \<times> uuid) list \<Rightarrow> preparedRow list \<Rightarrow> bool" where
  "accounted res written rows \<longleftrightarrow>
     irCreated res = length (filter (\<lambda>w. prAction (fst w) = RaCreate) written) \<and>
     irUpdated res = length (filter (\<lambda>w. prAction (fst w) = RaUpdate) written) \<and>
     irSkipped res + irFailed res + length written = length rows \<and>
     map rrRowNumber (irProblemRows res) = take MAX_LISTED_PROBLEM_ROWS
       (filter (\<lambda>n. n \<notin> (\<lambda>w. prRowNumber (fst w)) ` set written) (map prRowNumber rows)) \<and>
     length (irProblemRows res) + irUnlisted res = irSkipped res + irFailed res \<and>
     (\<forall>q\<in>set (irProblemRows res). rrReason q \<noteq> None)"

lemma skipped_and_written: "length (skippedRows rows) + length (rowsToWrite rows) = length rows"
  by (induction rows) (auto simp: skippedRows_def rowsToWrite_def)

lemma accounted_written:
  assumes "sorted_wrt (<) (map prRowNumber rows)" and "map fst written = rowsToWrite rows"
  shows "accounted (buildResult written (skippedRows rows) False None [] None) written rows"
proof -
  have acts: "\<forall>w\<in>set written. prAction (fst w) \<noteq> RaSkip"
    using arg_cong [OF assms(2), of set] by (auto simp: rowsToWrite_def)
  note facts = buildResult_facts [OF acts, of "skippedRows rows" False None "[]" None]
  have len: "length written = length (rowsToWrite rows)" using arg_cong [OF assms(2), of length] by simp
  have numbers: "(\<lambda>w. prRowNumber (fst w)) ` set written = prRowNumber ` set (rowsToWrite rows)"
    using arg_cong [OF assms(2), of set] by (metis image_image list.set_map)
  have others: "n \<notin> prRowNumber ` set (rowsToWrite rows) \<longleftrightarrow> n \<in> prRowNumber ` set (skippedRows rows)"
    if "n \<in> prRowNumber ` set rows" for n
  proof -
    from assms(1) have "distinct (map prRowNumber rows)" by (metis strict_sorted_iff)
    with that show ?thesis
      by (auto simp: rowsToWrite_def skippedRows_def dest: distinct_key_eq)
  qed
  have "filter (\<lambda>n. n \<notin> (\<lambda>w. prRowNumber (fst w)) ` set written) (map prRowNumber rows) =
      filter (\<lambda>n. n \<in> prRowNumber ` set (skippedRows rows)) (map prRowNumber rows)"
    unfolding numbers by (rule filter_cong [OF refl]) (use others in simp)
  also have "\<dots> = map prRowNumber (skippedRows rows)"
  proof -
    from assms(1) have d: "distinct (map prRowNumber rows)" by (metis strict_sorted_iff)
    have "prRowNumber w \<in> prRowNumber ` set (skippedRows rows) \<longleftrightarrow> prAction w = RaSkip" if "w \<in> set rows" for w
      using distinct_key_eq [OF d] that by (auto simp: skippedRows_def)
    then show ?thesis by (auto simp: filter_map o_def skippedRows_def intro!: arg_cong [where f = "map prRowNumber"] filter_cong)
  qed
  also have "\<dots> = sort (map prRowNumber (skippedRows rows))"
  proof (rule sorted_sort_id [symmetric])
    have "sorted (map prRowNumber rows)" using assms(1) by (metis strict_sorted_imp_sorted)
    then show "sorted (map prRowNumber (skippedRows rows))" unfolding skippedRows_def by (rule sorted_filter)
  qed
  finally show ?thesis using facts len skipped_and_written [of rows] by (simp add: accounted_def)
qed

lemma accounted_rolled_back:
  assumes "sorted_wrt (<) (map prRowNumber rows)"
  shows "accounted (buildResult [] (skippedRows rows) True (Some m) (rowsToWrite rows) n) [] rows"
proof -
  note facts = buildResult_facts [of "[]" "skippedRows rows" True "Some m" "rowsToWrite rows" n, simplified]
  have "mset (map prRowNumber (skippedRows rows) @ map prRowNumber (rowsToWrite rows)) = mset (map prRowNumber rows)"
    by (induction rows) (auto simp: skippedRows_def rowsToWrite_def)
  moreover have "sorted (map prRowNumber rows)" using assms by (metis strict_sorted_imp_sorted)
  ultimately have "sort (map prRowNumber (skippedRows rows) @ map prRowNumber (rowsToWrite rows)) = map prRowNumber rows"
    by (intro properties_for_sort) simp_all
  with facts skipped_and_written [of rows] show ?thesis by (simp add: accounted_def)
qed

section \<open>A commit is all or nothing\<close>

text \<open>What a session is prepared from: its file, its columns and its mapping.\<close>

lemma prepare_ignores_attestation:
  "prepareForSession env (s\<lparr>imAttestation := a\<rparr>) (st\<lparr>isSessions := ss\<rparr>) = prepareForSession env s st"
  by (simp add: prepareForSession_def readSessionGrid_def)

lemma attestSession_Inr:
  assumes "attestSession def json user now old st = Inr (session, a, st1)"
    and "getImportSession i org (isSessions st) = Inr old"
  shows "\<exists>x ss. session = old\<lparr>imAttestation := x\<rparr> \<and> st1 = st\<lparr>isSessions := ss\<rparr>"
proof (cases "dfAttestation def = None")
  case True
  with assms(1) have "session = old\<lparr>imAttestation := imAttestation old\<rparr>" "st1 = st\<lparr>isSessions := isSessions st\<rparr>"
    by (simp_all add: attestSession_def)
  then show ?thesis by blast
next
  case False
  have old: "List.find (ownedSession i org) (isSessions st) = Some old"
    using assms(2) by (simp add: getImportSession_def split: option.splits)
  then have "ownedSession i org old" by (auto dest: find_Some_in)
  then have same: "ownedSession (imId old) (imOrg old) = ownedSession i org" by (auto simp: ownedSession_def)
  from assms(1) False obtain v where
    "updateSession (imId old) (imOrg old) (\<lambda>s. s\<lparr>imAttestation := Some v\<rparr>) st = Inr (session, st1)"
    by (auto simp: attestSession_def ebind_Inr_iff)
  from updateSession_Inr [OF this] show ?thesis unfolding same old by blast
qed

lemma prepared_numbers:
  assumes "prepareForSession env session st = Inr p"
  shows "sorted_wrt (<) (map prRowNumber (piRows p))"
proof -
  from assms obtain def columns rows where "prepareImport def (imOrg session) columns rows (imMapping session) (isDb st) = Inr p"
    by (auto simp: prepareForSession_def ebind_Inr_iff)
  then obtain ps where "map rowOf (piRows p) =
      screenNormalized def (imOrg session) (isDb st) (normalizeRows def (fst (resolveMapping (imMapping session) columns def)) rows)"
    by (rule prepareImport_inv) (simp add: prepareInv_def)
  then have "map fst (map rowOf (piRows p)) = [1..<length rows + 1]"
    by (simp only: screened_numbers normalize_numbers)
  then have "map prRowNumber (piRows p) = [1..<length rows + 1]" by (simp add: o_def rowOf_def del: upt_Suc)
  then show ?thesis by (simp only: sorted_wrt_upt)
qed

lemma runTransaction_cases:
  assumes "runTransaction fault upsert rows db = (r, db')"
  shows "case r of
      Inl (n, m) \<Rightarrow> fault \<noteq> Some (TxTimedOut True) \<longrightarrow> db' = db
    | Inr written \<Rightarrow> writeRows upsert rows db = Inr (db', written)"
  using assms by (auto simp: runTransaction_def split: option.splits txFault.splits sum.splits prod.splits if_splits)

lemma commitPrepared_Inr:
  assumes "commitPrepared fault newId now session user a p st = (Inr (s, res), st')"
    and numbers: "sorted_wrt (<) (map prRowNumber (piRows p))"
  shows "\<exists>written. landed fault s res written (upsertPrepared (piDefinition p) newId session user a) (piRows p) (isDb st) (isDb st') \<and>
    accounted res written (piRows p) \<and> isFiles st' = isFiles st \<and> imResult s = Some res"
proof (cases "rowsToWrite (piRows p) = []")
  case True
  with assms(1) have "storeResult now session (buildResult [] (skippedRows (piRows p)) False None [] None) SsCommitted st = (Inr (s, res), st')"
    by (simp add: commitPrepared_def Let_def)
  note stored = storeResult_Inr [OF this]
  have "accounted res [] (piRows p)" using accounted_written [OF numbers, of "[]"] True stored by simp
  moreover have "landed fault s res [] (upsertPrepared (piDefinition p) newId session user a) (piRows p) (isDb st) (isDb st')"
    using stored True by (simp add: landed_def buildResult_facts)
  ultimately show ?thesis using stored by auto
next
  case False
  let ?u = "upsertPrepared (piDefinition p) newId session user a"
  let ?rows = "rowsToWrite (piRows p)"
  obtain r db' where run: "runTransaction fault ?u ?rows (isDb st) = (r, db')" by fastforce
  note cases = runTransaction_cases [OF run]
  show ?thesis
  proof (cases r)
    case (Inl failure)
    obtain n m where f: "failure = (n, m)" by (cases failure)
    from assms(1) False run Inl f have "storeResult now session
        (buildResult [] (skippedRows (piRows p)) True (Some m) ?rows n) SsFailed (st\<lparr>isDb := db'\<rparr>) = (Inr (s, res), st')"
      by (simp add: commitPrepared_def Let_def)
    note stored = storeResult_Inr [OF this]
    have "landed fault s res [] ?u (piRows p) (isDb st) (isDb st')"
      using stored cases Inl f by (simp add: landed_def buildResult_facts)
    moreover have "accounted res [] (piRows p)" using accounted_rolled_back [OF numbers] stored by simp
    ultimately show ?thesis using stored by auto
  next
    case (Inr written)
    with cases have w: "writeRows ?u ?rows (isDb st) = Inr (db', written)" by simp
    have rows: "map fst written = ?rows" by (rule writeRows_rows [OF w])
    from assms(1) False run Inr have "storeResult now session
        (buildResult written (skippedRows (piRows p)) False None [] None) SsCommitted (st\<lparr>isDb := db'\<rparr>) = (Inr (s, res), st')"
      by (simp add: commitPrepared_def Let_def)
    note stored = storeResult_Inr [OF this]
    have acts: "\<forall>w\<in>set written. prAction (fst w) \<noteq> RaSkip"
      using arg_cong [OF rows, of set] by (auto simp: rowsToWrite_def)
    have "landed fault s res written ?u (piRows p) (isDb st) (isDb st')"
      using stored w by (simp add: landed_def buildResult_facts [OF acts])
    moreover have "accounted res written (piRows p)" using accounted_written [OF numbers rows] stored by simp
    ultimately show ?thesis using stored by auto
  qed
qed

text \<open>A commit that answers, step by step.\<close>

lemma commitImportSession_Inr:
  assumes "commitImportSession env fault newId now i org user json st = (Inr (s, res), st')"
  obtains old def x a ss p where "getImportSession i org (isSessions st) = Inr old" "imStatus old \<noteq> SsCommitted"
    "getImportDefinition (imDefinitionName old) (ieRegistry env) = Inr def"
    "attestSession def json user now old st = Inr (old\<lparr>imAttestation := x\<rparr>, a, st\<lparr>isSessions := ss\<rparr>)"
    "prepareForSession env old st = Inr p"
    "commitPrepared fault newId now (old\<lparr>imAttestation := x\<rparr>) user a p (st\<lparr>isSessions := ss\<rparr>) = (Inr (s, res), st')"
    "sorted_wrt (<) (map prRowNumber (piRows p))"
proof -
  from assms obtain old def session a st1 p where old: "getImportSession i org (isSessions st) = Inr old"
    "imStatus old \<noteq> SsCommitted"
    and def: "getImportDefinition (imDefinitionName old) (ieRegistry env) = Inr def"
    and att: "attestSession def json user now old st = Inr (session, a, st1)"
    and prep: "prepareForSession env session st1 = Inr p"
    and run: "commitPrepared fault newId now session user a p st1 = (Inr (s, res), st')"
    by (auto simp: commitImportSession_def ebind_Inr_iff split: sum.splits)
  from attestSession_Inr [OF att old(1)] obtain x ss where eq: "session = old\<lparr>imAttestation := x\<rparr>" "st1 = st\<lparr>isSessions := ss\<rparr>"
    by blast
  show ?thesis
    by (rule that [OF old def att [unfolded eq] prep [unfolded eq prepare_ignores_attestation] run [unfolded eq]])
      (rule prepared_numbers [OF prep])
qed

lemma upsert_ignores_attestation:
  "upsertPrepared def newId (s\<lparr>imAttestation := x\<rparr>) user a = upsertPrepared def newId s user a"
  by (rule ext) (simp add: upsertPrepared_def)

text \<open>Whatever the fault, the tables are untouched or hold every row; and they hold every row when the session is committed.\<close>

lemma commitPrepared_db:
  assumes "commitPrepared fault newId now session user a p st = (Inr (s, res), st')"
  shows "(imStatus s \<noteq> SsCommitted \<and> isDb st' = isDb st) \<or>
    (\<exists>written. writeRows (upsertPrepared (piDefinition p) newId session user a) (rowsToWrite (piRows p)) (isDb st) = Inr (isDb st', written))"
proof -
  have stored: "imStatus s = status \<and> isDb st' = isDb st2"
    if "storeResult now session result status st2 = (Inr (s, res), st')" for result status and st2 :: "('a, 'b) importState"
    using storeResult_Inr [OF that] by simp
  show ?thesis
    using assms unfolding commitPrepared_def Let_def
    by (auto simp: runTransaction_def split: if_splits option.splits txFault.splits sum.splits prod.splits dest!: stored)
qed

lemma prepareForSession_Inr:
  assumes "prepareForSession env session st = Inr p"
  obtains def columns rows where "getImportDefinition (imDefinitionName session) (ieRegistry env) = Inr def"
    "readSessionGrid env session st = Inr (columns, rows)" "length columns = length (imColumns session)"
    "prepareImport def (imOrg session) columns rows (imMapping session) (isDb st) = Inr p"
  using assms by (auto simp: prepareForSession_def ebind_Inr_iff)

lemma readSessionGrid_files: "isFiles st' = isFiles st \<Longrightarrow> readSessionGrid env session st' = readSessionGrid env session st"
  by (simp add: readSessionGrid_def)

lemma commitPrepared_files:
  "commitPrepared fault newId now session user a p st = (Inr (s, res), st') \<Longrightarrow> isFiles st' = isFiles st"
  by (auto simp: commitPrepared_def Let_def split: if_splits sum.splits prod.splits dest!: storeResult_Inr)

text \<open>
  C8. Each attempt to commit is all or nothing and accounts for every row. When the commit of a session
  answers, the session was not recorded as committed before; what was prepared is what the preview of the
  same state prepares; either every row that was to land was written in order, by the definition's own
  upsert, and the session is committed, or the session has failed, nothing counts as created or updated and
  the tables are as they were, or, if the timer fired and the transaction went on, hold every row all the
  same; the counts add up to the rows of the file, and the problem rows are exactly the rows that were not
  written, in order, each with its reason, up to the listed 1000 and the count of the rest. Only a session
  already recorded as committed refuses: committing it again is then a conflict that changes nothing. (A
  session that failed on the timer, or two commits at once, may write the rows again.)
\<close>

theorem commit_is_all_or_nothing:
  assumes "commitImportSession env fault newId now i org user json st = (Inr (s, res), st')"
  shows "\<exists>old p written a.
      getImportSession i org (isSessions st) = Inr old \<and> imStatus old \<noteq> SsCommitted \<and>
      prepareForSession env old st = Inr p \<and>
      landed fault s res written (upsertPrepared (piDefinition p) newId old user a) (piRows p) (isDb st) (isDb st') \<and>
      accounted res written (piRows p) \<and> isFiles st' = isFiles st \<and>
      imResult s = Some res \<and>
      (imStatus s = SsCommitted \<longrightarrow>
        (\<forall>fault2 newId2 now2 user2 json2. commitImportSession env fault2 newId2 now2 i org user2 json2 st' =
           (Inl (ConflictError ''This import has already been committed.''), st')))"
proof -
  from assms obtain old def x a ss p where old: "getImportSession i org (isSessions st) = Inr old"
    and open_session: "imStatus old \<noteq> SsCommitted" and prep: "prepareForSession env old st = Inr p"
    and run: "commitPrepared fault newId now (old\<lparr>imAttestation := x\<rparr>) user a p (st\<lparr>isSessions := ss\<rparr>) = (Inr (s, res), st')"
    and numbers: "sorted_wrt (<) (map prRowNumber (piRows p))"
    by (rule commitImportSession_Inr)
  let ?session = "old\<lparr>imAttestation := x\<rparr>"
  from commitPrepared_Inr [OF run numbers] obtain written where
    facts: "landed fault s res written (upsertPrepared (piDefinition p) newId old user a) (piRows p) (isDb st) (isDb st')"
      "accounted res written (piRows p)" "isFiles st' = isFiles st" "imResult s = Some res"
    by (auto simp: upsert_ignores_attestation)
  have "getImportSession i org (isSessions st') = Inr s"
  proof -
    from old have "ownedSession i org old" by (auto simp: getImportSession_def split: option.splits dest: find_Some_in)
    then have same: "imId ?session = i" "imOrg ?session = org" by (auto simp: ownedSession_def)
    from run obtain result status st2 where "storeResult now ?session result status st2 = (Inr (s, res), st')"
      by (auto simp: commitPrepared_def Let_def split: if_splits prod.splits sum.splits)
    then have "updateSession i org (\<lambda>s. s\<lparr>imStatus := status, imResult := Some result, imCommittedAt := Some now\<rparr>) st2 = Inr (s, st')"
      by (auto simp: storeResult_def same [simplified] split: sum.splits)
    from updateSession_Inr [OF this] obtain o2 where o2: "List.find (ownedSession i org) (isSessions st2) = Some o2"
      and new: "s = o2\<lparr>imStatus := status, imResult := Some result, imCommittedAt := Some now\<rparr>"
        "isSessions st' = updateWhere (ownedSession i org)
          (\<lambda>s. s\<lparr>imStatus := status, imResult := Some result, imCommittedAt := Some now\<rparr>) (isSessions st2)" by auto
    have "ownedSession i org o2" using find_Some_in [OF o2] by simp
    moreover have "List.find (ownedSession i org) (isSessions st') =
        map_option (\<lambda>r. if ownedSession i org r then r\<lparr>imStatus := status, imResult := Some result, imCommittedAt := Some now\<rparr> else r)
          (List.find (ownedSession i org) (isSessions st2))"
      unfolding new(2) by (rule find_updateWhere) (simp add: ownedSession_def)
    ultimately show ?thesis using o2 new(1) by (simp add: getImportSession_def)
  qed
  then have "imStatus s = SsCommitted \<longrightarrow> (\<forall>fault2 newId2 now2 user2 json2. commitImportSession env fault2 newId2 now2 i org user2 json2 st' =
      (Inl (ConflictError ''This import has already been committed.''), st'))"
    by (simp add: commitImportSession_def)
  with old open_session prep facts show ?thesis by metis
qed

section \<open>Examples\<close>

text \<open>An address book: a list of ids and addresses, matched on the address.\<close>

type_synonym addressBook = "(uuid \<times> string) list"

definition exampleBook :: "addressBook importDefinition" where
  "exampleBook =
     \<lparr>dfName = ''book'', dfLabel = ''Address book'', dfDescription = [],
      dfFields = [(exampleField FkEmail)\<lparr>ifKey := ''email'', ifLabel := ''Email'', ifRequired := True\<rparr>],
      dfMatchBy = [[''email'']], dfDerive = [], dfCapability = None, dfAllow = None, dfAttestation = None,
      dfScreenRows = None,
      dfLoadExisting = (\<lambda>org rows db. map (\<lambda>(i, e). \<lparr>erId = CHR ''i'' # i, erValues = [(''email'', IvString e)]\<rparr>) db),
      dfUpsertRow = (\<lambda>newId options db.
        case urExistingId options of
          Some i \<Rightarrow> Inr (db, i)
        | None \<Rightarrow> Inr (db @ [(newId, orEmpty (valueOf (urValues options) ''email''))], newId)),
      dfSampleCsv = None\<rparr>"

definition exampleRows :: grid where
  "exampleRows = [[''ann@x.io''], [''bob@x.io''], [''Ann@x.io''], [''nobody'']]"

definition exampleMapping :: "columnMappingEntry list" where
  "exampleMapping = [\<lparr>meColumnIndex = 0, meFieldKey = Some ''email'', meCustom = None\<rparr>]"

definition exampleLines :: string where
  "exampleLines = concat (map (\<lambda>l. l @ [char_of (10::nat)]) (''Email'' # concat exampleRows))"

definition exampleSession :: importSession where
  "exampleSession =
     \<lparr>imId = ''s1'', imOrg = ''o1'', imCreatedBy = None, imDefinitionName = ''book'', imUploadedFileId = Some ''f1'',
      imFilename = ''list.csv'', imStatus = SsParsed, imSheetName = None, imHeaderRowIndex = 0, imColumns = [''Email''],
      imMapping = exampleMapping, imRowCount = 4, imResult = None, imAttestation = None, imCommittedAt = None,
      imCreatedAt = 5\<rparr>"

definition exampleImport :: "(addressBook, string) importState" where
  "exampleImport =
     \<lparr>isDb = [(''b1'', ''bob@x.io'')], isSessions = [exampleSession],
      isFiles = \<lparr>fsRows = [exampleFile\<lparr>fiStorageKey := ''uploads/o1/u1.csv'', fiFilename := ''list.csv'',
                    fiContentType := ''text/csv'', fiStatus := Approved\<rparr>],
                 fsObjects = [(''p/uploads/o1/u1.csv'', \<lparr>soBody = exampleLines, soContentType = ''text/csv''\<rparr>)]\<rparr>\<rparr>"

definition exampleImportEnv :: "(addressBook, string) importEnv" where
  "exampleImportEnv = \<lparr>ieRegistry = [exampleBook], ieReaders = plainReaders, iePrefix = ''p/''\<rparr>"

definition exampleCommit :: "txFault option \<Rightarrow> (appError + importSession \<times> importResult) \<times> (addressBook, string) importState" where
  "exampleCommit fault = commitImportSession exampleImportEnv fault (\<lambda>n. ''new'' @ decimal n) 9 ''s1'' ''o1'' None JNull exampleImport"

definition exampleRow :: "nat \<Rightarrow> rowAction \<Rightarrow> string option \<Rightarrow> preparedRow" where
  "exampleRow n action email =
     \<lparr>prRowNumber = n, prAction = action,
      prValues = [(''email'', case email of Some e \<Rightarrow> IvString e | None \<Rightarrow> IvNull)],
      prAllValues = [(''email'', case email of Some e \<Rightarrow> IvString e | None \<Rightarrow> IvNull)],
      prExtras = [], prErrors = [], prExistingId = None, prDuplicateOfRow = None\<rparr>"

definition examplePrepared :: "preparedRow list" where
  "examplePrepared =
     [exampleRow 1 RaCreate (Some ''ann@x.io''), (exampleRow 2 RaUpdate (Some ''bob@x.io''))\<lparr>prExistingId := Some ''ib1''\<rparr>,
      (exampleRow 3 RaSkip (Some ''ann@x.io''))\<lparr>prDuplicateOfRow := Some 1\<rparr>,
      (exampleRow 4 RaSkip None)\<lparr>prErrors := [\<lparr>ceField = ''email'', ceLabel = ''Email'',
         ceMessage = ''is not an email address: '' @ quoted ''nobody'' @ ''.''\<rparr>]\<rparr>]"

definition exampleBookDb :: addressBook where "exampleBookDb = [(''b1'', ''bob@x.io'')]"

lemma example_prepared:
  "map_sum id (\<lambda>p. (piRows p, piCounts p)) (prepareImport exampleBook ''o1'' [''Email''] exampleRows exampleMapping exampleBookDb) =
     Inr (examplePrepared, countRows 4 examplePrepared)"
  by code_simp

lemma example_prepares:
  "prepareImport exampleBook ''o1'' [''Email''] exampleRows exampleMapping exampleBookDb =
     Inr \<lparr>piDefinition = exampleBook, piRows = examplePrepared, piCounts = countRows 4 examplePrepared\<rparr>"
proof -
  obtain p where p: "prepareImport exampleBook ''o1'' [''Email''] exampleRows exampleMapping exampleBookDb = Inr p"
    "piRows p = examplePrepared" "piCounts p = countRows 4 examplePrepared"
    using example_prepared by (cases "prepareImport exampleBook ''o1'' [''Email''] exampleRows exampleMapping exampleBookDb") auto
  from p(1) have "piDefinition p = exampleBook" by (rule prepareImport_inv)
  with p show ?thesis by (cases p) simp
qed

theorem every_row_is_decided_witness:
  "\<exists>p. prepareImport exampleBook ''o1'' [''Email''] exampleRows exampleMapping exampleBookDb = Inr p \<and>
     map prAction (piRows p) = [RaCreate, RaUpdate, RaSkip, RaSkip] \<and> map prRowNumber (piRows p) = [1, 2, 3, 4]"
proof -
  have "\<forall>r\<in>set (dfLoadExisting exampleBook ''o1'' offered exampleBookDb). erId r \<noteq> []" for offered
    by (simp add: exampleBook_def exampleBookDb_def)
  from every_row_is_decided [OF example_prepares this]
  have "map prRowNumber examplePrepared = [1..<length exampleRows + 1]" by simp
  moreover have "map prAction examplePrepared = [RaCreate, RaUpdate, RaSkip, RaSkip]"
    by (simp add: examplePrepared_def exampleRow_def)
  ultimately show ?thesis using example_prepares by (simp add: exampleRows_def upt_rec numeral_eq_Suc)
qed

lemma example_parses_lines:
  "map_sum id (\<lambda>p. (psColumns p, psRows p)) (parseSpreadsheet plainReaders exampleLines
     \<lparr>poFilename = Some ''list.csv'', poContentType = Some ''text/csv'', poSheetName = None, poHeaderRowIndex = Some 0\<rparr>) =
   Inr ([''Email''], exampleRows)"
  by code_simp

lemma example_object:
  "getObject ''p/'' ''uploads/o1/u1.csv'' (isFiles exampleImport) = Inr \<lparr>soBody = exampleLines, soContentType = ''text/csv''\<rparr>"
  by code_simp

lemma example_ready:
  "prepareForSession exampleImportEnv exampleSession exampleImport =
     Inr \<lparr>piDefinition = exampleBook, piRows = examplePrepared, piCounts = countRows 4 examplePrepared\<rparr>"
proof -
  obtain parsed where parsed: "parseSpreadsheet plainReaders exampleLines
     \<lparr>poFilename = Some ''list.csv'', poContentType = Some ''text/csv'', poSheetName = None, poHeaderRowIndex = Some 0\<rparr> = Inr parsed"
    "psColumns parsed = [''Email'']" "psRows parsed = exampleRows"
    using example_parses_lines by (cases "parseSpreadsheet plainReaders exampleLines
     \<lparr>poFilename = Some ''list.csv'', poContentType = Some ''text/csv'', poSheetName = None, poHeaderRowIndex = Some 0\<rparr>") auto
  have "readSessionGrid exampleImportEnv exampleSession exampleImport = Inr ([''Email''], exampleRows)"
    using parsed example_object
    by (simp add: readSessionGrid_def exampleImportEnv_def exampleSession_def exampleImport_def exampleFile_def truthy_def
        getUploadedFile_def ownedFile_def)
  moreover have "getImportDefinition (imDefinitionName exampleSession) (ieRegistry exampleImportEnv) = Inr exampleBook"
    by (simp add: getImportDefinition_def findImportDefinition_def exampleSession_def exampleImportEnv_def exampleBook_def)
  ultimately show ?thesis
    using example_prepares
    by (simp add: prepareForSession_def) (simp add: exampleSession_def exampleImport_def exampleBookDb_def)
qed

definition exampleOutcome :: "txFault option \<Rightarrow> (appError + importSession \<times> importResult) \<times> (addressBook, string) importState" where
  "exampleOutcome fault = commitPrepared fault (\<lambda>n. ''new'' @ decimal n) 9 exampleSession None None
     \<lparr>piDefinition = exampleBook, piRows = examplePrepared, piCounts = countRows 4 examplePrepared\<rparr> exampleImport"

lemma example_commit: "exampleCommit fault = exampleOutcome fault"
proof -
  have "getImportSession ''s1'' ''o1'' (isSessions exampleImport) = Inr exampleSession" "imStatus exampleSession \<noteq> SsCommitted"
    "getImportDefinition (imDefinitionName exampleSession) (ieRegistry exampleImportEnv) = Inr exampleBook"
    "dfAttestation exampleBook = None"
    by (simp_all add: getImportSession_def exampleImport_def ownedSession_def exampleSession_def
        getImportDefinition_def findImportDefinition_def exampleImportEnv_def exampleBook_def)
  then show ?thesis
    by (simp add: exampleCommit_def exampleOutcome_def commitImportSession_def attestSession_def example_ready)
qed

lemma example_outcome:
  "isDb (snd (exampleOutcome None)) = [(''b1'', ''bob@x.io''), (''new1'', ''ann@x.io'')]"
  "case fst (exampleOutcome None) of Inl _ \<Rightarrow> False | Inr (s, res) \<Rightarrow>
     irCreated res = 1 \<and> irUpdated res = 1 \<and> irSkipped res = 2 \<and> map rrRowNumber (irProblemRows res) = [3, 4]"
  by code_simp+

theorem commit_is_all_or_nothing_witness:
  "\<exists>s res st'. exampleCommit None = (Inr (s, res), st') \<and> isDb st' = [(''b1'', ''bob@x.io''), (''new1'', ''ann@x.io'')] \<and>
     irCreated res = 1 \<and> imResult s = Some res"
proof -
  from example_outcome(2) obtain s res where "fst (exampleCommit None) = Inr (s, res)" "irCreated res = 1"
    unfolding example_commit by (auto split: sum.splits)
  then have eq: "exampleCommit None = (Inr (s, res), snd (exampleCommit None))" by (metis prod.collapse)
  from commit_is_all_or_nothing [OF eq [unfolded exampleCommit_def]] have "imResult s = Some res" by blast
  with eq \<open>irCreated res = 1\<close> example_outcome(1) show ?thesis unfolding example_commit by blast
qed

text \<open>
  When the timer of \<^verbatim>\<open>withTimeout\<close> fires, the session says that the import was rolled back, every row that
  was to be written is blamed on the row \<open>null\<close>, and the transaction goes on: the rows may land all the same.
\<close>

lemma timed_out_import_may_land:
  "isDb (snd (exampleCommit (Some (TxTimedOut True)))) = [(''b1'', ''bob@x.io''), (''new1'', ''ann@x.io'')]"
  "case fst (exampleCommit (Some (TxTimedOut True))) of Inl _ \<Rightarrow> False | Inr (s, res) \<Rightarrow>
     imStatus s = SsFailed \<and> irRolledBack res \<and> irCreated res = 0 \<and> irFailed res = 0 \<and>
     rrReason (hd (irProblemRows res)) = Some ''Not imported: row null failed and the whole import was rolled back.''"
  unfolding example_commit by code_simp+

text \<open>
  With two ways to match, a row with only the first and a row with only the second identity of one record
  share no key: both are updates of that record, and the second write wins.
\<close>

definition exampleTwoKeys :: "addressBook importDefinition" where
  "exampleTwoKeys = exampleBook\<lparr>
      dfFields := [(exampleField FkEmail)\<lparr>ifKey := ''email'', ifLabel := ''Email''\<rparr>,
                   (exampleField FkText)\<lparr>ifKey := ''name'', ifLabel := ''Name''\<rparr>],
      dfMatchBy := [[''email''], [''name'']],
      dfLoadExisting := (\<lambda>org rows db. [\<lparr>erId = ''b1'', erValues = [(''email'', IvString ''bob@x.io''), (''name'', IvString ''Bob'')]\<rparr>])\<rparr>"

lemma two_rows_may_update_one_record:
  "map_sum id (\<lambda>p. map (\<lambda>w. (prAction w, prExistingId w)) (piRows p))
     (prepareImport exampleTwoKeys ''o1'' [''Email'', ''Name''] [[''bob@x.io'', []], [[], ''Bob'']]
        [\<lparr>meColumnIndex = 0, meFieldKey = Some ''email'', meCustom = None\<rparr>,
         \<lparr>meColumnIndex = 1, meFieldKey = Some ''name'', meCustom = None\<rparr>] exampleBookDb) =
   Inr [(RaUpdate, Some ''b1''), (RaUpdate, Some ''b1'')]"
  by code_simp

end
