(* ===== verification/ImportTarget.thy ===== *)
theory ImportTarget
  imports ImportSessionProofs
begin

text \<open>
  What a definition owes the wizard so that a re-import updates, as an interface: \<open>holds org db k\<close> says
  that some record of the organization has the identity key \<open>k\<close>. The lookup finds every held key that a
  row offers, a write keeps what is held and a new record holds the keys of its row. Then a row that
  landed is never created again by importing the same sheet.
\<close>

section \<open>What a prepared row is made of\<close>

definition rowContent :: "preparedRow \<Rightarrow> nat \<times> rowValues \<times> rowValues" where
  "rowContent w = (prRowNumber w, prValues w, prAllValues w)"

definition normalizedContent :: "numberedRow \<Rightarrow> nat \<times> rowValues \<times> rowValues" where
  "normalizedContent r = (fst r, nrValues (snd r), nrAllValues (snd r))"

lemma rowContent_rowOf: "normalizedContent (rowOf w) = rowContent w"
  by (simp add: normalizedContent_def rowOf_def rowContent_def)

lemma screening_content: "map normalizedContent (applyScreening def ps rs) = map normalizedContent rs"
  by (induction def ps rs rule: applyScreening.induct)
    (auto simp: normalizedContent_def split: list.splits option.splits)

lemma prepared_content:
  assumes "prepareImport def org columns rows mapping db = Inr p"
  shows "map rowContent (piRows p) =
    map normalizedContent (normalizeRows def (fst (resolveMapping mapping columns def)) rows)"
proof -
  let ?rs = "screenNormalized def org db (normalizeRows def (fst (resolveMapping mapping columns def)) rows)"
  obtain st where "prepareInv def (buildIdentityIndex (loadedFor def org db (piRows p)) (dfMatchBy def)) (length rows) ?rs st"
    "pzRows st = piRows p"
    using assms by (rule prepareImport_inv)
  then have rs: "map rowOf (piRows p) = ?rs" unfolding prepareInv_def by simp
  have "map rowContent (piRows p) = map normalizedContent (map rowOf (piRows p))"
    by (simp add: o_def rowContent_rowOf)
  also have "\<dots> = map normalizedContent (normalizeRows def (fst (resolveMapping mapping columns def)) rows)"
    unfolding rs by (simp add: screenNormalized_def Let_def screening_content split: option.splits)
  finally show ?thesis .
qed

lemma normalized_content_fits:
  assumes "distinct (map ifKey (dfFields def))" and "(i, vs, avs) \<in> set (map normalizedContent (normalizeRows def byColumn rows))"
  shows "rowFits def avs \<and> vs = targetValues def avs"
proof -
  from assms(2) obtain r where "(i, r) \<in> set (normalizeRows def byColumn rows)" "vs = nrValues r" "avs = nrAllValues r"
    by (auto simp: normalizedContent_def)
  moreover from this(1) obtain cells extras where "r = normalizeRow def cells extras"
    by (auto simp: normalizeRows_def split_beta in_set_zip)
  ultimately show ?thesis using normalizeRow_fits [OF assms(1)] normalizeRow_values by simp
qed

lemma prepared_row_fits:
  assumes "prepareImport def org columns rows mapping db = Inr p" and "distinct (map ifKey (dfFields def))"
    and "w \<in> set (piRows p)"
  shows "rowFits def (prAllValues w)" and "prValues w = targetValues def (prAllValues w)"
proof -
  have "rowContent w \<in> set (map rowContent (piRows p))" using assms(3) by simp
  then have "(prRowNumber w, prValues w, prAllValues w) \<in>
      set (map normalizedContent (normalizeRows def (fst (resolveMapping mapping columns def)) rows))"
    unfolding prepared_content [OF assms(1)] by (simp add: rowContent_def)
  from normalized_content_fits [OF assms(2) this]
  show "rowFits def (prAllValues w)" and "prValues w = targetValues def (prAllValues w)" by simp_all
qed

lemma same_number_same_values:
  assumes "prepareImport def org columns rows mapping db = Inr p" and "prepareImport def org columns rows mapping db' = Inr q"
    and "w \<in> set (piRows p)" and "v \<in> set (piRows q)" and "prRowNumber w = prRowNumber v"
  shows "prAllValues w = prAllValues v"
proof -
  let ?c = "map normalizedContent (normalizeRows def (fst (resolveMapping mapping columns def)) rows)"
  have "map fst ?c = map fst (normalizeRows def (fst (resolveMapping mapping columns def)) rows)"
    by (simp add: o_def normalizedContent_def)
  then have d: "distinct (map fst ?c)" by (simp add: normalize_numbers del: map_map)
  have "rowContent w \<in> set (map rowContent (piRows p))" "rowContent v \<in> set (map rowContent (piRows q))"
    using assms(3,4) by simp_all
  then have "rowContent w \<in> set ?c" "rowContent v \<in> set ?c"
    unfolding prepared_content [OF assms(1)] prepared_content [OF assms(2)] by simp_all
  with d assms(5) have "rowContent w = rowContent v"
    by (intro distinct_key_eq [OF d]) (simp_all add: rowContent_def)
  then show ?thesis by (simp add: rowContent_def)
qed

lemma valueOf_targetValues:
  assumes "distinct (map ifKey (dfFields def))" and "k \<in> ifKey ` set (targetFields def)"
  shows "valueOf (targetValues def values) k = valueOf values k"
proof -
  from assms(2) obtain f where f: "f \<in> set (targetFields def)" "k = ifKey f" by blast
  have "distinct (map fst (map (\<lambda>f. (ifKey f, valueOf values (ifKey f))) (targetFields def)))"
    using assms(1) by (simp add: o_def targetFields_def distinct_map_filter)
  moreover have "(k, valueOf values k) \<in> set (map (\<lambda>f. (ifKey f, valueOf values (ifKey f))) (targetFields def))"
    using f by auto
  ultimately have "map_of (map (\<lambda>f. (ifKey f, valueOf values (ifKey f))) (targetFields def)) k = Some (valueOf values k)"
    by (rule map_of_is_SomeI)
  then show ?thesis unfolding targetValues_eq [OF assms(1)] by (subst valueOf_def) simp
qed

lemma rowFits_targetValues:
  assumes "distinct (map ifKey (dfFields def))" and "rowFits def values"
  shows "rowFits def (targetValues def values)"
  unfolding rowFits_def list_all_iff
proof
  fix f assume f: "f \<in> set (dfFields def)"
  show "fits f (valueOf (targetValues def values) (ifKey f))"
  proof (cases "ifKey f \<in> ifKey ` set (targetFields def)")
    case True
    then show ?thesis using assms(2) f by (simp add: valueOf_targetValues [OF assms(1)] rowFits_def list_all_iff)
  next
    case False
    then have "map_of (map (\<lambda>f. (ifKey f, valueOf values (ifKey f))) (targetFields def)) (ifKey f) = None"
      by (simp add: map_of_eq_None_iff image_image)
    then show ?thesis by (simp add: valueOf_def targetValues_eq [OF assms(1)] fits_def)
  qed
qed

lemma tupleKey_cong: "(\<And>k. k \<in> set tuple \<Longrightarrow> valueOf v k = valueOf w k) \<Longrightarrow> tupleKey v i tuple = tupleKey w i tuple"
  by (simp add: tupleKey_def cong: map_cong)

lemma rowKeys_cong:
  assumes "\<And>t k. t \<in> set (dfMatchBy def) \<Longrightarrow> k \<in> set t \<Longrightarrow> valueOf v k = valueOf w k"
  shows "rowKeys def v = rowKeys def w"
proof -
  have "tupleKey v i t = tupleKey w i t" if "(i, t) \<in> set (zip [0..<length (dfMatchBy def)] (dfMatchBy def))" for i t
    using assms set_zip_rightD [OF that] by (intro tupleKey_cong) blast
  then show ?thesis
    unfolding rowKeys_def identityKeys_def by (auto simp: List.map_filter_def intro!: arg_cong [where f = "map the"] filter_cong map_cong)
qed

lemma landing_valid:
  assumes "prepareImport def org columns rows mapping db = Inr p" and "w \<in> set (piRows p)" and "landing w"
  shows "prErrors w = []"
proof -
  let ?rs = "screenNormalized def org db (normalizeRows def (fst (resolveMapping mapping columns def)) rows)"
  obtain st where "prepareInv def (buildIdentityIndex (loadedFor def org db (piRows p)) (dfMatchBy def)) (length rows) ?rs st"
    "pzRows st = piRows p"
    using assms(1) by (rule prepareImport_inv)
  then have "list_all (decided def (buildIdentityIndex (loadedFor def org db (piRows p)) (dfMatchBy def))) (piRows p)"
    unfolding prepareInv_def by simp
  with assms(2,3) show ?thesis by (auto simp: list_all_iff decided_def landing_def split: if_splits)
qed

text \<open>A valid row lands, or repeats a row that does.\<close>

lemma valid_row_lands:
  assumes "prepareImport def org columns rows mapping db = Inr p" and "w \<in> set (piRows p)" and "prErrors w = []"
  shows "\<exists>v\<in>set (piRows p). landing v \<and> (v = w \<or>
    set (rowKeys def (prAllValues v)) \<inter> set (rowKeys def (prAllValues w)) \<noteq> {})"
proof -
  let ?rs = "screenNormalized def org db (normalizeRows def (fst (resolveMapping mapping columns def)) rows)"
  obtain st where inv: "prepareInv def (buildIdentityIndex (loadedFor def org db (piRows p)) (dfMatchBy def)) (length rows) ?rs st"
    "pzRows st = piRows p"
    using assms(1) by (rule prepareImport_inv)
  show ?thesis
  proof (cases "prDuplicateOfRow w")
    case None
    with inv assms(2,3) have "landing w" by (auto simp: prepareInv_def list_all_iff decided_def landing_def)
    with assms(2) show ?thesis by blast
  next
    case (Some i)
    with inv assms(2) show ?thesis unfolding prepareInv_def by metis
  qed
qed

lemma prepared_creates:
  "prepareImport def org columns rows mapping db = Inr p \<Longrightarrow> pcCreate (piCounts p) = length (filter (\<lambda>w. prAction w = RaCreate) (piRows p))"
  by (erule prepareImport_inv) (auto simp: prepareInv_def countRows_def)

lemma prepared_rows:
  assumes "prepareImport def org columns rows mapping db = Inr p"
  shows "map rowOf (piRows p) = screenNormalized def org db (normalizeRows def (fst (resolveMapping mapping columns def)) rows)"
  using assms by (rule prepareImport_inv) (simp add: prepareInv_def)

text \<open>What the screening of a definition says about a row that passes it.\<close>

lemma applyScreening_passed:
  "r \<in> set (applyScreening def ps rs) \<Longrightarrow> rowValid r \<Longrightarrow> length ps = length (filter rowValid rs) \<Longrightarrow>
     (None, r) \<in> set (zip ps (filter rowValid rs))"
proof (induction def ps rs rule: applyScreening.induct)
  case (2 def ps r0 rs)
  show ?case
  proof (cases "rowValid r0")
    case True
    with "2.prems"(3) obtain q ps' where ps: "ps = q # ps'" by (cases ps) auto
    show ?thesis
    proof (cases q)
      case None
      with True ps 2 show ?thesis by auto
    next
      case (Some m)
      with True ps 2 show ?thesis by (auto simp: rowValid_def)
    qed
  next
    case False
    with 2 show ?thesis by auto
  qed
qed simp

lemma prepared_row_passed:
  assumes "prepareImport def org columns rows mapping db = Inr p" and "w \<in> set (piRows p)" and "prErrors w = []"
    and "dfScreenRows def = Some screen" and "\<And>offered. length (screen org offered db) = length offered"
  obtains offered where "(None, prAllValues w) \<in> set (zip (screen org offered db) offered)"
proof -
  let ?ns = "normalizeRows def (fst (resolveMapping mapping columns def)) rows"
  let ?cs = "filter rowValid ?ns"
  obtain st where "prepareInv def (buildIdentityIndex (loadedFor def org db (piRows p)) (dfMatchBy def)) (length rows)
      (screenNormalized def org db ?ns) st" "pzRows st = piRows p"
    using assms(1) by (rule prepareImport_inv)
  then have "map rowOf (piRows p) = screenNormalized def org db ?ns" unfolding prepareInv_def by simp
  with assms(2) have inn: "rowOf w \<in> set (screenNormalized def org db ?ns)" by (metis image_eqI list.set_map)
  have valid: "rowValid (rowOf w)" using assms(3) by (simp add: rowValid_def rowOf_def)
  have "?cs \<noteq> []"
  proof
    assume "?cs = []"
    with inn have "rowOf w \<in> set ?ns" by (simp add: screenNormalized_def assms(4))
    with valid \<open>?cs = []\<close> show False by (simp add: filter_empty_conv)
  qed
  with inn have "rowOf w \<in> set (applyScreening def (screen org (map (\<lambda>r. nrAllValues (snd r)) ?cs) db) ?ns)"
    by (simp add: screenNormalized_def assms(4))
  then have z: "(None, rowOf w) \<in> set (zip (screen org (map (\<lambda>r. nrAllValues (snd r)) ?cs) db) ?cs)"
    by (rule applyScreening_passed [OF _ valid]) (simp add: assms(5))
  have "(None, nrAllValues (snd (rowOf w))) \<in>
      set (zip (screen org (map (\<lambda>r. nrAllValues (snd r)) ?cs) db) (map (\<lambda>r. nrAllValues (snd r)) ?cs))"
    using z by (force simp: zip_map2)
  then show ?thesis using that by (simp add: rowOf_def)
qed

section \<open>The interface\<close>

locale import_target =
  fixes def :: "'db importDefinition" and sound :: "'db \<Rightarrow> bool" and holds :: "uuid \<Rightarrow> 'db \<Rightarrow> string \<Rightarrow> bool"
  assumes keys: "distinct (map ifKey (dfFields def))"
    and matched: "t \<in> set (dfMatchBy def) \<Longrightarrow> set t \<subseteq> ifKey ` set (targetFields def)"
    and load_ids: "sound db \<Longrightarrow> r \<in> set (dfLoadExisting def org offered db) \<Longrightarrow> erId r \<noteq> []"
    and load_finds: "\<lbrakk>sound db; v \<in> set offered; rowFits def v; k \<in> set (rowKeys def v); holds org db k\<rbrakk> \<Longrightarrow>
      \<exists>r\<in>set (dfLoadExisting def org offered db). k \<in> set (rowKeys def (erValues r))"
    and load_holds: "\<lbrakk>sound db; r \<in> set (dfLoadExisting def org offered db); k \<in> set (rowKeys def (erValues r))\<rbrakk> \<Longrightarrow> holds org db k"
    and upsert_sound: "\<lbrakk>sound db; rowFits def (urValues u); i \<noteq> []; dfUpsertRow def i u db = Inr (db', j)\<rbrakk> \<Longrightarrow> sound db'"
    and upsert_keeps: "\<lbrakk>dfUpsertRow def i u db = Inr (db', j); holds org db k\<rbrakk> \<Longrightarrow> holds org db' k"
    and upsert_new: "\<lbrakk>urExistingId u = None; rowFits def (urValues u); dfUpsertRow def i u db = Inr (db', j);
      k \<in> set (rowKeys def (urValues u))\<rbrakk> \<Longrightarrow> holds (urOrg u) db' k"
begin

lemma rowKeys_target: "rowKeys def (targetValues def v) = rowKeys def v"
proof (rule rowKeys_cong)
  fix t k assume "t \<in> set (dfMatchBy def)" "k \<in> set t"
  with matched have "k \<in> ifKey ` set (targetFields def)" by blast
  then show "valueOf (targetValues def v) k = valueOf v k" by (rule valueOf_targetValues [OF keys])
qed

text \<open>An update of a prepared import names a record that holds one of the row's keys; a create has none.\<close>

lemma prepared_action:
  assumes "sound db" and "prepareImport def org columns rows mapping db = Inr p" and "w \<in> set (piRows p)" and "landing w"
  shows "case prExistingId w of
      None \<Rightarrow> prAction w = RaCreate \<and> (\<forall>k\<in>set (rowKeys def (prAllValues w)). \<not> holds org db k)
    | Some i \<Rightarrow> prAction w = RaUpdate \<and> (\<exists>k\<in>set (rowKeys def (prAllValues w)). holds org db k)"
proof -
  let ?l = "loadedFor def org db (piRows p)"
  let ?rs = "screenNormalized def org db (normalizeRows def (fst (resolveMapping mapping columns def)) rows)"
  obtain st where inv: "prepareInv def (buildIdentityIndex ?l (dfMatchBy def)) (length rows) ?rs st" "pzRows st = piRows p"
    using assms(2) by (rule prepareImport_inv)
  then have "list_all (decided def (buildIdentityIndex ?l (dfMatchBy def))) (piRows p)" unfolding prepareInv_def by simp
  with assms(3,4) have d: "prErrors w = []" "prExistingId w = lookupIdentity (buildIdentityIndex ?l (dfMatchBy def)) (dfMatchBy def) (prAllValues w)"
    "prAction w = (if prExistingId w = None then RaCreate else RaUpdate)"
    by (auto simp: list_all_iff decided_def landing_def split: if_splits)
  from d(1) assms(3) have offered: "prAllValues w \<in> set (offeredRows (piRows p))" by (auto simp: offeredRows_def)
  then have l: "?l = dfLoadExisting def org (offeredRows (piRows p)) db" by (auto simp: loadedFor_def)
  have "\<forall>r\<in>set ?l. erId r \<noteq> []" unfolding l using load_ids [OF assms(1)] by blast
  note look = lookup_iff [OF this, of "dfMatchBy def" "prAllValues w", folded d(2) rowKeys_def]
  note fit = prepared_row_fits(1) [OF assms(2) keys assms(3)]
  show ?thesis
  proof (cases "prExistingId w")
    case None
    with look have "set (rowKeys def (erValues r)) \<inter> set (rowKeys def (prAllValues w)) = {}" if "r \<in> set ?l" for r
      using that by simp
    then have "\<not> holds org db k" if "k \<in> set (rowKeys def (prAllValues w))" for k
      using load_finds [OF assms(1) offered fit that] that unfolding l by blast
    with None d(3) show ?thesis by simp
  next
    case (Some i)
    with look obtain r k where "r \<in> set ?l" "k \<in> set (rowKeys def (erValues r))" "k \<in> set (rowKeys def (prAllValues w))" by auto
    with load_holds [OF assms(1)] have "holds org db k" unfolding l by blast
    with Some d(3) \<open>k \<in> set (rowKeys def (prAllValues w))\<close> show ?thesis by auto
  qed
qed

lemma writeRows_hold:
  assumes "writeRows (upsertPrepared def newId session user a) ws db = Inr (db', written)"
    and "sound db" and "\<And>n. newId n \<noteq> []"
    and "\<And>w. w \<in> set ws \<Longrightarrow> rowFits def (prAllValues w) \<and> prValues w = targetValues def (prAllValues w) \<and>
      (prExistingId w \<noteq> None \<longrightarrow> (\<exists>k\<in>set (rowKeys def (prAllValues w)). holds (imOrg session) db k))"
  shows "sound db' \<and> (\<forall>org k. holds org db k \<longrightarrow> holds org db' k) \<and>
    (\<forall>w\<in>set ws. rowKeys def (prAllValues w) \<noteq> [] \<longrightarrow> (\<exists>k\<in>set (rowKeys def (prAllValues w)). holds (imOrg session) db' k))"
  using assms
proof (induction ws arbitrary: db written)
  case (Cons w ws)
  let ?u = "\<lparr>urOrg = imOrg session, urUser = user, urValues = prValues w, urExtras = prExtras w,
        urExistingId = prExistingId w, urRowNumber = prRowNumber w, urAttestation = a, urSessionId = imId session\<rparr>"
  from Cons.prems(1) obtain db1 i written1 where
    up: "dfUpsertRow def (newId (prRowNumber w)) ?u db = Inr (db1, i)"
    and rest: "writeRows (upsertPrepared def newId session user a) ws db1 = Inr (db', written1)"
    by (auto simp: upsertPrepared_def [of def newId session user a w] split: sum.splits prod.splits)
  have w: "rowFits def (prAllValues w)" "prValues w = targetValues def (prAllValues w)"
    "prExistingId w \<noteq> None \<longrightarrow> (\<exists>k\<in>set (rowKeys def (prAllValues w)). holds (imOrg session) db k)"
    using Cons.prems(4) by auto
  have fit: "rowFits def (urValues ?u)" using w by (simp add: rowFits_targetValues [OF keys])
  have kept: "holds org db1 k" if "holds org db k" for org k using upsert_keeps [OF up that] .
  have "sound db1" using upsert_sound [OF Cons.prems(2) fit Cons.prems(3) up] .
  then have ih: "sound db' \<and> (\<forall>org k. holds org db1 k \<longrightarrow> holds org db' k) \<and>
      (\<forall>w\<in>set ws. rowKeys def (prAllValues w) \<noteq> [] \<longrightarrow> (\<exists>k\<in>set (rowKeys def (prAllValues w)). holds (imOrg session) db' k))"
    by (rule Cons.IH [OF rest _ Cons.prems(3)]) (use Cons.prems(4) kept in \<open>meson list.set_intros(2)\<close>)
  have "\<exists>k\<in>set (rowKeys def (prAllValues w)). holds (imOrg session) db1 k" if "rowKeys def (prAllValues w) \<noteq> []"
  proof (cases "prExistingId w")
    case None
    from that obtain k where "k \<in> set (rowKeys def (prAllValues w))" by (meson last_in_set)
    with upsert_new [OF _ fit up] None w(2) show ?thesis by (auto simp: rowKeys_target)
  next
    case (Some i)
    with w(3) kept show ?thesis by blast
  qed
  with ih kept show ?case by (auto, blast)
qed simp

text \<open>After the write the tables are sound, and every row that landed holds a key.\<close>

lemma landed_hold:
  assumes "sound db" and "prepareImport def org columns rows mapping db = Inr p" and "imOrg session = org"
    and "writeRows (upsertPrepared def newId session user a) (rowsToWrite (piRows p)) db = Inr (db', written)"
    and "\<And>n. newId n \<noteq> []"
  shows "sound db' \<and> (\<forall>org k. holds org db k \<longrightarrow> holds org db' k) \<and> (\<forall>w\<in>set (piRows p). landing w \<longrightarrow>
    rowKeys def (prAllValues w) \<noteq> [] \<longrightarrow> (\<exists>k\<in>set (rowKeys def (prAllValues w)). holds org db' k))"
proof -
  have "rowFits def (prAllValues x) \<and> prValues x = targetValues def (prAllValues x) \<and>
    (prExistingId x \<noteq> None \<longrightarrow> (\<exists>k\<in>set (rowKeys def (prAllValues x)). holds (imOrg session) db k))"
    if "x \<in> set (rowsToWrite (piRows p))" for x
  proof -
    from that have x: "x \<in> set (piRows p)" "landing x" by (auto simp: rowsToWrite_def landing_def)
    from prepared_action [OF assms(1,2) x] prepared_row_fits [OF assms(2) keys x(1)] assms(3)
    show ?thesis by (auto split: option.splits)
  qed
  note held = writeRows_hold [OF assms(4,1,5) this]
  show ?thesis
    by (intro conjI ballI impI) (use held assms(3) in \<open>auto simp: rowsToWrite_def landing_def\<close>)
qed

text \<open>A row that offers a held key is not created.\<close>

lemma held_row_is_no_create:
  assumes "sound db" and "prepareImport def org columns rows mapping db = Inr q" and "v \<in> set (piRows q)"
    and "k \<in> set (rowKeys def (prAllValues v))" and "holds org db k"
  shows "prAction v \<noteq> RaCreate"
proof
  assume create: "prAction v = RaCreate"
  then have "landing v" by (simp add: landing_def)
  from prepared_action [OF assms(1,2,3) this] create assms(4,5) show False by (auto split: option.splits)
qed

end

end
