(* ===== verification/ContactsProofs.thy ===== *)
theory ContactsProofs
  imports Contacts ImportTarget
begin

text \<open>
  What the doors of a mailing list promise: an import adds only screened addresses, changes nothing about
  the people who are already on the list but their names, and updates when it is repeated; a sign-up opts
  back in the person who asked, and nobody else.
\<close>

section \<open>Addresses as identities\<close>

lemma no_space_text:
  assumes "list_all (\<lambda>c. \<not> jsSpace c) s"
  shows "trim s = s" and "collapseSpaces s = s"
proof -
  from assms show "trim s = s"
    by (intro trim_id) (cases s, simp, simp add: list_all_iff last_in_set)
  from assms show "collapseSpaces s = s" by (induction s) auto
qed

lemma import_email_chars:
  assumes "IMPORT_EMAIL_RE s"
  shows "list_all (\<lambda>c. \<not> jsSpace c) s" and "s \<noteq> []"
proof -
  from assms obtain local domain where at: "splitFirst (CHR ''@'') s = Some (local, domain)"
    by (auto simp: IMPORT_EMAIL_RE_def split: option.splits)
  with assms obtain host tld where dot: "splitFirst (CHR ''.'') domain = Some (host, tld)"
    and chars: "list_all emailChar local" "list_all emailChar host" "list_all emailChar tld"
    by (auto simp: IMPORT_EMAIL_RE_def split: option.splits)
  have split: "s = a @ c # b" if "splitFirst c s = Some (a, b)" for c s a b
  proof -
    from that have c: "c \<in> set s" and ab: "a = takeWhile (\<lambda>x. x \<noteq> c) s" "b = drop 1 (dropWhile (\<lambda>x. x \<noteq> c) s)"
      by (auto simp: splitFirst_def split: if_splits)
    from split_list_first [OF c] obtain ys zs where "s = ys @ c # zs" "c \<notin> set ys" by blast
    with ab show ?thesis by (simp add: takeWhile_sep dropWhile_sep)
  qed
  from split [OF at] split [OF dot] have "s = local @ CHR ''@'' # host @ CHR ''.'' # tld" by simp
  with chars show "list_all (\<lambda>c. \<not> jsSpace c) s" and "s \<noteq> []"
    by (auto simp: list_all_iff emailChar_def jsSpace_def)
qed

definition emailToken :: "string \<Rightarrow> bool" where
  "emailToken e \<longleftrightarrow> e \<noteq> [] \<and> list_all (\<lambda>c. \<not> jsSpace c) e \<and> toLowerCase e = e"

lemma emailToken_identity: "emailToken e \<Longrightarrow> identityToken (IvString e) = e \<and> normalizeAddress e = e"
  by (simp add: emailToken_def identityToken_def normalizeAddress_def no_space_text)

definition emailKey :: "string \<Rightarrow> string" where
  "emailKey e = decimal 0 @ NUL # e"

lemma emailKey_inject [simp]: "emailKey e = emailKey f \<longleftrightarrow> e = f"
  by (simp add: emailKey_def)

lemma contactsDef_simps [simp]:
  "dfFields (contactsImportDefinition env) = CONTACT_FIELDS"
  "dfMatchBy (contactsImportDefinition env) = [[''email'']]"
  "dfScreenRows (contactsImportDefinition env) = Some (contactsScreenRows env)"
  "dfLoadExisting (contactsImportDefinition env) = contactsLoadExisting"
  "dfUpsertRow (contactsImportDefinition env) = contactsUpsertRow env"
  "dfAttestation (contactsImportDefinition env) = Some CONTACT_IMPORT_ATTESTATION"
  "dfName (contactsImportDefinition env) = CONTACTS_IMPORT_NAME"
  by (simp_all add: contactsImportDefinition_def)

lemma contacts_rowKeys:
  "rowKeys (contactsImportDefinition env) v =
     (let t = identityToken (valueOf v ''email'') in if t = [] then [] else [emailKey t])"
  by (simp add: rowKeys_def identityKeys_def tupleKey_def emailKey_def Let_def)

lemma contacts_email_fits:
  assumes "rowFits (contactsImportDefinition env) v"
  shows "valueOf v ''email'' = IvNull \<or> (\<exists>e. valueOf v ''email'' = IvString e \<and> emailToken e)"
proof -
  from assms have "fits (hd CONTACT_FIELDS) (valueOf v (ifKey (hd CONTACT_FIELDS)))"
    by (simp add: rowFits_def CONTACT_FIELDS_def)
  then show ?thesis
    using import_email_chars by (auto simp: fits_def CONTACT_FIELDS_def contactField_def emailToken_def)
qed

text \<open>What is written as the address of a new contact (\<^verbatim>\<open>String(null)\<close> for an empty cell, which no valid row has).\<close>

lemma contacts_email_written:
  assumes "rowFits (contactsImportDefinition env) v"
  shows "emailToken (normalizeAddress (valueText (valueOf v ''email'')))"
  using contacts_email_fits [OF assms] emailToken_identity
  by (auto simp: emailToken_def normalizeAddress_def) (code_simp+)

lemma concat_chunksOf: "0 < n \<Longrightarrow> concat (chunksOf n xs) = xs"
  by (induction n xs rule: chunksOf.induct) (subst chunksOf.simps, simp)

lemma in_chunk: "x \<in> set xs \<Longrightarrow> \<exists>ch\<in>set (chunksOf 1000 xs). x \<in> set ch"
  using concat_chunksOf [of 1000 xs] by (metis UN_iff set_concat zero_less_numeral)

lemma chunk_subset: "ch \<in> set (chunksOf 1000 xs) \<Longrightarrow> set ch \<subseteq> set xs"
  using concat_chunksOf [of 1000 xs] by (metis UN_upper set_concat zero_less_numeral)

lemma set_uniq [simp]: "set (uniq xs) = set xs"
  by (simp add: uniq_def)

text \<open>The records a lookup loads: the contacts of the organization with one of the addresses.\<close>

lemma set_contactsLoadExisting:
  "set (contactsLoadExisting org offered db) =
     {\<lparr>erId = ctId c, erValues = [(''email'', IvString (ctEmail c))]\<rparr> | c.
        c \<in> set (contacts db) \<and> ctOrg c = org \<and> ctEmail c \<noteq> [] \<and> ctEmail c \<in> rowEmail ` set offered}"
proof -
  let ?es = "uniq (filter (\<lambda>e. e \<noteq> []) (map rowEmail offered))"
  let ?mine = "\<lambda>E. {c. c \<in> set (contacts db) \<and> ctOrg c = org \<and> ctEmail c \<in> E}"
  have "(\<Union>ch\<in>set (chunksOf 1000 ?es). ?mine (set ch)) = ?mine (\<Union>ch\<in>set (chunksOf 1000 ?es). set ch)" by blast
  also have "(\<Union>ch\<in>set (chunksOf 1000 ?es). set ch) = set ?es"
    using in_chunk [of _ ?es] chunk_subset [of _ ?es] by blast
  also have "set ?es = {e. e \<noteq> [] \<and> e \<in> rowEmail ` set offered}" by auto
  finally show ?thesis
    by (simp add: contactsLoadExisting_def Let_def setcompr_eq_image del: set_uniq)
qed

section \<open>The contacts import as a target of the wizard\<close>

definition contactsSound :: "mailDb \<Rightarrow> bool" where
  "contactsSound db \<longleftrightarrow> (\<forall>c\<in>set (contacts db). ctId c \<noteq> [] \<and> emailToken (ctEmail c))"

definition contactHeld :: "uuid \<Rightarrow> mailDb \<Rightarrow> string \<Rightarrow> bool" where
  "contactHeld org db k \<longleftrightarrow> (\<exists>c\<in>set (contacts db). ctOrg c = org \<and> emailKey (ctEmail c) = k)"

lemma setNames_simps [simp]:
  "ctOrg (setNames f l c) = ctOrg c" "ctEmail (setNames f l c) = ctEmail c" "ctId (setNames f l c) = ctId c"
  "ctStatus (setNames f l c) = ctStatus c"
  by (simp_all add: setNames_def)

text \<open>The two ways a row of the import is written.\<close>

lemma contactsUpsert_cases:
  assumes "contactsUpsertRow env i u db = Inr (db', j)"
  obtains (update) e f l where "urExistingId u = Some e" "e \<noteq> []" "j = e"
      "db' = db\<lparr>contacts := updateWhere (\<lambda>c. ctId c = e \<and> ctOrg c = urOrg u) (setNames f l) (contacts db)\<rparr>"
    | (create) a f l c where "\<not> truthy (urExistingId u)" "urAttestation u = Some a" "j = i"
      "c = consentColumns a ((newContact i (ceNow env) (urOrg u) (normalizeAddress (valueText (valueOf (urValues u) ''email''))) f l OImport)
             \<lparr>ctImportSessionId := Some (urSessionId u)\<rparr>)"
      "\<not> contactClash c db" "db' = db\<lparr>contacts := contacts db @ [c]\<rparr>"
proof -
  from assms obtain a where a: "urAttestation u = Some a"
    by (cases "urAttestation u") (simp_all add: contactsUpsertRow_def)
  note upsert = assms [unfolded contactsUpsertRow_def a option.case Let_def]
  show ?thesis
  proof (cases "truthy (urExistingId u)")
    case True
    then obtain e where e: "urExistingId u = Some e" "e \<noteq> []" by (auto simp: truthy_def split: option.splits)
    show ?thesis
      by (rule update [OF e, where f = "cleanName (textValue (valueOf (urValues u) ''firstName''))"
            and l = "cleanName (textValue (valueOf (urValues u) ''lastName''))"])
        (use upsert True e(1) in \<open>auto split: if_splits\<close>)
  next
    case False
    show ?thesis by (rule create [OF False a _ refl]) (use upsert False in \<open>auto split: if_splits\<close>)
  qed
qed

lemma consent_simps [simp]:
  "ctEmail (consentColumns a c) = ctEmail c" "ctOrg (consentColumns a c) = ctOrg c" "ctId (consentColumns a c) = ctId c"
  by (simp_all add: consentColumns_def)

lemma newContact_simps [simp]:
  "ctEmail (newContact i now org e f l g) = e" "ctOrg (newContact i now org e f l g) = org" "ctId (newContact i now org e f l g) = i"
  by (simp_all add: newContact_def)

lemma contactHeld_update [simp]:
  "contactHeld org (db\<lparr>contacts := updateWhere p (setNames f l) (contacts db)\<rparr>) k = contactHeld org db k"
  by (auto simp: contactHeld_def updateWhere_def bex_Un)

lemma contact_fields: "distinct (map ifKey (dfFields (contactsImportDefinition env)))"
  by (simp add: CONTACT_FIELDS_def contactField_def)

lemma written_email:
  assumes "rowFits (contactsImportDefinition env) v" and "k \<in> set (rowKeys (contactsImportDefinition env) v)"
  obtains e where "valueOf v ''email'' = IvString e" "emailToken e" "k = emailKey e"
  using contacts_email_fits [OF assms(1)] assms(2) emailToken_identity
  by (auto simp: contacts_rowKeys Let_def identityToken_def split: if_splits)

interpretation contacts: import_target "contactsImportDefinition env" contactsSound contactHeld for env
proof
  show "distinct (map ifKey (dfFields (contactsImportDefinition env)))" by (rule contact_fields)
next
  fix t assume "t \<in> set (dfMatchBy (contactsImportDefinition env))"
  then show "set t \<subseteq> ifKey ` set (targetFields (contactsImportDefinition env))"
    by (simp add: targetFields_def CONTACT_FIELDS_def contactField_def)
next
  fix db r org offered
  assume "contactsSound db" "r \<in> set (dfLoadExisting (contactsImportDefinition env) org offered db)"
  then show "erId r \<noteq> []"
    by (auto simp: set_contactsLoadExisting contactsSound_def)
next
  fix db v offered k org
  assume sound: "contactsSound db" and v: "v \<in> set offered" and fit: "rowFits (contactsImportDefinition env) v"
    and k: "k \<in> set (rowKeys (contactsImportDefinition env) v)" and held: "contactHeld org db k"
  from fit k obtain e where e: "valueOf v ''email'' = IvString e" "emailToken e" "k = emailKey e" by (rule written_email)
  from held e(3) obtain c where c: "c \<in> set (contacts db)" "ctOrg c = org" "ctEmail c = e" by (auto simp: contactHeld_def)
  let ?r = "\<lparr>erId = ctId c, erValues = [(''email'', IvString e)]\<rparr>"
  have "rowEmail v = e" by (simp add: rowEmail_def e(1))
  with v have "e \<in> rowEmail ` set offered" by blast
  with c e(2) have "?r \<in> set (contactsLoadExisting org offered db)"
    unfolding set_contactsLoadExisting by (auto simp: emailToken_def intro!: exI [of _ c])
  moreover have "k \<in> set (rowKeys (contactsImportDefinition env) (erValues ?r))"
    using e(2,3) emailToken_identity [OF e(2)] by (simp add: contacts_rowKeys Let_def valueOf_def emailToken_def)
  ultimately show "\<exists>r\<in>set (dfLoadExisting (contactsImportDefinition env) org offered db).
      k \<in> set (rowKeys (contactsImportDefinition env) (erValues r))"
    unfolding contactsDef_simps by (rule_tac bexI)
next
  fix db r org offered k
  assume sound: "contactsSound db" and r: "r \<in> set (dfLoadExisting (contactsImportDefinition env) org offered db)"
    and k: "k \<in> set (rowKeys (contactsImportDefinition env) (erValues r))"
  from r obtain c where c: "c \<in> set (contacts db)" "ctOrg c = org" "erValues r = [(''email'', IvString (ctEmail c))]"
    by (auto simp: set_contactsLoadExisting)
  with sound have "identityToken (IvString (ctEmail c)) = ctEmail c" by (auto simp: contactsSound_def emailToken_identity)
  with k c show "contactHeld org db k"
    by (auto simp: contacts_rowKeys Let_def valueOf_def contactHeld_def split: if_splits)
next
  fix db u i db' j
  assume sound: "contactsSound db" and fit: "rowFits (contactsImportDefinition env) (urValues u)" and i: "i \<noteq> []"
    and "dfUpsertRow (contactsImportDefinition env) i u db = Inr (db', j)"
  then have "contactsUpsertRow env i u db = Inr (db', j)" by simp
  then show "contactsSound db'"
  proof (cases rule: contactsUpsert_cases)
    case (update e f l)
    then show ?thesis using sound by (auto simp: contactsSound_def updateWhere_def)
  next
    case (create a f l c)
    with sound i contacts_email_written [OF fit] show ?thesis by (auto simp: contactsSound_def)
  qed
next
  fix u i db db' j org k
  assume "dfUpsertRow (contactsImportDefinition env) i u db = Inr (db', j)" and held: "contactHeld org db k"
  then have "contactsUpsertRow env i u db = Inr (db', j)" by simp
  then show "contactHeld org db' k"
  proof (cases rule: contactsUpsert_cases)
    case (update e f l)
    then show ?thesis using held by simp
  next
    case (create a f l c)
    then show ?thesis using held by (auto simp: contactHeld_def)
  qed
next
  fix u i db db' j k
  assume new: "urExistingId u = None" and fit: "rowFits (contactsImportDefinition env) (urValues u)"
    and "dfUpsertRow (contactsImportDefinition env) i u db = Inr (db', j)"
    and k: "k \<in> set (rowKeys (contactsImportDefinition env) (urValues u))"
  then have "contactsUpsertRow env i u db = Inr (db', j)" by simp
  then show "contactHeld (urOrg u) db' k"
  proof (cases rule: contactsUpsert_cases)
    case (update e f l)
    then show ?thesis using new by simp
  next
    case (create a f l c)
    from fit k obtain e where "valueOf (urValues u) ''email'' = IvString e" "emailToken e" "k = emailKey e"
      by (rule written_email)
    with create emailToken_identity show ?thesis by (auto simp: contactHeld_def)
  qed
qed

section \<open>Screening\<close>

text \<open>An address that the hygiene accepts and no suppression of the workspace or the whole app names.\<close>

definition mayBeListed :: "uuid \<Rightarrow> mailDb \<Rightarrow> string \<Rightarrow> bool" where
  "mayBeListed org db e \<longleftrightarrow>
     hygieneProblem e = None \<and> list_all (\<lambda>s. spEmail s = e \<longrightarrow> spOrg s \<noteq> None \<and> spOrg s \<noteq> Some org) (suppressions db)"

lemma suppressedReason_None:
  assumes "suppressedReason org db emails e = None" and "e \<in> set emails"
  shows "list_all (\<lambda>s. spEmail s = e \<longrightarrow> spOrg s \<noteq> None \<and> spOrg s \<noteq> Some org) (suppressions db)"
proof -
  from in_chunk [OF assms(2)] obtain ch where ch: "ch \<in> set (chunksOf 1000 emails)" "e \<in> set ch" by blast
  have "e \<notin> spEmail ` (\<Union>ch\<in>set (chunksOf 1000 emails). set (suppressionHits org db ch))"
    using assms(1) by (simp add: suppressedReason_def map_of_eq_None_iff image_image)
  with ch(1) have "s \<notin> set (suppressionHits org db ch)" if "spEmail s = e" for s using that by blast
  with ch(2) show ?thesis by (auto simp: suppressionHits_def list_all_iff)
qed

lemma screenAddresses_length [simp]: "length (screenAddresses env org emails db) = length emails"
  by (simp add: screenAddresses_def Let_def)

lemma screenAddresses_passed:
  assumes "(None, raw) \<in> set (zip (screenAddresses env org emails db) emails)"
  shows "hygieneProblem raw = None \<and>
    list_all (\<lambda>s. spEmail s = normalizeAddress raw \<longrightarrow> spOrg s \<noteq> None \<and> spOrg s \<noteq> Some org) (suppressions db)"
proof -
  let ?ok = "map normalizeAddress (filter (\<lambda>e. hygieneProblem e = None) emails)"
  have graph: "raw \<in> set emails \<and> g raw = None" if "(None, raw) \<in> set (zip (map g emails) emails)" for g
    using that by (auto simp: zip_map1 zip_same_conv_map)
  show ?thesis
  proof (cases "?ok = []")
    case True
    then have bad: "hygieneProblem x \<noteq> None" if "x \<in> set emails" for x using that by (auto simp: filter_empty_conv)
    from True assms have "raw \<in> set emails \<and> hygieneProblem raw = None"
      by (intro graph) (simp add: screenAddresses_def)
    with bad show ?thesis by blast
  next
    case False
    from graph [OF assms [unfolded screenAddresses_def Let_def if_not_P [OF False]]]
    have raw: "raw \<in> set emails" "hygieneProblem raw = None" "suppressedReason org db ?ok (normalizeAddress raw) = None"
      by (auto split: option.splits)
    then show ?thesis using suppressedReason_None [OF raw(3)] by auto
  qed
qed

lemma prepared_contact:
  assumes "prepareImport (contactsImportDefinition env) org columns rows mapping db = Inr p"
    and "w \<in> set (piRows p)" and "prErrors w = []"
  obtains e where "valueOf (prAllValues w) ''email'' = IvString e" "valueOf (prValues w) ''email'' = IvString e"
    "emailToken e" "mayBeListed org db e"
proof -
  from prepared_row_passed [OF assms contactsDef_simps(3)] obtain offered where
    "(None, prAllValues w) \<in> set (zip (contactsScreenRows env org offered db) offered)"
    by (auto simp: contactsScreenRows_def)
  then have "(None, rowEmail (prAllValues w)) \<in> set (zip (screenAddresses env org (map rowEmail offered) db) (map rowEmail offered))"
    by (force simp: contactsScreenRows_def zip_map1 zip_map2)
  note passed = screenAddresses_passed [OF this]
  have "hygieneProblem [] \<noteq> None" by code_simp
  with passed have "rowEmail (prAllValues w) \<noteq> []" by metis
  moreover note fit = prepared_row_fits [OF assms(1) contact_fields assms(2)]
  ultimately obtain e where e: "valueOf (prAllValues w) ''email'' = IvString e" "emailToken e"
    using contacts_email_fits [OF fit(1)] by (auto simp: rowEmail_def)
  moreover have "valueOf (prValues w) ''email'' = valueOf (prAllValues w) ''email''"
    unfolding fit(2) by (rule valueOf_targetValues [OF contact_fields])
      (simp add: targetFields_def CONTACT_FIELDS_def contactField_def)
  moreover have "rowEmail (prAllValues w) = e" using e(1) by (simp add: rowEmail_def)
  ultimately show ?thesis
    using that passed emailToken_identity [OF e(2)] by (simp add: mayBeListed_def)
qed

section \<open>What an import does to a list\<close>

definition sameButNames :: "contactRow \<Rightarrow> contactRow \<Rightarrow> bool" where
  "sameButNames c c' \<longleftrightarrow> c' = c\<lparr>ctFirstName := ctFirstName c', ctLastName := ctLastName c'\<rparr>"

lemma sameButNames_refl [simp]: "sameButNames c c"
  by (simp add: sameButNames_def)

lemma sameButNames_setNames [simp]: "sameButNames c (setNames f l c)"
  by (simp add: sameButNames_def setNames_def)

lemma sameButNames_trans: "sameButNames a b \<Longrightarrow> sameButNames b c \<Longrightarrow> sameButNames a c"
  by (cases a; cases b; cases c) (simp add: sameButNames_def)

lemma sameButNames_key: "sameButNames c c' \<Longrightarrow> contactKey c' = contactKey c"
  by (cases c; cases c') (simp add: sameButNames_def contactKey_def)

text \<open>
  The rows that were there are still there, in order, with at most their names changed and only in this
  workspace; the rows added satisfy \<open>P\<close>.
\<close>

definition listGrew :: "uuid \<Rightarrow> (contactRow \<Rightarrow> bool) \<Rightarrow> contactRow list \<Rightarrow> contactRow list \<Rightarrow> bool" where
  "listGrew org P before' after' \<longleftrightarrow>
     (\<exists>kept added. after' = kept @ added \<and>
        list_all2 (\<lambda>c c'. sameButNames c c' \<and> (ctOrg c \<noteq> org \<longrightarrow> c' = c)) before' kept \<and> list_all P added)"

lemma listGrewI:
  "after' = kept @ added \<Longrightarrow> list_all2 (\<lambda>c c'. sameButNames c c' \<and> (ctOrg c \<noteq> org \<longrightarrow> c' = c)) before' kept \<Longrightarrow>
     list_all P added \<Longrightarrow> listGrew org P before' after'"
  unfolding listGrew_def by blast

lemma listGrew_refl [simp]: "listGrew org P cs cs"
  by (rule listGrewI [of _ cs "[]"]) (simp_all add: list_all2_refl)

lemma listGrew_update:
  "(\<And>c. p c \<Longrightarrow> ctOrg c = org) \<Longrightarrow> listGrew org P cs (updateWhere p (setNames f l) cs)"
  by (rule listGrewI [of _ "updateWhere p (setNames f l) cs" "[]"])
    (auto simp: updateWhere_def list_all2_conv_all_nth)

lemma listGrew_add: "P c \<Longrightarrow> listGrew org P cs (cs @ [c])"
  by (rule listGrewI [of _ cs "[c]"]) (simp_all add: list_all2_refl)

lemma listGrew_trans:
  assumes "listGrew org P a b" and "listGrew org P b c" and "\<And>x y. sameButNames x y \<Longrightarrow> P x \<Longrightarrow> P y"
  shows "listGrew org P a c"
proof -
  let ?R = "\<lambda>c c'. sameButNames c c' \<and> (ctOrg c \<noteq> org \<longrightarrow> c' = c)"
  from assms(1) obtain k1 n1 where 1: "b = k1 @ n1" "list_all2 ?R a k1" "list_all P n1" by (auto simp: listGrew_def)
  from assms(2) 1(1) obtain k2 n2 where 2: "c = k2 @ n2" "list_all2 ?R (k1 @ n1) k2" "list_all P n2"
    by (auto simp: listGrew_def)
  from 2(2) obtain k2a k2b where 3: "k2 = k2a @ k2b" "list_all2 ?R k1 k2a" "list_all2 ?R n1 k2b"
    by (auto simp: list_all2_append1)
  have "list_all2 ?R a k2a"
    by (rule list_all2_trans [OF _ 1(2) 3(2)]) (auto intro: sameButNames_trans)
  moreover have "list_all P k2b"
    using 3(3) 1(3) assms(3) by (auto simp: list_all_length list_all2_conv_all_nth)
  ultimately show ?thesis using 2(1,3) 3(1) by (intro listGrewI [of _ k2a "k2b @ n2"]) simp_all
qed

definition importedContact :: "uuid \<Rightarrow> uuid \<Rightarrow> importAttestation \<Rightarrow> mailDb \<Rightarrow> contactRow \<Rightarrow> bool" where
  "importedContact org session a db c \<longleftrightarrow>
     ctOrg c = org \<and> ctOrigin c = OImport \<and> ctStatus c = CSubscribed \<and> ctFirstSentAt c = None \<and>
     ctImportSessionId c = Some session \<and> consentColumns a c = c \<and> mayBeListed org db (ctEmail c)"

lemma importedContact_names: "sameButNames c c' \<Longrightarrow> importedContact org i a db c \<Longrightarrow> importedContact org i a db c'"
  by (cases c; cases c') (simp add: sameButNames_def importedContact_def consentColumns_def)

lemma upsert_grows:
  assumes "contactsUpsertRow env i u db = Inr (db', j)" and "urAttestation u = Some a"
    and "valueOf (urValues u) ''email'' = IvString e" "emailToken e" "mayBeListed (urOrg u) db0 e"
  shows "listGrew (urOrg u) (importedContact (urOrg u) (urSessionId u) a db0) (contacts db) (contacts db') \<and>
    db' = db\<lparr>contacts := contacts db'\<rparr> \<and>
    (distinct (map contactKey (contacts db)) \<longrightarrow> distinct (map contactKey (contacts db')))"
  using assms(1)
proof (cases rule: contactsUpsert_cases)
  case (update k f l)
  have "map contactKey (updateWhere p (setNames f l) cs) = map contactKey cs" for p and cs :: "contactRow list"
    by (simp add: updateWhere_def contactKey_def)
  moreover have "listGrew (urOrg u) P (contacts db)
      (updateWhere (\<lambda>c. ctId c = k \<and> ctOrg c = urOrg u) (setNames f l) (contacts db))" for P
    by (rule listGrew_update) simp
  ultimately show ?thesis using update by simp
next
  case (create a' f l c)
  with assms have "importedContact (urOrg u) (urSessionId u) a db0 c"
    by (simp add: importedContact_def emailToken_identity consentColumns_def newContact_def)
  with create show ?thesis by (auto simp: listGrew_add contactClash_def)
qed

lemma writes_grow:
  assumes "writeRows (upsertPrepared (contactsImportDefinition env) newId session user (Some a)) ws db = Inr (db', written)"
    and "\<And>w. w \<in> set ws \<Longrightarrow> \<exists>e. valueOf (prValues w) ''email'' = IvString e \<and> emailToken e \<and> mayBeListed (imOrg session) db0 e"
  shows "listGrew (imOrg session) (importedContact (imOrg session) (imId session) a db0) (contacts db) (contacts db') \<and>
    db' = db\<lparr>contacts := contacts db'\<rparr> \<and>
    (distinct (map contactKey (contacts db)) \<longrightarrow> distinct (map contactKey (contacts db')))"
  using assms
proof (induction ws arbitrary: db written)
  case (Cons w ws)
  let ?u = "\<lparr>urOrg = imOrg session, urUser = user, urValues = prValues w, urExtras = prExtras w,
        urExistingId = prExistingId w, urRowNumber = prRowNumber w, urAttestation = Some a, urSessionId = imId session\<rparr>"
  from Cons.prems(1) obtain db1 i written1 where up: "contactsUpsertRow env (newId (prRowNumber w)) ?u db = Inr (db1, i)"
    and rest: "writeRows (upsertPrepared (contactsImportDefinition env) newId session user (Some a)) ws db1 = Inr (db', written1)"
    by (auto simp: upsertPrepared_def [of _ newId session user "Some a" w] split: sum.splits prod.splits)
  from Cons.prems(2) [of w] obtain e where "valueOf (prValues w) ''email'' = IvString e" "emailToken e"
    "mayBeListed (imOrg session) db0 e" by auto
  with upsert_grows [OF up] have one: "listGrew (imOrg session) (importedContact (imOrg session) (imId session) a db0) (contacts db) (contacts db1)"
    "db1 = db\<lparr>contacts := contacts db1\<rparr>" "distinct (map contactKey (contacts db)) \<longrightarrow> distinct (map contactKey (contacts db1))"
    by simp_all
  have more: "listGrew (imOrg session) (importedContact (imOrg session) (imId session) a db0) (contacts db1) (contacts db')"
    "db' = db1\<lparr>contacts := contacts db'\<rparr>" "distinct (map contactKey (contacts db1)) \<longrightarrow> distinct (map contactKey (contacts db'))"
    using Cons.IH [OF rest] Cons.prems(2) by simp_all
  have "db' = db\<lparr>contacts := contacts db'\<rparr>" by (subst more(2), subst one(2)) simp
  moreover have "listGrew (imOrg session) (importedContact (imOrg session) (imId session) a db0) (contacts db) (contacts db')"
    by (rule listGrew_trans [OF one(1) more(1)]) (rule importedContact_names)
  ultimately show ?case using one(3) more(3) by blast
qed simp

section \<open>The commit of a contacts session\<close>

lemma getImportSession_Inr: "getImportSession i org ss = Inr s \<Longrightarrow> imId s = i \<and> imOrg s = org"
  by (auto simp: getImportSession_def ownedSession_def split: option.splits dest!: find_Some_in)

lemma attested:
  assumes "attestSession def json user now old st = Inr (s, a, st')" and "dfAttestation def \<noteq> None"
  obtains v where "a = Some v" "validateImportAttestation def json user now = Inr v"
  using assms by (auto simp: attestSession_def ebind_Inr_iff)

lemma contacts_commit:
  assumes "commitImportSession ienv fault newId now i org user json st = (Inr (s, res), st')"
    and "getImportSession i org (isSessions st) = Inr old" and "imDefinitionName old = CONTACTS_IMPORT_NAME"
    and "findImportDefinition CONTACTS_IMPORT_NAME (ieRegistry ienv) = Some (contactsImportDefinition env)"
  obtains a p columns rows where
    "validateImportAttestation (contactsImportDefinition env) json user now = Inr a"
    "prepareForSession ienv old st = Inr p" "readSessionGrid ienv old st = Inr (columns, rows)"
    "length columns = length (imColumns old)" "isFiles st' = isFiles st"
    "prepareImport (contactsImportDefinition env) org columns rows (imMapping old) (isDb st) = Inr p"
    "imStatus s \<noteq> SsCommitted \<and> isDb st' = isDb st \<or> (\<exists>written.
       writeRows (upsertPrepared (contactsImportDefinition env) newId old user (Some a)) (rowsToWrite (piRows p)) (isDb st) =
         Inr (isDb st', written))"
proof -
  let ?def = "contactsImportDefinition env"
  obtain old' def x a ss p where c: "getImportSession i org (isSessions st) = Inr old'"
    "getImportDefinition (imDefinitionName old') (ieRegistry ienv) = Inr def"
    "attestSession def json user now old' st = Inr (old'\<lparr>imAttestation := x\<rparr>, a, st\<lparr>isSessions := ss\<rparr>)"
    "prepareForSession ienv old' st = Inr p"
    "commitPrepared fault newId now (old'\<lparr>imAttestation := x\<rparr>) user a p (st\<lparr>isSessions := ss\<rparr>) = (Inr (s, res), st')"
    using assms(1) by (rule commitImportSession_Inr)
  from c(1) assms(2) have old: "old' = old" by simp
  have d: "getImportDefinition (imDefinitionName old) (ieRegistry ienv) = Inr ?def"
    using assms(3,4) by (simp add: getImportDefinition_def)
  with c(2) old have def: "def = ?def" by simp
  obtain v where v: "a = Some v" "validateImportAttestation ?def json user now = Inr v"
    using attested [OF c(3)] unfolding def by auto
  obtain def' columns rows where p: "getImportDefinition (imDefinitionName old) (ieRegistry ienv) = Inr def'"
    "readSessionGrid ienv old st = Inr (columns, rows)" "length columns = length (imColumns old)"
    "prepareImport def' (imOrg old) columns rows (imMapping old) (isDb st) = Inr p"
    using c(4) unfolding old by (rule prepareForSession_Inr)
  have prep: "prepareImport ?def org columns rows (imMapping old) (isDb st) = Inr p"
    using p(1,4) d getImportSession_Inr [OF assms(2)] by simp
  then have "piDefinition p = ?def" by (rule prepareImport_inv)
  with commitPrepared_db [OF c(5)] have db: "imStatus s \<noteq> SsCommitted \<and> isDb st' = isDb st \<or> (\<exists>written.
      writeRows (upsertPrepared ?def newId old user (Some v)) (rowsToWrite (piRows p)) (isDb st) = Inr (isDb st', written))"
    by (simp add: old v(1) upsert_ignores_attestation)
  have "isFiles st' = isFiles st" using commitPrepared_files [OF c(5)] by simp
  from that [OF v(2) c(4) [unfolded old] p(2,3) this prep db] show ?thesis .
qed

lemma contacts_written:
  assumes "prepareImport (contactsImportDefinition env) (imOrg session) columns rows mapping db = Inr p"
    and "writeRows (upsertPrepared (contactsImportDefinition env) newId session user (Some a)) (rowsToWrite (piRows p)) db = Inr (db', written)"
  shows "listGrew (imOrg session) (importedContact (imOrg session) (imId session) a db) (contacts db) (contacts db')"
    and "db' = db\<lparr>contacts := contacts db'\<rparr>"
    and "distinct (map contactKey (contacts db)) \<longrightarrow> distinct (map contactKey (contacts db'))"
proof -
  have "\<exists>e. valueOf (prValues w) ''email'' = IvString e \<and> emailToken e \<and> mayBeListed (imOrg session) db e"
    if "w \<in> set (rowsToWrite (piRows p))" for w
  proof -
    from that have "w \<in> set (piRows p)" "landing w" by (auto simp: rowsToWrite_def landing_def)
    with landing_valid [OF assms(1)] show ?thesis by (metis prepared_contact [OF assms(1)])
  qed
  from writes_grow [OF assms(2) this]
  show "listGrew (imOrg session) (importedContact (imOrg session) (imId session) a db) (contacts db) (contacts db')"
    and "db' = db\<lparr>contacts := contacts db'\<rparr>"
    and "distinct (map contactKey (contacts db)) \<longrightarrow> distinct (map contactKey (contacts db'))" by blast+
qed

text \<open>
  C7. An import never re-subscribes anybody. Whatever a commit of the contacts import does, and whatever fault
  it meets, it changes no other table, keeps every contact that was there with at most its names changed, and
  none of another workspace; and every contact it adds belongs to this workspace, is marked as imported by this
  session, carries the consent the importer stated in this commit, has never been mailed, and has an address that
  the hygiene accepts and that no suppression of the workspace or of the whole app names. If an address was on
  a workspace's list at most once, it still is.
\<close>

theorem import_never_resubscribes:
  assumes "commitImportSession ienv fault newId now i org user json st = (Inr (s, res), st')"
    and "getImportSession i org (isSessions st) = Inr old" and "imDefinitionName old = CONTACTS_IMPORT_NAME"
    and "findImportDefinition CONTACTS_IMPORT_NAME (ieRegistry ienv) = Some (contactsImportDefinition env)"
  shows "\<exists>a. validateImportAttestation (contactsImportDefinition env) json user now = Inr a \<and>
    listGrew org (importedContact org i a (isDb st)) (contacts (isDb st)) (contacts (isDb st')) \<and>
    isDb st' = (isDb st)\<lparr>contacts := contacts (isDb st')\<rparr> \<and>
    (distinct (map contactKey (contacts (isDb st))) \<longrightarrow> distinct (map contactKey (contacts (isDb st'))))"
proof -
  obtain a p columns rows where a: "validateImportAttestation (contactsImportDefinition env) json user now = Inr a"
    and prep: "prepareImport (contactsImportDefinition env) org columns rows (imMapping old) (isDb st) = Inr p"
    and db: "imStatus s \<noteq> SsCommitted \<and> isDb st' = isDb st \<or> (\<exists>written.
       writeRows (upsertPrepared (contactsImportDefinition env) newId old user (Some a)) (rowsToWrite (piRows p)) (isDb st) =
         Inr (isDb st', written))"
    using assms by (rule contacts_commit)
  have same: "imId old = i" "imOrg old = org" using getImportSession_Inr [OF assms(2)] by simp_all
  from db show ?thesis
  proof (elim disjE exE)
    fix written assume w: "writeRows (upsertPrepared (contactsImportDefinition env) newId old user (Some a))
      (rowsToWrite (piRows p)) (isDb st) = Inr (isDb st', written)"
    from contacts_written [OF prep [folded same(2)] w] a same show ?thesis by auto
  qed (use a in auto)
qed

text \<open>
  Importing again updates. When the commit of a contacts session has landed, preparing the same file with
  the same mapping on the new tables finds the same rows with the same problems, and creates nobody: every row
  that landed, and every row that repeated one that did, is now the update of a contact or a duplicate.
\<close>

theorem reimport_updates_contacts:
  assumes "commitImportSession ienv fault newId now i org user json st = (Inr (s, res), st')" and "imStatus s = SsCommitted"
    and "getImportSession i org (isSessions st) = Inr old" and "imDefinitionName old = CONTACTS_IMPORT_NAME"
    and "findImportDefinition CONTACTS_IMPORT_NAME (ieRegistry ienv) = Some (contactsImportDefinition env)"
    and "contactsSound (isDb st)" and "\<And>n. newId n \<noteq> []"
  shows "\<exists>p q. prepareForSession ienv old st = Inr p \<and> prepareForSession ienv old st' = Inr q \<and>
    map rowOf (piRows q) = map rowOf (piRows p) \<and> pcCreate (piCounts q) = 0"
proof -
  let ?def = "contactsImportDefinition env"
  obtain a p columns rows where ready: "prepareForSession ienv old st = Inr p"
    and grid: "readSessionGrid ienv old st = Inr (columns, rows)" "length columns = length (imColumns old)" "isFiles st' = isFiles st"
    and prep: "prepareImport ?def org columns rows (imMapping old) (isDb st) = Inr p"
    and "imStatus s \<noteq> SsCommitted \<and> isDb st' = isDb st \<or> (\<exists>written.
       writeRows (upsertPrepared ?def newId old user (Some a)) (rowsToWrite (piRows p)) (isDb st) = Inr (isDb st', written))"
    using assms(1,3-5) by (rule contacts_commit)
  with assms(2) obtain written where
    w: "writeRows (upsertPrepared ?def newId old user (Some a)) (rowsToWrite (piRows p)) (isDb st) = Inr (isDb st', written)" by blast
  have org: "imOrg old = org" using getImportSession_Inr [OF assms(3)] by simp
  have "snd (resolveMapping (imMapping old) columns ?def) = []" using prep by (rule prepareImport_inv)
  then obtain q where again: "prepareImport ?def org columns rows (imMapping old) (isDb st') = Inr q"
    by (simp add: prepareImport_def Let_def split_beta)
  then have ready2: "prepareForSession ienv old st' = Inr q"
    using grid assms(4,5) by (simp add: prepareForSession_def readSessionGrid_files [OF grid(3)] org getImportDefinition_def)
  have "suppressions (isDb st') = suppressions (isDb st)"
    by (subst contacts_written(2) [OF prep [folded org] w]) simp
  then have "suppressionHits org (isDb st') = suppressionHits org (isDb st)" by (simp add: suppressionHits_def fun_eq_iff)
  then have "suppressedReason org (isDb st') = suppressedReason org (isDb st)" by (intro ext) (simp add: suppressedReason_def)
  then have "screenNormalized ?def org (isDb st') ns = screenNormalized ?def org (isDb st) ns" for ns
    by (simp add: screenNormalized_def contactsScreenRows_def screenAddresses_def Let_def)
  then have same: "map rowOf (piRows q) = map rowOf (piRows p)"
    by (simp add: prepared_rows [OF prep] prepared_rows [OF again])
  note hold = contacts.landed_hold [OF assms(6) prep org w assms(7)]
  have "prAction v \<noteq> RaCreate" if v: "v \<in> set (piRows q)" for v
  proof (cases "landing v")
    case True
    have "prErrors v = []" using landing_valid [OF again v True] .
    have "rowOf v \<in> set (map rowOf (piRows p))" unfolding same [symmetric] using v by simp
    then obtain x where x: "x \<in> set (piRows p)" "rowOf x = rowOf v" by auto
    with \<open>prErrors v = []\<close> have x': "prErrors x = []" "prAllValues x = prAllValues v" by (simp_all add: rowOf_def)
    have key: "\<exists>e. rowKeys ?def (prAllValues z) = [emailKey e]" if z: "z \<in> set (piRows p)" "prErrors z = []" for z
    proof -
      obtain e where "valueOf (prAllValues z) ''email'' = IvString e" "emailToken e" by (rule prepared_contact [OF prep z])
      then show ?thesis using emailToken_identity by (simp add: contacts_rowKeys emailToken_def)
    qed
    from key [OF x(1) x'(1)] obtain e where e: "rowKeys ?def (prAllValues x) = [emailKey e]" by blast
    from valid_row_lands [OF prep x(1) x'(1)] obtain z where z: "z \<in> set (piRows p)" "landing z"
      "z = x \<or> set (rowKeys ?def (prAllValues z)) \<inter> set (rowKeys ?def (prAllValues x)) \<noteq> {}" by blast
    with key [OF z(1) landing_valid [OF prep z(1,2)]] e have "rowKeys ?def (prAllValues z) = [emailKey e]" by auto
    with hold z(1,2) have "contactHeld org (isDb st') (emailKey e)" by auto
    then show ?thesis
      using contacts.held_row_is_no_create [OF _ again v, of "emailKey e"] hold e x'(2) by simp
  qed (simp add: landing_def)
  then have "pcCreate (piCounts q) = 0" by (simp add: prepared_creates [OF again])
  with ready ready2 same show ?thesis by blast
qed

text \<open>
  A sign-up speaks for one person on one list: the row it returns is in the table under the address the
  hygiene accepted, it is never left unsubscribed, a suppressed one stays suppressed, no workspace-wide
  unsubscribe of it remains, and every other contact and suppression is as it was.
\<close>

lemma signup_speaks_for_one:
  assumes "addSignupContact i now inp db = Inr (c, db')"
  shows "checkAddress (coEmail inp) = AddressOk (ctEmail c) \<and> ctOrg c = coOrg inp \<and> c \<in> set (contacts db') \<and>
    ctStatus c \<noteq> CUnsubscribed \<and>
    list_all (\<lambda>s. \<not> (spEmail s = ctEmail c \<and> spOrg s = Some (ctOrg c) \<and> spReason s = Unsubscribed)) (suppressions db') \<and>
    filter (\<lambda>d. contactKey d \<noteq> contactKey c) (contacts db') = filter (\<lambda>d. contactKey d \<noteq> contactKey c) (contacts db) \<and>
    filter (\<lambda>s. spEmail s \<noteq> ctEmail c \<or> spOrg s \<noteq> Some (ctOrg c)) (suppressions db') =
      filter (\<lambda>s. spEmail s \<noteq> ctEmail c \<or> spOrg s \<noteq> Some (ctOrg c)) (suppressions db)"
proof -
  let ?fresh = "\<lambda>e. (newContact i now (coOrg inp) e (cleanName (coFirstName inp)) (cleanName (coLastName inp)) OSignup)
     \<lparr>ctConsentSource := Some ''app_signup'', ctConsentCollectedInApp := True, ctConsentAttestedAt := Some now\<rparr>"
  from assms obtain e where e: "assertAddressUsableForSignup (coEmail inp) db = Inr e" by (auto simp: addSignupContact_def ebind_Inr_iff)
  then have ok: "checkAddress (coEmail inp) = AddressOk e"
    by (auto simp: assertAddressUsableForSignup_def split: addressCheck.splits option.splits if_splits)
  have key: "contactKey (optInAgain d) = contactKey d" for d by (simp add: optInAgain_def contactKey_def)
  have status: "ctStatus (optInAgain d) \<noteq> CUnsubscribed" for d by (simp add: optInAgain_def)
  have others: "filter (\<lambda>d. contactKey d \<noteq> k) (updateWhere (\<lambda>d. contactKey d = k) optInAgain cs) = filter (\<lambda>d. contactKey d \<noteq> k) cs"
    for k cs by (induction cs) (simp_all add: updateWhere_def key)
  show ?thesis
  proof (cases "List.find (\<lambda>d. contactKey d = contactKey (?fresh e)) (contacts db)")
    case None
    with assms e have "c = ?fresh e" "contacts db' = contacts db @ [c]"
      "suppressions db' = deleteWhere (\<lambda>s. spEmail s = e \<and> spOrg s = Some (coOrg inp) \<and> spReason s = Unsubscribed) (suppressions db)"
      by (auto simp: addSignupContact_def Let_def)
    then show ?thesis by (auto simp: ok newContact_def deleteWhere_def list_all_iff intro!: filter_cong)
  next
    case (Some d)
    from find_Some_in [OF Some] have d: "d \<in> set (contacts db)" "contactKey d = contactKey (?fresh e)" by auto
    from assms e Some have c: "c = optInAgain d"
      "contacts db' = updateWhere (\<lambda>d. contactKey d = contactKey (?fresh e)) optInAgain (contacts db)"
      "suppressions db' = deleteWhere (\<lambda>s. spEmail s = e \<and> spOrg s = Some (coOrg inp) \<and> spReason s = Unsubscribed) (suppressions db)"
      by (auto simp: addSignupContact_def Let_def)
    have "contactKey c = (coOrg inp, e)" using d(2) by (simp add: c(1) key) (simp add: contactKey_def newContact_def)
    then have at: "ctEmail c = e" "ctOrg c = coOrg inp" by (simp_all add: contactKey_def)
    have "c \<in> set (contacts db')" using d unfolding c(1,2) updateWhere_def by force
    moreover have "filter (\<lambda>x. contactKey x \<noteq> contactKey c) (contacts db') = filter (\<lambda>x. contactKey x \<noteq> contactKey c) (contacts db)"
      unfolding c(1,2) key d(2) by (rule others)
    ultimately show ?thesis
      using status [of d] by (auto simp: ok at c(3) deleteWhere_def list_all_iff c(1) [symmetric] intro!: filter_cong)
  qed
qed

text \<open>
  A row of the sheet with an address that is on the list and no name makes an \<^verbatim>\<open>UPDATE\<close> that sets nothing;
  where the database refuses that, the row fails, and with it the import.
\<close>

lemma nameless_update_fails:
  assumes "urExistingId u = Some k" and "k \<noteq> []" and "urAttestation u = Some a" and "ceEmptyUpdate env = Some m"
    and "valueOf (urValues u) ''firstName'' = IvNull" and "valueOf (urValues u) ''lastName'' = IvNull"
  shows "contactsUpsertRow env i u db = Inl m"
  using assms by (simp add: contactsUpsertRow_def truthy_def textValue_def cleanName_def)

section \<open>Examples\<close>

definition exampleContactEnv :: contactEnv where
  "exampleContactEnv = \<lparr>ceMxEnv = None, ceResolver = (\<lambda>_. MxNotFound), ceEmptyUpdate = None, ceNow = 9\<rparr>"

definition exampleList :: mailDb where
  "exampleList =
     \<lparr>users = [], orgs = [], suppressions = [],
      contacts = [(newContact ''c1'' 1 ''o1'' ''eve@acme.de'' None None OSignup)\<lparr>ctStatus := CUnsubscribed\<rparr>],
      campaigns = [], recipients = [], mailbox = []\<rparr>"

definition exampleListRows :: grid where
  "exampleListRows = [[''Ann@acme.de'', ''Ann''], [''nobody'', ''Bob'']]"

definition exampleListMapping :: "columnMappingEntry list" where
  "exampleListMapping = [\<lparr>meColumnIndex = 0, meFieldKey = Some ''email'', meCustom = None\<rparr>,
     \<lparr>meColumnIndex = 1, meFieldKey = Some ''firstName'', meCustom = None\<rparr>]"

lemma example_hygiene: "hygieneProblem ''ann@acme.de'' = None"
  by code_simp

definition exampleNormalized :: "numberedRow list" where
  "exampleNormalized =
     [(1, \<lparr>nrValues = [(''email'', IvString ''ann@acme.de''), (''firstName'', IvString ''Ann''), (''lastName'', IvNull)],
         nrAllValues = [(''email'', IvString ''ann@acme.de''), (''fullName'', IvNull), (''firstName'', IvString ''Ann''), (''lastName'', IvNull)],
         nrExtras = [], nrErrors = []\<rparr>),
      (2, \<lparr>nrValues = [(''email'', IvNull), (''firstName'', IvString ''Bob''), (''lastName'', IvNull)],
         nrAllValues = [(''email'', IvNull), (''fullName'', IvNull), (''firstName'', IvString ''Bob''), (''lastName'', IvNull)],
         nrExtras = [], nrErrors = [\<lparr>ceField = ''email'', ceLabel = ''Email'',
           ceMessage = ''is not an email address: '' @ quoted ''nobody'' @ ''.''\<rparr>]\<rparr>)]"

lemma example_list_normalizes:
  "snd (resolveMapping exampleListMapping [''Email'', ''First name''] (contactsImportDefinition exampleContactEnv)) = []"
  "normalizeRows (contactsImportDefinition exampleContactEnv)
     (fst (resolveMapping exampleListMapping [''Email'', ''First name''] (contactsImportDefinition exampleContactEnv))) exampleListRows = exampleNormalized"
  by code_simp+

lemma example_list_screens:
  "screenNormalized (contactsImportDefinition exampleContactEnv) ''o1'' exampleList exampleNormalized = exampleNormalized"
proof -
  have "filter rowValid exampleNormalized = [hd exampleNormalized]" by (simp add: exampleNormalized_def rowValid_def)
  moreover have "contactsScreenRows exampleContactEnv ''o1'' [nrAllValues (snd (hd exampleNormalized))] exampleList = [None]"
  proof -
    have "rowEmail (nrAllValues (snd (hd exampleNormalized))) = ''ann@acme.de''"
      by (simp add: exampleNormalized_def rowEmail_def valueOf_def)
    moreover have "suppressedReason ''o1'' exampleList es e = None" for es e
    proof -
      have "suppressionHits ''o1'' exampleList ch = []" for ch by (simp add: suppressionHits_def exampleList_def)
      then have none: "concat (map (suppressionHits ''o1'' exampleList) chs) = []" for chs by (induction chs) simp_all
      show ?thesis by (simp only: suppressedReason_def none) simp
    qed
    ultimately show ?thesis
      by (simp add: contactsScreenRows_def screenAddresses_def Let_def example_hygiene) (simp add: exampleContactEnv_def mxCheckEnabled_def orEmptyText_def toLowerCase_def)
  qed
  ultimately have "screenNormalized (contactsImportDefinition exampleContactEnv) ''o1'' exampleList exampleNormalized =
      applyScreening (contactsImportDefinition exampleContactEnv) [None] exampleNormalized"
    by (simp add: screenNormalized_def)
  then show ?thesis by (simp add: exampleNormalized_def rowValid_def)
qed

definition exampleListPrepared :: "preparedRow list" where
  "exampleListPrepared = [preparedOf (exampleNormalized ! 0) RaCreate None None, preparedOf (exampleNormalized ! 1) RaSkip None None]"

lemma example_list_decided:
  "(\<lambda>st. (pzRows st, pzCounts st)) (prepareRows (contactsImportDefinition exampleContactEnv) ''o1'' exampleList exampleNormalized) =
     (exampleListPrepared, countRows 2 exampleListPrepared)"
  by code_simp

lemma example_list_prepares:
  "prepareImport (contactsImportDefinition exampleContactEnv) ''o1'' [''Email'', ''First name''] exampleListRows exampleListMapping exampleList =
     Inr \<lparr>piDefinition = contactsImportDefinition exampleContactEnv, piRows = exampleListPrepared, piCounts = countRows 2 exampleListPrepared\<rparr>"
  using example_list_decided example_list_normalizes
  by (simp add: prepareImport_def split_beta Let_def example_list_screens)


definition exampleListLines :: string where
  "exampleListLines = concat (map (\<lambda>l. l @ [char_of (10::nat)]) [''Email,First name'', ''Ann@acme.de,Ann'', ''nobody,Bob''])"

definition exampleListSession :: importSession where
  "exampleListSession = exampleSession\<lparr>imDefinitionName := CONTACTS_IMPORT_NAME, imColumns := [''Email'', ''First name''],
     imMapping := exampleListMapping\<rparr>"

definition exampleListImport :: "(mailDb, string) importState" where
  "exampleListImport =
     \<lparr>isDb = exampleList, isSessions = [exampleListSession],
      isFiles = (isFiles exampleImport)\<lparr>fsObjects := [(''p/uploads/o1/u1.csv'', \<lparr>soBody = exampleListLines, soContentType = ''text/csv''\<rparr>)]\<rparr>\<rparr>"

definition exampleListEnv :: "(mailDb, string) importEnv" where
  "exampleListEnv = \<lparr>ieRegistry = [contactsImportDefinition exampleContactEnv], ieReaders = plainReaders, iePrefix = ''p/''\<rparr>"

definition exampleStatement :: json where
  "exampleStatement = JObj [(''listSource'', JStr ''app_signup''), (''optedIn'', JBool True)]"

definition exampleListCommit :: "(appError + importSession \<times> importResult) \<times> (mailDb, string) importState" where
  "exampleListCommit = commitImportSession exampleListEnv None (\<lambda>n. ''new'' @ decimal n) 9 ''s1'' ''o1'' (Some ''u1'') exampleStatement exampleListImport"

lemma example_list_parses:
  "map_sum id (\<lambda>p. (psColumns p, psRows p)) (parseSpreadsheet plainReaders exampleListLines
     \<lparr>poFilename = Some ''list.csv'', poContentType = Some ''text/csv'', poSheetName = None, poHeaderRowIndex = Some 0\<rparr>) =
   Inr ([''Email'', ''First name''], exampleListRows)"
  by code_simp

lemma example_list_object:
  "getObject ''p/'' ''uploads/o1/u1.csv'' (isFiles exampleListImport) = Inr \<lparr>soBody = exampleListLines, soContentType = ''text/csv''\<rparr>"
  by code_simp

lemma example_list_ready:
  "prepareForSession exampleListEnv exampleListSession exampleListImport =
     Inr \<lparr>piDefinition = contactsImportDefinition exampleContactEnv, piRows = exampleListPrepared, piCounts = countRows 2 exampleListPrepared\<rparr>"
proof -
  obtain parsed where parsed: "parseSpreadsheet plainReaders exampleListLines
     \<lparr>poFilename = Some ''list.csv'', poContentType = Some ''text/csv'', poSheetName = None, poHeaderRowIndex = Some 0\<rparr> = Inr parsed"
    "psColumns parsed = [''Email'', ''First name'']" "psRows parsed = exampleListRows"
    using example_list_parses by (cases "parseSpreadsheet plainReaders exampleListLines
     \<lparr>poFilename = Some ''list.csv'', poContentType = Some ''text/csv'', poSheetName = None, poHeaderRowIndex = Some 0\<rparr>") auto
  have "readSessionGrid exampleListEnv exampleListSession exampleListImport = Inr ([''Email'', ''First name''], exampleListRows)"
    using parsed example_list_object
    by (simp add: readSessionGrid_def exampleListEnv_def exampleListSession_def exampleSession_def exampleListImport_def
        exampleImport_def exampleFile_def truthy_def getUploadedFile_def ownedFile_def)
  moreover have "getImportDefinition (imDefinitionName exampleListSession) (ieRegistry exampleListEnv) = Inr (contactsImportDefinition exampleContactEnv)"
    by (simp add: getImportDefinition_def findImportDefinition_def exampleListSession_def exampleListEnv_def)
  ultimately show ?thesis
    using example_list_prepares
    by (simp add: prepareForSession_def) (simp add: exampleListSession_def exampleSession_def exampleListImport_def)
qed

definition exampleAttestation :: importAttestation where
  "exampleAttestation = \<lparr>iaListSource = ''app_signup'', iaListSourceDetail = None, iaCollectedInApp = True,
     iaAttestedBy = Some ''u1'', iaAttestedAt = 9\<rparr>"

definition exampleAttested :: importSession where
  "exampleAttested = exampleListSession\<lparr>imAttestation := Some exampleAttestation\<rparr>"

lemma example_list_statement:
  "validateImportAttestation (contactsImportDefinition exampleContactEnv) exampleStatement (Some ''u1'') 9 = Inr exampleAttestation"
  by code_simp

lemma example_list_attests:
  "attestSession (contactsImportDefinition exampleContactEnv) exampleStatement (Some ''u1'') 9 exampleListSession exampleListImport =
     Inr (exampleAttested, Some exampleAttestation, exampleListImport\<lparr>isSessions := [exampleAttested]\<rparr>)"
  using example_list_statement
  by (simp add: attestSession_def updateSession_def updateWhere_def ownedSession_def exampleListImport_def exampleAttested_def)

definition exampleListOutcome :: "(appError + importSession \<times> importResult) \<times> (mailDb, string) importState" where
  "exampleListOutcome = commitPrepared None (\<lambda>n. ''new'' @ decimal n) 9 exampleAttested (Some ''u1'') (Some exampleAttestation)
     \<lparr>piDefinition = contactsImportDefinition exampleContactEnv, piRows = exampleListPrepared, piCounts = countRows 2 exampleListPrepared\<rparr>
     (exampleListImport\<lparr>isSessions := [exampleAttested]\<rparr>)"

lemma example_list_session: "getImportSession ''s1'' ''o1'' (isSessions exampleListImport) = Inr exampleListSession"
  by (simp add: getImportSession_def exampleListImport_def ownedSession_def exampleListSession_def exampleSession_def)

lemma example_list_definition:
  "findImportDefinition CONTACTS_IMPORT_NAME (ieRegistry exampleListEnv) = Some (contactsImportDefinition exampleContactEnv)"
  by (simp add: findImportDefinition_def exampleListEnv_def)

lemma example_list_commit: "exampleListCommit = exampleListOutcome"
proof -
  have "prepareForSession exampleListEnv exampleAttested (exampleListImport\<lparr>isSessions := [exampleAttested]\<rparr>) =
      prepareForSession exampleListEnv exampleListSession exampleListImport"
    unfolding exampleAttested_def by (rule prepare_ignores_attestation)
  moreover have "imStatus exampleListSession = SsParsed" "imDefinitionName exampleListSession = CONTACTS_IMPORT_NAME"
    by (simp_all add: exampleListSession_def exampleSession_def)
  ultimately show ?thesis
    using example_list_session example_list_attests example_list_definition
    by (simp add: exampleListCommit_def exampleListOutcome_def commitImportSession_def getImportDefinition_def example_list_ready)
qed

lemma example_list_outcome:
  "map (\<lambda>c. (ctEmail c, ctStatus c, ctFirstName c, ctConsentSource c)) (contacts (isDb (snd exampleListOutcome))) =
     [(''eve@acme.de'', CUnsubscribed, None, None), (''ann@acme.de'', CSubscribed, Some ''Ann'', Some ''app_signup'')]"
  "case fst exampleListOutcome of Inl _ \<Rightarrow> False | Inr (s, res) \<Rightarrow> imStatus s = SsCommitted \<and> irCreated res = 1"
  by code_simp+

lemma example_list_lands:
  obtains s res st' where "exampleListCommit = (Inr (s, res), st')" "imStatus s = SsCommitted" "irCreated res = 1"
    "st' = snd exampleListOutcome"
proof -
  from example_list_outcome(2) obtain s res where r: "fst exampleListOutcome = Inr (s, res)" "imStatus s = SsCommitted" "irCreated res = 1"
    by (auto split: sum.splits)
  show ?thesis by (rule that [OF _ r(2,3) refl]) (simp add: example_list_commit flip: r(1))
qed

theorem import_never_resubscribes_witness:
  "\<exists>s res st'. exampleListCommit = (Inr (s, res), st') \<and> irCreated res = 1 \<and>
     map (\<lambda>c. (ctEmail c, ctStatus c, ctFirstName c, ctConsentSource c)) (contacts (isDb st')) =
       [(''eve@acme.de'', CUnsubscribed, None, None), (''ann@acme.de'', CSubscribed, Some ''Ann'', Some ''app_signup'')] \<and>
     listGrew ''o1'' (importedContact ''o1'' ''s1'' exampleAttestation exampleList) (contacts exampleList) (contacts (isDb st'))"
proof -
  obtain s res st' where eq: "exampleListCommit = (Inr (s, res), st')" "irCreated res = 1" "st' = snd exampleListOutcome"
    by (rule example_list_lands)
  have name: "imDefinitionName exampleListSession = CONTACTS_IMPORT_NAME" and db: "isDb exampleListImport = exampleList"
    by (simp_all add: exampleListSession_def exampleListImport_def)
  from import_never_resubscribes [OF eq(1) [unfolded exampleListCommit_def] example_list_session name example_list_definition]
  have grew: "listGrew ''o1'' (importedContact ''o1'' ''s1'' exampleAttestation exampleList) (contacts exampleList) (contacts (isDb st'))"
    by (auto simp: example_list_statement db)
  show ?thesis by (intro exI conjI, rule eq(1), rule eq(2), rule example_list_outcome(1) [folded eq(3)], rule grew)
qed

theorem reimport_updates_contacts_witness:
  "\<exists>q. prepareForSession exampleListEnv exampleListSession (snd exampleListCommit) = Inr q \<and>
     map prRowNumber (piRows q) = [1, 2] \<and> pcCreate (piCounts q) = 0"
proof -
  obtain s res st' where eq: "exampleListCommit = (Inr (s, res), st')" "imStatus s = SsCommitted"
    by (rule example_list_lands)
  have name: "imDefinitionName exampleListSession = CONTACTS_IMPORT_NAME"
    by (simp add: exampleListSession_def)
  have sound: "contactsSound (isDb exampleListImport)" by code_simp
  from reimport_updates_contacts [OF eq(1) [unfolded exampleListCommit_def] eq(2) example_list_session name example_list_definition sound]
  obtain q where q: "prepareForSession exampleListEnv exampleListSession st' = Inr q"
    "map rowOf (piRows q) = map rowOf exampleListPrepared" "pcCreate (piCounts q) = 0"
    by (auto simp: example_list_ready)
  from arg_cong [OF q(2), of "map fst"] have "map prRowNumber (piRows q) = [1, 2]"
    by (simp add: rowOf_def exampleListPrepared_def preparedOf_def exampleNormalized_def o_def)
  moreover have "snd exampleListCommit = st'" using arg_cong [OF eq(1), of snd] by simp
  ultimately show ?thesis by (intro exI [of _ q] conjI) (simp_all only: q)
qed

end
