(* ===== verification/SignIn.thy ===== *)
theory SignIn
  imports Sessions "HOL-Library.AList" "HOL-Library.Word"
begin

text \<open>
  \<^verbatim>\<open>src/api/routes/auth/index.ts\<close>: sign-in codes, sign-up, the session endpoints, the profile and the
  change of the e-mail address. Each handler is a request of database statements. Its arguments are the schema's
  input as the client sent it, the clock (a time for every \<open>new Date()\<close>, in order), the random draws and ids,
  and what Redis and the object store answered. The mail with a code is sent without being awaited: it is part of
  the reply here.
\<close>

section \<open>Codes\<close>

definition OTP_TTL_MINUTES :: int where
  "OTP_TTL_MINUTES = 30"

definition OTP_SENDS_PER_WINDOW :: nat where
  "OTP_SENDS_PER_WINDOW = 10"

definition otpExpiresAt :: "ms \<Rightarrow> ms" where
  "otpExpiresAt now = now + OTP_TTL_MINUTES * 60 * 1000"

definition padStart6 :: "string \<Rightarrow> string" where
  "padStart6 s = replicate (6 - length s) (CHR ''0'') @ s"

definition generateOtp :: "32 word \<Rightarrow> string" where
  "generateOtp random = padStart6 (decimal (unat random mod 1000000))"

text \<open>\<open>rateLimit\<close> of \<^verbatim>\<open>src/lib/redis.ts\<close>: the counter after \<open>INCR\<close>, or \<open>None\<close> without Redis.\<close>

definition rateLimit :: "nat option \<Rightarrow> nat \<Rightarrow> bool \<times> nat" where
  "rateLimit counter limit = (case counter of None \<Rightarrow> (True, limit) | Some n \<Rightarrow> (n \<le> limit, limit - n))"

text \<open>The address of the schemas, \<open>z.string().email().trim().toLowerCase()\<close>, and a pasted code.\<close>

definition readEmail :: "authEnv \<Rightarrow> string \<Rightarrow> (string \<Rightarrow> (accountDb, appError + 'r) request) \<Rightarrow> (accountDb, appError + 'r) request" where
  "readEmail env raw next = check (\<not> aeIsEmail env raw) (aeIssue env) (next (toLowerCase (trim raw)))"

definition readCode :: "authEnv \<Rightarrow> string \<Rightarrow> (string \<Rightarrow> (accountDb, appError + 'r) request) \<Rightarrow> (accountDb, appError + 'r) request" where
  "readCode env raw next =
     (let digits = filter isDigit raw in check (length digits \<noteq> 6) (aeIssue env) (next digits))"

text \<open>\<^verbatim>\<open>isVerificationAccountEmail\<close> of \<^verbatim>\<open>src/lib/verification-accounts.ts\<close>.\<close>

definition isVerificationAccountEmail :: "string \<Rightarrow> bool" where
  "isVerificationAccountEmail email \<longleftrightarrow>
     (let e = toLowerCase email; local = length e - length ''@verification.invalid''; label = drop 17 (take local e)
      in startsWith e ''alchemist-verify-'' \<and> endsWith e ''@verification.invalid'' \<and> 17 < local \<and>
         list_all (\<lambda>c. isLower c \<or> isDigit c \<or> c = CHR ''_'' \<or> c = CHR ''-'') label)"

section \<open>Statements on the codes\<close>

definition deleteExpired :: "string \<Rightarrow> ms \<Rightarrow> accountDb \<Rightarrow> accountDb" where
  "deleteExpired email now db = db\<lparr>otps := deleteWhere (\<lambda>r. otEmail r = email \<and> otExpiresAt r \<le> now) (otps db)\<rparr>"

definition liveOtp :: "string \<Rightarrow> accountDb \<Rightarrow> otpRow option" where
  "liveOtp email db =
     (case sort_key (\<lambda>r. - otCreatedAt r) (filter (\<lambda>r. otEmail r = email \<and> otAttempts r < OTP_MAX_ATTEMPTS) (otps db)) of
        [] \<Rightarrow> None | r # _ \<Rightarrow> Some r)"

definition extendOtp :: "uuid \<Rightarrow> ms \<Rightarrow> accountDb \<Rightarrow> accountDb" where
  "extendOtp i expiresAt db = db\<lparr>otps := updateWhere (\<lambda>r. otId r = i) (\<lambda>r. r\<lparr>otExpiresAt := expiresAt\<rparr>) (otps db)\<rparr>"

definition deleteOtps :: "string \<Rightarrow> accountDb \<Rightarrow> accountDb" where
  "deleteOtps email db = db\<lparr>otps := deleteWhere (\<lambda>r. otEmail r = email) (otps db)\<rparr>"

definition insertOtp :: "otpRow \<Rightarrow> accountDb \<Rightarrow> appError + accountDb \<times> unit" where
  "insertOtp r db =
     (if otId r \<in> otId ` set (otps db) then Inl uniqueViolation
      else Inr (db\<lparr>otps := otps db @ [r], trail := Minted (otId r) # trail db\<rparr>, ()))"

definition newOtp :: "uuid \<Rightarrow> ms \<Rightarrow> ms \<Rightarrow> string \<Rightarrow> string \<Rightarrow> otpRow" where
  "newOtp i now expiresAt email otpCode =
     \<lparr>otId = i, otEmail = email, otCode = otpCode, otAttempts = 0, otExpiresAt = expiresAt, otCreatedAt = now\<rparr>"

text \<open>Every guess claims one try on each live, unspent code of the address, in one statement.\<close>

definition unspent :: "string \<Rightarrow> ms \<Rightarrow> otpRow \<Rightarrow> bool" where
  "unspent email now r \<longleftrightarrow> otEmail r = email \<and> otExpiresAt r > now \<and> otAttempts r < OTP_MAX_ATTEMPTS"

definition oneTry :: "otpRow \<Rightarrow> otpRow" where
  "oneTry r = r\<lparr>otAttempts := otAttempts r + 1\<rparr>"

definition claimTries :: "string \<Rightarrow> ms \<Rightarrow> accountDb \<Rightarrow> accountDb \<times> otpRow list" where
  "claimTries email now db =
     (db\<lparr>otps := updateWhere (unspent email now) oneTry (otps db),
         trail := map (\<lambda>r. Tried (otId r)) (filter (unspent email now) (otps db)) @ trail db\<rparr>,
      map oneTry (filter (unspent email now) (otps db)))"

definition stillThere :: "string \<Rightarrow> ms \<Rightarrow> accountDb \<Rightarrow> bool" where
  "stillThere email now db \<longleftrightarrow> list_ex (\<lambda>r. otEmail r = email \<and> otExpiresAt r > now) (otps db)"

text \<open>The delete that only one request can win.\<close>

definition consumeOtp :: "uuid \<Rightarrow> accountDb \<Rightarrow> accountDb \<times> bool" where
  "consumeOtp i db =
     (if i \<in> otId ` set (otps db)
      then (db\<lparr>otps := deleteWhere (\<lambda>r. otId r = i) (otps db), trail := Opened i # trail db\<rparr>, True)
      else (db, False))"

section \<open>Sending a code\<close>

definition sendOtp ::
    "authEnv \<Rightarrow> nat option \<Rightarrow> (nat \<Rightarrow> ms) \<Rightarrow> 32 word \<Rightarrow> uuid \<Rightarrow> string \<Rightarrow> (accountDb, appError + string \<times> string) request" where
  "sendOtp env sends clock random newId raw =
     readEmail env raw (\<lambda>email.
     check (isVerificationAccountEmail email) (BadRequestError ''This address cannot sign in by email code'')
     (check (\<not> fst (rateLimit sends OTP_SENDS_PER_WINDOW))
        (RateLimitedError (''We already sent several codes to this address. Use the code in any of those emails, or wait '' @
           ''a few minutes to ask again.''))
     (let expiresAt = otpExpiresAt (clock 0) in
      execute (deleteExpired email (clock 0))
     (select (liveOtp email) (\<lambda>live.
        case live of
          Some r \<Rightarrow> execute (extendOtp (otId r) expiresAt) (Answer (Inr (email, otCode r)))
        | None \<Rightarrow>
            (let otpCode = generateOtp random in
             execute (deleteOtps email)
            (attempt (insertOtp (newOtp newId (clock 1) expiresAt email otpCode)) (\<lambda>_.
             Answer (Inr (email, otpCode))))))))))"

section \<open>Signing in\<close>

text \<open>\<open>slugify\<close>: the runs of other characters become one dash, a dash at either end goes.\<close>

fun dashRuns :: "string \<Rightarrow> string" where
  "dashRuns [] = []"
| "dashRuns (c # s) =
     (if isLower c \<or> isDigit c then c # dashRuns s
      else if s \<noteq> [] \<and> \<not> (isLower (hd s) \<or> isDigit (hd s)) then dashRuns s
      else CHR ''-'' # dashRuns s)"

definition dropDash :: "string \<Rightarrow> string" where
  "dropDash s = (if s \<noteq> [] \<and> hd s = CHR ''-'' then tl s else s)"

definition slugify :: "string \<Rightarrow> string" where
  "slugify text = take 48 (rev (dropDash (rev (dropDash (dashRuns (toLowerCase text))))))"

definition orgName :: "string \<Rightarrow> string" where
  "orgName displayName = displayName @ [CHR 0x27] @ ''s Organization''"

text \<open>A sign-up: the organization and its owner, in one transaction.\<close>

definition signUp :: "organizationRow \<Rightarrow> accountRow \<Rightarrow> accountDb \<Rightarrow> appError + accountDb \<times> (accountRow \<times> organizationRow)" where
  "signUp g a db =
     ebind (insertOrg g db) (\<lambda>(db1, g'). ebind (insertAccount a db1) (\<lambda>(db2, a'). Inr (db2, (a', g'))))"

definition sessionOf :: "accountRow \<Rightarrow> sessionUser" where
  "sessionOf a = \<lparr>suId = acId a, suEmail = acEmail a, suName = acName a, suOrg = acOrg a, suRole = acRole a\<rparr>"

record signedIn =
  snCookie :: claims
  snAccount :: accountRow
  snOrg :: "organizationRow option"

definition OTP_USED :: string where
  "OTP_USED = ''That code was already used. Tap Resend code to get a new one.''"

definition wrongCode :: "int \<Rightarrow> string" where
  "wrongCode left =
     (if left > 0
      then ''That code doesn'' @ [CHR 0x27] @ ''t match. Check the code in the email. '' @ decimal (nat left) @
           (if left = 1 then '' try left.'' else '' tries left.'')
      else ''That code doesn'' @ [CHR 0x27] @ ''t match, and there are no tries left. Tap Resend code to get a new one.'')"

definition markLogin :: "uuid \<Rightarrow> ms \<Rightarrow> accountDb \<Rightarrow> accountDb" where
  "markLogin i now = setAccount (\<lambda>a. acId a = i) (\<lambda>a. a\<lparr>acEmailVerified := True, acLastLoginAt := Some now\<rparr>)"

definition signInAccount ::
    "authEnv \<Rightarrow> (nat \<Rightarrow> ms) \<Rightarrow> uuid \<Rightarrow> uuid \<Rightarrow> string \<Rightarrow> string option \<Rightarrow> (accountDb, appError + signedIn) request" where
  "signInAccount env clock orgId userId email name =
     select (accountByEmail email) (\<lambda>user.
       case user of
         None \<Rightarrow>
           (let displayName = (case name of Some n \<Rightarrow> n | None \<Rightarrow> hd (splitOn (CHR ''@'') email)) in
            attempt (signUp (newOrg orgId (clock 2) (orgName displayName) (slugify displayName))
                       (newAccount userId (clock 2) email (Some displayName) ''owner'' orgId)) (\<lambda>(a, g).
            Answer (Inr \<lparr>snCookie = createSessionToken env (clock 3) (sessionOf a), snAccount = a, snOrg = Some g\<rparr>)))
       | Some a \<Rightarrow>
           execute (markLogin (acId a) (clock 2))
          (select (orgById (acOrg a)) (\<lambda>g.
           Answer (Inr \<lparr>snCookie = createSessionToken env (clock 3) (sessionOf a), snAccount = a, snOrg = g\<rparr>))))"

definition verifyOtp ::
    "authEnv \<Rightarrow> (nat \<Rightarrow> ms) \<Rightarrow> uuid \<Rightarrow> uuid \<Rightarrow> string \<Rightarrow> string \<Rightarrow> string option \<Rightarrow> (accountDb, appError + signedIn) request" where
  "verifyOtp env clock orgId userId rawEmail rawCode rawName =
     readEmail env rawEmail (\<lambda>email. readCode env rawCode (\<lambda>otpCode.
     check (map_option trim rawName = Some []) (aeIssue env)
     (check (isVerificationAccountEmail email) (UnauthorizedError ''Invalid or expired code'')
     (returning (claimTries email (clock 0)) (\<lambda>claimed.
        if claimed = [] then
          select (stillThere email (clock 1)) (\<lambda>spent.
            Answer (Inl (UnauthorizedError
              (if spent then ''Too many wrong tries on that code. Tap Resend code to get a new one.''
               else ''That code has expired. Tap Resend code to get a new one.''))))
        else (case List.find (\<lambda>r. otCode r = otpCode) claimed of
            None \<Rightarrow> Answer (Inl (UnauthorizedError (wrongCode (OTP_MAX_ATTEMPTS - Max (otAttempts ` set claimed)))))
          | Some r \<Rightarrow>
              returning (consumeOtp (otId r)) (\<lambda>won.
                check (\<not> won) (UnauthorizedError OTP_USED)
               (execute (deleteOtps email)
               (signInAccount env clock orgId userId email (map_option trim rawName))))))))))"

end
