(* ===== verification/OAuth.thy ===== *)
theory OAuth
  imports SignIn
begin

text \<open>
  \<^verbatim>\<open>src/lib/oauth-providers.ts\<close> and the OAuth routes of \<^verbatim>\<open>src/api/routes/auth/index.ts\<close>: the registry of
  identity providers, the check of a callback, and the account a provider's identity signs in as. What the
  provider's endpoints answer is an argument: a JSON object, or \<open>None\<close> for a reply that is not a success.
\<close>

section \<open>Providers\<close>

text \<open>\<open>String(raw.field)\<close>, the absent field included, and \<open>raw.field ?? null\<close> for a field that holds a string.\<close>

fun jsString :: "json \<Rightarrow> string" where
  "jsString JNull = ''null''"
| "jsString (JBool b) = (if b then ''true'' else ''false'')"
| "jsString (JNum i) = (if i < 0 then CHR ''-'' # decimal (nat (- i)) else decimal (nat i))"
| "jsString (JStr s) = s"
| "jsString (JArr xs) = joinWith '','' (map (\<lambda>x. if x = JNull then [] else jsString x) xs)"
| "jsString (JObj _) = ''[object Object]''"

definition stringOf :: "json option \<Rightarrow> string" where
  "stringOf v = (case v of None \<Rightarrow> ''undefined'' | Some j \<Rightarrow> jsString j)"

definition nullish :: "json option \<Rightarrow> json option \<Rightarrow> json option" where
  "nullish a b = (case a of None \<Rightarrow> b | Some JNull \<Rightarrow> b | Some j \<Rightarrow> Some j)"

definition textOf :: "json option \<Rightarrow> string option" where
  "textOf v = (case v of Some (JStr s) \<Rightarrow> Some s | _ \<Rightarrow> None)"

definition emailText :: "string \<Rightarrow> string" where
  "emailText s = trim (toLowerCase s)"

record mappedUser =
  muEmail :: string
  muName :: "string option"
  muPicture :: "string option"
  muProviderUserId :: string

record oauthProvider =
  opId :: string
  opLabel :: string
  opClientIdEnv :: string
  opClientSecretEnv :: string
  opAuthUrl :: string
  opTokenUrl :: string
  opUserInfoUrl :: string
  opScopes :: string
  opMapUser :: "claims \<Rightarrow> mappedUser"

definition googleUser :: "claims \<Rightarrow> mappedUser" where
  "googleUser raw =
     \<lparr>muEmail = emailText (stringOf (map_of raw ''email'')), muName = textOf (map_of raw ''name''),
      muPicture = textOf (map_of raw ''picture''), muProviderUserId = stringOf (map_of raw ''id'')\<rparr>"

definition microsoftUser :: "claims \<Rightarrow> mappedUser" where
  "microsoftUser raw =
     \<lparr>muEmail = emailText (stringOf (nullish (map_of raw ''mail'') (nullish (map_of raw ''userPrincipalName'') (Some (JStr []))))),
      muName = textOf (map_of raw ''displayName''), muPicture = None, muProviderUserId = stringOf (map_of raw ''id'')\<rparr>"

definition githubUser :: "claims \<Rightarrow> mappedUser" where
  "githubUser raw =
     \<lparr>muEmail = emailText (stringOf (nullish (map_of raw ''email'') (Some (JStr [])))),
      muName = textOf (nullish (map_of raw ''name'') (map_of raw ''login'')), muPicture = textOf (map_of raw ''avatar_url''),
      muProviderUserId = stringOf (map_of raw ''id'')\<rparr>"

definition salesforceUser :: "claims \<Rightarrow> mappedUser" where
  "salesforceUser raw =
     \<lparr>muEmail = emailText (stringOf (nullish (map_of raw ''email'') (Some (JStr [])))),
      muName = textOf (map_of raw ''name''), muPicture = textOf (map_of raw ''picture''),
      muProviderUserId = stringOf (nullish (map_of raw ''user_id'') (nullish (map_of raw ''sub'') (Some (JStr []))))\<rparr>"

definition oidcUser :: "claims \<Rightarrow> mappedUser" where
  "oidcUser raw =
     \<lparr>muEmail = emailText (stringOf (nullish (map_of raw ''email'') (Some (JStr [])))),
      muName = textOf (nullish (map_of raw ''name'') (map_of raw ''preferred_username'')),
      muPicture = textOf (map_of raw ''picture''),
      muProviderUserId = stringOf (nullish (map_of raw ''sub'') (Some (JStr [])))\<rparr>"

text \<open>The environment is a map; \<open>value?.trim() || other\<close> takes the other text for an absent or blank value.\<close>

type_synonym environment = "string \<Rightarrow> string option"

definition envText :: "environment \<Rightarrow> string \<Rightarrow> string" where
  "envText ev name = (case ev name of None \<Rightarrow> [] | Some v \<Rightarrow> trim v)"

definition orText :: "string \<Rightarrow> string \<Rightarrow> string" where
  "orText a b = (if a = [] then b else a)"

definition trimSlashes :: "string \<Rightarrow> string" where
  "trimSlashes s = rev (dropWhile (\<lambda>c. c = CHR ''/'') (rev s))"

definition buildSalesforceProvider :: "string \<Rightarrow> oauthProvider" where
  "buildSalesforceProvider loginUrl =
     (let base = trimSlashes (orText loginUrl ''https://login.salesforce.com'') in
      \<lparr>opId = ''salesforce'', opLabel = ''Continue with Salesforce'', opClientIdEnv = ''SALESFORCE_CLIENT_ID'',
       opClientSecretEnv = ''SALESFORCE_CLIENT_SECRET'', opAuthUrl = base @ ''/services/oauth2/authorize'',
       opTokenUrl = base @ ''/services/oauth2/token'', opUserInfoUrl = base @ ''/services/oauth2/userinfo'',
       opScopes = ''openid email profile'', opMapUser = salesforceUser\<rparr>)"

definition oidcProviderEntries :: "environment \<Rightarrow> oauthProvider list" where
  "oidcProviderEntries ev =
     (if envText ev ''OIDC_AUTH_URL'' = [] \<or> envText ev ''OIDC_TOKEN_URL'' = [] \<or> envText ev ''OIDC_USERINFO_URL'' = [] then []
      else [\<lparr>opId = ''oidc'', opLabel = orText (envText ev ''OIDC_LABEL'') ''Continue with SSO'',
             opClientIdEnv = ''OIDC_CLIENT_ID'', opClientSecretEnv = ''OIDC_CLIENT_SECRET'',
             opAuthUrl = envText ev ''OIDC_AUTH_URL'', opTokenUrl = envText ev ''OIDC_TOKEN_URL'',
             opUserInfoUrl = envText ev ''OIDC_USERINFO_URL'',
             opScopes = orText (envText ev ''OIDC_SCOPES'') ''openid email profile'', opMapUser = oidcUser\<rparr>])"

definition PROVIDERS :: "environment \<Rightarrow> oauthProvider list" where
  "PROVIDERS ev =
     [\<lparr>opId = ''google'', opLabel = ''Continue with Google'', opClientIdEnv = ''GOOGLE_CLIENT_ID'',
       opClientSecretEnv = ''GOOGLE_CLIENT_SECRET'', opAuthUrl = ''https://accounts.google.com/o/oauth2/v2/auth'',
       opTokenUrl = ''https://oauth2.googleapis.com/token'', opUserInfoUrl = ''https://www.googleapis.com/oauth2/v2/userinfo'',
       opScopes = ''openid email profile'', opMapUser = googleUser\<rparr>,
      \<lparr>opId = ''microsoft'', opLabel = ''Continue with Microsoft'', opClientIdEnv = ''MICROSOFT_CLIENT_ID'',
       opClientSecretEnv = ''MICROSOFT_CLIENT_SECRET'',
       opAuthUrl = ''https://login.microsoftonline.com/common/oauth2/v2.0/authorize'',
       opTokenUrl = ''https://login.microsoftonline.com/common/oauth2/v2.0/token'',
       opUserInfoUrl = ''https://graph.microsoft.com/v1.0/me'', opScopes = ''openid email profile User.Read'',
       opMapUser = microsoftUser\<rparr>,
      \<lparr>opId = ''github'', opLabel = ''Continue with GitHub'', opClientIdEnv = ''GITHUB_CLIENT_ID'',
       opClientSecretEnv = ''GITHUB_CLIENT_SECRET'', opAuthUrl = ''https://github.com/login/oauth/authorize'',
       opTokenUrl = ''https://github.com/login/oauth/access_token'', opUserInfoUrl = ''https://api.github.com/user'',
       opScopes = ''read:user user:email'', opMapUser = githubUser\<rparr>,
      buildSalesforceProvider (envText ev ''SALESFORCE_LOGIN_URL'')] @ oidcProviderEntries ev"

definition isProviderConfigured :: "environment \<Rightarrow> oauthProvider \<Rightarrow> bool" where
  "isProviderConfigured ev p \<longleftrightarrow> truthy (ev (opClientIdEnv p)) \<and> truthy (ev (opClientSecretEnv p))"

definition getConfiguredProviders :: "environment \<Rightarrow> oauthProvider list" where
  "getConfiguredProviders ev = filter (isProviderConfigured ev) (PROVIDERS ev)"

definition findProvider :: "environment \<Rightarrow> string \<Rightarrow> oauthProvider option" where
  "findProvider ev i = List.find (\<lambda>p. opId p = i) (PROVIDERS ev)"

text \<open>\<open>None\<close>: the list of GitHub addresses could not be read.\<close>

definition isTrue :: "json option \<Rightarrow> bool" where
  "isTrue v \<longleftrightarrow> (case v of None \<Rightarrow> False | Some JNull \<Rightarrow> False | Some (JBool b) \<Rightarrow> b | Some (JNum n) \<Rightarrow> n \<noteq> 0
                       | Some (JStr s) \<Rightarrow> s \<noteq> [] | Some _ \<Rightarrow> True)"

definition fetchGitHubPrimaryEmail :: "claims list option \<Rightarrow> string option" where
  "fetchGitHubPrimaryEmail emails =
     (case emails of
        None \<Rightarrow> None
      | Some es \<Rightarrow>
          (case List.find (\<lambda>e. isTrue (map_of e ''primary'') \<and> isTrue (map_of e ''verified'')) es of
             None \<Rightarrow> None | Some e \<Rightarrow> map_option emailText (textOf (map_of e ''email''))))"

section \<open>The callback\<close>

record oauthReplies =
  orTokens :: "claims option"
  orUserInfo :: "claims option"
  orGithubEmails :: "claims list option"

text \<open>The identity a callback brings, after every check before the database.\<close>

definition callbackChecks ::
    "environment \<Rightarrow> string \<Rightarrow> string option \<Rightarrow> string option \<Rightarrow> string option \<Rightarrow> oauthReplies \<Rightarrow> appError + oauthProvider \<times> mappedUser" where
  "callbackChecks ev providerId authCode state storedState replies =
     (case findProvider ev providerId of
        None \<Rightarrow> Inl (BadRequestError (''Unknown OAuth provider: '' @ providerId))
      | Some p \<Rightarrow>
          guard (\<not> isProviderConfigured ev p) (BadRequestError (opLabel p @ '' is not configured''))
         (guard (\<not> truthy authCode \<or> \<not> truthy state \<or> state \<noteq> storedState) (BadRequestError ''Invalid OAuth callback'')
         (case orTokens replies of
            None \<Rightarrow> Inl (BadRequestError ''Failed to exchange authorization code'')
          | Some tokens \<Rightarrow>
              guard (\<not> isTrue (map_of tokens ''access_token''))
                (BadRequestError (case nullish (map_of tokens ''error_description'') (map_of tokens ''error'') of
                   Some j \<Rightarrow> jsString j | None \<Rightarrow> ''OAuth token exchange returned no access_token''))
             (case orUserInfo replies of
                None \<Rightarrow> Inl (BadRequestError (''Failed to get user info from '' @ opLabel p))
              | Some raw \<Rightarrow>
                  (let mapped = opMapUser p raw in
                   if opId p = ''github'' \<and> muEmail mapped = []
                   then (case fetchGitHubPrimaryEmail (orGithubEmails replies) of
                       Some e \<Rightarrow>
                         guard (e = []) (BadRequestError (''Couldn'' @ [CHR 0x27] @ ''t read your GitHub email -- make sure you have at '' @
                           ''least one verified address.'')) (Inr (p, mapped\<lparr>muEmail := e\<rparr>))
                     | None \<Rightarrow> Inl (BadRequestError (''Couldn'' @ [CHR 0x27] @ ''t read your GitHub email -- make sure you have at '' @
                           ''least one verified address.'')))
                   else guard (muEmail mapped = []) (BadRequestError (opLabel p @ '' did not return an email address.''))
                     (Inr (p, mapped)))))))"

definition linkIdentity :: "uuid \<Rightarrow> string \<Rightarrow> mappedUser \<Rightarrow> ms \<Rightarrow> accountDb \<Rightarrow> accountDb" where
  "linkIdentity i provider m now =
     setAccount (\<lambda>a. acId a = i)
       (\<lambda>a. a\<lparr>acOauthProvider := Some provider, acOauthId := Some (muProviderUserId m), acPicture := muPicture m,
             acLastLoginAt := Some now, acEmailVerified := True\<rparr>)"

definition oauthAccount :: "uuid \<Rightarrow> ms \<Rightarrow> string \<Rightarrow> mappedUser \<Rightarrow> uuid \<Rightarrow> accountRow" where
  "oauthAccount i now provider m org =
     (newAccount i now (muEmail m) (muName m) ''owner'' org)
       \<lparr>acPicture := muPicture m, acOauthProvider := Some provider, acOauthId := Some (muProviderUserId m)\<rparr>"

definition signInIdentity ::
    "authEnv \<Rightarrow> (nat \<Rightarrow> ms) \<Rightarrow> uuid \<Rightarrow> uuid \<Rightarrow> string \<Rightarrow> mappedUser \<Rightarrow> (accountDb, appError + claims) request" where
  "signInIdentity env clock orgId userId provider m =
     select (accountByEmail (muEmail m)) (\<lambda>user.
       case user of
         None \<Rightarrow>
           (let displayName = (case muName m of Some n \<Rightarrow> n | None \<Rightarrow> hd (splitOn (CHR ''@'') (muEmail m))) in
            attempt (signUp (newOrg orgId (clock 0) (orgName displayName) (slugify displayName))
                       (oauthAccount userId (clock 0) provider m orgId)) (\<lambda>(a, g).
            Answer (Inr (createSessionToken env (clock 1) (sessionOf a)))))
       | Some a \<Rightarrow>
           execute (linkIdentity (acId a) provider m (clock 0))
          (Answer (Inr (createSessionToken env (clock 1) (sessionOf a)))))"

definition oauthCallback ::
    "authEnv \<Rightarrow> environment \<Rightarrow> (nat \<Rightarrow> ms) \<Rightarrow> uuid \<Rightarrow> uuid \<Rightarrow> string \<Rightarrow> string option \<Rightarrow> string option \<Rightarrow> string option \<Rightarrow> oauthReplies
      \<Rightarrow> (accountDb, appError + claims) request" where
  "oauthCallback env ev clock orgId userId providerId authCode state storedState replies =
     (case callbackChecks ev providerId authCode state storedState replies of
        Inl e \<Rightarrow> Answer (Inl e)
      | Inr (p, m) \<Rightarrow> signInIdentity env clock orgId userId (opId p) m)"

end
