(* ===== verification/SessionRoutes.thy ===== *)
theory SessionRoutes
  imports SignIn
begin

text \<open>
  The rest of \<^verbatim>\<open>src/api/routes/auth/index.ts\<close> for a user who is signed in: the session endpoints, the
  profile, the change of the e-mail address, the picture and the preferences. Connected assistants' tokens, which
  \<^verbatim>\<open>logout-all\<close> revokes too, belong to another service. A \<open>409\<close> that a handler answers itself is written as
  the error of that status.
\<close>

section \<open>The session\<close>

definition userSession :: "authUser \<Rightarrow> sessionUser" where
  "userSession u = \<lparr>suId = auId u, suEmail = auEmail u, suName = auName u, suOrg = Some (auOrg u), suRole = auRole u\<rparr>"

definition logoutAll :: "authEnv \<Rightarrow> (nat \<Rightarrow> ms) \<Rightarrow> bool \<Rightarrow> string option \<Rightarrow> (accountDb, appError + unit) request" where
  "logoutAll env clock down cookie =
     requireAuth env (clock 0) down cookie (\<lambda>user.
     execute (setAccount (\<lambda>a. acId a = auId user) (\<lambda>a. a\<lparr>acTokenInvalidatedBefore := Some (clock 1)\<rparr>))
     (Answer (Inr ())))"

record sessionAnswer =
  saUser :: "authUser option"
  saOrg :: "organizationRow option"
  saHipaa :: bool
  saDurationMs :: ms

definition sessionBody :: "authEnv \<Rightarrow> authUser \<Rightarrow> (sessionAnswer \<Rightarrow> (accountDb, 'r) request) \<Rightarrow> (accountDb, 'r) request" where
  "sessionBody env user next =
     select (orgById (Some (auOrg user))) (\<lambda>g.
     next \<lparr>saUser = Some user, saOrg = g, saHipaa = isHipaaEnabled env, saDurationMs = getSessionDurationMs env\<rparr>)"

definition meRoute :: "authEnv \<Rightarrow> ms \<Rightarrow> bool \<Rightarrow> string option \<Rightarrow> (accountDb, appError + sessionAnswer) request" where
  "meRoute env now down cookie =
     requireAuth env now down cookie (\<lambda>user. sessionBody env user (\<lambda>body. Answer (Inr body)))"

definition sessionRoute :: "authEnv \<Rightarrow> ms \<Rightarrow> bool \<Rightarrow> string option \<Rightarrow> (accountDb, sessionAnswer) request" where
  "sessionRoute env now down cookie =
     resolveOptionalUser env now down cookie (\<lambda>u.
       case u of
         None \<Rightarrow> Answer \<lparr>saUser = None, saOrg = None, saHipaa = isHipaaEnabled env, saDurationMs = getSessionDurationMs env\<rparr>
       | Some user \<Rightarrow> sessionBody env user Answer)"

definition touch :: "authEnv \<Rightarrow> (nat \<Rightarrow> ms) \<Rightarrow> bool \<Rightarrow> string option \<Rightarrow> (accountDb, appError + claims) request" where
  "touch env clock down cookie =
     requireAuth env (clock 0) down cookie (\<lambda>user. Answer (Inr (createSessionToken env (clock 1) (userSession user))))"

definition wsTokenRoute :: "authEnv \<Rightarrow> (nat \<Rightarrow> ms) \<Rightarrow> bool \<Rightarrow> string option \<Rightarrow> (accountDb, appError + claims) request" where
  "wsTokenRoute env clock down cookie =
     requireAuth env (clock 0) down cookie (\<lambda>user. Answer (Inr (createWsToken (clock 1) (auId user) (auOrg user))))"

section \<open>The profile\<close>

record profileInput =
  pfName :: "string option"
  pfPicture :: "string option option"

definition profileInvalid :: "(string \<Rightarrow> bool) \<Rightarrow> profileInput \<Rightarrow> bool" where
  "profileInvalid isUrl b \<longleftrightarrow>
     (case pfName b of None \<Rightarrow> False | Some n \<Rightarrow> trim n = [] \<or> 100 < length (trim n)) \<or>
     (case pfPicture b of Some (Some url) \<Rightarrow> \<not> isUrl url | _ \<Rightarrow> False) \<or>
     (pfName b = None \<and> pfPicture b = None)"

definition setProfile :: "profileInput \<Rightarrow> accountRow \<Rightarrow> accountRow" where
  "setProfile b a =
     a\<lparr>acName := (case pfName b of None \<Rightarrow> acName a | Some n \<Rightarrow> Some (trim n)),
       acPicture := (case pfPicture b of None \<Rightarrow> acPicture a | Some p \<Rightarrow> p)\<rparr>"

definition noResult :: appError where
  "noResult = PlainError ''no result''"

definition orThrow :: "'a option \<Rightarrow> ('a \<Rightarrow> ('db, appError + 'r) request) \<Rightarrow> ('db, appError + 'r) request" where
  "orThrow r next = (case r of None \<Rightarrow> Answer (Inl noResult) | Some x \<Rightarrow> next x)"

definition updateMe ::
    "authEnv \<Rightarrow> (string \<Rightarrow> bool) \<Rightarrow> ms \<Rightarrow> bool \<Rightarrow> string option \<Rightarrow> profileInput
      \<Rightarrow> (accountDb, appError + accountRow \<times> organizationRow option) request" where
  "updateMe env isUrl now down cookie body =
     requireAuth env now down cookie (\<lambda>user.
     check (profileInvalid isUrl body) (aeIssue env)
     (execute (setAccount (\<lambda>a. acId a = auId user) (setProfile body))
     (select (accountById (auId user)) (\<lambda>r. orThrow r (\<lambda>a.
      select (orgById (Some (auOrg user))) (\<lambda>g. Answer (Inr (a, g))))))))"

section \<open>The e-mail address\<close>

definition findEmailCollision :: "string \<Rightarrow> uuid \<Rightarrow> accountDb \<Rightarrow> bool" where
  "findEmailCollision email selfId db = list_ex (\<lambda>a. acEmail a = email \<and> acId a \<noteq> selfId) (accounts db)"

definition emailInUse :: appError where
  "emailInUse = ConflictError ''Email is already in use''"

definition sameEmail :: appError where
  "sameEmail = BadRequestError ''That is already your email address.''"

definition requestEmailChange ::
    "authEnv \<Rightarrow> (nat \<Rightarrow> ms) \<Rightarrow> bool \<Rightarrow> string option \<Rightarrow> 32 word \<Rightarrow> uuid \<Rightarrow> string \<Rightarrow> (accountDb, appError + string \<times> string) request" where
  "requestEmailChange env clock down cookie random newId raw =
     requireAuth env (clock 0) down cookie (\<lambda>user. readEmail env raw (\<lambda>email.
     check (email = auEmail user) sameEmail
     (select (findEmailCollision email (auId user)) (\<lambda>taken.
      check taken emailInUse
     (execute (deleteOtps email)
     (let otpCode = generateOtp random in
      attempt (insertOtp (newOtp newId (clock 2) (otpExpiresAt (clock 1)) email otpCode)) (\<lambda>_.
      Answer (Inr (email, otpCode)))))))))"

definition unexpiredOtp :: "string \<Rightarrow> ms \<Rightarrow> accountDb \<Rightarrow> otpRow option" where
  "unexpiredOtp email now db = List.find (\<lambda>r. otEmail r = email \<and> otExpiresAt r > now) (otps db)"

definition deleteOtp :: "uuid \<Rightarrow> accountDb \<Rightarrow> accountDb" where
  "deleteOtp i db = db\<lparr>otps := deleteWhere (\<lambda>r. otId r = i) (otps db)\<rparr>"

definition setAttempts :: "uuid \<Rightarrow> int \<Rightarrow> accountDb \<Rightarrow> accountDb" where
  "setAttempts i n db = db\<lparr>otps := updateWhere (\<lambda>r. otId r = i) (\<lambda>r. r\<lparr>otAttempts := n\<rparr>) (otps db)\<rparr>"

definition changeEmail :: "uuid \<Rightarrow> string \<Rightarrow> accountDb \<Rightarrow> appError + accountDb \<times> unit" where
  "changeEmail i email db =
     (if findEmailCollision email i db then Inl uniqueViolation
      else Inr (setAccount (\<lambda>a. acId a = i) (\<lambda>a. a\<lparr>acEmail := email, acEmailVerified := True\<rparr>) db, ()))"

definition confirmEmailChange ::
    "authEnv \<Rightarrow> (nat \<Rightarrow> ms) \<Rightarrow> bool \<Rightarrow> string option \<Rightarrow> string \<Rightarrow> string \<Rightarrow> (accountDb, appError + claims) request" where
  "confirmEmailChange env clock down cookie raw otpCode =
     requireAuth env (clock 0) down cookie (\<lambda>user. readEmail env raw (\<lambda>email.
     check (length otpCode \<noteq> 6) (aeIssue env)
     (check (email = auEmail user) sameEmail
     (select (unexpiredOtp email (clock 1)) (\<lambda>found.
        case found of
          None \<Rightarrow> Answer (Inl (UnauthorizedError ''Invalid or expired code''))
        | Some r \<Rightarrow>
            if otAttempts r \<ge> 5
            then execute (deleteOtp (otId r)) (Answer (Inl (UnauthorizedError ''Too many attempts. Request a new code.'')))
            else if otCode r \<noteq> otpCode
            then execute (setAttempts (otId r) (otAttempts r + 1)) (Answer (Inl (UnauthorizedError ''Invalid code'')))
            else execute (deleteOtp (otId r))
                (select (findEmailCollision email (auId user)) (\<lambda>taken.
                 check taken emailInUse
                (attempt (changeEmail (auId user) email) (\<lambda>_.
                 Answer (Inr (createSessionToken env (clock 2) ((userSession user)\<lparr>suEmail := email\<rparr>))))))))))))"

section \<open>The picture\<close>

text \<open>The object store is an argument: whether it is configured, whether the put fails, and the signed link of a key.\<close>

definition AVATAR_MAX_BYTES :: int where
  "AVATAR_MAX_BYTES = 2 * 1024 * 1024"

definition ALLOWED_AVATAR_TYPES :: "string list" where
  "ALLOWED_AVATAR_TYPES = [''image/png'', ''image/jpeg'', ''image/webp'', ''image/gif'']"

definition avatarExtension :: "string \<Rightarrow> string" where
  "avatarExtension contentType =
     (if contentType = ''image/png'' then ''png'' else if contentType = ''image/jpeg'' then ''jpg''
      else if contentType = ''image/webp'' then ''webp'' else if contentType = ''image/gif'' then ''gif'' else ''bin'')"

record avatarStore =
  avConfigured :: bool
  avPutFails :: "appError option"
  avLink :: "string \<Rightarrow> string"

definition avatarProblem :: "avatarStore \<Rightarrow> string \<Rightarrow> (int \<times> string) option \<Rightarrow> string option" where
  "avatarProblem store header file =
     (if \<not> avConfigured store then Some ''File storage is not configured on this app''
      else if \<not> startsWith header ''multipart/form-data'' then Some ''Use multipart/form-data with a `file` field''
      else case file of
        None \<Rightarrow> Some ''`file` field is required and must be a file''
      | Some (bytes, type) \<Rightarrow>
          if bytes = 0 then Some ''Empty file''
          else if bytes > AVATAR_MAX_BYTES
          then Some (''Avatar exceeds size limit ('' @ decimal (nat AVATAR_MAX_BYTES) @ '' bytes)'')
          else if (if type = [] then ''application/octet-stream'' else type) \<notin> set ALLOWED_AVATAR_TYPES
          then Some (''Unsupported image type: '' @ (if type = [] then ''application/octet-stream'' else type) @
                     ''. Allowed: png, jpeg, webp, gif.'')
          else None)"

definition avatarKey :: "uuid \<Rightarrow> string \<Rightarrow> string" where
  "avatarKey i contentType = ''users/'' @ i @ ''/avatar.'' @ avatarExtension contentType"

definition uploadAvatar ::
    "authEnv \<Rightarrow> avatarStore \<Rightarrow> ms \<Rightarrow> bool \<Rightarrow> string option \<Rightarrow> string \<Rightarrow> (int \<times> string) option \<Rightarrow> (accountDb, appError + string) request" where
  "uploadAvatar env store now down cookie header file =
     requireAuth env now down cookie (\<lambda>user.
       case avatarProblem store header file of
         Some m \<Rightarrow> Answer (Inl (BadRequestError m))
       | None \<Rightarrow>
           (let picture = avLink store (avatarKey (auId user) (snd (the file))) in
            check (avPutFails store \<noteq> None) (the (avPutFails store))
           (execute (setAccount (\<lambda>a. acId a = auId user) (\<lambda>a. a\<lparr>acPicture := Some picture\<rparr>))
           (Answer (Inr picture)))))"

definition removeAvatar :: "authEnv \<Rightarrow> ms \<Rightarrow> bool \<Rightarrow> string option \<Rightarrow> (accountDb, appError + unit) request" where
  "removeAvatar env now down cookie =
     requireAuth env now down cookie (\<lambda>user.
     execute (setAccount (\<lambda>a. acId a = auId user) (\<lambda>a. a\<lparr>acPicture := None\<rparr>)) (Answer (Inr ())))"

section \<open>Preferences\<close>

definition mergePreferences :: "claims \<Rightarrow> claims \<Rightarrow> claims" where
  "mergePreferences current incoming =
     filter (\<lambda>(k, _). map_of incoming k \<noteq> Some JNull) (fold (\<lambda>(k, v). AList.update k v) incoming current)"

definition getPreferences :: "authEnv \<Rightarrow> ms \<Rightarrow> bool \<Rightarrow> string option \<Rightarrow> (accountDb, appError + claims) request" where
  "getPreferences env now down cookie =
     requireAuth env now down cookie (\<lambda>user.
     select (accountById (auId user)) (\<lambda>r. orThrow r (\<lambda>a. Answer (Inr (acPreferences a)))))"

definition updatePreferences ::
    "authEnv \<Rightarrow> ms \<Rightarrow> bool \<Rightarrow> string option \<Rightarrow> claims \<Rightarrow> (accountDb, appError + claims) request" where
  "updatePreferences env now down cookie incoming =
     requireAuth env now down cookie (\<lambda>user.
     select (accountById (auId user)) (\<lambda>r. orThrow r (\<lambda>a.
     (let merged = mergePreferences (acPreferences a) incoming in
      execute (setAccount (\<lambda>a. acId a = auId user) (\<lambda>a. a\<lparr>acPreferences := merged\<rparr>)) (Answer (Inr merged))))))"

end
