(* ===== verification/Team.thy ===== *)
theory Team
  imports SessionRoutes
begin

text \<open>
  \<^verbatim>\<open>src/services/invite.service.ts\<close>, \<^verbatim>\<open>src/api/routes/invite/index.ts\<close> and
  \<^verbatim>\<open>src/api/routes/org/index.ts\<close>: invitations, members and their roles, the transfer of ownership. The mail of
  an invitation is sent after its row is written, and its failure is caught: it is not part of the model.
\<close>

section \<open>Invitations\<close>

definition INVITE_TTL_DAYS :: int where
  "INVITE_TTL_DAYS = 7"

definition generateInviteToken :: "nat list \<Rightarrow> string" where
  "generateInviteToken bytes = b64url bytes"

record createInviteInput =
  ciOrg :: uuid
  ciInvitedBy :: uuid
  ciEmail :: string
  ciRole :: string

record pendingInviteView =
  pvId :: uuid
  pvEmail :: string
  pvRole :: string
  pvInvitedBy :: uuid
  pvInvitedByName :: "string option"
  pvInvitedByEmail :: string
  pvExpiresAt :: ms
  pvCreatedAt :: ms

definition viewOfInvite :: "inviteRow \<Rightarrow> accountRow \<Rightarrow> pendingInviteView" where
  "viewOfInvite v a =
     \<lparr>pvId = ivId v, pvEmail = ivEmail v, pvRole = ivRole v, pvInvitedBy = ivInvitedBy v, pvInvitedByName = acName a,
      pvInvitedByEmail = acEmail a, pvExpiresAt = ivExpiresAt v, pvCreatedAt = ivCreatedAt v\<rparr>"

definition existingMember :: "string \<Rightarrow> uuid \<Rightarrow> accountDb \<Rightarrow> bool" where
  "existingMember email org db = list_ex (\<lambda>a. acEmail a = email \<and> acOrg a = Some org) (accounts db)"

definition existingPending :: "uuid \<Rightarrow> string \<Rightarrow> accountDb \<Rightarrow> inviteRow option" where
  "existingPending org email db = List.find (\<lambda>v. ivOrg v = org \<and> ivEmail v = email \<and> pendingInvite v) (invites db)"

definition setInvite :: "(inviteRow \<Rightarrow> bool) \<Rightarrow> (inviteRow \<Rightarrow> inviteRow) \<Rightarrow> accountDb \<Rightarrow> accountDb" where
  "setInvite p f db = db\<lparr>invites := updateWhere p f (invites db)\<rparr>"

definition insertInvite :: "inviteRow \<Rightarrow> accountDb \<Rightarrow> appError + accountDb \<times> inviteRow" where
  "insertInvite v db =
     (if ivId v \<in> ivId ` set (invites db) \<or> ivToken v \<in> ivToken ` set (invites db) \<or>
         inviteKey v \<in> inviteKey ` set (filter pendingInvite (invites db))
      then Inl uniqueViolation else Inr (db\<lparr>invites := invites db @ [v]\<rparr>, v))"

definition newInvite :: "uuid \<Rightarrow> ms \<Rightarrow> ms \<Rightarrow> string \<Rightarrow> createInviteInput \<Rightarrow> inviteRow" where
  "newInvite i now expiresAt token inp =
     \<lparr>ivId = i, ivOrg = ciOrg inp, ivInvitedBy = ciInvitedBy inp, ivEmail = ciEmail inp, ivRole = ciRole inp,
      ivToken = token, ivAcceptedAt = None, ivRevokedAt = None, ivExpiresAt = expiresAt, ivCreatedAt = now\<rparr>"

definition invalidRole :: "string \<Rightarrow> appError" where
  "invalidRole role =
     BadRequestError (''Invalid role '' @ quoted role @ ''. Allowed: '' @ joinWith '', '' ASSIGNABLE_ROLES @ ''.'')"

definition alreadyPending :: appError where
  "alreadyPending = BadRequestError (''An invite is already pending for that email. Revoke it first if you want to change '' @
     ''the role or resend.'')"

definition createInvite ::
    "(nat \<Rightarrow> ms) \<Rightarrow> uuid \<Rightarrow> nat list \<Rightarrow> createInviteInput \<Rightarrow> (accountDb, appError + pendingInviteView) request" where
  "createInvite clock newId bytes inp =
     check (ciRole inp \<notin> set ASSIGNABLE_ROLES) (invalidRole (ciRole inp))
     (select (existingMember (ciEmail inp) (ciOrg inp)) (\<lambda>there.
      check there (BadRequestError ''That email is already a member of this organization.'')
     (select (existingPending (ciOrg inp) (ciEmail inp)) (\<lambda>waiting.
      check (case waiting of Some v \<Rightarrow> ivExpiresAt v > clock 0 | None \<Rightarrow> False) alreadyPending
     (execute (case waiting of
          Some v \<Rightarrow> setInvite (\<lambda>w. ivId w = ivId v) (\<lambda>w. w\<lparr>ivRevokedAt := Some (clock 1)\<rparr>) | None \<Rightarrow> (\<lambda>db. db))
     (attempt (insertInvite (newInvite newId (clock 3) (clock 2 + INVITE_TTL_DAYS * 24 * 60 * 60 * 1000)
                 (generateInviteToken bytes) inp)) (\<lambda>v.
      select (accountById (ciInvitedBy inp)) (\<lambda>r. orThrow r (\<lambda>a. Answer (Inr (viewOfInvite v a)))))))))))"

definition listPendingInvites :: "uuid \<Rightarrow> ms \<Rightarrow> accountDb \<Rightarrow> pendingInviteView list" where
  "listPendingInvites org now db =
     List.map_filter (\<lambda>v. map_option (viewOfInvite v) (accountById (ivInvitedBy v) db))
       (sort_key (\<lambda>v. - ivCreatedAt v)
         (filter (\<lambda>v. ivOrg v = org \<and> pendingInvite v \<and> ivExpiresAt v > now) (invites db)))"

definition revokeInvite :: "uuid \<Rightarrow> uuid \<Rightarrow> ms \<Rightarrow> accountDb \<Rightarrow> accountDb" where
  "revokeInvite i org now =
     setInvite (\<lambda>v. ivId v = i \<and> ivOrg v = org \<and> pendingInvite v) (\<lambda>v. v\<lparr>ivRevokedAt := Some now\<rparr>)"

record resolvedInvite =
  riId :: uuid
  riOrg :: uuid
  riOrgName :: string
  riEmail :: string
  riRole :: string
  riExpiresAt :: ms
  riInvitedByName :: "string option"
  riInvitedByEmail :: string

text \<open>The row of a token with its organization and its inviter, and what the checks say of it.\<close>

definition inviteByToken :: "string \<Rightarrow> accountDb \<Rightarrow> (inviteRow \<times> organizationRow \<times> accountRow) option" where
  "inviteByToken token db =
     (case List.find (\<lambda>v. ivToken v = token) (invites db) of
        None \<Rightarrow> None
      | Some v \<Rightarrow>
          (case (orgById (Some (ivOrg v)) db, accountById (ivInvitedBy v) db) of
             (Some g, Some a) \<Rightarrow> Some (v, g, a) | _ \<Rightarrow> None))"

definition resolveInviteByToken :: "ms \<Rightarrow> (inviteRow \<times> organizationRow \<times> accountRow) option \<Rightarrow> appError + resolvedInvite" where
  "resolveInviteByToken now found =
     (case found of
        None \<Rightarrow> Inl (notFound ''Invite'' ''This invite link is invalid or has expired.'')
      | Some (v, g, a) \<Rightarrow>
          guard (ivAcceptedAt v \<noteq> None) (notFound ''Invite'' ''This invite has already been accepted.'')
         (guard (ivRevokedAt v \<noteq> None) (notFound ''Invite'' ''This invite has been revoked.'')
         (guard (ivExpiresAt v < now) (notFound ''Invite'' ''This invite has expired.'')
         (Inr \<lparr>riId = ivId v, riOrg = ivOrg v, riOrgName = onName g, riEmail = ivEmail v, riRole = ivRole v,
            riExpiresAt = ivExpiresAt v, riInvitedByName = acName a, riInvitedByEmail = acEmail a\<rparr>))))"

definition withInvite ::
    "string \<Rightarrow> ms \<Rightarrow> (resolvedInvite \<Rightarrow> (accountDb, appError + 'r) request) \<Rightarrow> (accountDb, appError + 'r) request" where
  "withInvite token now next =
     select (inviteByToken token) (\<lambda>found.
       case resolveInviteByToken now found of Inl e \<Rightarrow> Answer (Inl e) | Inr v \<Rightarrow> next v)"

text \<open>The atomic claim: one of any number of concurrent requests wins.\<close>

definition consumeInvite :: "uuid \<Rightarrow> ms \<Rightarrow> accountDb \<Rightarrow> accountDb \<times> bool" where
  "consumeInvite i now db =
     (if list_ex (\<lambda>v. ivId v = i \<and> pendingInvite v) (invites db)
      then (db\<lparr>invites := updateWhere (\<lambda>v. ivId v = i \<and> pendingInvite v) (\<lambda>v. v\<lparr>ivAcceptedAt := Some now\<rparr>) (invites db),
               trail := Joined i # trail db\<rparr>, True)
      else (db, False))"

definition joinOrg :: "uuid \<Rightarrow> resolvedInvite \<Rightarrow> accountDb \<Rightarrow> accountDb" where
  "joinOrg i v = setAccount (\<lambda>a. acId a = i) (\<lambda>a. a\<lparr>acOrg := Some (riOrg v), acRole := riRole v\<rparr>)"

definition acceptInvite ::
    "(nat \<Rightarrow> ms) \<Rightarrow> string \<Rightarrow> uuid \<Rightarrow> string \<Rightarrow> (accountDb, appError + uuid \<times> string) request" where
  "acceptInvite clock token userId authenticatedEmail =
     withInvite token (clock 1) (\<lambda>v.
     check (toLowerCase (riEmail v) \<noteq> toLowerCase authenticatedEmail)
       (ForbiddenError ''This invite was sent to a different email address. Sign in with that email to accept.'')
     (returning (consumeInvite (riId v) (clock 2)) (\<lambda>won.
      check (\<not> won) (ForbiddenError ''This invite has already been consumed.'')
     (execute (joinOrg userId v) (Answer (Inr (riOrg v, riRole v)))))))"

definition claimInvite ::
    "(nat \<Rightarrow> ms) \<Rightarrow> uuid \<Rightarrow> string \<Rightarrow> (accountDb, appError + sessionUser) request" where
  "claimInvite clock newId token =
     withInvite token (clock 0) (\<lambda>v.
     returning (consumeInvite (riId v) (clock 1)) (\<lambda>won.
     check (\<not> won) (ForbiddenError ''This invite has already been used.'')
     (select (accountByEmail (riEmail v)) (\<lambda>found.
        case found of
          Some a \<Rightarrow>
            execute (\<lambda>db. markLogin (acId a) (clock 2) (joinOrg (acId a) v db))
            (Answer (Inr \<lparr>suId = acId a, suEmail = riEmail v, suName = acName a, suOrg = Some (riOrg v), suRole = riRole v\<rparr>))
        | None \<Rightarrow>
            attempt (insertAccount ((newAccount newId (clock 2) (riEmail v) None (riRole v) (riOrg v))
                       \<lparr>acLastLoginAt := Some (clock 2)\<rparr>)) (\<lambda>a.
            Answer (Inr \<lparr>suId = acId a, suEmail = riEmail v, suName = acName a, suOrg = Some (riOrg v), suRole = riRole v\<rparr>))))))"

section \<open>The public routes of an invitation\<close>

definition claimInviteRoute ::
    "authEnv \<Rightarrow> (nat \<Rightarrow> ms) \<Rightarrow> uuid \<Rightarrow> string \<Rightarrow> (accountDb, appError + claims \<times> sessionUser) request" where
  "claimInviteRoute env clock newId token =
     andThen (claimInvite clock newId token) (\<lambda>u. Answer (Inr (createSessionToken env (clock 3) u, u)))"

definition previewInvite :: "ms \<Rightarrow> string \<Rightarrow> (accountDb, appError + resolvedInvite) request" where
  "previewInvite now token = withInvite token now (\<lambda>v. Answer (Inr v))"

definition acceptInviteRoute ::
    "authEnv \<Rightarrow> (nat \<Rightarrow> ms) \<Rightarrow> bool \<Rightarrow> string option \<Rightarrow> string \<Rightarrow> (accountDb, appError + uuid \<times> string) request" where
  "acceptInviteRoute env clock down cookie token =
     requireAuth env (clock 0) down cookie (\<lambda>user.
     check (auEmail user = []) (ForbiddenError ''Authenticated session is missing an email.'')
     (acceptInvite clock token (auId user) (auEmail user)))"

section \<open>The organization\<close>

definition getOrgRoute :: "authEnv \<Rightarrow> ms \<Rightarrow> bool \<Rightarrow> string option \<Rightarrow> (accountDb, appError + organizationRow) request" where
  "getOrgRoute env now down cookie =
     requireAuth env now down cookie (\<lambda>user.
     select (orgById (Some (auOrg user))) (\<lambda>g.
       case g of None \<Rightarrow> Answer (Inl (notFound ''Organization'' [])) | Some org \<Rightarrow> Answer (Inr org)))"

definition slugOk :: "string \<Rightarrow> bool" where
  "slugOk s \<longleftrightarrow> s \<noteq> [] \<and> list_all (\<lambda>c. isLower c \<or> isDigit c \<or> c = CHR ''-'') s"

definition orgInputInvalid :: "string option \<Rightarrow> string option \<Rightarrow> bool" where
  "orgInputInvalid name slug \<longleftrightarrow>
     (case name of Some n \<Rightarrow> trim n = [] | None \<Rightarrow> False) \<or> (case slug of Some s \<Rightarrow> \<not> slugOk (trim s) | None \<Rightarrow> False)"

definition slugTaken :: "string option \<Rightarrow> uuid \<Rightarrow> accountDb \<Rightarrow> bool" where
  "slugTaken slug org db \<longleftrightarrow> slug \<noteq> None \<and> list_ex (\<lambda>g. onSlug g = slug \<and> onId g \<noteq> org) (organizations db)"

definition setOrg :: "string option \<Rightarrow> string option \<Rightarrow> ms \<Rightarrow> organizationRow \<Rightarrow> organizationRow" where
  "setOrg name slug now g =
     g\<lparr>onName := (case name of Some n \<Rightarrow> n | None \<Rightarrow> onName g), onSlug := (if slug = None then onSlug g else slug),
       onUpdatedAt := now\<rparr>"

definition saveOrg ::
    "uuid \<Rightarrow> string option \<Rightarrow> string option \<Rightarrow> ms \<Rightarrow> accountDb \<Rightarrow> appError + accountDb \<times> organizationRow" where
  "saveOrg org name slug now db =
     (case orgById (Some org) db of
        None \<Rightarrow> Inl noResult
      | Some g \<Rightarrow>
          if slugTaken slug org db then Inl uniqueViolation
          else Inr (db\<lparr>organizations := updateWhere (\<lambda>h. onId h = org) (setOrg name slug now) (organizations db)\<rparr>,
                    setOrg name slug now g))"

definition updateOrgRoute ::
    "authEnv \<Rightarrow> (nat \<Rightarrow> ms) \<Rightarrow> bool \<Rightarrow> string option \<Rightarrow> string option \<Rightarrow> string option \<Rightarrow> (accountDb, appError + organizationRow) request" where
  "updateOrgRoute env clock down cookie rawName rawSlug =
     requireAuth env (clock 0) down cookie (\<lambda>user. withCapability ''org.update'' user
     (check (orgInputInvalid rawName rawSlug) (aeIssue env)
     (let name = map_option trim rawName; slug = map_option trim rawSlug in
      check (name = None \<and> slug = None) (BadRequestError ''At least one field (name or slug) is required'')
     (select (slugTaken slug (auOrg user)) (\<lambda>taken.
      check taken (BadRequestError ''This slug is already taken'')
     (attempt (saveOrg (auOrg user) name slug (clock 1)) (\<lambda>g. Answer (Inr g))))))))"

definition membersRoute :: "authEnv \<Rightarrow> ms \<Rightarrow> bool \<Rightarrow> string option \<Rightarrow> (accountDb, appError + accountRow list) request" where
  "membersRoute env now down cookie =
     requireAuth env now down cookie (\<lambda>user.
     select (\<lambda>db. sort_key acCreatedAt (filter (\<lambda>a. acOrg a = Some (auOrg user)) (accounts db))) (\<lambda>rows. Answer (Inr rows)))"

definition invitesRoute :: "authEnv \<Rightarrow> (nat \<Rightarrow> ms) \<Rightarrow> bool \<Rightarrow> string option \<Rightarrow> (accountDb, appError + pendingInviteView list) request" where
  "invitesRoute env clock down cookie =
     requireAuth env (clock 0) down cookie (\<lambda>user. withCapability ''team.invite'' user
     (select (listPendingInvites (auOrg user) (clock 1)) (\<lambda>vs. Answer (Inr vs))))"

text \<open>The role of the schemas: \<open>z.enum(ASSIGNABLE_ROLES)\<close>, with a default for an invitation.\<close>

definition sendInviteRoute ::
    "authEnv \<Rightarrow> (nat \<Rightarrow> ms) \<Rightarrow> bool \<Rightarrow> string option \<Rightarrow> uuid \<Rightarrow> nat list \<Rightarrow> string \<Rightarrow> string option
      \<Rightarrow> (accountDb, appError + pendingInviteView) request" where
  "sendInviteRoute env clock down cookie newId bytes rawEmail rawRole =
     requireAuth env (clock 0) down cookie (\<lambda>user. withCapability ''team.invite'' user
     (readEmail env rawEmail (\<lambda>email.
     (let role = (case rawRole of None \<Rightarrow> ''editor'' | Some r \<Rightarrow> r) in
      check (role \<notin> set ASSIGNABLE_ROLES) (aeIssue env)
     (createInvite (\<lambda>n. clock (n + 1)) newId bytes
        \<lparr>ciOrg = auOrg user, ciInvitedBy = auId user, ciEmail = email, ciRole = role\<rparr>)))))"

definition revokeInviteRoute :: "authEnv \<Rightarrow> (nat \<Rightarrow> ms) \<Rightarrow> bool \<Rightarrow> string option \<Rightarrow> uuid \<Rightarrow> (accountDb, appError + unit) request" where
  "revokeInviteRoute env clock down cookie i =
     requireAuth env (clock 0) down cookie (\<lambda>user. withCapability ''team.invite'' user
     (execute (revokeInvite i (auOrg user) (clock 1)) (Answer (Inr ()))))"

section \<open>Members\<close>

text \<open>The target of a change: a member of the caller's organization, other than the caller.\<close>

definition withTarget ::
    "authUser \<Rightarrow> uuid \<Rightarrow> string \<Rightarrow> (accountRow \<Rightarrow> (accountDb, appError + 'r) request) \<Rightarrow> (accountDb, appError + 'r) request" where
  "withTarget user target selfMessage next =
     check (target = auId user) (BadRequestError selfMessage)
     (select (memberOf target (auOrg user)) (\<lambda>found.
        case found of None \<Rightarrow> Answer (Inl (notFound ''User'' target)) | Some a \<Rightarrow> next a))"

definition cannotManage :: "authUser \<Rightarrow> accountRow \<Rightarrow> string \<Rightarrow> string \<Rightarrow> appError" where
  "cannotManage user a ownerMessage adminMessage =
     ForbiddenError (if acRole a = ''owner'' then ownerMessage else adminMessage)"

text \<open>An update with \<open>executeTakeFirstOrThrow\<close>: it raises when the row is gone.\<close>

definition changeRole :: "uuid \<Rightarrow> string \<Rightarrow> accountDb \<Rightarrow> appError + accountDb \<times> accountRow" where
  "changeRole i role db =
     (case accountById i db of
        None \<Rightarrow> Inl noResult
      | Some a \<Rightarrow> Inr (setAccount (\<lambda>b. acId b = i) (\<lambda>b. b\<lparr>acRole := role\<rparr>) db, a\<lparr>acRole := role\<rparr>))"

definition updateRoleRoute ::
    "authEnv \<Rightarrow> ms \<Rightarrow> bool \<Rightarrow> string option \<Rightarrow> uuid \<Rightarrow> string \<Rightarrow> (accountDb, appError + accountRow) request" where
  "updateRoleRoute env now down cookie target role =
     requireAuth env now down cookie (\<lambda>user. withCapability ''team.update_role'' user
     (check (role \<notin> set ASSIGNABLE_ROLES) (aeIssue env)
     (withTarget user target ''You cannot change your own role. Ask another admin or the owner.'' (\<lambda>a.
      check (\<not> canManage (auRole user) (acRole a))
        (cannotManage user a ''Cannot change the role of the organization owner.''
           (''Only the owner can change another admin'' @ [CHR 0x27] @ ''s role.''))
     (attempt (changeRole target role) (\<lambda>b. Answer (Inr b)))))))"

definition detach :: "uuid \<Rightarrow> accountDb \<Rightarrow> accountDb" where
  "detach i = setAccount (\<lambda>a. acId a = i) (\<lambda>a. a\<lparr>acOrg := None, acRole := ''viewer''\<rparr>)"

definition removeMemberRoute :: "authEnv \<Rightarrow> ms \<Rightarrow> bool \<Rightarrow> string option \<Rightarrow> uuid \<Rightarrow> (accountDb, appError + unit) request" where
  "removeMemberRoute env now down cookie target =
     requireAuth env now down cookie (\<lambda>user. withCapability ''team.remove'' user
     (withTarget user target ''Cannot remove yourself from the organization'' (\<lambda>a.
      check (\<not> canManage (auRole user) (acRole a))
        (cannotManage user a ''Cannot remove the organization owner.'' ''Only the owner can remove another admin.'')
     (execute (detach target) (Answer (Inr ()))))))"

text \<open>The transaction of a transfer: the caller steps down first, if still the owner; then the successor is raised.\<close>

definition ownershipChanged :: appError where
  "ownershipChanged = ConflictError ''Ownership changed while this request was in flight. Reload and try again.''"

definition transferOwnership :: "uuid \<Rightarrow> uuid \<Rightarrow> uuid \<Rightarrow> accountDb \<Rightarrow> appError + accountDb \<times> unit" where
  "transferOwnership caller org target db =
     (if list_ex (\<lambda>a. acId a = caller \<and> acRole a = ''owner'') (accounts db)
      then Inr (setAccount (\<lambda>a. acId a = target \<and> acOrg a = Some org) (\<lambda>a. a\<lparr>acRole := ''owner''\<rparr>)
             (setAccount (\<lambda>a. acId a = caller \<and> acRole a = ''owner'') (\<lambda>a. a\<lparr>acRole := ''admin''\<rparr>) db), ())
      else Inl ownershipChanged)"

definition transferRoute :: "authEnv \<Rightarrow> ms \<Rightarrow> bool \<Rightarrow> string option \<Rightarrow> uuid \<Rightarrow> (accountDb, appError + uuid \<times> uuid) request" where
  "transferRoute env now down cookie target =
     requireAuth env now down cookie (\<lambda>user. withCapability ''org.transfer_ownership'' user
     (withTarget user target ''You are already the owner.'' (\<lambda>a.
      attempt (transferOwnership (auId user) (auOrg user) target) (\<lambda>_. Answer (Inr (target, auId user))))))"

definition leaveRoute :: "authEnv \<Rightarrow> ms \<Rightarrow> bool \<Rightarrow> string option \<Rightarrow> (accountDb, appError + unit) request" where
  "leaveRoute env now down cookie =
     requireAuth env now down cookie (\<lambda>user.
     check (auRole user = ''owner'')
       (ForbiddenError (''The organization owner can'' @ [CHR 0x27] @ ''t leave. Transfer ownership or delete the organization first.''))
     (execute (detach (auId user)) (Answer (Inr ()))))"

end
