(* ===== verification/Portal.thy ===== *)
theory Portal
  imports SessionRoutes
begin

text \<open>
  \<^verbatim>\<open>src/services/portal-access.service.ts\<close> and \<^verbatim>\<open>src/api/routes/portal/index.ts\<close>: the links that sign an
  end user into the portal of one record. The row holds the hash of a link's token (\<open>aeHash\<close>, SHA-256 in hex).
  Whether the mail of a link fails is an argument; its failure is caught, and only \<^verbatim>\<open>last_sent_at\<close> tells.
\<close>

section \<open>Issuing a link\<close>

definition PORTAL_ROLE :: string where
  "PORTAL_ROLE = ''viewer''"

record issueInput =
  ipOrg :: uuid
  ipEmail :: string
  ipSubjectType :: string
  ipSubjectId :: string
  ipCreatedBy :: "uuid option"
  ipExpiresInDays :: "int option"
  ipSendEmail :: bool

record issuedAccess =
  isAccess :: portalRow
  isToken :: string
  isReplacedPrevious :: bool
  isProvisionedUser :: bool

record portalDraws =
  pdUserId :: uuid
  pdRowId :: uuid
  pdBytes :: "nat list"
  pdMailFails :: bool

definition generatePortalToken :: "nat list \<Rightarrow> string" where
  "generatePortalToken bytes = b64url bytes"

definition findOrCreatePortalUser ::
    "ms \<Rightarrow> uuid \<Rightarrow> string \<Rightarrow> uuid \<Rightarrow> (uuid \<times> bool \<Rightarrow> (accountDb, appError + 'r) request) \<Rightarrow> (accountDb, appError + 'r) request" where
  "findOrCreatePortalUser now newId email org next =
     select (accountByEmail email) (\<lambda>found.
       case found of
         Some a \<Rightarrow> next (acId a, False)
       | None \<Rightarrow> attempt (insertAccount (newAccount newId now email None PORTAL_ROLE org)) (\<lambda>a. next (acId a, True)))"

definition liveLink :: "uuid \<Rightarrow> string \<Rightarrow> string \<Rightarrow> string \<Rightarrow> portalRow \<Rightarrow> bool" where
  "liveLink org subjectType subjectId email t \<longleftrightarrow>
     ptOrg t = org \<and> ptSubjectType t = subjectType \<and> ptSubjectId t = subjectId \<and> ptEmail t = email \<and> ptRevokedAt t = None"

definition retireLinks :: "uuid \<Rightarrow> string \<Rightarrow> string \<Rightarrow> string \<Rightarrow> ms \<Rightarrow> accountDb \<Rightarrow> accountDb \<times> bool" where
  "retireLinks org subjectType subjectId email now db =
     (db\<lparr>portalTokens := updateWhere (liveLink org subjectType subjectId email) (\<lambda>t. t\<lparr>ptRevokedAt := Some now\<rparr>) (portalTokens db)\<rparr>,
      list_ex (liveLink org subjectType subjectId email) (portalTokens db))"

definition insertLink :: "portalRow \<Rightarrow> accountDb \<Rightarrow> appError + accountDb \<times> portalRow" where
  "insertLink t db =
     (if ptId t \<in> ptId ` set (portalTokens db) \<or> ptTokenHash t \<in> ptTokenHash ` set (portalTokens db)
      then Inl uniqueViolation else Inr (db\<lparr>portalTokens := portalTokens db @ [t]\<rparr>, t))"

definition setLink :: "(portalRow \<Rightarrow> bool) \<Rightarrow> (portalRow \<Rightarrow> portalRow) \<Rightarrow> accountDb \<Rightarrow> accountDb" where
  "setLink p f db = db\<lparr>portalTokens := updateWhere p f (portalTokens db)\<rparr>"

definition linkExpiry :: "int option \<Rightarrow> ms \<Rightarrow> ms option" where
  "linkExpiry days now =
     (case days of Some d \<Rightarrow> if d > 0 then Some (now + d * 24 * 60 * 60 * 1000) else None | None \<Rightarrow> None)"

definition issuePortalAccess ::
    "authEnv \<Rightarrow> (nat \<Rightarrow> ms) \<Rightarrow> portalDraws \<Rightarrow> issueInput \<Rightarrow> (accountDb, appError + issuedAccess) request" where
  "issuePortalAccess env clock draws inp =
     (let email = toLowerCase (trim (ipEmail inp)); token = generatePortalToken (pdBytes draws) in
      check (email = []) (ForbiddenError ''A portal link needs a recipient address.'')
     (findOrCreatePortalUser (clock 0) (pdUserId draws) email (ipOrg inp) (\<lambda>(userId, provisioned).
      returning (retireLinks (ipOrg inp) (ipSubjectType inp) (ipSubjectId inp) email (clock 1)) (\<lambda>retired.
      attempt (insertLink
        \<lparr>ptId = pdRowId draws, ptOrg = ipOrg inp, ptUser = userId, ptEmail = email, ptSubjectType = ipSubjectType inp,
         ptSubjectId = ipSubjectId inp, ptTokenHash = aeHash env token, ptExpiresAt = linkExpiry (ipExpiresInDays inp) (clock 2),
         ptRevokedAt = None, ptLastSentAt = None, ptLastUsedAt = None, ptCreatedBy = ipCreatedBy inp, ptCreatedAt = clock 3\<rparr>)
        (\<lambda>t.
      (let answer = Answer (Inr \<lparr>isAccess = t, isToken = token, isReplacedPrevious = retired, isProvisionedUser = provisioned\<rparr>)
       in if ipSendEmail inp
          then select (orgById (Some (ipOrg inp))) (\<lambda>_.
               if pdMailFails draws then answer
               else execute (setLink (\<lambda>u. ptId u = ptId t) (\<lambda>u. u\<lparr>ptLastSentAt := Some (clock 4)\<rparr>)) answer)
          else answer))))))"

definition linkOf :: "uuid \<Rightarrow> uuid \<Rightarrow> accountDb \<Rightarrow> portalRow option" where
  "linkOf i org db = List.find (\<lambda>t. ptId t = i \<and> ptOrg t = org) (portalTokens db)"

definition resendPortalAccess ::
    "authEnv \<Rightarrow> (nat \<Rightarrow> ms) \<Rightarrow> portalDraws \<Rightarrow> uuid \<Rightarrow> uuid \<Rightarrow> uuid option \<Rightarrow> (accountDb, appError + issuedAccess) request" where
  "resendPortalAccess env clock draws accessId org requestedBy =
     select (linkOf accessId org) (\<lambda>found.
       case found of
         None \<Rightarrow> Answer (Inl (notFound ''Portal link'' []))
       | Some t \<Rightarrow>
           issuePortalAccess env clock draws
             \<lparr>ipOrg = org, ipEmail = ptEmail t, ipSubjectType = ptSubjectType t, ipSubjectId = ptSubjectId t,
              ipCreatedBy = (if requestedBy = None then ptCreatedBy t else requestedBy),
              ipExpiresInDays = None, ipSendEmail = True\<rparr>)"

definition revokePortalAccess :: "uuid \<Rightarrow> uuid \<Rightarrow> ms \<Rightarrow> accountDb \<Rightarrow> accountDb" where
  "revokePortalAccess accessId org now =
     setLink (\<lambda>t. ptId t = accessId \<and> ptOrg t = org \<and> ptRevokedAt t = None) (\<lambda>t. t\<lparr>ptRevokedAt := Some now\<rparr>)"

section \<open>Reading\<close>

definition listPortalAccess ::
    "uuid \<Rightarrow> string option \<Rightarrow> string option \<Rightarrow> bool \<Rightarrow> accountDb \<Rightarrow> portalRow list" where
  "listPortalAccess org subjectType subjectId includeInactive db =
     sort_key (\<lambda>t. - ptCreatedAt t)
       (filter (\<lambda>t. ptOrg t = org \<and> (truthy subjectType \<longrightarrow> Some (ptSubjectType t) = subjectType) \<and>
          (truthy subjectId \<longrightarrow> Some (ptSubjectId t) = subjectId) \<and> (includeInactive \<or> ptRevokedAt t = None)) (portalTokens db))"

definition unexpired :: "ms \<Rightarrow> portalRow \<Rightarrow> bool" where
  "unexpired now t \<longleftrightarrow> (case ptExpiresAt t of None \<Rightarrow> True | Some e \<Rightarrow> e > now)"

definition listPortalAccessForUser :: "uuid \<Rightarrow> ms \<Rightarrow> accountDb \<Rightarrow> portalRow list" where
  "listPortalAccessForUser userId now db =
     filter (unexpired now)
       (sort_key (\<lambda>t. - ptCreatedAt t) (filter (\<lambda>t. ptUser t = userId \<and> ptRevokedAt t = None) (portalTokens db)))"

section \<open>Claiming a link\<close>

record claimedAccess =
  clSession :: sessionUser
  clAccess :: portalRow

definition deadLink :: appError where
  "deadLink = notFound ''Portal link'' ''This portal link is invalid or has expired.''"

definition claimPortalAccess ::
    "authEnv \<Rightarrow> (nat \<Rightarrow> ms) \<Rightarrow> string \<Rightarrow> (accountDb, appError + claimedAccess) request" where
  "claimPortalAccess env clock token =
     select (\<lambda>db. List.find (\<lambda>t. ptTokenHash t = aeHash env token) (portalTokens db)) (\<lambda>found.
       case found of
         None \<Rightarrow> Answer (Inl deadLink)
       | Some t \<Rightarrow>
           check (ptRevokedAt t \<noteq> None \<or> \<not> unexpired (clock 0) t) deadLink
          (select (accountById (ptUser t)) (\<lambda>user.
             case user of
               None \<Rightarrow> Answer (Inl deadLink)
             | Some a \<Rightarrow>
                 execute (setLink (\<lambda>u. ptId u = ptId t) (\<lambda>u. u\<lparr>ptLastUsedAt := Some (clock 1)\<rparr>))
                (execute (markLogin (acId a) (clock 2))
                (Answer (Inr
                  \<lparr>clSession = \<lparr>suId = acId a, suEmail = acEmail a, suName = acName a,
                      suOrg = Some (case acOrg a of Some org \<Rightarrow> org | None \<Rightarrow> ptOrg t), suRole = acRole a\<rparr>,
                   clAccess = t\<rparr>))))))"

section \<open>The routes\<close>

definition claimPortalRoute ::
    "authEnv \<Rightarrow> (nat \<Rightarrow> ms) \<Rightarrow> string \<Rightarrow> (accountDb, appError + claims \<times> claimedAccess) request" where
  "claimPortalRoute env clock rawToken =
     check (trim rawToken = []) (aeIssue env)
     (andThen (claimPortalAccess env clock (trim rawToken)) (\<lambda>c.
      Answer (Inr (createSessionToken env (clock 3) (clSession c), c))))"

definition portalMeRoute :: "authEnv \<Rightarrow> (nat \<Rightarrow> ms) \<Rightarrow> bool \<Rightarrow> string option \<Rightarrow> (accountDb, appError + authUser \<times> portalRow list) request" where
  "portalMeRoute env clock down cookie =
     requireAuth env (clock 0) down cookie (\<lambda>user.
     select (listPortalAccessForUser (auId user) (clock 1)) (\<lambda>ts. Answer (Inr (user, ts))))"

definition issueInvalid :: "string \<Rightarrow> string \<Rightarrow> int option \<Rightarrow> bool" where
  "issueInvalid subjectType subjectId days \<longleftrightarrow>
     trim subjectType = [] \<or> trim subjectId = [] \<or> (case days of Some d \<Rightarrow> d \<le> 0 \<or> 3650 < d | None \<Rightarrow> False)"

definition issueRoute ::
    "authEnv \<Rightarrow> (nat \<Rightarrow> ms) \<Rightarrow> bool \<Rightarrow> string option \<Rightarrow> portalDraws \<Rightarrow> string \<Rightarrow> string \<Rightarrow> string \<Rightarrow> int option \<Rightarrow> bool option
      \<Rightarrow> (accountDb, appError + issuedAccess) request" where
  "issueRoute env clock down cookie draws rawEmail subjectType subjectId days sendEmail =
     requireAuth env (clock 5) down cookie (\<lambda>user. withCapability ''team.invite'' user
     (readEmail env rawEmail (\<lambda>email.
      check (issueInvalid subjectType subjectId days) (aeIssue env)
     (issuePortalAccess env clock draws
        \<lparr>ipOrg = auOrg user, ipEmail = email, ipSubjectType = trim subjectType, ipSubjectId = trim subjectId,
         ipCreatedBy = Some (auId user), ipExpiresInDays = days, ipSendEmail = (sendEmail \<noteq> Some False)\<rparr>))))"

definition listLinksRoute ::
    "authEnv \<Rightarrow> ms \<Rightarrow> bool \<Rightarrow> string option \<Rightarrow> string option \<Rightarrow> string option \<Rightarrow> string option
      \<Rightarrow> (accountDb, appError + portalRow list) request" where
  "listLinksRoute env now down cookie subjectType subjectId includeInactive =
     requireAuth env now down cookie (\<lambda>user. withCapability ''team.invite'' user
     (select (listPortalAccess (auOrg user) subjectType subjectId (includeInactive = Some ''true'')) (\<lambda>ts. Answer (Inr ts))))"

definition resendRoute ::
    "authEnv \<Rightarrow> (nat \<Rightarrow> ms) \<Rightarrow> bool \<Rightarrow> string option \<Rightarrow> portalDraws \<Rightarrow> uuid \<Rightarrow> (accountDb, appError + issuedAccess) request" where
  "resendRoute env clock down cookie draws accessId =
     requireAuth env (clock 5) down cookie (\<lambda>user. withCapability ''team.invite'' user
     (resendPortalAccess env clock draws accessId (auOrg user) (Some (auId user))))"

definition revokeLinkRoute ::
    "authEnv \<Rightarrow> (nat \<Rightarrow> ms) \<Rightarrow> bool \<Rightarrow> string option \<Rightarrow> uuid \<Rightarrow> (accountDb, appError + unit) request" where
  "revokeLinkRoute env clock down cookie accessId =
     requireAuth env (clock 0) down cookie (\<lambda>user. withCapability ''team.invite'' user
     (execute (revokePortalAccess accessId (auOrg user) (clock 1)) (Answer (Inr ()))))"

end
