(* ===== verification/VerificationSession.thy ===== *)
theory VerificationSession
  imports SessionRoutes JsNumber
begin

text \<open>
  \<^verbatim>\<open>src/lib/verification-session-token.ts\<close>, \<^verbatim>\<open>src/lib/verification-accounts.ts\<close> and
  \<^verbatim>\<open>src/api/routes/auth/verification-session.ts\<close>: the platform's verifier trades a signed token, once, for a
  short read-only session on an account of its own. \<open>jwtVerify\<close> with the route's options is an argument: the claims
  it accepts, or which of its errors it throws.
\<close>

section \<open>The token\<close>

datatype jwtResult = JwtClaims claims | JwtExpired | JwtInvalid

definition MAX_TOKEN_AGE_SECONDS :: int where
  "MAX_TOKEN_AGE_SECONDS = 600"

definition MIN_SESSION_TTL_SECONDS :: int where
  "MIN_SESSION_TTL_SECONDS = 300"

definition DEFAULT_SESSION_TTL_SECONDS :: int where
  "DEFAULT_SESSION_TTL_SECONDS = 900"

definition MAX_SESSION_TTL_SECONDS :: int where
  "MAX_SESSION_TTL_SECONDS = 1800"

text \<open>A number of a claim is an integer here, so it is finite and its own rounding.\<close>

definition clampSessionTtlSeconds :: "json option \<Rightarrow> int" where
  "clampSessionTtlSeconds requested =
     min MAX_SESSION_TTL_SECONDS (max MIN_SESSION_TTL_SECONDS
       (case requested of Some (JNum n) \<Rightarrow> n | _ \<Rightarrow> DEFAULT_SESSION_TTL_SECONDS))"

definition alnum :: "char \<Rightarrow> bool" where
  "alnum c \<longleftrightarrow> isUpper c \<or> isLower c \<or> isDigit c"

definition jtiOk :: "string \<Rightarrow> bool" where
  "jtiOk s \<longleftrightarrow> 16 \<le> length s \<and> length s \<le> 128 \<and> list_all (\<lambda>c. alnum c \<or> c = CHR ''_'' \<or> c = CHR ''-'') s"

definition roleOk :: "string \<Rightarrow> bool" where
  "roleOk s \<longleftrightarrow> s \<noteq> [] \<and> isLower (hd s) \<and> length s \<le> 32 \<and>
     list_all (\<lambda>c. isLower c \<or> isDigit c \<or> c = CHR ''_'' \<or> c = CHR ''-'') (tl s)"

definition labelOk :: "string \<Rightarrow> bool" where
  "labelOk s \<longleftrightarrow> s \<noteq> [] \<and> length s \<le> 128 \<and>
     list_all (\<lambda>c. alnum c \<or> c = CHR ''_'' \<or> c = CHR ''.'' \<or> c = CHR '':'' \<or> c = CHR ''-'') s"

record verificationClaims =
  vcProjectId :: string
  vcRole :: string
  vcJti :: string
  vcTicketId :: string
  vcRunId :: string
  vcTtlSeconds :: int

datatype tokenReason = Malformed | InvalidToken | ExpiredToken | WrongProject | NotReadOnly

definition reasonText :: "tokenReason \<Rightarrow> string" where
  "reasonText r =
     (case r of Malformed \<Rightarrow> ''malformed'' | InvalidToken \<Rightarrow> ''invalid'' | ExpiredToken \<Rightarrow> ''expired''
      | WrongProject \<Rightarrow> ''wrong_project'' | NotReadOnly \<Rightarrow> ''not_read_only'')"

definition claimText :: "claims \<Rightarrow> string \<Rightarrow> string option" where
  "claimText p name = (case map_of p name of Some (JStr s) \<Rightarrow> Some s | _ \<Rightarrow> None)"

definition shortLived :: "claims \<Rightarrow> bool" where
  "shortLived p \<longleftrightarrow>
     (case (map_of p ''iat'', map_of p ''exp'') of
        (Some (JNum iat), Some (JNum ex)) \<Rightarrow> ex - iat \<le> MAX_TOKEN_AGE_SECONDS | _ \<Rightarrow> False)"

definition verifyVerificationToken ::
    "(string \<Rightarrow> jwtResult) \<Rightarrow> string \<Rightarrow> string \<Rightarrow> tokenReason + verificationClaims" where
  "verifyVerificationToken jwtVerify expectedProjectId token =
     (if token = [] \<or> length token > 4096 \<or> length (splitOn (CHR ''.'') token) \<noteq> 3 then Inl Malformed
      else (case jwtVerify token of
          JwtExpired \<Rightarrow> Inl ExpiredToken
        | JwtInvalid \<Rightarrow> Inl InvalidToken
        | JwtClaims p \<Rightarrow>
            if \<not> shortLived p then Inl InvalidToken
            else if map_of p ''sub'' \<noteq> Some (JStr expectedProjectId) then Inl WrongProject
            else if map_of p ''ro'' \<noteq> Some (JBool True) then Inl NotReadOnly
            else (case (claimText p ''role'', claimText p ''jti'', claimText p ''ticket'', claimText p ''run'') of
                (Some role, Some jti, Some ticket, Some run) \<Rightarrow>
                  if roleOk role \<and> jtiOk jti \<and> labelOk ticket \<and> labelOk run
                  then Inr \<lparr>vcProjectId = expectedProjectId, vcRole = role, vcJti = jti, vcTicketId = ticket, vcRunId = run,
                            vcTtlSeconds = clampSessionTtlSeconds (map_of p ''ttl'')\<rparr>
                  else Inl Malformed
              | _ \<Rightarrow> Inl Malformed)))"

section \<open>The accounts\<close>

definition VERIFICATION_ROLES :: "string list" where
  "VERIFICATION_ROLES = [''admin'', ''editor'', ''viewer'', ''member'']"

definition VERIFICATION_ORG_SLUG :: string where
  "VERIFICATION_ORG_SLUG = ''alchemist-verification''"

definition isVerificationRole :: "string \<Rightarrow> bool" where
  "isVerificationRole role \<longleftrightarrow> role \<in> set VERIFICATION_ROLES"

definition storedVerificationRole :: "string \<Rightarrow> string" where
  "storedVerificationRole role = (if role = ''member'' then ''editor'' else role)"

definition verificationAccountEmail :: "string \<Rightarrow> string" where
  "verificationAccountEmail role = ''alchemist-verify-'' @ storedVerificationRole role @ ''@verification.invalid''"

definition verificationName :: "string \<Rightarrow> string" where
  "verificationName role = ''Alchemist verification ('' @ storedVerificationRole role @ '')''"

definition orgBySlug :: "string \<Rightarrow> accountDb \<Rightarrow> organizationRow option" where
  "orgBySlug slug db = List.find (\<lambda>g. onSlug g = Some slug) (organizations db)"

text \<open>An insert whose unique violation is caught: the request goes on with what it wrote, or with nothing.\<close>

definition tryInsert :: "('db \<Rightarrow> 'e + 'db \<times> 'a) \<Rightarrow> ('a option \<Rightarrow> ('db, 'r) request) \<Rightarrow> ('db, 'r) request" where
  "tryInsert f k =
     returning (\<lambda>db. case f db of Inl _ \<Rightarrow> (db, None) | Inr (db', x) \<Rightarrow> (db', Some x)) k"

definition findOrCreateVerificationOrg ::
    "ms \<Rightarrow> uuid \<Rightarrow> (uuid \<Rightarrow> (accountDb, appError + 'r) request) \<Rightarrow> (accountDb, appError + 'r) request" where
  "findOrCreateVerificationOrg now newId next =
     select (orgBySlug VERIFICATION_ORG_SLUG) (\<lambda>found.
       case found of
         Some g \<Rightarrow> next (onId g)
       | None \<Rightarrow>
           tryInsert (insertOrg (newOrg newId now ''Alchemist verification'' VERIFICATION_ORG_SLUG)) (\<lambda>created.
             case created of
               Some g \<Rightarrow> next (onId g)
             | None \<Rightarrow> select (orgBySlug VERIFICATION_ORG_SLUG) (\<lambda>raced. orThrow raced (\<lambda>g. next (onId g)))))"

definition verificationUser :: "string \<Rightarrow> uuid \<Rightarrow> uuid \<Rightarrow> sessionUser" where
  "verificationUser role org i =
     \<lparr>suId = i, suEmail = verificationAccountEmail role, suName = Some (verificationName role), suOrg = Some org,
      suRole = storedVerificationRole role\<rparr>"

definition provisionVerificationAccount ::
    "ms \<Rightarrow> uuid \<Rightarrow> uuid \<Rightarrow> string \<Rightarrow> (accountDb, appError + sessionUser) request" where
  "provisionVerificationAccount now orgId userId role =
     check (\<not> isVerificationRole role) (PlainError (''role '' @ quoted role @ '' is not a verification role''))
     (findOrCreateVerificationOrg now orgId (\<lambda>org.
      let stored = storedVerificationRole role; email = verificationAccountEmail role;
          found = (\<lambda>i. Answer (Inr (verificationUser role org i)))
      in select (accountByEmail email) (\<lambda>existing.
        case existing of
          Some a \<Rightarrow>
            if acRole a \<noteq> stored \<or> acOrg a \<noteq> Some org
            then execute (setAccount (\<lambda>b. acId b = acId a) (\<lambda>b. b\<lparr>acRole := stored, acOrg := Some org\<rparr>)) (found (acId a))
            else found (acId a)
        | None \<Rightarrow>
            tryInsert (insertAccount (newAccount userId now email (Some (verificationName role)) stored org)) (\<lambda>created.
              case created of
                Some a \<Rightarrow> found (acId a)
              | None \<Rightarrow> select (accountByEmail email) (\<lambda>raced. orThrow raced (\<lambda>a. found (acId a)))))))"

section \<open>The route\<close>

record verificationConfig =
  vnSecret :: string
  vnProjectId :: string

definition verificationSessionConfig :: "string option \<Rightarrow> string option \<Rightarrow> verificationConfig option" where
  "verificationSessionConfig secretEnv projectEnv =
     (let secret = (case secretEnv of None \<Rightarrow> [] | Some s \<Rightarrow> trim s);
          projectId = (case projectEnv of None \<Rightarrow> [] | Some s \<Rightarrow> trim s)
      in if length secret < 32 \<or> projectId = [] then None else Some \<lparr>vnSecret = secret, vnProjectId = projectId\<rparr>)"

text \<open>\<^verbatim>\<open>/^Bearer\s+(\S+)$/i\<close> on the trimmed header.\<close>

definition bearerToken :: "string option \<Rightarrow> string option" where
  "bearerToken header =
     (let h = trim (case header of None \<Rightarrow> [] | Some s \<Rightarrow> s); rest = drop 6 h; token = dropWhile jsSpace rest in
      if map lowerChar (take 6 h) = ''bearer'' \<and> rest \<noteq> [] \<and> jsSpace (hd rest) \<and> token \<noteq> [] \<and> list_all (\<lambda>c. \<not> jsSpace c) token
      then Some token else None)"

definition claimJti :: "uuid \<Rightarrow> verificationClaims \<Rightarrow> accountDb \<Rightarrow> accountDb \<times> bool" where
  "claimJti newId c db =
     (case insertOnConflictDoNothing vfJti
         \<lparr>vfId = newId, vfJti = vcJti c, vfTicketId = vcTicketId c, vfRunId = vcRunId c, vfRole = vcRole c,
          vfStatus = VsClaimed, vfUser = None, vfExpiresAt = None\<rparr> (verificationRows db) of
        (rows, won) \<Rightarrow> (db\<lparr>verificationRows := rows\<rparr>, won))"

definition setVerification :: "uuid \<Rightarrow> (verificationRow \<Rightarrow> verificationRow) \<Rightarrow> accountDb \<Rightarrow> accountDb" where
  "setVerification i f db = db\<lparr>verificationRows := updateWhere (\<lambda>r. vfId r = i) f (verificationRows db)\<rparr>"

definition markIssued :: "uuid \<Rightarrow> ms \<Rightarrow> verificationRow \<Rightarrow> verificationRow" where
  "markIssued user expiresAt r = r\<lparr>vfStatus := VsIssued, vfUser := Some user, vfExpiresAt := Some expiresAt\<rparr>"

record verificationIssued =
  viToken :: claims
  viExpiresAt :: ms
  viUser :: sessionUser

definition rejected :: "string \<Rightarrow> appError" where
  "rejected reason = UnauthorizedError (''Verification token rejected ('' @ reason @ '')'')"

definition verificationSessionRoute ::
    "(string \<Rightarrow> string \<Rightarrow> jwtResult) \<Rightarrow> verificationConfig option \<Rightarrow> (nat \<Rightarrow> ms) \<Rightarrow> uuid \<Rightarrow> uuid \<Rightarrow> uuid \<Rightarrow> string option
      \<Rightarrow> (accountDb, appError + verificationIssued) request" where
  "verificationSessionRoute jwtVerify config clock rowId orgId userId header =
     (case config of
        None \<Rightarrow> Answer (Inl (notFound ''Route not found'' []))
      | Some cfg \<Rightarrow>
          (case bearerToken header of
             None \<Rightarrow> Answer (Inl (UnauthorizedError ''Verification token required''))
           | Some token \<Rightarrow>
               (case verifyVerificationToken (jwtVerify (vnSecret cfg)) (vnProjectId cfg) token of
                  Inl reason \<Rightarrow> Answer (Inl (rejected (reasonText reason)))
                | Inr c \<Rightarrow>
                    check (\<not> isVerificationRole (vcRole c))
                      (ForbiddenError (''Role '' @ quoted (vcRole c) @ '' is not available for verification sessions''))
                   (returning (claimJti rowId c) (\<lambda>won.
                    check (\<not> won) (rejected ''replayed'')
                   (andThen (rescue (provisionVerificationAccount (clock 0) orgId userId (vcRole c))
                       (\<lambda>e. execute (setVerification rowId (\<lambda>r. r\<lparr>vfStatus := VsFailed\<rparr>)) (Answer (Inl e)))) (\<lambda>u.
                    let expiresAt = clock 1 + vcTtlSeconds c * 1000 in
                    execute (setVerification rowId (markIssued (suId u) expiresAt))
                   (Answer (Inr \<lparr>viToken = createVerificationSessionToken (clock 2) (vcTtlSeconds c) (vcJti c) u,
                                  viExpiresAt = expiresAt, viUser = u\<rparr>)))))))))"

end
