(* ===== verification/AccountInvariants.thy ===== *)
theory AccountInvariants
  imports OAuth Team Portal VerificationSession
begin

text \<open>
  What every statement on the account tables keeps: the lemmas that a statement preserves the state of the
  tables (\<open>accountInv\<close>) and moves them along \<open>accountGrew\<close>. \<open>moves\<close> is both. The tables are grouped: a
  statement on one group leaves the others' conditions as they are.
\<close>

section \<open>The guarantee\<close>

lemma inviteKept_refl [simp]: "inviteKept v v"
  by (simp add: inviteKept_def)

lemma inviteKept_trans: "inviteKept u v \<Longrightarrow> inviteKept v w \<Longrightarrow> inviteKept u w"
  by (auto simp: inviteKept_def)

lemma portalKept_refl [simp]: "portalKept t t"
  by (simp add: portalKept_def)

lemma portalKept_trans: "portalKept t u \<Longrightarrow> portalKept u v \<Longrightarrow> portalKept t v"
  by (auto simp: portalKept_def)

lemma invite_stays: "v \<in> A \<Longrightarrow> \<exists>w\<in>A. inviteKept v w"
  by (rule bexI [of _ v]) simp_all

lemma link_stays: "t \<in> A \<Longrightarrow> \<exists>u\<in>A. portalKept t u"
  by (rule bexI [of _ t]) simp_all

lemma accountGrew_refl [simp]: "accountGrew db db"
  by (auto simp: accountGrew_def intro: invite_stays link_stays)

lemma accountGrew_trans:
  assumes "accountGrew a b" and "accountGrew b c"
  shows "accountGrew a c"
proof -
  have "\<exists>w\<in>set (invites c). inviteKept v w" if "v \<in> set (invites a)" for v
    using assms that inviteKept_trans unfolding accountGrew_def by meson
  moreover have "\<exists>w\<in>set (portalTokens c). portalKept v w" if "v \<in> set (portalTokens a)" for v
    using assms that portalKept_trans unfolding accountGrew_def by meson
  moreover have "\<exists>es. trail c = es @ trail a"
    using assms unfolding accountGrew_def by (metis append.assoc)
  moreover have "acId ` set (accounts a) \<subseteq> acId ` set (accounts c)" "onId ` set (organizations a) \<subseteq> onId ` set (organizations c)"
    "set (map vfJti (verificationRows a)) \<subseteq> set (map vfJti (verificationRows c))"
    using assms unfolding accountGrew_def by (meson subset_trans)+
  ultimately show ?thesis by (simp add: accountGrew_def)
qed

definition moves :: "bool \<Rightarrow> accountDb \<Rightarrow> accountDb \<Rightarrow> bool" where
  "moves counted db db' \<longleftrightarrow> accountInv counted db' \<and> accountGrew db db'"

lemma moves_refl: "accountInv c db \<Longrightarrow> moves c db db"
  by (simp add: moves_def)

section \<open>Frames\<close>

text \<open>A statement on the people, on the codes, on the invitations, on the portal links, on the verification rows.\<close>

lemma people_moves:
  assumes "accountInv c db" and "peopleOk (db\<lparr>accounts := as, organizations := gs\<rparr>)"
    and "acId ` set (accounts db) \<subseteq> acId ` set as" and "onId ` set (organizations db) \<subseteq> onId ` set gs"
  shows "moves c db (db\<lparr>accounts := as, organizations := gs\<rparr>)"
proof -
  have "invitesOk (db\<lparr>accounts := as, organizations := gs\<rparr>)"
    using assms(1,3,4) unfolding accountInv_def invitesOk_def by fastforce
  moreover have "portalOk (db\<lparr>accounts := as, organizations := gs\<rparr>)"
    using assms(1,3,4) unfolding accountInv_def portalOk_def by fastforce
  moreover have "otpsOk c (db\<lparr>accounts := as, organizations := gs\<rparr>)"
    using assms(1) by (simp add: accountInv_def otpsOk_def)
  moreover have "accountGrew db (db\<lparr>accounts := as, organizations := gs\<rparr>)"
    using assms(3,4) by (auto simp: accountGrew_def intro: invite_stays link_stays)
  ultimately show ?thesis using assms(1,2) by (simp add: moves_def accountInv_def)
qed

lemma accounts_moves:
  assumes "accountInv c db" and "peopleOk (db\<lparr>accounts := as\<rparr>)" and "acId ` set (accounts db) \<subseteq> acId ` set as"
  shows "moves c db (db\<lparr>accounts := as\<rparr>)"
  using people_moves [where c = c and db = db and as = as and gs = "organizations db"] assms by simp

lemma organizations_moves:
  assumes "accountInv c db" and "peopleOk (db\<lparr>organizations := gs\<rparr>)"
    and "onId ` set (organizations db) \<subseteq> onId ` set gs"
  shows "moves c db (db\<lparr>organizations := gs\<rparr>)"
  using people_moves [where c = c and db = db and as = "accounts db" and gs = gs] assms by simp

lemma joinsOf_append: "joinsOf i (es @ fs) = joinsOf i es + joinsOf i fs"
  by (simp add: joinsOf_def)

lemma otps_moves:
  assumes "accountInv c db" and "otpsOk c (db\<lparr>otps := rs, trail := es @ trail db\<rparr>)" and "\<And>i. joinsOf i es = 0"
  shows "moves c db (db\<lparr>otps := rs, trail := es @ trail db\<rparr>)"
proof -
  have "joinsOf i (es @ trail db) = joinsOf i (trail db)" for i using assms(3) by (simp add: joinsOf_append)
  then show ?thesis
    using assms(1,2)
    by (auto simp: moves_def accountInv_def accountGrew_def peopleOk_def invitesOk_def portalOk_def
        intro: invite_stays link_stays)
qed

lemma otps_only_moves:
  assumes "accountInv c db" and "otpsOk c (db\<lparr>otps := rs\<rparr>)"
  shows "moves c db (db\<lparr>otps := rs\<rparr>)"
  using otps_moves [where c = c and db = db and rs = rs and es = "[]"] assms by (simp add: joinsOf_def)

lemma triesOf_other: "(\<And>j. e \<noteq> Tried j) \<Longrightarrow> (\<And>j. e \<noteq> Minted j) \<Longrightarrow> triesOf i (e # es) = triesOf i es"
  by (simp add: triesOf_def sinceMinted_def)

lemma openingsOf_other: "(\<And>j. e \<noteq> Opened j) \<Longrightarrow> (\<And>j. e \<noteq> Minted j) \<Longrightarrow> openingsOf i (e # es) = openingsOf i es"
  by (simp add: openingsOf_def sinceMinted_def)

lemma invites_moves:
  assumes "accountInv c db" and "invitesOk (db\<lparr>invites := vs, trail := es @ trail db\<rparr>)"
    and "\<And>v. v \<in> set (invites db) \<Longrightarrow> \<exists>w\<in>set vs. inviteKept v w" and "set es \<subseteq> range Joined"
  shows "moves c db (db\<lparr>invites := vs, trail := es @ trail db\<rparr>)"
proof -
  have "triesOf i (es @ trail db) = triesOf i (trail db)" "openingsOf i (es @ trail db) = openingsOf i (trail db)" for i
    using assms(4) by (induction es) (auto simp: triesOf_other openingsOf_other)
  then show ?thesis
    using assms(1-3)
    by (auto simp: moves_def accountInv_def accountGrew_def peopleOk_def otpsOk_def portalOk_def
        intro: link_stays)
qed

lemma invites_only_moves:
  assumes "accountInv c db" and "invitesOk (db\<lparr>invites := vs\<rparr>)"
    and "\<And>v. v \<in> set (invites db) \<Longrightarrow> \<exists>w\<in>set vs. inviteKept v w"
  shows "moves c db (db\<lparr>invites := vs\<rparr>)"
  using invites_moves [where c = c and db = db and vs = vs and es = "[]"] assms by simp

lemma portal_moves:
  assumes "accountInv c db" and "portalOk (db\<lparr>portalTokens := ts\<rparr>)"
    and "\<And>t. t \<in> set (portalTokens db) \<Longrightarrow> \<exists>u\<in>set ts. portalKept t u"
  shows "moves c db (db\<lparr>portalTokens := ts\<rparr>)"
  using assms by (auto simp: moves_def accountInv_def accountGrew_def peopleOk_def otpsOk_def invitesOk_def
      intro: invite_stays)

lemma verification_moves:
  assumes "accountInv c db" and "distinct (map vfJti rows)"
    and "vfJti ` set (verificationRows db) \<subseteq> vfJti ` set rows"
  shows "moves c db (db\<lparr>verificationRows := rows\<rparr>)"
  using assms by (auto simp: moves_def accountInv_def accountGrew_def peopleOk_def otpsOk_def invitesOk_def portalOk_def
      intro: invite_stays link_stays)

section \<open>Statements on accounts and organizations\<close>

lemma setAccount_moves:
  assumes "accountInv c db" and "\<And>a. acId (f a) = acId a" and "\<And>a. acEmail (f a) = acEmail a"
    and "\<And>a. a \<in> set (accounts db) \<Longrightarrow> p a \<Longrightarrow> acRole (f a) \<in> set ROLES"
    and "\<And>a org. a \<in> set (accounts db) \<Longrightarrow> p a \<Longrightarrow> acOrg (f a) = Some org \<Longrightarrow> org \<in> onId ` set (organizations db)"
  shows "moves c db (setAccount p f db)"
  unfolding setAccount_def
proof (rule accounts_moves [OF assms(1)])
  show "peopleOk (db\<lparr>accounts := updateWhere p f (accounts db)\<rparr>)"
    using assms by (auto simp: accountInv_def peopleOk_def map_updateWhere elim!: in_updateWhereE)
  have "map acId (updateWhere p f (accounts db)) = map acId (accounts db)" by (rule map_updateWhere) (rule assms(2))
  then show "acId ` set (accounts db) \<subseteq> acId ` set (updateWhere p f (accounts db))"
    by (metis list.set_map order_refl)
qed

text \<open>An update that leaves the role and the organization alone, and one that sets both.\<close>

lemma quietAccount_moves:
  assumes "accountInv c db" and "\<And>a. acId (f a) = acId a \<and> acEmail (f a) = acEmail a \<and> acRole (f a) = acRole a \<and> acOrg (f a) = acOrg a"
  shows "moves c db (setAccount p f db)"
  using assms by (intro setAccount_moves) (auto simp: accountInv_def peopleOk_def)

lemma assignable_is_role: "role \<in> set ASSIGNABLE_ROLES \<Longrightarrow> role \<in> set ROLES"
  by (auto simp: ASSIGNABLE_ROLES_def ROLES_def)

lemma distinct_map_filter_snoc_update:
  assumes "distinct (map key (filter q t))"
    and "\<And>r s. r \<in> set t \<Longrightarrow> s \<in> set t \<Longrightarrow> p r \<Longrightarrow> p s \<Longrightarrow> r = s" and "distinct t"
    and "\<And>r. r \<in> set t \<Longrightarrow> \<not> p r \<Longrightarrow> key r \<noteq> k" and "\<And>r. r \<in> set t \<Longrightarrow> p r \<Longrightarrow> key (f r) = k"
  shows "distinct (map key (filter q (updateWhere p f t)))"
  using assms
proof (induction t)
  case (Cons r t)
  have tail: "distinct (map key (filter q (updateWhere p f t)))"
    using Cons.prems by (intro Cons.IH) (auto split: if_splits)
  show ?case
  proof (cases "p r")
    case True
    then have none: "\<not> p s" if "s \<in> set t" for s using Cons.prems(2,3) that by (metis distinct.simps(2) list.set_intros)
    then have "updateWhere p f t = t" by (intro updateWhere_none)
    moreover have "key s \<noteq> k" if "s \<in> set t" for s using Cons.prems(4) none that by simp
    ultimately show ?thesis using True tail Cons.prems(5) by (auto simp: updateWhere_def)
  next
    case False
    have "key s \<noteq> key r" if "s \<in> set (filter q (updateWhere p f t))" "q r" for s
    proof -
      from that(1) have "s \<in> set (updateWhere p f t)" "q s" by simp_all
      from this(1) show ?thesis
      proof (cases rule: in_updateWhereE)
        case (1 u)
        then show ?thesis using Cons.prems(4) [of r] Cons.prems(5) [of u] False by simp
      next
        case 2
        with \<open>q s\<close> have "key s \<in> key ` set (filter q t)" by simp
        moreover have "key r \<notin> key ` set (filter q t)" using Cons.prems(1) that(2) by simp
        ultimately show ?thesis by metis
      qed
    qed
    then have "key r \<notin> key ` set (filter q (updateWhere p f t))" if "q r" using that by (metis imageE)
    then show ?thesis using False tail by (simp add: updateWhere_Cons)
  qed
qed (simp add: updateWhere_def)

lemma map_filter_updateWhere:
  "(\<And>r. p r \<Longrightarrow> key (f r) = key r) \<Longrightarrow> (\<And>r. p r \<Longrightarrow> q (f r) = q r) \<Longrightarrow>
   map key (filter q (updateWhere p f t)) = map key (filter q t)"
  by (induction t) (auto simp: updateWhere_def)

lemma changeEmail_moves:
  assumes "accountInv c db" and "changeEmail i email db = Inr (db', x)"
  shows "moves c db db'"
proof -
  have free: "acEmail a \<noteq> email" if "a \<in> set (accounts db)" "acId a \<noteq> i" for a
    using assms(2) that by (auto simp: changeEmail_def findEmailCollision_def list_ex_iff split: if_splits)
  let ?as = "updateWhere (\<lambda>a. acId a = i) (\<lambda>a. a\<lparr>acEmail := email, acEmailVerified := True\<rparr>) (accounts db)"
  have db': "db' = db\<lparr>accounts := ?as\<rparr>"
    using assms(2) by (simp add: changeEmail_def setAccount_def split: if_splits)
  have ids: "map acId ?as = map acId (accounts db)" by (rule map_updateWhere) simp
  have "distinct (map acId (accounts db))" "distinct (map acEmail (accounts db))"
    using assms(1) by (simp_all add: accountInv_def peopleOk_def)
  then have "distinct (map acEmail (filter (\<lambda>_. True) ?as))"
    using free
    by (intro distinct_map_filter_snoc_update [where k = email])
      (auto simp: distinct_map intro: distinct_key_eq [of acId "accounts db"])
  then have "peopleOk (db\<lparr>accounts := ?as\<rparr>)"
    using assms(1) ids by (auto simp: accountInv_def peopleOk_def elim!: in_updateWhereE)
  then show ?thesis
    unfolding db' using ids by (intro accounts_moves [OF assms(1)]) (simp, metis list.set_map order_refl)
qed

lemma insertAccount_moves:
  assumes "accountInv c db" and "insertAccount a db = Inr (db', b)" and "acRole a \<in> set ROLES"
    and "\<And>org. acOrg a = Some org \<Longrightarrow> org \<in> onId ` set (organizations db)"
  shows "moves c db db' \<and> b = a \<and> acId a \<in> acId ` set (accounts db')"
proof -
  have new: "acId a \<notin> acId ` set (accounts db)" "acEmail a \<notin> acEmail ` set (accounts db)"
    and db': "db' = db\<lparr>accounts := accounts db @ [a]\<rparr>" "b = a"
    using assms(2) by (auto simp: insertAccount_def split: if_splits)
  have "peopleOk (db\<lparr>accounts := accounts db @ [a]\<rparr>)"
    using assms new by (auto simp: accountInv_def peopleOk_def)
  then show ?thesis unfolding db' by (auto intro!: accounts_moves [OF assms(1)])
qed

lemma insertOrg_moves:
  assumes "accountInv c db" and "insertOrg g db = Inr (db', h)"
  shows "moves c db db' \<and> h = g \<and> onId g \<in> onId ` set (organizations db') \<and> onId g \<notin> onId ` set (organizations db) \<and>
    accounts db' = accounts db"
proof -
  have new: "onId g \<notin> onId ` set (organizations db)" "onSlug g \<noteq> None \<Longrightarrow> onSlug g \<notin> onSlug ` set (organizations db)"
    and db': "db' = db\<lparr>organizations := organizations db @ [g]\<rparr>" "h = g"
    using assms(2) by (auto simp: insertOrg_def split: if_splits)
  have "peopleOk (db\<lparr>organizations := organizations db @ [g]\<rparr>)"
    using assms new by (auto simp: accountInv_def peopleOk_def)
  then show ?thesis unfolding db' using new by (auto intro!: organizations_moves [OF assms(1)])
qed

lemma signUp_moves:
  assumes "accountInv c db" and "signUp g a db = Inr (db', b, h)" and "acOrg a = Some (onId g)" and "acRole a = ''owner''"
  shows "moves c db db' \<and> accounts db' = accounts db @ [a] \<and> (\<forall>b\<in>set (accounts db). acOrg b \<noteq> acOrg a)"
proof -
  obtain db1 where g: "insertOrg g db = Inr (db1, g)" and a: "insertAccount a db1 = Inr (db', a)"
    using assms(2) by (auto simp: signUp_def ebind_Inr_iff insertOrg_def insertAccount_def split: if_splits)
  from insertOrg_moves [OF assms(1) g] have g': "moves c db db1" "onId g \<in> onId ` set (organizations db1)"
    "onId g \<notin> onId ` set (organizations db)" "accounts db1 = accounts db" by simp_all
  then have inv1: "accountInv c db1" by (simp add: moves_def)
  have "moves c db1 db'"
    using insertAccount_moves [OF inv1 a] assms(3,4) g'(2) by (simp add: ROLES_def)
  with g'(1) have "moves c db db'" by (auto simp: moves_def intro: accountGrew_trans)
  moreover have "accounts db' = accounts db @ [a]"
    using a g'(4) by (auto simp: insertAccount_def split: if_splits)
  moreover have "acOrg b \<noteq> acOrg a" if "b \<in> set (accounts db)" for b
    using assms(1,3) that g'(3) by (auto simp: accountInv_def peopleOk_def)
  ultimately show ?thesis by simp
qed

lemma saveOrg_moves:
  assumes "accountInv c db" and "saveOrg org name slug now db = Inr (db', g)"
  shows "moves c db db' \<and> accounts db' = accounts db"
proof -
  let ?gs = "updateWhere (\<lambda>h. onId h = org) (setOrg name slug now) (organizations db)"
  have db': "db' = db\<lparr>organizations := ?gs\<rparr>" and free: "\<not> slugTaken slug org db"
    using assms(2) by (auto simp: saveOrg_def split: option.splits if_splits)
  have ok: "distinct (map onId (organizations db))" "distinct (map onSlug (filter (\<lambda>g. onSlug g \<noteq> None) (organizations db)))"
    using assms(1) by (simp_all add: accountInv_def peopleOk_def)
  have ids: "map onId ?gs = map onId (organizations db)" by (rule map_updateWhere) (simp add: setOrg_def)
  have "distinct (map onSlug (filter (\<lambda>g. onSlug g \<noteq> None) ?gs))"
  proof (cases "slug = None")
    case True
    have "map onSlug (filter (\<lambda>g. onSlug g \<noteq> None) ?gs) = map onSlug (filter (\<lambda>g. onSlug g \<noteq> None) (organizations db))"
      by (rule map_filter_updateWhere) (simp_all add: setOrg_def True)
    with ok(2) show ?thesis by simp
  next
    case False
    show ?thesis
    proof (rule distinct_map_filter_snoc_update [where k = slug, OF ok(2)])
      fix r s assume rs: "r \<in> set (organizations db)" "s \<in> set (organizations db)" "onId r = org" "onId s = org"
      show "r = s" by (rule distinct_key_eq [OF ok(1) rs(1,2)]) (simp add: rs)
    next
      show "distinct (organizations db)" using ok(1) by (simp add: distinct_map)
    next
      fix r assume "r \<in> set (organizations db)" "onId r \<noteq> org"
      then show "onSlug r \<noteq> slug" using free False by (auto simp: slugTaken_def list_ex_iff)
    qed (simp add: setOrg_def False)
  qed
  then have "peopleOk (db\<lparr>organizations := ?gs\<rparr>)"
    using assms(1) ids by (auto simp: accountInv_def peopleOk_def simp del: set_map simp flip: set_map)
  then show ?thesis
    unfolding db' using ids by (simp, intro organizations_moves [OF assms(1)]) (simp, metis list.set_map order_refl)
qed

section \<open>Statements on the codes\<close>

lemma otpsOk_deleteWhere: "otpsOk c db \<Longrightarrow> otpsOk c (db\<lparr>otps := deleteWhere p (otps db)\<rparr>)"
  by (auto simp: otpsOk_def distinct_map_deleteWhere)

lemma deleteOtps_moves:
  assumes "accountInv c db"
  shows "moves c db (deleteOtps email db)" "moves c db (deleteExpired email now db)" "moves c db (deleteOtp i db)"
  using assms
  by (auto simp: deleteOtps_def deleteExpired_def deleteOtp_def accountInv_def intro!: otps_only_moves otpsOk_deleteWhere)

lemma otpsOk_update:
  assumes "otpsOk c db" and "\<And>r. otId (f r) = otId r"
    and "\<And>r. r \<in> set (otps db) \<Longrightarrow> p r \<Longrightarrow> 0 \<le> otAttempts (f r) \<and> otAttempts (f r) \<le> OTP_MAX_ATTEMPTS \<and>
       (c \<longrightarrow> otAttempts (f r) = otAttempts r)"
  shows "otpsOk c (db\<lparr>otps := updateWhere p f (otps db)\<rparr>)"
  using assms by (auto simp: otpsOk_def map_updateWhere elim!: in_updateWhereE)

lemma extendOtp_moves: "accountInv c db \<Longrightarrow> moves c db (extendOtp i e db)"
  unfolding extendOtp_def
  by (intro otps_only_moves otpsOk_update) (auto simp: accountInv_def otpsOk_def)

lemma setAttempts_moves:
  "accountInv False db \<Longrightarrow> 0 \<le> n \<Longrightarrow> n \<le> OTP_MAX_ATTEMPTS \<Longrightarrow> moves False db (setAttempts i n db)"
  unfolding setAttempts_def
  by (intro otps_only_moves otpsOk_update) (auto simp: accountInv_def)

lemma insertOtp_moves:
  assumes "accountInv c db" and "insertOtp r db = Inr (db', x)" and "otAttempts r = 0"
  shows "moves c db db'"
proof -
  have new: "otId r \<notin> otId ` set (otps db)" and db': "db' = db\<lparr>otps := otps db @ [r], trail := [Minted (otId r)] @ trail db\<rparr>"
    using assms(2) by (auto simp: insertOtp_def split: if_splits)
  have fresh: "triesOf (otId r) (Minted (otId r) # es) = 0" "openingsOf (otId r) (Minted (otId r) # es) = 0" for es
    by (simp_all add: triesOf_def openingsOf_def sinceMinted_def)
  have other: "triesOf j (Minted (otId r) # es) = triesOf j es" "openingsOf j (Minted (otId r) # es) = openingsOf j es"
    if "j \<noteq> otId r" for j es
    using that by (simp_all add: triesOf_def openingsOf_def sinceMinted_def)
  have each: "openingsOf j (Minted (otId r) # trail db) \<le> 1" "c \<Longrightarrow> int (triesOf j (Minted (otId r) # trail db)) \<le> OTP_MAX_ATTEMPTS" for j
    using assms(1) fresh other by (cases "j = otId r"; simp add: accountInv_def otpsOk_def OTP_MAX_ATTEMPTS_def)+
  have rows: "otId s \<noteq> otId r" if "s \<in> set (otps db)" for s using new that by (metis image_eqI)
  have "otpsOk c (db\<lparr>otps := otps db @ [r], trail := [Minted (otId r)] @ trail db\<rparr>)"
    using assms(1,3) new each fresh rows by (auto simp: accountInv_def otpsOk_def other OTP_MAX_ATTEMPTS_def)
  then show ?thesis unfolding db' by (rule otps_moves [OF assms(1)]) (simp add: joinsOf_def)
qed

lemma triesOf_claims:
  "triesOf i (map (\<lambda>r. Tried (otId r)) rs @ es) = length (filter (\<lambda>r. otId r = i) rs) + triesOf i es"
  by (induction rs) (auto simp: triesOf_def sinceMinted_def)

lemma openingsOf_claims: "openingsOf i (map (\<lambda>r. Tried (otId r)) rs @ es) = openingsOf i es"
  by (induction rs) (auto simp: openingsOf_other)

lemma count_key:
  assumes "distinct (map key t)"
  shows "length (filter (\<lambda>r. key r = k) (filter p t)) = (if \<exists>r\<in>set t. p r \<and> key r = k then 1 else 0)"
  using assms
proof (induction t)
  case (Cons r t)
  have "key s \<noteq> key r" if "s \<in> set t" for s
    using Cons.prems that by (metis distinct.simps(2) image_eqI list.set_map list.simps(9))
  then have "filter (\<lambda>s. p s \<and> key s = key r) t = []" by (simp add: filter_empty_conv)
  with Cons show ?case by (auto simp: filter_empty_conv conj_commute)
qed simp

lemma claimTries_moves:
  assumes "accountInv c db" and "claimTries email now db = (db', rows)"
  shows "moves c db db'"
proof -
  let ?p = "unspent email now" and ?es = "map (\<lambda>r. Tried (otId r)) (filter (unspent email now) (otps db))"
  have db': "db' = db\<lparr>otps := updateWhere ?p oneTry (otps db), trail := ?es @ trail db\<rparr>"
    using assms(2) by (simp add: claimTries_def)
  have ok: "otpsOk c db" and ids: "distinct (map otId (otps db))" using assms(1) by (simp_all add: accountInv_def otpsOk_def)
  have tries: "triesOf i (?es @ trail db) = (if \<exists>r\<in>set (otps db). ?p r \<and> otId r = i then 1 else 0) + triesOf i (trail db)" for i
    unfolding triesOf_claims by (subst count_key [OF ids]) simp
  have hit: "triesOf (otId r) (?es @ trail db) = (if ?p r then 1 else 0) + triesOf (otId r) (trail db)" if "r \<in> set (otps db)" for r
    using that distinct_key_eq [OF ids] unfolding tries by auto
  have "int (triesOf i (?es @ trail db)) \<le> OTP_MAX_ATTEMPTS" if c for i
  proof (cases "\<exists>r\<in>set (otps db). ?p r \<and> otId r = i")
    case True
    then obtain r where "r \<in> set (otps db)" "?p r" "otId r = i" by blast
    then show ?thesis using ok that hit [of r] by (auto simp: otpsOk_def unspent_def)
  next
    case False
    then have "triesOf i (?es @ trail db) = triesOf i (trail db)" unfolding tries by (simp only: if_False add_0)
    then show ?thesis using ok that by (simp add: otpsOk_def)
  qed
  moreover have "otpsOk False (db\<lparr>otps := updateWhere ?p oneTry (otps db)\<rparr>)"
    using ok by (intro otpsOk_update) (auto simp: otpsOk_def oneTry_def unspent_def)
  moreover have "otAttempts s = int (triesOf (otId s) (?es @ trail db))"
    if c "s \<in> set (updateWhere ?p oneTry (otps db))" for s
    using that(2)
  proof (cases rule: in_updateWhereE)
    case (1 r)
    then show ?thesis using ok that(1) hit [of r] by (simp add: otpsOk_def oneTry_def)
  next
    case 2
    then show ?thesis using ok that(1) hit [of s] by (simp add: otpsOk_def)
  qed
  ultimately have "otpsOk c (db\<lparr>otps := updateWhere ?p oneTry (otps db), trail := ?es @ trail db\<rparr>)"
    by (simp add: otpsOk_def openingsOf_claims)
  then show ?thesis unfolding db' by (rule otps_moves [OF assms(1)]) (simp add: joinsOf_def filter_empty_conv)
qed

lemma consumeOtp_moves:
  assumes "accountInv c db" and "consumeOtp i db = (db', won)"
  shows "moves c db db'"
proof (cases won)
  case True
  have there: "i \<in> otId ` set (otps db)"
    and db': "db' = db\<lparr>otps := deleteWhere (\<lambda>r. otId r = i) (otps db), trail := [Opened i] @ trail db\<rparr>"
    using assms(2) True by (auto simp: consumeOtp_def split: if_splits)
  have ok: "otpsOk c db" using assms(1) by (simp add: accountInv_def)
  have tries: "triesOf j (Opened i # trail db) = triesOf j (trail db)" for j by (simp add: triesOf_other)
  have opens: "openingsOf j (Opened i # trail db) = (if j = i then 1 else 0) + openingsOf j (trail db)" for j
    by (simp add: openingsOf_def sinceMinted_def)
  have "openingsOf i (trail db) = 0" using ok there by (auto simp: otpsOk_def)
  then have each: "openingsOf j (Opened i # trail db) \<le> 1" for j using ok by (simp add: opens otpsOk_def)
  have "otpsOk c (db\<lparr>otps := deleteWhere (\<lambda>r. otId r = i) (otps db), trail := [Opened i] @ trail db\<rparr>)"
    using ok each by (auto simp: otpsOk_def tries opens distinct_map_deleteWhere)
  then show ?thesis unfolding db' by (rule otps_moves [OF assms(1)]) (simp add: joinsOf_def)
next
  case False
  then have "db' = db" using assms(2) by (auto simp: consumeOtp_def split: if_splits)
  with assms(1) show ?thesis by (simp add: moves_refl)
qed

section \<open>Statements on the invitations, the portal links and the verification rows\<close>

lemma filter_updateWhere_out:
  "(\<And>r. p r \<Longrightarrow> \<not> q (f r)) \<Longrightarrow> filter q (updateWhere p f t) = filter (\<lambda>r. \<not> p r \<and> q r) t"
  by (induction t) (auto simp: updateWhere_def)

lemma distinct_key_subset: "distinct (map key (filter q t)) \<Longrightarrow> distinct (map key (filter (\<lambda>r. p r \<and> q r) t))"
  by (induction t) (auto split: if_splits)

lemma pending_shrinks:
  assumes "distinct (map inviteKey (filter pendingInvite t))" and "\<And>v. p v \<Longrightarrow> \<not> pendingInvite (f v)"
  shows "distinct (map inviteKey (filter pendingInvite (updateWhere p f t)))"
  using assms by (simp add: filter_updateWhere_out distinct_key_subset)

lemma setInvite_kept:
  assumes "v \<in> set (invites db)" and "\<And>w. p w \<Longrightarrow> inviteKept w (f w)"
  shows "\<exists>w\<in>set (updateWhere p f (invites db)). inviteKept v w"
proof (cases "p v")
  case True
  with assms(1) have "f v \<in> set (updateWhere p f (invites db))" by (rule updateWhere_in)
  then show ?thesis using assms(2) True by blast
next
  case False
  with assms(1) have "v \<in> set (updateWhere p f (invites db))" by (auto simp: set_updateWhere image_iff)
  then show ?thesis by (rule invite_stays)
qed

lemma revoke_moves:
  assumes "accountInv c db"
  shows "moves c db (setInvite p (\<lambda>w. w\<lparr>ivRevokedAt := Some now\<rparr>) db)"
  unfolding setInvite_def
proof (rule invites_only_moves [OF assms])
  let ?vs = "updateWhere p (\<lambda>w. w\<lparr>ivRevokedAt := Some now\<rparr>) (invites db)"
  have ok: "invitesOk db" using assms by (simp add: accountInv_def)
  have same: "map ivId ?vs = map ivId (invites db)" "map ivToken ?vs = map ivToken (invites db)"
    by (rule map_updateWhere, simp)+
  have ids: "ivId ` set ?vs = ivId ` set (invites db)" using same(1) by (metis list.set_map)
  have "distinct (map inviteKey (filter pendingInvite ?vs))"
    using ok by (intro pending_shrinks) (simp_all add: invitesOk_def pendingInvite_def)
  then show "invitesOk (db\<lparr>invites := ?vs\<rparr>)"
    using ok by (auto simp: invitesOk_def same ids elim!: in_updateWhereE)
qed (rule setInvite_kept, simp_all add: inviteKept_def)

lemma insertInvite_moves:
  assumes "accountInv c db" and "insertInvite v db = Inr (db', w)" and "pendingInvite v" and "ivRole v \<in> set ASSIGNABLE_ROLES"
    and "ivOrg v \<in> onId ` set (organizations db)" and "ivInvitedBy v \<in> acId ` set (accounts db)"
  shows "moves c db db'"
proof -
  have new: "ivId v \<notin> ivId ` set (invites db)" "ivToken v \<notin> ivToken ` set (invites db)"
    "inviteKey v \<notin> inviteKey ` set (filter pendingInvite (invites db))" and db': "db' = db\<lparr>invites := invites db @ [v]\<rparr>"
    using assms(2) by (auto simp: insertInvite_def split: if_splits)
  have "invitesOk (db\<lparr>invites := invites db @ [v]\<rparr>)"
    using assms(1,3-6) new by (auto simp: accountInv_def invitesOk_def pendingInvite_def)
  then show ?thesis unfolding db' by (rule invites_only_moves [OF assms(1)]) (auto intro: invite_stays)
qed

lemma consumeInvite_moves:
  assumes "accountInv c db" and "consumeInvite i now db = (db', won)"
  shows "moves c db db'"
proof (cases won)
  case True
  let ?p = "\<lambda>v. ivId v = i \<and> pendingInvite v" and ?f = "\<lambda>v. v\<lparr>ivAcceptedAt := Some now\<rparr>"
  obtain v where v: "v \<in> set (invites db)" "ivId v = i" "pendingInvite v"
    and db': "db' = db\<lparr>invites := updateWhere ?p ?f (invites db), trail := [Joined i] @ trail db\<rparr>"
    using assms(2) True by (auto simp: consumeInvite_def list_ex_iff split: if_splits)
  have ok: "invitesOk db" using assms(1) by (simp add: accountInv_def)
  have joins: "joinsOf j (Joined i # trail db) = (if j = i then 1 else 0) + joinsOf j (trail db)" for j
    by (simp add: joinsOf_def)
  have ids: "distinct (map ivId (invites db))" using ok by (simp add: invitesOk_def)
  have only: "w = v" if "w \<in> set (invites db)" "ivId w = i" for w
    by (rule distinct_key_eq [OF ids that(1) v(1)]) (simp add: that(2) v(2))
  have none: "joinsOf i (trail db) = 0" using ok v by (auto simp: invitesOk_def pendingInvite_def)
  have "distinct (map inviteKey (filter pendingInvite (updateWhere ?p ?f (invites db))))"
    using ok by (intro pending_shrinks) (simp_all add: invitesOk_def pendingInvite_def)
  moreover have "joinsOf (ivId w) (Joined i # trail db) = (if ivAcceptedAt w = None then 0 else 1)"
    if "w \<in> set (updateWhere ?p ?f (invites db))" for w
    using that
  proof (cases rule: in_updateWhereE)
    case (1 u)
    then show ?thesis using none by (simp add: joins)
  next
    case 2
    then have "ivId w \<noteq> i" using only v(3) by auto
    then show ?thesis using ok 2 by (simp add: joins invitesOk_def)
  qed
  moreover have "joinsOf j (Joined i # trail db) = 0" if "j \<notin> ivId ` set (updateWhere ?p ?f (invites db))" for j
  proof -
    have "map ivId (updateWhere ?p ?f (invites db)) = map ivId (invites db)" by (rule map_updateWhere) simp
    then have "j \<notin> ivId ` set (invites db)" using that by (metis list.set_map)
    then show ?thesis using ok v by (auto simp: joins invitesOk_def)
  qed
  ultimately have "invitesOk (db\<lparr>invites := updateWhere ?p ?f (invites db), trail := [Joined i] @ trail db\<rparr>)"
    using ok by (auto simp: invitesOk_def map_updateWhere elim!: in_updateWhereE)
  then show ?thesis
    unfolding db'
    by (rule invites_moves [OF assms(1)]) (rule setInvite_kept, auto simp: inviteKept_def pendingInvite_def)
next
  case False
  then have "db' = db" using assms(2) by (auto simp: consumeInvite_def split: if_splits)
  with assms(1) show ?thesis by (simp add: moves_refl)
qed

lemma setLink_moves:
  assumes "accountInv c db" and "\<And>t. p t \<Longrightarrow> portalKept t (f t)"
  shows "moves c db (setLink p f db)"
  unfolding setLink_def
proof (rule portal_moves [OF assms(1)])
  have "map ptId (updateWhere p f (portalTokens db)) = map ptId (portalTokens db)"
    "map ptTokenHash (updateWhere p f (portalTokens db)) = map ptTokenHash (portalTokens db)"
    using assms(2) by (auto intro!: map_updateWhere simp: portalKept_def)
  then show "portalOk (db\<lparr>portalTokens := updateWhere p f (portalTokens db)\<rparr>)"
    using assms by (auto simp: accountInv_def portalOk_def portalKept_def elim!: in_updateWhereE)
  fix t assume "t \<in> set (portalTokens db)"
  then show "\<exists>u\<in>set (updateWhere p f (portalTokens db)). portalKept t u"
  proof (cases "p t")
    case True
    with \<open>t \<in> set (portalTokens db)\<close> have "f t \<in> set (updateWhere p f (portalTokens db))" by (rule updateWhere_in)
    then show ?thesis using assms(2) True by blast
  next
    case False
    with \<open>t \<in> set (portalTokens db)\<close> have "t \<in> set (updateWhere p f (portalTokens db))"
      by (auto simp: set_updateWhere image_iff)
    then show ?thesis by (rule link_stays)
  qed
qed

lemma retireLinks_moves:
  assumes "accountInv c db" and "retireLinks org st si email now db = (db', b)"
  shows "moves c db db'"
  using setLink_moves [OF assms(1), of "liveLink org st si email" "\<lambda>t. t\<lparr>ptRevokedAt := Some now\<rparr>"] assms(2)
  by (auto simp: retireLinks_def setLink_def portalKept_def liveLink_def)

lemma insertLink_moves:
  assumes "accountInv c db" and "insertLink t db = Inr (db', u)" and "ptUser t \<in> acId ` set (accounts db)"
    and "ptOrg t \<in> onId ` set (organizations db)"
  shows "moves c db db'"
proof -
  have new: "ptId t \<notin> ptId ` set (portalTokens db)" "ptTokenHash t \<notin> ptTokenHash ` set (portalTokens db)"
    and db': "db' = db\<lparr>portalTokens := portalTokens db @ [t]\<rparr>"
    using assms(2) by (auto simp: insertLink_def split: if_splits)
  have "portalOk (db\<lparr>portalTokens := portalTokens db @ [t]\<rparr>)"
    using assms(1,3,4) new by (auto simp: accountInv_def portalOk_def)
  then show ?thesis unfolding db' by (rule portal_moves [OF assms(1)]) (auto intro: link_stays)
qed

lemma claimJti_moves:
  assumes "accountInv c db" and "claimJti i v db = (db', won)"
  shows "moves c db db'"
  using assms by (auto simp: claimJti_def insertOnConflictDoNothing_def accountInv_def Let_def split: if_splits
      intro!: verification_moves moves_refl)

lemma setVerification_moves:
  assumes "accountInv c db" and "\<And>r. vfJti (f r) = vfJti r"
  shows "moves c db (setVerification i f db)"
proof -
  have "map vfJti (updateWhere (\<lambda>r. vfId r = i) f (verificationRows db)) = map vfJti (verificationRows db)"
    using assms(2) by (rule map_updateWhere)
  then show ?thesis
    unfolding setVerification_def using assms(1)
    by (intro verification_moves) (simp_all add: accountInv_def, metis list.set_map order_refl)
qed

section \<open>Statements that leave the accounts alone\<close>

named_theorems same_accounts "statements on the other tables"

lemma accounts_updates [simp]:
  "accounts (deleteOtps email db) = accounts db"
  "accounts (deleteExpired email now db) = accounts db"
  "accounts (deleteOtp i db) = accounts db"
  "accounts (extendOtp i e db) = accounts db"
  "accounts (setAttempts i n db) = accounts db"
  "accounts (setInvite p f db) = accounts db"
  "accounts (setLink q g db) = accounts db"
  "accounts (setVerification i h db) = accounts db"
  by (simp_all add: deleteOtps_def deleteExpired_def deleteOtp_def extendOtp_def setAttempts_def setInvite_def setLink_def
      setVerification_def)

lemma accounts_statements [same_accounts]:
  "insertOtp r db = Inr (db', x) \<Longrightarrow> accounts db' = accounts db"
  "claimTries email now db = (db', rows) \<Longrightarrow> accounts db' = accounts db"
  "consumeOtp i db = (db', won) \<Longrightarrow> accounts db' = accounts db"
  "insertInvite v db = Inr (db', w) \<Longrightarrow> accounts db' = accounts db"
  "consumeInvite i now db = (db', won) \<Longrightarrow> accounts db' = accounts db"
  "retireLinks org st si email now db = (db', won) \<Longrightarrow> accounts db' = accounts db"
  "insertLink t db = Inr (db', u) \<Longrightarrow> accounts db' = accounts db"
  "claimJti i c db = (db', won) \<Longrightarrow> accounts db' = accounts db"
  by (auto simp: insertOtp_def claimTries_def consumeOtp_def insertInvite_def consumeInvite_def retireLinks_def insertLink_def
      claimJti_def insertOnConflictDoNothing_def Let_def split: if_splits)

end
