(* ===== verification/AccountSystem.thy ===== *)
theory AccountSystem
  imports AccountInvariants
begin

text \<open>
  The server of the account routes: every request the routes can make, and what all of them keep, however their
  statements interleave. The lemmas about the requests that leave everybody's organization and role alone are
  proved once, for any property \<open>X\<close> of the accounts and any relation \<open>Y\<close> on them with the three laws of the
  locale \<open>standing\<close>: for the plain conditions of the tables, and for who owns an organization.
\<close>

section \<open>Requests that keep the tables\<close>

definition accountState :: "(accountRow list \<Rightarrow> bool) \<Rightarrow> bool \<Rightarrow> accountDb \<Rightarrow> bool" where
  "accountState X c db \<longleftrightarrow> accountInv c db \<and> X (accounts db)"

definition accountTrend :: "(accountRow list \<Rightarrow> accountRow list \<Rightarrow> bool) \<Rightarrow> accountDb \<Rightarrow> accountDb \<Rightarrow> bool" where
  "accountTrend Y db db' \<longleftrightarrow> accountGrew db db' \<and> Y (accounts db) (accounts db')"

definition lawful ::
    "(accountRow list \<Rightarrow> bool) \<Rightarrow> (accountRow list \<Rightarrow> accountRow list \<Rightarrow> bool) \<Rightarrow> bool \<Rightarrow> accountDb \<Rightarrow> accountDb \<Rightarrow> bool" where
  "lawful X Y c db db' \<longleftrightarrow> moves c db db' \<and> X (accounts db') \<and> Y (accounts db) (accounts db')"

text \<open>\<open>F\<close> is what the request has learned and what nobody can undo.\<close>

definition lasting :: "(accountDb \<Rightarrow> bool) \<Rightarrow> bool" where
  "lasting F \<longleftrightarrow> (\<forall>a b. accountGrew a b \<longrightarrow> F a \<longrightarrow> F b)"

definition kept ::
    "(accountRow list \<Rightarrow> bool) \<Rightarrow> (accountRow list \<Rightarrow> accountRow list \<Rightarrow> bool) \<Rightarrow> bool \<Rightarrow> (accountDb \<Rightarrow> bool)
      \<Rightarrow> (accountDb, 'r) request \<Rightarrow> bool" where
  "kept X Y c F p \<longleftrightarrow> (\<forall>seen. keeps (\<lambda>db. accountState X c db \<and> F db) (accountTrend Y) p seen)"

definition personThere :: "uuid \<Rightarrow> accountDb \<Rightarrow> bool" where
  "personThere i db \<longleftrightarrow> i \<in> acId ` set (accounts db)"

definition orgThere :: "uuid \<Rightarrow> accountDb \<Rightarrow> bool" where
  "orgThere org db \<longleftrightarrow> org \<in> onId ` set (organizations db)"

lemma lasting_simps [simp]:
  "lasting (\<lambda>_. True)" "lasting (personThere i)" "lasting (orgThere org)"
  "lasting F \<Longrightarrow> lasting F' \<Longrightarrow> lasting (\<lambda>db. F db \<and> F' db)"
  by (auto simp: lasting_def personThere_def orgThere_def accountGrew_def)

lemma resolveUser_Some:
  "resolveUser down p db = Some u \<longleftrightarrow> \<not> down \<and>
     (\<exists>a. accountById (acId a) db = Some a \<and> acId a \<noteq> [] \<and> map_of p ''sub'' = Some (JStr (acId a)) \<and>
        acOrg a = Some (auOrg u) \<and> auOrg u \<noteq> [] \<and> \<not> revokedToken a p \<and>
        auId u = acId a \<and> auEmail u = acEmail a \<and> auName u = acName a \<and> auRole u = acRole a)"
proof (cases u)
  case u: fields
  have found: "acId a = i" if "accountById i db = Some a" for i a
    using that by (auto simp: accountById_def dest: find_Some_in)
  show ?thesis
    unfolding resolveUser_def truthy_def u
    by (auto split: option.splits json.splits if_splits) (use found in metis)
qed

lemma accountById_in: "accountById i db = Some a \<Longrightarrow> a \<in> set (accounts db) \<and> acId a = i"
  by (auto simp: accountById_def dest: find_Some_in)

locale standing =
  fixes X :: "accountRow list \<Rightarrow> bool" and Y :: "accountRow list \<Rightarrow> accountRow list \<Rightarrow> bool"
  assumes Y_refl: "Y as as"
    and Y_trans: "Y as bs \<Longrightarrow> Y bs cs \<Longrightarrow> Y as cs"
    and same_standing: "X as \<Longrightarrow> (\<And>a. acId (f a) = acId a \<and> acOrg (f a) = acOrg a \<and> acRole (f a) = acRole a) \<Longrightarrow>
      X (updateWhere p f as) \<and> Y as (updateWhere p f as)"
    and new_member: "X as \<Longrightarrow> acRole a \<noteq> ''owner'' \<Longrightarrow> X (as @ [a]) \<and> Y as (as @ [a])"
    and new_owner: "X as \<Longrightarrow> (\<forall>b\<in>set as. acOrg b \<noteq> acOrg a) \<Longrightarrow> X (as @ [a]) \<and> Y as (as @ [a])"
begin

lemma trend_refl: "accountTrend Y db db"
  by (simp add: accountTrend_def Y_refl)

lemma trend_trans: "accountTrend Y a b \<Longrightarrow> accountTrend Y b c \<Longrightarrow> accountTrend Y a c"
  unfolding accountTrend_def using accountGrew_trans Y_trans by blast

lemma kept_Answer: "kept X Y c F (Answer r)"
  by (simp add: kept_def)

lemma kept_Stmt:
  assumes "lasting F"
    and "\<And>db. accountInv c db \<Longrightarrow> X (accounts db) \<Longrightarrow> F db \<Longrightarrow> lawful X Y c db (f db)"
    and "\<And>db. accountInv c db \<Longrightarrow> X (accounts db) \<Longrightarrow> F db \<Longrightarrow> kept X Y c F (k db)"
  shows "kept X Y c F (Stmt f k)"
proof (simp add: kept_def, intro allI impI)
  fix seen db assume "accountState X c db \<and> F db" "accountTrend Y seen db"
  then have "lawful X Y c db (f db)" "kept X Y c F (k db)" "F db" using assms(2,3) by (auto simp: accountState_def)
  moreover from this have "F (f db)" using assms(1) by (auto simp: lasting_def lawful_def moves_def)
  ultimately show "accountState X c (f db) \<and> F (f db) \<and> accountTrend Y db (f db) \<and>
      keeps (\<lambda>db. accountState X c db \<and> F db) (accountTrend Y) (k db) (f db)"
    by (simp add: kept_def accountState_def accountTrend_def lawful_def moves_def)
qed

lemma kept_learn:
  assumes "kept X Y c (\<lambda>db. F db \<and> F' db) p" and "lasting F'" and "F' seen"
  shows "keeps (\<lambda>db. accountState X c db \<and> F db) (accountTrend Y) p seen"
proof (rule keeps_strengthen [where F = F'])
  show "keeps (\<lambda>db. (accountState X c db \<and> F db) \<and> F' db) (accountTrend Y) p seen"
    using assms(1) by (simp add: kept_def conj_assoc)
qed (use assms(2,3) in \<open>auto simp: lasting_def accountTrend_def\<close>)

text \<open>A statement after which the request knows \<open>F' db\<close>.\<close>

lemma kept_Stmt_learn:
  assumes "lasting F"
    and "\<And>db. accountInv c db \<Longrightarrow> X (accounts db) \<Longrightarrow> F db \<Longrightarrow>
      lawful X Y c db (f db) \<and> (\<exists>F'. lasting F' \<and> F' (f db) \<and> kept X Y c (\<lambda>d. F d \<and> F' d) (k db))"
  shows "kept X Y c F (Stmt f k)"
proof (simp add: kept_def, intro allI impI)
  fix seen db assume db: "accountState X c db \<and> F db" "accountTrend Y seen db"
  then obtain F' where law: "lawful X Y c db (f db)" and F': "lasting F'" "F' (f db)" "kept X Y c (\<lambda>d. F d \<and> F' d) (k db)"
    using assms(2) [of db] by (auto simp: accountState_def)
  have "F (f db)" using assms(1) db(1) law by (auto simp: lasting_def lawful_def moves_def)
  then show "accountState X c (f db) \<and> F (f db) \<and> accountTrend Y db (f db) \<and>
      keeps (\<lambda>db. accountState X c db \<and> F db) (accountTrend Y) (k db) (f db)"
    using law kept_learn [OF F'(3,1,2)] by (auto simp: accountState_def accountTrend_def lawful_def moves_def)
qed

lemma lawful_refl: "accountInv c db \<Longrightarrow> X (accounts db) \<Longrightarrow> lawful X Y c db db"
  by (simp add: lawful_def moves_refl Y_refl)

lemma lawful_elsewhere: "X (accounts db) \<Longrightarrow> moves c db db' \<Longrightarrow> accounts db' = accounts db \<Longrightarrow> lawful X Y c db db'"
  by (simp add: lawful_def Y_refl)

lemma lawful_quiet:
  assumes "accountInv c db" and "X (accounts db)"
    and "\<And>a. acId (f a) = acId a \<and> acEmail (f a) = acEmail a \<and> acRole (f a) = acRole a \<and> acOrg (f a) = acOrg a"
  shows "lawful X Y c db (setAccount p f db)"
  using quietAccount_moves [OF assms(1), of f p] same_standing [OF assms(2), of f p] assms(3)
  by (simp add: lawful_def setAccount_def)

lemma kept_check: "(\<not> bad \<Longrightarrow> kept X Y c F p) \<Longrightarrow> kept X Y c F (check bad e p)"
  by (auto simp: check_def kept_Answer)

lemma kept_select:
  "lasting F \<Longrightarrow> (\<And>db. accountInv c db \<Longrightarrow> X (accounts db) \<Longrightarrow> F db \<Longrightarrow> kept X Y c F (k (q db))) \<Longrightarrow> kept X Y c F (select q k)"
  unfolding select_def by (rule kept_Stmt) (auto intro: lawful_refl)

lemma kept_select_learn:
  assumes "lasting F"
    and "\<And>db. accountInv c db \<Longrightarrow> X (accounts db) \<Longrightarrow> F db \<Longrightarrow>
      \<exists>F'. lasting F' \<and> F' db \<and> kept X Y c (\<lambda>d. F d \<and> F' d) (k (q db))"
  shows "kept X Y c F (select q k)"
  unfolding select_def by (rule kept_Stmt_learn [OF assms(1)]) (use assms(2) lawful_refl in auto)

lemma kept_execute:
  "lasting F \<Longrightarrow> (\<And>db. accountInv c db \<Longrightarrow> X (accounts db) \<Longrightarrow> F db \<Longrightarrow> lawful X Y c db (f db)) \<Longrightarrow> kept X Y c F p \<Longrightarrow>
   kept X Y c F (execute f p)"
  unfolding execute_def by (rule kept_Stmt) auto

lemma kept_profile:
  "lasting F \<Longrightarrow>
   (\<And>a. acId (f a) = acId a \<and> acEmail (f a) = acEmail a \<and> acRole (f a) = acRole a \<and> acOrg (f a) = acOrg a) \<Longrightarrow>
   kept X Y c F q \<Longrightarrow> kept X Y c F (execute (setAccount p f) q)"
  by (rule kept_execute) (auto intro: lawful_quiet)

lemma kept_elsewhere:
  "lasting F \<Longrightarrow> (\<And>db. accountInv c db \<Longrightarrow> moves c db (f db)) \<Longrightarrow> (\<And>db. accounts (f db) = accounts db) \<Longrightarrow>
   kept X Y c F p \<Longrightarrow> kept X Y c F (execute f p)"
  by (rule kept_execute) (auto intro: lawful_elsewhere)

lemma kept_returning:
  assumes "lasting F" and "\<And>db db' x. accountInv c db \<Longrightarrow> F db \<Longrightarrow> f db = (db', x) \<Longrightarrow> moves c db db' \<and> accounts db' = accounts db"
    and "\<And>x. kept X Y c F (k x)"
  shows "kept X Y c F (returning f k)"
  unfolding returning_def
proof (rule kept_Stmt [OF assms(1)])
  fix db assume db: "accountInv c db" "X (accounts db)" "F db"
  show "lawful X Y c db (fst (f db))"
    using assms(2) [OF db(1,3) prod.collapse [symmetric]] db(2) by (simp add: lawful_elsewhere)
qed (rule assms(3))

lemma kept_attempt:
  assumes "lasting F"
    and "\<And>db db' x. accountInv c db \<Longrightarrow> X (accounts db) \<Longrightarrow> F db \<Longrightarrow> f db = Inr (db', x) \<Longrightarrow> lawful X Y c db db'"
    and "\<And>x. kept X Y c F (k x)"
  shows "kept X Y c F (attempt f k)"
  unfolding attempt_def
proof (rule kept_Stmt [OF assms(1)])
  fix db assume db: "accountInv c db" "X (accounts db)" "F db"
  show "lawful X Y c db (case f db of Inl _ \<Rightarrow> db | Inr (db', _) \<Rightarrow> db')"
    using assms(2) [OF db] lawful_refl [OF db(1,2)] by (auto split: sum.splits)
  show "kept X Y c F (case f db of Inl e \<Rightarrow> Answer (Inl e) | Inr (_, x) \<Rightarrow> k x)"
    using assms(3) by (auto simp: kept_Answer split: sum.splits)
qed

lemma kept_keeps: "kept X Y c (\<lambda>_. True) p \<Longrightarrow> keeps (accountState X c) (accountTrend Y) p seen"
  by (simp add: kept_def)

subsection \<open>The parts of the handlers\<close>

lemma kept_requireAuth:
  assumes "lasting F" and "\<And>user. kept X Y c (\<lambda>db. F db \<and> personThere (auId user) db \<and> orgThere (auOrg user) db) (next user)"
  shows "kept X Y c F (requireAuth env now down cookie next)"
proof -
  have known: "\<exists>F'. lasting F' \<and> F' db \<and> kept X Y c (\<lambda>d. F d \<and> F' d)
      (case resolveUser down p db of None \<Rightarrow> Answer (Inl e) | Some user \<Rightarrow> next user)" if "accountInv c db" for db p e
  proof (cases "resolveUser down p db")
    case None
    then show ?thesis by (intro exI [of _ "\<lambda>_. True"]) (simp add: kept_Answer)
  next
    case (Some user)
    then obtain a where a: "accountById (acId a) db = Some a" "acOrg a = Some (auOrg user)" "auId user = acId a"
      unfolding resolveUser_Some by auto
    then have "a \<in> set (accounts db)" by (auto dest: accountById_in)
    then have "personThere (auId user) db" "orgThere (auOrg user) db"
      using a(2,3) that by (auto simp: personThere_def orgThere_def accountInv_def peopleOk_def)
    then show ?thesis
      using assms(2) [of user] Some
      by (intro exI [of _ "\<lambda>db. personThere (auId user) db \<and> orgThere (auOrg user) db"]) simp
  qed
  show ?thesis
    unfolding requireAuth_def Let_def using known
    by (auto intro!: kept_Answer kept_select_learn assms(1) split: option.split)
qed

lemma kept_withCapability: "kept X Y c F p \<Longrightarrow> kept X Y c F (withCapability cap user p)"
  by (auto simp: withCapability_def intro: kept_check)

lemma kept_readEmail: "(\<And>email. kept X Y c F (next email)) \<Longrightarrow> kept X Y c F (readEmail env raw next)"
  by (auto simp: readEmail_def intro: kept_check)

lemma kept_readCode: "(\<And>d. kept X Y c F (next d)) \<Longrightarrow> kept X Y c F (readCode env raw next)"
  by (auto simp: readCode_def Let_def intro: kept_check)

lemma kept_orThrow: "(\<And>x. r = Some x \<Longrightarrow> kept X Y c F (next x)) \<Longrightarrow> kept X Y c F (orThrow r next)"
  by (auto simp: orThrow_def kept_Answer split: option.split)

lemma kept_andThen:
  assumes "kept X Y c (\<lambda>_. True) p" and "\<And>x. kept X Y c (\<lambda>_. True) (g x)"
  shows "kept X Y c (\<lambda>_. True) (andThen p g)"
proof (simp add: kept_def, intro allI)
  fix seen
  have "keeps (accountState X c) (accountTrend Y) (andThen p g) seen" if "accountState X c seen" for seen
    using assms that trend_refl trend_trans by (intro keeps_andThen) (auto simp: kept_def)
  then show "keeps (accountState X c) (accountTrend Y) (andThen p g) seen"
    using assms by (cases p) (auto simp: kept_def trend_refl intro: keeps_later trend_trans split: sum.split)
qed

lemma kept_rescue:
  assumes "kept X Y c (\<lambda>_. True) p" and "\<And>e. kept X Y c (\<lambda>_. True) (h e)"
  shows "kept X Y c (\<lambda>_. True) (rescue p h)"
proof (simp add: kept_def, intro allI)
  fix seen
  have "keeps (accountState X c) (accountTrend Y) (rescue p h) seen" if "accountState X c seen" for seen
    using assms that trend_refl trend_trans by (intro keeps_rescue) (auto simp: kept_def)
  then show "keeps (accountState X c) (accountTrend Y) (rescue p h) seen"
    using assms by (cases p) (auto simp: kept_def trend_refl intro: keeps_later trend_trans split: sum.split)
qed

lemma kept_map: "kept X Y c F (map_request g p) = kept X Y c F p"
  by (simp add: kept_def keeps_map)

lemmas kept_rules = kept_Answer kept_check kept_requireAuth kept_withCapability kept_readEmail kept_readCode kept_orThrow

lemma lawful_signUp:
  assumes "accountInv c db" and "X (accounts db)" and "signUp g a db = Inr (db', x)"
    and "acOrg a = Some (onId g)" and "acRole a = ''owner''"
  shows "lawful X Y c db db'"
  using signUp_moves [OF assms(1), of g a db' "fst x" "snd x"] assms(3-5) new_owner [OF assms(2), of a]
  by (simp add: lawful_def)

lemma lawful_insertAccount:
  assumes "accountInv c db" and "X (accounts db)" and "insertAccount a db = Inr (db', b)" and "acRole a \<in> set ASSIGNABLE_ROLES"
    and "\<And>org. acOrg a = Some org \<Longrightarrow> orgThere org db"
  shows "lawful X Y c db db'"
proof -
  have "accounts db' = accounts db @ [a]" using assms(3) by (auto simp: insertAccount_def split: if_splits)
  moreover have "acRole a \<noteq> ''owner''" using assms(4) by (auto simp: ASSIGNABLE_ROLES_def)
  ultimately show ?thesis
    using insertAccount_moves [OF assms(1,3) assignable_is_role [OF assms(4)]] assms(5) new_member [OF assms(2), of a]
    by (simp add: lawful_def orgThere_def)
qed

lemma lawful_changeEmail:
  assumes "accountInv c db" and "X (accounts db)" and "changeEmail i email db = Inr (db', x)"
  shows "lawful X Y c db db'"
  using changeEmail_moves [OF assms(1,3)] assms(3) same_standing [OF assms(2)]
  by (auto simp: lawful_def changeEmail_def setAccount_def split: if_splits)

end

end
