(* ===== verification/AccountRequests.thy ===== *)
theory AccountRequests
  imports AccountSystem
begin

text \<open>
  Every request of the account routes, and what all of them keep under any interleaving: the state of the tables
  (\<open>accountState\<close>) and its direction (\<open>accountTrend\<close>). The requests are in three groups. A quiet one leaves
  everybody's organization and role alone, new accounts apart; the confirmation of an e-mail change is quiet too,
  but does not keep the accounting of the tries; the others change somebody's standing.
\<close>

definition noReply :: "('db, 'r) request \<Rightarrow> ('db, unit) request" where
  "noReply p = map_request (\<lambda>_. ()) p"

inductive quietRequest :: "(accountDb, unit) request \<Rightarrow> bool" where
  "quietRequest (noReply (sendOtp env sends clock random newId raw))"
| "quietRequest (noReply (verifyOtp env clock orgId userId raw otpCode name))"
| "quietRequest (noReply (oauthCallback env ev clock orgId userId provider authCode state storedState replies))"
| "quietRequest (noReply (logoutAll env clock down cookie))"
| "quietRequest (noReply (meRoute env now down cookie))"
| "quietRequest (noReply (sessionRoute env now down cookie))"
| "quietRequest (noReply (touch env clock down cookie))"
| "quietRequest (noReply (wsTokenRoute env clock down cookie))"
| "quietRequest (noReply (updateMe env isUrl now down cookie body))"
| "quietRequest (noReply (requestEmailChange env clock down cookie random newId raw))"
| "quietRequest (noReply (uploadAvatar env store now down cookie header file))"
| "quietRequest (noReply (removeAvatar env now down cookie))"
| "quietRequest (noReply (getPreferences env now down cookie))"
| "quietRequest (noReply (updatePreferences env now down cookie incoming))"
| "quietRequest (noReply (previewInvite now token))"
| "quietRequest (noReply (getOrgRoute env now down cookie))"
| "quietRequest (noReply (updateOrgRoute env clock down cookie rawName rawSlug))"
| "quietRequest (noReply (membersRoute env now down cookie))"
| "quietRequest (noReply (invitesRoute env clock down cookie))"
| "quietRequest (noReply (sendInviteRoute env clock down cookie newId bytes rawEmail rawRole))"
| "quietRequest (noReply (revokeInviteRoute env clock down cookie i))"
| "quietRequest (noReply (claimPortalRoute env clock rawToken))"
| "quietRequest (noReply (portalMeRoute env clock down cookie))"
| "quietRequest (noReply (issueRoute env clock down cookie draws rawEmail subjectType subjectId days sendEmail))"
| "quietRequest (noReply (listLinksRoute env now down cookie st si includeInactive))"
| "quietRequest (noReply (resendRoute env clock down cookie draws accessId))"
| "quietRequest (noReply (revokeLinkRoute env clock down cookie accessId))"

inductive standingRequest :: "(accountDb, unit) request \<Rightarrow> bool" where
  "standingRequest (noReply (acceptInviteRoute env clock down cookie token))"
| "standingRequest (noReply (claimInviteRoute env clock newId token))"
| "standingRequest (noReply (updateRoleRoute env now down cookie target role))"
| "standingRequest (noReply (removeMemberRoute env now down cookie target))"
| "standingRequest (noReply (transferRoute env now down cookie target))"
| "standingRequest (noReply (leaveRoute env now down cookie))"
| "standingRequest (noReply (verificationSessionRoute jwtVerify config clock rowId orgId userId header))"

inductive confirmRequest :: "(accountDb, unit) request \<Rightarrow> bool" where
  "confirmRequest (noReply (confirmEmailChange env clock down cookie raw otpCode))"

definition accountRequest :: "bool \<Rightarrow> (accountDb, unit) request \<Rightarrow> bool" where
  "accountRequest counted p \<longleftrightarrow> quietRequest p \<or> standingRequest p \<or> (\<not> counted \<and> confirmRequest p)"

section \<open>The quiet requests\<close>

context standing
begin

lemma kept_deleteExpired: "lasting F \<Longrightarrow> kept X Y c F p \<Longrightarrow> kept X Y c F (execute (deleteExpired email now) p)"
  by (rule kept_elsewhere) (simp_all add: deleteOtps_moves)

lemma kept_deleteOtps: "lasting F \<Longrightarrow> kept X Y c F p \<Longrightarrow> kept X Y c F (execute (deleteOtps email) p)"
  by (rule kept_elsewhere) (simp_all add: deleteOtps_moves)

lemma kept_deleteOtp: "lasting F \<Longrightarrow> kept X Y c F p \<Longrightarrow> kept X Y c F (execute (deleteOtp i) p)"
  by (rule kept_elsewhere) (simp_all add: deleteOtps_moves)

lemma kept_extendOtp: "lasting F \<Longrightarrow> kept X Y c F p \<Longrightarrow> kept X Y c F (execute (extendOtp i e) p)"
  by (rule kept_elsewhere) (simp_all add: extendOtp_moves)

lemma kept_insertOtp:
  assumes "lasting F" and "\<And>x. kept X Y c F (k x)"
  shows "kept X Y c F (attempt (insertOtp (newOtp i now e email otpCode)) k)"
proof (rule kept_attempt [OF assms(1) _ assms(2)])
  fix db db' x assume db: "accountInv c db" "X (accounts db)" "insertOtp (newOtp i now e email otpCode) db = Inr (db', x)"
  have "moves c db db'" by (rule insertOtp_moves [OF db(1,3)]) (simp add: newOtp_def)
  with db show "lawful X Y c db db'" by (intro lawful_elsewhere) (auto dest: same_accounts)
qed

lemma kept_claimTries: "lasting F \<Longrightarrow> (\<And>x. kept X Y c F (k x)) \<Longrightarrow> kept X Y c F (returning (claimTries email now) k)"
  by (rule kept_returning) (auto dest: claimTries_moves same_accounts)

lemma kept_consumeOtp: "lasting F \<Longrightarrow> (\<And>x. kept X Y c F (k x)) \<Longrightarrow> kept X Y c F (returning (consumeOtp i) k)"
  by (rule kept_returning) (auto dest: consumeOtp_moves same_accounts)

lemmas kept_otps = kept_deleteExpired kept_deleteOtps kept_deleteOtp kept_extendOtp kept_insertOtp kept_claimTries kept_consumeOtp

lemma kept_sendOtp: "kept X Y c (\<lambda>_. True) (sendOtp env sends clock random newId raw)"
  unfolding sendOtp_def Let_def by (auto intro!: kept_rules kept_otps kept_select split: option.split)

lemma kept_requestEmailChange: "kept X Y c (\<lambda>_. True) (requestEmailChange env clock down cookie random newId raw)"
  unfolding requestEmailChange_def Let_def by (auto intro!: kept_rules kept_otps kept_select split: option.split)

lemma kept_markLogin: "lasting F \<Longrightarrow> kept X Y c F p \<Longrightarrow> kept X Y c F (execute (markLogin i now) p)"
  unfolding markLogin_def by (rule kept_profile) auto

lemma kept_signUp:
  assumes "lasting F" and "\<And>x. kept X Y c F (k x)" and "acOrg a = Some (onId g)" and "acRole a = ''owner''"
  shows "kept X Y c F (attempt (signUp g a) k)"
  by (rule kept_attempt [OF assms(1) _ assms(2)]) (rule lawful_signUp [OF _ _ _ assms(3,4)])

lemma kept_signIn: "kept X Y c (\<lambda>_. True) (signInAccount env clock orgId userId email name)"
  unfolding signInAccount_def Let_def
  by (auto intro!: kept_rules kept_select kept_markLogin kept_signUp simp: newAccount_def newOrg_def split: option.split)

lemma kept_verifyOtp: "kept X Y c (\<lambda>_. True) (verifyOtp env clock orgId userId raw otpCode name)"
  unfolding verifyOtp_def
  by (auto intro!: kept_rules kept_select kept_otps kept_signIn split: option.split)

lemma kept_oauthCallback:
  "kept X Y c (\<lambda>_. True) (oauthCallback env ev clock orgId userId provider authCode state storedState replies)"
proof -
  have "kept X Y c (\<lambda>_. True) (signInIdentity env clock orgId userId i m)" for i m
    unfolding signInIdentity_def linkIdentity_def Let_def
    by (auto intro!: kept_rules kept_select kept_profile kept_signUp simp: oauthAccount_def newAccount_def newOrg_def split: option.split)
  then show ?thesis unfolding oauthCallback_def by (auto simp: kept_Answer split: sum.split)
qed

lemma kept_sessions:
  "kept X Y c (\<lambda>_. True) (logoutAll env clock down cookie)"
  "kept X Y c (\<lambda>_. True) (meRoute env now down cookie)"
  "kept X Y c (\<lambda>_. True) (sessionRoute env now down cookie)"
  "kept X Y c (\<lambda>_. True) (touch env clock down cookie)"
  "kept X Y c (\<lambda>_. True) (wsTokenRoute env clock down cookie)"
  unfolding logoutAll_def meRoute_def sessionRoute_def touch_def wsTokenRoute_def sessionBody_def resolveOptionalUser_def
  by (auto intro!: kept_rules kept_select kept_profile split: option.split)

lemma kept_profiles:
  "kept X Y c (\<lambda>_. True) (updateMe env isUrl now down cookie body)"
  "kept X Y c (\<lambda>_. True) (uploadAvatar env store now down cookie header file)"
  "kept X Y c (\<lambda>_. True) (removeAvatar env now down cookie)"
  "kept X Y c (\<lambda>_. True) (getPreferences env now down cookie)"
  "kept X Y c (\<lambda>_. True) (updatePreferences env now down cookie incoming)"
  unfolding updateMe_def uploadAvatar_def removeAvatar_def getPreferences_def updatePreferences_def Let_def
  by (auto intro!: kept_rules kept_select kept_profile simp: setProfile_def split: option.split)

lemma kept_setInvite:
  "lasting F \<Longrightarrow> kept X Y c F p \<Longrightarrow> kept X Y c F (execute (setInvite q (\<lambda>w. w\<lparr>ivRevokedAt := Some now\<rparr>)) p)"
  by (rule kept_elsewhere) (simp_all add: revoke_moves)

lemma kept_nothing: "lasting F \<Longrightarrow> kept X Y c F p \<Longrightarrow> kept X Y c F (execute (\<lambda>db. db) p)"
  by (rule kept_elsewhere) (simp_all add: moves_refl)

lemma kept_createInvite:
  assumes "lasting F" and "\<And>db. F db \<Longrightarrow> personThere (ciInvitedBy inp) db \<and> orgThere (ciOrg inp) db"
  shows "kept X Y c F (createInvite clock newId bytes inp)"
proof -
  have insert: "kept X Y c F (attempt (insertInvite (newInvite newId now e token inp)) k)"
    if "ciRole inp \<in> set ASSIGNABLE_ROLES" "\<And>v. kept X Y c F (k v)" for now e token and k :: "inviteRow \<Rightarrow> (accountDb, appError + pendingInviteView) request"
  proof (rule kept_attempt [OF assms(1) _ that(2)])
    fix db db' x assume db: "accountInv c db" "X (accounts db)" "F db" "insertInvite (newInvite newId now e token inp) db = Inr (db', x)"
    have "moves c db db'"
      by (rule insertInvite_moves [OF db(1,4)])
        (use assms(2) [OF db(3)] that(1) in \<open>simp_all add: newInvite_def pendingInvite_def personThere_def orgThere_def\<close>)
    with db show "lawful X Y c db db'" by (intro lawful_elsewhere) (auto dest: same_accounts)
  qed
  show ?thesis
    unfolding createInvite_def
    by (auto intro!: kept_rules kept_select insert kept_setInvite kept_nothing assms(1) split: option.split)
qed

lemma kept_withInvite:
  assumes "lasting F" and "\<And>v. riRole v \<in> set ASSIGNABLE_ROLES \<Longrightarrow> kept X Y c (\<lambda>db. F db \<and> orgThere (riOrg v) db) (next v)"
  shows "kept X Y c F (withInvite token now next)"
  unfolding withInvite_def
proof (rule kept_select_learn [OF assms(1)])
  fix db assume db: "accountInv c db"
  let ?r = "resolveInviteByToken now (inviteByToken token db)"
  show "\<exists>F'. lasting F' \<and> F' db \<and> kept X Y c (\<lambda>d. F d \<and> F' d) (case ?r of Inl e \<Rightarrow> Answer (Inl e) | Inr v \<Rightarrow> next v)"
  proof (cases ?r)
    case (Inl e)
    then show ?thesis by (intro exI [of _ "\<lambda>_. True"]) (simp add: kept_Answer)
  next
    case (Inr v)
    then obtain w where "w \<in> set (invites db)" "riRole v = ivRole w" "riOrg v = ivOrg w"
      by (auto simp: resolveInviteByToken_def inviteByToken_def split: option.splits dest!: find_Some_in)
    then have "riRole v \<in> set ASSIGNABLE_ROLES" "orgThere (riOrg v) db"
      using db by (auto simp: accountInv_def invitesOk_def orgThere_def)
    then show ?thesis using assms(2) [of v] Inr by (intro exI [of _ "orgThere (riOrg v)"]) simp
  qed
qed

lemma kept_organization:
  "kept X Y c (\<lambda>_. True) (previewInvite now token)"
  "kept X Y c (\<lambda>_. True) (getOrgRoute env now down cookie)"
  "kept X Y c (\<lambda>_. True) (membersRoute env now down cookie)"
  "kept X Y c (\<lambda>_. True) (invitesRoute env clock down cookie)"
  "kept X Y c (\<lambda>_. True) (revokeInviteRoute env clock down cookie i)"
  unfolding previewInvite_def getOrgRoute_def membersRoute_def invitesRoute_def revokeInviteRoute_def revokeInvite_def
  by (auto intro!: kept_rules kept_select kept_withInvite kept_setInvite split: option.split)

lemma kept_updateOrg: "kept X Y c (\<lambda>_. True) (updateOrgRoute env clock down cookie rawName rawSlug)"
proof -
  have save: "kept X Y c F (attempt (saveOrg org name slug now) k)"
    if "lasting F" "\<And>x. kept X Y c F (k x)" for F org name slug now and k :: "organizationRow \<Rightarrow> (accountDb, appError + organizationRow) request"
    by (rule kept_attempt [OF that(1) _ that(2)]) (auto intro!: lawful_elsewhere dest: saveOrg_moves)
  show ?thesis
    unfolding updateOrgRoute_def Let_def
    by (intro kept_requireAuth kept_withCapability kept_check kept_select save kept_Answer) simp_all
qed

lemma kept_sendInvite: "kept X Y c (\<lambda>_. True) (sendInviteRoute env clock down cookie newId bytes rawEmail rawRole)"
  unfolding sendInviteRoute_def Let_def by (auto intro!: kept_rules kept_createInvite split: option.split)

lemma kept_setLink:
  "lasting F \<Longrightarrow> (\<And>t. q t \<Longrightarrow> portalKept t (f t)) \<Longrightarrow> kept X Y c F p \<Longrightarrow> kept X Y c F (execute (setLink q f) p)"
  by (rule kept_elsewhere) (simp_all add: setLink_moves)

lemma kept_findOrCreate:
  assumes "lasting F" and "\<And>db. F db \<Longrightarrow> orgThere org db" and "\<And>i b. kept X Y c (\<lambda>db. F db \<and> personThere i db) (next (i, b))"
  shows "kept X Y c F (findOrCreatePortalUser now newId email org next)"
proof -
  let ?a = "newAccount newId now email None PORTAL_ROLE org"
  have fresh: "kept X Y c F (attempt (insertAccount ?a) (\<lambda>a. next (acId a, True)))"
    unfolding attempt_def
  proof (rule kept_Stmt_learn [OF assms(1)])
    fix db assume db: "accountInv c db" "X (accounts db)" "F db"
    show "lawful X Y c db (case insertAccount ?a db of Inl _ \<Rightarrow> db | Inr (db', _) \<Rightarrow> db') \<and>
      (\<exists>F'. lasting F' \<and> F' (case insertAccount ?a db of Inl _ \<Rightarrow> db | Inr (db', _) \<Rightarrow> db') \<and>
        kept X Y c (\<lambda>d. F d \<and> F' d) (case insertAccount ?a db of Inl e \<Rightarrow> Answer (Inl e) | Inr (_, a) \<Rightarrow> next (acId a, True)))"
    proof (cases "insertAccount ?a db")
      case (Inl e)
      with lawful_refl [OF db(1,2)] show ?thesis by (auto intro!: exI [of _ "\<lambda>_. True"] kept_Answer)
    next
      case (Inr r)
      obtain db' a where r: "r = (db', a)" by (cases r)
      have ins: "insertAccount ?a db = Inr (db', a)" using Inr r by simp
      have "lawful X Y c db db'"
        by (rule lawful_insertAccount [OF db(1,2) ins]) (use assms(2) [OF db(3)] in \<open>auto simp: newAccount_def PORTAL_ROLE_def ASSIGNABLE_ROLES_def\<close>)
      moreover have "personThere (acId a) db'"
        using ins by (auto simp: insertAccount_def personThere_def split: if_splits)
      ultimately show ?thesis
        using Inr r assms(3) [of "acId a" True] by (auto intro!: exI [of _ "personThere (acId a)"])
    qed
  qed
  show ?thesis
    unfolding findOrCreatePortalUser_def
  proof (rule kept_select_learn [OF assms(1)])
    fix db
    show "\<exists>F'. lasting F' \<and> F' db \<and> kept X Y c (\<lambda>d. F d \<and> F' d) (case accountByEmail email db of
        Some a \<Rightarrow> next (acId a, False) | None \<Rightarrow> attempt (insertAccount ?a) (\<lambda>a. next (acId a, True)))"
    proof (cases "accountByEmail email db")
      case None
      then show ?thesis using fresh by (intro exI [of _ "\<lambda>_. True"]) simp
    next
      case (Some a)
      then have "personThere (acId a) db" by (auto simp: accountByEmail_def personThere_def dest: find_Some_in)
      then show ?thesis using Some assms(3) [of "acId a" False] by (intro exI [of _ "personThere (acId a)"]) simp
    qed
  qed
qed

lemma kept_issue:
  assumes "lasting F" and "\<And>db. F db \<Longrightarrow> orgThere (ipOrg inp) db"
  shows "kept X Y c F (issuePortalAccess env clock draws inp)"
proof -
  have retire: "kept X Y c F' (returning (retireLinks org st si email now) k)" if "lasting F'" "\<And>x. kept X Y c F' (k x)"
    for F' org st si email now and k :: "bool \<Rightarrow> (accountDb, appError + issuedAccess) request"
    by (rule kept_returning [OF that(1) _ that(2)]) (auto dest: retireLinks_moves same_accounts)
  have insert: "kept X Y c F' (attempt (insertLink t) k)"
    if "lasting F'" "\<And>x. kept X Y c F' (k x)" "\<And>db. F' db \<Longrightarrow> personThere (ptUser t) db \<and> orgThere (ptOrg t) db"
    for F' t and k :: "portalRow \<Rightarrow> (accountDb, appError + issuedAccess) request"
  proof (rule kept_attempt [OF that(1) _ that(2)])
    fix db db' x assume db: "accountInv c db" "X (accounts db)" "F' db" "insertLink t db = Inr (db', x)"
    have "moves c db db'"
      by (rule insertLink_moves [OF db(1,4)]) (use that(3) [OF db(3)] in \<open>simp_all add: personThere_def orgThere_def\<close>)
    with db show "lawful X Y c db db'" by (intro lawful_elsewhere) (auto dest: same_accounts)
  qed
  show ?thesis
    unfolding issuePortalAccess_def Let_def
    by (auto intro!: kept_rules kept_select kept_findOrCreate retire insert kept_setLink assms simp: assms(1) portalKept_def)
qed

lemma kept_portal:
  "kept X Y c (\<lambda>_. True) (portalMeRoute env clock down cookie)"
  "kept X Y c (\<lambda>_. True) (issueRoute env clock down cookie draws rawEmail subjectType subjectId days sendEmail)"
  "kept X Y c (\<lambda>_. True) (listLinksRoute env now down cookie st si includeInactive)"
  "kept X Y c (\<lambda>_. True) (resendRoute env clock down cookie draws accessId)"
  "kept X Y c (\<lambda>_. True) (revokeLinkRoute env clock down cookie accessId)"
  unfolding portalMeRoute_def issueRoute_def listLinksRoute_def resendRoute_def revokeLinkRoute_def resendPortalAccess_def
    revokePortalAccess_def
  by (auto intro!: kept_rules kept_select kept_issue kept_setLink simp: portalKept_def split: option.split)

lemma kept_claimPortal: "kept X Y c (\<lambda>_. True) (claimPortalRoute env clock rawToken)"
  unfolding claimPortalRoute_def claimPortalAccess_def
  by (auto intro!: kept_rules kept_andThen kept_select kept_setLink kept_markLogin simp: portalKept_def split: option.split)

lemma kept_confirm: "kept X Y False (\<lambda>_. True) (confirmEmailChange env clock down cookie raw otpCode)"
proof -
  have attempts: "kept X Y False F (execute (setAttempts i n) p)" if "lasting F" "kept X Y False F p" "0 \<le> n" "n \<le> 5" for F i n
    and p :: "(accountDb, appError + claims) request"
    by (rule kept_elsewhere [OF that(1) _ _ that(2)]) (use that in \<open>simp_all add: setAttempts_moves OTP_MAX_ATTEMPTS_def\<close>)
  have change: "kept X Y False F (attempt (changeEmail i email) k)" if "lasting F" "\<And>x. kept X Y False F (k x)" for F i email
    and k :: "unit \<Rightarrow> (accountDb, appError + claims) request"
    by (rule kept_attempt [OF that(1) _ that(2)]) (rule lawful_changeEmail)
  have tries: "0 \<le> otAttempts r + 1" if "accountInv False db" "unexpiredOtp email now db = Some r" for db email now r
    using that by (auto simp: accountInv_def otpsOk_def unexpiredOtp_def dest!: find_Some_in)
  show ?thesis
    unfolding confirmEmailChange_def
    by (auto intro!: kept_rules kept_select kept_otps attempts change split: option.split dest: tries)
qed

lemma quiet_kept:
  assumes "quietRequest p"
  shows "kept X Y c (\<lambda>_. True) p"
  using assms
  by cases (simp_all add: noReply_def kept_map kept_sendOtp kept_verifyOtp kept_oauthCallback kept_sessions kept_profiles
      kept_requestEmailChange kept_organization kept_updateOrg kept_sendInvite kept_portal kept_claimPortal)

lemma confirm_kept: "confirmRequest p \<Longrightarrow> kept X Y False (\<lambda>_. True) p"
  by (cases rule: confirmRequest.cases) (auto simp: noReply_def kept_map kept_confirm)

end

end
