(* ===== verification/AccountServer.thy ===== *)
theory AccountServer
  imports AccountRequests
begin

text \<open>
  The account server. The requests that change somebody's standing keep the tables as the quiet ones do, so the
  locale of interleaved requests holds of all of them. All of them but the transfer of ownership only ever give
  away roles below the owner's: they are done in the locale \<open>standing_changes\<close>, for any condition on the
  accounts that a demotion keeps.
\<close>

section \<open>Statements that change somebody's standing\<close>

lemma joinOrg_moves:
  "accountInv c db \<Longrightarrow> riRole v \<in> set ASSIGNABLE_ROLES \<Longrightarrow> orgThere (riOrg v) db \<Longrightarrow> moves c db (joinOrg i v db)"
  unfolding joinOrg_def by (rule setAccount_moves) (auto simp: orgThere_def assignable_is_role)

lemma detach_moves: "accountInv c db \<Longrightarrow> moves c db (detach i db)"
  unfolding detach_def by (rule setAccount_moves) (auto simp: ROLES_def)

lemma setRole_moves: "accountInv c db \<Longrightarrow> role \<in> set ROLES \<Longrightarrow> moves c db (setAccount p (\<lambda>a. a\<lparr>acRole := role\<rparr>) db)"
  by (rule setAccount_moves) (auto simp: accountInv_def peopleOk_def)

lemma moves_trans: "moves c a b \<Longrightarrow> moves c b d \<Longrightarrow> moves c a d"
  by (auto simp: moves_def intro: accountGrew_trans)

lemma moves_inv: "moves c a b \<Longrightarrow> accountInv c b"
  by (simp add: moves_def)

lemma transferOwnership_moves:
  assumes "accountInv c db" and "transferOwnership caller org target db = Inr (db', x)"
  shows "moves c db db'"
proof -
  have first: "moves c db (setAccount (\<lambda>a. acId a = caller \<and> acRole a = ''owner'') (\<lambda>a. a\<lparr>acRole := ''admin''\<rparr>) db)"
    by (rule setRole_moves [OF assms(1)]) (simp add: ROLES_def)
  have "db' = setAccount (\<lambda>a. acId a = target \<and> acOrg a = Some org) (\<lambda>a. a\<lparr>acRole := ''owner''\<rparr>)
      (setAccount (\<lambda>a. acId a = caller \<and> acRole a = ''owner'') (\<lambda>a. a\<lparr>acRole := ''admin''\<rparr>) db)"
    using assms(2) by (simp add: transferOwnership_def split: if_splits)
  with moves_trans [OF first setRole_moves [OF moves_inv [OF first]]] show ?thesis by (simp add: ROLES_def)
qed

lemma below_owner: "role \<in> set ASSIGNABLE_ROLES \<Longrightarrow> role \<noteq> ''owner''"
  by (auto simp: ASSIGNABLE_ROLES_def)

section \<open>The requests that use them\<close>

locale standing_changes = standing +
  assumes demotion: "X as \<Longrightarrow> (\<And>a. p a \<Longrightarrow> acRole (f a) \<noteq> ''owner'') \<Longrightarrow> X (updateWhere p f as) \<and> Y as (updateWhere p f as)"
begin

lemma lawful_demote:
  assumes "X (accounts db)" and "moves c db (setAccount p f db)" and "\<And>a. p a \<Longrightarrow> acRole (f a) \<noteq> ''owner''"
  shows "lawful X Y c db (setAccount p f db)"
  using assms demotion [OF assms(1), of p f] by (simp add: lawful_def setAccount_def)

lemma lawful_join:
  "accountInv c db \<Longrightarrow> X (accounts db) \<Longrightarrow> riRole v \<in> set ASSIGNABLE_ROLES \<Longrightarrow> orgThere (riOrg v) db \<Longrightarrow>
   lawful X Y c db (joinOrg i v db)"
  using joinOrg_moves [of c db v i] unfolding joinOrg_def by (intro lawful_demote) (auto simp: below_owner)

lemma lawful_trans: "lawful X Y c a b \<Longrightarrow> lawful X Y c b d \<Longrightarrow> lawful X Y c a d"
  unfolding lawful_def using moves_trans Y_trans by blast

lemma kept_consumeInvite: "lasting F \<Longrightarrow> (\<And>x. kept X Y c F (k x)) \<Longrightarrow> kept X Y c F (returning (consumeInvite i now) k)"
  by (rule kept_returning) (auto dest: consumeInvite_moves same_accounts)

lemma kept_accept: "kept X Y c (\<lambda>_. True) (acceptInviteRoute env clock down cookie token)"
  unfolding acceptInviteRoute_def acceptInvite_def
  by (auto intro!: kept_rules kept_withInvite kept_consumeInvite kept_execute lawful_join)

lemma kept_claim: "kept X Y c (\<lambda>_. True) (claimInviteRoute env clock newId token)"
proof -
  have join: "lawful X Y c db (markLogin j now (joinOrg i v db))"
    if "accountInv c db" "X (accounts db)" "riRole v \<in> set ASSIGNABLE_ROLES" "orgThere (riOrg v) db" for i j now v db
  proof -
    have first: "lawful X Y c db (joinOrg i v db)" using that by (rule lawful_join)
    then have "lawful X Y c (joinOrg i v db) (markLogin j now (joinOrg i v db))"
      unfolding markLogin_def by (intro lawful_quiet) (auto simp: lawful_def moves_def)
    with first show ?thesis by (rule lawful_trans)
  qed
  have insert: "lawful X Y c db db'"
    if "accountInv c db" "X (accounts db)" "riRole v \<in> set ASSIGNABLE_ROLES" "orgThere (riOrg v) db"
      "insertAccount (newAccount i now (riEmail v) None (riRole v) (riOrg v)\<lparr>acLastLoginAt := Some now'\<rparr>) db = Inr (db', a)"
    for i now now' v db db' a
    by (rule lawful_insertAccount [OF that(1,2,5)]) (use that(3,4) in \<open>simp_all add: newAccount_def\<close>)
  show ?thesis
    unfolding claimInviteRoute_def claimInvite_def
    by (auto intro!: kept_rules kept_andThen kept_withInvite kept_consumeInvite kept_select
        kept_execute kept_attempt join insert split: option.split)
qed

lemma kept_withTarget:
  "lasting F \<Longrightarrow> (\<And>a. kept X Y c F (next a)) \<Longrightarrow> kept X Y c F (withTarget user target m next)"
  unfolding withTarget_def by (auto intro!: kept_rules kept_select split: option.split)

lemma lawful_changeRole:
  assumes "accountInv c db" and "X (accounts db)" and "role \<in> set ASSIGNABLE_ROLES" and "changeRole i role db = Inr (db', a)"
  shows "lawful X Y c db db'"
  using assms setRole_moves [OF assms(1) assignable_is_role [OF assms(3)]]
  by (auto simp: changeRole_def below_owner intro!: lawful_demote split: option.splits)

lemma kept_detach: "lasting F \<Longrightarrow> kept X Y c F p \<Longrightarrow> kept X Y c F (execute (detach i) p)"
  by (rule kept_execute) (use detach_moves in \<open>auto simp: detach_def intro!: lawful_demote\<close>)

lemma kept_members:
  "kept X Y c (\<lambda>_. True) (updateRoleRoute env now down cookie target role)"
  "kept X Y c (\<lambda>_. True) (removeMemberRoute env now down cookie target)"
  "kept X Y c (\<lambda>_. True) (leaveRoute env now down cookie)"
  unfolding updateRoleRoute_def removeMemberRoute_def leaveRoute_def
  by (auto intro!: kept_rules kept_withTarget kept_attempt kept_detach intro: lawful_changeRole)

lemma kept_tryInsert:
  assumes "lasting F"
    and "\<And>db db' x. accountInv c db \<Longrightarrow> X (accounts db) \<Longrightarrow> F db \<Longrightarrow> f db = Inr (db', x) \<Longrightarrow> lawful X Y c db db'"
    and "kept X Y c F (k None)"
    and "\<And>db db' x. accountInv c db \<Longrightarrow> F db \<Longrightarrow> f db = Inr (db', x) \<Longrightarrow>
      \<exists>F'. lasting F' \<and> F' db' \<and> kept X Y c (\<lambda>d. F d \<and> F' d) (k (Some x))"
  shows "kept X Y c F (tryInsert f k)"
  unfolding tryInsert_def returning_def
proof (rule kept_Stmt_learn [OF assms(1)])
  fix db assume db: "accountInv c db" "X (accounts db)" "F db"
  let ?r = "case f db of Inl _ \<Rightarrow> (db, None) | Inr (db', x) \<Rightarrow> (db', Some x)"
  show "lawful X Y c db (fst ?r) \<and> (\<exists>F'. lasting F' \<and> F' (fst ?r) \<and> kept X Y c (\<lambda>d. F d \<and> F' d) (k (snd ?r)))"
  proof (cases "f db")
    case (Inl e)
    with assms(3) lawful_refl [OF db(1,2)] show ?thesis by (auto intro!: exI [of _ "\<lambda>_. True"])
  next
    case (Inr r)
    obtain db' x where r: "r = (db', x)" by (cases r)
    from assms(2) [OF db] assms(4) [OF db(1,3)] Inr r show ?thesis by auto
  qed
qed

lemma kept_verificationOrg:
  assumes "\<And>org. kept X Y c (orgThere org) (next org)"
  shows "kept X Y c (\<lambda>_. True) (findOrCreateVerificationOrg now newId next)"
proof -
  have there: "\<exists>F'. lasting F' \<and> F' db \<and> kept X Y c F' (next (onId g))" if "g \<in> set (organizations db)" for g db
    using assms [of "onId g"] that by (intro exI [of _ "orgThere (onId g)"]) (simp add: orgThere_def)
  have nothing: "lasting (\<lambda>_. True) \<and> True" by simp
  have raced: "kept X Y c (\<lambda>_. True) (select (orgBySlug VERIFICATION_ORG_SLUG) (\<lambda>raced. orThrow raced (\<lambda>g. next (onId g))))"
  proof (rule kept_select_learn)
    fix db
    show "\<exists>F'. lasting F' \<and> F' db \<and> kept X Y c (\<lambda>d. True \<and> F' d) (orThrow (orgBySlug VERIFICATION_ORG_SLUG db) (\<lambda>g. next (onId g)))"
    proof (cases "orgBySlug VERIFICATION_ORG_SLUG db")
      case None
      then show ?thesis by (intro exI [of _ "\<lambda>_. True"]) (simp add: orThrow_def kept_Answer)
    next
      case (Some g)
      then have "g \<in> set (organizations db)" by (auto simp: orgBySlug_def dest: find_Some_in)
      from there [OF this] Some show ?thesis by (simp add: orThrow_def)
    qed
  qed simp
  show ?thesis
    unfolding findOrCreateVerificationOrg_def
  proof (rule kept_select_learn)
    fix db
    let ?insert = "insertOrg (newOrg newId now ''Alchemist verification'' VERIFICATION_ORG_SLUG)"
    have fresh: "kept X Y c (\<lambda>_. True) (tryInsert ?insert (\<lambda>created. case created of Some g \<Rightarrow> next (onId g)
        | None \<Rightarrow> select (orgBySlug VERIFICATION_ORG_SLUG) (\<lambda>raced. orThrow raced (\<lambda>g. next (onId g)))))"
    proof (rule kept_tryInsert)
      fix db db' g assume ins: "?insert db = Inr (db', g)"
      then have "g \<in> set (organizations db')" by (auto simp: insertOrg_def split: if_splits)
      from there [OF this] show "\<exists>F'. lasting F' \<and> F' db' \<and> kept X Y c (\<lambda>d. True \<and> F' d) (case Some g of Some g \<Rightarrow> next (onId g)
        | None \<Rightarrow> select (orgBySlug VERIFICATION_ORG_SLUG) (\<lambda>raced. orThrow raced (\<lambda>g. next (onId g))))" by simp
    qed (use raced in \<open>auto dest: insertOrg_moves intro!: lawful_elsewhere\<close>)
    show "\<exists>F'. lasting F' \<and> F' db \<and> kept X Y c (\<lambda>d. True \<and> F' d) (case orgBySlug VERIFICATION_ORG_SLUG db of Some g \<Rightarrow> next (onId g)
      | None \<Rightarrow> tryInsert ?insert (\<lambda>created. case created of Some g \<Rightarrow> next (onId g)
          | None \<Rightarrow> select (orgBySlug VERIFICATION_ORG_SLUG) (\<lambda>raced. orThrow raced (\<lambda>g. next (onId g)))))"
    proof (cases "orgBySlug VERIFICATION_ORG_SLUG db")
      case None
      then show ?thesis using fresh by (intro exI [of _ "\<lambda>_. True"]) simp
    next
      case (Some g)
      then have "g \<in> set (organizations db)" by (auto simp: orgBySlug_def dest: find_Some_in)
      from there [OF this] Some show ?thesis by simp
    qed
  qed simp
qed

lemma kept_provision: "kept X Y c (\<lambda>_. True) (provisionVerificationAccount now orgId userId role)"
proof -
  have stored: "storedVerificationRole role \<in> set ASSIGNABLE_ROLES" if "isVerificationRole role"
    using that by (auto simp: isVerificationRole_def VERIFICATION_ROLES_def storedVerificationRole_def ASSIGNABLE_ROLES_def)
  have reset: "lawful X Y c db (setAccount p (\<lambda>b. b\<lparr>acRole := storedVerificationRole role, acOrg := Some org\<rparr>) db)"
    if "isVerificationRole role" "accountInv c db" "X (accounts db)" "orgThere org db" for p db org
  proof (rule lawful_demote [OF that(3)])
    show "moves c db (setAccount p (\<lambda>b. b\<lparr>acRole := storedVerificationRole role, acOrg := Some org\<rparr>) db)"
      by (rule setAccount_moves [OF that(2)]) (use stored that in \<open>auto simp: orgThere_def assignable_is_role\<close>)
  qed (use stored that(1) below_owner in simp)
  have put: "kept X Y c (orgThere org) (tryInsert (insertAccount (newAccount userId now email name (storedVerificationRole role) org)) k)"
    if "isVerificationRole role" "\<And>x. kept X Y c (orgThere org) (k x)" for org email name
    and k :: "accountRow option \<Rightarrow> (accountDb, appError + sessionUser) request"
  proof (rule kept_tryInsert)
    fix db db' a assume db: "accountInv c db" "orgThere org db" "X (accounts db)"
      "insertAccount (newAccount userId now email name (storedVerificationRole role) org) db = Inr (db', a)"
    show "lawful X Y c db db'"
      by (rule lawful_insertAccount [OF db(1,3,4)]) (use stored [OF that(1)] db(2) in \<open>simp_all add: newAccount_def\<close>)
  next
    fix db db' a
    show "\<exists>F'. lasting F' \<and> F' db' \<and> kept X Y c (\<lambda>d. orgThere org d \<and> F' d) (k (Some a))"
      using that(2) by (intro exI [of _ "\<lambda>_. True"]) simp
  qed (use that(2) in simp_all)
  show ?thesis
    unfolding provisionVerificationAccount_def Let_def
    by (auto intro!: kept_rules kept_verificationOrg kept_select kept_execute reset put split: option.split)
qed

lemma kept_verification: "kept X Y c (\<lambda>_. True) (verificationSessionRoute jwtVerify config clock rowId orgId userId header)"
proof -
  have claim: "kept X Y c (\<lambda>_. True) (returning (claimJti i v) k)" if "\<And>x. kept X Y c (\<lambda>_. True) (k x)" for i v
    and k :: "bool \<Rightarrow> (accountDb, appError + verificationIssued) request"
    by (rule kept_returning [OF _ _ that]) (auto dest: claimJti_moves same_accounts)
  have mark: "kept X Y c (\<lambda>_. True) (execute (setVerification i f) p)" if "\<And>r. vfJti (f r) = vfJti r" "kept X Y c (\<lambda>_. True) p"
    for i f and p :: "(accountDb, appError + 'x) request"
    by (rule kept_elsewhere [OF _ _ _ that(2)]) (use that(1) in \<open>simp_all add: setVerification_moves\<close>)
  show ?thesis
    unfolding verificationSessionRoute_def Let_def
    by (auto intro!: kept_rules claim mark kept_andThen kept_rescue kept_provision
        simp: markIssued_def split: option.split sum.split)
qed

end

section \<open>The server\<close>

interpretation plain: standing_changes "\<lambda>_. True" "\<lambda>_ _. True"
  by unfold_locales simp_all

lemma plain_state: "accountState (\<lambda>_. True) c = accountInv c"
  by (simp add: accountState_def fun_eq_iff)

lemma plain_trend: "accountTrend (\<lambda>_ _. True) = accountGrew"
  by (simp add: accountTrend_def fun_eq_iff)

lemma kept_transfer: "kept (\<lambda>_. True) (\<lambda>_ _. True) c (\<lambda>_. True) (transferRoute env now down cookie target)"
  unfolding transferRoute_def
  by (auto intro!: plain.kept_rules plain.kept_withTarget plain.kept_attempt intro: transferOwnership_moves simp: lawful_def)

lemma standing_kept: "standingRequest p \<Longrightarrow> kept (\<lambda>_. True) (\<lambda>_ _. True) c (\<lambda>_. True) p"
  by (cases rule: standingRequest.cases)
    (auto simp: noReply_def plain.kept_map plain.kept_accept plain.kept_claim plain.kept_members kept_transfer plain.kept_verification)

lemma accountRequest_keeps: "accountRequest c p \<Longrightarrow> keeps (accountInv c) accountGrew p db"
  using plain.kept_keeps [of c p db] plain.quiet_kept [of p c] plain.confirm_kept [of p] standing_kept [of p c]
  by (cases c) (auto simp: accountRequest_def plain_state plain_trend)

lemma emptyAccounts_inv: "accountInv c emptyAccounts"
  by (simp add: accountInv_def emptyAccounts_def peopleOk_def invitesOk_def portalOk_def otpsOk_def joinsOf_def triesOf_def
      openingsOf_def sinceMinted_def OTP_MAX_ATTEMPTS_def)

interpretation accountServer: request_system "accountRequest c" emptyAccounts "accountInv c" accountGrew for c
  by unfold_locales (auto intro: emptyAccounts_inv accountGrew_trans accountRequest_keeps)

end
