(* ===== verification/SignedIn.thy ===== *)
theory SignedIn
  imports AccountSystem
begin

text \<open>Who a request behind \<open>requireAuth\<close> acts for, and how such a request ends and what it can change; and what a
  verification session that was answered went through.\<close>

text \<open>The user \<open>requireAuth\<close> lets through, if any, and what a request behind it does.\<close>

definition signedInUser :: "authEnv \<Rightarrow> ms \<Rightarrow> bool \<Rightarrow> string option \<Rightarrow> accountDb \<Rightarrow> authUser option" where
  "signedInUser env now down cookie db =
     (case verifyFirstValidToken env now (getSessionTokenCandidates cookie) of
        None \<Rightarrow> None | Some p \<Rightarrow> resolveUser down p db)"

lemma handle_requireAuth:
  "signedInUser env now down cookie db = Some u \<Longrightarrow> handle (requireAuth env now down cookie next) db = handle (next u) db"
  "signedInUser env now down cookie db = None \<Longrightarrow>
   \<exists>m. handle (requireAuth env now down cookie next) db = (Inl (UnauthorizedError m), db)"
  by (auto simp: signedInUser_def requireAuth_def Let_def request_simps split: option.splits)

lemma signedIn_row:
  "signedInUser env now down cookie db = Some u \<Longrightarrow>
   \<exists>a\<in>set (accounts db). acId a = auId u \<and> acOrg a = Some (auOrg u) \<and> acRole a = auRole u \<and> acEmail a = auEmail u"
  by (auto simp: signedInUser_def resolveUser_Some split: option.splits dest!: accountById_in)

lemma behind_auth:
  assumes "handle (requireAuth env now down cookie next) db = (Inr r, db')"
  obtains u where "signedInUser env now down cookie db = Some u" and "handle (next u) db = (Inr r, db')"
proof (cases "signedInUser env now down cookie db")
  case None
  from handle_requireAuth(2) [OF None, of "next"] assms show thesis by auto
next
  case (Some u)
  from handle_requireAuth(1) [OF Some, of "next"] assms show thesis using that [OF Some] by simp
qed

lemma auth_changes:
  assumes "snd (handle (requireAuth env now down cookie next) db) \<noteq> db"
  obtains u where "signedInUser env now down cookie db = Some u"
    and "handle (requireAuth env now down cookie next) db = handle (next u) db"
proof (cases "signedInUser env now down cookie db")
  case None
  from handle_requireAuth(2) [OF None, of "next"] assms show thesis by auto
next
  case (Some u)
  from handle_requireAuth(1) [OF Some, of "next"] show thesis using that [OF Some] by simp
qed

section \<open>Verification sessions\<close>

lemma setVerification_jtis:
  "(\<And>r. vfJti (f r) = vfJti r) \<Longrightarrow> vfJti ` set (verificationRows (setVerification i f db)) = vfJti ` set (verificationRows db)"
proof -
  assume "\<And>r. vfJti (f r) = vfJti r"
  then have "map vfJti (verificationRows (setVerification i f db)) = map vfJti (verificationRows db)"
    by (simp add: setVerification_def map_updateWhere)
  then show ?thesis by (metis list.set_map)
qed

lemma verification_claims:
  assumes "handle (verificationSessionRoute jwtVerify config clock rowId orgId userId header) db = (Inr v, db')"
  obtains cfg token c u db1 db2 where "config = Some cfg" and "bearerToken header = Some token"
    and "verifyVerificationToken (jwtVerify (vnSecret cfg)) (vnProjectId cfg) token = Inr c" and "isVerificationRole (vcRole c)"
    and "claimJti rowId c db = (db1, True)"
    and "handle (provisionVerificationAccount (clock 0) orgId userId (vcRole c)) db1 = (Inr u, db2)"
    and "db' = setVerification rowId (markIssued (suId u) (clock 1 + vcTtlSeconds c * 1000)) db2"
    and "v = \<lparr>viToken = createVerificationSessionToken (clock 2) (vcTtlSeconds c) (vcJti c) u,
           viExpiresAt = clock 1 + vcTtlSeconds c * 1000, viUser = u\<rparr>"
proof -
  from assms obtain cfg where cfg: "config = Some cfg" by (cases config) (auto simp: verificationSessionRoute_def)
  with assms obtain token where token: "bearerToken header = Some token"
    by (cases "bearerToken header") (auto simp: verificationSessionRoute_def)
  with assms cfg obtain c where c: "verifyVerificationToken (jwtVerify (vnSecret cfg)) (vnProjectId cfg) token = Inr c"
    by (cases "verifyVerificationToken (jwtVerify (vnSecret cfg)) (vnProjectId cfg) token") (auto simp: verificationSessionRoute_def)
  obtain db1 won where claim: "claimJti rowId c db = (db1, won)" by fastforce
  obtain res db2 where prov: "handle (provisionVerificationAccount (clock 0) orgId userId (vcRole c)) db1 = (res, db2)" by fastforce
  have run: "isVerificationRole (vcRole c)" "won" "\<not> isl res"
    using assms by (auto simp: verificationSessionRoute_def cfg token c claim prov request_simps split: if_splits sum.splits)
  then obtain u where u: "res = Inr u" by (cases res) auto
  show thesis
    using assms run
    by (intro that [OF cfg token c run(1) _ prov [unfolded u]])
      (auto simp: verificationSessionRoute_def cfg token c claim prov u request_simps Let_def)
qed

lemma provision_rows:
  "handle (provisionVerificationAccount now orgId userId role) db = (Inr u, db') \<Longrightarrow> verificationRows db' = verificationRows db"
  by (auto simp: provisionVerificationAccount_def findOrCreateVerificationOrg_def tryInsert_def orThrow_def request_simps Let_def
      insertOrg_def insertAccount_def setAccount_def split: if_splits option.splits sum.splits prod.splits)

end
