(* ===== verification/Ownership.thy ===== *)
theory Ownership
  imports AccountServer SignedIn
begin

text \<open>
  Who owns an organization. At most one account of an organization is its owner, whatever the requests do between
  each other's statements, as long as a transfer of ownership runs in one go; and which requests can leave an
  organization without one.
\<close>

definition ownersOf :: "uuid \<Rightarrow> accountRow list \<Rightarrow> accountRow list" where
  "ownersOf org as = filter (\<lambda>a. acOrg a = Some org \<and> acRole a = ''owner'') as"

definition oneOwner :: "accountRow list \<Rightarrow> bool" where
  "oneOwner as \<longleftrightarrow> (\<forall>org. length (ownersOf org as) \<le> 1)"

definition stillOwned :: "accountRow list \<Rightarrow> accountRow list \<Rightarrow> bool" where
  "stillOwned as bs \<longleftrightarrow> (\<forall>org. ownersOf org as \<noteq> [] \<longrightarrow> ownersOf org bs \<noteq> [])"

section \<open>At most one\<close>

lemma owners_updateWhere_same:
  "(\<And>a. acOrg (f a) = acOrg a \<and> acRole (f a) = acRole a) \<Longrightarrow> length (ownersOf org (updateWhere p f as)) = length (ownersOf org as)"
  for f :: "accountRow \<Rightarrow> accountRow"
  by (induction as) (auto simp: ownersOf_def updateWhere_def)

lemma owners_demoted:
  "(\<And>a. p a \<Longrightarrow> acRole (f a) \<noteq> ''owner'') \<Longrightarrow> length (ownersOf org (updateWhere p f as)) \<le> length (ownersOf org as)"
  for f :: "accountRow \<Rightarrow> accountRow"
  by (induction as) (auto simp: ownersOf_def updateWhere_def)

lemma owners_append: "ownersOf org (as @ bs) = ownersOf org as @ ownersOf org bs"
  by (simp add: ownersOf_def)

lemma owners_none: "(\<forall>b\<in>set as. acOrg b \<noteq> Some org) \<Longrightarrow> ownersOf org as = []"
  by (simp add: ownersOf_def filter_empty_conv)

interpretation single: standing_changes oneOwner "\<lambda>_ _. True"
proof unfold_locales
  fix as :: "accountRow list" and p and f :: "accountRow \<Rightarrow> accountRow"
  assume "oneOwner as" "\<And>a. acId (f a) = acId a \<and> acOrg (f a) = acOrg a \<and> acRole (f a) = acRole a"
  then show "oneOwner (updateWhere p f as) \<and> True" by (simp add: oneOwner_def owners_updateWhere_same)
next
  fix as and a :: accountRow assume "oneOwner as" "acRole a \<noteq> ''owner''"
  then show "oneOwner (as @ [a]) \<and> True" by (simp add: oneOwner_def owners_append) (simp add: ownersOf_def)
next
  fix as and a :: accountRow assume "oneOwner as" "\<forall>b\<in>set as. acOrg b \<noteq> acOrg a"
  moreover from this have "acOrg a = Some org \<Longrightarrow> ownersOf org as = []" for org by (auto intro: owners_none)
  ultimately show "oneOwner (as @ [a]) \<and> True"
    by (auto simp: oneOwner_def owners_append) (auto simp: ownersOf_def)
next
  fix as :: "accountRow list" and p and f :: "accountRow \<Rightarrow> accountRow" assume "oneOwner as" "\<And>a. p a \<Longrightarrow> acRole (f a) \<noteq> ''owner''"
  then show "oneOwner (updateWhere p f as) \<and> True"
    by (auto simp: oneOwner_def intro: order_trans [OF owners_demoted])
qed simp_all

text \<open>The transfer, by the owner of \<open>org\<close>.\<close>

lemma only_owner:
  assumes "oneOwner as" and "a \<in> set (ownersOf org as)" and "b \<in> set (ownersOf org as)"
  shows "b = a"
proof -
  have "length (ownersOf org as) \<le> 1" using assms(1) by (simp add: oneOwner_def)
  then show ?thesis using assms(2,3) by (cases "ownersOf org as") auto
qed

lemma transfer_owners:
  assumes "oneOwner as" and "distinct (map acId as)" and "a \<in> set as" and "acOrg a = Some org" and "acRole a = ''owner''"
  shows "oneOwner (updateWhere (\<lambda>b. acId b = target \<and> acOrg b = Some org) (\<lambda>b. b\<lparr>acRole := ''owner''\<rparr>)
    (updateWhere (\<lambda>b. acId b = acId a \<and> acRole b = ''owner'') (\<lambda>b. b\<lparr>acRole := ''admin''\<rparr>) as))"
    (is "oneOwner (updateWhere ?raise ?up ?as1)")
proof -
  have one: "oneOwner ?as1" using single.demotion [OF assms(1), of _ "\<lambda>b. b\<lparr>acRole := ''admin''\<rparr>"] by simp
  have ids: "distinct (map acId ?as1)" using assms(2) by (simp add: map_updateWhere)
  have others: "length (ownersOf g (updateWhere ?raise ?up bs)) = length (ownersOf g bs)" if "g \<noteq> org" for g bs
    using that by (induction bs) (auto simp: ownersOf_def updateWhere_def)
  have "ownersOf org ?as1 = []"
  proof (rule ccontr)
    assume "ownersOf org ?as1 \<noteq> []"
    then obtain b where b: "b \<in> set as" "acOrg b = Some org" "acRole b = ''owner''" "acId b \<noteq> acId a"
      by (auto simp: ownersOf_def updateWhere_def filter_empty_conv split: if_splits)
    then show False using only_owner [OF assms(1), of a org b] assms(3-5) by (auto simp: ownersOf_def)
  qed
  then have none: "\<forall>b\<in>set ?as1. acOrg b = Some org \<longrightarrow> acRole b \<noteq> ''owner''" by (auto simp: ownersOf_def filter_empty_conv)
  have "length (ownersOf org (updateWhere ?raise ?up bs)) = length (filter ?raise bs)"
    if "\<forall>b\<in>set bs. acOrg b = Some org \<longrightarrow> acRole b \<noteq> ''owner''" for bs
    using that by (induction bs) (auto simp: ownersOf_def updateWhere_def)
  from this [OF none] have raised: "length (ownersOf org (updateWhere ?raise ?up ?as1)) = length (filter ?raise ?as1)" .
  have "length (filter ?raise bs) \<le> 1" if "distinct (map acId bs)" for bs
    using that
  proof (induction bs)
    case (Cons b bs)
    then have "?raise b \<Longrightarrow> filter ?raise bs = []" by (auto simp: filter_empty_conv image_iff)
    with Cons show ?case by auto
  qed simp
  with raised ids have "length (ownersOf org (updateWhere ?raise ?up ?as1)) \<le> 1" by simp
  moreover have "length (ownersOf g ?as1) \<le> 1" for g using one by (simp add: oneOwner_def)
  ultimately have "length (ownersOf g (updateWhere ?raise ?up ?as1)) \<le> 1" for g by (cases "g = org") (simp_all add: others)
  then show ?thesis by (simp add: oneOwner_def)
qed

text \<open>A server that runs every transfer of ownership in one go.\<close>

inductive orderlyRequest :: "(accountDb, unit) request \<Rightarrow> bool" where
  "quietRequest p \<Longrightarrow> orderlyRequest p"
| "confirmRequest p \<Longrightarrow> orderlyRequest p"
| "orderlyRequest (noReply (acceptInviteRoute env clock down cookie token))"
| "orderlyRequest (noReply (claimInviteRoute env clock newId token))"
| "orderlyRequest (noReply (updateRoleRoute env now down cookie target role))"
| "orderlyRequest (noReply (removeMemberRoute env now down cookie target))"
| "orderlyRequest (atOnce (noReply (transferRoute env now down cookie target)))"
| "orderlyRequest (noReply (leaveRoute env now down cookie))"
| "orderlyRequest (noReply (verificationSessionRoute jwtVerify config clock rowId orgId userId header))"

lemma owner_only: "can role ''org.transfer_ownership'' \<Longrightarrow> role = ''owner''"
  using rankOf_eq_100 [of role] rankOf_cases [of role]
  by (auto simp: can_def CAPABILITY_MIN_ROLE_def hasAtLeast_def rankOf_def [of "''owner''"] HIERARCHY_def)

lemma transferRoute_effect:
  assumes "handle (transferRoute env now down cookie target) db = (r, db')" and "db' \<noteq> db"
  obtains u a b where "signedInUser env now down cookie db = Some u" and "auRole u = ''owner''"
    and "a \<in> set (accounts db)" and "acId a = auId u" and "acOrg a = Some (auOrg u)" and "acRole a = ''owner''"
    and "b \<in> set (accounts db)" and "acId b = target" and "acOrg b = Some (auOrg u)" and "target \<noteq> auId u"
    and "transferOwnership (auId u) (auOrg u) target db = Inr (db', ())"
proof -
  have "snd (handle (transferRoute env now down cookie target) db) \<noteq> db" using assms by simp
  then obtain u where u: "signedInUser env now down cookie db = Some u"
    and run: "handle (transferRoute env now down cookie target) db =
      handle (withCapability ''org.transfer_ownership'' u
        (withTarget u target ''You are already the owner.'' (\<lambda>a.
         attempt (transferOwnership (auId u) (auOrg u) target) (\<lambda>_. Answer (Inr (target, auId u)))))) db"
    unfolding transferRoute_def by (elim auth_changes)
  from signedIn_row [OF u] obtain a where a: "a \<in> set (accounts db)" "acId a = auId u" "acOrg a = Some (auOrg u)" "acRole a = auRole u"
    by auto
  have owner: "auRole u = ''owner''"
    using run assms owner_only [of "auRole u"] by (auto simp: withCapability_def request_simps split: if_splits)
  have "target \<noteq> auId u \<and> (\<exists>b. memberOf target (auOrg u) db = Some b) \<and> transferOwnership (auId u) (auOrg u) target db = Inr (db', ())"
    using run assms by (auto simp: withCapability_def withTarget_def request_simps split: if_splits option.splits sum.splits)
  then obtain b where b: "b \<in> set (accounts db)" "acId b = target" "acOrg b = Some (auOrg u)" "target \<noteq> auId u"
    "transferOwnership (auId u) (auOrg u) target db = Inr (db', ())"
    by (auto simp: memberOf_def dest: find_Some_in)
  show thesis using that [OF u owner a(1-3) _ b] a(4) owner by simp
qed

lemma transferOwnership_accounts:
  "transferOwnership caller org target db = Inr (db', x) \<Longrightarrow>
   accounts db' = updateWhere (\<lambda>b. acId b = target \<and> acOrg b = Some org) (\<lambda>b. b\<lparr>acRole := ''owner''\<rparr>)
     (updateWhere (\<lambda>b. acId b = caller \<and> acRole b = ''owner'') (\<lambda>b. b\<lparr>acRole := ''admin''\<rparr>) (accounts db))"
  by (auto simp: transferOwnership_def setAccount_def split: if_splits)

lemma transfer_keeps_one:
  assumes "accountInv c db" and "oneOwner (accounts db)"
  shows "oneOwner (accounts (snd (handle (transferRoute env now down cookie target) db)))"
proof -
  obtain r db' where run: "handle (transferRoute env now down cookie target) db = (r, db')" by fastforce
  show ?thesis
  proof (cases "db' = db")
    case True
    with run assms show ?thesis by simp
  next
    case False
    have ids: "distinct (map acId (accounts db))" using assms(1) by (simp add: accountInv_def peopleOk_def)
    from run False obtain u :: authUser and a where a: "a \<in> set (accounts db)" "acId a = auId u" "acOrg a = Some (auOrg u)" "acRole a = ''owner''"
      and tx: "transferOwnership (auId u) (auOrg u) target db = Inr (db', ())" by (rule transferRoute_effect) blast
    show ?thesis
      using transfer_owners [OF assms(2) ids a(1,3,4), of target] a(2) run transferOwnership_accounts [OF tx] by simp
  qed
qed

lemma orderly_keeps:
  assumes "orderlyRequest p"
  shows "keeps (accountState oneOwner False) (accountTrend (\<lambda>_ _. True)) p db"
proof -
  have "keeps (accountState oneOwner False) (accountTrend (\<lambda>_ _. True))
      (atOnce (noReply (transferRoute env now down cookie target))) db" for env now down cookie target
  proof (rule keeps_atOnce)
    fix db assume db: "accountState oneOwner False db"
    have "keeps (accountInv False) accountGrew (transferRoute env now down cookie target) db"
      using plain.kept_keeps [OF kept_transfer] by (simp add: plain_state plain_trend)
    from keeps_handle [OF this, of ] db accountGrew_trans
    have "accountInv False (snd (handle (transferRoute env now down cookie target) db)) \<and>
        accountGrew db (snd (handle (transferRoute env now down cookie target) db))"
      by (auto simp: accountState_def)
    then show "accountState oneOwner False (snd (handle (noReply (transferRoute env now down cookie target)) db)) \<and>
        accountTrend (\<lambda>_ _. True) db (snd (handle (noReply (transferRoute env now down cookie target)) db))"
      using db transfer_keeps_one [of False db env now down cookie target] by (simp add: accountState_def accountTrend_def noReply_def request_simps)
  qed
  then show ?thesis
    by (cases rule: orderlyRequest.cases [OF assms]) (auto simp: noReply_def keeps_map single.kept_members
        intro: single.kept_keeps [OF single.quiet_kept] single.kept_keeps [OF single.confirm_kept] single.kept_keeps [OF single.kept_accept]
          single.kept_keeps [OF single.kept_claim] single.kept_keeps [OF single.kept_verification] single.kept_keeps)
qed

interpretation orderlyServer: request_system orderlyRequest emptyAccounts "accountState oneOwner False" "accountTrend (\<lambda>_ _. True)"
proof unfold_locales
  show "accountState oneOwner False emptyAccounts"
    by (simp add: accountState_def emptyAccounts_inv) (simp add: emptyAccounts_def oneOwner_def ownersOf_def)
qed (auto intro: orderly_keeps single.trend_refl single.trend_trans)

section \<open>At least one\<close>

text \<open>The requests after which every organization that had an owner still has one.\<close>

inductive stewardRequest :: "(accountDb, unit) request \<Rightarrow> bool" where
  "quietRequest p \<Longrightarrow> stewardRequest p"
| "confirmRequest p \<Longrightarrow> stewardRequest p"
| "stewardRequest (noReply (updateRoleRoute env now down cookie target role))"
| "stewardRequest (noReply (removeMemberRoute env now down cookie target))"
| "stewardRequest (noReply (transferRoute env now down cookie target))"
| "stewardRequest (noReply (leaveRoute env now down cookie))"

lemma stillOwned_member: "(\<And>org x. x \<in> set (ownersOf org as) \<Longrightarrow> \<exists>y. y \<in> set (ownersOf org bs)) \<Longrightarrow> stillOwned as bs"
  unfolding stillOwned_def set_empty [symmetric] ex_in_conv [symmetric] by blast

lemma stillOwned_refl: "stillOwned as as"
  by (simp add: stillOwned_def)

lemma stillOwned_trans: "stillOwned as bs \<Longrightarrow> stillOwned bs cs \<Longrightarrow> stillOwned as cs"
  by (simp add: stillOwned_def)

lemma stillOwned_same:
  "(\<And>a. acOrg (f a) = acOrg a \<and> acRole (f a) = acRole a) \<Longrightarrow> stillOwned as (updateWhere p f as)"
  for f :: "accountRow \<Rightarrow> accountRow"
  unfolding stillOwned_def using owners_updateWhere_same [of f] by (metis length_0_conv)

interpretation steward: standing "\<lambda>_. True" stillOwned
  by unfold_locales
    (auto simp: stillOwned_refl stillOwned_same, auto simp: stillOwned_def owners_append)

text \<open>Members below the owner come and go without it.\<close>

lemma stillOwned_members:
  assumes "\<And>a. a \<in> set as \<Longrightarrow> p a \<Longrightarrow> acRole a \<noteq> ''owner''"
  shows "stillOwned as (updateWhere p f as)"
proof -
  have "set (ownersOf org as) \<subseteq> set (ownersOf org (updateWhere p f as))" for org
    using assms by (auto simp: ownersOf_def set_updateWhere image_iff)
  then show ?thesis by (auto intro!: stillOwned_member)
qed

text \<open>What a change of a member's role and the removal of a member do, when they do anything.\<close>

lemma memberChange_effect:
  assumes "p = noReply (updateRoleRoute env now down cookie target role) \<or> p = noReply (removeMemberRoute env now down cookie target)"
    and "snd (handle p db) \<noteq> db"
  obtains u :: authUser and a f where "signedInUser env now down cookie db = Some u"
    and "a \<in> set (accounts db)" and "acId a = target" and "acOrg a = Some (auOrg u)"
    and "canManage (auRole u) (acRole a)" and "snd (handle p db) = setAccount (\<lambda>b. acId b = target) f db"
    and "\<And>b. acRole (f b) \<in> set ASSIGNABLE_ROLES \<and> acId (f b) = acId b \<and> acOrg (f b) \<in> {acOrg b, None}"
proof -
  have member: "b \<in> set (accounts db) \<and> acId b = target \<and> acOrg b = Some org" if "memberOf target org db = Some b" for b org
    using that by (auto simp: memberOf_def dest: find_Some_in)
  from assms(1) show thesis
  proof
    assume p: "p = noReply (updateRoleRoute env now down cookie target role)"
    then have "snd (handle (updateRoleRoute env now down cookie target role) db) \<noteq> db"
      using assms(2) by (simp add: noReply_def request_simps)
    then obtain u where u: "signedInUser env now down cookie db = Some u"
      and run: "handle (updateRoleRoute env now down cookie target role) db = handle (withCapability ''team.update_role'' u
        (check (role \<notin> set ASSIGNABLE_ROLES) (aeIssue env)
        (withTarget u target ''You cannot change your own role. Ask another admin or the owner.'' (\<lambda>a.
         check (\<not> canManage (auRole u) (acRole a))
           (cannotManage u a ''Cannot change the role of the organization owner.''
              (''Only the owner can change another admin'' @ [CHR 0x27] @ ''s role.''))
        (attempt (changeRole target role) (\<lambda>b. Answer (Inr b))))))) db"
      unfolding updateRoleRoute_def by (elim auth_changes)
    have "\<exists>a. memberOf target (auOrg u) db = Some a \<and> canManage (auRole u) (acRole a) \<and> role \<in> set ASSIGNABLE_ROLES \<and>
        snd (handle p db) = setAccount (\<lambda>b. acId b = target) (\<lambda>b. b\<lparr>acRole := role\<rparr>) db"
      using assms(2) unfolding p
      by (auto simp: noReply_def handle_map run withCapability_def withTarget_def request_simps changeRole_def
          split: if_splits option.splits sum.splits)
    then show thesis using that [OF u, of _ "\<lambda>b. b\<lparr>acRole := role\<rparr>"] member by auto
  next
    assume p: "p = noReply (removeMemberRoute env now down cookie target)"
    then have "snd (handle (removeMemberRoute env now down cookie target) db) \<noteq> db"
      using assms(2) by (simp add: noReply_def request_simps)
    then obtain u where u: "signedInUser env now down cookie db = Some u"
      and run: "handle (removeMemberRoute env now down cookie target) db = handle (withCapability ''team.remove'' u
        (withTarget u target ''Cannot remove yourself from the organization'' (\<lambda>a.
         check (\<not> canManage (auRole u) (acRole a))
           (cannotManage u a ''Cannot remove the organization owner.'' ''Only the owner can remove another admin.'')
        (execute (detach target) (Answer (Inr ())))))) db"
      unfolding removeMemberRoute_def by (elim auth_changes)
    have "\<exists>a. memberOf target (auOrg u) db = Some a \<and> canManage (auRole u) (acRole a) \<and>
        snd (handle p db) = setAccount (\<lambda>b. acId b = target) (\<lambda>b. b\<lparr>acOrg := None, acRole := ''viewer''\<rparr>) db"
      using assms(2) unfolding p
      by (auto simp: noReply_def handle_map run withCapability_def withTarget_def request_simps detach_def
          split: if_splits option.splits sum.splits)
    then show thesis
      using that [OF u, of _ "\<lambda>b. b\<lparr>acOrg := None, acRole := ''viewer''\<rparr>"] member by (auto simp: ASSIGNABLE_ROLES_def)
  qed
qed

lemma sameRow: "distinct (map acId as) \<Longrightarrow> a \<in> set as \<Longrightarrow> b \<in> set as \<Longrightarrow> acId a = acId b \<Longrightarrow> a = b"
  by (metis distinct_map inj_onD)

lemma memberChange_owned:
  assumes "accountInv c db"
    and "p = noReply (updateRoleRoute env now down cookie target role) \<or> p = noReply (removeMemberRoute env now down cookie target)"
  shows "stillOwned (accounts db) (accounts (snd (handle p db)))"
proof (cases "snd (handle p db) = db")
  case True
  then show ?thesis by (simp add: stillOwned_refl)
next
  case False
  from assms(2) False obtain a f where a: "a \<in> set (accounts db)" "acId a = target" "acRole a \<noteq> ''owner''"
    and db': "snd (handle p db) = setAccount (\<lambda>b. acId b = target) f db"
    by (rule memberChange_effect) (auto simp: canManage_def)
  have "distinct (map acId (accounts db))" using assms(1) by (simp add: accountInv_def peopleOk_def)
  from sameRow [OF this] a show ?thesis
    unfolding db' setAccount_def by (auto intro!: stillOwned_members)
qed

lemma leave_owned:
  assumes "accountInv c db"
  shows "stillOwned (accounts db) (accounts (snd (handle (leaveRoute env now down cookie) db)))"
proof (cases "snd (handle (leaveRoute env now down cookie) db) = db")
  case True
  then show ?thesis by (simp add: stillOwned_refl)
next
  case False
  then obtain u where u: "signedInUser env now down cookie db = Some u"
    and run: "handle (leaveRoute env now down cookie) db = handle (check (auRole u = ''owner'')
       (ForbiddenError (''The organization owner can'' @ [CHR 0x27] @ ''t leave. Transfer ownership or delete the organization first.''))
     (execute (detach (auId u)) (Answer (Inr ())))) db"
    unfolding leaveRoute_def by (elim auth_changes)
  from signedIn_row [OF u] obtain a where a: "a \<in> set (accounts db)" "acId a = auId u" "acRole a = auRole u" by auto
  have "distinct (map acId (accounts db))" using assms by (simp add: accountInv_def peopleOk_def)
  from sameRow [OF this a(1)] a(2,3) have "b \<in> set (accounts db) \<Longrightarrow> acId b = auId u \<Longrightarrow> acRole b = auRole u" for b by auto
  with False show ?thesis
    unfolding run by (auto simp: request_simps detach_def setAccount_def stillOwned_refl intro!: stillOwned_members)
qed

lemma transfer_owned:
  assumes "accountInv c db"
  shows "stillOwned (accounts db) (accounts (snd (handle (transferRoute env now down cookie target) db)))"
proof -
  obtain r db' where run: "handle (transferRoute env now down cookie target) db = (r, db')" by fastforce
  show ?thesis
  proof (cases "db' = db")
    case True
    with run show ?thesis by (simp add: stillOwned_refl)
  next
    case False
    have ids: "distinct (map acId (accounts db))" using assms by (simp add: accountInv_def peopleOk_def)
    from run False obtain u :: authUser and a b where a: "a \<in> set (accounts db)" "acId a = auId u" "acOrg a = Some (auOrg u)"
      and b: "b \<in> set (accounts db)" "acId b = target" "acOrg b = Some (auOrg u)" "target \<noteq> auId u"
      and tx: "transferOwnership (auId u) (auOrg u) target db = Inr (db', ())"
      by (rule transferRoute_effect) blast
    have "b\<lparr>acRole := ''owner''\<rparr> \<in> set (ownersOf (auOrg u) (accounts db'))"
      unfolding transferOwnership_accounts [OF tx] using b by (force simp: ownersOf_def set_updateWhere)
    moreover have "x \<in> set (ownersOf org (accounts db'))" if "x \<in> set (ownersOf org (accounts db))" "org \<noteq> auOrg u" for x org
      unfolding transferOwnership_accounts [OF tx]
      using that a sameRow [OF ids, of x a] by (force simp: ownersOf_def set_updateWhere)
    ultimately have "stillOwned (accounts db) (accounts db')"
      by (intro stillOwned_member) metis
    then show ?thesis using run by simp
  qed
qed

lemma steward_handle:
  assumes "stewardRequest p" and "accountInv False db"
  shows "stillOwned (accounts db) (accounts (snd (handle p db)))"
proof -
  have kept: "stillOwned (accounts db) (accounts (snd (handle p db)))" if "kept (\<lambda>_. True) stillOwned False (\<lambda>_. True) p"
    using keeps_handle [OF steward.kept_keeps [OF that] _ steward.trend_refl steward.trend_trans] assms(2)
    by (simp add: accountState_def accountTrend_def)
  from assms(1) show ?thesis
  proof cases
    case (3 env now down cookie target role)
    with memberChange_owned [OF assms(2)] show ?thesis by blast
  next
    case (4 env now down cookie target)
    with memberChange_owned [OF assms(2)] show ?thesis by blast
  qed (use kept steward.quiet_kept steward.confirm_kept leave_owned [OF assms(2)] transfer_owned [OF assms(2)]
    in \<open>auto simp: noReply_def request_simps\<close>)
qed

end
