(* ===== verification/AccountExamples.thy ===== *)
theory AccountExamples
  imports Ownership
begin

text \<open>
  A run of the account server for the witnesses: a person signs up with a code, invites somebody, who claims the
  invitation; a portal link is issued and revoked; a verification token is traded for a session. Each request
  runs to its end before the next one arrives.
\<close>

definition exampleAuth :: authEnv where
  "exampleAuth =
     \<lparr>aeVerify = (\<lambda>_ token. if token = ''o'' then Some [(''sub'', JStr ''O''), (''iat'', JNum 1)]
        else if token = ''m'' then Some [(''sub'', JStr ''M''), (''iat'', JNum 1)]
        else if token = ''v'' then Some [(''sub'', JStr ''V''), (VERIFICATION_SESSION_CLAIM, JObj [])] else None),
      aeHipaaEnabled = None, aeIsEmail = (\<lambda>_. True), aeIssue = PlainError ''invalid'', aeHash = (\<lambda>s. s)\<rparr>"

definition exampleCookie :: "string \<Rightarrow> string option" where
  "exampleCookie token = Some (''session_id='' @ token)"

lemma example_candidates [simp]:
  "getSessionTokenCandidates (exampleCookie ''o'') = [''o'']"
  "getSessionTokenCandidates (exampleCookie ''m'') = [''m'']"
  "getSessionTokenCandidates (exampleCookie ''v'') = [''v'']"
  by code_simp+

definition exampleClock :: "nat \<Rightarrow> ms" where
  "exampleClock n = 5000"

definition ownerRow :: accountRow where
  "ownerRow = newAccount ''O'' 5000 ''a@b'' (Some ''a'') ''owner'' ''G''"

definition exampleOrgRow :: organizationRow where
  "exampleOrgRow = newOrg ''G'' 5000 (orgName ''a'') ''a''"

definition codeRow :: otpRow where
  "codeRow = newOtp ''c'' 5000 (otpExpiresAt 5000) ''a@b'' ''000007''"

definition codeSent :: accountDb where
  "codeSent = emptyAccounts\<lparr>otps := [codeRow], trail := [Minted ''c'']\<rparr>"

definition signedUp :: accountDb where
  "signedUp = emptyAccounts\<lparr>accounts := [ownerRow], organizations := [exampleOrgRow], trail := [Opened ''c'', Tried ''c'', Minted ''c'']\<rparr>"

abbreviation exampleSendCode :: "(accountDb, appError + string \<times> string) request" where
  "exampleSendCode \<equiv> sendOtp exampleAuth None exampleClock 7 ''c'' ''a@b''"

abbreviation exampleVerify :: "string \<Rightarrow> (accountDb, appError + signedIn) request" where
  "exampleVerify guess \<equiv> verifyOtp exampleAuth exampleClock ''G'' ''O'' ''a@b'' guess None"

lemma example_texts [simp]:
  "toLowerCase (trim ''a@b'') = ''a@b''" "filter isDigit ''000007'' = ''000007''" "filter isDigit ''000008'' = ''000008''"
  "slugify ''a'' = ''a''" "hd (splitOn (CHR ''@'') ''a@b'') = ''a''"
  by code_simp+

lemma example_address [simp]: "isVerificationAccountEmail ''a@b'' = False"
proof -
  have "toLowerCase ''a@b'' = ''a@b''" by code_simp
  then show ?thesis by (simp add: isVerificationAccountEmail_def startsWith_def)
qed

lemma example_digits [simp]: "isDigit (CHR ''0'')" "isDigit (CHR ''7'')" "isDigit (CHR ''8'')"
  by code_simp+

lemma example_code [simp]: "generateOtp 7 = ''000007''"
proof -
  have "unat (7 :: 32 word) mod 1000000 = 7" by simp
  moreover have "decimal 7 = ''7''" by (subst decimal.simps) code_simp
  ultimately have "generateOtp 7 = padStart6 ''7''" by (simp only: generateOtp_def)
  also have "\<dots> = ''000007''" by code_simp
  finally show ?thesis .
qed

lemma run_send: "handle exampleSendCode emptyAccounts = (Inr (''a@b'', ''000007''), codeSent)"
  by (simp add: sendOtp_def readEmail_def request_simps exampleAuth_def rateLimit_def OTP_SENDS_PER_WINDOW_def emptyAccounts_def
      deleteExpired_def deleteWhere_def liveOtp_def deleteOtps_def insertOtp_def newOtp_def codeSent_def codeRow_def exampleClock_def Let_def)

lemma run_verify: "snd (handle (exampleVerify ''000007'') codeSent) = signedUp"
  by (simp add: verifyOtp_def readEmail_def readCode_def request_simps exampleAuth_def codeSent_def emptyAccounts_def codeRow_def newOtp_def
      claimTries_def unspent_def otpExpiresAt_def OTP_TTL_MINUTES_def OTP_MAX_ATTEMPTS_def exampleClock_def table_simps oneTry_def
      consumeOtp_def deleteWhere_def deleteOtps_def signInAccount_def accountByEmail_def signUp_def insertOrg_def insertAccount_def
      signedUp_def ownerRow_def exampleOrgRow_def Let_def newAccount_def newOrg_def ebind_def split: option.split)

lemma run_verify_answers: "\<not> isl (fst (handle (exampleVerify ''000007'') codeSent))"
  by (simp add: verifyOtp_def readEmail_def readCode_def request_simps exampleAuth_def codeSent_def emptyAccounts_def codeRow_def newOtp_def
      claimTries_def unspent_def otpExpiresAt_def OTP_TTL_MINUTES_def OTP_MAX_ATTEMPTS_def exampleClock_def table_simps oneTry_def
      consumeOtp_def deleteWhere_def deleteOtps_def signInAccount_def accountByEmail_def signUp_def insertOrg_def insertAccount_def
      Let_def newAccount_def newOrg_def ebind_def split: option.split)

lemma run_taken:
  "otps (snd (handle (verifyOtp exampleAuth exampleClock ''H'' ''O'' ''a@b'' ''000007'' (Some ''a'')) (codeSent\<lparr>organizations := [exampleOrgRow]\<rparr>))) = []"
proof -
  have "trim ''a'' = ''a''" by code_simp
  then show ?thesis
    by (simp add: verifyOtp_def readEmail_def readCode_def request_simps exampleAuth_def codeSent_def emptyAccounts_def codeRow_def newOtp_def
      claimTries_def unspent_def otpExpiresAt_def OTP_TTL_MINUTES_def OTP_MAX_ATTEMPTS_def exampleClock_def table_simps oneTry_def
      consumeOtp_def deleteWhere_def deleteOtps_def signInAccount_def accountByEmail_def signUp_def insertOrg_def
      exampleOrgRow_def Let_def newAccount_def newOrg_def ebind_def split: option.split)
qed

section \<open>An invitation\<close>

definition exampleInvite :: inviteRow where
  "exampleInvite =
     newInvite ''I'' 5000 604805000 ''AAAA'' \<lparr>ciOrg = ''G'', ciInvitedBy = ''O'', ciEmail = ''n@b'', ciRole = ''editor''\<rparr>"

definition invited :: accountDb where
  "invited = signedUp\<lparr>invites := [exampleInvite]\<rparr>"

definition memberRow :: accountRow where
  "memberRow = (newAccount ''M'' 5000 ''n@b'' None ''editor'' ''G'')\<lparr>acLastLoginAt := Some 5000\<rparr>"

definition joined :: accountDb where
  "joined = signedUp\<lparr>accounts := [ownerRow, memberRow], invites := [exampleInvite\<lparr>ivAcceptedAt := Some 5000\<rparr>],
     trail := Joined ''I'' # trail signedUp\<rparr>"

abbreviation exampleSendInvite :: "(accountDb, appError + pendingInviteView) request" where
  "exampleSendInvite \<equiv> sendInviteRoute exampleAuth exampleClock False (exampleCookie ''o'') ''I'' [0, 0, 0] ''n@b'' None"

abbreviation exampleInviteClaim :: "(accountDb, appError + claims \<times> sessionUser) request" where
  "exampleInviteClaim \<equiv> claimInviteRoute exampleAuth exampleClock ''M'' ''AAAA''"

lemma example_tokens [simp]: "toLowerCase (trim ''n@b'') = ''n@b''" "generateInviteToken [0, 0, 0] = ''AAAA''"
  by code_simp+

lemma ownerRow_simps [simp]:
  "acId ownerRow = ''O''" "acEmail ownerRow = ''a@b''" "acRole ownerRow = ''owner''" "acOrg ownerRow = Some ''G''"
  "acTokenInvalidatedBefore ownerRow = None" "acName ownerRow = Some ''a''" "onId exampleOrgRow = ''G''" "onSlug exampleOrgRow = Some ''a''"
  by (simp_all add: ownerRow_def exampleOrgRow_def newAccount_def newOrg_def)

lemma memberRow_simps [simp]:
  "acId memberRow = ''M''" "acEmail memberRow = ''n@b''" "acRole memberRow = ''editor''" "acOrg memberRow = Some ''G''"
  "acTokenInvalidatedBefore memberRow = None" "acName memberRow = None"
  by (simp_all add: memberRow_def newAccount_def)

lemma exampleInvite_simps [simp]:
  "ivId exampleInvite = ''I''" "ivOrg exampleInvite = ''G''" "ivInvitedBy exampleInvite = ''O''" "ivEmail exampleInvite = ''n@b''"
  "ivRole exampleInvite = ''editor''" "ivToken exampleInvite = ''AAAA''" "ivAcceptedAt exampleInvite = None"
  "ivRevokedAt exampleInvite = None" "ivExpiresAt exampleInvite = 604805000"
  by (simp_all add: exampleInvite_def newInvite_def)

lemma signedUp_simps [simp]:
  "accounts signedUp = [ownerRow]" "organizations signedUp = [exampleOrgRow]" "invites signedUp = []" "otps signedUp = []"
  "portalTokens signedUp = []" "verificationRows signedUp = []" "trail signedUp = [Opened ''c'', Tried ''c'', Minted ''c'']"
  by (simp_all add: signedUp_def emptyAccounts_def)

lemma example_owner [simp]:
  assumes "accountById ''O'' db = Some ownerRow"
  shows "signedInUser exampleAuth now False (exampleCookie ''o'') db =
    Some \<lparr>auId = ''O'', auEmail = ''a@b'', auName = Some ''a'', auOrg = ''G'', auRole = ''owner''\<rparr>"
proof -
  have "verifyFirstValidToken exampleAuth now [''o''] = Some [(''sub'', JStr ''O''), (''iat'', JNum 1)]"
    by (simp add: verifyToken_def exampleAuth_def)
  then show ?thesis
    using assms by (simp add: signedInUser_def resolveUser_def truthy_def revokedToken_def)
qed

lemma owner_here [simp]: "accounts db = ownerRow # as \<Longrightarrow> accountById ''O'' db = Some ownerRow"
  by (simp add: accountById_def)

lemmas example_simps = request_simps table_simps Let_def exampleClock_def

lemma run_sendInvite: "snd (handle exampleSendInvite signedUp) = invited"
proof -
  have "can ''owner'' ''team.invite''" by code_simp
  then show ?thesis
    by (simp add: sendInviteRoute_def handle_requireAuth(1) [OF example_owner] withCapability_def readEmail_def example_simps createInvite_def
        existingMember_def existingPending_def insertInvite_def ASSIGNABLE_ROLES_def exampleInvite_def invited_def INVITE_TTL_DAYS_def
        newInvite_def inviteKey_def orThrow_def)
      (simp add: exampleAuth_def)
qed

lemma run_claim: "snd (handle exampleInviteClaim invited) = joined"
  by (simp add: claimInviteRoute_def claimInvite_def withInvite_def example_simps inviteByToken_def invited_def orgById_def accountById_def
      resolveInviteByToken_def consumeInvite_def pendingInvite_def accountByEmail_def insertAccount_def joined_def memberRow_def newAccount_def)

section \<open>A portal link\<close>

definition linkRow :: portalRow where
  "linkRow =
     \<lparr>ptId = ''L'', ptOrg = ''G'', ptUser = ''M'', ptEmail = ''n@b'', ptSubjectType = ''ticket'', ptSubjectId = ''7'',
      ptTokenHash = ''AAAA'', ptExpiresAt = None, ptRevokedAt = None, ptLastSentAt = None, ptLastUsedAt = None,
      ptCreatedBy = Some ''O'', ptCreatedAt = 5000\<rparr>"

definition linked :: accountDb where
  "linked = joined\<lparr>portalTokens := [linkRow]\<rparr>"

definition unlinked :: accountDb where
  "unlinked = joined\<lparr>portalTokens := [linkRow\<lparr>ptRevokedAt := Some 5000\<rparr>]\<rparr>"

abbreviation exampleIssue :: "(accountDb, appError + issuedAccess) request" where
  "exampleIssue \<equiv> issueRoute exampleAuth exampleClock False (exampleCookie ''o'')
     \<lparr>pdUserId = ''P'', pdRowId = ''L'', pdBytes = [0, 0, 0], pdMailFails = False\<rparr> ''n@b'' ''ticket'' ''7'' None (Some False)"

abbreviation exampleRevoke :: "(accountDb, appError + unit) request" where
  "exampleRevoke \<equiv> revokeLinkRoute exampleAuth exampleClock False (exampleCookie ''o'') ''L''"

lemma joined_simps [simp]:
  "accounts joined = [ownerRow, memberRow]" "organizations joined = [exampleOrgRow]" "portalTokens joined = []"
  "invites joined = [exampleInvite\<lparr>ivAcceptedAt := Some 5000\<rparr>]" "verificationRows joined = []" "otps joined = []"
  by (simp_all add: joined_def)

lemma example_subject [simp]: "trim ''ticket'' = ''ticket''" "trim ''7'' = ''7''" "generatePortalToken [0, 0, 0] = ''AAAA''"
  by code_simp+

lemma inviter [simp]: "can ''owner'' ''team.invite''"
  by code_simp

lemma run_issue: "snd (handle exampleIssue joined) = linked"
  by (simp add: issueRoute_def handle_requireAuth(1) [OF example_owner] withCapability_def readEmail_def example_simps issueInvalid_def
      issuePortalAccess_def findOrCreatePortalUser_def accountByEmail_def retireLinks_def insertLink_def linkExpiry_def linked_def linkRow_def)
    (simp add: exampleAuth_def)

lemma run_revoke: "snd (handle exampleRevoke linked) = unlinked"
  by (simp add: revokeLinkRoute_def handle_requireAuth(1) [OF example_owner] withCapability_def example_simps revokePortalAccess_def
      setLink_def linked_def linkRow_def unlinked_def)

section \<open>A verification session\<close>

definition exampleConfig :: "verificationConfig option" where
  "exampleConfig = Some \<lparr>vnSecret = ''s'', vnProjectId = ''p''\<rparr>"

definition exampleJwt :: "string \<Rightarrow> string \<Rightarrow> jwtResult" where
  "exampleJwt secret token = JwtClaims [(''iat'', JNum 1), (''exp'', JNum 2), (''sub'', JStr ''p''), (''ro'', JBool True),
     (''role'', JStr ''editor''), (''jti'', JStr ''0123456789abcdef''), (''ticket'', JStr ''t''), (''run'', JStr ''r'')]"

definition exampleClaims :: verificationClaims where
  "exampleClaims = \<lparr>vcProjectId = ''p'', vcRole = ''editor'', vcJti = ''0123456789abcdef'', vcTicketId = ''t'', vcRunId = ''r'', vcTtlSeconds = 900\<rparr>"

lemma example_verification_claims: "verifyVerificationToken (exampleJwt secret) ''p'' ''a.b.c'' = Inr exampleClaims"
proof -
  have "\<not> (''a.b.c'' = [] \<or> length ''a.b.c'' > 4096 \<or> length (splitOn (CHR ''.'') ''a.b.c'') \<noteq> 3)" by code_simp
  moreover have "roleOk ''editor''" by code_simp
  moreover have "jtiOk ''0123456789abcdef''" by code_simp
  moreover have "labelOk ''t''" by code_simp
  moreover have "labelOk ''r''" by code_simp
  ultimately show ?thesis
    by (simp add: verifyVerificationToken_def exampleJwt_def shortLived_def MAX_TOKEN_AGE_SECONDS_def claimText_def exampleClaims_def
        clampSessionTtlSeconds_def MAX_SESSION_TTL_SECONDS_def MIN_SESSION_TTL_SECONDS_def DEFAULT_SESSION_TTL_SECONDS_def)
qed

lemma example_bearer: "bearerToken (Some ''Bearer a.b.c'') = Some ''a.b.c''"
  by code_simp

definition verifierRow :: accountRow where
  "verifierRow = newAccount ''V'' 5000 (verificationAccountEmail ''editor'') (Some (verificationName ''editor'')) ''editor'' ''VG''"

definition verified :: accountDb where
  "verified = emptyAccounts\<lparr>accounts := [verifierRow],
     organizations := [newOrg ''VG'' 5000 ''Alchemist verification'' VERIFICATION_ORG_SLUG],
     verificationRows := [markIssued ''V'' 905000
       \<lparr>vfId = ''R'', vfJti = ''0123456789abcdef'', vfTicketId = ''t'', vfRunId = ''r'', vfRole = ''editor'', vfStatus = VsClaimed,
        vfUser = None, vfExpiresAt = None\<rparr>]\<rparr>"

abbreviation exampleVerification :: "(accountDb, appError + verificationIssued) request" where
  "exampleVerification \<equiv> verificationSessionRoute exampleJwt exampleConfig exampleClock ''R'' ''VG'' ''V'' (Some ''Bearer a.b.c'')"

lemma run_session:
  "handle exampleVerification emptyAccounts =
     (Inr \<lparr>viToken = createVerificationSessionToken 5000 900 ''0123456789abcdef'' (verificationUser ''editor'' ''VG'' ''V''),
           viExpiresAt = 905000, viUser = verificationUser ''editor'' ''VG'' ''V''\<rparr>, verified)"
  by (simp add: verificationSessionRoute_def exampleConfig_def example_bearer example_verification_claims exampleClaims_def isVerificationRole_def
      VERIFICATION_ROLES_def example_simps claimJti_def insertOnConflictDoNothing_def emptyAccounts_def provisionVerificationAccount_def
      findOrCreateVerificationOrg_def orgBySlug_def tryInsert_def insertOrg_def newOrg_def storedVerificationRole_def accountByEmail_def
      insertAccount_def newAccount_def verificationUser_def setVerification_def markIssued_def verified_def verifierRow_def)

section \<open>The server in these states\<close>

lemma find_by_key:
  "distinct (map key xs) \<Longrightarrow> x \<in> set xs \<Longrightarrow> List.find (\<lambda>y. key y = key x) xs = Some x"
  by (induction xs) auto

definition served :: "((accountDb, unit) request \<Rightarrow> bool) \<Rightarrow> accountDb \<Rightarrow> bool" where
  "served accepts db \<longleftrightarrow> (\<exists>s. reachable (serverInit emptyAccounts) (serverStep accepts) s \<and> svDb s = db)"

lemma served_empty: "served accepts emptyAccounts"
proof -
  have "reachable (serverInit emptyAccounts) (serverStep accepts) \<lparr>svDb = emptyAccounts, svPool = []\<rparr>"
    by (rule reach_init) (simp add: serverInit_def)
  then show ?thesis unfolding served_def by (intro exI conjI, assumption) simp
qed

lemma served_run:
  assumes "served accepts db" and "accepts (noReply p)"
  shows "\<exists>s t. reachable (serverInit emptyAccounts) (serverStep accepts) s \<and> svDb s = db \<and> (serverStep accepts)\<^sup>*\<^sup>* s t \<and>
    reachable (serverInit emptyAccounts) (serverStep accepts) t \<and> svDb t = snd (handle p db)"
proof -
  from assms(1) obtain s where s: "reachable (serverInit emptyAccounts) (serverStep accepts) s" "svDb s = db" by (auto simp: served_def)
  let ?t = "\<lparr>svDb = snd (handle (noReply p) (svDb s)), svPool = svPool s @ [Answer (fst (handle (noReply p) (svDb s)))]\<rparr>"
  have run: "(serverStep accepts)\<^sup>*\<^sup>* s ?t" by (rule run_alone [where accepts = accepts and p = "noReply p", OF assms(2)])
  have "svDb ?t = snd (handle p db)" using s(2) by (simp add: noReply_def request_simps)
  with s run reachable_rtranclp [OF run s(1)] show ?thesis by blast
qed

lemma served_step: "served accepts db \<Longrightarrow> accepts (noReply p) \<Longrightarrow> snd (handle p db) = db' \<Longrightarrow> served accepts db'"
  using served_run [of accepts db p] unfolding served_def by metis

lemma example_requests:
  "quietRequest (noReply exampleSendCode)" "quietRequest (noReply (exampleVerify guess))" "quietRequest (noReply exampleSendInvite)"
  "quietRequest (noReply exampleIssue)" "quietRequest (noReply exampleRevoke)"
  by (rule quietRequest.intros)+

lemma served_signedUp:
  assumes "\<And>p. quietRequest p \<Longrightarrow> accepts p"
  shows "served accepts signedUp"
proof -
  have "served accepts codeSent" by (rule served_step [OF served_empty]) (use assms example_requests run_send in auto)
  then show ?thesis by (rule served_step) (use assms example_requests run_verify in auto)
qed

lemma served_joined:
  assumes "\<And>p. quietRequest p \<Longrightarrow> accepts p" and "accepts (noReply exampleInviteClaim)"
  shows "served accepts joined"
proof -
  have "served accepts invited" by (rule served_step [OF served_signedUp]) (use assms example_requests run_sendInvite in auto)
  then show ?thesis by (rule served_step) (use assms run_claim in auto)
qed

lemma served_unlinked:
  assumes "\<And>p. quietRequest p \<Longrightarrow> accepts p" and "accepts (noReply exampleInviteClaim)"
  shows "served accepts unlinked"
proof -
  have "served accepts linked" by (rule served_step [OF served_joined]) (use assms example_requests run_issue in auto)
  then show ?thesis by (rule served_step) (use assms example_requests run_revoke in auto)
qed

lemma account_examples:
  "quietRequest p \<Longrightarrow> accountRequest c p" "accountRequest c (noReply exampleInviteClaim)" "accountRequest c (noReply exampleVerification)"
  "quietRequest p \<Longrightarrow> orderlyRequest p" "orderlyRequest (noReply exampleInviteClaim)"
  by (auto simp: accountRequest_def intro: standingRequest.intros orderlyRequest.intros)

lemma account_served:
  "served (accountRequest c) signedUp" "served (accountRequest c) joined" "served (accountRequest c) unlinked"
  "served orderlyRequest joined"
proof -
  show "served (accountRequest c) signedUp" by (rule served_signedUp) (erule account_examples)
  show "served (accountRequest c) joined" by (rule served_joined) (erule account_examples, rule account_examples)
  show "served (accountRequest c) unlinked" by (rule served_unlinked) (erule account_examples, rule account_examples)
  show "served orderlyRequest joined" by (rule served_joined) (erule account_examples, rule account_examples)
qed

end
