(* ===== verification/AccountProofs.thy ===== *)
theory AccountProofs
  imports AccountExamples
begin

text \<open>
  What holds of the account server whatever its requests do between each other's statements: the state of the tables,
  the tries on a code, what is used up stays used up, who owns an organization; with a witness for each.
\<close>

section \<open>The tables\<close>

lemma reached_inv:
  "reachable (serverInit emptyAccounts) (serverStep (accountRequest c)) s \<Longrightarrow> accountInv c (svDb s)"
  using accountServer.server_reachable [of c s] by (simp add: pooled_def)

lemma reached_grew:
  "reachable (serverInit emptyAccounts) (serverStep (accountRequest c)) s \<Longrightarrow> (serverStep (accountRequest c))\<^sup>*\<^sup>* s t \<Longrightarrow>
   accountGrew (svDb s) (svDb t)"
  using accountServer.server_run [of c s t] by simp

text \<open>
  C5. However the account requests interleave, statement by statement, no two accounts share an id or an
  address, no two organizations a slug, every account has a known role and an organization that exists, an address
  has at most one waiting invitation to an organization, invitations never carry the role of an owner, each
  invitation lets at most one request in, each sign-in code opens at most one session, and each verification
  token is claimed once.
\<close>

theorem account_system_invariant:
  assumes "reachable (serverInit emptyAccounts) (serverStep (accountRequest False)) s"
  shows "distinct (map acId (accounts (svDb s))) \<and> distinct (map acEmail (accounts (svDb s))) \<and>
    distinct (map onSlug (filter (\<lambda>g. onSlug g \<noteq> None) (organizations (svDb s)))) \<and>
    (\<forall>a\<in>set (accounts (svDb s)). acRole a \<in> set ROLES \<and>
       (\<forall>org. acOrg a = Some org \<longrightarrow> org \<in> onId ` set (organizations (svDb s)))) \<and>
    distinct (map inviteKey (filter pendingInvite (invites (svDb s)))) \<and>
    (\<forall>v\<in>set (invites (svDb s)). ivRole v \<in> set ASSIGNABLE_ROLES) \<and>
    (\<forall>i. joinsOf i (trail (svDb s)) \<le> 1 \<and> openingsOf i (trail (svDb s)) \<le> 1) \<and>
    distinct (map ptTokenHash (portalTokens (svDb s))) \<and> distinct (map vfJti (verificationRows (svDb s)))"
proof -
  have inv: "peopleOk (svDb s)" "invitesOk (svDb s)" "portalOk (svDb s)" "otpsOk False (svDb s)"
    "distinct (map vfJti (verificationRows (svDb s)))"
    using reached_inv [OF assms] by (simp_all add: accountInv_def)
  have "joinsOf i (trail (svDb s)) \<le> 1" for i
    using inv(2) unfolding invitesOk_def by (cases "i \<in> ivId ` set (invites (svDb s))") auto
  with inv show ?thesis unfolding peopleOk_def invitesOk_def portalOk_def otpsOk_def by blast
qed

theorem account_system_invariant_witness:
  "\<exists>s. reachable (serverInit emptyAccounts) (serverStep (accountRequest False)) s \<and> svDb s = joined \<and>
    joinsOf ''I'' (trail (svDb s)) = 1 \<and> distinct (map acEmail (accounts (svDb s)))"
proof -
  obtain s where s: "reachable (serverInit emptyAccounts) (serverStep (accountRequest False)) s" "svDb s = joined"
    using account_served(2) [of False] by (auto simp: served_def)
  show ?thesis
    using account_system_invariant [OF s(1)] s by (intro exI [of _ s]) (simp add: joinsOf_def joined_def)
qed

text \<open>
  C6. Guessing a sign-in code: whatever requests run, in any interleaving, at most five guesses are ever taken on a
  code from the moment it is minted, and at most one of them opens a session. The one request left out is the
  confirmation of an e-mail change, whose count of the guesses is not atomic.
\<close>

theorem sign_in_codes_are_bounded:
  assumes "reachable (serverInit emptyAccounts) (serverStep (accountRequest True)) s"
  shows "triesOf i (trail (svDb s)) \<le> 5 \<and> openingsOf i (trail (svDb s)) \<le> 1"
proof -
  have "otpsOk True (svDb s)" using reached_inv [OF assms] by (simp add: accountInv_def)
  then have "int (triesOf i (trail (svDb s))) \<le> OTP_MAX_ATTEMPTS \<and> openingsOf i (trail (svDb s)) \<le> 1"
    by (simp add: otpsOk_def)
  then show ?thesis by (simp add: OTP_MAX_ATTEMPTS_def)
qed

theorem sign_in_codes_are_bounded_witness:
  "\<exists>s. reachable (serverInit emptyAccounts) (serverStep (accountRequest True)) s \<and>
    triesOf ''c'' (trail (svDb s)) = 1 \<and> openingsOf ''c'' (trail (svDb s)) = 1 \<and> triesOf ''d'' (trail (svDb s)) \<le> 5"
proof -
  obtain s where s: "reachable (serverInit emptyAccounts) (serverStep (accountRequest True)) s" "svDb s = signedUp"
    using account_served(1) [of True] by (auto simp: served_def)
  show ?thesis
    using sign_in_codes_are_bounded [OF s(1), of "''d''"] s
    by (intro exI [of _ s]) (simp add: triesOf_def openingsOf_def sinceMinted_def)
qed

section \<open>What is used up stays used up\<close>

text \<open>
  C10. An invitation that was accepted or revoked is dead: in every later state of the server, both of its routes
  answer an error and change nothing, whoever calls them.
\<close>

theorem used_invitation_stays_used:
  assumes "reachable (serverInit emptyAccounts) (serverStep (accountRequest False)) s"
    and "v \<in> set (invites (svDb s))" and "\<not> pendingInvite v"
    and "(serverStep (accountRequest False))\<^sup>*\<^sup>* s t"
  shows "(\<exists>e. handle (claimInviteRoute env clock newId (ivToken v)) (svDb t) = (Inl e, svDb t)) \<and>
    (\<exists>e. handle (acceptInviteRoute env clock down cookie (ivToken v)) (svDb t) = (Inl e, svDb t))"
proof -
  from reached_grew [OF assms(1,4)] assms(2) obtain w where w: "w \<in> set (invites (svDb t))" "inviteKept v w"
    by (auto simp: accountGrew_def)
  have "distinct (map ivToken (invites (svDb t)))"
    using reached_inv [OF reachable_rtranclp [OF assms(4,1)]] by (simp add: accountInv_def invitesOk_def)
  from find_by_key [OF this w(1)] have found: "List.find (\<lambda>y. ivToken y = ivToken v) (invites (svDb t)) = Some w"
    using w(2) by (simp add: inviteKept_def)
  have "ivAcceptedAt w \<noteq> None \<or> ivRevokedAt w \<noteq> None"
    using w(2) assms(3) by (auto simp: inviteKept_def pendingInvite_def)
  then have dead: "\<exists>e. resolveInviteByToken now (inviteByToken (ivToken v) (svDb t)) = Inl e" for now
    by (auto simp: inviteByToken_def found resolveInviteByToken_def guard_def split: option.split)
  obtain e where "handle (claimInvite clock newId (ivToken v)) (svDb t) = (Inl e, svDb t)"
    using dead [of "clock 0"] by (auto simp: claimInvite_def withInvite_def request_simps)
  moreover have "\<exists>e. handle (acceptInviteRoute env clock down cookie (ivToken v)) (svDb t) = (Inl e, svDb t)"
  proof (cases "signedInUser env (clock 0) down cookie (svDb t)")
    case None
    from handle_requireAuth(2) [OF None] show ?thesis unfolding acceptInviteRoute_def by blast
  next
    case (Some u)
    then show ?thesis
      using dead [of "clock 1"]
      by (auto simp: acceptInviteRoute_def handle_requireAuth(1) [OF Some] request_simps acceptInvite_def withInvite_def)
  qed
  ultimately show ?thesis by (simp add: claimInviteRoute_def request_simps)
qed

theorem used_invitation_stays_used_witness:
  "\<exists>t :: (accountDb, unit) server. svDb t = linked \<and> (\<exists>e. handle exampleInviteClaim (svDb t) = (Inl e, svDb t))"
proof -
  from served_run [OF account_served(2) [of False] account_examples(1) [OF example_requests(4)]]
  obtain s t where s: "reachable (serverInit emptyAccounts) (serverStep (accountRequest False)) s" "svDb s = joined"
    and t: "(serverStep (accountRequest False))\<^sup>*\<^sup>* s t" "svDb t = linked" by (auto simp: run_issue)
  have "exampleInvite\<lparr>ivAcceptedAt := Some 5000\<rparr> \<in> set (invites (svDb s))" "\<not> pendingInvite (exampleInvite\<lparr>ivAcceptedAt := Some 5000\<rparr>)"
    using s(2) by (simp_all add: pendingInvite_def)
  from used_invitation_stays_used [OF s(1) this t(1), of exampleAuth exampleClock "''M''"]
  have "\<exists>e. handle exampleInviteClaim (svDb t) = (Inl e, svDb t)" by simp
  with t(2) show ?thesis by (intro exI [of _ t] conjI)
qed

text \<open>
  C14. A revoked portal link is dead for good: in every later state of the server a claim of its token answers an
  error and changes nothing.
\<close>

theorem revoked_link_stays_dead:
  assumes "reachable (serverInit emptyAccounts) (serverStep (accountRequest False)) s"
    and "l \<in> set (portalTokens (svDb s))" and "ptRevokedAt l \<noteq> None"
    and "(serverStep (accountRequest False))\<^sup>*\<^sup>* s t" and "aeHash env (trim rawToken) = ptTokenHash l"
  shows "\<exists>e. handle (claimPortalRoute env clock rawToken) (svDb t) = (Inl e, svDb t)"
proof -
  from reached_grew [OF assms(1,4)] assms(2) obtain u where u: "u \<in> set (portalTokens (svDb t))" "portalKept l u"
    by (auto simp: accountGrew_def)
  have "distinct (map ptTokenHash (portalTokens (svDb t)))"
    using reached_inv [OF reachable_rtranclp [OF assms(4,1)]] by (simp add: accountInv_def portalOk_def)
  from find_by_key [OF this u(1)] have "List.find (\<lambda>y. ptTokenHash y = ptTokenHash l) (portalTokens (svDb t)) = Some u"
    using u(2) by (simp add: portalKept_def)
  moreover have "ptRevokedAt u \<noteq> None" using u(2) assms(3) by (simp add: portalKept_def)
  ultimately show ?thesis
    using assms(5) by (simp add: claimPortalRoute_def claimPortalAccess_def request_simps)
qed

theorem revoked_link_stays_dead_witness:
  "\<exists>t :: (accountDb, unit) server. svDb t = unlinked \<and> (\<exists>e. handle (claimPortalRoute exampleAuth exampleClock ''AAAA'') (svDb t) = (Inl e, svDb t))"
proof -
  obtain s where s: "reachable (serverInit emptyAccounts) (serverStep (accountRequest False)) s" "svDb s = unlinked"
    using account_served(3) [of False] by (auto simp: served_def)
  have l: "linkRow\<lparr>ptRevokedAt := Some 5000\<rparr> \<in> set (portalTokens (svDb s))" "ptRevokedAt (linkRow\<lparr>ptRevokedAt := Some 5000\<rparr>) \<noteq> None"
    using s(2) by (simp_all add: unlinked_def)
  have "trim ''AAAA'' = ''AAAA''" by code_simp
  then have "aeHash exampleAuth (trim ''AAAA'') = ptTokenHash (linkRow\<lparr>ptRevokedAt := Some 5000\<rparr>)"
    by (simp add: exampleAuth_def linkRow_def)
  from revoked_link_stays_dead [OF s(1) l rtranclp.rtrancl_refl this]
  have "\<exists>e. handle (claimPortalRoute exampleAuth exampleClock ''AAAA'') (svDb s) = (Inl e, svDb s)" .
  with s(2) show ?thesis by (intro exI [of _ s] conjI)
qed

text \<open>
  C19. A verification token buys one session: once the route has answered one, in every later state of the server
  the same request answers an error and changes nothing.
\<close>

theorem verification_token_works_once:
  assumes "handle (verificationSessionRoute jwtVerify config clock rowId orgId userId header) db = (Inr v, svDb s)"
    and "reachable (serverInit emptyAccounts) (serverStep (accountRequest False)) s"
    and "(serverStep (accountRequest False))\<^sup>*\<^sup>* s t"
  shows "\<exists>e. handle (verificationSessionRoute jwtVerify config clock' rowId' orgId' userId' header) (svDb t) = (Inl e, svDb t)"
proof -
  from assms(1) obtain cfg token c u db1 db2 where
    reading: "config = Some cfg" "bearerToken header = Some token"
      "verifyVerificationToken (jwtVerify (vnSecret cfg)) (vnProjectId cfg) token = Inr c"
    and run: "claimJti rowId c db = (db1, True)"
      "handle (provisionVerificationAccount (clock 0) orgId userId (vcRole c)) db1 = (Inr u, db2)"
      "svDb s = setVerification rowId (markIssued (suId u) (clock 1 + vcTtlSeconds c * 1000)) db2"
    by (rule verification_claims)
  have "vcJti c \<in> vfJti ` set (verificationRows db1)"
    using run(1) by (auto simp: claimJti_def insertOnConflictDoNothing_def split: if_splits)
  then have "vcJti c \<in> vfJti ` set (verificationRows db2)" using provision_rows [OF run(2)] by simp
  then have "vcJti c \<in> vfJti ` set (verificationRows (svDb s))"
    by (simp add: run(3) setVerification_jtis markIssued_def)
  then have "vcJti c \<in> vfJti ` set (verificationRows (svDb t))"
    using reached_grew [OF assms(2,3)] by (auto simp: accountGrew_def)
  then have "claimJti rowId' c (svDb t) = (svDb t, False)"
    by (auto simp: claimJti_def insertOnConflictDoNothing_def)
  then show ?thesis by (simp add: verificationSessionRoute_def reading request_simps)
qed

theorem verification_token_works_once_witness:
  "\<exists>s :: (accountDb, unit) server. svDb s = verified \<and> (\<exists>e. handle exampleVerification (svDb s) = (Inl e, svDb s))"
proof -
  from served_run [where accepts = "accountRequest False", OF served_empty account_examples(3)]
  obtain s where s: "reachable (serverInit emptyAccounts) (serverStep (accountRequest False)) s" "svDb s = verified"
    by (auto simp: run_session)
  from run_session s(2) have "\<exists>v. handle exampleVerification emptyAccounts = (Inr v, svDb s)" by simp
  then obtain v where "handle exampleVerification emptyAccounts = (Inr v, svDb s)" ..
  from verification_token_works_once [OF this s(1) rtranclp.rtrancl_refl]
  have "\<exists>e. handle exampleVerification (svDb s) = (Inl e, svDb s)" .
  with s(2) show ?thesis by (intro exI [of _ s] conjI)
qed

section \<open>Owners\<close>

text \<open>
  C9. An organization has at most one owner, whatever sign-ups, invitations, role changes, removals and
  verification sessions do between each other's statements, as long as each transfer of ownership runs in one go.
\<close>

theorem organizations_have_one_owner:
  assumes "reachable (serverInit emptyAccounts) (serverStep orderlyRequest) s"
  shows "length (filter (\<lambda>a. acOrg a = Some org \<and> acRole a = ''owner'') (accounts (svDb s))) \<le> 1"
proof -
  have "oneOwner (accounts (svDb s))"
    using orderlyServer.server_reachable [OF assms] by (simp add: pooled_def accountState_def)
  then show ?thesis by (simp add: oneOwner_def ownersOf_def)
qed

theorem organizations_have_one_owner_witness:
  "\<exists>s :: (accountDb, unit) server. svDb s = joined \<and> ownersOf ''G'' (accounts (svDb s)) \<noteq> [] \<and> length (ownersOf ''G'' (accounts (svDb s))) \<le> 1"
proof -
  obtain s where s: "reachable (serverInit emptyAccounts) (serverStep orderlyRequest) s" "svDb s = joined"
    using account_served(4) by (auto simp: served_def)
  show ?thesis
    using organizations_have_one_owner [OF s(1), of "''G''"] s(2)
    unfolding ownersOf_def by (intro exI [of _ s] conjI) simp_all
qed

text \<open>
  C17. No organization that has an owner loses it to a request that runs alone: not to a change of a role, a
  removal, a departure or a transfer, nor to any request that leaves everybody's role as it is. The requests left
  out are the ones that move the caller into another organization.
\<close>

theorem organizations_keep_their_owner:
  assumes "reachable (serverInit emptyAccounts) (serverStep (accountRequest False)) s" and "stewardRequest p"
    and "a \<in> set (accounts (svDb s))" and "acOrg a = Some org" and "acRole a = ''owner''"
  shows "\<exists>b\<in>set (accounts (snd (handle p (svDb s)))). acOrg b = Some org \<and> acRole b = ''owner''"
proof -
  have "ownersOf org (accounts (svDb s)) \<noteq> []" using assms(3-5) by (auto simp: ownersOf_def filter_empty_conv)
  then have "ownersOf org (accounts (snd (handle p (svDb s)))) \<noteq> []"
    using steward_handle [OF assms(2) reached_inv [OF assms(1)]] by (simp add: stillOwned_def)
  then show ?thesis by (auto simp: ownersOf_def filter_empty_conv)
qed

theorem organizations_keep_their_owner_witness:
  "\<exists>b\<in>set (accounts (snd (handle (noReply (transferRoute exampleAuth 0 False (exampleCookie ''o'') ''M'')) joined))).
     acOrg b = Some ''G'' \<and> acRole b = ''owner''"
proof -
  obtain s where s: "reachable (serverInit emptyAccounts) (serverStep (accountRequest False)) s" "svDb s = joined"
    using account_served(2) [of False] by (auto simp: served_def)
  have "ownerRow \<in> set (accounts (svDb s))" using s(2) by simp
  from organizations_keep_their_owner [OF s(1) stewardRequest.intros(5) this] s(2) show ?thesis by simp
qed

text \<open>
  An owner who accepts an invitation elsewhere leaves the organization behind without an owner: the route checks
  the address, not the caller's role.
\<close>

theorem accepting_owner_abandons:
  "\<exists>db. accountInv True db \<and> ownersOf ''G'' (accounts db) \<noteq> [] \<and>
     ownersOf ''G'' (accounts (snd (handle (acceptInviteRoute exampleAuth exampleClock False (exampleCookie ''o'') ''AAAA'') db))) = []"
proof (intro exI conjI)
  let ?db = "signedUp\<lparr>organizations := [exampleOrgRow, newOrg ''H'' 0 ''h'' ''h''],
    invites := [exampleInvite\<lparr>ivOrg := ''H'', ivEmail := ''a@b''\<rparr>], trail := []\<rparr>"
  have "toLowerCase ''a@b'' = ''a@b''" by code_simp
  then show "ownersOf ''G'' (accounts (snd (handle (acceptInviteRoute exampleAuth exampleClock False (exampleCookie ''o'') ''AAAA'') ?db))) = []"
    by (simp add: acceptInviteRoute_def handle_requireAuth(1) [OF example_owner] acceptInvite_def withInvite_def example_simps
        inviteByToken_def orgById_def accountById_def newOrg_def resolveInviteByToken_def guard_def consumeInvite_def pendingInvite_def
        joinOrg_def setAccount_def ownersOf_def)
  show "ownersOf ''G'' (accounts ?db) \<noteq> []" by (simp add: ownersOf_def)
  show "accountInv True ?db"
    by (simp add: accountInv_def peopleOk_def invitesOk_def portalOk_def otpsOk_def joinsOf_def triesOf_def openingsOf_def sinceMinted_def
        ROLES_def ASSIGNABLE_ROLES_def pendingInvite_def inviteKey_def newOrg_def OTP_MAX_ATTEMPTS_def)
qed

end
