(* ===== verification/AccessProofs.thy ===== *)
theory AccessProofs
  imports AccountExamples
begin

text \<open>
  What single requests do: who a session speaks for and when it ends, what a code, an invitation, a role and a
  verification session let somebody do, and two dead ends of the code; with a witness for each.
\<close>

section \<open>Codes\<close>

text \<open>
  C18. Nobody signs in by code without the code: a request that answers a session found, among the codes of the
  address, an unexpired one with tries left that is the six digits given; the account it opens has that address, and
  afterwards no code of the address is left.
\<close>

theorem session_needs_the_code:
  assumes "handle (verifyOtp env clock orgId userId rawEmail rawCode rawName) db = (Inr s, db')"
  shows "(\<exists>r\<in>set (otps db). otEmail r = toLowerCase (trim rawEmail) \<and> otCode r = filter isDigit rawCode \<and>
      clock 0 < otExpiresAt r \<and> otAttempts r < OTP_MAX_ATTEMPTS) \<and>
    acEmail (snAccount s) = toLowerCase (trim rawEmail) \<and> (\<forall>r\<in>set (otps db'). otEmail r \<noteq> toLowerCase (trim rawEmail))"
proof -
  let ?email = "toLowerCase (trim rawEmail)" and ?claimed = "map oneTry (filter (unspent (toLowerCase (trim rawEmail)) (clock 0)) (otps db))"
  obtain r where r: "List.find (\<lambda>r. otCode r = filter isDigit rawCode) ?claimed = Some r"
    and run: "handle (signInAccount env clock orgId userId ?email (map_option trim rawName))
      (deleteOtps ?email (fst (consumeOtp (otId r) (fst (claimTries ?email (clock 0) db))))) = (Inr s, db')"
    using assms
    by (auto simp: verifyOtp_def readEmail_def readCode_def Let_def request_simps claimTries_def split: if_splits option.splits)
  from find_Some_in [OF r] obtain q where "q \<in> set (otps db)" "unspent ?email (clock 0) q" "otCode q = filter isDigit rawCode"
    by (auto simp: oneTry_def)
  moreover have "acEmail (snAccount s) = ?email \<and> otps db' = otps (deleteOtps ?email (fst (consumeOtp (otId r) (fst (claimTries ?email (clock 0) db)))))"
    using run by (auto simp: signInAccount_def request_simps Let_def signUp_def insertOrg_def insertAccount_def ebind_def newAccount_def
        markLogin_def setAccount_def accountByEmail_def split: option.splits sum.splits if_splits prod.splits dest: find_Some_in)
  ultimately show ?thesis by (auto simp: unspent_def deleteOtps_def deleteWhere_def)
qed

theorem session_needs_the_code_witness:
  "\<exists>s. handle (exampleVerify ''000007'') codeSent = (Inr s, signedUp) \<and> acEmail (snAccount s) = ''a@b''"
proof -
  obtain r where r: "handle (exampleVerify ''000007'') codeSent = (r, signedUp)" using run_verify by (metis prod.collapse)
  moreover have "\<not> isl r" using r run_verify_answers by simp
  ultimately obtain s where "handle (exampleVerify ''000007'') codeSent = (Inr s, signedUp)" by (cases r) auto
  with session_needs_the_code [OF this] show ?thesis by auto
qed

text \<open>
  A sign-up whose display name gives a slug that another organization has fails with the error of the unique
  constraint, and the code is gone: no account was made, and a second try needs a new code.
\<close>

theorem taken_slug_blocks_sign_up:
  assumes "aeIsEmail env rawEmail" and "\<not> isVerificationAccountEmail (toLowerCase (trim rawEmail))"
    and "length (filter isDigit rawCode) = 6" and "trim name \<noteq> []"
    and "r \<in> set (otps db)" and "unspent (toLowerCase (trim rawEmail)) (clock 0) r" and "otCode r = filter isDigit rawCode"
    and "toLowerCase (trim rawEmail) \<notin> acEmail ` set (accounts db)"
    and "Some (slugify (trim name)) \<in> onSlug ` set (organizations db)"
  shows "\<exists>db'. handle (verifyOtp env clock orgId userId rawEmail rawCode (Some name)) db = (Inl uniqueViolation, db') \<and>
    accounts db' = accounts db \<and> (\<forall>q\<in>set (otps db'). otEmail q \<noteq> toLowerCase (trim rawEmail))"
proof -
  let ?email = "toLowerCase (trim rawEmail)"
  let ?claimed = "map oneTry (filter (unspent ?email (clock 0)) (otps db))" and ?db1 = "fst (claimTries ?email (clock 0) db)"
  have there: "oneTry r \<in> set ?claimed" "otCode (oneTry r) = filter isDigit rawCode" using assms(5-7) by (simp_all add: oneTry_def)
  then have "List.find (\<lambda>r. otCode r = filter isDigit rawCode) ?claimed \<noteq> None" unfolding find_None_iff by blast
  then obtain q where q: "List.find (\<lambda>r. otCode r = filter isDigit rawCode) ?claimed = Some q" by blast
  from find_Some_in [OF q] have "otId q \<in> otId ` set (otps db)" by (auto simp: oneTry_def)
  moreover have "map otId (otps ?db1) = map otId (otps db)" by (simp add: claimTries_def map_updateWhere oneTry_def)
  ultimately have "otId q \<in> otId ` set (otps ?db1)" by (metis list.set_map)
  then have won: "consumeOtp (otId q) ?db1 =
      (?db1\<lparr>otps := deleteWhere (\<lambda>r. otId r = otId q) (otps ?db1), trail := Opened (otId q) # trail ?db1\<rparr>, True)"
    by (simp add: consumeOtp_def)
  let ?db2 = "deleteOtps ?email (fst (consumeOtp (otId q) ?db1))"
  have people: "accounts ?db2 = accounts db" "organizations ?db2 = organizations db"
    by (simp_all add: consumeOtp_def deleteOtps_def claimTries_def)
  have "accountByEmail ?email ?db2 = None"
    unfolding accountByEmail_def people find_None_iff using assms(8) by (metis image_eqI)
  moreover have "insertOrg (newOrg orgId (clock 2) (orgName (trim name)) (slugify (trim name))) ?db2 = Inl uniqueViolation"
    unfolding insertOrg_def people using assms(9) by (simp add: newOrg_def)
  ultimately have stop: "handle (signInAccount env clock orgId userId ?email (Some (trim name))) ?db2 = (Inl uniqueViolation, ?db2)"
    by (simp add: signInAccount_def request_simps Let_def signUp_def ebind_def)
  have "?claimed \<noteq> []" using q by auto
  then have "handle (verifyOtp env clock orgId userId rawEmail rawCode (Some name)) db = (Inl uniqueViolation, ?db2)"
    using assms(1-4) q won stop
    by (simp add: verifyOtp_def readEmail_def readCode_def Let_def request_simps claimTries_def)
  with people(1) show ?thesis by (auto simp: deleteOtps_def deleteWhere_def)
qed

theorem taken_slug_blocks_sign_up_witness:
  "\<exists>db'. handle (verifyOtp exampleAuth exampleClock ''H'' ''O'' ''a@b'' ''000007'' (Some ''a''))
     (codeSent\<lparr>organizations := [exampleOrgRow]\<rparr>) = (Inl uniqueViolation, db') \<and> otps db' = [] \<and> accounts db' = []"
proof -
  let ?db = "codeSent\<lparr>organizations := [exampleOrgRow]\<rparr>"
  have rows: "otps ?db = [codeRow]" "accounts ?db = []" "organizations ?db = [exampleOrgRow]" by (simp_all add: codeSent_def emptyAccounts_def)
  have name: "trim ''a'' = ''a''" by code_simp
  have row: "unspent ''a@b'' (exampleClock 0) codeRow" "otCode codeRow = ''000007''" "otEmail codeRow = ''a@b''"
    by (simp_all add: unspent_def codeRow_def newOtp_def exampleClock_def otpExpiresAt_def OTP_TTL_MINUTES_def OTP_MAX_ATTEMPTS_def)
  have "\<exists>db'. handle (verifyOtp exampleAuth exampleClock ''H'' ''O'' ''a@b'' ''000007'' (Some ''a'')) ?db = (Inl uniqueViolation, db') \<and>
      accounts db' = accounts ?db \<and> (\<forall>q\<in>set (otps db'). otEmail q \<noteq> toLowerCase (trim ''a@b''))"
    by (rule taken_slug_blocks_sign_up [where r = codeRow]) (simp_all only: rows row name example_texts, simp_all add: exampleAuth_def)
  moreover have "otps (snd (handle (verifyOtp exampleAuth exampleClock ''H'' ''O'' ''a@b'' ''000007'' (Some ''a'')) ?db)) = []"
    using run_taken by simp
  ultimately show ?thesis by (auto simp: rows)
qed

text \<open>
  Somebody who was removed from an organization, or left it, can sign in but not use the session: the sign-in
  answers a cookie, and every request that requires authentication with that cookie is refused, the one that would accept
  a new invitation included.
\<close>

theorem detached_member_is_locked_out:
  assumes "accountByEmail email db = Some a" and "acOrg a = None" and "distinct (map acId (accounts db))"
    and "getSessionTokenCandidates cookie = [token]"
    and "aeVerify env now token = Some (createSessionToken env (clock 3) (sessionOf a))"
  shows "\<exists>s db'. handle (signInAccount env clock orgId userId email name) db = (Inr s, db') \<and>
    snCookie s = createSessionToken env (clock 3) (sessionOf a) \<and>
    handle (requireAuth env now down cookie next) db' = (Inl (UnauthorizedError ''User not found''), db')"
proof -
  let ?db' = "markLogin (acId a) (clock 2) db"
  have "a \<in> set (accounts db)" using assms(1) by (auto simp: accountByEmail_def dest: find_Some_in)
  then have found: "List.find (\<lambda>b. acId b = acId a) (accounts db) = Some a"
    using assms(3) by (metis find_by_key)
  have "accountById (acId a) ?db' = Some (a\<lparr>acEmailVerified := True, acLastLoginAt := Some (clock 2)\<rparr>)"
    using found by (simp add: accountById_def markLogin_def setAccount_def find_updateWhere)
  then have "resolveUser down (createSessionToken env (clock 3) (sessionOf a)) ?db' = None"
    using assms(2) by (auto simp: resolveUser_def truthy_def split: option.splits json.splits)
      (auto simp: createSessionToken_def identityClaims_def sessionOf_def)
  moreover have "verifyFirstValidToken env now [token] = Some (createSessionToken env (clock 3) (sessionOf a))"
    using assms(5) by (simp add: verifyToken_def createSessionToken_def identityClaims_def lifetimeClaims_def)
  ultimately have "handle (requireAuth env now down cookie next) ?db' = (Inl (UnauthorizedError ''User not found''), ?db')"
    using assms(4) by (simp add: requireAuth_def request_simps)
  moreover have "\<exists>s. handle (signInAccount env clock orgId userId email name) db = (Inr s, ?db') \<and>
      snCookie s = createSessionToken env (clock 3) (sessionOf a)"
    using assms(1) by (simp add: signInAccount_def request_simps)
  ultimately show ?thesis by blast
qed

theorem detached_member_is_locked_out_witness:
  "\<exists>env s db'. handle (signInAccount env exampleClock ''G'' ''N'' ''n@b'' None)
       (signedUp\<lparr>accounts := [memberRow\<lparr>acOrg := None\<rparr>]\<rparr>) = (Inr s, db') \<and>
     handle (requireAuth env 0 False (exampleCookie ''m'') (\<lambda>u. Answer (Inr u))) db' = (Inl (UnauthorizedError ''User not found''), db')"
proof -
  let ?a = "memberRow\<lparr>acOrg := None\<rparr>" and ?db = "signedUp\<lparr>accounts := [memberRow\<lparr>acOrg := None\<rparr>]\<rparr>"
  let ?env = "exampleAuth\<lparr>aeVerify := \<lambda>_ _. Some (createSessionToken exampleAuth 5000 (sessionOf (memberRow\<lparr>acOrg := None\<rparr>)))\<rparr>"
  have "accountByEmail ''n@b'' ?db = Some ?a" "acOrg ?a = None" "distinct (map acId (accounts ?db))"
    "getSessionTokenCandidates (exampleCookie ''m'') = [''m'']"
    "aeVerify ?env 0 ''m'' = Some (createSessionToken ?env (exampleClock 3) (sessionOf ?a))"
    by (simp_all add: accountByEmail_def exampleClock_def createSessionToken_def getSessionDurationMs_def isHipaaEnabled_def)
  from detached_member_is_locked_out [where env = ?env and clock = exampleClock, OF this, of "''G''" "''N''" None False "\<lambda>u. Answer (Inr u)"]
  obtain s db' where "handle (signInAccount ?env exampleClock ''G'' ''N'' ''n@b'' None) ?db = (Inr s, db')"
    "handle (requireAuth ?env 0 False (exampleCookie ''m'') (\<lambda>u. Answer (Inr u))) db' = (Inl (UnauthorizedError ''User not found''), db')"
    by (elim exE conjE) (rule that)
  then show ?thesis by (intro exI [of _ ?env] exI [of _ s] exI [of _ db'] conjI)
qed

section \<open>Sessions\<close>

text \<open>
  C20. Signing out everywhere ends every session issued before that second: whatever cookie the browser sends, if the
  first token it holds that is still valid was issued to the account before, the request is refused.
\<close>

theorem logout_all_ends_sessions:
  assumes "handle (logoutAll env clock down cookie) db = (Inr (), db')" and "signedInUser env (clock 0) down cookie db = Some u"
    and "verifyFirstValidToken env now (getSessionTokenCandidates cookie') = Some p"
    and "map_of p ''sub'' = Some (JStr (auId u))" and "map_of p ''iat'' = Some (JNum issued)" and "issued < clock 1 div 1000"
  shows "handle (requireAuth env now down' cookie' next) db' = (Inl (UnauthorizedError ''User not found''), db')"
proof -
  have db': "db' = setAccount (\<lambda>a. acId a = auId u) (\<lambda>a. a\<lparr>acTokenInvalidatedBefore := Some (clock 1)\<rparr>) db"
    using assms(1) by (simp add: logoutAll_def handle_requireAuth(1) [OF assms(2)] request_simps)
  have "resolveUser down' p db' = None"
  proof (cases "accountById (auId u) db'")
    case None
    with assms(4) show ?thesis by (auto simp: resolveUser_def)
  next
    case (Some a)
    then have "acTokenInvalidatedBefore a = Some (clock 1)"
      unfolding db' by (auto simp: accountById_def setAccount_def updateWhere_def dest!: find_Some_in)
    with Some assms(4-6) show ?thesis by (auto simp: resolveUser_def revokedToken_def)
  qed
  moreover have "getSessionTokenCandidates cookie' \<noteq> []" using assms(3) by auto
  ultimately show ?thesis using assms(3) by (simp add: requireAuth_def request_simps)
qed

theorem logout_all_ends_sessions_witness:
  "\<exists>db'. handle (logoutAll exampleAuth exampleClock False (exampleCookie ''o'')) signedUp = (Inr (), db') \<and>
     handle (requireAuth exampleAuth 0 False (exampleCookie ''o'') (\<lambda>u. Answer (Inr u))) db' =
       (Inl (UnauthorizedError ''User not found''), db')"
proof -
  let ?u = "\<lparr>auId = ''O'', auEmail = ''a@b'', auName = Some ''a'', auOrg = ''G'', auRole = ''owner''\<rparr>"
  have u: "signedInUser exampleAuth (exampleClock 0) False (exampleCookie ''o'') signedUp = Some ?u" by simp
  obtain db' where out: "handle (logoutAll exampleAuth exampleClock False (exampleCookie ''o'')) signedUp = (Inr (), db')"
    by (simp add: logoutAll_def handle_requireAuth(1) [OF u] request_simps)
  have p: "verifyFirstValidToken exampleAuth 0 (getSessionTokenCandidates (exampleCookie ''o'')) = Some [(''sub'', JStr ''O''), (''iat'', JNum 1)]"
    by (simp add: verifyToken_def exampleAuth_def)
  have "handle (requireAuth exampleAuth 0 False (exampleCookie ''o'') (\<lambda>u. Answer (Inr u))) db' =
       (Inl (UnauthorizedError ''User not found''), db')"
    by (rule logout_all_ends_sessions [OF out u p, of 1]) (simp_all add: exampleClock_def)
  with out show ?thesis by blast
qed

text \<open>
  C39. A verification session cannot write: behind the guard, a request with an unsafe method that carries the
  token of a session the route has answered is refused before anything runs, on every route but the sign-out; and
  the session's role is never that of an owner.
\<close>

theorem verification_sessions_cannot_write:
  assumes "handle (verificationSessionRoute jwtVerify config clock rowId orgId userId header) db = (Inr v, db')"
    and "aeVerify env now token = Some (viToken v)" and "getSessionTokenCandidates cookie = [token]"
    and "\<not> readOnlyExempt httpMethod path"
  shows "handle (verificationReadOnlyGuard env now httpMethod path cookie next) later =
      (Inl (ForbiddenError ''Verification sessions are read-only''), later) \<and> suRole (viUser v) \<noteq> ''owner''"
proof -
  from assms(1) obtain c :: verificationClaims and u :: sessionUser and db1 db2 where v: "isVerificationRole (vcRole c)"
      "handle (provisionVerificationAccount (clock 0) orgId userId (vcRole c)) db1 = (Inr u, db2)"
      "v = \<lparr>viToken = createVerificationSessionToken (clock 2) (vcTtlSeconds c) (vcJti c) u,
             viExpiresAt = clock 1 + vcTtlSeconds c * 1000, viUser = u\<rparr>"
    by (rule verification_claims) blast
  have "verifyFirstValidToken env now [token] = Some (viToken v)"
    using assms(2) by (simp add: v(3) verifyToken_def createVerificationSessionToken_def identityClaims_def lifetimeClaims_def
        VERIFICATION_SESSION_CLAIM_def)
  moreover have "isVerificationSessionPayload (viToken v)"
    by (simp add: v(3) isVerificationSessionPayload_def createVerificationSessionToken_def identityClaims_def VERIFICATION_SESSION_CLAIM_def)
  moreover have "suRole u = storedVerificationRole (vcRole c)"
    using v(2) by (auto simp: provisionVerificationAccount_def findOrCreateVerificationOrg_def tryInsert_def orThrow_def request_simps
        Let_def verificationUser_def split: if_splits option.splits sum.splits prod.splits)
  moreover have "storedVerificationRole (vcRole c) \<noteq> ''owner''"
    using v(1) by (auto simp: isVerificationRole_def VERIFICATION_ROLES_def storedVerificationRole_def)
  ultimately show ?thesis
    using assms(3,4) by (simp add: verificationReadOnlyGuard_def request_simps v(3))
qed

theorem verification_sessions_cannot_write_witness:
  "\<exists>env :: authEnv. handle (verificationReadOnlyGuard env 0 ''POST'' ''/api/org'' (exampleCookie ''v'')
       (execute (\<lambda>db. db\<lparr>accounts := []\<rparr>) (Answer (Inr ())))) verified =
     (Inl (ForbiddenError ''Verification sessions are read-only''), verified)"
proof -
  obtain v where v: "handle exampleVerification emptyAccounts = (Inr v, verified)" using run_session by blast
  let ?env = "exampleAuth\<lparr>aeVerify := \<lambda>_ _. Some (viToken v)\<rparr>"
  have "aeVerify ?env 0 ''v'' = Some (viToken v)" by simp
  moreover have "\<not> readOnlyExempt ''POST'' ''/api/org''" by code_simp
  ultimately have "handle (verificationReadOnlyGuard ?env 0 ''POST'' ''/api/org'' (exampleCookie ''v'')
       (execute (\<lambda>db. db\<lparr>accounts := []\<rparr>) (Answer (Inr ())))) verified =
     (Inl (ForbiddenError ''Verification sessions are read-only''), verified)"
    using verification_sessions_cannot_write [OF v, of ?env 0 "''v''" "exampleCookie ''v''" "''POST''" "''/api/org''"
        "execute (\<lambda>db. db\<lparr>accounts := []\<rparr>) (Answer (Inr ()))" verified] by simp
  then show ?thesis by (rule exI [of _ ?env])
qed

section \<open>The team\<close>

lemma others_unchanged:
  "(\<And>b. acId (f b) = acId b) \<Longrightarrow> filter (\<lambda>b. acId b \<noteq> i) (updateWhere (\<lambda>b. acId b = i) f as) = filter (\<lambda>b. acId b \<noteq> i) as"
  for f :: "accountRow \<Rightarrow> accountRow"
  by (induction as) (auto simp: updateWhere_def)

text \<open>
  C13. A change of a role or a removal that changes anything was asked by somebody signed in, of the target's own
  organization, with a rank above the target's; only the target's account changed, no other table did, and the
  target is not an owner afterwards.
\<close>

theorem team_changes_need_authority:
  assumes "p = noReply (updateRoleRoute env now down cookie target role) \<or> p = noReply (removeMemberRoute env now down cookie target)"
    and "handle p db = (r, db')" and "db' \<noteq> db"
  shows "\<exists>u a. signedInUser env now down cookie db = Some u \<and> a \<in> set (accounts db) \<and> acId a = target \<and>
    acOrg a = Some (auOrg u) \<and> rankOf (acRole a) < rankOf (auRole u) \<and>
    filter (\<lambda>b. acId b \<noteq> target) (accounts db') = filter (\<lambda>b. acId b \<noteq> target) (accounts db) \<and>
    db'\<lparr>accounts := accounts db\<rparr> = db \<and>
    filter (\<lambda>b. acId b = target \<and> acRole b = ''owner'') (accounts db') = []"
proof -
  have "snd (handle p db) \<noteq> db" using assms(2,3) by simp
  from assms(1) this obtain u :: authUser and a f where u: "signedInUser env now down cookie db = Some u"
    and a: "a \<in> set (accounts db)" "acId a = target" "acOrg a = Some (auOrg u)" "canManage (auRole u) (acRole a)"
    and db': "snd (handle p db) = setAccount (\<lambda>b. acId b = target) f db"
    and f: "\<And>b. acRole (f b) \<in> set ASSIGNABLE_ROLES \<and> acId (f b) = acId b \<and> acOrg (f b) \<in> {acOrg b, None}"
    by (rule memberChange_effect) blast
  have "db' = setAccount (\<lambda>b. acId b = target) f db" using db' assms(2) by simp
  moreover from this have "filter (\<lambda>b. acId b \<noteq> target) (accounts db') = filter (\<lambda>b. acId b \<noteq> target) (accounts db)"
    using f by (simp add: setAccount_def others_unchanged)
  moreover have "acRole b \<noteq> ''owner''" if "b \<in> set (updateWhere (\<lambda>b. acId b = target) f (accounts db))" "acId b = target" for b
    using that f below_owner by (auto simp: set_updateWhere)
  ultimately show ?thesis
    using u a canManage_outranks [OF a(4)]
    by (intro exI [of _ u] exI [of _ a]) (auto simp: setAccount_def filter_empty_conv)
qed

theorem team_changes_need_authority_witness:
  "\<exists>u. signedInUser exampleAuth 0 False (exampleCookie ''o'') joined = Some u \<and> rankOf ''editor'' < rankOf (auRole u)"
proof -
  let ?p = "noReply (removeMemberRoute exampleAuth 0 False (exampleCookie ''o'') ''M'')"
  have "can ''owner'' ''team.remove''" "canManage ''owner'' ''editor''" by code_simp+
  then have "snd (handle ?p joined) = detach ''M'' joined"
    by (simp add: noReply_def removeMemberRoute_def handle_map handle_requireAuth(1) [OF example_owner] withCapability_def withTarget_def
        memberOf_def request_simps)
  moreover have "detach ''M'' joined \<noteq> joined"
  proof
    assume "detach ''M'' joined = joined"
    then have "accounts (detach ''M'' joined) = accounts joined" by simp
    then have "acRole (memberRow\<lparr>acOrg := None, acRole := ''viewer''\<rparr>) = acRole memberRow"
      by (simp add: detach_def setAccount_def table_simps)
    then show False by simp
  qed
  moreover obtain r db' where run: "handle ?p joined = (r, db')" by (rule prod.exhaust)
  ultimately have "db' \<noteq> joined" by simp
  from team_changes_need_authority [OF disjI2 [OF refl] run this]
  show ?thesis by auto
qed

text \<open>
  C40. Accepting an invitation does what it says and only for whom it was sent: the request that is answered found
  the invitation of the token waiting and in time, addressed to the caller's address; it marks that invitation
  accepted and gives the caller's account, and no other, the organization and the role of the invitation.
\<close>

theorem accepting_joins_the_organization:
  assumes "handle (acceptInviteRoute env clock down cookie token) db = (Inr (org, role), db')"
  shows "\<exists>u v. signedInUser env (clock 0) down cookie db = Some u \<and> v \<in> set (invites db) \<and> ivToken v = token \<and>
    pendingInvite v \<and> clock 1 \<le> ivExpiresAt v \<and> toLowerCase (ivEmail v) = toLowerCase (auEmail u) \<and>
    org = ivOrg v \<and> role = ivRole v \<and>
    accounts db' = updateWhere (\<lambda>a. acId a = auId u) (\<lambda>a. a\<lparr>acOrg := Some org, acRole := role\<rparr>) (accounts db) \<and>
    invites db' = updateWhere (\<lambda>w. ivId w = ivId v \<and> pendingInvite w) (\<lambda>w. w\<lparr>ivAcceptedAt := Some (clock 2)\<rparr>) (invites db)"
proof -
  from assms obtain u where u: "signedInUser env (clock 0) down cookie db = Some u"
    and run: "handle (check (auEmail u = []) (ForbiddenError ''Authenticated session is missing an email.'')
      (acceptInvite clock token (auId u) (auEmail u))) db = (Inr (org, role), db')"
    unfolding acceptInviteRoute_def by (rule behind_auth)
  from run obtain v g a where v: "inviteByToken token db = Some (v, g, a)"
    and waiting: "ivAcceptedAt v = None" "ivRevokedAt v = None" "\<not> ivExpiresAt v < clock 1"
    and rest: "toLowerCase (ivEmail v) = toLowerCase (auEmail u)" "org = ivOrg v" "role = ivRole v"
      "accounts db' = updateWhere (\<lambda>a. acId a = auId u) (\<lambda>a. a\<lparr>acOrg := Some (ivOrg v), acRole := ivRole v\<rparr>) (accounts db)"
      "invites db' = updateWhere (\<lambda>w. ivId w = ivId v \<and> pendingInvite w) (\<lambda>w. w\<lparr>ivAcceptedAt := Some (clock 2)\<rparr>) (invites db)"
    by (auto simp: request_simps acceptInvite_def withInvite_def resolveInviteByToken_def guard_def consumeInvite_def joinOrg_def setAccount_def
        split: if_splits option.splits sum.splits)
  have "v \<in> set (invites db) \<and> ivToken v = token"
    using v by (auto simp: inviteByToken_def split: option.splits dest: find_Some_in)
  with u waiting rest show ?thesis by (auto simp: pendingInvite_def)
qed

theorem accepting_joins_the_organization_witness:
  "\<exists>db db'. handle (acceptInviteRoute exampleAuth exampleClock False (exampleCookie ''o'') ''AAAA'') db = (Inr (''G'', ''editor''), db') \<and>
     acRole (hd (accounts db)) = ''owner'' \<and> acRole (hd (accounts db')) = ''editor''"
proof -
  let ?db = "signedUp\<lparr>invites := [exampleInvite\<lparr>ivEmail := ''a@b''\<rparr>]\<rparr>"
  have "toLowerCase ''a@b'' = ''a@b''" by code_simp
  then obtain db' where run:
    "handle (acceptInviteRoute exampleAuth exampleClock False (exampleCookie ''o'') ''AAAA'') ?db = (Inr (''G'', ''editor''), db')"
    by (simp add: acceptInviteRoute_def handle_requireAuth(1) [OF example_owner] acceptInvite_def withInvite_def example_simps
        inviteByToken_def orgById_def accountById_def resolveInviteByToken_def guard_def consumeInvite_def pendingInvite_def)
  from accepting_joins_the_organization [OF run] have "acRole (hd (accounts db')) = ''editor''"
    by (auto simp: table_simps)
  with run show ?thesis by (intro exI [of _ ?db] exI [of _ db']) simp
qed

end
