(* ===== verification/Spec2Isabelle.thy ===== *)
theory Spec2Isabelle
  imports EventPublishing EventConsumer EventInbox EventWebhooks JobRunner
    ImportNormalizeProofs ImportParseProofs ImportMappingProofs UploadedFilesProofs ContactsProofs
    AccountProofs AccessProofs
begin

text \<open>
  \<^bold>\<open>A verification development for the backend of the application template\<close>

  The repository is a multi-tenant application server in TypeScript (\<^verbatim>\<open>src/\<close>: Deno, Hono, Kysely
  over PostgreSQL), with a web client, a landing site and scripts around it. The development models three
  parts of the server where correctness depends on more than one request: its asynchronous core (the durable
  event log, the mail outbox, the scheduled jobs, the mailing lists and campaigns, and the loops that drive
  them), the way customer data comes in (uploaded files, storage keys, and the spreadsheet import down to
  the contacts it writes), and accounts and access (sign-in, sessions, teams, portal links).

  \<^bold>\<open>The parts and how they interact\<close>

  \<^item> A change publishes an event in its own transaction (\<^verbatim>\<open>src/lib/events.ts\<close>); the publish queues one
    delivery per matching subscription. Events also arrive from outside through the signed inbox
    (\<^verbatim>\<open>src/api/routes/events/index.ts\<close>, \<^verbatim>\<open>src/lib/event-signing.ts\<close>) and leave to webhooks
    (\<^verbatim>\<open>src/lib/event-webhooks.ts\<close>). A consumer on every replica (\<^verbatim>\<open>src/jobs/event-consumer.ts\<close>)
    claims deliveries with \<^verbatim>\<open>FOR UPDATE SKIP LOCKED\<close> and runs their handlers.
  \<^item> The job runner (\<^verbatim>\<open>src/jobs/runner.ts\<close>) ticks on every replica: it runs due jobs
    (\<^verbatim>\<open>src/services/scheduled-jobs.service.ts\<close>, \<^verbatim>\<open>src/jobs/registry.ts\<close>, \<^verbatim>\<open>src/jobs/cron.ts\<close>),
    which mostly queue mail; it advances the campaigns
    (\<^verbatim>\<open>src/services/mailing/campaign.service.ts\<close>), which queue mail; and it delivers the outbox
    (\<^verbatim>\<open>src/services/email-outbox.service.ts\<close>).
  \<^item> Who may be mailed is decided by the address hygiene, the sender policy, the communications gate and
    the suppression list (\<^verbatim>\<open>src/services/mailing/\<close>, \<^verbatim>\<open>src/services/communications.service.ts\<close>);
    bounces and one-click unsubscribes feed back into them. People get onto a list by signing up, by hand or by
    an import (\<^verbatim>\<open>src/services/mailing/contacts.service.ts\<close>), all three screened by the same rules.
  \<^item> A file is checked against the upload types (\<^verbatim>\<open>src/utils/upload-types.ts\<close>), stored under a key of its
    workspace (\<^verbatim>\<open>src/services/storage-keys.ts\<close>) with a row that says who may see it
    (\<^verbatim>\<open>src/services/uploaded-file.service.ts\<close>, the routes of \<^verbatim>\<open>src/api/routes/files/index.ts\<close>, the roles of
    \<^verbatim>\<open>src/lib/roles.ts\<close>), and reviewed.
  \<^item> The import wizard (\<^verbatim>\<open>src/services/import/\<close>) reads such a file as a sheet, proposes what its columns mean,
    normalizes every row, recognises the records that exist, shows a preview and commits the rows in one
    transaction through the definition that a part of the application registers; the contacts are one.
  \<^item> People sign in with a code or through a provider (\<^verbatim>\<open>src/api/routes/auth/index.ts\<close>,
    \<^verbatim>\<open>src/lib/oauth-providers.ts\<close>), with the link of an invitation (\<^verbatim>\<open>src/services/invite.service.ts\<close>,
    \<^verbatim>\<open>src/api/routes/invite/index.ts\<close>) or of a portal (\<^verbatim>\<open>src/services/portal-access.service.ts\<close>,
    \<^verbatim>\<open>src/api/routes/portal/index.ts\<close>); the platform's verifier signs in with a token of its own
    (\<^verbatim>\<open>src/api/routes/auth/verification-session.ts\<close> and its two libraries). Every route reads the account of
    a session anew (\<^verbatim>\<open>src/api/middleware/auth.ts\<close>), and the roles of that account decide what it may do, in
    its organization (\<^verbatim>\<open>src/api/routes/org/index.ts\<close>) and with files.

  \<^bold>\<open>How the code is modelled\<close>

  A table is the list of its rows, a row is a record with the columns of \<^verbatim>\<open>src/db/schema.ts\<close>, and a
  query is a list function of \<open>Prelude\<close> (\<open>updateWhere\<close>, \<open>deleteWhere\<close>, \<open>orderedLimit\<close>,
  \<open>insertOnConflictDoNothing\<close>). A transaction is a function from the tables to the tables; one that can
  throw returns \<open>Inl\<close> of an error of \<^verbatim>\<open>src/utils/errors.ts\<close> and then no tables, because it rolls back.
  Where another process can commit between two transactions of one function, a function argument
  (\<open>meanwhile\<close>) stands for what it does; the machine of the campaigns lets whole runs of itself happen
  there, unless its parameter \<open>calm\<close> says that each resume and cancel runs in one go. A write that the code
  only waits for with \<^verbatim>\<open>withTimeout\<close> (\<^verbatim>\<open>src/db/client.ts\<close>) may still land after its caller got the
  error (\<open>EventProcess.dbWrite\<close>, the \<open>txFault\<close> of an import). Rows that other transactions hold locked
  are a set argument.
  The account routes run many statements per request, so there a request is a tree of statements
  (\<open>request\<close>): \<open>handle\<close> runs one alone, \<open>serverStep\<close> interleaves any number of them statement by
  statement, and the locale \<open>request_system\<close> says what holds under every interleaving.
  Times are integer milliseconds and strings are lists of characters up to U+00FF. Environment variables,
  clocks, generated ids, random numbers, the HMAC, the URL parser, \<^verbatim>\<open>fetch\<close>, SMTP, DNS answers, the
  cron library, the workbook reader, the UTF-8 decoder and JSON parsing are parameters; what the code relies on of them stands as a named
  hypothesis where a theorem needs it.

  \<^bold>\<open>The theories\<close>

  \<^item> \<open>Prelude\<close>: types, errors, tables, the locale \<open>machine\<close> (reachable states and invariants).
    \<open>JsText\<close>, \<open>JsNumber\<close>: the JavaScript string operations and \<^verbatim>\<open>Number\<close>. \<open>ClaimQueue\<close>: the locale
    \<open>claim_queue\<close>, the contract of a table whose due rows are claimed and locked.
  \<^item> \<open>EventData\<close> (tables, registry, publish, sync), \<open>EventQueue\<close> (claim, complete, fail, release, replay,
    requeue, retention), \<open>EventProcess\<close> (idempotency keys, \<open>processDelivery\<close>): the definitions of
    \<^verbatim>\<open>src/lib/events.ts\<close>. \<open>EventInvariants\<close> and \<open>EventSystem\<close>: the invariant of the tables and the machine
    with one step per transaction of any process. \<open>EventClaims\<close>, \<open>EventOutcomes\<close>, \<open>EventPublishing\<close>: what
    claims, outcomes and the log promise; the locale \<open>fenced_writes\<close> is the contract of a status write
    that carries its claim's token. \<open>EventSigning\<close>, \<open>EventWebhooks\<close>, \<open>EventInbox\<close>: the HTTP boundary.
    \<open>EventConsumer\<close>: the tuning, the tick and the loop as a machine of timers.
  \<^item> \<open>Outbox\<close>: enqueue, claim and delivery of mail. \<open>ScheduledJobs\<close>: registry, schedules, claims and runs.
    Both interpret \<open>claim_queue\<close>.
  \<^item> \<open>MailHygiene\<close> and \<open>MailPolicy\<close>: which addresses and senders are accepted. \<open>UnsubscribeToken\<close>: the
    signed links. \<open>MailGate\<close>: suppression, preferences, provider feedback. \<open>Campaign\<close> and
    \<open>CampaignAdvance\<close>: the operations of the campaign service. \<open>CampaignSystem\<close>: campaigns, recipients and
    outbox as a machine, its invariant, the order in which rows develop, and that releases succeed.
    \<open>CampaignProofs\<close>: its properties.
  \<^item> \<open>JobRunner\<close>: one tick over jobs, campaigns and outbox, and the runner's loop as a machine.
  \<^item> \<open>Roles\<close>, \<open>UploadTypes\<close>, \<open>StorageKeys\<close>, \<open>UploadedFiles\<close>: who may do what, which files are accepted, where
    they lie, and the rows and routes over them. \<open>UploadedFilesProofs\<close>: the machine of the file routes (an
    interpretation of \<open>machine\<close>) and its invariant.
  \<^item> \<open>JsDecimal\<close>: finite numbers as exact decimals. \<open>ImportDefinitions\<close> (the registry and its checks),
    \<open>ImportParse\<close> (both readers and the header detection), \<open>ImportNormalize\<close> (cells and rows), \<open>ImportMapping\<close>
    (the proposal, the mapping, the identities), \<open>ImportSession\<close> (the four steps of the wizard over the tables
    \<open>'db\<close> of a definition), each with its theory of proofs. \<open>ImportTarget\<close>: the locale \<open>import_target\<close>, what a
    definition owes the wizard so that a re-import updates. \<open>Contacts\<close>: sign-up, manual and imported contacts;
    \<open>ContactsProofs\<close> interprets \<open>import_target\<close> on the contacts definition.
  \<^item> \<open>Requests\<close>: requests, how they run alone and interleaved, and the locale \<open>request_system\<close>. \<open>Accounts\<close>: the
    tables, their statements, their invariant and how they may move. \<open>Base64Url\<close>: the text encodings of tokens.
    \<open>Sessions\<close> (tokens, cookies, \<open>requireAuth\<close>, capabilities, the read-only guard), \<open>SignIn\<close> (codes and sign-up),
    \<open>SessionRoutes\<close> (the session, the profile, the e-mail change), \<open>OAuth\<close>, \<open>Team\<close> (invitations, organization,
    members), \<open>Portal\<close> and \<open>VerificationSession\<close>: the definitions. \<open>AccountInvariants\<close>: each statement keeps
    the tables. \<open>AccountSystem\<close>: the locale \<open>standing\<close>, the contract of a condition on who belongs where with
    which role, and the rules by which a handler keeps it. \<open>AccountRequests\<close> and \<open>AccountServer\<close> apply them to
    every route (the locale \<open>standing_changes\<close> for those that change a role or an organization) and interpret
    \<open>request_system\<close>. \<open>SignedIn\<close>: what a request behind \<open>requireAuth\<close> can do. \<open>Ownership\<close>: at most one owner,
    at least one owner. \<open>AccountExamples\<close>: a run for the witnesses. \<open>AccountProofs\<close> and \<open>AccessProofs\<close>: the
    properties of the server and of single requests.

  \<^bold>\<open>What the lemmas show\<close>

  \<^item> Safety of claims: a delivery is handed to one worker at a time (C3), and so is a mail (C29) or a job (C30),
    both up to the limit and earliest first; a claim that lost its row moves no delivery and of the writes under
    one claim only the first takes effect (C4); an idempotency key has one running holder and counts as handled
    when that one completes (C12); a claim that timed out leaves nothing running, or, if its release fails, only
    what the reaper then frees (C22).
  \<^item> Progress: a processed delivery does not stay running while the write of a failure goes through (C21), and
    is dead after its budget (C23), with a bounded backoff
    (\<open>EventOutcomes.backoff_bounds\<close>); the consumer has one timer or tick if it is started again only after a
    stop has settled (C26), and coalesces wakes (\<open>EventConsumer.wakes_coalesce\<close>); a campaign step respects the
    warm-up (C35) and never fails (C36); a tick delivers what it queued
    (\<open>JobRunner.tick_delivers_what_it_queued\<close>); a publish fans out once (C24) and the sweep keeps unfinished
    work (C25).
  \<^item> Invariants over all interleavings: of the event tables (C1, with \<open>processDelivery\<close> as a run of their
    machine, C2), of the mailing tables (C11, C34, each with a part that holds whatever comes between the
    statements of a resume or a cancel and a part for calm runs), of the consumer (C26), of the stored files
    (C16) and of the account tables (C5).
  \<^item> The boundary: the inbox (\<open>EventInbox.inbox_fails_closed\<close>), webhooks and the SSRF guard (C27, C28), signatures
    (\<open>EventSigning.signed_event_verifies\<close>, \<open>EventSigning.accepted_signature_binds_the_body\<close>), raw storage
    keys (C37), who is shown which file (\<open>UploadedFilesProofs.shown_files_are_the_readable_ones\<close>), which uploads are
    accepted (\<open>UploadTypes.upload_options_only_narrow\<close>).
  \<^item> Mail: settlement of the outbox (\<open>Outbox.mail_pass_settles_its_claims\<close>), the typo
    suggestions (C31), hygiene and sender policy (\<open>MailPolicy\<close>), unsubscribe links of addresses without a
    vertical bar (C32) and what an unsubscribe stops (C33), feedback (\<open>MailGate.feedback_is_counted_once\<close>).
  \<^item> Reading a sheet: CSV files read back (C38), a second reading gives the same sheet
    (\<open>ImportParseProofs.reread_gives_the_same_sheet\<close>). Cells: stored values read back, dates are days of the calendar,
    rows are typed (\<open>ImportNormalizeProofs\<close>). Columns: the proposal does not depend on their order, is accepted as it
    is, and an accepted mapping is one to one (\<open>ImportMappingProofs\<close>).
  \<^item> The import: every row is decided and no two written rows share an identity key (C15), each commit is all
    or nothing and accounts for every row (C8), an import of contacts re-subscribes nobody (C7) and updates
    when it is repeated (\<open>ContactsProofs.reimport_updates_contacts\<close>, from the locale \<open>import_target\<close>); a sign-up
    speaks for one person (\<open>ContactsProofs.signup_speaks_for_one\<close>).
  \<^item> Accounts: how often a code can be guessed (C6) and that nobody signs in without it (C18); that what was used
    or revoked stays dead (C10, C14, C19), for any later interleaving; who can own (C9, C17) and change
    (C13, C40) a membership; and what ends or restricts a session (C20, C39).
  \<^item> Lemmas named in the findings of the manifest execute the model on an input where the code does not do
    what it says, e.g. \<open>EventOutcomes.replay_then_stale_claim_runs_again\<close>,
    \<open>EventClaims.failed_release_leaves_rows_running\<close>, \<open>EventOutcomes.late_answer_misreports\<close>,
    \<open>EventConsumer.restart_during_a_tick_makes_two_loops\<close>, \<open>CampaignProofs.resume_undoes_a_cancel\<close>,
    \<open>CampaignProofs.cancel_races_a_start\<close>, \<open>ImportSessionProofs.timed_out_import_may_land\<close>,
    \<open>ImportSessionProofs.two_rows_may_update_one_record\<close>, \<open>AccessProofs.detached_member_is_locked_out\<close>,
    \<open>AccountProofs.accepting_owner_abandons\<close> and \<open>AccessProofs.taken_slug_blocks_sign_up\<close>.

  \<^bold>\<open>Bounds\<close>

  No definition needs fuel: every loop of the code is a recursion over a list or a bounded count, except
  the retention sweep, whose own bound on the number of batches is the recursion's argument. The loops of
  the consumer and the runner are step relations, so nothing is assumed about how long they run.

  \<^bold>\<open>Not modelled\<close>

  Row locks are modelled by what they exclude, not by waiting; read-committed anomalies inside one
  transaction are not, and a commit of an import is one step, so nothing comes between its screening and its
  write. A failing database write is a branch where the code handles it (\<open>EventProcess\<close>, \<open>Outbox\<close>,
  \<open>UploadedFiles\<close>, the commit of an import) and otherwise means that the transaction did not happen.
  Characters above U+00FF are outside the model, except in the CSV reader, which works on UTF-16 units. Log
  lines, metrics and the Redis nudge are left out, and so are the signed URLs and the drivers of the storage
  and the parsing of multipart bodies. Of accounts and access, the mails, the response cookies, the redirect to a
  provider, API keys and the OAuth tokens of connected assistants are left out; the objects of avatars are, too.
  Ownership is proved for transfers that run in one go: the code demotes a caller who owns whatever organization, so a
  transfer that another one overtakes is outside that theorem. The rest of the server (billing, agents, content
  services, the routes over the modelled services), the clients and the scripts are listed with their reasons in
  the manifest.
\<close>

end
